(* ===== verification/Wifi_Prelude.thy ===== *)
theory Wifi_Prelude
  imports Main "HOL-Library.Word" "HOL-Library.Monad_Syntax"
begin

text \<open>
  Shared vocabulary of the development: the machine integers of the C code, the
  little-endian layout that \<open>memcpy\<close> between an integer and a byte buffer uses on the
  target (ARM, little-endian), bounds-checked buffer accesses, and the interface every
  fixed-width encoding of the code obeys.

  An access outside a buffer is the value \<open>None\<close>: the functions that index arrays or call
  \<open>memcpy\<close> return an option, and a theorem that they return \<open>Some\<close> says that the C code
  stays inside its buffers.
\<close>

unbundle bit_operations_syntax

named_theorems le_simps \<open>lengths and decodings of little-endian integers\<close>
named_theorems mem_simps \<open>bounds-checked loads and stores\<close>

section \<open>Machine integers and bytes\<close>

type_synonym byte = "8 word"
type_synonym u8 = "8 word"
type_synonym u16 = "16 word"
type_synonym u32 = "32 word"
type_synonym u64 = "64 word"

text \<open>The bytes of an integer in memory, least significant first.\<close>

definition le16 :: "u16 \<Rightarrow> byte list" where
  "le16 w = [ucast w, ucast (drop_bit 8 w)]"

definition le32 :: "u32 \<Rightarrow> byte list" where
  "le32 w = [ucast w, ucast (drop_bit 8 w), ucast (drop_bit 16 w), ucast (drop_bit 24 w)]"

text \<open>The integer whose bytes start a buffer; a shorter buffer reads as padded with zeros.\<close>

fun ld16 :: "byte list \<Rightarrow> u16" where
  "ld16 (a # b # _) = ucast a OR push_bit 8 (ucast b)"
| "ld16 _ = 0"

fun ld32 :: "byte list \<Rightarrow> u32" where
  "ld32 (a # b # c # d # _) =
     ucast a OR push_bit 8 (ucast b) OR push_bit 16 (ucast c) OR push_bit 24 (ucast d)"
| "ld32 _ = 0"

lemma length_le16 [simp, le_simps]: "length (le16 w) = 2"
  by (simp add: le16_def)

lemma length_le32 [simp, le_simps]: "length (le32 w) = 4"
  by (simp add: le32_def)

lemma ld16_le16 [simp, le_simps]: "ld16 (le16 w @ rest) = w"
  by (rule bit_word_eqI) (auto simp: le16_def bit_simps)

lemma ld32_le32 [simp, le_simps]: "ld32 (le32 w @ rest) = w"
proof (rule bit_word_eqI)
  fix n assume n: "n < LENGTH(32)"
  consider "n < 8" | "8 \<le> n" "n < 16" | "16 \<le> n" "n < 24" | "24 \<le> n" "n < 32"
    using n by fastforce
  then show "bit (ld32 (le32 w @ rest)) n = bit w n"
    by cases (auto simp: le32_def bit_simps)
qed

lemma ld16_le16_nil [simp]: "ld16 (le16 w) = w"
  using ld16_le16 [of w "[]"] by simp

lemma ld32_le32_nil [simp]: "ld32 (le32 w) = w"
  using ld32_le32 [of w "[]"] by simp

lemma byte_high_bit [simp]: "8 \<le> n \<Longrightarrow> \<not> bit (b::byte) n"
  by (auto dest: bit_imp_le_length)

lemma le16_ld16: "length bs = 2 \<Longrightarrow> le16 (ld16 bs) = bs"
proof -
  assume "length bs = 2"
  then obtain a b where bs: "bs = [a, b]"
    by (auto simp: numeral_2_eq_2 length_Suc_conv)
  show ?thesis
    unfolding bs le16_def
    by (auto intro!: bit_word_eqI simp: bit_simps)
qed

lemma le32_ld32: "length bs = 4 \<Longrightarrow> le32 (ld32 bs) = bs"
proof -
  assume "length bs = 4"
  then obtain a b c d where bs: "bs = [a, b, c, d]"
    by (auto simp: eval_nat_numeral length_Suc_conv)
  show ?thesis
    unfolding bs le32_def
    by (auto intro!: bit_word_eqI simp: bit_simps)
qed

lemma le32_inject: "le32 v = le32 w \<longleftrightarrow> v = w"
  by (metis ld32_le32_nil)

section \<open>Buffers\<close>

text \<open>
  \<open>load bs off n\<close> is the source range of a \<open>memcpy\<close> of \<open>n\<close> bytes from \<open>bs + off\<close>,
  \<open>store bs off xs\<close> the effect of a \<open>memcpy\<close> of \<open>xs\<close> to \<open>bs + off\<close>, and
  \<open>idx xs i\<close> the array read \<open>xs[i]\<close>.
\<close>

definition load :: "byte list \<Rightarrow> nat \<Rightarrow> nat \<Rightarrow> byte list option" where
  "load bs off n = (if off + n \<le> length bs then Some (take n (drop off bs)) else None)"

definition store :: "byte list \<Rightarrow> nat \<Rightarrow> byte list \<Rightarrow> byte list option" where
  "store bs off xs =
     (if off + length xs \<le> length bs
      then Some (take off bs @ xs @ drop (off + length xs) bs) else None)"

definition idx :: "'a list \<Rightarrow> nat \<Rightarrow> 'a option" where
  "idx xs i = (if i < length xs then Some (xs ! i) else None)"

lemma load_Some [mem_simps]:
  "off + n \<le> length bs \<Longrightarrow> load bs off n = Some (take n (drop off bs))"
  by (simp add: load_def)

lemma load_eq_None [mem_simps]: "load bs off n = None \<longleftrightarrow> length bs < off + n"
  by (auto simp: load_def)

lemma load_length: "load bs off n = Some xs \<Longrightarrow> length xs = n"
  by (auto simp: load_def split: if_splits)

lemma store_Some [mem_simps]:
  "off + length xs \<le> length bs \<Longrightarrow>
     store bs off xs = Some (take off bs @ xs @ drop (off + length xs) bs)"
  by (simp add: store_def)

lemma store_eq_None [mem_simps]: "store bs off xs = None \<longleftrightarrow> length bs < off + length xs"
  by (auto simp: store_def)

lemma store_length: "store bs off xs = Some bs' \<Longrightarrow> length bs' = length bs"
  by (auto simp: store_def split: if_splits)

lemma load_store_same: "store bs off xs = Some bs' \<Longrightarrow> load bs' off (length xs) = Some xs"
  by (auto simp: store_def load_def split: if_splits)

lemma load_store_disjoint:
  assumes "store bs off xs = Some bs'" and "o' + n \<le> off \<or> off + length xs \<le> o'"
  shows "load bs' o' n = load bs o' n"
proof -
  from assms(1) have bs': "bs' = take off bs @ xs @ drop (off + length xs) bs"
    and le: "off + length xs \<le> length bs"
    by (auto simp: store_def split: if_splits)
  have len: "length bs' = length bs"
    using store_length [OF assms(1)] .
  have "take n (drop o' bs') = take n (drop o' bs)"
    using assms(2)
  proof
    assume "o' + n \<le> off"
    then show ?thesis
      using le by (auto simp: bs' drop_take min_def)
  next
    assume o': "off + length xs \<le> o'"
    then have "drop o' bs' = drop (o' - (off + length xs)) (drop (off + length xs) bs)"
      using le by (simp add: bs' min_def)
    also have "\<dots> = drop o' bs"
      using o' by simp
    finally show ?thesis by simp
  qed
  then show ?thesis
    by (simp add: load_def len)
qed

lemma idx_eq_None [mem_simps]: "idx xs i = None \<longleftrightarrow> length xs \<le> i"
  by (auto simp: idx_def)

lemma idx_Some_iff: "idx xs i = Some x \<longleftrightarrow> i < length xs \<and> xs ! i = x"
  by (auto simp: idx_def)

section \<open>Table search\<close>

text \<open>Searching a table by a key that identifies its entries finds exactly the entry.\<close>

lemma find_distinct_key:
  assumes "distinct (map k xs)"
  shows "find (\<lambda>x. v = k x) xs = Some x \<longleftrightarrow> x \<in> set xs \<and> k x = v"
  using assms
  by (induction xs) (auto simp: image_iff)

section \<open>Fixed-width encodings\<close>

text \<open>
  The contract of every packed struct and integer the code copies to or from a byte
  buffer: the encoding has a fixed width, and decoding a buffer that starts with an
  encoded value returns that value.
\<close>

locale codec =
  fixes enc :: "'a \<Rightarrow> byte list"
    and dec :: "byte list \<Rightarrow> 'a"
    and width :: nat
  assumes enc_width: "length (enc x) = width"
    and dec_enc: "dec (enc x @ rest) = x"
begin

lemma enc_inject: "enc x = enc y \<longleftrightarrow> x = y"
  by (metis append_Nil2 dec_enc)

lemma dec_at: "length pre = n \<Longrightarrow> dec (drop n (pre @ enc x @ rest)) = x"
  by (simp add: dec_enc)

lemma enc_append_inject: "enc x @ xs = enc y @ ys \<longleftrightarrow> x = y \<and> xs = ys"
proof
  assume eq: "enc x @ xs = enc y @ ys"
  then have "enc x = enc y"
    by (metis append_eq_append_conv enc_width)
  with eq show "x = y \<and> xs = ys"
    by (simp add: enc_inject)
qed auto

lemma load_enc: "load (pre @ enc x @ rest) (length pre) width = Some (enc x)"
  using enc_width [of x] by (auto simp: load_def)

end

interpretation le16: codec le16 ld16 2
  by unfold_locales simp_all

interpretation le32: codec le32 ld32 4
  by unfold_locales simp_all

section \<open>Widening and bits\<close>

lemma unat_ucast_16_32 [simp]: "unat (ucast (x::u16) :: u32) = unat x"
  by transfer (simp add: take_bit_take_bit)

lemma unat_ucast_8_16 [simp]: "unat (ucast (x::u8) :: u16) = unat x"
  by transfer (simp add: take_bit_take_bit)

lemma unat_ucast_8_32 [simp]: "unat (ucast (x::u8) :: u32) = unat x"
  by transfer (simp add: take_bit_take_bit)

lemma unat_ucast_16_8: "unat (ucast (x::u16) :: u8) = unat x mod 256"
  by (simp add: unsigned_ucast_eq unsigned_take_bit_eq take_bit_eq_mod)

lemma unat_u8_less [simp]: "unat (x::u8) < 256"
  using unsigned_less [of x] by simp

lemma unat_u16_less [simp]: "unat (x::u16) < 65536"
  using unsigned_less [of x] by simp

lemma unat_u32_less [simp]: "unat (x::u32) < 4294967296"
  using unsigned_less [of x] by simp

lemma and_push_bit_one_zero_iff [simp]:
  fixes w :: "'a::len word"
  shows "w AND push_bit n 1 = 0 \<longleftrightarrow> \<not> bit w n"
  using and_exp_eq_0_iff_not_bit [of w n] by (simp add: push_bit_of_1)

lemma word_and_1_zero_iff: "(w::'a::len word) AND 1 = 0 \<longleftrightarrow> \<not> bit w 0"
  using and_push_bit_one_zero_iff [of w 0] by simp

end
