(* ===== verification/Kernel_Iface.thy ===== *)
theory Kernel_Iface
  imports Wifi_Prelude
begin

text \<open>
  The services the kernel plugin calls and this repository does not define: the PS Vita
  kernel (files, sockets, mutexes, copies to user space), taiHEN (hooks and module lookup)
  and the original WLAN driver whose functions the plugin reaches through pointers. They
  are the fields of a record of functions over an unspecified world \<open>'w\<close>: every definition
  that calls one takes the record as its first argument. What a property needs to know about
  them is one of the named hypotheses at the end of this theory; \<open>demo_kernel\<close> is a small
  concrete kernel on which the hypotheses hold and the witnesses run.
\<close>

section \<open>The interface\<close>

text \<open>
  There is one WLAN device, so the driver's functions take no device argument. The constants
  of the network library are fields too.
\<close>

text \<open>The socket address the plugin fills in: family, port and address.\<close>

record sockaddr_in =
  sin_family :: u8
  sin_port :: u16
  s_addr :: u32

text \<open>
  A driver command buffer: \<open>out_data\<close> and \<open>in_data\<close> are the buffers its pointers of the
  same names lead to.
\<close>

record wlan_cmd =
  cmd_handle :: nat
  result_cb :: u32
  out_data :: "byte list"
  in_data :: "byte list"

record 'w kernel =
  ENTER_SYSCALL :: "'w \<Rightarrow> u32 \<times> 'w"
  EXIT_SYSCALL :: "u32 \<Rightarrow> 'w \<Rightarrow> 'w"
  ksceIoOpen :: "string \<Rightarrow> 'w \<Rightarrow> int \<times> 'w"
  ksceIoWrite :: "int \<Rightarrow> byte list \<Rightarrow> 'w \<Rightarrow> int \<times> 'w"
  ksceIoWriteAsync :: "int \<Rightarrow> byte list \<Rightarrow> 'w \<Rightarrow> int \<times> 'w"
  ksceIoClose :: "int \<Rightarrow> 'w \<Rightarrow> int \<times> 'w"
  ksceKernelLibcGettimeofday :: "'w \<Rightarrow> (u32 \<times> u32) \<times> 'w"
  ksceNetSocket :: "'w \<Rightarrow> int \<times> 'w"
  ksceNetClose :: "int \<Rightarrow> 'w \<Rightarrow> int \<times> 'w"
  SCE_NET_AF_INET :: u8
  SCE_NET_INADDR_LOOPBACK :: u32
  ksceNetHtons :: "u16 \<Rightarrow> u16"
  ksceNetSendto :: "int \<Rightarrow> byte list \<Rightarrow> sockaddr_in \<Rightarrow> 'w \<Rightarrow> int \<times> 'w"
  ksceKernelCreateMutex :: "'w \<Rightarrow> int \<times> 'w"
  ksceKernelLockMutex :: "int \<Rightarrow> 'w \<Rightarrow> int \<times> 'w"
  ksceKernelUnlockMutex :: "int \<Rightarrow> 'w \<Rightarrow> int \<times> 'w"
  ksceKernelDeleteMutex :: "int \<Rightarrow> 'w \<Rightarrow> int \<times> 'w"
  ksceKernelMemcpyKernelToUser :: "u32 \<Rightarrow> byte list \<Rightarrow> 'w \<Rightarrow> int \<times> 'w"
  taiGetModuleInfoForKernel :: "string \<Rightarrow> 'w \<Rightarrow> (int \<times> int) \<times> 'w"
  module_get_offset :: "int \<Rightarrow> u32 \<Rightarrow> 'w \<Rightarrow> u32 \<times> 'w"
  taiHookFunctionOffsetForKernel :: "int \<Rightarrow> u32 \<Rightarrow> string \<Rightarrow> 'w \<Rightarrow> (int \<times> u32) \<times> 'w"
  taiInjectReleaseForKernel :: "int \<Rightarrow> 'w \<Rightarrow> int \<times> 'w"
  taiHookReleaseForKernel :: "int \<Rightarrow> u32 \<Rightarrow> 'w \<Rightarrow> int \<times> 'w"
  orig_process_response :: "byte list \<Rightarrow> int \<Rightarrow> 'w \<Rightarrow> int \<times> 'w"
  orig_ioctl :: "u32 \<Rightarrow> byte list \<Rightarrow> int \<Rightarrow> 'w \<Rightarrow> (int \<times> byte list) \<times> 'w"
  wlan_lock :: "'w \<Rightarrow> int \<times> 'w"
  wlan_unlock :: "'w \<Rightarrow> unit \<times> 'w"
  wlan_cmd_alloc :: "int \<Rightarrow> 'w \<Rightarrow> wlan_cmd option \<times> 'w"
  wlan_cmd_send2 :: "wlan_cmd \<Rightarrow> u16 \<Rightarrow> int \<Rightarrow> 'w \<Rightarrow> (int \<times> wlan_cmd) \<times> 'w"
  wlan_cmd_wait :: "wlan_cmd \<Rightarrow> 'w \<Rightarrow> (int \<times> wlan_cmd) \<times> 'w"
  wlan_cmd_free :: "wlan_cmd \<Rightarrow> 'w \<Rightarrow> int \<times> 'w"
  wlan_mem_read :: "u32 \<Rightarrow> u32 \<Rightarrow> 'w \<Rightarrow> (int \<times> u32) \<times> 'w"
  wlan_mem_write :: "u32 \<Rightarrow> u32 \<Rightarrow> 'w \<Rightarrow> int \<times> 'w"

text \<open>
  The globals of a module are a record that extends this one, so that a function of one
  module runs unchanged on the globals of the whole plugin. \<open>sys\<close> performs a kernel call.
\<close>

record 'w globals =
  world :: 'w

definition sys :: "('w \<Rightarrow> 'a \<times> 'w) \<Rightarrow> ('w, 'm) globals_scheme \<Rightarrow> 'a \<times> ('w, 'm) globals_scheme" where
  "sys f s = (case f (world s) of (r, w) \<Rightarrow> (r, s\<lparr>world := w\<rparr>))"

lemma sys_eq: "f (world s) = (r, w) \<Longrightarrow> sys f s = (r, s\<lparr>world := w\<rparr>)"
  by (simp add: sys_def)

text \<open>The same, written without a case distinction: a rewrite rule for whole call sequences.\<close>

lemma sys_update: "sys f s = (fst (f (world s)), s\<lparr>world := snd (f (world s))\<rparr>)"
  by (simp add: sys_def split: prod.split)

lemma world_snd_sys [simp]: "world (snd (sys f s)) = snd (f (world s))"
  by (simp add: sys_def split: prod.split)

lemma fst_sys [simp]: "fst (sys f s) = fst (f (world s))"
  by (simp add: sys_def split: prod.split)

section \<open>Hypotheses on the kernel\<close>

text \<open>
  Files: \<open>content w fd\<close> is the content of the file open as \<open>fd\<close>. Opening for writing with
  \<open>SCE_O_CREAT|SCE_O_TRUNC\<close> starts an empty file, a write that does not fail appends its
  bytes, and reading the clock leaves files alone.
\<close>

definition file_laws :: "'w kernel \<Rightarrow> ('w \<Rightarrow> int \<Rightarrow> byte list) \<Rightarrow> bool" where
  "file_laws k content \<longleftrightarrow>
     (\<forall>f w fd w'. ksceIoOpen k f w = (fd, w') \<longrightarrow> 0 \<le> fd \<longrightarrow> content w' fd = []) \<and>
     (\<forall>fd bs w r w'. ksceIoWrite k fd bs w = (r, w') \<longrightarrow> 0 \<le> r \<longrightarrow>
        content w' fd = content w fd @ bs) \<and>
     (\<forall>fd bs w r w'. ksceIoWriteAsync k fd bs w = (r, w') \<longrightarrow> 0 \<le> r \<longrightarrow>
        content w' fd = content w fd @ bs) \<and>
     (\<forall>w tv w'. ksceKernelLibcGettimeofday k w = (tv, w') \<longrightarrow> content w' = content w)"

lemma file_lawsD:
  assumes "file_laws k content"
  shows file_laws_open:
      "ksceIoOpen k f w = (fd, w') \<Longrightarrow> 0 \<le> fd \<Longrightarrow> content w' fd = []"
    and file_laws_write:
      "ksceIoWrite k fd bs w = (r, w') \<Longrightarrow> 0 \<le> r \<Longrightarrow> content w' fd = content w fd @ bs"
    and file_laws_async:
      "ksceIoWriteAsync k fd bs w = (r, w') \<Longrightarrow> 0 \<le> r \<Longrightarrow> content w' fd = content w fd @ bs"
    and file_laws_clock:
      "ksceKernelLibcGettimeofday k w = (tv, w') \<Longrightarrow> content w' = content w"
  using assms unfolding file_laws_def by blast+

text \<open>
  Locks: \<open>held w\<close> is how often the plugin's mutex is held and \<open>wheld w\<close> how often the
  driver's lock is; \<open>depth w\<close> is the pair. Lock and unlock move the counts (a lock that fails
  does not), every other service leaves them as they are.
\<close>

definition neutral :: "('w \<Rightarrow> 'd) \<Rightarrow> ('w \<Rightarrow> 'a \<times> 'w) \<Rightarrow> bool" where
  "neutral d f \<longleftrightarrow> (\<forall>w. d (snd (f w)) = d w)"

lemma neutral_sys [simp]: "neutral d f \<Longrightarrow> d (world (snd (sys f s))) = d (world s)"
  by (simp add: neutral_def)

definition lock_laws :: "'w kernel \<Rightarrow> ('w \<Rightarrow> int) \<Rightarrow> ('w \<Rightarrow> int) \<Rightarrow> bool" where
  "lock_laws k held wheld \<longleftrightarrow>
     (\<forall>m w r w'. ksceKernelLockMutex k m w = (r, w') \<longrightarrow>
        held w' = (if 0 \<le> r then held w + 1 else held w) \<and> wheld w' = wheld w) \<and>
     (\<forall>m w r w'. ksceKernelUnlockMutex k m w = (r, w') \<longrightarrow>
        held w' = held w - 1 \<and> wheld w' = wheld w) \<and>
     (\<forall>w r w'. wlan_lock k w = (r, w') \<longrightarrow>
        wheld w' = (if 0 \<le> r then wheld w + 1 else wheld w) \<and> held w' = held w) \<and>
     (\<forall>w r w'. wlan_unlock k w = (r, w') \<longrightarrow> wheld w' = wheld w - 1 \<and> held w' = held w)"

definition quiet_laws :: "'w kernel \<Rightarrow> ('w \<Rightarrow> 'd) \<Rightarrow> bool" where
  "quiet_laws k d \<longleftrightarrow>
     neutral d (ENTER_SYSCALL k) \<and> (\<forall>st w. d (EXIT_SYSCALL k st w) = d w) \<and>
     (\<forall>f. neutral d (ksceIoOpen k f)) \<and> (\<forall>fd bs. neutral d (ksceIoWrite k fd bs)) \<and>
     (\<forall>fd. neutral d (ksceIoClose k fd)) \<and> neutral d (ksceNetSocket k) \<and>
     (\<forall>fd. neutral d (ksceNetClose k fd)) \<and>
     (\<forall>p bs. neutral d (ksceKernelMemcpyKernelToUser k p bs)) \<and>
     (\<forall>pkt n. neutral d (orig_process_response k pkt n)) \<and>
     (\<forall>req buf n. neutral d (orig_ioctl k req buf n)) \<and>
     (\<forall>n. neutral d (wlan_cmd_alloc k n)) \<and> (\<forall>c i n. neutral d (wlan_cmd_send2 k c i n)) \<and>
     (\<forall>c. neutral d (wlan_cmd_wait k c)) \<and> (\<forall>c. neutral d (wlan_cmd_free k c)) \<and>
     (\<forall>a v. neutral d (wlan_mem_read k a v)) \<and> (\<forall>a v. neutral d (wlan_mem_write k a v))"

definition locking :: "'w kernel \<Rightarrow> ('w \<Rightarrow> int) \<Rightarrow> ('w \<Rightarrow> int) \<Rightarrow> bool" where
  "locking k held wheld \<longleftrightarrow> lock_laws k held wheld \<and> quiet_laws k held \<and> quiet_laws k wheld"

lemma quiet_calls:
  assumes "quiet_laws k d"
  shows "d (snd (ENTER_SYSCALL k w)) = d w" "d (EXIT_SYSCALL k st w) = d w"
    "d (snd (ksceIoOpen k f w)) = d w" "d (snd (ksceIoWrite k fd bs w)) = d w"
    "d (snd (ksceIoClose k fd w)) = d w" "d (snd (ksceNetSocket k w)) = d w"
    "d (snd (ksceNetClose k fd w)) = d w"
    "d (snd (ksceKernelMemcpyKernelToUser k p bs w)) = d w"
    "d (snd (orig_process_response k pkt n w)) = d w"
    "d (snd (orig_ioctl k req buf n w)) = d w"
    "d (snd (wlan_cmd_alloc k n w)) = d w" "d (snd (wlan_cmd_send2 k c i n w)) = d w"
    "d (snd (wlan_cmd_wait k c w)) = d w" "d (snd (wlan_cmd_free k c w)) = d w"
    "d (snd (wlan_mem_read k a v w)) = d w" "d (snd (wlan_mem_write k a v w)) = d w"
  using assms by (simp_all add: quiet_laws_def neutral_def)

lemma lock_calls:
  assumes "lock_laws k held wheld"
  shows "held (snd (ksceKernelLockMutex k m w)) =
      (if 0 \<le> fst (ksceKernelLockMutex k m w) then held w + 1 else held w)"
    "wheld (snd (ksceKernelLockMutex k m w)) = wheld w"
    "held (snd (ksceKernelUnlockMutex k m w)) = held w - 1"
    "wheld (snd (ksceKernelUnlockMutex k m w)) = wheld w"
    "wheld (snd (wlan_lock k w)) = (if 0 \<le> fst (wlan_lock k w) then wheld w + 1 else wheld w)"
    "held (snd (wlan_lock k w)) = held w"
    "wheld (snd (wlan_unlock k w)) = wheld w - 1" "held (snd (wlan_unlock k w)) = held w"
  using assms unfolding lock_laws_def by (metis prod.collapse)+

lemma locking_calls:
  assumes "locking k held wheld"
  shows "quiet_laws k held" "quiet_laws k wheld" "lock_laws k held wheld"
  using assms by (simp_all add: locking_def)

text \<open>
  Driver command buffers: an allocated command has room for the length asked for. Nothing is said
  about the length of a response.
\<close>

definition cmd_laws :: "'w kernel \<Rightarrow> bool" where
  "cmd_laws k \<longleftrightarrow>
     (\<forall>n w c w'. wlan_cmd_alloc k n w = (Some c, w') \<longrightarrow> nat n \<le> length (out_data c))"

text \<open>
  The chip's memory, word by word: a read or write that does not fail has the obvious
  effect, and locking leaves the memory alone.
\<close>

definition chip_laws :: "'w kernel \<Rightarrow> ('w \<Rightarrow> u32 \<Rightarrow> u32) \<Rightarrow> bool" where
  "chip_laws k cell \<longleftrightarrow>
     (\<forall>a v w r v' w'. wlan_mem_read k a v w = ((r, v'), w') \<longrightarrow> 0 \<le> r \<longrightarrow>
        v' = cell w a \<and> cell w' = cell w) \<and>
     (\<forall>a v w r w'. wlan_mem_write k a v w = (r, w') \<longrightarrow> 0 \<le> r \<longrightarrow>
        cell w' = (cell w)(a := v)) \<and>
     (\<forall>w r w'. wlan_lock k w = (r, w') \<longrightarrow> cell w' = cell w) \<and>
     (\<forall>w r w'. wlan_unlock k w = (r, w') \<longrightarrow> cell w' = cell w) \<and>
     (\<forall>req buf n w r w'. orig_ioctl k req buf n w = (r, w') \<longrightarrow> cell w' = cell w)"

section \<open>A concrete kernel\<close>

record demo_world =
  d_next :: int
  d_files :: "int \<Rightarrow> byte list"
  d_sockets :: "int list"
  d_sent :: "byte list list"
  d_clock :: u32
  d_held :: int
  d_wheld :: int
  d_user :: "byte list"
  d_chip :: "u32 \<Rightarrow> u32"
  d_released :: "int list"

definition demo_init :: demo_world where
  "demo_init = \<lparr>d_next = 3, d_files = (\<lambda>_. []), d_sockets = [], d_sent = [], d_clock = 100,
     d_held = 0, d_wheld = 0, d_user = [], d_chip = (\<lambda>_. 0), d_released = []\<rparr>"

definition demo_open :: "demo_world \<Rightarrow> int \<times> demo_world" where
  "demo_open w = (d_next w, w\<lparr>d_next := d_next w + 1, d_files := (d_files w)(d_next w := [])\<rparr>)"

definition demo_write :: "int \<Rightarrow> byte list \<Rightarrow> demo_world \<Rightarrow> int \<times> demo_world" where
  "demo_write fd bs w = (int (length bs), w\<lparr>d_files := (d_files w)(fd := d_files w fd @ bs)\<rparr>)"

definition demo_kernel :: "demo_world kernel" where
  "demo_kernel = \<lparr>
     ENTER_SYSCALL = (\<lambda>w. (0, w)),
     EXIT_SYSCALL = (\<lambda>_ w. w),
     ksceIoOpen = (\<lambda>_. demo_open),
     ksceIoWrite = demo_write,
     ksceIoWriteAsync = demo_write,
     ksceIoClose = (\<lambda>_ w. (0, w)),
     ksceKernelLibcGettimeofday = (\<lambda>w. ((d_clock w, 0), w\<lparr>d_clock := d_clock w + 1\<rparr>)),
     ksceNetSocket = (\<lambda>w. (d_next w, w\<lparr>d_next := d_next w + 1, d_sockets := d_next w # d_sockets w\<rparr>)),
     ksceNetClose = (\<lambda>fd w. (0, w\<lparr>d_sockets := remove1 fd (d_sockets w)\<rparr>)),
     SCE_NET_AF_INET = 2,
     SCE_NET_INADDR_LOOPBACK = 0x7f000001,
     ksceNetHtons = (\<lambda>p. push_bit 8 p OR drop_bit 8 p),
     ksceNetSendto = (\<lambda>_ bs _ w. (int (length bs), w\<lparr>d_sent := bs # d_sent w\<rparr>)),
     ksceKernelCreateMutex = (\<lambda>w. (2, w)),
     ksceKernelLockMutex = (\<lambda>_ w. (0, w\<lparr>d_held := d_held w + 1\<rparr>)),
     ksceKernelUnlockMutex = (\<lambda>_ w. (0, w\<lparr>d_held := d_held w - 1\<rparr>)),
     ksceKernelDeleteMutex = (\<lambda>_ w. (0, w)),
     ksceKernelMemcpyKernelToUser = (\<lambda>_ bs w. (0, w\<lparr>d_user := bs\<rparr>)),
     taiGetModuleInfoForKernel = (\<lambda>_ w. ((0, 77), w)),
     module_get_offset = (\<lambda>_ off w. (0x81000000 + off, w)),
     taiHookFunctionOffsetForKernel =
       (\<lambda>_ off _ w. ((d_next w, 0x81000000 + off), w\<lparr>d_next := d_next w + 1\<rparr>)),
     taiInjectReleaseForKernel = (\<lambda>u w. (0, w\<lparr>d_released := u # d_released w\<rparr>)),
     taiHookReleaseForKernel = (\<lambda>u _ w. (0, w\<lparr>d_released := u # d_released w\<rparr>)),
     orig_process_response = (\<lambda>_ _ w. (1, w)),
     orig_ioctl = (\<lambda>_ buf _ w. ((-1, buf), w)),
     wlan_lock = (\<lambda>w. (0, w\<lparr>d_wheld := d_wheld w + 1\<rparr>)),
     wlan_unlock = (\<lambda>w. ((), w\<lparr>d_wheld := d_wheld w - 1\<rparr>)),
     wlan_cmd_alloc = (\<lambda>n w.
       (Some \<lparr>cmd_handle = 1, result_cb = 1, out_data = replicate (nat n) 0, in_data = []\<rparr>, w)),
     wlan_cmd_send2 = (\<lambda>c _ _ w. ((0, c), w)),
     wlan_cmd_wait = (\<lambda>c w. ((0, c\<lparr>in_data := replicate 16 7\<rparr>), w)),
     wlan_cmd_free = (\<lambda>_ w. (0, w)),
     wlan_mem_read = (\<lambda>a _ w. ((0, d_chip w a), w)),
     wlan_mem_write = (\<lambda>a v w. (0, w\<lparr>d_chip := (d_chip w)(a := v)\<rparr>))\<rparr>"

lemmas demo_defs = demo_init_def demo_open_def demo_write_def

text \<open>The services of the concrete kernel, one rewrite rule each.\<close>

lemma demo_calls [simp]:
    "ENTER_SYSCALL demo_kernel = (\<lambda>w. (0, w))"
    "EXIT_SYSCALL demo_kernel = (\<lambda>_ w. w)"
    "ksceIoOpen demo_kernel = (\<lambda>_. demo_open)"
    "ksceIoWrite demo_kernel = demo_write"
    "ksceIoWriteAsync demo_kernel = demo_write"
    "ksceIoClose demo_kernel = (\<lambda>_ w. (0, w))"
    "ksceKernelLibcGettimeofday demo_kernel =
      (\<lambda>w. ((d_clock w, 0), w\<lparr>d_clock := d_clock w + 1\<rparr>))"
    "ksceNetSocket demo_kernel =
      (\<lambda>w. (d_next w, w\<lparr>d_next := d_next w + 1, d_sockets := d_next w # d_sockets w\<rparr>))"
    "ksceNetClose demo_kernel =
      (\<lambda>fd w. (0, w\<lparr>d_sockets := remove1 fd (d_sockets w)\<rparr>))"
    "SCE_NET_AF_INET demo_kernel = 2"
    "SCE_NET_INADDR_LOOPBACK demo_kernel = 0x7f000001"
    "ksceNetHtons demo_kernel = (\<lambda>p. push_bit 8 p OR drop_bit 8 p)"
    "ksceNetSendto demo_kernel =
      (\<lambda>_ bs _ w. (int (length bs), w\<lparr>d_sent := bs # d_sent w\<rparr>))"
    "ksceKernelCreateMutex demo_kernel = (\<lambda>w. (2, w))"
    "ksceKernelLockMutex demo_kernel =
      (\<lambda>_ w. (0, w\<lparr>d_held := d_held w + 1\<rparr>))"
    "ksceKernelUnlockMutex demo_kernel =
      (\<lambda>_ w. (0, w\<lparr>d_held := d_held w - 1\<rparr>))"
    "ksceKernelDeleteMutex demo_kernel = (\<lambda>_ w. (0, w))"
    "ksceKernelMemcpyKernelToUser demo_kernel =
      (\<lambda>_ bs w. (0, w\<lparr>d_user := bs\<rparr>))"
    "taiGetModuleInfoForKernel demo_kernel = (\<lambda>_ w. ((0, 77), w))"
    "module_get_offset demo_kernel = (\<lambda>_ off w. (0x81000000 + off, w))"
    "taiHookFunctionOffsetForKernel demo_kernel =
      (\<lambda>_ off _ w. ((d_next w, 0x81000000 + off), w\<lparr>d_next := d_next w + 1\<rparr>))"
    "taiInjectReleaseForKernel demo_kernel =
      (\<lambda>u w. (0, w\<lparr>d_released := u # d_released w\<rparr>))"
    "taiHookReleaseForKernel demo_kernel =
      (\<lambda>u _ w. (0, w\<lparr>d_released := u # d_released w\<rparr>))"
    "orig_process_response demo_kernel = (\<lambda>_ _ w. (1, w))"
    "orig_ioctl demo_kernel = (\<lambda>_ buf _ w. ((-1, buf), w))"
    "wlan_lock demo_kernel = (\<lambda>w. (0, w\<lparr>d_wheld := d_wheld w + 1\<rparr>))"
    "wlan_unlock demo_kernel = (\<lambda>w. ((), w\<lparr>d_wheld := d_wheld w - 1\<rparr>))"
    "wlan_cmd_alloc demo_kernel =
      (\<lambda>n w. (Some \<lparr>cmd_handle = 1, result_cb = 1, out_data = replicate (nat n) 0, in_data = []\<rparr>, w))"
    "wlan_cmd_send2 demo_kernel = (\<lambda>c _ _ w. ((0, c), w))"
    "wlan_cmd_wait demo_kernel =
      (\<lambda>c w. ((0, c\<lparr>in_data := replicate 16 7\<rparr>), w))"
    "wlan_cmd_free demo_kernel = (\<lambda>_ w. (0, w))"
    "wlan_mem_read demo_kernel = (\<lambda>a _ w. ((0, d_chip w a), w))"
    "wlan_mem_write demo_kernel =
      (\<lambda>a v w. (0, w\<lparr>d_chip := (d_chip w)(a := v)\<rparr>))"
  by (simp_all add: demo_kernel_def)

lemma demo_file_laws: "file_laws demo_kernel d_files"
  by (auto simp: file_laws_def demo_open_def demo_write_def)

lemma demo_lock_laws: "lock_laws demo_kernel d_held d_wheld"
  by (auto simp: lock_laws_def)

lemma demo_locking: "locking demo_kernel d_held d_wheld"
  using demo_lock_laws
  by (simp add: locking_def quiet_laws_def neutral_def demo_open_def demo_write_def)

lemma demo_cmd_laws: "cmd_laws demo_kernel"
  by (auto simp: cmd_laws_def)

lemma demo_chip_laws: "chip_laws demo_kernel d_chip"
  by (auto simp: chip_laws_def)

end
