(* ===== verification/Pcap.thy ===== *)
theory Pcap
  imports Kernel_Iface
begin

text \<open>
  The capture file writer, \<open>src/kplugin/pcap.c\<close>: one global file descriptor, opening a
  capture file with its header, appending records, and closing the file when a write fails.
  The second half states the file format, so that the properties can say what a reader of
  the file finds in it.
\<close>

section \<open>Headers\<close>

record pcap_hdr_t =
  magic_number :: u32
  version_major :: u16
  version_minor :: u16
  thiszone :: u32
  sigfigs :: u32
  snaplen :: u32
  network :: u32

record pcaprec_hdr_t =
  ts_sec :: u32
  ts_usec :: u32
  incl_len :: u32
  orig_len :: u32

text \<open>The bytes of the packed structs in memory, which is what the code writes.\<close>

definition pcap_hdr_bytes :: "pcap_hdr_t \<Rightarrow> byte list" where
  "pcap_hdr_bytes h = le32 (magic_number h) @ le16 (version_major h) @ le16 (version_minor h) @
     le32 (thiszone h) @ le32 (sigfigs h) @ le32 (snaplen h) @ le32 (network h)"

definition pcaprec_hdr_bytes :: "pcaprec_hdr_t \<Rightarrow> byte list" where
  "pcaprec_hdr_bytes r = le32 (ts_sec r) @ le32 (ts_usec r) @ le32 (incl_len r) @ le32 (orig_len r)"

section \<open>The writer\<close>

record 'w pcap_globals = "'w globals" +
  pcap_fd :: int

definition pcap_close ::
  "'w kernel \<Rightarrow> ('w, 'm) pcap_globals_scheme \<Rightarrow> ('w, 'm) pcap_globals_scheme" where
  "pcap_close k s =
     (if pcap_fd s \<ge> 0 then
        (let (_, s) = sys (ksceIoClose k (pcap_fd s)) s
         in s\<lparr>pcap_fd := -1\<rparr>)
      else s)"

definition capture_hdr :: pcap_hdr_t where
  "capture_hdr = \<lparr>magic_number = 0xa1b2c3d4, version_major = 2, version_minor = 4,
     thiszone = 0, sigfigs = 0, snaplen = 65535, network = 127\<rparr>"

definition pcap_open ::
  "'w kernel \<Rightarrow> string \<Rightarrow> ('w, 'm) pcap_globals_scheme \<Rightarrow> int \<times> ('w, 'm) pcap_globals_scheme" where
  "pcap_open k file s =
     (let s = (if pcap_fd s > 0 then pcap_close k s else s);
          (fd, s) = sys (ksceIoOpen k file) s;
          s = s\<lparr>pcap_fd := fd\<rparr>
      in if pcap_fd s < 0 then (-1, s)
         else
           (let (n, s) = sys (ksceIoWrite k (pcap_fd s) (pcap_hdr_bytes capture_hdr)) s
            in if n < 0 then (-1, pcap_close k s) else (0, s)))"

definition pcap_write_raw ::
  "'w kernel \<Rightarrow> byte list \<Rightarrow> u32 \<Rightarrow> ('w, 'm) pcap_globals_scheme \<Rightarrow>
     (int \<times> ('w, 'm) pcap_globals_scheme) option" where
  "pcap_write_raw k buf buf_len s =
     (if pcap_fd s < 0 then Some (0, s)
      else
        (let (tv, s) = sys (ksceKernelLibcGettimeofday k) s;
             rec = \<lparr>ts_sec = fst tv, ts_usec = snd tv, incl_len = buf_len, orig_len = buf_len\<rparr>;
             (n, s) = sys (ksceIoWrite k (pcap_fd s) (pcaprec_hdr_bytes rec)) s
         in if n < 0 then Some (-1, pcap_close k s)
            else do {
              bs \<leftarrow> load buf 0 (unat buf_len);
              let (n, s) = sys (ksceIoWrite k (pcap_fd s) bs) s;
              if n < 0 then Some (-1, pcap_close k s) else Some (0, s)
            }))"

text \<open>\<open>rtap\<close> is the memory the header pointer leads to; its length field is at offset 2.\<close>

definition it_len :: "byte list \<Rightarrow> u16 option" where
  "it_len rtap = map_option ld16 (load rtap 2 2)"

definition pcap_write_rt ::
  "'w kernel \<Rightarrow> byte list \<Rightarrow> byte list \<Rightarrow> u32 \<Rightarrow> ('w, 'm) pcap_globals_scheme \<Rightarrow>
     (int \<times> ('w, 'm) pcap_globals_scheme) option" where
  "pcap_write_rt k rtap buf buf_len s =
     (if pcap_fd s < 0 then Some (0, s)
      else
        (let (tv, s) = sys (ksceKernelLibcGettimeofday k) s;
             rec = \<lparr>ts_sec = fst tv, ts_usec = snd tv, incl_len = buf_len, orig_len = buf_len\<rparr>;
             (n, s) = sys (ksceIoWriteAsync k (pcap_fd s) (pcaprec_hdr_bytes rec)) s
         in if n < 0 then Some (-1, pcap_close k s)
            else do {
              l \<leftarrow> it_len rtap;
              hs \<leftarrow> load rtap 0 (unat l);
              let (n, s) = sys (ksceIoWriteAsync k (pcap_fd s) hs) s;
              if n < 0 then Some (-1, pcap_close k s)
              else do {
                bs \<leftarrow> load buf 0 (unat buf_len);
                let (n, s) = sys (ksceIoWriteAsync k (pcap_fd s) bs) s;
                if n < 0 then Some (-1, pcap_close k s) else Some (0, s)
              }
            }))"

section \<open>The recorder contract\<close>

text \<open>
  What the control code relies on for either recording backend: starting reports success
  exactly when the backend is recording afterwards, and a stopped backend is not recording.
\<close>

locale recorder =
  fixes start :: "'s \<Rightarrow> int \<times> 's"
    and stop :: "'s \<Rightarrow> 's"
    and recording :: "'s \<Rightarrow> bool"
  assumes start_code: "fst (start s) = 0 \<or> fst (start s) = -1"
    and start_recording: "fst (start s) = 0 \<longleftrightarrow> recording (snd (start s))"
    and stop_recording: "\<not> recording (stop s)"
begin

lemma start_failed: "fst (start s) \<noteq> 0 \<Longrightarrow> fst (start s) = -1 \<and> \<not> recording (snd (start s))"
  using start_code [of s] start_recording [of s] by auto

lemma restart: "recording (snd (start (stop s))) \<longleftrightarrow> fst (start (stop s)) = 0"
  by (simp add: start_recording)

end

lemma pcap_fd_sys [simp]: "pcap_fd (snd (sys f s)) = pcap_fd s"
  by (simp add: sys_def split: prod.split)

lemma pcap_fd_close: "pcap_fd (pcap_close k s) < 0"
  by (simp add: pcap_close_def Let_def split: prod.split)

lemma pcap_open_code: "fst (pcap_open k f s) = 0 \<or> fst (pcap_open k f s) = -1"
  by (simp add: pcap_open_def Let_def split: prod.split)

lemma pcap_open_fd: "fst (pcap_open k f s) = 0 \<longleftrightarrow> 0 \<le> pcap_fd (snd (pcap_open k f s))"
  using pcap_fd_close
  by (auto simp: pcap_open_def Let_def case_prod_beta not_le)

interpretation pcap_rec: recorder "pcap_open k path" "pcap_close k" "\<lambda>s. 0 \<le> pcap_fd s"
  for k :: "'w kernel" and path :: string
  by (rule recorder.intro) (fact pcap_open_code, fact pcap_open_fd, simp add: pcap_fd_close not_le)

section \<open>The file format\<close>

text \<open>A capture file is the file header and, for each packet, a record header and its bytes.\<close>

definition pcap_hdr_of :: "byte list \<Rightarrow> pcap_hdr_t" where
  "pcap_hdr_of bs = \<lparr>magic_number = ld32 bs, version_major = ld16 (drop 4 bs),
     version_minor = ld16 (drop 6 bs), thiszone = ld32 (drop 8 bs), sigfigs = ld32 (drop 12 bs),
     snaplen = ld32 (drop 16 bs), network = ld32 (drop 20 bs)\<rparr>"

definition pcaprec_hdr_of :: "byte list \<Rightarrow> pcaprec_hdr_t" where
  "pcaprec_hdr_of bs = \<lparr>ts_sec = ld32 bs, ts_usec = ld32 (drop 4 bs),
     incl_len = ld32 (drop 8 bs), orig_len = ld32 (drop 12 bs)\<rparr>"

interpretation pcap_hdr: codec pcap_hdr_bytes pcap_hdr_of 24
  by unfold_locales (simp_all add: pcap_hdr_bytes_def pcap_hdr_of_def)

interpretation pcaprec_hdr: codec pcaprec_hdr_bytes pcaprec_hdr_of 16
  by unfold_locales (simp_all add: pcaprec_hdr_bytes_def pcaprec_hdr_of_def)

definition record_bytes :: "(u32 \<times> u32) \<Rightarrow> byte list \<Rightarrow> byte list" where
  "record_bytes tv pkt =
     pcaprec_hdr_bytes \<lparr>ts_sec = fst tv, ts_usec = snd tv,
       incl_len = word_of_nat (length pkt), orig_len = word_of_nat (length pkt)\<rparr> @ pkt"

definition capture_file :: "((u32 \<times> u32) \<times> byte list) list \<Rightarrow> byte list" where
  "capture_file recs =
     pcap_hdr_bytes capture_hdr @ concat (map (\<lambda>(tv, pkt). record_bytes tv pkt) recs)"

text \<open>A reader: record header, then as many bytes as its \<open>incl_len\<close> says.\<close>

function read_records :: "byte list \<Rightarrow> ((u32 \<times> u32) \<times> byte list) list option" where
  "read_records bs =
     (if bs = [] then Some []
      else if length bs < 16 then None
      else
        (let h = pcaprec_hdr_of bs; n = unat (incl_len h)
         in if length bs < 16 + n then None
            else map_option (Cons ((ts_sec h, ts_usec h), take n (drop 16 bs)))
                   (read_records (drop (16 + n) bs))))"
  by pat_completeness auto
termination
  by (relation "measure length") auto

declare read_records.simps [simp del]

definition read_capture :: "byte list \<Rightarrow> (pcap_hdr_t \<times> ((u32 \<times> u32) \<times> byte list) list) option" where
  "read_capture bs =
     (if length bs < 24 then None
      else map_option (Pair (pcap_hdr_of bs)) (read_records (drop 24 bs)))"

lemma read_records_Nil [simp]: "read_records [] = Some []"
  by (simp add: read_records.simps)

lemma read_records_record:
  assumes "length pkt < 2 ^ 32"
  shows "read_records (record_bytes tv pkt @ rest) =
     map_option (Cons (tv, pkt)) (read_records rest)"
proof -
  define h where "h = \<lparr>ts_sec = fst tv, ts_usec = snd tv,
       incl_len = word_of_nat (length pkt) :: u32, orig_len = word_of_nat (length pkt)\<rparr>"
  define H where "H = pcaprec_hdr_bytes h"
  have hdr: "pcaprec_hdr_of (H @ pkt @ rest) = h" and len: "length H = 16"
    by (simp_all add: H_def pcaprec_hdr.dec_enc pcaprec_hdr.enc_width)
  have n: "unat (incl_len h) = length pkt" and t: "(ts_sec h, ts_usec h) = tv"
    using assms by (simp_all add: h_def unat_of_nat)
  have "H \<noteq> []"
    using len by auto
  then have "read_records (H @ pkt @ rest) = map_option (Cons (tv, pkt)) (read_records rest)"
    using n t by (subst read_records.simps) (simp add: hdr len Let_def)
  then show ?thesis
    by (simp add: record_bytes_def H_def h_def)
qed

lemma read_records_concat:
  assumes "\<forall>(tv, pkt) \<in> set recs. length pkt < 2 ^ 32"
  shows "read_records (concat (map (\<lambda>(tv, pkt). record_bytes tv pkt) recs)) = Some recs"
  using assms by (induction recs) (auto simp: read_records_record)

lemma read_capture_file:
  assumes "\<forall>(tv, pkt) \<in> set recs. length pkt < 2 ^ 32"
  shows "read_capture (capture_file recs) = Some (capture_hdr, recs)"
  using read_records_concat [OF assms] pcap_hdr.enc_width [of capture_hdr]
  by (simp add: read_capture_def capture_file_def pcap_hdr.dec_enc)

section \<open>What the writer leaves in the file\<close>

lemma world_update_fd [simp]: "world (s\<lparr>pcap_fd := fd\<rparr>) = world s"
  by (cases s) simp

lemma pcap_close_eq: "pcap_fd s = fd \<Longrightarrow> 0 \<le> fd \<Longrightarrow> pcap_fd (pcap_close k s) = -1"
  by (simp add: pcap_close_def Let_def split: prod.split)

lemma pcap_open_content:
  assumes laws: "file_laws k content" and opened: "pcap_open k f s = (0, s')"
  shows "content (world s') (pcap_fd s') = pcap_hdr_bytes capture_hdr" and "0 \<le> pcap_fd s'"
proof -
  define s0 where "s0 = (if pcap_fd s > 0 then pcap_close k s else s)"
  obtain fd w1 where o: "ksceIoOpen k f (world s0) = (fd, w1)"
    by (cases "ksceIoOpen k f (world s0)")
  obtain n w2 where w: "ksceIoWrite k fd (pcap_hdr_bytes capture_hdr) w1 = (n, w2)"
    by (cases "ksceIoWrite k fd (pcap_hdr_bytes capture_hdr) w1")
  have "0 \<le> fd" and "0 \<le> n" and s': "s' = s0\<lparr>world := w1, pcap_fd := fd, world := w2\<rparr>"
    using opened by (auto simp: pcap_open_def sys_def Let_def o w s0_def [symmetric] split: if_splits)
  then show "0 \<le> pcap_fd s'"
    by simp
  have "content w1 fd = []"
    using file_laws_open [OF laws o \<open>0 \<le> fd\<close>] .
  then have "content w2 fd = pcap_hdr_bytes capture_hdr"
    using file_laws_write [OF laws w \<open>0 \<le> n\<close>] by simp
  then show "content (world s') (pcap_fd s') = pcap_hdr_bytes capture_hdr"
    by (simp add: s')
qed

lemma pcap_write_raw_content:
  assumes laws: "file_laws k content" and fd: "0 \<le> pcap_fd s"
    and written: "pcap_write_raw k buf n s = Some (0, s')" and n: "unat n = length buf"
  shows "content (world s') (pcap_fd s') = content (world s) (pcap_fd s) @
      record_bytes (fst (ksceKernelLibcGettimeofday k (world s))) buf" and "0 \<le> pcap_fd s'"
proof -
  obtain tv w1 where t: "ksceKernelLibcGettimeofday k (world s) = (tv, w1)"
    by (cases "ksceKernelLibcGettimeofday k (world s)")
  define rec where "rec = \<lparr>ts_sec = fst tv, ts_usec = snd tv, incl_len = n, orig_len = n\<rparr>"
  obtain a w2 where w: "ksceIoWrite k (pcap_fd s) (pcaprec_hdr_bytes rec) w1 = (a, w2)"
    by (cases "ksceIoWrite k (pcap_fd s) (pcaprec_hdr_bytes rec) w1")
  obtain b w3 where w': "ksceIoWrite k (pcap_fd s) buf w2 = (b, w3)"
    by (cases "ksceIoWrite k (pcap_fd s) buf w2")
  have load: "load buf 0 (unat n) = Some buf"
    using n by (simp add: load_def)
  have ok: "0 \<le> a" "0 \<le> b" and s': "s' = s\<lparr>world := w1, world := w2, world := w3\<rparr>"
    using written fd load
    by (auto simp: pcap_write_raw_def sys_def Let_def t w w' rec_def [symmetric] split: if_splits)
  then show "0 \<le> pcap_fd s'"
    using fd by simp
  have "content w1 = content (world s)"
    using file_laws_clock [OF laws t] .
  moreover have "content w2 (pcap_fd s) = content w1 (pcap_fd s) @ pcaprec_hdr_bytes rec"
    and "content w3 (pcap_fd s) = content w2 (pcap_fd s) @ buf"
    using file_laws_write [OF laws w ok(1)] file_laws_write [OF laws w' ok(2)] .
  moreover have "record_bytes tv buf = pcaprec_hdr_bytes rec @ buf"
    using n by (simp add: record_bytes_def rec_def flip: n)
  ultimately show "content (world s') (pcap_fd s') = content (world s) (pcap_fd s) @
      record_bytes (fst (ksceKernelLibcGettimeofday k (world s))) buf"
    by (simp add: s' t)
qed

lemma pcap_write_rt_content:
  assumes laws: "file_laws k content" and fd: "0 \<le> pcap_fd s"
    and written: "pcap_write_rt k rtap buf n s = Some (0, s')" and n: "unat n = length buf"
    and l: "it_len rtap = Some l"
  shows "\<exists>tv. content (world s') (pcap_fd s') = content (world s) (pcap_fd s) @
      pcaprec_hdr_bytes \<lparr>ts_sec = fst tv, ts_usec = snd tv, incl_len = n, orig_len = n\<rparr> @
      take (unat l) rtap @ buf" and "unat l \<le> length rtap"
proof -
  obtain tv w1 where t: "ksceKernelLibcGettimeofday k (world s) = (tv, w1)"
    by (cases "ksceKernelLibcGettimeofday k (world s)")
  define rec where "rec = \<lparr>ts_sec = fst tv, ts_usec = snd tv, incl_len = n, orig_len = n\<rparr>"
  define hs where "hs = take (unat l) rtap"
  obtain a w2 where w: "ksceIoWriteAsync k (pcap_fd s) (pcaprec_hdr_bytes rec) w1 = (a, w2)"
    by (cases "ksceIoWriteAsync k (pcap_fd s) (pcaprec_hdr_bytes rec) w1")
  obtain b w3 where w': "ksceIoWriteAsync k (pcap_fd s) hs w2 = (b, w3)"
    by (cases "ksceIoWriteAsync k (pcap_fd s) hs w2")
  obtain c w4 where w'': "ksceIoWriteAsync k (pcap_fd s) buf w3 = (c, w4)"
    by (cases "ksceIoWriteAsync k (pcap_fd s) buf w3")
  have load: "load buf 0 (unat n) = Some buf"
    using n by (simp add: load_def)
  have hs: "load rtap 0 (unat l) = (if unat l \<le> length rtap then Some hs else None)"
    by (simp add: load_def hs_def)
  have ok: "0 \<le> a" "0 \<le> b" "0 \<le> c" "unat l \<le> length rtap"
    and s': "s' = s\<lparr>world := w1, world := w2, world := w3, world := w4\<rparr>"
    using written fd load l
    by (auto simp: pcap_write_rt_def sys_def Let_def t w w' w'' hs rec_def [symmetric]
        split: if_splits)
  then show "unat l \<le> length rtap" by simp
  have "content w1 = content (world s)"
    using file_laws_clock [OF laws t] .
  moreover have "content w2 (pcap_fd s) = content w1 (pcap_fd s) @ pcaprec_hdr_bytes rec"
    and "content w3 (pcap_fd s) = content w2 (pcap_fd s) @ hs"
    and "content w4 (pcap_fd s) = content w3 (pcap_fd s) @ buf"
    using file_laws_async [OF laws w ok(1)] file_laws_async [OF laws w' ok(2)]
      file_laws_async [OF laws w'' ok(3)] .
  ultimately have "content (world s') (pcap_fd s') =
      content (world s) (pcap_fd s) @ pcaprec_hdr_bytes rec @ take (unat l) rtap @ buf"
    by (simp add: s' hs_def)
  then show "\<exists>tv. content (world s') (pcap_fd s') = content (world s) (pcap_fd s) @
      pcaprec_hdr_bytes \<lparr>ts_sec = fst tv, ts_usec = snd tv, incl_len = n, orig_len = n\<rparr> @
      take (unat l) rtap @ buf"
    unfolding rec_def ..
qed

text \<open>A record header splits the bytes after it at its \<open>incl_len\<close>.\<close>

lemma read_records_split:
  assumes "unat n \<le> length data"
  shows "read_records (pcaprec_hdr_bytes
      \<lparr>ts_sec = fst tv, ts_usec = snd tv, incl_len = n, orig_len = n\<rparr> @ data) =
    map_option (Cons (tv, take (unat n) data)) (read_records (drop (unat n) data))"
proof -
  have "length (take (unat n) data) = unat n"
    using assms by simp
  then have "record_bytes tv (take (unat n) data) @ drop (unat n) data = pcaprec_hdr_bytes
      \<lparr>ts_sec = fst tv, ts_usec = snd tv, incl_len = n, orig_len = n\<rparr> @ data"
    unfolding record_bytes_def by simp
  moreover have "length (take (unat n) data) < 2 ^ 32"
    using assms unsigned_less [of n] by simp
  ultimately show ?thesis
    by (metis read_records_record)
qed

text \<open>Recording a sequence of packets, stopping at the first error code.\<close>

fun record_all ::
  "'w kernel \<Rightarrow> byte list list \<Rightarrow> ('w, 'm) pcap_globals_scheme \<Rightarrow>
     (int \<times> ('w, 'm) pcap_globals_scheme) option" where
  "record_all k [] s = Some (0, s)"
| "record_all k (p # ps) s = do {
     (r, s) \<leftarrow> pcap_write_raw k p (word_of_nat (length p)) s;
     if r \<noteq> 0 then Some (r, s) else record_all k ps s }"

text \<open>The time of each packet: what the clock says in the state in which the packet is handed in.\<close>

fun clock_readings ::
  "'w kernel \<Rightarrow> byte list list \<Rightarrow> ('w, 'm) pcap_globals_scheme \<Rightarrow> (u32 \<times> u32) list" where
  "clock_readings k [] s = []"
| "clock_readings k (p # ps) s = fst (ksceKernelLibcGettimeofday k (world s)) #
     (case pcap_write_raw k p (word_of_nat (length p)) s of
        None \<Rightarrow> [] | Some (r, s) \<Rightarrow> clock_readings k ps s)"

lemma record_all_content:
  assumes "file_laws k content" and "0 \<le> pcap_fd s"
    and "record_all k pkts s = Some (0, s')" and "\<forall>p \<in> set pkts. length p < 2 ^ 32"
  shows "length (clock_readings k pkts s) = length pkts \<and>
    content (world s') (pcap_fd s') = content (world s) (pcap_fd s) @
      concat (map (\<lambda>(tv, p). record_bytes tv p) (zip (clock_readings k pkts s) pkts))"
  using assms(2-4)
proof (induction pkts arbitrary: s)
  case Nil
  then show ?case by simp
next
  case (Cons p ps)
  obtain s1 where p: "pcap_write_raw k p (word_of_nat (length p)) s = Some (0, s1)"
    and ps: "record_all k ps s1 = Some (0, s')"
    using Cons.prems(2) by (auto simp: Option.bind_eq_Some_conv split: if_splits prod.splits)
  have n: "unat (word_of_nat (length p) :: u32) = length p"
    using Cons.prems(3) by (simp add: unat_of_nat)
  note written = pcap_write_raw_content [OF assms(1) Cons.prems(1) p n]
  show ?case
    using Cons.IH [OF written(2) ps] Cons.prems(3) written(1) by (simp add: p)
qed

section \<open>Properties\<close>

text \<open>Opening a capture file answers 0 or -1; it answers 0 exactly when a descriptor is
  open afterwards, and then the file holds the 24-byte file header and nothing else.\<close>

theorem pcap_open_outcome:
  assumes "file_laws k content"
  shows "(fst (pcap_open k path s) = 0 \<or> fst (pcap_open k path s) = -1) \<and>
    (fst (pcap_open k path s) = 0 \<longleftrightarrow> 0 \<le> pcap_fd (snd (pcap_open k path s))) \<and>
    (fst (pcap_open k path s) = 0 \<longrightarrow>
       content (world (snd (pcap_open k path s))) (pcap_fd (snd (pcap_open k path s))) =
       pcap_hdr_bytes capture_hdr)"
  using pcap_rec.start_code pcap_rec.start_recording pcap_open_content(1) [OF assms]
  by (metis prod.collapse)

theorem pcap_open_outcome_witness:
  "file_laws demo_kernel d_files \<and>
   fst (pcap_open demo_kernel ''a'' \<lparr>world = demo_init, pcap_fd = -1\<rparr>) = 0"
  using pcap_open_outcome [OF demo_file_laws, of "''a''" "\<lparr>world = demo_init, pcap_fd = -1\<rparr>"]
  by (intro conjI demo_file_laws) (simp add: pcap_open_def sys_def demo_defs)

text \<open>C25: what a reader of the capture file gets back. After the file was opened and a
  sequence of packets was recorded with \<open>pcap_write_raw\<close>, all calls answering 0, reading the
  file (header, then records delimited by their length field) returns the header the code
  announces and exactly the recorded packets, in order and complete, each with the time the clock
  gave when it was handed in.\<close>

theorem capture_file_roundtrip:
  assumes "file_laws k content" and "pcap_open k path s = (0, s0)"
    and "record_all k pkts s0 = Some (0, s')" and "\<forall>p \<in> set pkts. length p < 2 ^ 32"
  shows "length (clock_readings k pkts s0) = length pkts \<and>
    read_capture (content (world s') (pcap_fd s')) = Some (capture_hdr, zip (clock_readings k pkts s0) pkts)"
proof -
  let ?recs = "zip (clock_readings k pkts s0) pkts"
  have "length (clock_readings k pkts s0) = length pkts \<and> content (world s') (pcap_fd s') = capture_file ?recs"
    using record_all_content [OF assms(1) _ assms(3,4)] pcap_open_content [OF assms(1,2)]
    by (simp add: capture_file_def)
  moreover have "\<forall>(tv, p) \<in> set ?recs. length p < 2 ^ 32"
    using assms(4) by (auto dest: set_zip_rightD)
  ultimately show ?thesis
    using read_capture_file by metis
qed

theorem capture_file_roundtrip_witness:
  "\<exists>s0 s'. pcap_open demo_kernel ''a'' \<lparr>world = demo_init, pcap_fd = -1\<rparr> = (0, s0) \<and>
     record_all demo_kernel [[1, 2], [3]] s0 = Some (0, s') \<and>
     read_capture (d_files (world s') (pcap_fd s')) =
       Some (capture_hdr, [((100, 0), [1, 2]), ((101, 0), [3])])"
proof -
  let ?r = "pcap_open demo_kernel ''a'' \<lparr>world = demo_init, pcap_fd = -1\<rparr>"
  have o: "?r = (0, snd ?r)"
    by (simp add: pcap_open_def sys_def demo_defs)
  obtain s' where r: "record_all demo_kernel [[1, 2], [3]] (snd ?r) = Some (0, s')"
    by (simp add: pcap_open_def pcap_write_raw_def sys_def load_def demo_defs Let_def)
  have times: "clock_readings demo_kernel [[1, 2], [3]] (snd ?r) = [(100, 0), (101, 0)]"
    by (simp add: pcap_open_def pcap_write_raw_def sys_def load_def demo_defs Let_def)
  have "\<forall>p \<in> set [[1, 2 :: byte], [3]]. length p < 2 ^ 32"
    by simp
  from capture_file_roundtrip [OF demo_file_laws o r this]
  have "read_capture (d_files (world s') (pcap_fd s')) = Some (capture_hdr, [((100, 0), [1, 2]), ((101, 0), [3])])"
    unfolding times by simp
  with o r show ?thesis
    by (intro exI conjI)
qed

text \<open>A write error ends the recording for good: \<open>pcap_write_raw\<close> answers -1 only after
  closing the file, and every later call drops its packet, changes nothing and answers 0.\<close>

theorem pcap_write_error_closes:
  assumes "pcap_write_raw k buf n s = Some (-1, s')"
  shows "pcap_fd s' = -1 \<and> pcap_write_raw k buf' n' s' = Some (0, s') \<and>
    pcap_write_rt k rtap buf' n' s' = Some (0, s')"
proof -
  have "pcap_fd s' = -1"
    using assms
    by (auto simp: pcap_write_raw_def sys_def Let_def pcap_close_eq Option.bind_eq_Some_conv
        split: if_splits prod.splits)
  then show ?thesis
    by (simp add: pcap_write_raw_def pcap_write_rt_def)
qed

definition full_kernel :: "demo_world kernel" where
  "full_kernel = demo_kernel\<lparr>ksceIoWrite := (\<lambda>_ _ w. (-28, w))\<rparr>"

theorem pcap_write_error_closes_witness:
  "\<exists>s'. pcap_write_raw full_kernel [1, 2] 2 \<lparr>world = demo_init, pcap_fd = 3\<rparr> = Some (-1, s') \<and>
     pcap_fd s' = -1"
proof -
  let ?s = "\<lparr>world = demo_init, pcap_fd = 3\<rparr>"
  obtain s' where "pcap_write_raw full_kernel [1, 2] 2 ?s = Some (-1, s')"
    by (simp add: pcap_write_raw_def sys_def full_kernel_def demo_defs Let_def)
  then show ?thesis
    using pcap_write_error_closes [of full_kernel "[1, 2]" 2 ?s s' "[]" 0 "[]"] by blast
qed

text \<open>The record \<open>pcap_write_rt\<close> writes does not delimit what it writes. Its length field
  is the length of the packet alone, while the radiotap header and the packet follow, so a
  reader takes only the first \<open>buf_len\<close> bytes of the two as the record and reads the remaining
  bytes, as many as the radiotap header has, as the start of the next record.\<close>

theorem pcap_write_rt_misdelimits:
  assumes "file_laws k content" and "0 \<le> pcap_fd s" and "it_len rtap = Some l"
    and "pcap_write_rt k rtap buf n s = Some (0, s')" and "unat n = length buf"
  shows "\<exists>tv added. content (world s') (pcap_fd s') = content (world s) (pcap_fd s) @ added \<and>
    length added = 16 + unat l + length buf \<and>
    read_records added =
      map_option (Cons (tv, take (length buf) (take (unat l) rtap @ buf)))
        (read_records (drop (length buf) (take (unat l) rtap @ buf)))"
proof -
  define data where "data = take (unat l) rtap @ buf"
  obtain tv where content: "content (world s') (pcap_fd s') = content (world s) (pcap_fd s) @
      pcaprec_hdr_bytes \<lparr>ts_sec = fst tv, ts_usec = snd tv, incl_len = n, orig_len = n\<rparr> @ data"
    and l: "unat l \<le> length rtap"
    using pcap_write_rt_content [OF assms(1,2,4,5,3)] by (auto simp: data_def)
  define added where "added = pcaprec_hdr_bytes
      \<lparr>ts_sec = fst tv, ts_usec = snd tv, incl_len = n, orig_len = n\<rparr> @ data"
  have "read_records added =
    map_option (Cons (tv, take (length buf) data)) (read_records (drop (length buf) data))"
    using read_records_split [of n data tv] assms(5) by (simp add: data_def added_def)
  moreover have "length added = 16 + unat l + length buf"
    using l by (simp add: added_def data_def pcaprec_hdr.enc_width)
  ultimately show ?thesis
    using content unfolding data_def added_def by blast
qed

theorem pcap_write_rt_misdelimits_witness:
  "\<exists>s' tv added. pcap_write_rt demo_kernel [0, 0, 8, 0, 0, 0, 0, 0] [5, 6] 2
       \<lparr>world = demo_init, pcap_fd = 3\<rparr> = Some (0, s') \<and>
     d_files (world s') (pcap_fd s') = added \<and> length added = 26 \<and>
     read_records added = map_option (Cons (tv, [0, 0])) (read_records [8, 0, 0, 0, 0, 0, 5, 6])"
proof -
  let ?rtap = "[0, 0, 8, 0, 0, 0, 0, 0] :: byte list" and ?s = "\<lparr>world = demo_init, pcap_fd = 3\<rparr>"
  obtain s' where w: "pcap_write_rt demo_kernel ?rtap [5, 6] 2 ?s = Some (0, s')"
    by (simp add: pcap_write_rt_def it_len_def load_def sys_def demo_defs Let_def)
  have l: "it_len ?rtap = Some 8"
    by (simp add: it_len_def load_def)
  have "d_files (world ?s) (pcap_fd ?s) = []"
    by (simp add: demo_init_def)
  with pcap_write_rt_misdelimits [OF demo_file_laws _ l w] w show ?thesis
    by simp
qed

end
