(* ===== verification/Knet.thy ===== *)
theory Knet
  imports Pcap
begin

text \<open>
  The network recorder, \<open>src/kplugin/knet.c\<close>: one UDP socket, a target address and a static
  2048-byte packet buffer in which a radiotap header and a frame are put together.
\<close>

section \<open>State and operations\<close>

record 'w knet_globals = "'w pcap_globals" +
  knet_fd :: int
  knet_tgt :: sockaddr_in
  knet_pkt :: "byte list"

definition knet_pkt_size :: nat where
  "knet_pkt_size = 2048"

definition knet_start ::
  "'w kernel \<Rightarrow> u16 \<Rightarrow> ('w, 'm) knet_globals_scheme \<Rightarrow> int \<times> ('w, 'm) knet_globals_scheme" where
  "knet_start k port s =
     (let (fd, s) = sys (ksceNetSocket k) s;
          s = s\<lparr>knet_fd := fd\<rparr>
      in if knet_fd s < 0 then (-1, s)
         else (0, s\<lparr>knet_tgt := \<lparr>sin_family = SCE_NET_AF_INET k,
                 sin_port = ksceNetHtons k port, s_addr = SCE_NET_INADDR_LOOPBACK k\<rparr>\<rparr>))"

definition knet_stop ::
  "'w kernel \<Rightarrow> ('w, 'm) knet_globals_scheme \<Rightarrow> ('w, 'm) knet_globals_scheme" where
  "knet_stop k s =
     (let (_, s) = sys (ksceNetClose k (knet_fd s)) s
      in s\<lparr>knet_fd := -1\<rparr>)"

definition knet_write_rt ::
  "'w kernel \<Rightarrow> byte list \<Rightarrow> byte list \<Rightarrow> u32 \<Rightarrow> ('w, 'm) knet_globals_scheme \<Rightarrow>
     (int \<times> ('w, 'm) knet_globals_scheme) option" where
  "knet_write_rt k rtap buf buf_len s =
     (if knet_fd s < 0 then Some (-1, s)
      else do {
        l \<leftarrow> it_len rtap;
        hs \<leftarrow> load rtap 0 (unat l);
        pkt \<leftarrow> store (knet_pkt s) 0 hs;
        bs \<leftarrow> load buf 0 (unat buf_len);
        pkt \<leftarrow> store pkt (unat l) bs;
        let s = s\<lparr>knet_pkt := pkt\<rparr>;
        datagram \<leftarrow> load pkt 0 (unat (ucast l + buf_len));
        Some (sys (ksceNetSendto k (knet_fd s) datagram (knet_tgt s)) s)
      })"

lemma knet_fd_sys [simp]: "knet_fd (snd (sys f s)) = knet_fd s"
  by (simp add: sys_def split: prod.split)

lemma knet_fd_stop [simp]: "knet_fd (knet_stop k s) = -1"
  by (simp add: knet_stop_def Let_def split: prod.split)

lemma knet_start_code: "fst (knet_start k port s) = 0 \<or> fst (knet_start k port s) = -1"
  by (simp add: knet_start_def Let_def split: prod.split)

lemma knet_start_fd: "fst (knet_start k port s) = 0 \<longleftrightarrow> 0 \<le> knet_fd (snd (knet_start k port s))"
  by (auto simp: knet_start_def Let_def split: prod.split)

interpretation knet_rec: recorder "knet_start k port" "knet_stop k" "\<lambda>s. 0 \<le> knet_fd s"
  for k :: "'w kernel" and port :: u16
  by (rule recorder.intro) (fact knet_start_code, fact knet_start_fd, simp)

section \<open>Properties\<close>

text \<open>The datagram. With an open socket, a frame that fits behind its radiotap header in the
  2048-byte buffer is sent as one datagram, the header bytes followed by the frame bytes, to
  the configured target; a frame that does not fit is copied past the end of the buffer, for
  there is no check of the length.\<close>

theorem knet_write_rt_datagram:
  assumes "0 \<le> knet_fd s" and "length (knet_pkt s) = knet_pkt_size"
    and "it_len rtap = Some l" and "unat l \<le> length rtap" and "unat n \<le> length buf"
  shows "knet_write_rt k rtap buf n s =
    (if unat l + unat n \<le> knet_pkt_size then
       (let datagram = take (unat l) rtap @ take (unat n) buf;
            pkt = datagram @ drop (unat l + unat n) (knet_pkt s)
        in Some (sys (ksceNetSendto k (knet_fd s) datagram (knet_tgt s)) (s\<lparr>knet_pkt := pkt\<rparr>)))
     else None)"
proof (cases "unat l + unat n \<le> knet_pkt_size")
  case True
  then have "unat (ucast l + n :: u32) = unat l + unat n"
    by (simp add: unat_word_ariths knet_pkt_size_def)
  with True assms show ?thesis
    by (simp add: knet_write_rt_def load_def store_def Let_def add.commute [of "unat n"])
next
  case False
  with assms show ?thesis
    by (cases "unat l \<le> knet_pkt_size")
      (simp_all add: knet_write_rt_def load_def store_def Let_def)
qed

theorem knet_write_rt_datagram_witness:
  "\<exists>s'. knet_write_rt demo_kernel [0, 0, 8, 0, 1, 2, 3, 4] [5, 6] 2
       \<lparr>world = demo_init, pcap_fd = -1, knet_fd = 3,
        knet_tgt = \<lparr>sin_family = 2, sin_port = 0, s_addr = 0\<rparr>, knet_pkt = replicate 2048 0\<rparr> =
       Some (10, s') \<and> d_sent (world s') = [[0, 0, 8, 0, 1, 2, 3, 4, 5, 6]]"
  by (subst knet_write_rt_datagram [where l = 8])
    (simp_all add: it_len_def load_def knet_pkt_size_def sys_def Let_def demo_defs)

end
