(* ===== verification/Kwifimon.thy ===== *)
theory Kwifimon
  imports Knet
begin

text \<open>
  The kernel plugin's control interface and packet hook, \<open>src/kplugin/kwifimon.c\<close>: the
  plugin's globals, the system calls that start and stop the two recorders and hand out the
  packet counters, the hook on the driver's packet handler, and module start and stop. The
  hook on the driver's ioctl function is in the theory \<open>Kwifimon_Ioctl\<close>.
\<close>

section \<open>Constants and state\<close>

text \<open>\<open>src/common/kwifimon_export.h\<close>: the recorder states are combined with bitwise or.\<close>

definition STATE_IDLE :: u32 where "STATE_IDLE = 0"
definition STATE_MONITOR :: u32 where "STATE_MONITOR = 0x00000001"
definition STATE_REC_FILE :: u32 where "STATE_REC_FILE = 0x00000002"
definition STATE_REC_NET :: u32 where "STATE_REC_NET = 0x00000003"
definition STATE_ERROR :: u32 where "STATE_ERROR = 0x80000001"
definition KWIFIMON_NET_PORT :: u16 where "KWIFIMON_NET_PORT = 65111"

definition PKT_TYPE_MGMT :: u16 where "PKT_TYPE_MGMT = 0xE5"
definition PKT_TYPE_AMSDU :: u16 where "PKT_TYPE_AMSDU = 0xE6"
definition PKT_TYPE_BAR :: u16 where "PKT_TYPE_BAR = 0xE7"

lemmas state_defs = STATE_IDLE_def STATE_MONITOR_def STATE_REC_FILE_def STATE_REC_NET_def
  STATE_ERROR_def

lemmas pkt_type_defs = PKT_TYPE_MGMT_def PKT_TYPE_AMSDU_def PKT_TYPE_BAR_def

record wifimon_stats_t =
  pkt_cnt :: u32
  mgmt_cnt :: u32
  amsdu_cnt :: u32
  bar_cnt :: u32
  evt_cnt :: u32

definition zero_stats :: wifimon_stats_t where
  "zero_stats = \<lparr>pkt_cnt = 0, mgmt_cnt = 0, amsdu_cnt = 0, bar_cnt = 0, evt_cnt = 0\<rparr>"

definition stats_bytes :: "wifimon_stats_t \<Rightarrow> byte list" where
  "stats_bytes st = le32 (pkt_cnt st) @ le32 (mgmt_cnt st) @ le32 (amsdu_cnt st) @
     le32 (bar_cnt st) @ le32 (evt_cnt st)"

definition stats_of :: "byte list \<Rightarrow> wifimon_stats_t" where
  "stats_of bs = \<lparr>pkt_cnt = ld32 bs, mgmt_cnt = ld32 (drop 4 bs), amsdu_cnt = ld32 (drop 8 bs),
     bar_cnt = ld32 (drop 12 bs), evt_cnt = ld32 (drop 16 bs)\<rparr>"

interpretation stats: codec stats_bytes stats_of 20
  by unfold_locales (simp_all add: stats_bytes_def stats_of_def)

text \<open>
  The plugin's globals, the driver function pointers it looked up, and the one field of the
  driver's device structure it writes.
\<close>

definition HOOKS_NUMBER :: nat where "HOOKS_NUMBER = 5"

record 'w kwifimon_globals = "'w knet_globals" +
  uids :: "int list"
  hooks_uid :: "int list"
  ref_hooks :: "u32 list"
  kwifimon_mutex :: int
  kwifimon_channel_freq :: u32
  kwifimon_channel_band :: u32
  kwifimon_state :: u32
  kwifimon_stats :: wifimon_stats_t
  fn_ptrs :: "(string \<times> u32) list"
  current_mac_control :: u16

section \<open>System calls\<close>

text \<open>
  Every control call has the same frame: enter the system call, take the mutex, run the body,
  release the mutex and answer what releasing it answered; if the mutex cannot be taken, the
  body is skipped and the answer is the error of taking it.
\<close>

definition syscall_locked ::
  "'w kernel \<Rightarrow> (('w, 'm) kwifimon_globals_scheme \<Rightarrow> ('w, 'm) kwifimon_globals_scheme) \<Rightarrow>
     ('w, 'm) kwifimon_globals_scheme \<Rightarrow> int \<times> ('w, 'm) kwifimon_globals_scheme" where
  "syscall_locked k body s =
     (let (st, s) = sys (ENTER_SYSCALL k) s;
          (ret, s) = sys (ksceKernelLockMutex k (kwifimon_mutex s)) s;
          (ret, s) =
            (if ret \<ge> 0 then
               (let s = body s in sys (ksceKernelUnlockMutex k (kwifimon_mutex s)) s)
             else (ret, s))
      in (ret, s\<lparr>world := EXIT_SYSCALL k st (world s)\<rparr>))"

definition kwifimon_mod_state ::
  "'w kernel \<Rightarrow> ('w, 'm) kwifimon_globals_scheme \<Rightarrow> u32 \<times> ('w, 'm) kwifimon_globals_scheme" where
  "kwifimon_mod_state k s =
     (let (st, s) = sys (ENTER_SYSCALL k) s;
          ret = kwifimon_state s
      in (ret, s\<lparr>world := EXIT_SYSCALL k st (world s)\<rparr>))"

definition kwifimon_cap_start ::
  "'w kernel \<Rightarrow> ('w, 'm) kwifimon_globals_scheme \<Rightarrow> int \<times> ('w, 'm) kwifimon_globals_scheme" where
  "kwifimon_cap_start k = syscall_locked k (\<lambda>s.
     let (ret, s) = pcap_open k ''ux0:/data/test.cap'' s
     in if ret = 0 then s\<lparr>kwifimon_state := kwifimon_state s OR STATE_REC_FILE\<rparr> else s)"

definition kwifimon_cap_stop ::
  "'w kernel \<Rightarrow> ('w, 'm) kwifimon_globals_scheme \<Rightarrow> int \<times> ('w, 'm) kwifimon_globals_scheme" where
  "kwifimon_cap_stop k = syscall_locked k (\<lambda>s.
     let s = pcap_close k s
     in s\<lparr>kwifimon_state := kwifimon_state s AND NOT STATE_REC_FILE\<rparr>)"

definition kwifimon_mod_stats ::
  "'w kernel \<Rightarrow> u32 \<Rightarrow> int \<Rightarrow> ('w, 'm) kwifimon_globals_scheme \<Rightarrow>
     int \<times> ('w, 'm) kwifimon_globals_scheme" where
  "kwifimon_mod_stats k p reset = syscall_locked k (\<lambda>s.
     let (_, s) = sys (ksceKernelMemcpyKernelToUser k p (stats_bytes (kwifimon_stats s))) s
     in if reset \<noteq> 0 then s\<lparr>kwifimon_stats := zero_stats\<rparr> else s)"

definition kwifimon_net_start ::
  "'w kernel \<Rightarrow> ('w, 'm) kwifimon_globals_scheme \<Rightarrow> int \<times> ('w, 'm) kwifimon_globals_scheme" where
  "kwifimon_net_start k = syscall_locked k (\<lambda>s.
     let (ret, s) = knet_start k KWIFIMON_NET_PORT s
     in if ret = 0 then s\<lparr>kwifimon_state := kwifimon_state s OR STATE_REC_NET\<rparr> else s)"

definition kwifimon_net_stop ::
  "'w kernel \<Rightarrow> ('w, 'm) kwifimon_globals_scheme \<Rightarrow> int \<times> ('w, 'm) kwifimon_globals_scheme" where
  "kwifimon_net_stop k = syscall_locked k (\<lambda>s.
     let s = knet_stop k s
     in s\<lparr>kwifimon_state := kwifimon_state s AND NOT STATE_REC_NET\<rparr>)"

section \<open>The packet hook\<close>

text \<open>Counting under the mutex: nothing happens if the mutex cannot be taken.\<close>

definition count_locked ::
  "'w kernel \<Rightarrow> (wifimon_stats_t \<Rightarrow> wifimon_stats_t) \<Rightarrow> ('w, 'm) kwifimon_globals_scheme \<Rightarrow>
     ('w, 'm) kwifimon_globals_scheme" where
  "count_locked k f s =
     (let (ret, s) = sys (ksceKernelLockMutex k (kwifimon_mutex s)) s
      in if ret \<ge> 0 then
           (let s = s\<lparr>kwifimon_stats := f (kwifimon_stats s)\<rparr>
            in snd (sys (ksceKernelUnlockMutex k (kwifimon_mutex s)) s))
         else s)"

definition count_rx :: "u16 \<Rightarrow> wifimon_stats_t \<Rightarrow> wifimon_stats_t" where
  "count_rx rx_pkt_type st =
     (if rx_pkt_type = PKT_TYPE_MGMT then st\<lparr>mgmt_cnt := mgmt_cnt st + 1\<rparr>
      else if rx_pkt_type = PKT_TYPE_AMSDU then st\<lparr>amsdu_cnt := amsdu_cnt st + 1\<rparr>
      else if rx_pkt_type = PKT_TYPE_BAR then st\<lparr>bar_cnt := bar_cnt st + 1\<rparr>
      else st\<lparr>pkt_cnt := pkt_cnt st + 1\<rparr>)"

text \<open>
  \<open>in_pkt\<close> starts with the two halfwords of \<open>struct sdio_rx_t\<close>; a data packet continues with
  \<open>struct rxpd\<close>, of which the hook reads the length, offset and type.
\<close>

definition kwifimon_process_respose ::
  "'w kernel \<Rightarrow> byte list \<Rightarrow> int \<Rightarrow> ('w, 'm) kwifimon_globals_scheme \<Rightarrow>
     (int \<times> ('w, 'm) kwifimon_globals_scheme) option" where
  "kwifimon_process_respose k in_pkt in_pkt_len s = do {
     t \<leftarrow> load in_pkt 2 2;
     let pkt_type = ld16 t;
     own_event \<leftarrow>
       (if pkt_type = 3 then
          map_option (\<lambda>e. ld16 e AND 0xfff = 0x123) (load in_pkt 0 2)
        else Some False);
     if own_event then
       Some (0, count_locked k (\<lambda>st. st\<lparr>evt_cnt := evt_cnt st + 1\<rparr>) s)
     else if pkt_type = 0 \<or> pkt_type = 10 then do {
       _ \<leftarrow> load in_pkt (4 + 4) 2;
       _ \<leftarrow> load in_pkt (4 + 2) 2;
       r \<leftarrow> load in_pkt (4 + 6) 2;
       let rx_pkt_type = ld16 r;
       let s = count_locked k (count_rx rx_pkt_type) s;
       if rx_pkt_type = PKT_TYPE_MGMT then Some (0, s)
       else Some (sys (orig_process_response k in_pkt in_pkt_len) s)
     }
     else Some (sys (orig_process_response k in_pkt in_pkt_len) s)
   }"

section \<open>Module start and stop\<close>

text \<open>The driver functions the plugin calls, and their offsets (bit 0 marks Thumb code).\<close>

definition driver_offsets :: "(string \<times> u32) list" where
  "driver_offsets = [
     (''wlan_cmd_alloc'', 0x2954 OR 1), (''wlan_cmd_free'', 0x2A18 OR 1),
     (''wlan_cmd_send1'', 0x2F44 OR 1), (''wlan_cmd_send2'', 0x2DB4 OR 1),
     (''wlan_cmd_wait'', 0x2E7C OR 1), (''wlan_lock'', 0x0E50 OR 1),
     (''wlan_unlock'', 0x0E70 OR 1), (''wlan_mem_read'', 0x4568 OR 1),
     (''wlan_mem_write'', 0x45E8 OR 1)]"

fun resolve_all ::
  "'w kernel \<Rightarrow> int \<Rightarrow> (string \<times> u32) list \<Rightarrow> ('w, 'm) kwifimon_globals_scheme \<Rightarrow>
     ('w, 'm) kwifimon_globals_scheme" where
  "resolve_all k modid [] s = s"
| "resolve_all k modid ((name, off) # os) s =
     (let (addr, s) = sys (module_get_offset k modid off) s
      in resolve_all k modid os (s\<lparr>fn_ptrs := (name, addr) # fn_ptrs s\<rparr>))"

definition install_hook ::
  "'w kernel \<Rightarrow> int \<Rightarrow> nat \<Rightarrow> u32 \<Rightarrow> string \<Rightarrow> ('w, 'm) kwifimon_globals_scheme \<Rightarrow>
     ('w, 'm) kwifimon_globals_scheme" where
  "install_hook k modid i off fn s =
     (let ((uid, r), s) = sys (taiHookFunctionOffsetForKernel k modid off fn) s
      in s\<lparr>hooks_uid := (hooks_uid s)[i := uid], ref_hooks := (ref_hooks s)[i := r]\<rparr>)"

definition module_start ::
  "'w kernel \<Rightarrow> ('w, 'm) kwifimon_globals_scheme \<Rightarrow> ('w, 'm) kwifimon_globals_scheme" where
  "module_start k s =
     (let (m, s) = sys (ksceKernelCreateMutex k) s;
          s = s\<lparr>kwifimon_mutex := m\<rparr>;
          ((ret, modid), s) = sys (taiGetModuleInfoForKernel k ''SceWlanBt'') s
      in if ret < 0 then s\<lparr>kwifimon_state := STATE_ERROR\<rparr>
         else install_hook k modid 2 0x73f0 ''kwifimon_ioctl''
                (install_hook k modid 1 0x1cd4 ''kwifimon_process_respose''
                  (resolve_all k modid driver_offsets s)))"

text \<open>The two \<open>while (i--)\<close> loops: from the last slot down to the first, skipping empty ones.\<close>

fun release_injects ::
  "'w kernel \<Rightarrow> nat \<Rightarrow> ('w, 'm) kwifimon_globals_scheme \<Rightarrow> ('w, 'm) kwifimon_globals_scheme" where
  "release_injects k 0 s = s"
| "release_injects k (Suc i) s =
     release_injects k i
       (if uids s ! i \<noteq> 0 then snd (sys (taiInjectReleaseForKernel k (uids s ! i)) s) else s)"

fun release_hooks ::
  "'w kernel \<Rightarrow> nat \<Rightarrow> ('w, 'm) kwifimon_globals_scheme \<Rightarrow> ('w, 'm) kwifimon_globals_scheme" where
  "release_hooks k 0 s = s"
| "release_hooks k (Suc i) s =
     release_hooks k i
       (if hooks_uid s ! i \<noteq> 0
        then snd (sys (taiHookReleaseForKernel k (hooks_uid s ! i) (ref_hooks s ! i)) s) else s)"

definition module_stop ::
  "'w kernel \<Rightarrow> ('w, 'm) kwifimon_globals_scheme \<Rightarrow> ('w, 'm) kwifimon_globals_scheme" where
  "module_stop k s =
     (let s = knet_stop k (pcap_close k s);
          s = s\<lparr>kwifimon_state := 0\<rparr>;
          s = release_hooks k HOOKS_NUMBER (release_injects k HOOKS_NUMBER s)
      in snd (sys (ksceKernelDeleteMutex k (kwifimon_mutex s)) s))"

text \<open>The globals as the module is loaded: the initialisers of the C code, zero elsewhere.\<close>

definition initial_globals :: "'w \<Rightarrow> 'w kwifimon_globals" where
  "initial_globals w = \<lparr>world = w, pcap_fd = -1, knet_fd = -1,
     knet_tgt = \<lparr>sin_family = 0, sin_port = 0, s_addr = 0\<rparr>,
     knet_pkt = replicate knet_pkt_size 0,
     uids = replicate HOOKS_NUMBER 0, hooks_uid = replicate HOOKS_NUMBER 0,
     ref_hooks = replicate HOOKS_NUMBER 0, kwifimon_mutex = 0,
     kwifimon_channel_freq = 0, kwifimon_channel_band = 0, kwifimon_state = 0,
     kwifimon_stats = zero_stats, fn_ptrs = [], current_mac_control = 0\<rparr>"

end
