(* ===== verification/C_Layout.thy ===== *)
theory C_Layout
  imports Wifi_Prelude
begin

text \<open>
  The memory layout of the packed structs that the kernel plugin overlays on the WLAN
  driver's memory (\<open>src/common/wlan_kernel.h\<close>), exchanges with user space
  (\<open>src/common/kwifimon_export.h\<close>), with the firmware (\<open>src/kplugin/kwifimon.h\<close>) and
  writes to capture files (\<open>src/common/radiotap.h\<close>, \<open>src/kplugin/pcap.h\<close>).
  A struct is the list of its fields in declaration order; every struct of these headers is
  packed (\<open>wlan_lock_t\<close>, which has no attribute, holds three words and needs no padding),
  so a field starts where the previous one ends. Pointers are 4 bytes on the target.
\<close>

section \<open>Field types, sizes and offsets\<close>

datatype ctype = CI8 | CI16 | CI32 | CPtr | CArr nat ctype | CStruct "(string \<times> ctype) list"

type_synonym cfield = "string \<times> ctype"

fun csize :: "ctype \<Rightarrow> nat" where
  "csize CI8 = 1"
| "csize CI16 = 2"
| "csize CI32 = 4"
| "csize CPtr = 4"
| "csize (CArr n t) = n * csize t"
| "csize (CStruct fs) = sum_list (map (\<lambda>(f, t). csize t) fs)"

fun field_offsets :: "nat \<Rightarrow> cfield list \<Rightarrow> (string \<times> nat) list" where
  "field_offsets off [] = []"
| "field_offsets off ((f, t) # fs) = (f, off) # field_offsets (off + csize t) fs"

definition offset_of :: "cfield list \<Rightarrow> string \<Rightarrow> nat option" where
  "offset_of fs f = map_of (field_offsets 0 fs) f"

definition type_of :: "cfield list \<Rightarrow> string \<Rightarrow> ctype option" where
  "type_of fs f = map_of fs f"

definition sizeof :: "cfield list \<Rightarrow> nat" where
  "sizeof fs = csize (CStruct fs)"

lemma sizeof_Nil [simp]: "sizeof [] = 0"
  by (simp add: sizeof_def)

lemma sizeof_Cons [simp]: "sizeof ((f, t) # fs) = csize t + sizeof fs"
  by (simp add: sizeof_def)

lemma sizeof_append [simp]: "sizeof (fs @ gs) = sizeof fs + sizeof gs"
  by (simp add: sizeof_def)

lemma field_offsets_append:
  "field_offsets off (fs @ gs) = field_offsets off fs @ field_offsets (off + sizeof fs) gs"
  by (induction fs arbitrary: off) (auto simp: add.assoc)

lemma map_fst_field_offsets [simp]: "map fst (field_offsets off fs) = map fst fs"
  by (induction fs arbitrary: off) auto

text \<open>A field starts after exactly the fields declared before it.\<close>

lemma offset_of_split:
  assumes "f \<notin> fst ` set fs"
  shows "offset_of (fs @ (f, t) # gs) f = Some (sizeof fs)"
proof -
  have "f \<notin> fst ` set (field_offsets 0 fs)"
    using assms by (metis list.set_map map_fst_field_offsets)
  then have "map_of (field_offsets 0 fs) f = None"
    by (simp add: map_of_eq_None_iff)
  then show ?thesis
    by (simp add: offset_of_def field_offsets_append map_add_def)
qed

lemma offset_of_bound:
  assumes "offset_of fs f = Some off" and "type_of fs f = Some t"
  shows "off + csize t \<le> sizeof fs"
proof -
  have "\<exists>p \<in> set fs. fst p = f"
    using assms(2) by (force simp: type_of_def dest: map_of_SomeD)
  then obtain us p vs where fs: "fs = us @ p # vs" and p: "fst p = f"
    and us: "\<forall>q \<in> set us. fst q \<noteq> f"
    by (rule split_list_first_propE) (rule that, auto)
  obtain u where u: "p = (f, u)"
    using p by (cases p) auto
  have new: "f \<notin> fst ` set us"
    using us by auto
  have "off = sizeof us"
    using assms(1) offset_of_split [OF new, of u vs] by (simp add: fs u)
  moreover have "map_of us f = None"
    using new by (simp add: map_of_eq_None_iff)
  then have "t = u"
    using assms(2) by (simp add: fs u type_of_def map_add_def)
  ultimately show ?thesis
    by (simp add: fs u)
qed

section \<open>The WLAN driver's structs\<close>

definition netdev_t_fields :: "cfield list" where
  "netdev_t_fields = [
    (''next'', CPtr), (''prev'', CPtr), (''fnc_alloc'', CPtr), (''fnc_free'', CPtr),
    (''fnc_dev_pbuf_alloc'', CPtr), (''field_14'', CPtr), (''fnc_dev_pbuf_free'', CPtr),
    (''fnc_pkt_rx'', CPtr), (''fnc_get_tx_pbuf'', CPtr), (''field_24'', CPtr),
    (''field_28'', CPtr), (''field_2C'', CI32), (''field_30'', CI32), (''netdev_2_ptr'', CPtr),
    (''field_38'', CPtr), (''field_3C'', CPtr), (''field_40'', CPtr), (''field_44'', CPtr),
    (''fnc_tx_pkt'', CPtr), (''field_4C'', CPtr), (''fnc_ioctl'', CPtr), (''field_54'', CI32),
    (''dev_type'', CI32), (''field_5C'', CI32), (''field_60'', CI32), (''mtu'', CI32),
    (''field_68'', CI32), (''priv'', CPtr), (''field_70'', CI32), (''field_74'', CI32),
    (''tx_bytes'', CI32), (''tx_pkts'', CI32), (''tx_bcast_bytes'', CI32),
    (''tx_bcast_pkts'', CI32), (''tx_mcast_bytes'', CI32), (''tx_mcast_pkts'', CI32),
    (''rx_bytes'', CI32), (''rx_pkts'', CI32), (''rx_bcast_bytes'', CI32),
    (''rx_bcast_pkts'', CI32), (''rx_mcast_bytes'', CI32), (''rx_mcast_pkts'', CI32),
    (''field_A8'', CI32), (''field_AC'', CI32)]"

definition wlan_tx_buf_t_fields :: "cfield list" where
  "wlan_tx_buf_t_fields = [
    (''cmd'', CI32), (''len'', CI32), (''buf'', CI32), (''field_C'', CI32),
    (''field_10'', CI32), (''field_14'', CI32)]"

definition wlan_cmd_t_fields :: "cfield list" where
  "wlan_cmd_t_fields = [
    (''cmd'', CI16), (''unk'', CI16), (''hdr'', CPtr), (''out_data'', CPtr),
    (''in_data'', CPtr), (''unk1'', CI32), (''unk2'', CI32), (''result_cb'', CPtr),
    (''unk3'', CI32), (''unk4'', CI32), (''unk5'', CI32), (''unk6'', CI32), (''unk7'', CI32),
    (''unk8'', CI32), (''unk9'', CI32)]"

definition wlan_lock_t_fields :: "cfield list" where
  "wlan_lock_t_fields = [
    (''x'', CI32), (''y'', CI32), (''z'', CI32)]"

definition wlan_dev_t_fields :: "cfield list" where
  "wlan_dev_t_fields = [
    (''field_1'', CArr 12 CI8), (''field_C'', CI32), (''field_10'', CI32),
    (''field_14'', CArr 20 CI8), (''wlandev_ptr'', CPtr), (''cmd_mutex'', CI32),
    (''field_30'', CArr 28 CI8), (''current_maccontrl'', CI16), (''field_4E'', CArr 30 CI8),
    (''command_event_flag'', CI32), (''field_70'', CArr 4 CI8), (''sdio_dev_fd'', CI32),
    (''field_78'', CArr 4 CI8), (''ioport'', CI32), (''field_80'', CArr 8 CI8),
    (''aggr_20'', CI32), (''cmd_mem'', CI32), (''robin_mem'', CI32), (''robin_mem2'', CI32),
    (''field_98'', CI32), (''field_9C'', CI8), (''field_9D'', CI8), (''field_9E'', CI16),
    (''field_A0'', CI16), (''field_A2'', CI16), (''field_A4'', CI32), (''current_cmd'', CPtr),
    (''field_AC'', CI32), (''wifi_cmds'', CArr 8 (CStruct wlan_cmd_t_fields)),
    (''field_270'', CArr 16 (CStruct wlan_tx_buf_t_fields)), (''field_3F0'', CArr 340 CI8),
    (''aggr_mem'', CI32), (''field_548'', CArr 40 CI8), (''aggr_memsize'', CI32),
    (''field_574'', CI32), (''sdio_aggr_rx'', CI32), (''field_57C'', CArr 4 CI8),
    (''wlandev_ptr1'', CPtr), (''wlandev_ptr2'', CPtr), (''tcmmutex'', CI32),
    (''field_58C'', CArr 60 CI8), (''tcm_event_flag'', CI32), (''current_mac_control'', CI16),
    (''field_5CE'', CArr 34 CI8), (''mutex'', CI32), (''field_5F4'', CArr 60 CI8),
    (''netdev'', CStruct netdev_t_fields), (''wlan_thread'', CI32),
    (''eventflag_robinworker'', CI32), (''field_6E8'', CArr 24 CI8), (''field_700'', CI32),
    (''some_net_flag'', CI32), (''sysevent_handler'', CI32), (''tx_flag'', CI32),
    (''field_710'', CI32), (''field_714'', CI32), (''wlan_lock'', CStruct wlan_lock_t_fields),
    (''field_724'', CArr 60 CI8), (''ibss_mac'', CI32), (''field_764'', CArr 88 CI8),
    (''field_7BC'', CI32), (''field_7C0'', CI32), (''field_7C4'', CI32),
    (''addba_active'', CI32), (''field_7CC'', CI32), (''field_7D0'', CI32),
    (''field_7D4'', CI32), (''field_7D8'', CI32), (''field_7DC'', CI32), (''field_7E0'', CI32),
    (''field_7E4'', CI32), (''field_7E8'', CArr 5700 CI8), (''field_0'', CI32)]"

section \<open>Structs shared with user space\<close>

definition wifimon_stats_t_fields :: "cfield list" where
  "wifimon_stats_t_fields = [
    (''pkt_cnt'', CI32), (''mgmt_cnt'', CI32), (''amsdu_cnt'', CI32), (''bar_cnt'', CI32),
    (''evt_cnt'', CI32)]"

definition iface_counter_t_fields :: "cfield list" where
  "iface_counter_t_fields = [
    (''bytes1'', CI32), (''pkts1'', CI32), (''bytes2'', CI32), (''pkts2'', CI32)]"

definition iface_t_fields :: "cfield list" where
  "iface_t_fields = [
    (''name'', CArr 16 CI8), (''field_10'', CArr 16 CI8), (''dev_idx'', CI32),
    (''field_10_len'', CI32), (''field_28'', CI32), (''field_2C'', CI16), (''field_2E'', CI32),
    (''field_32'', CI16), (''field_34'', CI32), (''field_38'', CArr 16 CI8),
    (''field_48'', CI32), (''dev_type'', CI32), (''field_50'', CArr 8 CI8), (''mtu'', CI32),
    (''mtu1'', CI32), (''counters'', CArr 5 (CStruct iface_counter_t_fields)),
    (''field_B0'', CArr 8 CI8), (''field_B8'', CI32), (''field_BC'', CI32),
    (''field_C0'', CStruct iface_counter_t_fields), (''field_D0'', CArr 8 CI8),
    (''field_D8'', CI32), (''field_DC'', CArr 4 CI8), (''field_E0'', CI32),
    (''field_E4'', CI32), (''field_E8'', CI32), (''field_EC'', CI32), (''field_F0'', CI32),
    (''field_F4'', CI32), (''field_F8'', CI32), (''field_FC'', CI32), (''field_100'', CI32),
    (''field_104'', CArr 8 CI8), (''field_10C'', CI32), (''field_110'', CI32),
    (''field_114'', CArr 44 CI8)]"

section \<open>Firmware command and packet headers\<close>

definition wlan_mon_t_fields :: "cfield list" where
  "wlan_mon_t_fields = [
    (''action'', CI16), (''mode'', CI16)]"

definition wlan_rf_channel_t_fields :: "cfield list" where
  "wlan_rf_channel_t_fields = [
    (''action'', CI16), (''current_channel'', CI16), (''rf_type'', CI16), (''reserved'', CI16),
    (''reserved_1'', CArr 32 CI8)]"

definition wlan_mac_control_t_fields :: "cfield list" where
  "wlan_mac_control_t_fields = [
    (''action'', CI32)]"

definition wlan_mgmt_frame_reg_t_fields :: "cfield list" where
  "wlan_mgmt_frame_reg_t_fields = [
    (''action'', CI16), (''mask'', CI16)]"

definition sdio_rx_t_fields :: "cfield list" where
  "sdio_rx_t_fields = [
    (''xx'', CI16), (''pkt_type'', CI16)]"

definition rxpd_fields :: "cfield list" where
  "rxpd_fields = [
    (''bss_type'', CI8), (''bss_num'', CI8), (''rx_pkt_length'', CI16),
    (''rx_pkt_offset'', CI16), (''rx_pkt_type'', CI16), (''seq_num'', CI16),
    (''priority'', CI8), (''rx_rate'', CI8), (''snr'', CI8), (''nf'', CI8), (''ht_info'', CI8),
    (''reserved'', CArr 3 CI8), (''flags'', CI8)]"

section \<open>Capture headers\<close>

definition ieee80211_radiotap_header_fields :: "cfield list" where
  "ieee80211_radiotap_header_fields = [
    (''it_version'', CI8), (''it_pad'', CI8), (''it_len'', CI16), (''it_present'', CI32)]"

definition tx_radiotap_hdr_fields :: "cfield list" where
  "tx_radiotap_hdr_fields = [
    (''hdr'', CStruct ieee80211_radiotap_header_fields), (''rate'', CI8), (''txpower'', CI8),
    (''rts_retries'', CI8), (''data_retries'', CI8)]"

definition rx_radiotap_hdr_fields :: "cfield list" where
  "rx_radiotap_hdr_fields = [
    (''hdr'', CStruct ieee80211_radiotap_header_fields), (''flags'', CI8), (''rate'', CI8),
    (''ch_freq'', CI16), (''ch_flags'', CI16), (''antsignal'', CI8), (''antnoise'', CI8),
    (''mcs_known'', CI8), (''mcs_flags'', CI8), (''mcs'', CI8)]"

definition pcap_hdr_s_fields :: "cfield list" where
  "pcap_hdr_s_fields = [
    (''magic_number'', CI32), (''version_major'', CI16), (''version_minor'', CI16),
    (''thiszone'', CI32), (''sigfigs'', CI32), (''snaplen'', CI32), (''network'', CI32)]"

definition pcaprec_hdr_s_fields :: "cfield list" where
  "pcaprec_hdr_s_fields = [
    (''ts_sec'', CI32), (''ts_usec'', CI32), (''incl_len'', CI32), (''orig_len'', CI32)]"

section \<open>Layout checks\<close>

end
