(* ===== verification/Kwifimon_Ioctl.thy ===== *)
theory Kwifimon_Ioctl
  imports Kwifimon C_Layout
begin

text \<open>
  The hook on the driver's ioctl function, \<open>kwifimon_ioctl\<close> of \<open>src/kplugin/kwifimon.c\<close>, and
  the two routines that send a command to the firmware on its behalf.

  The caller's buffer is a byte list and its length argument an integer of its own; every
  access to the buffer, and to the command and response buffers of the driver, is checked.
\<close>

section \<open>Constants\<close>

definition WLAN_IOCTL_GET_MAC_CONTROL :: u32 where "WLAN_IOCTL_GET_MAC_CONTROL = 0x4011FF01"
definition WLAN_IOCTL_SET_MAC_CONTROL :: u32 where "WLAN_IOCTL_SET_MAC_CONTROL = 0x5011FF01"
definition WLAN_IOCTL_ANYCMD :: u32 where "WLAN_IOCTL_ANYCMD = 0x5011FF05"
definition WLAN_IOCTL_MEM :: u32 where "WLAN_IOCTL_MEM = 0x5011FF07"
definition WLAN_IOCTL_INIT :: u32 where "WLAN_IOCTL_INIT = 0x5011FF08"
definition WLAN_CMD_MAC_CONTROL :: u16 where "WLAN_CMD_MAC_CONTROL = 0x0028"

lemmas ioctl_req_defs = WLAN_IOCTL_GET_MAC_CONTROL_def WLAN_IOCTL_SET_MAC_CONTROL_def
  WLAN_IOCTL_ANYCMD_def WLAN_IOCTL_MEM_def WLAN_IOCTL_INIT_def

text \<open>The error code for a failed allocation, as the \<open>int\<close> that is returned.\<close>

definition ENOMEM_CODE :: int where
  "ENOMEM_CODE = sint (0x80418005 :: u32)"

section \<open>Firmware commands\<close>

definition kwifimon_mac_control ::
  "'w kernel \<Rightarrow> u16 \<Rightarrow> ('w, 'm) kwifimon_globals_scheme \<Rightarrow>
     (int \<times> ('w, 'm) kwifimon_globals_scheme) option" where
  "kwifimon_mac_control k mode s =
     (let n = sizeof wlan_mac_control_t_fields;
          (c, s) = sys (wlan_cmd_alloc k (int n)) s
      in case c of
           None \<Rightarrow> Some (ENOMEM_CODE, s)
         | Some cmd \<Rightarrow> do {
             od \<leftarrow> store (out_data cmd) 0 (le32 (ucast mode));
             let cmd = cmd\<lparr>result_cb := 0, out_data := od\<rparr>;
             let ((ret, cmd), s) = sys (wlan_cmd_send2 k cmd WLAN_CMD_MAC_CONTROL (int n)) s;
             let ((ret, cmd), s) =
               (if ret \<ge> 0 then sys (wlan_cmd_wait k cmd) s else ((ret, cmd), s));
             let s = snd (sys (wlan_cmd_free k cmd) s);
             Some (ret, s)
           })"

text \<open>\<open>buf\<close> is the part of the caller's buffer that the pointer argument leads to.\<close>

definition kwifimon_wlan_anycmd ::
  "'w kernel \<Rightarrow> u16 \<Rightarrow> byte list \<Rightarrow> u8 \<Rightarrow> u16 \<Rightarrow> ('w, 'm) kwifimon_globals_scheme \<Rightarrow>
     (int \<times> byte list \<times> ('w, 'm) kwifimon_globals_scheme) option" where
  "kwifimon_wlan_anycmd k wlancmd buf out_len in_len s =
     (let (c, s) = sys (wlan_cmd_alloc k (int (unat out_len))) s
      in case c of
           None \<Rightarrow> Some (ENOMEM_CODE, buf, s)
         | Some cmd \<Rightarrow> do {
             bs \<leftarrow> load buf 0 (unat out_len);
             od \<leftarrow> store (out_data cmd) 0 bs;
             let cmd = cmd\<lparr>result_cb := 0, out_data := od\<rparr>;
             let ((ret, cmd), s) = sys (wlan_cmd_send2 k cmd wlancmd (int (unat out_len))) s;
             ((ret, cmd), buf, s) \<leftarrow>
               (if ret \<ge> 0 then do {
                  let ((ret, cmd), s) = sys (wlan_cmd_wait k cmd) s;
                  buf \<leftarrow>
                    (if in_len \<noteq> 0 then do {
                       resp \<leftarrow> load (in_data cmd) 0 (unat in_len);
                       store buf 0 resp
                     } else Some buf);
                  Some ((ret, cmd), buf, s)
                } else Some ((ret, cmd), buf, s));
             let s = snd (sys (wlan_cmd_free k cmd) s);
             Some (ret, buf, s)
           })"

section \<open>The requests\<close>

text \<open>
  One definition per branch of the dispatch; each gets the answer so far, which it keeps if
  the buffer is too short.
\<close>

definition ioctl_get_mac_control ::
  "int \<Rightarrow> byte list \<Rightarrow> int \<Rightarrow> ('w, 'm) kwifimon_globals_scheme \<Rightarrow>
     (int \<times> byte list \<times> ('w, 'm) kwifimon_globals_scheme) option" where
  "ioctl_get_mac_control ret buf buf_len s =
     (if buf_len \<ge> 2 then do {
        buf \<leftarrow> store buf 0 (le16 (current_mac_control s));
        Some (0, buf, s)
      } else Some (ret, buf, s))"

definition ioctl_set_mac_control ::
  "'w kernel \<Rightarrow> int \<Rightarrow> byte list \<Rightarrow> int \<Rightarrow> ('w, 'm) kwifimon_globals_scheme \<Rightarrow>
     (int \<times> byte list \<times> ('w, 'm) kwifimon_globals_scheme) option" where
  "ioctl_set_mac_control k ret buf buf_len s =
     (if buf_len \<ge> 2 then do {
        m \<leftarrow> load buf 0 2;
        let mode = ld16 m;
        (ret, s) \<leftarrow> kwifimon_mac_control k mode s;
        Some (ret, buf, if ret \<ge> 0 then s\<lparr>current_mac_control := mode\<rparr> else s)
      } else Some (ret, buf, s))"

definition ioctl_anycmd ::
  "'w kernel \<Rightarrow> int \<Rightarrow> byte list \<Rightarrow> int \<Rightarrow> ('w, 'm) kwifimon_globals_scheme \<Rightarrow>
     (int \<times> byte list \<times> ('w, 'm) kwifimon_globals_scheme) option" where
  "ioctl_anycmd k ret buf buf_len s =
     (if buf_len \<ge> 6 then do {
        c \<leftarrow> load buf 0 2;
        ol \<leftarrow> load buf 2 2;
        il \<leftarrow> load buf 4 2;
        let cmd = ld16 c;
        let out_len = ld16 ol;
        let in_len = ld16 il;
        if buf_len \<ge> int (max (unat out_len) (unat in_len)) + 6 then do {
          (ret, rest, s) \<leftarrow> kwifimon_wlan_anycmd k cmd (drop 6 buf) (ucast out_len) in_len s;
          Some (ret, take 6 buf @ rest, s)
        } else Some (ret, buf, s)
      } else Some (ret, buf, s))"

definition ioctl_mem ::
  "'w kernel \<Rightarrow> int \<Rightarrow> byte list \<Rightarrow> int \<Rightarrow> ('w, 'm) kwifimon_globals_scheme \<Rightarrow>
     (int \<times> byte list \<times> ('w, 'm) kwifimon_globals_scheme) option" where
  "ioctl_mem k ret buf buf_len s =
     (if buf_len \<ge> 9 then do {
        a \<leftarrow> load buf 1 4;
        v \<leftarrow> load buf 5 4;
        op \<leftarrow> idx buf 0;
        let addr = ld32 a;
        let value = ld32 v;
        let ((ret, value), s) =
          (if op = 0 then sys (wlan_mem_read k addr value) s
           else if op = 1 then
             (let (r, s) = sys (wlan_mem_write k addr value) s in ((r, value), s))
           else ((ret, value), s));
        buf \<leftarrow> store buf 5 (le32 value);
        Some (ret, buf, s)
      } else Some (ret, buf, s))"

definition ioctl_dispatch ::
  "'w kernel \<Rightarrow> int \<Rightarrow> u32 \<Rightarrow> byte list \<Rightarrow> int \<Rightarrow> ('w, 'm) kwifimon_globals_scheme \<Rightarrow>
     (int \<times> byte list \<times> ('w, 'm) kwifimon_globals_scheme) option" where
  "ioctl_dispatch k ret req buf buf_len s =
     (if req = WLAN_IOCTL_GET_MAC_CONTROL then ioctl_get_mac_control ret buf buf_len s
      else if req = WLAN_IOCTL_SET_MAC_CONTROL then ioctl_set_mac_control k ret buf buf_len s
      else if req = WLAN_IOCTL_ANYCMD then ioctl_anycmd k ret buf buf_len s
      else if req = WLAN_IOCTL_MEM then ioctl_mem k ret buf buf_len s
      else Some (ret, buf, s))"

definition kwifimon_ioctl ::
  "'w kernel \<Rightarrow> u32 \<Rightarrow> byte list \<Rightarrow> int \<Rightarrow> ('w, 'm) kwifimon_globals_scheme \<Rightarrow>
     (int \<times> byte list \<times> ('w, 'm) kwifimon_globals_scheme) option" where
  "kwifimon_ioctl k req buf buf_len s =
     (let ((ret, buf), s) = sys (orig_ioctl k req buf buf_len) s;
          (lockret, s) = sys (wlan_lock k) s
      in if lockret \<ge> 0 then do {
           (ret, buf, s) \<leftarrow> ioctl_dispatch k ret req buf buf_len s;
           let s = snd (sys (wlan_unlock k) s);
           Some (ret, buf, s)
         }
         else Some (ret, buf, s))"

lemmas ioctl_branch_defs = ioctl_dispatch_def ioctl_get_mac_control_def
  ioctl_set_mac_control_def ioctl_anycmd_def ioctl_mem_def

section \<open>Buffers stay in bounds\<close>

lemma sizeof_mac_control [simp]: "sizeof wlan_mac_control_t_fields = 4"
  by (simp add: wlan_mac_control_t_fields_def)

lemma cmd_laws_alloc:
  assumes "cmd_laws k" and "fst (wlan_cmd_alloc k n w) = Some c"
  shows "nat n \<le> length (out_data c)"
  using assms unfolding cmd_laws_def by (metis prod.collapse)

lemma mac_control_defined:
  assumes "cmd_laws k"
  shows "\<exists>r s'. kwifimon_mac_control k mode s = Some (r, s')"
proof (cases "fst (wlan_cmd_alloc k 4 (world s))")
  case None
  then show ?thesis
    by (simp add: kwifimon_mac_control_def sys_update)
next
  case (Some c)
  then have "4 \<le> length (out_data c)"
    using cmd_laws_alloc [OF assms Some] by simp
  with Some show ?thesis
    by (simp add: kwifimon_mac_control_def sys_update store_def Let_def case_prod_beta)
qed

text \<open>
  The response to a command with a payload, \<open>None\<close> if there is none: no buffer for the command, or it could not be
  sent. The state is the one in which the command is allocated.
\<close>

definition anycmd_response :: "'w kernel \<Rightarrow> u16 \<Rightarrow> byte list \<Rightarrow> 'w \<Rightarrow> byte list option" where
  "anycmd_response k cmd payload w =
     (case wlan_cmd_alloc k (int (length payload)) w of
        (None, w) \<Rightarrow> None
      | (Some c, w) \<Rightarrow>
          (let c = c\<lparr>result_cb := 0, out_data := payload @ drop (length payload) (out_data c)\<rparr>;
               ((ret, c), w) = wlan_cmd_send2 k c cmd (int (length payload)) w
           in if ret \<ge> 0 then Some (in_data (snd (fst (wlan_cmd_wait k c w)))) else None))"

definition response_too_short :: "'w kernel \<Rightarrow> u16 \<Rightarrow> byte list \<Rightarrow> u16 \<Rightarrow> 'w \<Rightarrow> bool" where
  "response_too_short k cmd payload in_len w \<longleftrightarrow>
     (case anycmd_response k cmd payload w of None \<Rightarrow> False | Some resp \<Rightarrow> length resp < unat in_len)"

lemma anycmd_defined:
  assumes "cmd_laws k" and "unat out_len \<le> length buf" and "unat in_len \<le> length buf"
  shows "if response_too_short k cmd (take (unat out_len) buf) in_len (world s)
    then kwifimon_wlan_anycmd k cmd buf out_len in_len s = None
    else \<exists>r buf' s'. kwifimon_wlan_anycmd k cmd buf out_len in_len s = Some (r, buf', s') \<and>
      length buf' = length buf"
proof (cases "wlan_cmd_alloc k (int (unat out_len)) (world s)")
  case (Pair a w1)
  show ?thesis
  proof (cases a)
    case None
    then show ?thesis
      using Pair assms(2) by (simp add: kwifimon_wlan_anycmd_def sys_update response_too_short_def anycmd_response_def)
  next
    case (Some c)
    then have "unat out_len \<le> length (out_data c)"
      using cmd_laws_alloc [OF assms(1), of "int (unat out_len)" "world s"] Pair by simp
    then show ?thesis
      using Some Pair assms(2,3)
      by (auto simp: kwifimon_wlan_anycmd_def sys_update store_def load_def Let_def case_prod_beta
          response_too_short_def anycmd_response_def)
  qed
qed

text \<open>An answer of a request that stays in the caller's buffer and keeps its length.\<close>

definition in_bounds :: "byte list \<Rightarrow> ('a \<times> byte list \<times> 'b) option \<Rightarrow> bool" where
  "in_bounds buf x \<longleftrightarrow> (\<exists>r buf' s'. x = Some (r, buf', s') \<and> length buf' = length buf)"

lemma in_bounds_Some [simp]: "in_bounds buf (Some (r, buf', s')) \<longleftrightarrow> length buf' = length buf"
  by (simp add: in_bounds_def)

lemma get_in_bounds: "in_bounds buf (ioctl_get_mac_control ret buf (int (length buf)) s)"
  by (auto simp: ioctl_get_mac_control_def store_def)

lemma set_in_bounds:
  assumes "cmd_laws k"
  shows "in_bounds buf (ioctl_set_mac_control k ret buf (int (length buf)) s)"
  using mac_control_defined [OF assms, of "ld16 (take 2 buf)" s]
  by (auto simp: ioctl_set_mac_control_def load_def)

text \<open>
  When the ioctl for any command reads behind the response: the lengths it asks for fit the caller's buffer, there is a
  response, and it has fewer bytes than asked for. The length of the payload is the low byte of the one asked for.
\<close>

definition anycmd_overreads :: "'w kernel \<Rightarrow> byte list \<Rightarrow> 'w \<Rightarrow> bool" where
  "anycmd_overreads k buf w \<longleftrightarrow>
     (let out_len = ld16 (drop 2 buf); in_len = ld16 (drop 4 buf)
      in 6 \<le> length buf \<and> max (unat out_len) (unat in_len) + 6 \<le> length buf \<and>
         response_too_short k (ld16 buf) (take (unat out_len mod 256) (drop 6 buf)) in_len w)"

lemma anycmd_in_bounds:
  assumes "cmd_laws k"
  shows "if anycmd_overreads k buf (world s) then ioctl_anycmd k ret buf (int (length buf)) s = None
    else in_bounds buf (ioctl_anycmd k ret buf (int (length buf)) s)"
proof (cases "6 \<le> length buf")
  case True
  define ol il where "ol = ld16 (drop 2 buf)" and "il = ld16 (drop 4 buf)"
  have loads: "load buf 0 2 = Some (take 2 buf)" "load buf 2 2 = Some (take 2 (drop 2 buf))" "load buf 4 2 = Some (take 2 (drop 4 buf))"
    using True by (simp_all add: load_def)
  have ld [simp]: "ld16 (take 2 bs) = ld16 bs" for bs
    by (cases bs rule: ld16.cases) (simp_all add: numeral_2_eq_2)
  show ?thesis
  proof (cases "max (unat ol) (unat il) + 6 \<le> length buf")
    case fits: True
    have low: "unat (ucast ol :: u8) = unat ol mod 256"
      by (rule unat_ucast_16_8)
    have "unat (ucast ol :: u8) \<le> length (drop 6 buf)" "unat il \<le> length (drop 6 buf)"
      using fits unfolding length_drop low by (auto intro: order_trans [OF mod_less_eq_dividend])
    from anycmd_defined [OF assms this, of "ld16 buf" s]
    show ?thesis
      using True fits unfolding low
      by (auto simp: ioctl_anycmd_def loads anycmd_overreads_def in_bounds_def Let_def simp flip: ol_def il_def split: if_splits)
  next
    case False
    with True show ?thesis
      by (simp add: ioctl_anycmd_def loads anycmd_overreads_def flip: ol_def il_def)
  qed
qed (simp add: ioctl_anycmd_def anycmd_overreads_def Let_def)

lemma mem_in_bounds: "in_bounds buf (ioctl_mem k ret buf (int (length buf)) s)"
  by (simp add: ioctl_mem_def load_def idx_def store_def Let_def case_prod_beta)

lemma dispatch_in_bounds:
  assumes "cmd_laws k"
  shows "if req = WLAN_IOCTL_ANYCMD \<and> anycmd_overreads k buf (world s)
    then ioctl_dispatch k ret req buf (int (length buf)) s = None
    else in_bounds buf (ioctl_dispatch k ret req buf (int (length buf)) s)"
  using anycmd_in_bounds [OF assms, of buf s ret]
  by (auto simp: ioctl_dispatch_def get_in_bounds set_in_bounds [OF assms] mem_in_bounds ioctl_req_defs split: if_splits)

section \<open>Locks are released\<close>

lemma mac_control_locks:
  assumes "locking k held wheld" and "kwifimon_mac_control k mode s = Some (r, s')"
  shows "held (world s') = held (world s)" and "wheld (world s') = wheld (world s)"
  using assms(2) quiet_calls [OF locking_calls(1) [OF assms(1)]]
    quiet_calls [OF locking_calls(2) [OF assms(1)]]
  by (auto simp: kwifimon_mac_control_def sys_update Let_def case_prod_beta
      Option.bind_eq_Some_conv split: option.splits if_splits)

lemma anycmd_locks:
  assumes "locking k held wheld"
    and "kwifimon_wlan_anycmd k cmd buf out_len in_len s = Some (r, buf', s')"
  shows "held (world s') = held (world s)" and "wheld (world s') = wheld (world s)"
  using assms(2) quiet_calls [OF locking_calls(1) [OF assms(1)]]
    quiet_calls [OF locking_calls(2) [OF assms(1)]]
  by (auto simp: kwifimon_wlan_anycmd_def sys_update Let_def case_prod_beta
      Option.bind_eq_Some_conv split: option.splits if_splits)

lemma mem_locks:
  assumes "locking k held wheld" and "ioctl_mem k ret buf n s = Some (r, buf', s')"
  shows "held (world s') = held (world s)" and "wheld (world s') = wheld (world s)"
  using assms(2) quiet_calls [OF locking_calls(1) [OF assms(1)]]
    quiet_calls [OF locking_calls(2) [OF assms(1)]]
  by (auto simp: ioctl_mem_def sys_update Let_def case_prod_beta
      Option.bind_eq_Some_conv split: if_splits)

lemma set_cases:
  assumes "ioctl_set_mac_control k ret buf n s = Some (r, buf', s')"
  obtains (short) "s' = s" "r = ret" "buf' = buf" "n < 2"
  | (sent) m s1 where "load buf 0 2 = Some m" "buf' = buf" "2 \<le> n"
      "kwifimon_mac_control k (ld16 m) s = Some (r, s1)"
      "s' = (if 0 \<le> r then s1\<lparr>current_mac_control := ld16 m\<rparr> else s1)"
proof (cases "2 \<le> n")
  case True
  then obtain m r1 s1 where "load buf 0 2 = Some m"
    and "kwifimon_mac_control k (ld16 m) s = Some (r1, s1)"
    and "Some (r1, buf, if 0 \<le> r1 then s1\<lparr>current_mac_control := ld16 m\<rparr> else s1) =
      Some (r, buf', s')"
    using assms by (auto simp: ioctl_set_mac_control_def Option.bind_eq_Some_conv Let_def)
  then show thesis
    using True by (intro sent [of m s1]) auto
next
  case False
  then show thesis
    using assms by (intro short) (auto simp: ioctl_set_mac_control_def)
qed

lemma set_locks:
  assumes "locking k held wheld" and "ioctl_set_mac_control k ret buf n s = Some (r, buf', s')"
  shows "held (world s') = held (world s)" and "wheld (world s') = wheld (world s)"
proof -
  have "held (world s') = held (world s) \<and> wheld (world s') = wheld (world s)"
    using assms(2)
  proof (cases rule: set_cases)
    case (sent m s1)
    then show ?thesis
      using mac_control_locks [OF assms(1) sent(4)] by simp
  qed simp
  then show "held (world s') = held (world s)" and "wheld (world s') = wheld (world s)"
    by auto
qed

lemma ioctl_anycmd_locks:
  assumes "locking k held wheld" and "ioctl_anycmd k ret buf n s = Some (r, buf', s')"
  shows "held (world s') = held (world s)" and "wheld (world s') = wheld (world s)"
proof -
  have "s' = s \<or> (\<exists>cmd b ol il b'. kwifimon_wlan_anycmd k cmd b ol il s = Some (r, b', s'))"
    using assms(2)
    by (fastforce simp: ioctl_anycmd_def Option.bind_eq_Some_conv Let_def split: if_splits)
  then show "held (world s') = held (world s)" and "wheld (world s') = wheld (world s)"
    using anycmd_locks [OF assms(1)] by blast+
qed

lemma dispatch_locks:
  assumes "locking k held wheld"
    and "ioctl_dispatch k ret req buf n s = Some (r, buf', s')"
  shows "held (world s') = held (world s) \<and> wheld (world s') = wheld (world s)"
proof -
  have "s' = s \<or> ioctl_set_mac_control k ret buf n s = Some (r, buf', s') \<or>
      ioctl_anycmd k ret buf n s = Some (r, buf', s') \<or>
      ioctl_mem k ret buf n s = Some (r, buf', s')"
    using assms(2) unfolding ioctl_dispatch_def
    by (auto simp: ioctl_get_mac_control_def Option.bind_eq_Some_conv split: if_splits)
  then show ?thesis
    by (elim disjE) (auto intro: set_locks [OF assms(1)] ioctl_anycmd_locks [OF assms(1)]
        mem_locks [OF assms(1)])
qed

lemma ioctl_locks:
  assumes "locking k held wheld" and "kwifimon_ioctl k req buf n s = Some (r, buf', s')"
  shows "held (world s') = held (world s) \<and> wheld (world s') = wheld (world s)"
proof -
  note laws = locking_calls [OF assms(1)]
  obtain r1 b1 s1 where o: "sys (orig_ioctl k req buf n) s = ((r1, b1), s1)"
    by (metis prod.collapse)
  obtain l s2 where l: "sys (wlan_lock k) s1 = (l, s2)"
    by (cases "sys (wlan_lock k) s1")
  have w1: "world s1 = snd (orig_ioctl k req buf n (world s))"
    and w2: "world s2 = snd (wlan_lock k (world s1))" and l_eq: "l = fst (wlan_lock k (world s1))"
    using o l by (auto simp: sys_update)
  show ?thesis
  proof (cases "0 \<le> l")
    case True
    then obtain s3 where d: "ioctl_dispatch k r1 req b1 n s2 = Some (r, buf', s3)"
      and s': "s' = snd (sys (wlan_unlock k) s3)"
      using assms(2) by (auto simp: kwifimon_ioctl_def o l Let_def Option.bind_eq_Some_conv)
    show ?thesis
      using dispatch_locks [OF assms(1) d] True
      by (simp add: s' w1 w2 l_eq lock_calls [OF laws(3)] quiet_calls [OF laws(1)]
          quiet_calls [OF laws(2)])
  next
    case False
    then have "s' = s2"
      using assms(2) by (simp add: kwifimon_ioctl_def o l)
    with False show ?thesis
      by (simp add: w1 w2 l_eq lock_calls [OF laws(3)] quiet_calls [OF laws(1)]
          quiet_calls [OF laws(2)])
  qed
qed

section \<open>Set, then get\<close>

lemma mac_control_frame:
  assumes "kwifimon_mac_control k mode s = Some (r, s')"
  shows "current_mac_control s' = current_mac_control s"
  using assms
  by (auto simp: kwifimon_mac_control_def sys_update Let_def case_prod_beta
      Option.bind_eq_Some_conv split: option.splits if_splits)

text \<open>The hook when the lock is taken and the driver's own handler leaves the buffer alone.\<close>

lemma ioctl_locked:
  assumes "\<forall>w. 0 \<le> fst (wlan_lock k w)"
    and "\<forall>q b n w. snd (fst (orig_ioctl k q b n w)) = b"
  shows "\<exists>ret w. kwifimon_ioctl k req buf n s =
    map_option (\<lambda>(r, b, s). (r, b, snd (sys (wlan_unlock k) s)))
      (ioctl_dispatch k ret req buf n (s\<lparr>world := w\<rparr>))"
proof -
  obtain ret w1 where o: "orig_ioctl k req buf n (world s) = ((ret, buf), w1)"
    using assms(2) by (metis prod.collapse)
  have "kwifimon_ioctl k req buf n s =
    map_option (\<lambda>(r, b, s). (r, b, snd (sys (wlan_unlock k) s)))
      (ioctl_dispatch k ret req buf n (s\<lparr>world := snd (wlan_lock k w1)\<rparr>))"
    using assms(1)
    by (cases "ioctl_dispatch k ret req buf n (s\<lparr>world := snd (wlan_lock k w1)\<rparr>)")
      (auto simp: kwifimon_ioctl_def sys_update o Let_def)
  then show ?thesis by blast
qed

section \<open>Properties\<close>

text \<open>C24: the ioctl hook stays inside its buffers but for one case. When the caller passes the true
  length of its buffer and the driver allocates command buffers of the size asked for, every
  request ends, reads and writes only inside the caller's buffer and the command's, and
  leaves the caller's buffer with its length, except this one: a request for any
  command, made with the lock taken, that asks for more bytes than the response has. Then the hook
  reads behind the response, whose length it never looks at.\<close>

theorem ioctl_memory_safe:
  assumes "cmd_laws k"
    and "\<forall>n w. length (snd (fst (orig_ioctl k req buf n w))) = length buf"
  shows "let ((_, b), w1) = orig_ioctl k req buf (int (length buf)) (world s);
             (locked, w2) = wlan_lock k w1;
             result = kwifimon_ioctl k req buf (int (length buf)) s
    in if 0 \<le> locked \<and> req = WLAN_IOCTL_ANYCMD \<and> anycmd_overreads k b w2 then result = None
       else \<exists>r buf' s'. result = Some (r, buf', s') \<and> length buf' = length buf"
proof -
  obtain r b w1 where o: "orig_ioctl k req buf (int (length buf)) (world s) = ((r, b), w1)"
    by (metis prod.collapse)
  then have len: "length b = length buf"
    using assms(2) by (metis fst_conv snd_conv)
  obtain l w2 where l: "wlan_lock k w1 = (l, w2)"
    by (cases "wlan_lock k w1")
  from dispatch_in_bounds [OF assms(1), of req b "s\<lparr>world := w2\<rparr>" r] show ?thesis
    by (auto simp: kwifimon_ioctl_def sys_def o l Let_def in_bounds_def len split: if_splits)
qed

theorem ioctl_memory_safe_witness:
  "(\<exists>r buf' s'. kwifimon_ioctl demo_kernel WLAN_IOCTL_ANYCMD [0xaa, 0, 1, 0, 2, 0, 9, 9] 8
       (initial_globals demo_init) = Some (r, buf', s') \<and> length buf' = 8) \<and>
   kwifimon_ioctl demo_kernel WLAN_IOCTL_ANYCMD ([0xaa, 0, 1, 0, 17, 0] @ replicate 17 0) 23
       (initial_globals demo_init) = None"
proof
  note eval = Let_def anycmd_overreads_def response_too_short_def anycmd_response_def
  let ?req = "[0xaa, 0, 1, 0, 2, 0, 9, 9] :: byte list"
  have n: "length ?req = 8" by simp
  from ioctl_memory_safe [OF demo_cmd_laws, of WLAN_IOCTL_ANYCMD ?req "initial_globals demo_init", unfolded n]
  show "\<exists>r buf' s'. kwifimon_ioctl demo_kernel WLAN_IOCTL_ANYCMD ?req 8 (initial_globals demo_init) =
      Some (r, buf', s') \<and> length buf' = 8"
    by (simp add: eval)
  from ioctl_memory_safe [OF demo_cmd_laws, of WLAN_IOCTL_ANYCMD "[0xaa, 0, 1, 0, 17, 0] @ replicate 17 0" "initial_globals demo_init"]
  show "kwifimon_ioctl demo_kernel WLAN_IOCTL_ANYCMD ([0xaa, 0, 1, 0, 17, 0] @ replicate 17 0) 23
      (initial_globals demo_init) = None"
    by (simp add: eval)
qed

text \<open>Setting and getting the MAC control word. A set request that the firmware accepts
  records the new mode and a set request that fails leaves the recorded mode as it was; a get
  request after it answers 0 and returns the recorded mode, so after an accepted set it
  returns the two bytes that were set.\<close>

theorem mac_control_set_get:
  assumes "\<forall>w. 0 \<le> fst (wlan_lock k w)"
    and "\<forall>q b n w. snd (fst (orig_ioctl k q b n w)) = b"
    and "2 \<le> n" and "kwifimon_ioctl k WLAN_IOCTL_SET_MAC_CONTROL buf n s = Some (r, b, s1)"
    and "2 \<le> length buf2"
  shows "\<exists>s2. kwifimon_ioctl k WLAN_IOCTL_GET_MAC_CONTROL buf2 (int (length buf2)) s1 =
      Some (0, (if 0 \<le> r then take 2 buf else le16 (current_mac_control s)) @ drop 2 buf2, s2)"
proof -
  obtain ret w s1' where set: "ioctl_set_mac_control k ret buf n (s\<lparr>world := w\<rparr>) = Some (r, b, s1')"
    and s1: "s1 = snd (sys (wlan_unlock k) s1')"
    using ioctl_locked [OF assms(1,2), of WLAN_IOCTL_SET_MAC_CONTROL buf n s]
    unfolding assms(4) by (auto simp: ioctl_dispatch_def ioctl_req_defs dest!: sym [of "Some _"])
  from set obtain m where m: "load buf 0 2 = Some m" and "current_mac_control s1' =
      (if 0 \<le> r then ld16 m else current_mac_control s)"
    using assms(3) by (cases rule: set_cases) (auto dest: mac_control_frame)
  then have cur: "current_mac_control s1 = (if 0 \<le> r then ld16 m else current_mac_control s)"
    by (simp add: s1 sys_update)
  have "le16 (ld16 m) = take 2 buf"
    using m by (auto simp: load_def intro!: le16_ld16 split: if_splits)
  with cur have bytes: "le16 (current_mac_control s1) =
      (if 0 \<le> r then take 2 buf else le16 (current_mac_control s))"
    by simp
  show ?thesis
    using ioctl_locked [OF assms(1,2), of WLAN_IOCTL_GET_MAC_CONTROL buf2 "int (length buf2)" s1]
      assms(5)
    by (auto simp: ioctl_dispatch_def ioctl_req_defs ioctl_get_mac_control_def store_def
        numeral_2_eq_2 simp flip: bytes)
qed

theorem mac_control_set_get_witness:
  "\<exists>r b s1 s2. kwifimon_ioctl demo_kernel WLAN_IOCTL_SET_MAC_CONTROL [0x13, 2] 2
       (initial_globals demo_init) = Some (r, b, s1) \<and> 0 \<le> r \<and>
     kwifimon_ioctl demo_kernel WLAN_IOCTL_GET_MAC_CONTROL [0, 0, 5] 3 s1 =
       Some (0, [0x13, 2, 5], s2)"
proof -
  obtain b s1 where set: "kwifimon_ioctl demo_kernel WLAN_IOCTL_SET_MAC_CONTROL [0x13, 2] 2
      (initial_globals demo_init) = Some (0, b, s1)"
    by (simp add: kwifimon_ioctl_def ioctl_dispatch_def ioctl_req_defs ioctl_set_mac_control_def
        kwifimon_mac_control_def load_def store_def sys_def Let_def)
  have "\<forall>w. 0 \<le> fst (wlan_lock demo_kernel w)"
    and "\<forall>q b n w. snd (fst (orig_ioctl demo_kernel q b n w)) = b"
    by simp_all
  from mac_control_set_get [OF this _ set, of "[0, 0, 5]"] set show ?thesis
    by auto
qed

text \<open>The length of a command is truncated to one byte. The request carries a 16-bit length,
  checked against the buffer as such, but the routine that sends the command takes an 8-bit
  length: a request of any length does exactly what the request with the length modulo 256
  does, so the payload of a longer command never reaches the firmware.\<close>

theorem anycmd_length_truncated:
  assumes "int (max (unat out_len) (unat in_len)) + 6 \<le> n"
  shows "map_option (\<lambda>(r, b, s). (r, drop 6 b, s))
      (ioctl_anycmd k ret (le16 cmd @ le16 out_len @ le16 in_len @ payload) n s) =
    map_option (\<lambda>(r, b, s). (r, drop 6 b, s))
      (ioctl_anycmd k ret (le16 cmd @ le16 (out_len AND 0xff) @ le16 in_len @ payload) n s)"
proof -
  have trunc: "(ucast (out_len AND 0xff) :: u8) = ucast out_len"
  proof -
    have "(0xff :: u16) = mask 8"
      by (simp add: mask_eq_exp_minus_1)
    then show ?thesis
      by (simp only: flip: take_bit_eq_mask) (rule bit_word_eqI, simp add: bit_simps)
  qed
  have "unat (out_len AND 0xff) \<le> unat out_len"
    by (meson word_and_le2 word_le_nat_alt)
  then have "max (unat (out_len AND 0xff)) (unat in_len) \<le> max (unat out_len) (unat in_len)"
    by (rule max.mono) simp
  with assms have "int (max (unat (out_len AND 0xff)) (unat in_len)) + 6 \<le> n"
    by linarith
  with assms show ?thesis
    by (simp add: ioctl_anycmd_def load_def trunc option.map_comp map_conv_bind_option
        case_prod_beta comp_def)
qed

theorem anycmd_length_truncated_witness:
  "map_option (\<lambda>(r, b, s). (r, drop 6 b, s)) (ioctl_anycmd demo_kernel (-1)
      (le16 0xaa @ le16 256 @ le16 0 @ replicate 256 1) 262 (initial_globals demo_init)) =
   map_option (\<lambda>(r, b, s). (r, drop 6 b, s)) (ioctl_anycmd demo_kernel (-1)
      (le16 0xaa @ le16 0 @ le16 0 @ replicate 256 1) 262 (initial_globals demo_init))"
  using anycmd_length_truncated [where out_len = 256 and in_len = 0 and n = 262
      and k = demo_kernel and ret = "-1" and cmd = "0xaa" and payload = "replicate 256 1"
      and s = "initial_globals demo_init"]
  by simp

end
