(* ===== verification/Uwifimon.thy ===== *)
theory Uwifimon
  imports Kwifimon_Ioctl
begin

text \<open>
  The user-space side's foundations: the user plugin \<open>src/uplugin/uwifimon.c\<close>, whose calls
  enter the kernel plugin, the state of the application (\<open>src/app\<close>) on top of the kernel
  plugin's, and the services of the system the application calls.
\<close>

section \<open>The user plugin\<close>

text \<open>The file name argument is dropped: the kernel plugin does not read it.\<close>

definition uwifimon_cap_start ::
  "'w kernel \<Rightarrow> ('w, 'm) kwifimon_globals_scheme \<Rightarrow> int \<times> ('w, 'm) kwifimon_globals_scheme" where
  "uwifimon_cap_start k s = kwifimon_cap_start k s"

definition uwifimon_cap_stop ::
  "'w kernel \<Rightarrow> ('w, 'm) kwifimon_globals_scheme \<Rightarrow> int \<times> ('w, 'm) kwifimon_globals_scheme" where
  "uwifimon_cap_stop k s = kwifimon_cap_stop k s"

definition uwifimon_net_start ::
  "'w kernel \<Rightarrow> ('w, 'm) kwifimon_globals_scheme \<Rightarrow> int \<times> ('w, 'm) kwifimon_globals_scheme" where
  "uwifimon_net_start k s = kwifimon_net_start k s"

definition uwifimon_net_stop ::
  "'w kernel \<Rightarrow> ('w, 'm) kwifimon_globals_scheme \<Rightarrow> int \<times> ('w, 'm) kwifimon_globals_scheme" where
  "uwifimon_net_stop k s = kwifimon_net_stop k s"

definition uwifimon_mod_state ::
  "'w kernel \<Rightarrow> ('w, 'm) kwifimon_globals_scheme \<Rightarrow> u32 \<times> ('w, 'm) kwifimon_globals_scheme" where
  "uwifimon_mod_state k s = kwifimon_mod_state k s"

definition uwifimon_mod_stats ::
  "'w kernel \<Rightarrow> u32 \<Rightarrow> int \<Rightarrow> ('w, 'm) kwifimon_globals_scheme \<Rightarrow>
     int \<times> ('w, 'm) kwifimon_globals_scheme" where
  "uwifimon_mod_stats k p reset s = kwifimon_mod_stats k p reset s"

section \<open>The application's state and services\<close>

record 'w app_globals = "'w kwifimon_globals" +
  wlan_idx :: int
  ui_pad_last :: u32

text \<open>The fields of an interface entry the application reads.\<close>

record iface_t =
  name :: string
  dev_idx :: int

text \<open>
  The services of user space over the whole state \<open>'s\<close>. The control call reaches the kernel,
  so it may run the plugin's hook; it answers a code and the buffer afterwards. \<open>stack_bytes\<close>
  is what a local array contains before it is written.
\<close>

record 's user =
  sceNetSyscallControl :: "int \<Rightarrow> u32 \<Rightarrow> byte list \<Rightarrow> int \<Rightarrow> 's \<Rightarrow> (int \<times> byte list) \<times> 's"
  sceNetSyscallGetIfCount :: "'s \<Rightarrow> int \<times> 's"
  sceNetSyscallGetIfList :: "int \<Rightarrow> 's \<Rightarrow> iface_t list \<times> 's"
  malloc :: "nat \<Rightarrow> 's \<Rightarrow> bool \<times> 's"
  sceIoOpen :: "string \<Rightarrow> 's \<Rightarrow> int \<times> 's"
  sceIoWrite :: "int \<Rightarrow> byte list \<Rightarrow> 's \<Rightarrow> int \<times> 's"
  sceIoClose :: "int \<Rightarrow> 's \<Rightarrow> int \<times> 's"
  sceCtrlPeekBufferPositive :: "'s \<Rightarrow> u32 \<times> 's"
  vshKernelSearchModuleByName :: "string \<Rightarrow> 's \<Rightarrow> int \<times> 's"
  taiLoadStartKernelModule :: "string \<Rightarrow> 's \<Rightarrow> int \<times> 's"
  sceKernelLoadStartModule :: "string \<Rightarrow> 's \<Rightarrow> int \<times> 's"
  sceKernelStopUnloadModule :: "int \<Rightarrow> 's \<Rightarrow> int \<times> 's"
  taiStopUnloadKernelModule :: "int \<Rightarrow> 's \<Rightarrow> int \<times> 's"
  stack_bytes :: "'s \<Rightarrow> byte list"

text \<open>
  The control call when the driver's ioctl function is hooked by the plugin and the device is
  the WLAN interface. An out-of-bounds access of the hook has no defined outcome; the answer
  below then is the unchanged buffer.
\<close>

definition hooked_control ::
  "'w kernel \<Rightarrow> int \<Rightarrow> u32 \<Rightarrow> byte list \<Rightarrow> int \<Rightarrow> ('w, 'm) app_globals_scheme \<Rightarrow>
     (int \<times> byte list) \<times> ('w, 'm) app_globals_scheme" where
  "hooked_control k dev req buf n s =
     (case kwifimon_ioctl k req buf n s of
        Some (r, buf', s') \<Rightarrow> ((r, buf'), s')
      | None \<Rightarrow> ((-1, buf), s))"

text \<open>A concrete user space over the concrete kernel, for the witnesses.\<close>

definition demo_app :: "demo_world app_globals" where
  "demo_app = kwifimon_globals.extend (initial_globals demo_init) (app_globals.fields 1 0)"

definition demo_user :: "demo_world app_globals user" where
  "demo_user = \<lparr>
     sceNetSyscallControl = hooked_control demo_kernel,
     sceNetSyscallGetIfCount = (\<lambda>s. (2, s)),
     sceNetSyscallGetIfList = (\<lambda>_ s.
       ([\<lparr>name = ''lo'', dev_idx = 0\<rparr>, \<lparr>name = ''wlan0'', dev_idx = 1\<rparr>], s)),
     malloc = (\<lambda>_ s. (True, s)),
     sceIoOpen = (\<lambda>_. sys demo_open),
     sceIoWrite = (\<lambda>fd bs. sys (demo_write fd bs)),
     sceIoClose = (\<lambda>_ s. (0, s)),
     sceCtrlPeekBufferPositive = (\<lambda>s. (0, s)),
     vshKernelSearchModuleByName = (\<lambda>_ s. (-1, s)),
     taiLoadStartKernelModule = (\<lambda>_ s. (5, s)),
     sceKernelLoadStartModule = (\<lambda>_ s. (6, s)),
     sceKernelStopUnloadModule = (\<lambda>_ s. (0, s)),
     taiStopUnloadKernelModule = (\<lambda>_ s. (0, s)),
     stack_bytes = (\<lambda>_. [1, 2, 3, 4])\<rparr>"

end
