(* ===== verification/Util.thy ===== *)
theory Util
  imports Uwifimon
begin

text \<open>
  The request helpers of the application, \<open>src/app/util.c\<close>: each packs a request, issues the
  control call for the WLAN interface and unpacks the answer.
\<close>

section \<open>Operations\<close>

definition WLAN_IOCTL_DISCONNECT :: u32 where "WLAN_IOCTL_DISCONNECT = 0x50110002"

definition mem_read ::
  "('w, 'm) app_globals_scheme user \<Rightarrow> u32 \<Rightarrow> ('w, 'm) app_globals_scheme \<Rightarrow>
     (int \<times> u32) \<times> ('w, 'm) app_globals_scheme" where
  "mem_read u addr s =
     (let request = [0] @ le32 addr @ stack_bytes u s;
          ((ret, request), s) = sceNetSyscallControl u (wlan_idx s) WLAN_IOCTL_MEM request 9 s
      in ((ret, ld32 (drop 5 request)), s))"

definition mem_write ::
  "('w, 'm) app_globals_scheme user \<Rightarrow> u32 \<Rightarrow> u32 \<Rightarrow> ('w, 'm) app_globals_scheme \<Rightarrow>
     int \<times> ('w, 'm) app_globals_scheme" where
  "mem_write u addr data s =
     (let request = [1] @ le32 addr @ le32 data;
          ((ret, request), s) = sceNetSyscallControl u (wlan_idx s) WLAN_IOCTL_MEM request 9 s
      in (ret, s))"

definition wlan_disconnect ::
  "('w, 'm) app_globals_scheme user \<Rightarrow> ('w, 'm) app_globals_scheme \<Rightarrow>
     int \<times> ('w, 'm) app_globals_scheme" where
  "wlan_disconnect u s =
     (if wlan_idx s > 0 then
        (let ((ret, _), s) =
           sceNetSyscallControl u (wlan_idx s) WLAN_IOCTL_DISCONNECT (le32 0) 4 s in (ret, s))
      else (-1, s))"

definition wlan_set_maccontrol ::
  "('w, 'm) app_globals_scheme user \<Rightarrow> u16 \<Rightarrow> ('w, 'm) app_globals_scheme \<Rightarrow>
     int \<times> ('w, 'm) app_globals_scheme" where
  "wlan_set_maccontrol u mac s =
     (if wlan_idx s > 0 then
        (let ((ret, _), s) =
           sceNetSyscallControl u (wlan_idx s) WLAN_IOCTL_SET_MAC_CONTROL (le16 mac) 2 s in (ret, s))
      else (-1, s))"

text \<open>\<open>mac\<close> is what the caller's variable holds before the call; the answer what it holds after.\<close>

definition wlan_get_maccontrol ::
  "('w, 'm) app_globals_scheme user \<Rightarrow> u16 \<Rightarrow> ('w, 'm) app_globals_scheme \<Rightarrow>
     (int \<times> u16) \<times> ('w, 'm) app_globals_scheme" where
  "wlan_get_maccontrol u mac s =
     (if wlan_idx s > 0 then
        (let ((ret, buf), s) =
           sceNetSyscallControl u (wlan_idx s) WLAN_IOCTL_GET_MAC_CONTROL (le16 mac) 2 s
         in ((ret, ld16 buf), s))
      else ((-1, mac), s))"

definition wlan_cmd_func_shutdown ::
  "('w, 'm) app_globals_scheme user \<Rightarrow> ('w, 'm) app_globals_scheme \<Rightarrow>
     int \<times> ('w, 'm) app_globals_scheme" where
  "wlan_cmd_func_shutdown u s =
     (let request = le16 0xaa @ le16 0 @ le16 0
      in if wlan_idx s > 0 then
           (let ((ret, _), s) =
              sceNetSyscallControl u (wlan_idx s) WLAN_IOCTL_ANYCMD request 6 s in (ret, s))
         else (-1, s))"

definition wlan_cmd_init ::
  "('w, 'm) app_globals_scheme user \<Rightarrow> ('w, 'm) app_globals_scheme \<Rightarrow>
     int \<times> ('w, 'm) app_globals_scheme" where
  "wlan_cmd_init u s =
     (if wlan_idx s > 0 then
        (let ((ret, _), s) = sceNetSyscallControl u (wlan_idx s) WLAN_IOCTL_INIT [] 0 s in (ret, s))
      else (-1, s))"

definition get_random ::
  "('w, 'm) app_globals_scheme user \<Rightarrow> ('w, 'm) app_globals_scheme \<Rightarrow>
     u32 \<times> ('w, 'm) app_globals_scheme" where
  "get_random u s =
     (if wlan_idx s > 0 then
        (let ((_, buf), s) = sceNetSyscallControl u (wlan_idx s) 0x14 (le32 4) 4 s
         in (ld32 buf, s))
      else (4, s))"

section \<open>Memory access through the hook\<close>

text \<open>
  What the memory requests promise: a read or write that does not fail has the obvious effect
  on the chip's memory, seen word by word through \<open>cell\<close>.
\<close>

definition chip_access ::
  "('w, 'm) app_globals_scheme user \<Rightarrow> (('w, 'm) app_globals_scheme \<Rightarrow> u32 \<Rightarrow> u32) \<Rightarrow> bool" where
  "chip_access u cell \<longleftrightarrow>
     (\<forall>a s r v s'. mem_read u a s = ((r, v), s') \<longrightarrow> 0 \<le> r \<longrightarrow> v = cell s a \<and> cell s' = cell s) \<and>
     (\<forall>a v s r s'. mem_write u a v s = (r, s') \<longrightarrow> 0 \<le> r \<longrightarrow> cell s' = (cell s)(a := v))"

lemma chip_access_read:
  "chip_access u cell \<Longrightarrow> mem_read u a s = ((r, v), s') \<Longrightarrow> 0 \<le> r \<Longrightarrow>
     v = cell s a \<and> cell s' = cell s"
  unfolding chip_access_def by blast

lemma chip_access_write:
  "chip_access u cell \<Longrightarrow> mem_write u a v s = (r, s') \<Longrightarrow> 0 \<le> r \<Longrightarrow> cell s' = (cell s)(a := v)"
  unfolding chip_access_def by blast

text \<open>
  The hypotheses of the hook: the driver's own handler leaves memory requests alone, and its
  lock can be taken.
\<close>

definition hook_laws :: "'w kernel \<Rightarrow> bool" where
  "hook_laws k \<longleftrightarrow> (\<forall>b n w. snd (fst (orig_ioctl k WLAN_IOCTL_MEM b n w)) = b) \<and>
     (\<forall>w. 0 \<le> fst (wlan_lock k w))"

lemma chip_laws_cells:
  assumes "chip_laws k cell"
  shows "cell (snd (wlan_lock k w)) = cell w" "cell (snd (wlan_unlock k w)) = cell w"
    "cell (snd (orig_ioctl k req b n w)) = cell w"
    "0 \<le> fst (fst (wlan_mem_read k a v w)) \<Longrightarrow> snd (fst (wlan_mem_read k a v w)) = cell w a"
    "0 \<le> fst (fst (wlan_mem_read k a v w)) \<Longrightarrow> cell (snd (wlan_mem_read k a v w)) = cell w"
    "0 \<le> fst (wlan_mem_write k a v w) \<Longrightarrow> cell (snd (wlan_mem_write k a v w)) = (cell w)(a := v)"
  using assms unfolding chip_laws_def by (metis prod.collapse)+

lemma chip_laws_value:
  assumes "chip_laws k cell" and "fst (wlan_mem_read k a v w) = (r, v')" and "0 \<le> r"
  shows "v' = cell w a"
  using chip_laws_cells(4) [OF assms(1), of a v w] assms(2,3) by simp

lemma hooked_mem_read:
  assumes "sceNetSyscallControl u = hooked_control k" and "\<And>s. length (stack_bytes u s) = 4"
    and "hook_laws k"
  shows "mem_read u a s =
    (let w = snd (wlan_lock k (snd (orig_ioctl k WLAN_IOCTL_MEM ([0] @ le32 a @ stack_bytes u s) 9 (world s))));
         ((r, v), w) = wlan_mem_read k a (ld32 (stack_bytes u s)) w
     in ((r, v), s\<lparr>world := snd (wlan_unlock k w)\<rparr>))"
  using assms(2) [of s] assms(3)
  by (simp add: mem_read_def assms(1) hooked_control_def kwifimon_ioctl_def hook_laws_def
      ioctl_dispatch_def ioctl_req_defs ioctl_mem_def sys_update load_def store_def idx_def
      Let_def case_prod_beta)

lemma hooked_mem_write:
  assumes "sceNetSyscallControl u = hooked_control k" and "hook_laws k"
  shows "mem_write u a v s =
    (let w = snd (wlan_lock k (snd (orig_ioctl k WLAN_IOCTL_MEM ([1] @ le32 a @ le32 v) 9 (world s))));
         (r, w) = wlan_mem_write k a v w
     in (r, s\<lparr>world := snd (wlan_unlock k w)\<rparr>))"
  using assms(2)
  by (simp add: mem_write_def assms(1) hooked_control_def kwifimon_ioctl_def hook_laws_def
      ioctl_dispatch_def ioctl_req_defs ioctl_mem_def sys_update load_def store_def idx_def
      Let_def case_prod_beta)

lemma hooked_chip_access:
  assumes "sceNetSyscallControl u = hooked_control k" and "\<And>s. length (stack_bytes u s) = 4"
    and "hook_laws k" and "chip_laws k cell"
  shows "chip_access u (\<lambda>s. cell (world s))"
  unfolding chip_access_def
  by (auto simp: hooked_mem_read [OF assms(1-3)] hooked_mem_write [OF assms(1,3)] Let_def
      case_prod_beta chip_laws_cells [OF assms(4)] dest!: chip_laws_value [OF assms(4)])

lemma demo_user_calls [simp]:
  "sceNetSyscallControl demo_user = hooked_control demo_kernel"
  "sceNetSyscallGetIfCount demo_user = (\<lambda>s. (2, s))"
  "sceNetSyscallGetIfList demo_user = (\<lambda>_ s.
     ([\<lparr>name = ''lo'', dev_idx = 0\<rparr>, \<lparr>name = ''wlan0'', dev_idx = 1\<rparr>], s))"
  "malloc demo_user = (\<lambda>_ s. (True, s))"
  "sceIoOpen demo_user = (\<lambda>_. sys demo_open)"
  "sceIoWrite demo_user = (\<lambda>fd bs. sys (demo_write fd bs))"
  "sceIoClose demo_user = (\<lambda>_ s. (0, s))"
  "sceCtrlPeekBufferPositive demo_user = (\<lambda>s. (0, s))"
  "vshKernelSearchModuleByName demo_user = (\<lambda>_ s. (-1, s))"
  "taiLoadStartKernelModule demo_user = (\<lambda>_ s. (5, s))"
  "sceKernelLoadStartModule demo_user = (\<lambda>_ s. (6, s))"
  "sceKernelStopUnloadModule demo_user = (\<lambda>_ s. (0, s))"
  "taiStopUnloadKernelModule demo_user = (\<lambda>_ s. (0, s))"
  "stack_bytes demo_user = (\<lambda>_. [1, 2, 3, 4])"
  by (simp_all add: demo_user_def)

lemma demo_hook_laws: "hook_laws demo_kernel"
  by (simp add: hook_laws_def)

lemma demo_chip_access: "chip_access demo_user (\<lambda>s. d_chip (world s))"
  by (rule hooked_chip_access [OF _ _ demo_hook_laws demo_chip_laws]) simp_all

section \<open>Properties\<close>

text \<open>C26: memory access end to end. When the control call reaches the plugin's hook, the request
  that \<open>mem_write\<close> packs makes the hook write the value to the chip at that address and
  nothing else, and the request that \<open>mem_read\<close> packs, with arbitrary garbage in the bytes it
  leaves uninitialised, returns the value of the chip at that address and changes nothing; a
  failure of the driver is passed on.\<close>

theorem mem_access_through_hook:
  assumes "sceNetSyscallControl u = hooked_control k" and "\<forall>s. length (stack_bytes u s) = 4"
    and "hook_laws k" and "chip_laws k cell"
  shows "chip_access u (\<lambda>s. cell (world s))"
  using assms by (intro hooked_chip_access) auto

theorem mem_access_through_hook_witness:
  "\<exists>s1 s2. mem_write demo_user 0x1234 77 demo_app = (0, s1) \<and>
     mem_read demo_user 0x1234 s1 = ((0, 77), s2)"
proof -
  have access: "chip_access demo_user (\<lambda>s. d_chip (world s))"
    by (rule mem_access_through_hook [OF _ _ demo_hook_laws demo_chip_laws]) simp_all
  obtain s1 where w: "mem_write demo_user 0x1234 77 demo_app = (0, s1)"
    by (simp add: hooked_mem_write [OF _ demo_hook_laws] Let_def)
  obtain v s2 where r: "mem_read demo_user 0x1234 s1 = ((0, v), s2)"
    by (simp add: hooked_mem_read [OF _ _ demo_hook_laws] Let_def)
  show ?thesis
    using chip_access_write [OF access w] chip_access_read [OF access r] w r by auto
qed

end
