(* ===== verification/Patch.thy ===== *)
theory Patch
  imports Util
begin

text \<open>
  The firmware patcher, \<open>src/app/patch.c\<close>: two byte patches for the WLAN chip's code memory,
  the routine that writes them word by word and reads every word back, and the one that
  restores the patched instruction.
\<close>

section \<open>The patches\<close>

record patch_t =
  paddr :: u32
  psize :: u32
  porig :: "byte list option"
  ppatch :: "byte list"

definition p1_patch :: "byte list" where
  "p1_patch = [
     0xb1, 0x68, 0x31, 0x44, 0x70, 0x69, 0x00, 0x28, 0x00, 0xD1, 0x05, 0x48, 0xA0, 0xF7, 0x75, 0xFD, 0x00, 0x25, 0x02, 0xAA,
     0x03, 0xA9, 0x04, 0xA8, 0xAB, 0xF7, 0xB6, 0xFD, 0xAB, 0xF7, 0xDA, 0xFD, 0x00, 0xFF, 0x05, 0x00,
     0x00, 0x00, 0x00, 0x00, 0x00, 0x00, 0x00, 0x00, 0x00, 0x00, 0x00, 0x00, 0x00, 0x00, 0x00, 0x00]"

definition p2_orig :: "byte list" where
  "p2_orig = [0x00, 0x25, 0x02, 0xaa]"

definition p2_patch :: "byte list" where
  "p2_patch = [0x54, 0xf0, 0x1a, 0xfa]"

definition patches :: "patch_t list" where
  "patches = [
     \<lparr>paddr = 0x0005fedc, psize = of_nat (length p1_patch), porig = None, ppatch = p1_patch\<rparr>,
     \<lparr>paddr = 0x0000baa4, psize = of_nat (length p2_orig), porig = Some p2_orig, ppatch = p2_patch\<rparr>]"

section \<open>Writing and checking\<close>

text \<open>
  The inner loop of both routines, for the words \<open>j\<close>, \<open>j + 1\<close>, \<dots> (\<open>n\<close> of them): write a word,
  read it back and compare. The answer is an error code (\<open>Inl\<close>) or the count of words so far.
\<close>

fun write_words ::
  "('w, 'm) app_globals_scheme user \<Rightarrow> byte list \<Rightarrow> u32 \<Rightarrow> nat \<Rightarrow> nat \<Rightarrow> int \<Rightarrow>
     ('w, 'm) app_globals_scheme \<Rightarrow> ((int + int) \<times> ('w, 'm) app_globals_scheme) option" where
  "write_words u bytes addr j 0 cnt s = Some (Inr cnt, s)"
| "write_words u bytes addr j (Suc n) cnt s = do {
     t \<leftarrow> load bytes (4 * j) 4;
     let tmp = ld32 t;
     let (ret, s) = mem_write u (addr + 4 * of_nat j) tmp s;
     if ret < 0 then Some (Inl (-1), s)
     else
       (let ((ret, inw), s) = mem_read u (addr + 4 * of_nat j) s
        in if ret < 0 then Some (Inl (-2), s)
           else if tmp \<noteq> inw then Some (Inl (-3), s)
           else write_words u bytes addr (Suc j) n (cnt + 1) s)
   }"

fun do_patches ::
  "('w, 'm) app_globals_scheme user \<Rightarrow> patch_t list \<Rightarrow> int \<Rightarrow> ('w, 'm) app_globals_scheme \<Rightarrow>
     (int \<times> ('w, 'm) app_globals_scheme) option" where
  "do_patches u [] cnt s = Some (cnt, s)"
| "do_patches u (p # ps) cnt s = do {
     (r, s) \<leftarrow> write_words u (ppatch p) (paddr p) 0 (unat ((psize p + 3) div 4)) cnt s;
     case r of Inl e \<Rightarrow> Some (e, s) | Inr cnt \<Rightarrow> do_patches u ps cnt s
   }"

definition patch_do ::
  "('w, 'm) app_globals_scheme user \<Rightarrow> ('w, 'm) app_globals_scheme \<Rightarrow>
     (int \<times> ('w, 'm) app_globals_scheme) option" where
  "patch_do u s = do_patches u patches 0 s"

fun undo_patches ::
  "('w, 'm) app_globals_scheme user \<Rightarrow> patch_t list \<Rightarrow> ('w, 'm) app_globals_scheme \<Rightarrow>
     (int \<times> ('w, 'm) app_globals_scheme) option" where
  "undo_patches u [] s = Some (0, s)"
| "undo_patches u (p # ps) s =
     (case porig p of
        None \<Rightarrow> undo_patches u ps s
      | Some orig \<Rightarrow> do {
          (r, s) \<leftarrow> write_words u orig (paddr p) 0 (unat (psize p div 4)) 0 s;
          case r of Inl e \<Rightarrow> Some (e, s) | Inr _ \<Rightarrow> undo_patches u ps s
        })"

text \<open>The loop counts down from the last patch and stops before index 0.\<close>

definition patch_undo ::
  "('w, 'm) app_globals_scheme user \<Rightarrow> ('w, 'm) app_globals_scheme \<Rightarrow>
     (int \<times> ('w, 'm) app_globals_scheme) option" where
  "patch_undo u s = undo_patches u (rev (tl patches)) s"

section \<open>What the loop writes\<close>

text \<open>The words of a byte sequence, and a memory with words written from an address on.\<close>

definition words_of :: "byte list \<Rightarrow> u32 list" where
  "words_of bs = map (\<lambda>j. ld32 (drop (4 * j) bs)) [0..<length bs div 4]"

fun poke :: "(u32 \<Rightarrow> u32) \<Rightarrow> u32 \<Rightarrow> u32 list \<Rightarrow> u32 \<Rightarrow> u32" where
  "poke m a [] = m"
| "poke m a (w # ws) = poke (m(a := w)) (a + 4) ws"

lemma ld32_take4 [simp]: "ld32 (take 4 bs) = ld32 bs"
  by (cases bs rule: ld32.cases) (simp_all add: eval_nat_numeral)

text \<open>
  What became of a list of addresses and words: all are written and read back and the answer is \<open>Inr\<close> of the count, or the
  first \<open>k\<close> are and the access for the next one fails. \<open>t\<close> is the state in which the failing write, or the write before the
  failing read, is made.
\<close>

definition writes :: "(u32 \<times> u32) list \<Rightarrow> (u32 \<Rightarrow> u32) \<Rightarrow> u32 \<Rightarrow> u32" where
  "writes ws m = fold (\<lambda>(a, w) m. m(a := w)) ws m"

definition failing_access ::
  "('w, 'm) app_globals_scheme user \<Rightarrow> (('w, 'm) app_globals_scheme \<Rightarrow> u32 \<Rightarrow> u32) \<Rightarrow> (u32 \<times> u32) list \<Rightarrow>
     (u32 \<Rightarrow> u32) \<Rightarrow> int \<Rightarrow> ('w, 'm) app_globals_scheme \<Rightarrow> bool" where
  "failing_access u cell ws m e s' \<longleftrightarrow>
     (\<exists>k t r t'. k < length ws \<and> cell t = writes (take k ws) m \<and> mem_write u (fst (ws ! k)) (snd (ws ! k)) t = (r, t') \<and>
        (r < 0 \<and> e = -1 \<and> s' = t' \<or>
         0 \<le> r \<and> e = -2 \<and> (\<exists>r' v. mem_read u (fst (ws ! k)) t' = ((r', v), s') \<and> r' < 0)))"

fun loop_outcome ::
  "('w, 'm) app_globals_scheme user \<Rightarrow> (('w, 'm) app_globals_scheme \<Rightarrow> u32 \<Rightarrow> u32) \<Rightarrow> (u32 \<times> u32) list \<Rightarrow>
     (u32 \<Rightarrow> u32) \<Rightarrow> int \<Rightarrow> int + int \<Rightarrow> ('w, 'm) app_globals_scheme \<Rightarrow> bool" where
  "loop_outcome u cell ws m cnt (Inr c) s' \<longleftrightarrow> c = cnt + int (length ws) \<and> cell s' = writes ws m"
| "loop_outcome u cell ws m cnt (Inl e) s' \<longleftrightarrow> failing_access u cell ws m e s'"

lemma writes_simps [simp]:
  "writes [] m = m" "writes ((a, w) # ws) m = writes ws (m(a := w))" "writes (ws @ vs) m = writes vs (writes ws m)"
  by (simp_all add: writes_def)

lemma failing_access_Cons:
  assumes "failing_access u cell ws (m(a := w)) e s'"
  shows "failing_access u cell ((a, w) # ws) m e s'"
proof -
  obtain k t r t' where "k < length ws" "cell t = writes (take k ws) (m(a := w))"
    "mem_write u (fst (ws ! k)) (snd (ws ! k)) t = (r, t')"
    "r < 0 \<and> e = -1 \<and> s' = t' \<or> 0 \<le> r \<and> e = -2 \<and> (\<exists>r' v. mem_read u (fst (ws ! k)) t' = ((r', v), s') \<and> r' < 0)"
    using assms unfolding failing_access_def by blast
  then show ?thesis
    unfolding failing_access_def by (intro exI [of _ "Suc k"] exI [of _ t] exI [of _ r] exI [of _ t']) simp
qed

lemma failing_access_append:
  "failing_access u cell ws m e s' \<Longrightarrow> failing_access u cell (ws @ vs) m e s'"
  "failing_access u cell vs (writes ws m) e s' \<Longrightarrow> failing_access u cell (ws @ vs) m e s'"
proof -
  assume "failing_access u cell ws m e s'"
  then obtain k t r t' where "k < length ws" "cell t = writes (take k ws) m"
    "mem_write u (fst (ws ! k)) (snd (ws ! k)) t = (r, t')"
    "r < 0 \<and> e = -1 \<and> s' = t' \<or> 0 \<le> r \<and> e = -2 \<and> (\<exists>r' v. mem_read u (fst (ws ! k)) t' = ((r', v), s') \<and> r' < 0)"
    unfolding failing_access_def by blast
  then show "failing_access u cell (ws @ vs) m e s'"
    unfolding failing_access_def
    by (intro exI [of _ k] exI [of _ t] exI [of _ r] exI [of _ t']) (simp add: nth_append)
next
  show "failing_access u cell vs (writes ws m) e s' \<Longrightarrow> failing_access u cell (ws @ vs) m e s'"
    by (induction ws arbitrary: m) (auto intro: failing_access_Cons)
qed

text \<open>The addresses and words of \<open>n\<close> words of a byte sequence, from word \<open>j\<close> on.\<close>

definition words_at :: "u32 \<Rightarrow> byte list \<Rightarrow> nat \<Rightarrow> nat \<Rightarrow> (u32 \<times> u32) list" where
  "words_at addr bytes j n = map (\<lambda>i. (addr + 4 * of_nat i, ld32 (drop (4 * i) bytes))) [j..<j + n]"

lemma words_at_Suc:
  "words_at addr bytes j (Suc n) = (addr + 4 * of_nat j, ld32 (drop (4 * j) bytes)) # words_at addr bytes (Suc j) n"
  unfolding words_at_def by (subst upt_conv_Cons) simp_all

lemma write_words_outcome:
  assumes "chip_access u cell" and "4 * (j + n) \<le> length bytes"
  shows "\<exists>r s'. write_words u bytes addr j n cnt s = Some (r, s') \<and>
    loop_outcome u cell (words_at addr bytes j n) (cell s) cnt r s'"
  using assms(2)
proof (induction n arbitrary: j cnt s)
  case 0
  then show ?case by (simp add: words_at_def)
next
  case (Suc n)
  define a tmp where "a = addr + 4 * of_nat j" and "tmp = ld32 (drop (4 * j) bytes)"
  note ws = words_at_Suc [of addr bytes j n, folded a_def tmp_def]
  have load: "load bytes (4 * j) 4 = Some (take 4 (drop (4 * j) bytes))"
    using Suc.prems by (simp add: load_def)
  obtain r1 s1 where w: "mem_write u a tmp s = (r1, s1)"
    by (cases "mem_write u a tmp s")
  obtain r2 v s2 where r: "mem_read u a s1 = ((r2, v), s2)"
    by (metis prod.collapse)
  consider "r1 < 0" | "0 \<le> r1" "r2 < 0" | "0 \<le> r1" "0 \<le> r2"
    by linarith
  then show ?case
  proof cases
    case 1
    then have "failing_access u cell (words_at addr bytes j (Suc n)) (cell s) (-1) s1"
      using w unfolding ws failing_access_def
      by (intro exI [of _ "0 :: nat"] exI [of _ s] exI [of _ r1] exI [of _ s1]) simp
    then show ?thesis
      using 1 by (intro exI [of _ "Inl (-1)"] exI [of _ s1]) (simp add: load w flip: a_def tmp_def)
  next
    case 2
    then have "failing_access u cell (words_at addr bytes j (Suc n)) (cell s) (-2) s2"
      using w r unfolding ws failing_access_def
      by (intro exI [of _ "0 :: nat"] exI [of _ s] exI [of _ r1] exI [of _ s1]) simp
    then show ?thesis
      using 2 by (intro exI [of _ "Inl (-2)"] exI [of _ s2]) (simp add: load w r flip: a_def tmp_def)
  next
    case 3
    then have cell1: "cell s1 = (cell s)(a := tmp)"
      using chip_access_write [OF assms(1) w] by simp
    with 3 have v: "v = tmp" and cell2: "cell s2 = (cell s)(a := tmp)"
      using chip_access_read [OF assms(1) r] by simp_all
    obtain r s' where rest: "write_words u bytes addr (Suc j) n (cnt + 1) s2 = Some (r, s')"
      and out: "loop_outcome u cell (words_at addr bytes (Suc j) n) (cell s2) (cnt + 1) r s'"
      using Suc.IH [of "Suc j" "cnt + 1" s2] Suc.prems by auto
    have "write_words u bytes addr j (Suc n) cnt s = Some (r, s')"
      using 3 by (simp add: load w \<open>mem_read u a s1 = ((r2, v), s2)\<close> v rest flip: a_def tmp_def)
    moreover have "loop_outcome u cell (words_at addr bytes j (Suc n)) (cell s) cnt r s'"
      using out unfolding ws cell2 by (cases r) (auto intro: failing_access_Cons)
    ultimately show ?thesis
      by blast
  qed
qed

text \<open>The words a patch writes.\<close>

definition patch_words :: "patch_t list \<Rightarrow> (u32 \<times> u32) list" where
  "patch_words ps = concat (map (\<lambda>p. words_at (paddr p) (ppatch p) 0 (unat ((psize p + 3) div 4))) ps)"

lemma do_patches_outcome:
  assumes "chip_access u cell" and "\<forall>p \<in> set ps. 4 * unat ((psize p + 3) div 4) \<le> length (ppatch p)"
  shows "\<exists>r s'. do_patches u ps cnt s = Some (r, s') \<and>
    (if r = cnt + int (length (patch_words ps)) then cell s' = writes (patch_words ps) (cell s) \<or>
        failing_access u cell (patch_words ps) (cell s) r s'
     else failing_access u cell (patch_words ps) (cell s) r s')"
  using assms(2)
proof (induction ps arbitrary: cnt s)
  case Nil
  then show ?case by (simp add: patch_words_def)
next
  case (Cons p ps)
  let ?ws = "words_at (paddr p) (ppatch p) 0 (unat ((psize p + 3) div 4))"
  have ws: "patch_words (p # ps) = ?ws @ patch_words ps"
    by (simp add: patch_words_def)
  obtain r1 s1 where w: "write_words u (ppatch p) (paddr p) 0 (unat ((psize p + 3) div 4)) cnt s = Some (r1, s1)"
    and out: "loop_outcome u cell ?ws (cell s) cnt r1 s1"
    using write_words_outcome [OF assms(1), of 0 _ "ppatch p" "paddr p" cnt s] Cons.prems by fastforce
  show ?case
  proof (cases r1)
    case (Inl e)
    then have "failing_access u cell (patch_words (p # ps)) (cell s) e s1"
      using out unfolding ws by (auto intro: failing_access_append)
    then show ?thesis
      using w Inl by auto
  next
    case (Inr c)
    then have c: "c = cnt + int (length ?ws)" and cell: "cell s1 = writes ?ws (cell s)"
      using out by simp_all
    obtain r s' where rest: "do_patches u ps c s1 = Some (r, s')"
      "if r = c + int (length (patch_words ps)) then cell s' = writes (patch_words ps) (cell s1) \<or>
          failing_access u cell (patch_words ps) (cell s1) r s'
       else failing_access u cell (patch_words ps) (cell s1) r s'"
      using Cons.IH [of c s1] Cons.prems by auto
    then show ?thesis
      using w Inr c unfolding ws cell by (auto intro: failing_access_append simp: add.assoc split: if_splits)
  qed
qed

lemma patches_shape:
  "patches = [\<lparr>paddr = 0x0005fedc, psize = 52, porig = None, ppatch = p1_patch\<rparr>,
     \<lparr>paddr = 0x0000baa4, psize = 4, porig = Some p2_orig, ppatch = p2_patch\<rparr>]"
  by (simp add: patches_def p1_patch_def p2_orig_def)

lemma patch_lengths [simp]:
  "length p1_patch = 52" "length p2_patch = 4" "length p2_orig = 4"
  by (simp_all add: p1_patch_def p2_patch_def p2_orig_def)

lemma writes_poke: "writes (words_at addr bytes 0 (length bytes div 4)) m = poke m addr (words_of bytes)"
proof -
  have "writes (words_at addr bytes j n) m =
      poke m (addr + 4 * of_nat j) (map (\<lambda>i. ld32 (drop (4 * i) bytes)) [j..<j + n])" for j n
  proof (induction n arbitrary: j m)
    case (Suc n)
    have "[j..<j + Suc n] = j # [Suc j..<Suc j + n]"
      by (subst upt_conv_Cons) simp_all
    with Suc show ?case
      by (simp add: words_at_Suc algebra_simps fun_upd_def del: upt_Suc)
  qed (simp add: words_at_def)
  from this [of 0 "length bytes div 4"] show ?thesis
    by (simp add: words_of_def)
qed

lemma patch_words_shape:
  "patch_words patches = words_at 0x0005fedc p1_patch 0 13 @ words_at 0x0000baa4 p2_patch 0 1"
  by (simp add: patch_words_def patches_shape)

lemma length_words_at [simp]: "length (words_at a bs j n) = n"
  by (simp add: words_at_def)

lemma writes_patches:
  "writes (patch_words patches) m = poke (poke m 0x0005fedc (words_of p1_patch)) 0x0000baa4 (words_of p2_patch)"
  using writes_poke [of "0x0005fedc" p1_patch m] writes_poke [of "0x0000baa4" p2_patch]
  by (simp add: patch_words_shape)

lemma failing_access_code: "failing_access u cell ws m e s' \<Longrightarrow> e = -1 \<or> e = -2"
  by (auto simp: failing_access_def)

lemma patch_do_run:
  assumes "chip_access u cell"
  shows "\<exists>r s'. patch_do u s = Some (r, s') \<and>
    (if 0 \<le> r then r = 14 \<and>
        cell s' = poke (poke (cell s) 0x0005fedc (words_of p1_patch)) 0x0000baa4 (words_of p2_patch)
     else failing_access u cell (patch_words patches) (cell s) r s')"
proof -
  have "\<forall>p \<in> set patches. 4 * unat ((psize p + 3) div 4) \<le> length (ppatch p)"
    by (simp add: patches_shape)
  then obtain r s' where run: "patch_do u s = Some (r, s')"
    and out: "if r = 14 then cell s' = writes (patch_words patches) (cell s) \<or>
        failing_access u cell (patch_words patches) (cell s) r s'
      else failing_access u cell (patch_words patches) (cell s) r s'"
    using do_patches_outcome [OF assms, of patches 0 s] by (auto simp: patch_do_def patch_words_shape)
  note code = failing_access_code [of u cell "patch_words patches" "cell s" r s']
  from run out code show ?thesis
    by (intro exI [of _ r] exI [of _ s']) (auto simp: writes_patches split: if_splits)
qed

lemma patch_undo_run:
  assumes "chip_access u cell"
  shows "\<exists>r s'. patch_undo u s = Some (r, s') \<and>
    (if 0 \<le> r then r = 0 \<and> cell s' = poke (cell s) 0x0000baa4 (words_of p2_orig)
     else failing_access u cell (words_at 0x0000baa4 p2_orig 0 1) (cell s) r s')"
proof -
  obtain r s' where w: "write_words u p2_orig 0x0000baa4 0 (Suc 0) 0 s = Some (r, s')"
    and o: "loop_outcome u cell (words_at 0x0000baa4 p2_orig 0 (Suc 0)) (cell s) 0 r s'"
    using write_words_outcome [OF assms, of 0 "Suc 0" p2_orig "0x0000baa4" 0 s]
    by (auto simp del: write_words.simps)
  show ?thesis
  proof (cases r)
    case (Inl e)
    then show ?thesis
      using w o failing_access_code [of u cell _ _ e s']
      by (fastforce simp: patch_undo_def patches_shape simp del: write_words.simps)
  next
    case (Inr c)
    then show ?thesis
      using w o writes_poke [of "0x0000baa4" p2_orig "cell s"]
      by (simp add: patch_undo_def patches_shape del: write_words.simps)
  qed
qed

lemma poke_other:
  assumes "\<And>i. i < length ws \<Longrightarrow> b \<noteq> a + 4 * of_nat i"
  shows "poke m a ws b = m b"
  using assms
proof (induction ws arbitrary: m a)
  case (Cons w ws)
  have "poke (m(a := w)) (a + 4) ws b = (m(a := w)) b"
  proof (rule Cons.IH)
    fix i assume "i < length ws"
    then show "b \<noteq> a + 4 + 4 * of_nat i"
      using Cons.prems [of "Suc i"] by (simp add: algebra_simps)
  qed
  moreover have "b \<noteq> a"
    using Cons.prems [of 0] by simp
  ultimately show ?case by simp
qed simp

text \<open>If no access fails, the patches succeed.\<close>

lemma no_failing_access:
  assumes "\<And>a v s. 0 \<le> fst (mem_write u a v s)" and "\<And>a s. 0 \<le> fst (fst (mem_read u a s))"
  shows "\<not> failing_access u cell ws m e s'"
proof
  assume "failing_access u cell ws m e s'"
  then obtain a v s r t r' v' t' where "mem_write u a v s = (r, t) \<and> r < 0 \<or> mem_read u a s = ((r', v'), t') \<and> r' < 0"
    unfolding failing_access_def by blast
  with assms(1) [of a v s] assms(2) [of a s] show False
    by auto
qed

lemma patch_undo_succeeds:
  assumes "chip_access u cell" and "\<And>a v s. 0 \<le> fst (mem_write u a v s)"
    and "\<And>a s. 0 \<le> fst (fst (mem_read u a s))"
  shows "\<exists>s'. patch_undo u s = Some (0, s')"
  using patch_undo_run [OF assms(1), of s] no_failing_access [OF assms(2,3)] by (auto split: if_splits)

lemma demo_mem_ok:
  "0 \<le> fst (mem_write demo_user a v s)" "0 \<le> fst (fst (mem_read demo_user a s))"
  by (simp_all add: hooked_mem_write [OF _ demo_hook_laws] hooked_mem_read [OF _ _ demo_hook_laws]
      Let_def)

section \<open>Properties\<close>

text \<open>C27: patching. Whatever the chip answers, the patcher ends with an answer: 14 when every word
  was written and read back, and then the chip's memory is the old one with the 13 words of the
  first patch and the one word of the second in place and nothing else changed; or -1 or -2, and then some of the words,
  taken in order, are in place, and the write of the next one (-1), or reading it back (-2), answered with a negative
  number. It never reports a mismatch if the chip stores what is written.\<close>

theorem patch_do_outcome:
  assumes "chip_access u cell"
  shows "\<exists>r s'. patch_do u s = Some (r, s') \<and>
    (if 0 \<le> r then r = 14 \<and>
        cell s' = poke (poke (cell s) 0x0005fedc (words_of p1_patch)) 0x0000baa4 (words_of p2_patch)
     else failing_access u cell (patch_words patches) (cell s) r s')"
  by (rule patch_do_run [OF assms])

theorem patch_do_outcome_witness:
  "\<exists>s'. patch_do demo_user demo_app = Some (14, s') \<and> d_chip (world s') 0x0000baa4 = 0xfa1af054"
proof -
  obtain s' where r: "patch_do demo_user demo_app = Some (14, s')"
    and "d_chip (world s') =
      poke (poke (d_chip (world demo_app)) 0x0005fedc (words_of p1_patch)) 0x0000baa4 (words_of p2_patch)"
    using patch_do_outcome [OF demo_chip_access, of demo_app] no_failing_access [OF demo_mem_ok]
    by (auto split: if_splits)
  then show ?thesis
    by (auto simp: words_of_def p2_patch_def)
qed

text \<open>Unpatching. After a successful patch and a successful unpatch, the call instruction is
  restored: if the chip held the original instruction, its memory is what it was before,
  except for the 13 words of the first patch, which are left behind.\<close>

theorem patch_undo_restores:
  assumes "chip_access u cell" and "patch_do u s = Some (r1, s1)" and "0 \<le> r1"
    and "patch_undo u s1 = Some (r2, s2)" and "0 \<le> r2" and "cell s 0x0000baa4 = ld32 p2_orig"
    and "\<And>i. i < 13 \<Longrightarrow> a \<noteq> 0x0005fedc + 4 * of_nat i"
  shows "cell s2 a = cell s a"
proof -
  have s1: "cell s1 = poke (poke (cell s) 0x0005fedc (words_of p1_patch)) 0x0000baa4 (words_of p2_patch)"
    using patch_do_run [OF assms(1), of s] assms(2,3) by auto
  have s2: "cell s2 = poke (cell s1) 0x0000baa4 (words_of p2_orig)"
    using patch_undo_run [OF assms(1), of s1] assms(4,5) by auto
  have "poke (cell s) 0x0005fedc (words_of p1_patch) a = cell s a"
    by (rule poke_other) (simp add: words_of_def assms(7))
  then show ?thesis
    by (simp add: s2 s1 words_of_def assms(6))
qed

theorem patch_undo_restores_witness:
  "\<exists>s s1 s2. patch_do demo_user s = Some (14, s1) \<and> patch_undo demo_user s1 = Some (0, s2) \<and>
     d_chip (world s) 0x0000baa4 = 0xaa022500 \<and> d_chip (world s2) 0x0000baa4 = 0xaa022500"
proof -
  define s where "s = demo_app\<lparr>world := demo_init\<lparr>d_chip := \<lambda>_. 0xaa022500\<rparr>\<rparr>"
  obtain s1 where s1: "patch_do demo_user s = Some (14, s1)"
    using patch_do_run [OF demo_chip_access, of s] no_failing_access [OF demo_mem_ok] by (auto split: if_splits)
  obtain s2 where s2: "patch_undo demo_user s1 = Some (0, s2)"
    using patch_undo_succeeds [OF demo_chip_access demo_mem_ok] by blast
  have chip: "d_chip (world s) 0x0000baa4 = 0xaa022500"
    by (simp add: s_def)
  have far: "(0x0000baa4::u32) \<noteq> 0x0005fedc + 4 * of_nat i" if "i < 13" for i
  proof -
    have "i \<in> {0, 1, 2, 3, 4, 5, 6, 7, 8, 9, 10, 11, 12}"
      using that unfolding insert_iff empty_iff by presburger
    then show ?thesis by auto
  qed
  have "d_chip (world s2) 0x0000baa4 = d_chip (world s) 0x0000baa4"
    using patch_undo_restores [OF demo_chip_access s1 _ s2] chip far
    by (simp add: p2_orig_def)
  with s1 s2 chip show ?thesis by auto
qed

text \<open>The target of a Thumb-2 branch with link (encoding T1) at an address.\<close>

definition bl_target :: "u32 \<Rightarrow> byte list \<Rightarrow> u32 option" where
  "bl_target pc bs =
     (let h1 = ld16 bs; h2 = ld16 (drop 2 bs); sgn = bit h1 10;
          off = push_bit 1 (take_bit 11 (ucast h2)) OR push_bit 12 (take_bit 10 (ucast h1)) OR
            (if bit h2 11 = sgn then push_bit 22 1 else 0) OR
            (if bit h2 13 = sgn then push_bit 23 1 else 0) OR
            (if sgn then push_bit 24 0xff else 0)
      in if drop_bit 11 h1 = 0x1e \<and> drop_bit 14 h2 = 3 \<and> bit h2 12 then Some (pc + 4 + off)
         else None)"

text \<open>The second patch calls the first. Decoded as a Thumb-2 branch-with-link instruction at
  the address it is written to, the patched word's target is the address of the first patch.\<close>

theorem patch_branch_target:
  "map (\<lambda>p. bl_target (paddr p) (ppatch p)) (tl patches) = [Some (paddr (hd patches))]"
  by (simp add: patches_shape p2_patch_def bl_target_def Let_def bit_numeral_rec)

end
