(* ===== verification/App.thy ===== *)
theory App
  imports Patch
begin

text \<open>
  The application, \<open>src/app/ui.c\<close> and \<open>src/app/main.c\<close>: the edge detection of the controller
  input, the search for the WLAN interface, and the main program, which loads the two plugins,
  reacts to button presses until CIRCLE is pressed and unloads the plugins. Drawing is left
  out but for the lines of text the event loop shows and the height \<open>y\<close> of the next one.
\<close>

section \<open>Controller input\<close>

text \<open>The buttons of the controller, bit masks of the SDK.\<close>

record ctrl =
  SCE_CTRL_CIRCLE :: u32
  SCE_CTRL_TRIANGLE :: u32
  SCE_CTRL_SQUARE :: u32
  SCE_CTRL_LEFT :: u32
  SCE_CTRL_RIGHT :: u32

definition ui_init :: "('w, 'm) app_globals_scheme \<Rightarrow> ('w, 'm) app_globals_scheme" where
  "ui_init s = s\<lparr>ui_pad_last := 0\<rparr>"

definition ui_get_input ::
  "('w, 'm) app_globals_scheme user \<Rightarrow> ('w, 'm) app_globals_scheme \<Rightarrow>
     u32 \<times> ('w, 'm) app_globals_scheme" where
  "ui_get_input u s =
     (let (pad, s) = sceCtrlPeekBufferPositive u s;
          input = pad AND NOT (ui_pad_last s)
      in (input, s\<lparr>ui_pad_last := pad\<rparr>))"

section \<open>Finding the interface\<close>

text \<open>The loop over the interfaces \<open>i\<close>, \<dots>; \<open>None\<close> is an access outside the list.\<close>

fun scan_ifaces :: "iface_t list \<Rightarrow> nat \<Rightarrow> nat \<Rightarrow> int \<Rightarrow> int option" where
  "scan_ifaces iface_list i 0 found = Some found"
| "scan_ifaces iface_list i (Suc n) found = do {
     f \<leftarrow> idx iface_list i;
     scan_ifaces iface_list (Suc i) n (if name f = ''wlan0'' then dev_idx f else found)
   }"

text \<open>The entries the second call stored; without a buffer there are none.\<close>

definition find_wlan_idx ::
  "('w, 'm) app_globals_scheme user \<Rightarrow> ('w, 'm) app_globals_scheme \<Rightarrow>
     ('w, 'm) app_globals_scheme option" where
  "find_wlan_idx u s =
     (let (iface_count, s) = sceNetSyscallGetIfCount u s;
          (ok, s) = malloc u (sizeof iface_t_fields * nat iface_count) s;
          (iface_list, s) = sceNetSyscallGetIfList u iface_count s;
          iface_list = (if ok then iface_list else [])
      in if iface_count \<ge> 0 then
           map_option (\<lambda>i. s\<lparr>wlan_idx := i\<rparr>)
             (scan_ifaces iface_list 0 (nat iface_count) (wlan_idx s))
         else Some s)"

section \<open>The event loop\<close>

datatype shown = Stats int | Patching int | Start_recording int | Stop_recording int

definition on_key ::
  "u32 \<Rightarrow> u32 \<Rightarrow> ('s \<Rightarrow> (shown \<times> 's) option) \<Rightarrow> shown list \<times> int \<times> 's \<Rightarrow>
     (shown list \<times> int \<times> 's) option" where
  "on_key inp key act st =
     (case st of (out, y, s) \<Rightarrow>
        if inp AND key \<noteq> 0 then map_option (\<lambda>(l, s). (out @ [l], y + 10, s)) (act s)
        else Some (out, y, s))"

text \<open>
  One pass of the event loop: \<open>Inl\<close> if CIRCLE was pressed, else the lines so far, the height
  and the state. \<open>stats_ptr\<close> is the address of the local counters the statistics are copied to.
\<close>

definition main_iter ::
  "ctrl \<Rightarrow> 'w kernel \<Rightarrow> ('w, 'm) app_globals_scheme user \<Rightarrow> u32 \<Rightarrow>
     shown list \<times> int \<times> ('w, 'm) app_globals_scheme \<Rightarrow>
     ((shown list \<times> int \<times> ('w, 'm) app_globals_scheme) +
      (shown list \<times> int \<times> ('w, 'm) app_globals_scheme)) option" where
  "main_iter c k u stats_ptr st =
     (case st of (out, y, s) \<Rightarrow>
        (let (inp, s) = ui_get_input u s
         in if inp AND SCE_CTRL_CIRCLE c \<noteq> 0 then Some (Inl (out, y, s))
            else do {
              st \<leftarrow> on_key inp (SCE_CTRL_TRIANGLE c)
                (\<lambda>s. let (ret, s) = uwifimon_mod_stats k stats_ptr 1 s in Some (Stats ret, s))
                (out, y, s);
              st \<leftarrow> on_key inp (SCE_CTRL_SQUARE c)
                (\<lambda>s. map_option (\<lambda>(ret, s). (Patching ret, s)) (patch_do u s)) st;
              st \<leftarrow> on_key inp (SCE_CTRL_LEFT c)
                (\<lambda>s. let (ret, s) = uwifimon_cap_start k s in Some (Start_recording ret, s)) st;
              st \<leftarrow> on_key inp (SCE_CTRL_RIGHT c)
                (\<lambda>s. let (ret, s) = uwifimon_cap_stop k s in Some (Stop_recording ret, s)) st;
              Some (Inr st)
            }))"

text \<open>
  Outcomes of the program: finished, still waiting for the user after the given number of
  polls, or undefined behaviour of the C code.
\<close>

datatype 'a outcome = Finished 'a | Waiting | Undefined

fun main_loop ::
  "ctrl \<Rightarrow> 'w kernel \<Rightarrow> ('w, 'm) app_globals_scheme user \<Rightarrow> u32 \<Rightarrow> nat \<Rightarrow>
     shown list \<times> int \<times> ('w, 'm) app_globals_scheme \<Rightarrow>
     (shown list \<times> int \<times> ('w, 'm) app_globals_scheme) outcome" where
  "main_loop c k u stats_ptr 0 st = Waiting"
| "main_loop c k u stats_ptr (Suc polls) st =
     (case main_iter c k u stats_ptr st of
        None \<Rightarrow> Undefined
      | Some (Inl st) \<Rightarrow> Finished st
      | Some (Inr st) \<Rightarrow> main_loop c k u stats_ptr polls st)"

fun wait_circle ::
  "ctrl \<Rightarrow> ('w, 'm) app_globals_scheme user \<Rightarrow> nat \<Rightarrow> ('w, 'm) app_globals_scheme \<Rightarrow>
     ('w, 'm) app_globals_scheme outcome" where
  "wait_circle c u 0 s = Waiting"
| "wait_circle c u (Suc polls) s =
     (let (inp, s) = ui_get_input u s
      in if inp AND SCE_CTRL_CIRCLE c \<noteq> 0 then Finished s else wait_circle c u polls s)"

section \<open>The program\<close>

text \<open>
  Loading the plugins: the kernel module's identifier is a local variable that is assigned
  only when the module was not loaded yet; \<open>None\<close> says it was not assigned.
\<close>

definition load_modules ::
  "('w, 'm) app_globals_scheme user \<Rightarrow> ('w, 'm) app_globals_scheme \<Rightarrow>
     (int option \<times> int) \<times> ('w, 'm) app_globals_scheme" where
  "load_modules u s =
     (let (modid, s) = vshKernelSearchModuleByName u ''kwifimon'' s;
          (kmod, s) =
            (if modid < 0 then
               (let (m, s) = taiLoadStartKernelModule u ''ux0:app/WIFIMON01/kwifimon.skprx'' s
                in (Some m, s))
             else (None, s));
          (umod, s) = sceKernelLoadStartModule u ''ux0:app/WIFIMON01/uwifimon.suprx'' s
      in ((kmod, umod), s))"

text \<open>Unloading them: reading an unassigned variable is undefined.\<close>

definition unload_modules ::
  "('w, 'm) app_globals_scheme user \<Rightarrow> int option \<Rightarrow> int \<Rightarrow> ('w, 'm) app_globals_scheme \<Rightarrow>
     ('w, 'm) app_globals_scheme option" where
  "unload_modules u kmod umod s =
     (let (_, s) = sceKernelStopUnloadModule u umod s
      in case kmod of
           None \<Rightarrow> None
         | Some m \<Rightarrow> Some (if m > 0 then snd (taiStopUnloadKernelModule u m s) else s))"

definition main_prog ::
  "ctrl \<Rightarrow> 'w kernel \<Rightarrow> ('w, 'm) app_globals_scheme user \<Rightarrow> u32 \<Rightarrow> nat \<Rightarrow>
     ('w, 'm) app_globals_scheme \<Rightarrow> (shown list \<times> ('w, 'm) app_globals_scheme) outcome" where
  "main_prog c k u stats_ptr polls s =
     (let s = ui_init s;
          ((kmod, umod), s) = load_modules u s
      in case find_wlan_idx u s of
           None \<Rightarrow> Undefined
         | Some s \<Rightarrow>
             (let y = 50; (_, s) = uwifimon_mod_state k s; y = y + 10
              in case main_loop c k u stats_ptr polls ([], y, s) of
                   Waiting \<Rightarrow> Waiting
                 | Undefined \<Rightarrow> Undefined
                 | Finished (out, y, s) \<Rightarrow>
                     (case unload_modules u kmod umod s of
                        None \<Rightarrow> Undefined
                      | Some s \<Rightarrow>
                          (case wait_circle c u polls s of
                             Finished s \<Rightarrow> Finished (out, s)
                           | Waiting \<Rightarrow> Waiting
                           | Undefined \<Rightarrow> Undefined))))"

section \<open>Lemmas\<close>

text \<open>A number of polls: the raw samples and the reported inputs.\<close>

fun polls_of ::
  "('w, 'm) app_globals_scheme user \<Rightarrow> nat \<Rightarrow> ('w, 'm) app_globals_scheme \<Rightarrow> (u32 \<times> u32) list" where
  "polls_of u 0 s = []"
| "polls_of u (Suc n) s =
     (let (inp, s') = ui_get_input u s in (ui_pad_last s', inp) # polls_of u n s')"

text \<open>Reading the controller does not change what the application remembers of it.\<close>

definition pad_kept :: "('w, 'm) app_globals_scheme user \<Rightarrow> bool" where
  "pad_kept u \<longleftrightarrow>
     (\<forall>s. ui_pad_last (snd (sceCtrlPeekBufferPositive u s)) = ui_pad_last s)"

lemma length_polls_of [simp]: "length (polls_of u n s) = n"
  by (induction n arbitrary: s) (simp_all add: case_prod_beta Let_def)

lemma polls_edges:
  assumes "pad_kept u" and "i < n"
  shows "snd (polls_of u n s ! i) =
    fst (polls_of u n s ! i) AND
      NOT (if i = 0 then ui_pad_last s else fst (polls_of u n s ! (i - 1)))"
  using assms(2)
proof (induction n arbitrary: i s)
  case (Suc n)
  define s' where "s' = snd (ui_get_input u s)"
  have head: "fst (ui_get_input u s) = ui_pad_last s' AND NOT (ui_pad_last s)"
    using assms(1) by (simp add: s'_def ui_get_input_def pad_kept_def Let_def case_prod_beta)
  show ?case
  proof (cases i)
    case 0
    then show ?thesis
      using head by (simp add: case_prod_beta Let_def flip: s'_def)
  next
    case (Suc j)
    then show ?thesis
      using Suc.IH [of j s'] Suc.prems
      by (cases j) (simp_all add: case_prod_beta Let_def flip: s'_def)
  qed
qed simp

text \<open>The interface scan finds the last match.\<close>

lemma scan_ifaces_last:
  assumes "i + n \<le> length l"
  shows "scan_ifaces l i n found =
    Some (last (found # map dev_idx (filter (\<lambda>f. name f = ''wlan0'') (take n (drop i l)))))"
  using assms
proof (induction n arbitrary: i found)
  case (Suc n)
  then have i: "i < length l" by simp
  then have "take (Suc n) (drop i l) = l ! i # take n (drop (Suc i) l)"
    by (simp add: Cons_nth_drop_Suc [symmetric])
  with Suc.IH [of "Suc i"] Suc.prems i show ?case
    by (simp add: idx_def)
qed simp

section \<open>Properties\<close>

text \<open>A button press is reported once. In every sequence of polls of the controller, a button
  is reported at a poll exactly if it is down at that poll and was up at the one before (at
  the first poll: up when the application last looked), so holding a button reports it once.\<close>

theorem input_reports_edges:
  assumes "pad_kept u" and "i < n" and "polls_of u n s = ps"
  shows "bit (snd (ps ! i)) b \<longleftrightarrow>
    bit (fst (ps ! i)) b \<and>
    \<not> bit (if i = 0 then ui_pad_last s else fst (ps ! (i - 1))) b"
proof -
  have "snd (ps ! i) = fst (ps ! i) AND
      NOT (if i = 0 then ui_pad_last s else fst (ps ! (i - 1)))"
    using polls_edges [OF assms(1,2), of s] assms(3) by simp
  then show ?thesis
    by (auto simp: bit_and_iff bit_not_iff dest: bit_imp_le_length)
qed

theorem input_reports_edges_witness:
  "\<exists>u s ps. polls_of (u :: demo_world app_globals user) 2 s = ps \<and>
     bit (snd (ps ! 0)) 3 \<and> \<not> bit (snd (ps ! 1)) 3"
proof -
  define u where "u = demo_user\<lparr>sceCtrlPeekBufferPositive := \<lambda>s. (8, s)\<rparr>"
  have kept: "pad_kept u"
    by (simp add: pad_kept_def u_def)
  have samples: "fst (polls_of u 2 demo_app ! 0) = 8" "fst (polls_of u 2 demo_app ! 1) = 8"
    by (simp_all add: numeral_2_eq_2 ui_get_input_def u_def)
  have "ui_pad_last demo_app = 0"
    by (simp add: demo_app_def app_globals.defs kwifimon_globals.defs initial_globals_def)
  then show ?thesis
    using input_reports_edges [OF kept _ refl, of 0 2 demo_app 3]
      input_reports_edges [OF kept _ refl, of 1 2 demo_app 3] samples
    by (intro exI [of _ u] exI [of _ demo_app] exI [of _ "polls_of u 2 demo_app"])
      (simp add: bit_numeral_rec)
qed

text \<open>The interface search. When the second call fills in as many entries as the first one
  counted, the search stays inside the list and sets the interface index to that of the last
  entry called wlan0, or leaves it as it was if there is none.\<close>

theorem find_wlan_idx_last:
  assumes "sceNetSyscallGetIfCount u s = (int n, s1)"
    and "malloc u (sizeof iface_t_fields * n) s1 = (True, s2)"
    and "sceNetSyscallGetIfList u (int n) s2 = (l, s3)" and "length l = n"
  shows "find_wlan_idx u s =
    Some (s3\<lparr>wlan_idx := last (wlan_idx s3 # map dev_idx (filter (\<lambda>f. name f = ''wlan0'') l))\<rparr>)"
  using assms scan_ifaces_last [of 0 n l "wlan_idx s3"]
  by (simp add: find_wlan_idx_def Let_def)

theorem find_wlan_idx_last_witness:
  "\<exists>s'. find_wlan_idx demo_user demo_app = Some s' \<and> wlan_idx s' = 1"
  using find_wlan_idx_last [of demo_user demo_app 2 demo_app demo_app
      "[\<lparr>name = ''lo'', dev_idx = 0\<rparr>, \<lparr>name = ''wlan0'', dev_idx = 1\<rparr>]" demo_app]
  by simp

text \<open>A second start of the application ends in undefined behaviour. If the kernel plugin is
  already loaded when the application starts, the program never finishes properly: as soon as
  the user leaves the event loop it reads the module identifier that was never assigned.\<close>

theorem restart_reads_unassigned:
  assumes "\<And>s. 0 \<le> fst (vshKernelSearchModuleByName u ''kwifimon'' s)"
  shows "main_prog c k u stats_ptr polls s \<noteq> Finished r"
proof -
  have "fst (fst (load_modules u (ui_init s))) = None"
    using assms [of "ui_init s"] by (simp add: load_modules_def Let_def case_prod_beta)
  then show ?thesis
    by (auto simp: main_prog_def unload_modules_def Let_def case_prod_beta
        split: option.splits outcome.splits)
qed

theorem restart_reads_unassigned_witness:
  "\<forall>r. main_prog \<lparr>SCE_CTRL_CIRCLE = 1, SCE_CTRL_TRIANGLE = 2, SCE_CTRL_SQUARE = 4,
       SCE_CTRL_LEFT = 8, SCE_CTRL_RIGHT = 16\<rparr> demo_kernel
     (demo_user\<lparr>vshKernelSearchModuleByName := \<lambda>_ s. (9, s)\<rparr>) 0 5 demo_app \<noteq> Finished r"
  by (intro allI restart_reads_unassigned) simp

end
