(* ===== verification/Dump.thy ===== *)
theory Dump
  imports Util
begin

text \<open>
  The memory dumper of the application, \<open>src/app/dump.c\<close>: reads a segment of the chip's
  memory word by word and writes what it could read to a file named after it.
\<close>

section \<open>Segments and file names\<close>

record seg_t =
  base :: u32
  seg_size :: u32
  seg_name :: string

definition segs :: "seg_t list" where
  "segs = [
     \<lparr>base = 0x00000000, seg_size = 0x00060000, seg_name = ''00seg''\<rparr>,
     \<lparr>base = 0x04000000, seg_size = 0x00010000, seg_name = ''04seg''\<rparr>,
     \<lparr>base = 0xc0000000, seg_size = 0x00040000, seg_name = ''c0seg''\<rparr>,
     \<lparr>base = 0x03f00000, seg_size = 0x00050000, seg_name = ''03seg''\<rparr>,
     \<lparr>base = 0x80000000, seg_size = 0x00010000, seg_name = ''80seg''\<rparr>,
     \<lparr>base = 0x90000000, seg_size = 0x00001000, seg_name = ''90seg''\<rparr>]"

text \<open>The conversion \<open>%08x\<close>.\<close>

definition hex_chars :: string where
  "hex_chars = ''0123456789abcdef''"

definition hex8 :: "u32 \<Rightarrow> string" where
  "hex8 w = map (\<lambda>i. hex_chars ! unat (take_bit 4 (drop_bit (4 * i) w))) [7, 6, 5, 4, 3, 2, 1, 0]"

definition dump_name :: "u32 \<Rightarrow> u32 \<Rightarrow> string" where
  "dump_name b sz = ''ux0:data/dump-'' @ hex8 b @ ''-'' @ hex8 sz @ ''.bin''"

section \<open>The dump\<close>

text \<open>
  The reading loop: the buffer, the number of bytes read and the state when it stops. A
  failed read stores its answer too, then leaves the loop. \<open>None\<close> is a store outside the
  buffer, or no fuel; the number of words of the segment is enough fuel.
\<close>

fun dump_loop ::
  "('w, 'm) app_globals_scheme user \<Rightarrow> nat \<Rightarrow> u32 \<Rightarrow> u32 \<Rightarrow> byte list \<Rightarrow> u32 \<Rightarrow>
     ('w, 'm) app_globals_scheme \<Rightarrow> (byte list \<times> u32 \<times> ('w, 'm) app_globals_scheme) option" where
  "dump_loop u fuel addr addrmax seg sz s =
     (if addr < addrmax then
        (case fuel of
           0 \<Rightarrow> None
         | Suc fuel \<Rightarrow>
             (let ((ret, data), s) = mem_read u addr s
              in do {
                seg \<leftarrow> store seg (unat sz) (le32 data);
                if ret < 0 then Some (seg, sz, s)
                else dump_loop u fuel (addr + 4) addrmax seg (sz + 4) s
              }))
      else Some (seg, sz, s))"

declare dump_loop.simps [simp del]

definition dump ::
  "('w, 'm) app_globals_scheme user \<Rightarrow> nat \<Rightarrow> ('w, 'm) app_globals_scheme \<Rightarrow>
     (int \<times> ('w, 'm) app_globals_scheme) option" where
  "dump u i s = do {
     d \<leftarrow> idx segs i;
     let ret = 0;
     let addr = base d;
     let addrmax = base d + seg_size d;
     let (ok, s) = malloc u (unat (seg_size d)) s;
     if \<not> ok then Some (-1, s)
     else do {
       let seg = replicate (unat (seg_size d)) 0;
       (seg, sz, s) \<leftarrow> dump_loop u (unat (seg_size d) div 4) addr addrmax seg 0 s;
       let (fd, s) = sceIoOpen u (dump_name (base d) sz) s;
       s \<leftarrow>
         (if fd \<ge> 0 then do {
            bs \<leftarrow> load seg 0 (unat sz);
            let (n, s) = sceIoWrite u fd bs s;
            Some (if n \<ge> 0 then snd (sceIoClose u fd s) else s)
          } else Some s);
       Some (ret, s)
     }
   }"

section \<open>What the loop reads\<close>

text \<open>The words the chip holds from an address on.\<close>

definition chip_bytes :: "(u32 \<Rightarrow> u32) \<Rightarrow> u32 \<Rightarrow> nat \<Rightarrow> byte list" where
  "chip_bytes m a n = concat (map (\<lambda>i. le32 (m (a + 4 * of_nat i))) [0..<n])"

lemma length_chip_bytes [simp]: "length (chip_bytes m a n) = 4 * n"
  by (induction n) (simp_all add: chip_bytes_def)

lemma chip_bytes_Suc: "chip_bytes m a (Suc n) = chip_bytes m a n @ le32 (m (a + 4 * of_nat n))"
  by (simp add: chip_bytes_def)

lemma chip_bytes_0 [simp]: "chip_bytes m a 0 = []"
  by (simp add: chip_bytes_def)

text \<open>How many of the \<open>n\<close> words from an address on can be read one after the other, and the state after that
  (and after the read that failed).\<close>

fun readable_words ::
  "('w, 'm) app_globals_scheme user \<Rightarrow> u32 \<Rightarrow> nat \<Rightarrow> ('w, 'm) app_globals_scheme \<Rightarrow>
     nat \<times> ('w, 'm) app_globals_scheme" where
  "readable_words u a 0 s = (0, s)"
| "readable_words u a (Suc n) s =
     (let ((ret, _), s) = mem_read u a s
      in if ret < 0 then (0, s) else (let (j, s) = readable_words u (a + 4) n s in (Suc j, s)))"

lemma readable_words_le: "fst (readable_words u a n s) \<le> n"
  by (induction n arbitrary: a s) (auto simp: Let_def case_prod_beta)

lemma readable_words_all:
  "\<forall>a s. 0 \<le> fst (fst (mem_read u a s)) \<Longrightarrow> fst (readable_words u a n s) = n"
  by (induction n arbitrary: a s) (auto simp: Let_def case_prod_beta not_less)

lemma dump_loop_reads:
  assumes "chip_access u cell" and "unat b + 4 * (k + n) < 2 ^ 32"
    and "length seg = 4 * (k + n)" and "take (4 * k) seg = chip_bytes (cell s) b k"
  shows "\<exists>seg' j s'. dump_loop u n (b + 4 * of_nat k) (b + 4 * of_nat (k + n)) seg (4 * of_nat k) s =
      Some (seg', 4 * of_nat (k + j), s') \<and> readable_words u (b + 4 * of_nat k) n s = (j, s') \<and>
    length seg' = 4 * (k + n) \<and> take (4 * (k + j)) seg' = chip_bytes (cell s) b (k + j)"
  using assms(2-)
proof (induction n arbitrary: k seg s)
  case 0
  then show ?case
    by (subst dump_loop.simps) simp
next
  case (Suc n)
  have small: "unat (b + 4 * of_nat i :: u32) = unat b + 4 * i" if "i \<le> k + Suc n" for i
    using that Suc.prems(1) by (simp add: unat_word_ariths unat_of_nat)
  have lt: "b + 4 * of_nat k < (b + 4 * of_nat (k + Suc n) :: u32)"
    using small [of k] small [of "k + Suc n"] by (simp add: word_less_nat_alt)
  have off: "unat (4 * of_nat k :: u32) = 4 * k"
    using Suc.prems(1) by (simp add: unat_word_ariths unat_of_nat)
  obtain r v s1 where r: "mem_read u (b + 4 * of_nat k) s = ((r, v), s1)"
    by (metis prod.collapse)
  define seg1 where "seg1 = take (4 * k) seg @ le32 v @ drop (4 * k + 4) seg"
  have st: "store seg (unat (4 * of_nat k :: u32)) (le32 v) = Some seg1"
    unfolding off using Suc.prems(2) by (simp add: store_def seg1_def)
  have len1: "length seg1 = 4 * (k + Suc n)"
    using Suc.prems(2) by (simp add: seg1_def)
  show ?case
  proof (cases "r < 0")
    case True
    then have "dump_loop u (Suc n) (b + 4 * of_nat k) (b + 4 * of_nat (k + Suc n)) seg (4 * of_nat k) s =
        Some (seg1, 4 * of_nat k, s1)"
      by (subst dump_loop.simps) (use lt r st in simp)
    moreover have "take (4 * k) seg1 = chip_bytes (cell s) b k"
      using Suc.prems(2,3) by (simp add: seg1_def)
    moreover have "readable_words u (b + 4 * of_nat k) (Suc n) s = (0, s1)"
      using True r by simp
    ultimately show ?thesis
      using len1 by (intro exI [of _ seg1] exI [of _ 0] exI [of _ s1]) auto
  next
    case False
    then have v: "v = cell s (b + 4 * of_nat k)" and cell: "cell s1 = cell s"
      using chip_access_read [OF assms(1) r] by simp_all
    have read: "take (4 * Suc k) seg1 = chip_bytes (cell s1) b (Suc k)"
      using Suc.prems(2,3) by (simp add: seg1_def chip_bytes_Suc cell v)
    have bounds: "unat b + 4 * (Suc k + n) < 2 ^ 32" "length seg1 = 4 * (Suc k + n)"
      using Suc.prems(1) len1 by simp_all
    obtain seg' j s' where IH:
      "dump_loop u n (b + 4 * of_nat (Suc k)) (b + 4 * of_nat (Suc k + n)) seg1 (4 * of_nat (Suc k)) s1 =
        Some (seg', 4 * of_nat (Suc k + j), s')" "readable_words u (b + 4 * of_nat (Suc k)) n s1 = (j, s')"
      "length seg' = 4 * (Suc k + n)" "take (4 * (Suc k + j)) seg' = chip_bytes (cell s1) b (Suc k + j)"
      using Suc.IH [OF bounds read] by blast
    have succ: "b + 4 * of_nat k + 4 = b + 4 * of_nat (Suc k)"
      "(4 * of_nat k + 4 :: u32) = 4 * of_nat (Suc k)"
      by simp_all
    have "dump_loop u n (b + 4 * of_nat k + 4) (b + 4 * of_nat (k + Suc n)) seg1
        (4 * of_nat k + 4) s1 = Some (seg', 4 * of_nat (k + Suc j), s')"
      unfolding succ using IH(1) by (simp only: add_Suc add_Suc_right)
    then have "dump_loop u (Suc n) (b + 4 * of_nat k) (b + 4 * of_nat (k + Suc n)) seg (4 * of_nat k) s =
        Some (seg', 4 * of_nat (k + Suc j), s')"
      by (subst dump_loop.simps) (use lt r st False in \<open>simp del: of_nat_add of_nat_Suc\<close>)
    moreover have "readable_words u (b + 4 * of_nat k) (Suc n) s = (Suc j, s')"
      using False r IH(2) unfolding succ(1) [symmetric] by simp
    ultimately show ?thesis
      using IH(3,4) cell by (intro exI [of _ seg'] exI [of _ "Suc j"] exI [of _ s']) (simp only: add_Suc add_Suc_right simp_thms)
  qed
qed

lemma segs_aligned:
  assumes "i < length segs"
  shows "seg_size (segs ! i) = 4 * of_nat (unat (seg_size (segs ! i)) div 4)"
    and "4 * (unat (seg_size (segs ! i)) div 4) = unat (seg_size (segs ! i))"
    and "unat (base (segs ! i)) + unat (seg_size (segs ! i)) < 2 ^ 32"
proof -
  have "i \<in> {0, 1, 2, 3, 4, 5}"
    using assms unfolding segs_def insert_iff empty_iff by simp presburger
  then show "seg_size (segs ! i) = 4 * of_nat (unat (seg_size (segs ! i)) div 4)"
    and "4 * (unat (seg_size (segs ! i)) div 4) = unat (seg_size (segs ! i))"
    and "unat (base (segs ! i)) + unat (seg_size (segs ! i)) < 2 ^ 32"
    by (auto simp: segs_def)
qed

section \<open>Properties\<close>

text \<open>C36: dumping a segment. Without memory for the segment the dump answers -1 and does nothing else. With it the
  dump always ends and stays inside the buffer; it reads words from the base on until one cannot be read or the
  segment ends, and then writes one file, named after the segment's base and the number of bytes read,
  whose content is exactly the words of the chip that could be read. It answers 0 also when a
  read failed: the error code is assigned to an inner variable of the loop and lost. When the
  write to the file fails, the file is not closed.\<close>

theorem dump_outcome:
  assumes "chip_access u cell" and "i < length segs"
    and "malloc u (unat (seg_size (segs ! i))) s = (allocated, s0)"
  shows "dump u i s =
    (if \<not> allocated then Some (-1, s0)
     else let (j, s1) = readable_words u (base (segs ! i)) (unat (seg_size (segs ! i)) div 4) s0;
              (fd, s2) = sceIoOpen u (dump_name (base (segs ! i)) (of_nat (4 * j))) s1
          in Some (0, if 0 \<le> fd then
                        (let (n, s3) = sceIoWrite u fd (chip_bytes (cell s0) (base (segs ! i)) j) s2
                         in if 0 \<le> n then snd (sceIoClose u fd s3) else s3)
                      else s2)) \<and>
    fst (readable_words u (base (segs ! i)) (unat (seg_size (segs ! i)) div 4) s0) * 4 \<le> unat (seg_size (segs ! i))"
proof -
  define d n where "d = segs ! i" and "n = unat (seg_size d) div 4"
  note al = segs_aligned [OF assms(2), folded d_def, folded n_def]
  have idx: "idx segs i = Some d"
    using assms(2) by (simp add: idx_def d_def)
  have bounds: "unat (base d) + 4 * (0 + n) < 2 ^ 32" "length (replicate (4 * n) (0::byte)) = 4 * (0 + n)"
    "take (4 * 0) (replicate (4 * n) 0) = chip_bytes (cell s0) (base d) 0"
    using al(2,3) by simp_all
  have zero: "4 * of_nat 0 = (0::u32)" "base d + 0 = base d" "0 + n = n" "\<And>m. 0 + m = (m::nat)"
    by simp_all
  obtain seg j s1 where loop: "dump_loop u n (base d) (base d + 4 * of_nat n)
      (replicate (4 * n) 0) 0 s0 = Some (seg, 4 * of_nat j, s1)" "readable_words u (base d) n s0 = (j, s1)"
    "length seg = 4 * n" "take (4 * j) seg = chip_bytes (cell s0) (base d) j"
    using dump_loop_reads [OF assms(1) bounds]
    unfolding zero by blast
  have "j \<le> n"
    using readable_words_le [of u "base d" n s0] loop(2) by simp
  then have "4 * j < 2 ^ 32" and size: "j * 4 \<le> unat (seg_size d)"
    using al(2,3) by linarith+
  then have j: "unat (4 * of_nat j :: u32) = 4 * j"
    by (simp add: unat_word_ariths unat_of_nat)
  have addrmax: "base d + seg_size d = base d + 4 * of_nat n"
    by (simp add: al(1) [symmetric])
  show ?thesis
    unfolding dump_def idx d_def [symmetric] n_def [symmetric] loop(2)
    using assms(3) loop(1,3,4) size \<open>j \<le> n\<close>
    by (simp add: addrmax al(2) [symmetric] load_def j Let_def case_prod_beta flip: d_def n_def)
qed

theorem dump_outcome_witness:
  "\<exists>s1. readable_words demo_user 0x90000000 0x400 demo_app = (0x400, s1) \<and>
    dump demo_user 5 demo_app =
      (let (fd, s2) = sceIoOpen demo_user (dump_name 0x90000000 0x1000) s1
       in Some (0, if 0 \<le> fd then
                     (let (n, s3) = sceIoWrite demo_user fd
                        (chip_bytes (d_chip (world demo_app)) 0x90000000 0x400) s2
                      in if 0 \<le> n then snd (sceIoClose demo_user fd s3) else s3)
                   else s2))"
proof -
  have five: "segs ! 5 = \<lparr>base = 0x90000000, seg_size = 0x00001000, seg_name = ''90seg''\<rparr>"
    "5 < length segs"
    by (simp_all add: segs_def)
  have m: "malloc demo_user (unat (seg_size (segs ! 5))) demo_app = (True, demo_app)"
    and un: "unat (0x00001000 :: u32) div 4 = 0x400"
    by simp_all
  have "\<forall>a s. 0 \<le> fst (fst (mem_read demo_user a s))"
    by (simp add: hooked_mem_read [OF _ _ demo_hook_laws] Let_def)
  then obtain s1 where s1: "readable_words demo_user 0x90000000 0x400 demo_app = (0x400, s1)"
    using readable_words_all [of demo_user "0x90000000" "0x400" demo_app] by (metis prod.collapse)
  have n: "(of_nat (4 * 0x400) :: u32) = 0x1000"
    by simp
  from dump_outcome [OF demo_chip_access five(2) m] s1 show ?thesis
    unfolding five(1) seg_t.select_convs un by (simp add: n)
qed

end
