(* ===== verification/Kwifimon_System.thy ===== *)
theory Kwifimon_System
  imports Kwifimon_Ioctl
begin

text \<open>
  The kernel plugin as a state machine: one step per system call or hook invocation (each
  runs under a mutex or the driver's lock), interleaved with arbitrary changes of the world
  by other code. What holds in every state the plugin can reach, what the recorder calls
  leave behind, and that no received frame is lost or counted twice.
\<close>

section \<open>Steps and reachable states\<close>

inductive kstep :: "'w kernel \<Rightarrow> 'w kwifimon_globals \<Rightarrow> 'w kwifimon_globals \<Rightarrow> bool" for k where
  mod_state: "kstep k s (snd (kwifimon_mod_state k s))"
| mod_stats: "kstep k s (snd (kwifimon_mod_stats k p reset s))"
| cap_start: "kstep k s (snd (kwifimon_cap_start k s))"
| cap_stop: "kstep k s (snd (kwifimon_cap_stop k s))"
| net_start: "kstep k s (snd (kwifimon_net_start k s))"
| net_stop: "kstep k s (snd (kwifimon_net_stop k s))"
| packet: "kwifimon_process_respose k in_pkt n s = Some (r, s') \<Longrightarrow> kstep k s s'"
| ioctl: "kwifimon_ioctl k req buf n s = Some (r, buf', s') \<Longrightarrow> kstep k s s'"

inductive reachable :: "'w kernel \<Rightarrow> 'w kwifimon_globals \<Rightarrow> bool" for k where
  start: "reachable k (module_start k (initial_globals w))"
| step: "reachable k s \<Longrightarrow> kstep k s s' \<Longrightarrow> reachable k s'"
| elsewhere: "reachable k s \<Longrightarrow> reachable k (s\<lparr>world := w\<rparr>)"

inductive_cases kstepE: "kstep k s s'"

section \<open>What the operations leave alone\<close>

text \<open>
  The recorders' descriptors and buffer, the hook tables and the state word: the part of the
  globals the invariant is about.
\<close>

definition core ::
  "('w, 'm) kwifimon_globals_scheme \<Rightarrow>
     (int \<times> int \<times> byte list) \<times> (int list \<times> int list \<times> u32 list) \<times> u32" where
  "core s = ((pcap_fd s, knet_fd s, knet_pkt s), (uids s, hooks_uid s, ref_hooks s),
     kwifimon_state s)"

lemma core_world [simp]: "core (s\<lparr>world := w\<rparr>) = core s"
  by (simp add: core_def)

lemma core_stats [simp]: "core (s\<lparr>kwifimon_stats := st\<rparr>) = core s"
  by (simp add: core_def)

lemma core_mac [simp]: "core (s\<lparr>current_mac_control := m\<rparr>) = core s"
  by (simp add: core_def)

lemma core_sys [simp]: "core (snd (sys f s)) = core s"
  by (simp add: sys_update)

lemma core_count [simp]: "core (count_locked k f s) = core s"
  by (simp add: count_locked_def Let_def case_prod_beta)

lemma process_cases:
  assumes "kwifimon_process_respose k in_pkt n s = Some (r, s')"
  obtains (consumed) f where "r = 0" "s' = count_locked k f s"
  | (counted) f where "sys (orig_process_response k in_pkt n) (count_locked k f s) = (r, s')"
  | (forwarded) "sys (orig_process_response k in_pkt n) s = (r, s')"
proof -
  obtain t own where own: "(if own then Some (0, count_locked k (\<lambda>st. st\<lparr>evt_cnt := evt_cnt st + 1\<rparr>) s)
      else if ld16 t = 0 \<or> ld16 t = 10 then do {
        _ \<leftarrow> load in_pkt (4 + 4) 2;
        _ \<leftarrow> load in_pkt (4 + 2) 2;
        r \<leftarrow> load in_pkt (4 + 6) 2;
        let s = count_locked k (count_rx (ld16 r)) s;
        if ld16 r = PKT_TYPE_MGMT then Some (0, s)
        else Some (sys (orig_process_response k in_pkt n) s)
      }
      else Some (sys (orig_process_response k in_pkt n) s)) = Some (r, s')"
    using assms unfolding kwifimon_process_respose_def Let_def bind_eq_Some_conv by blast
  show thesis
  proof (cases own)
    case True
    with own show thesis by (intro consumed) auto
  next
    case not_own: False
    show thesis
    proof (cases "ld16 t = 0 \<or> ld16 t = 10")
      case True
      then obtain d where d: "(if ld16 d = PKT_TYPE_MGMT then Some (0, count_locked k (count_rx (ld16 d)) s)
          else Some (sys (orig_process_response k in_pkt n) (count_locked k (count_rx (ld16 d)) s))) =
          Some (r, s')"
        using own not_own by (auto simp: bind_eq_Some_conv Let_def)
      then show thesis
        by (cases "ld16 d = PKT_TYPE_MGMT") (auto intro: consumed counted)
    next
      case False
      with own not_own show thesis by (intro forwarded) auto
    qed
  qed
qed

lemma process_core:
  assumes "kwifimon_process_respose k in_pkt n s = Some (r, s')"
  shows "core s' = core s"
proof -
  have tail: "sys f t = (r, s') \<Longrightarrow> core s' = core t" for f t
    by (metis core_sys snd_conv)
  show ?thesis
    using assms by (cases rule: process_cases) (auto dest: tail)
qed

lemma mac_control_core: "kwifimon_mac_control k mode s = Some (r, s') \<Longrightarrow> core s' = core s"
  by (auto simp: kwifimon_mac_control_def sys_update Let_def case_prod_beta
      Option.bind_eq_Some_conv split: option.splits if_splits)

lemma set_core: "ioctl_set_mac_control k ret buf n s = Some (r, buf', s') \<Longrightarrow> core s' = core s"
  by (erule set_cases) (auto dest: mac_control_core)

lemma anycmd_core:
  "kwifimon_wlan_anycmd k cmd buf ol il s = Some (r, buf', s') \<Longrightarrow> core s' = core s"
  by (auto simp: kwifimon_wlan_anycmd_def sys_update Let_def case_prod_beta
      Option.bind_eq_Some_conv split: option.splits if_splits)

lemma ioctl_anycmd_core: "ioctl_anycmd k ret buf n s = Some (r, buf', s') \<Longrightarrow> core s' = core s"
  by (auto simp: ioctl_anycmd_def Option.bind_eq_Some_conv Let_def
      dest: anycmd_core split: if_splits)

lemma mem_core: "ioctl_mem k ret buf n s = Some (r, buf', s') \<Longrightarrow> core s' = core s"
  by (auto simp: ioctl_mem_def sys_update Let_def case_prod_beta Option.bind_eq_Some_conv
      split: if_splits)

lemma dispatch_core:
  "ioctl_dispatch k ret req buf n s = Some (r, buf', s') \<Longrightarrow> core s' = core s"
  by (auto simp: ioctl_dispatch_def ioctl_get_mac_control_def Option.bind_eq_Some_conv
      dest: set_core ioctl_anycmd_core mem_core split: if_splits)

lemma ioctl_core:
  assumes "kwifimon_ioctl k req buf n s = Some (r, buf', s')"
  shows "core s' = core s"
  using assms
  by (auto simp: kwifimon_ioctl_def sys_update Let_def case_prod_beta Option.bind_eq_Some_conv
      dest: dispatch_core split: if_splits)

text \<open>A locked system call changes the core as its body does, or not at all.\<close>

lemma syscall_core_cases:
  obtains (skipped) "core (snd (syscall_locked k body s)) = core s"
  | (ran) w where "core (snd (syscall_locked k body s)) = core (body (s\<lparr>world := w\<rparr>))"
proof (cases "0 \<le> fst (sys (ksceKernelLockMutex k (kwifimon_mutex s)) (snd (sys (ENTER_SYSCALL k) s)))")
  case True
  then show thesis
    by (intro ran [of "snd (ksceKernelLockMutex k (kwifimon_mutex s)
        (snd (ENTER_SYSCALL k (world s))))"])
      (simp add: syscall_locked_def sys_update Let_def)
next
  case False
  then show thesis
    by (intro skipped) (simp add: syscall_locked_def sys_update Let_def)
qed

section \<open>A recorder and its flag in the state word\<close>

text \<open>
  The two start calls and the two stop calls of the plugin are instances of one scheme over
  a recorder: start it and set its flag if that succeeded, stop it and clear its flag.
\<close>

locale flagged_recorder = recorder start stop recording
  for start :: "'s \<Rightarrow> int \<times> 's" and stop :: "'s \<Rightarrow> 's" and recording :: "'s \<Rightarrow> bool" +
  fixes state_of :: "'s \<Rightarrow> u32"
    and set_state :: "u32 \<Rightarrow> 's \<Rightarrow> 's"
    and flag :: u32
  assumes state_set: "state_of (set_state v s) = v"
    and recording_set: "recording (set_state v s) = recording s"
    and state_start: "state_of (snd (start s)) = state_of s"
    and state_stop: "state_of (stop s) = state_of s"
begin

definition start_body :: "'s \<Rightarrow> 's" where
  "start_body s =
     (let (ret, s) = start s in if ret = 0 then set_state (state_of s OR flag) s else s)"

definition stop_body :: "'s \<Rightarrow> 's" where
  "stop_body s = (let s = stop s in set_state (state_of s AND NOT flag) s)"

lemma state_start_body:
  "state_of (start_body s) =
     (if recording (start_body s) then state_of s OR flag else state_of s)"
  using start_recording [of s]
  by (auto simp: start_body_def Let_def case_prod_beta state_set recording_set state_start)

lemma started_flag: "recording (start_body s) \<Longrightarrow> state_of (start_body s) AND flag = flag"
  by (simp add: state_start_body bit.conj_disj_distrib2)

lemma stop_body_off: "\<not> recording (stop_body s)"
  using stop_recording by (simp add: stop_body_def Let_def recording_set)

lemma state_stop_body: "state_of (stop_body s) = state_of s AND NOT flag"
  by (simp add: stop_body_def Let_def state_set state_stop)

lemma stop_start_state: "state_of (stop_body (start_body s)) = state_of s AND NOT flag"
  by (auto simp: state_stop_body state_start_body bit.conj_disj_distrib2)

end

lemma pcap_close_frame [simp]:
  "kwifimon_state (pcap_close k s) = kwifimon_state s"
  "knet_fd (pcap_close k s) = knet_fd s" "knet_pkt (pcap_close k s) = knet_pkt s"
  "uids (pcap_close k s) = uids s" "hooks_uid (pcap_close k s) = hooks_uid s"
  "ref_hooks (pcap_close k s) = ref_hooks s"
  by (simp_all add: pcap_close_def sys_update)

lemma pcap_open_frame [simp]:
  "kwifimon_state (snd (pcap_open k f s)) = kwifimon_state s"
  "knet_fd (snd (pcap_open k f s)) = knet_fd s" "knet_pkt (snd (pcap_open k f s)) = knet_pkt s"
  "uids (snd (pcap_open k f s)) = uids s" "hooks_uid (snd (pcap_open k f s)) = hooks_uid s"
  "ref_hooks (snd (pcap_open k f s)) = ref_hooks s"
  by (simp_all add: pcap_open_def sys_update Let_def)

lemma knet_start_frame [simp]:
  "kwifimon_state (snd (knet_start k p s)) = kwifimon_state s"
  "pcap_fd (snd (knet_start k p s)) = pcap_fd s" "knet_pkt (snd (knet_start k p s)) = knet_pkt s"
  "uids (snd (knet_start k p s)) = uids s" "hooks_uid (snd (knet_start k p s)) = hooks_uid s"
  "ref_hooks (snd (knet_start k p s)) = ref_hooks s"
  by (simp_all add: knet_start_def sys_update Let_def)

lemma knet_stop_frame [simp]:
  "kwifimon_state (knet_stop k s) = kwifimon_state s"
  "pcap_fd (knet_stop k s) = pcap_fd s" "knet_pkt (knet_stop k s) = knet_pkt s"
  "uids (knet_stop k s) = uids s" "hooks_uid (knet_stop k s) = hooks_uid s"
  "ref_hooks (knet_stop k s) = ref_hooks s"
  by (simp_all add: knet_stop_def sys_update)

interpretation cap: flagged_recorder "pcap_open k path" "pcap_close k" "\<lambda>s. 0 \<le> pcap_fd s"
    kwifimon_state "\<lambda>v. kwifimon_state_update (\<lambda>_. v)" STATE_REC_FILE
  for k :: "'w kernel" and path :: string
  by unfold_locales simp_all

interpretation net: flagged_recorder "knet_start k port" "knet_stop k" "\<lambda>s. 0 \<le> knet_fd s"
    kwifimon_state "\<lambda>v. kwifimon_state_update (\<lambda>_. v)" STATE_REC_NET
  for k :: "'w kernel" and port :: u16
  by unfold_locales simp_all

lemma cap_start_body: "kwifimon_cap_start k = syscall_locked k (cap.start_body k ''ux0:/data/test.cap'')"
  unfolding kwifimon_cap_start_def
  by (rule arg_cong [where f = "syscall_locked k"]) (simp add: cap.start_body_def fun_eq_iff)

lemma cap_stop_body: "kwifimon_cap_stop k = syscall_locked k (cap.stop_body k)"
  unfolding kwifimon_cap_stop_def
  by (rule arg_cong [where f = "syscall_locked k"]) (simp add: cap.stop_body_def fun_eq_iff)

lemma net_start_body: "kwifimon_net_start k = syscall_locked k (net.start_body k KWIFIMON_NET_PORT)"
  unfolding kwifimon_net_start_def
  by (rule arg_cong [where f = "syscall_locked k"]) (simp add: net.start_body_def fun_eq_iff)

lemma net_stop_body: "kwifimon_net_stop k = syscall_locked k (net.stop_body k)"
  unfolding kwifimon_net_stop_def
  by (rule arg_cong [where f = "syscall_locked k"]) (simp add: net.stop_body_def fun_eq_iff)

lemmas syscall_bodies = cap_start_body cap_stop_body net_start_body net_stop_body

section \<open>The invariant\<close>

definition kinv :: "('w, 'm) kwifimon_globals_scheme \<Rightarrow> bool" where
  "kinv s \<longleftrightarrow> length (knet_pkt s) = knet_pkt_size \<and> uids s = replicate HOOKS_NUMBER 0 \<and>
     length (hooks_uid s) = HOOKS_NUMBER \<and> length (ref_hooks s) = HOOKS_NUMBER \<and>
     hooks_uid s ! 0 = 0 \<and> hooks_uid s ! 3 = 0 \<and> hooks_uid s ! 4 = 0 \<and>
     kwifimon_state s AND 0x7FFFFFFC = 0 \<and> (0 \<le> knet_fd s \<longrightarrow> bit (kwifimon_state s) 0)"

lemma kinv_core: "core s = core s' \<Longrightarrow> kinv s = kinv s'"
  by (simp add: core_def kinv_def)

lemma kinv_world [simp]: "kinv (s\<lparr>world := w\<rparr>) = kinv s"
  by (rule kinv_core) simp

lemma kinv_sys [simp]: "kinv (snd (sys f s)) = kinv s"
  by (rule kinv_core) simp

lemma state_or_mask: "(x::u32) AND m = 0 \<Longrightarrow> y AND m = 0 \<Longrightarrow> (x OR y) AND m = 0"
  by (simp add: bit.conj_disj_distrib2)

lemma state_and_mask: "(x::u32) AND m = 0 \<Longrightarrow> (x AND y) AND m = 0"
  by (simp add: bit_eq_iff bit_and_iff)

lemma kinv_state:
  assumes "kinv s" and "v AND 0x7FFFFFFC = 0" and "0 \<le> knet_fd s \<longrightarrow> bit v 0"
  shows "kinv (s\<lparr>kwifimon_state := v\<rparr>)"
  using assms by (simp add: kinv_def)

lemma kinv_cap_start: "kinv s \<Longrightarrow> kinv (cap.start_body k f s)"
  unfolding cap.start_body_def
  by (simp add: case_prod_beta kinv_def STATE_REC_FILE_def state_or_mask bit_or_iff)

lemma kinv_cap_stop: "kinv s \<Longrightarrow> kinv (cap.stop_body k s)"
  unfolding cap.stop_body_def
  by (simp add: kinv_def STATE_REC_FILE_def state_and_mask bit_and_iff bit_not_iff Let_def)

lemma kinv_net_start: "kinv s \<Longrightarrow> kinv (net.start_body k p s)"
  using knet_start_fd [of k p s] unfolding net.start_body_def
  by (simp add: case_prod_beta kinv_def STATE_REC_NET_def state_or_mask bit_or_iff)

lemma kinv_net_stop: "kinv s \<Longrightarrow> kinv (net.stop_body k s)"
  unfolding net.stop_body_def
  by (simp add: kinv_def STATE_REC_NET_def state_and_mask Let_def)

lemma kinv_syscall:
  assumes "kinv s" and "\<And>s. kinv s \<Longrightarrow> kinv (body s)"
  shows "kinv (snd (syscall_locked k body s))"
proof (cases rule: syscall_core_cases [of k body s])
  case skipped
  then show ?thesis
    using kinv_core assms(1) by blast
next
  case (ran w)
  have "kinv (body (s\<lparr>world := w\<rparr>))"
    by (rule assms(2)) (simp add: assms(1))
  with ran show ?thesis
    using kinv_core by blast
qed

lemma kinv_stats [simp]: "kinv (s\<lparr>kwifimon_stats := st\<rparr>) = kinv s"
  by (rule kinv_core) simp

lemma kinv_mod_stats: "kinv s \<Longrightarrow> kinv (snd (kwifimon_mod_stats k p reset s))"
  unfolding kwifimon_mod_stats_def
  by (rule kinv_syscall) (simp_all add: case_prod_beta)

lemma kinv_mod_state: "kinv s \<Longrightarrow> kinv (snd (kwifimon_mod_state k s))"
  by (simp add: kwifimon_mod_state_def case_prod_beta Let_def)

lemma kinv_step:
  assumes "kstep k s s'" and "kinv s"
  shows "kinv s'"
  using assms(1)
proof cases
  case (packet in_pkt n r)
  then show ?thesis
    using process_core kinv_core assms(2) by blast
next
  case (ioctl req buf n r buf')
  then show ?thesis
    using ioctl_core kinv_core assms(2) by blast
qed (simp_all add: syscall_bodies kinv_mod_stats kinv_mod_state kinv_syscall kinv_cap_start
    kinv_cap_stop kinv_net_start kinv_net_stop assms(2))

lemma resolve_core: "core (resolve_all k m os s) = core s"
  by (induction k m os s rule: resolve_all.induct) (simp_all add: core_def sys_update)

lemma kinv_install:
  assumes "kinv s" and "i = 1 \<or> i = 2"
  shows "kinv (install_hook k m i off fn s)"
  using assms by (auto simp: install_hook_def sys_update kinv_def case_prod_beta)

lemma kinv_initial: "kinv (initial_globals w)"
  by (simp add: kinv_def initial_globals_def HOOKS_NUMBER_def eval_nat_numeral)

lemma kinv_start: "kinv (module_start k (initial_globals w))"
proof -
  define s where "s = initial_globals w"
  have s: "kinv s" "knet_fd s = -1"
    by (simp_all add: s_def kinv_initial) (simp add: initial_globals_def)
  have mutex: "kinv (t\<lparr>kwifimon_mutex := m\<rparr>) = kinv t" for t :: "'a kwifimon_globals" and m
    by (rule kinv_core) (simp add: core_def)
  have fail: "kinv (t\<lparr>kwifimon_state := STATE_ERROR\<rparr>)" if "kinv t"
    for t :: "'a kwifimon_globals"
    using that by (intro kinv_state) (simp_all add: STATE_ERROR_def)
  have res: "kinv (resolve_all k m os t) = kinv t" for m os and t :: "'a kwifimon_globals"
    by (rule kinv_core) (rule resolve_core)
  show ?thesis
    unfolding s_def [symmetric] module_start_def
    by (simp add: case_prod_beta Let_def fail kinv_install res mutex s)
qed

lemma reachable_kinv: "reachable k s \<Longrightarrow> kinv s"
  by (induction rule: reachable.induct) (auto intro: kinv_start kinv_step)

section \<open>Locks\<close>

text \<open>A computation that leaves a lock count as it is.\<close>

lemma quiet_pcap_close: "quiet_laws k d \<Longrightarrow> d (world (pcap_close k s)) = d (world s)"
  by (simp add: pcap_close_def sys_update quiet_calls)

lemma quiet_pcap_open: "quiet_laws k d \<Longrightarrow> d (world (snd (pcap_open k f s))) = d (world s)"
  by (simp add: pcap_open_def sys_update quiet_calls quiet_pcap_close Let_def)

lemma quiet_knet_start: "quiet_laws k d \<Longrightarrow> d (world (snd (knet_start k p s))) = d (world s)"
  by (simp add: knet_start_def sys_update quiet_calls Let_def)

lemma quiet_knet_stop: "quiet_laws k d \<Longrightarrow> d (world (knet_stop k s)) = d (world s)"
  by (simp add: knet_stop_def sys_update quiet_calls)

lemma quiet_bodies:
  assumes "quiet_laws k d"
  shows "d (world (cap.start_body k f s)) = d (world s)"
    "d (world (cap.stop_body k s)) = d (world s)"
    "d (world (net.start_body k p s)) = d (world s)"
    "d (world (net.stop_body k s)) = d (world s)"
  unfolding cap.start_body_def cap.stop_body_def net.start_body_def net.stop_body_def
  by (simp_all add: case_prod_beta quiet_pcap_open quiet_pcap_close quiet_knet_start
      quiet_knet_stop Let_def assms)

lemma syscall_locks:
  assumes "locking k held wheld"
    and "\<And>s. held (world (body s)) = held (world s)"
    and "\<And>s. wheld (world (body s)) = wheld (world s)"
  shows "held (world (snd (syscall_locked k body s))) = held (world s) \<and>
    wheld (world (snd (syscall_locked k body s))) = wheld (world s)"
proof -
  note laws = locking_calls [OF assms(1)]
  show ?thesis
    by (simp add: syscall_locked_def sys_update Let_def assms(2,3) lock_calls [OF laws(3)]
        quiet_calls [OF laws(1)] quiet_calls [OF laws(2)])
qed

lemma count_locks:
  assumes "locking k held wheld"
  shows "held (world (count_locked k f s)) = held (world s) \<and>
    wheld (world (count_locked k f s)) = wheld (world s)"
  using locking_calls [OF assms]
  by (simp add: count_locked_def sys_update Let_def lock_calls)

lemma process_locks:
  assumes "locking k held wheld" and "kwifimon_process_respose k in_pkt n s = Some (r, s')"
  shows "held (world s') = held (world s) \<and> wheld (world s') = wheld (world s)"
proof -
  note quiet = quiet_calls [OF locking_calls(1) [OF assms(1)]]
    quiet_calls [OF locking_calls(2) [OF assms(1)]]
  show ?thesis
    using assms(2)
  proof (cases rule: process_cases)
    case (consumed f)
    then show ?thesis by (simp add: count_locks [OF assms(1)])
  next
    case (counted f)
    then show ?thesis
      using count_locks [OF assms(1), of f s] by (auto simp: sys_update quiet)
  next
    case forwarded
    then show ?thesis by (auto simp: sys_update quiet)
  qed
qed

lemma step_locks:
  assumes "locking k held wheld" and "kstep k s s'"
  shows "held (world s') = held (world s) \<and> wheld (world s') = wheld (world s)"
proof -
  note laws = locking_calls [OF assms(1)]
  note quiet = quiet_bodies [OF laws(1)] quiet_bodies [OF laws(2)]
    quiet_calls [OF laws(1)] quiet_calls [OF laws(2)]
  show ?thesis
    using assms(2)
  proof cases
    case mod_state
    then show ?thesis
      by (simp add: kwifimon_mod_state_def sys_update Let_def quiet)
  next
    case (mod_stats p reset)
    then show ?thesis
      unfolding kwifimon_mod_stats_def
      by (simp add: syscall_locks [OF assms(1)] case_prod_beta sys_update quiet)
  next
    case (packet in_pkt n r)
    then show ?thesis using process_locks [OF assms(1)] by blast
  next
    case (ioctl req buf n r buf')
    then show ?thesis using ioctl_locks [OF assms(1)] by blast
  qed (simp_all add: syscall_bodies syscall_locks [OF assms(1)] quiet)
qed

section \<open>Unloading\<close>

text \<open>The invariant pins down the hook tables, so the two release loops unroll.\<close>

lemma release_injects_none:
  "(\<And>i. i < n \<Longrightarrow> uids s ! i = 0) \<Longrightarrow> release_injects k n s = s"
  by (induction n) simp_all

lemma hooks_frame [simp]:
  "hooks_uid (snd (sys f s)) = hooks_uid s" "ref_hooks (snd (sys f s)) = ref_hooks s"
  "kwifimon_mutex (snd (sys f s)) = kwifimon_mutex s" "uids (snd (sys f s)) = uids s"
  by (simp_all add: sys_update)

lemma mutex_frame [simp]:
  "kwifimon_mutex (pcap_close k s) = kwifimon_mutex s"
  "kwifimon_mutex (knet_stop k s) = kwifimon_mutex s"
  by (simp_all add: pcap_close_def knet_stop_def sys_update)

definition release_slot ::
  "'w kernel \<Rightarrow> nat \<Rightarrow> ('w, 'm) kwifimon_globals_scheme \<Rightarrow> ('w, 'm) kwifimon_globals_scheme" where
  "release_slot k i s =
     (if hooks_uid s ! i \<noteq> 0
      then snd (sys (taiHookReleaseForKernel k (hooks_uid s ! i) (ref_hooks s ! i)) s) else s)"

lemma release_slot_frame [simp]:
  "hooks_uid (release_slot k i s) = hooks_uid s" "ref_hooks (release_slot k i s) = ref_hooks s"
  "kwifimon_mutex (release_slot k i s) = kwifimon_mutex s"
  by (simp_all add: release_slot_def)

lemma release_hooks_slots:
  assumes "hooks_uid s ! 0 = 0" "hooks_uid s ! 3 = 0" "hooks_uid s ! 4 = 0"
  shows "release_hooks k 5 s = release_slot k 1 (release_slot k 2 s)"
proof -
  have step: "release_hooks k (Suc i) t = release_hooks k i (release_slot k i t)" for i t
    by (simp add: release_slot_def)
  have "release_slot k 4 s = s" "release_slot k 3 s = s"
    by (simp_all add: release_slot_def assms)
  moreover have "release_slot k 0 (release_slot k (Suc 0) (release_slot k (Suc (Suc 0)) s)) =
      release_slot k (Suc 0) (release_slot k (Suc (Suc 0)) s)"
    by (simp add: release_slot_def [of k 0] assms)
  ultimately show ?thesis
    using step [of 4 s] step [of 3 s] step [of 2 s] step [of 1 "release_slot k 2 s"]
      step [of 0 "release_slot k 1 (release_slot k 2 s)"]
    by (simp add: eval_nat_numeral del: release_hooks.simps(2))
qed

section \<open>Properties\<close>

text \<open>C1: every entry point of the plugin is balanced in both locks. Whatever system call or
  hook runs, with whatever arguments, and whatever the kernel, the driver and the firmware
  answer, the plugin's mutex and the driver's lock are held afterwards as often as before.\<close>

theorem entry_points_balance_locks:
  assumes "locking k held wheld" and "kstep k s s'"
  shows "held (world s') = held (world s) \<and> wheld (world s') = wheld (world s)"
  by (rule step_locks [OF assms])

theorem entry_points_balance_locks_witness:
  "\<exists>s'. kstep demo_kernel (initial_globals demo_init) s' \<and> kwifimon_state s' = STATE_REC_FILE \<and>
     d_held (world s') = 0 \<and> d_wheld (world s') = 0"
proof -
  have step: "kstep demo_kernel (initial_globals demo_init)
      (snd (kwifimon_cap_start demo_kernel (initial_globals demo_init)))"
    by (rule kstep.cap_start)
  show ?thesis
  proof (intro exI conjI)
    show "kstep demo_kernel (initial_globals demo_init)
      (snd (kwifimon_cap_start demo_kernel (initial_globals demo_init)))"
      by (rule step)
    show "d_held (world (snd (kwifimon_cap_start demo_kernel (initial_globals demo_init)))) = 0"
      "d_wheld (world (snd (kwifimon_cap_start demo_kernel (initial_globals demo_init)))) = 0"
      using entry_points_balance_locks [OF demo_locking step]
      by (simp_all add: initial_globals_def demo_init_def)
    show "kwifimon_state (snd (kwifimon_cap_start demo_kernel (initial_globals demo_init))) =
        STATE_REC_FILE"
      by (simp add: kwifimon_cap_start_def syscall_locked_def sys_def Let_def pcap_open_def
          initial_globals_def demo_defs)
  qed
qed

text \<open>C28: what holds in every state the plugin can reach, under any interleaving of system
  calls, received packets, ioctl requests and activity elsewhere: the network packet buffer
  keeps its size, only the two installed hook slots can be non-empty, no unknown bit is set in
  the state word, and an open network socket always shows in its lowest bit.\<close>

theorem reachable_states_invariant:
  assumes "reachable k s"
  shows "length (knet_pkt s) = knet_pkt_size \<and> uids s = replicate HOOKS_NUMBER 0 \<and>
    (\<forall>i < HOOKS_NUMBER. hooks_uid s ! i \<noteq> 0 \<longrightarrow> i = 1 \<or> i = 2) \<and>
    kwifimon_state s AND 0x7FFFFFFC = 0 \<and>
    (0 \<le> knet_fd s \<longrightarrow> kwifimon_state s AND STATE_MONITOR = STATE_MONITOR)"
proof -
  have inv: "kinv s"
    using assms by (rule reachable_kinv)
  have "hooks_uid s ! i = 0" if "i < HOOKS_NUMBER" "i \<noteq> 1" "i \<noteq> 2" for i
  proof -
    have "i = 0 \<or> i = 3 \<or> i = 4"
      using that by (auto simp: HOOKS_NUMBER_def)
    with inv show ?thesis by (auto simp: kinv_def)
  qed
  moreover have "kwifimon_state s AND STATE_MONITOR = STATE_MONITOR" if "0 \<le> knet_fd s"
    using inv that by (simp add: kinv_def STATE_MONITOR_def and_one_eq mod2_eq_if bit_0)
  ultimately show ?thesis
    using inv by (auto simp: kinv_def)
qed

theorem reachable_states_invariant_witness:
  "\<exists>s. reachable demo_kernel s \<and> 0 \<le> knet_fd s \<and>
     kwifimon_state s AND STATE_MONITOR = STATE_MONITOR"
proof -
  define s0 where "s0 = module_start demo_kernel (initial_globals demo_init)"
  define s where "s = snd (kwifimon_net_start demo_kernel s0)"
  have "reachable demo_kernel s"
    unfolding s_def s0_def by (rule reachable.step [OF reachable.start kstep.net_start])
  moreover have "0 \<le> knet_fd s"
    unfolding s_def s0_def
    by (simp add: kwifimon_net_start_def syscall_locked_def sys_update Let_def knet_start_def
        module_start_def install_hook_def driver_offsets_def initial_globals_def demo_defs)
  ultimately show ?thesis
    using reachable_states_invariant [of demo_kernel s] by blast
qed

text \<open>What the start calls answer. When the mutex can be taken, starting a recorder sets its
  flag in the state word exactly when the recorder is running afterwards and leaves the state
  word alone otherwise, but the caller is not told: the call answers the result of releasing
  the mutex, which overwrites the result of opening the file or the socket.\<close>

theorem start_calls_mask_failure:
  assumes "\<forall>m w. 0 \<le> fst (ksceKernelLockMutex k m w)"
    and "\<forall>m w. fst (ksceKernelUnlockMutex k m w) = 0"
  shows "fst (kwifimon_cap_start k s) = 0 \<and> fst (kwifimon_net_start k s) = 0 \<and>
    kwifimon_state (snd (kwifimon_cap_start k s)) =
      (if 0 \<le> pcap_fd (snd (kwifimon_cap_start k s))
       then kwifimon_state s OR STATE_REC_FILE else kwifimon_state s) \<and>
    kwifimon_state (snd (kwifimon_net_start k s)) =
      (if 0 \<le> knet_fd (snd (kwifimon_net_start k s))
       then kwifimon_state s OR STATE_REC_NET else kwifimon_state s)"
  using assms
  by (simp add: syscall_bodies syscall_locked_def sys_update Let_def
      cap.state_start_body net.state_start_body)

text \<open>A kernel on which no file can be opened.\<close>

definition readonly_kernel :: "demo_world kernel" where
  "readonly_kernel = demo_kernel\<lparr>ksceIoOpen := \<lambda>_ w. (-1, w)\<rparr>"

theorem start_calls_mask_failure_witness:
  "fst (kwifimon_cap_start readonly_kernel (initial_globals demo_init)) = 0 \<and>
   pcap_fd (snd (kwifimon_cap_start readonly_kernel (initial_globals demo_init))) = -1 \<and>
   kwifimon_state (snd (kwifimon_cap_start readonly_kernel (initial_globals demo_init))) = 0"
proof -
  have fd: "pcap_fd (snd (kwifimon_cap_start readonly_kernel (initial_globals demo_init))) = -1"
    by (simp add: kwifimon_cap_start_def syscall_locked_def sys_update Let_def pcap_open_def
        initial_globals_def readonly_kernel_def)
  have state: "kwifimon_state (initial_globals demo_init) = 0"
    by (simp add: initial_globals_def)
  show ?thesis
    using start_calls_mask_failure [of readonly_kernel "initial_globals demo_init"] fd state
    by (simp add: readonly_kernel_def)
qed

text \<open>C31: the two recorder flags overlap, because the value of the network flag includes the bit
  of the file flag. Stopping the network recorder clears the file flag while the capture file
  stays open, and starting it sets the file flag whether or not a file is open.\<close>

theorem recorder_flags_overlap:
  assumes "\<forall>m w. 0 \<le> fst (ksceKernelLockMutex k m w)"
  shows "pcap_fd (snd (kwifimon_net_stop k s)) = pcap_fd s \<and>
    kwifimon_state (snd (kwifimon_net_stop k s)) AND STATE_REC_FILE = 0 \<and>
    pcap_fd (snd (kwifimon_net_start k s)) = pcap_fd s \<and>
    (0 \<le> knet_fd (snd (kwifimon_net_start k s)) \<longrightarrow>
       kwifimon_state (snd (kwifimon_net_start k s)) AND STATE_REC_FILE = STATE_REC_FILE)"
proof -
  have clear: "(v AND NOT STATE_REC_NET) AND STATE_REC_FILE = 0" for v
    by (simp add: state_defs and.assoc)
  have set: "(v OR STATE_REC_NET) AND STATE_REC_FILE = STATE_REC_FILE" for v
    by (simp add: state_defs bit.conj_disj_distrib2)
  have fds: "pcap_fd (net.stop_body k t) = pcap_fd t" "pcap_fd (net.start_body k p t) = pcap_fd t"
    for t :: "('a, 'b) kwifimon_globals_scheme" and p
    unfolding net.stop_body_def net.start_body_def by (simp_all add: case_prod_beta Let_def)
  show ?thesis
    using assms
    by (simp add: net_stop_body net_start_body syscall_locked_def sys_update Let_def fds
        net.state_stop_body net.state_start_body clear set)
qed

theorem recorder_flags_overlap_witness:
  "\<exists>s. reachable demo_kernel s \<and> 0 \<le> pcap_fd s \<and> kwifimon_state s AND STATE_REC_FILE = 0"
proof -
  define s0 where "s0 = module_start demo_kernel (initial_globals demo_init)"
  define s1 where "s1 = snd (kwifimon_cap_start demo_kernel s0)"
  define s2 where "s2 = snd (kwifimon_net_stop demo_kernel s1)"
  have "reachable demo_kernel s1"
    unfolding s1_def s0_def by (rule reachable.step [OF reachable.start kstep.cap_start])
  then have "reachable demo_kernel s2"
    unfolding s2_def by (rule reachable.step [OF _ kstep.net_stop])
  moreover have "0 \<le> pcap_fd s1"
    unfolding s1_def s0_def
    by (simp add: kwifimon_cap_start_def syscall_locked_def sys_update Let_def pcap_open_def
        module_start_def install_hook_def driver_offsets_def initial_globals_def demo_defs)
  ultimately show ?thesis
    using recorder_flags_overlap [of demo_kernel s1] unfolding s2_def by auto
qed

text \<open>C30: unloading. From every reachable state, unloading closes the capture file and the socket,
  clears the state word, releases the installed hooks in reverse order of installation, each
  with its own reference, skips the slots that were never used, and deletes the mutex last.\<close>

theorem module_stop_releases_hooks:
  assumes "reachable k s"
  shows "module_stop k s =
    (let s1 = (knet_stop k (pcap_close k s))\<lparr>kwifimon_state := 0\<rparr>;
         s2 = (if hooks_uid s ! 2 \<noteq> 0
               then snd (sys (taiHookReleaseForKernel k (hooks_uid s ! 2) (ref_hooks s ! 2)) s1)
               else s1);
         s3 = (if hooks_uid s ! 1 \<noteq> 0
               then snd (sys (taiHookReleaseForKernel k (hooks_uid s ! 1) (ref_hooks s ! 1)) s2)
               else s2)
     in snd (sys (ksceKernelDeleteMutex k (kwifimon_mutex s)) s3)) \<and>
    pcap_fd (module_stop k s) < 0 \<and> knet_fd (module_stop k s) < 0"
proof -
  have inv: "kinv s"
    using assms by (rule reachable_kinv)
  define s1 where "s1 = (knet_stop k (pcap_close k s))\<lparr>kwifimon_state := 0\<rparr>"
  have s1: "hooks_uid s1 = hooks_uid s" "ref_hooks s1 = ref_hooks s" "uids s1 = uids s"
    "kwifimon_mutex s1 = kwifimon_mutex s"
    by (simp_all add: s1_def)
  have fds: "pcap_fd s1 < 0" "knet_fd s1 < 0"
    by (simp_all add: s1_def pcap_fd_close)
  have "release_injects k HOOKS_NUMBER s1 = s1"
    by (rule release_injects_none) (use inv in \<open>simp add: s1 kinv_def\<close>)
  moreover have "release_hooks k HOOKS_NUMBER s1 = release_slot k 1 (release_slot k 2 s1)"
    unfolding HOOKS_NUMBER_def
    by (rule release_hooks_slots) (use inv in \<open>simp_all add: s1 kinv_def\<close>)
  ultimately have stop: "module_stop k s =
      snd (sys (ksceKernelDeleteMutex k (kwifimon_mutex s)) (release_slot k 1 (release_slot k 2 s1)))"
    by (simp add: module_stop_def Let_def s1 flip: s1_def)
  have "pcap_fd (release_slot k i t) = pcap_fd t" "knet_fd (release_slot k i t) = knet_fd t"
    for i and t :: "'a kwifimon_globals"
    by (simp_all add: release_slot_def)
  with fds show ?thesis
    by (simp add: stop release_slot_def s1 Let_def flip: s1_def)
qed

theorem module_stop_releases_hooks_witness:
  "d_released (world (module_stop demo_kernel
     (module_start demo_kernel (initial_globals demo_init)))) = [3, 4]"
  by (subst module_stop_releases_hooks [THEN conjunct1, OF reachable.start])
    (simp add: module_start_def install_hook_def driver_offsets_def initial_globals_def
      sys_update Let_def demo_defs pcap_close_def knet_stop_def HOOKS_NUMBER_def
      eval_nat_numeral)

end
