(* ===== verification/Kwifimon_Stats.thy ===== *)
theory Kwifimon_Stats
  imports Kwifimon
begin

text \<open>
  The packet counters of \<open>src/kplugin/kwifimon.c\<close>: an abstract classification of the packets
  the hook sees, the hook's behaviour on each class, and the conservation of the counters over
  every interleaving of packets and readers that reset them.
\<close>

section \<open>Classification\<close>

datatype rx_kind = Own_event | Mgmt | Amsdu | Bar | Data | Other

definition rx_kind :: "byte list \<Rightarrow> rx_kind" where
  "rx_kind p =
     (let pkt_type = ld16 (drop 2 p); rx_pkt_type = ld16 (drop 10 p)
      in if pkt_type = 3 \<and> ld16 p AND 0xfff = 0x123 then Own_event
         else if pkt_type = 0 \<or> pkt_type = 10 then
           (if rx_pkt_type = PKT_TYPE_MGMT then Mgmt
            else if rx_pkt_type = PKT_TYPE_AMSDU then Amsdu
            else if rx_pkt_type = PKT_TYPE_BAR then Bar else Data)
         else Other)"

text \<open>What one packet of a kind adds to the counters.\<close>

fun kind_stats :: "rx_kind \<Rightarrow> wifimon_stats_t" where
  "kind_stats Own_event = zero_stats\<lparr>evt_cnt := 1\<rparr>"
| "kind_stats Mgmt = zero_stats\<lparr>mgmt_cnt := 1\<rparr>"
| "kind_stats Amsdu = zero_stats\<lparr>amsdu_cnt := 1\<rparr>"
| "kind_stats Bar = zero_stats\<lparr>bar_cnt := 1\<rparr>"
| "kind_stats Data = zero_stats\<lparr>pkt_cnt := 1\<rparr>"
| "kind_stats Other = zero_stats"

definition stats_add :: "wifimon_stats_t \<Rightarrow> wifimon_stats_t \<Rightarrow> wifimon_stats_t" where
  "stats_add a b = \<lparr>pkt_cnt = pkt_cnt a + pkt_cnt b, mgmt_cnt = mgmt_cnt a + mgmt_cnt b,
     amsdu_cnt = amsdu_cnt a + amsdu_cnt b, bar_cnt = bar_cnt a + bar_cnt b,
     evt_cnt = evt_cnt a + evt_cnt b\<rparr>"

definition stats_sum :: "wifimon_stats_t list \<Rightarrow> wifimon_stats_t" where
  "stats_sum xs = foldr stats_add xs zero_stats"

lemma stats_add_zero [simp]: "stats_add zero_stats a = a" "stats_add a zero_stats = a"
  by (simp_all add: stats_add_def zero_stats_def)

lemma stats_add_assoc: "stats_add (stats_add a b) c = stats_add a (stats_add b c)"
  by (simp add: stats_add_def ac_simps)

lemma stats_add_commute: "stats_add a b = stats_add b a"
  by (simp add: stats_add_def ac_simps)

lemma stats_add_left_commute: "stats_add a (stats_add b c) = stats_add b (stats_add a c)"
  by (simp add: stats_add_def ac_simps)

lemmas stats_ac = stats_add_assoc stats_add_commute stats_add_left_commute

lemma stats_sum_simps [simp]:
  "stats_sum [] = zero_stats" "stats_sum (x # xs) = stats_add x (stats_sum xs)"
  by (simp_all add: stats_sum_def)

section \<open>The hook on each kind\<close>

lemma ld16_take [simp]: "2 \<le> n \<Longrightarrow> ld16 (take n bs) = ld16 bs"
  by (cases bs rule: ld16.cases) (auto simp: numeral_2_eq_2 Suc_le_eq gr0_conv_Suc take_Cons
      split: nat.splits)

lemma count_rx_kind:
  assumes "ld16 (drop 2 p) = 0 \<or> ld16 (drop 2 p) = 10"
  shows "count_rx (ld16 (drop 10 p)) = stats_add (kind_stats (rx_kind p))"
  using assms
  by (auto simp: fun_eq_iff rx_kind_def count_rx_def stats_add_def zero_stats_def pkt_type_defs
      Let_def)

definition process_spec ::
  "'w kernel \<Rightarrow> byte list \<Rightarrow> int \<Rightarrow> ('w, 'm) kwifimon_globals_scheme \<Rightarrow>
     int \<times> ('w, 'm) kwifimon_globals_scheme" where
  "process_spec k p n s =
     (let s1 = (if rx_kind p = Other then s
                else count_locked k (stats_add (kind_stats (rx_kind p))) s)
      in if rx_kind p = Own_event \<or> rx_kind p = Mgmt then (0, s1)
         else sys (orig_process_response k p n) s1)"

lemma evt_inc: "(\<lambda>st. st\<lparr>evt_cnt := evt_cnt st + 1\<rparr>) = stats_add (kind_stats Own_event)"
  by (simp add: fun_eq_iff stats_add_def zero_stats_def add.commute)

lemma process_respose_spec:
  assumes "12 \<le> length p"
  shows "kwifimon_process_respose k p n s = Some (process_spec k p n s)"
proof -
  consider (own) "ld16 (drop 2 p) = 3" "ld16 p AND 0xfff = 0x123"
    | (data) "ld16 (drop 2 p) = 0 \<or> ld16 (drop 2 p) = 10"
    | (other) "\<not> (ld16 (drop 2 p) = 3 \<and> ld16 p AND 0xfff = 0x123)"
        "ld16 (drop 2 p) \<noteq> 0" "ld16 (drop 2 p) \<noteq> 10"
    by blast
  then show ?thesis
  proof cases
    case own
    then have "rx_kind p = Own_event"
      by (simp add: rx_kind_def)
    with own assms show ?thesis
      by (simp add: kwifimon_process_respose_def load_def process_spec_def evt_inc)
  next
    case data
    have "rx_kind p \<noteq> Own_event" "rx_kind p \<noteq> Other"
      "ld16 (drop 10 p) = PKT_TYPE_MGMT \<longleftrightarrow> rx_kind p = Mgmt"
      using data by (auto simp: rx_kind_def Let_def pkt_type_defs)
    with data assms count_rx_kind [OF data] show ?thesis
      by (cases "rx_kind p = Mgmt")
        (auto simp: kwifimon_process_respose_def load_def process_spec_def)
  next
    case other
    then have "rx_kind p = Other"
      by (auto simp: rx_kind_def Let_def)
    with other assms show ?thesis
      by (auto simp: kwifimon_process_respose_def load_def process_spec_def Let_def)
  qed
qed

section \<open>Interleavings of packets and readers\<close>

datatype event = Packet "byte list" int | Read_stats u32 int

text \<open>
  What becomes of the counters at an event. A packet is counted, or missed if the mutex cannot be taken. A reader
  that resets gets the counters if the copy succeeds, which is judged by the result of the copy and by what is in
  the reader's memory (\<open>user ptr\<close>) in the end; if the copy fails they are lost.
\<close>

datatype ledger_entry =
  Counted wifimon_stats_t | Missed wifimon_stats_t | Handed wifimon_stats_t | Lost wifimon_stats_t | Unchanged

definition taken :: "'w kernel \<Rightarrow> int \<Rightarrow> 'w \<Rightarrow> bool" where
  "taken k mutex w \<longleftrightarrow> 0 \<le> fst (ksceKernelLockMutex k mutex w)"

definition packet_outcome :: "'w kernel \<Rightarrow> byte list \<Rightarrow> 'w kwifimon_globals \<Rightarrow> ledger_entry" where
  "packet_outcome k p s =
     (if rx_kind p = Other then Unchanged
      else if taken k (kwifimon_mutex s) (world s) then Counted (kind_stats (rx_kind p))
      else Missed (kind_stats (rx_kind p)))"

definition reader_outcome ::
  "'w kernel \<Rightarrow> (u32 \<Rightarrow> 'w \<Rightarrow> byte list) \<Rightarrow> u32 \<Rightarrow> 'w kwifimon_globals \<Rightarrow> 'w kwifimon_globals \<Rightarrow> ledger_entry" where
  "reader_outcome k user ptr s s' =
     (let w = snd (ENTER_SYSCALL k (world s)); w' = snd (ksceKernelLockMutex k (kwifimon_mutex s) w)
      in if \<not> taken k (kwifimon_mutex s) w then Unchanged
         else if 0 \<le> fst (ksceKernelMemcpyKernelToUser k ptr (stats_bytes (kwifimon_stats s)) w')
           then Handed (stats_of (user ptr (world s')))
         else Lost (kwifimon_stats s))"

text \<open>Running a sequence of events.\<close>

fun run_events ::
  "'w kernel \<Rightarrow> (u32 \<Rightarrow> 'w \<Rightarrow> byte list) \<Rightarrow> event list \<Rightarrow> 'w kwifimon_globals \<Rightarrow>
     (ledger_entry list \<times> 'w kwifimon_globals) option" where
  "run_events k user [] s = Some ([], s)"
| "run_events k user (Packet p n # es) s = do {
     (_, s') \<leftarrow> kwifimon_process_respose k p n s;
     (os, s'') \<leftarrow> run_events k user es s';
     Some (packet_outcome k p s # os, s'')
   }"
| "run_events k user (Read_stats ptr reset # es) s = do {
     let (_, s') = kwifimon_mod_stats k ptr reset s;
     (os, s'') \<leftarrow> run_events k user es s';
     Some ((if reset = 0 then Unchanged else reader_outcome k user ptr s s') # os, s'')
   }"

fun event_stats :: "event \<Rightarrow> wifimon_stats_t" where
  "event_stats (Packet p _) = kind_stats (rx_kind p)"
| "event_stats (Read_stats _ _) = zero_stats"

fun event_ok :: "event \<Rightarrow> bool" where
  "event_ok (Packet p _) \<longleftrightarrow> 12 \<le> length p"
| "event_ok (Read_stats _ _) \<longleftrightarrow> True"

text \<open>What came into the counters and what went out of them.\<close>

fun stats_in :: "ledger_entry \<Rightarrow> wifimon_stats_t" where
  "stats_in (Counted st) = st" | "stats_in _ = zero_stats"

fun stats_out :: "ledger_entry \<Rightarrow> wifimon_stats_t" where
  "stats_out (Handed st) = st" | "stats_out (Lost st) = st" | "stats_out _ = zero_stats"

text \<open>A copy that succeeds stays in the reader's memory until the call returns.\<close>

definition reader_laws :: "'w kernel \<Rightarrow> (u32 \<Rightarrow> 'w \<Rightarrow> byte list) \<Rightarrow> bool" where
  "reader_laws k user \<longleftrightarrow>
     (\<forall>p bs w r w'. ksceKernelMemcpyKernelToUser k p bs w = (r, w') \<longrightarrow> 0 \<le> r \<longrightarrow> user p w' = bs) \<and>
     (\<forall>p m w. user p (snd (ksceKernelUnlockMutex k m w)) = user p w) \<and>
     (\<forall>p st w. user p (EXIT_SYSCALL k st w) = user p w)"

lemma count_locked_stats:
  "kwifimon_stats (count_locked k f s) =
     (if taken k (kwifimon_mutex s) (world s) then f (kwifimon_stats s) else kwifimon_stats s)"
  by (simp add: count_locked_def sys_update Let_def taken_def)

lemma process_spec_stats:
  "kwifimon_stats (snd (process_spec k p n s)) =
     stats_add (stats_in (packet_outcome k p s)) (kwifimon_stats s)"
  using count_locked_stats [of k "stats_add (kind_stats (rx_kind p))" s]
  by (auto simp: process_spec_def Let_def sys_update packet_outcome_def)

lemma mod_stats_outcome:
  assumes "reader_laws k user" and "kwifimon_mod_stats k ptr reset s = (r, s')"
  shows "stats_add (stats_out (if reset = 0 then Unchanged else reader_outcome k user ptr s s')) (kwifimon_stats s') =
    kwifimon_stats s"
proof -
  let ?w = "snd (ENTER_SYSCALL k (world s))" and ?bs = "stats_bytes (kwifimon_stats s)"
  let ?w' = "snd (ksceKernelLockMutex k (kwifimon_mutex s) ?w)"
  have copied: "user ptr (world s') = ?bs"
    if "taken k (kwifimon_mutex s) ?w" and "0 \<le> fst (ksceKernelMemcpyKernelToUser k ptr ?bs ?w')"
  proof -
    have "user ptr (snd (ksceKernelMemcpyKernelToUser k ptr ?bs ?w')) = ?bs"
      using assms(1) that(2) unfolding reader_laws_def by (metis prod.collapse)
    then show ?thesis
      using assms that(1)
      by (auto simp: kwifimon_mod_stats_def syscall_locked_def sys_update Let_def reader_laws_def taken_def)
  qed
  show ?thesis
    using assms(2) copied stats.dec_enc [of "kwifimon_stats s" "[]"]
    by (auto simp: kwifimon_mod_stats_def syscall_locked_def sys_update Let_def taken_def reader_outcome_def)
qed

lemma run_events_conserve:
  assumes "reader_laws k user" and "\<forall>e \<in> set es. event_ok e"
  shows "\<exists>os s'. run_events k user es s = Some (os, s') \<and> length os = length es \<and>
    stats_add (stats_sum (map stats_out os)) (kwifimon_stats s') =
      stats_add (kwifimon_stats s) (stats_sum (map stats_in os)) \<and>
    ((\<forall>m w. taken k m w) \<longrightarrow> map stats_in os = map event_stats es)"
  using assms(2)
proof (induction es arbitrary: s)
  case Nil
  then show ?case by simp
next
  case (Cons e es)
  show ?case
  proof (cases e)
    case (Packet p n)
    define s1 where "s1 = snd (process_spec k p n s)"
    have p: "kwifimon_process_respose k p n s = Some (process_spec k p n s)"
      using Cons.prems Packet by (intro process_respose_spec) simp
    have out: "stats_out (packet_outcome k p s) = zero_stats"
      by (simp add: packet_outcome_def)
    have "(\<forall>m w. taken k m w) \<longrightarrow> stats_in (packet_outcome k p s) = kind_stats (rx_kind p)"
      by (simp add: packet_outcome_def)
    have st: "kwifimon_stats s1 = stats_add (stats_in (packet_outcome k p s)) (kwifimon_stats s)"
      unfolding s1_def by (rule process_spec_stats)
    obtain os s' where "run_events k user es s1 = Some (os, s')" "length os = length es"
      "stats_add (stats_sum (map stats_out os)) (kwifimon_stats s') =
        stats_add (kwifimon_stats s1) (stats_sum (map stats_in os))"
      "(\<forall>m w. taken k m w) \<longrightarrow> map stats_in os = map event_stats es"
      using Cons.IH [of s1] Cons.prems by auto
    then show ?thesis
      using \<open>(\<forall>m w. taken k m w) \<longrightarrow> stats_in (packet_outcome k p s) = kind_stats (rx_kind p)\<close>
      by (auto simp: Packet p case_prod_beta st out stats_ac simp flip: s1_def)
  next
    case (Read_stats ptr reset)
    obtain r s1 where r: "kwifimon_mod_stats k ptr reset s = (r, s1)" by fastforce
    let ?o = "if reset = 0 then Unchanged else reader_outcome k user ptr s s1"
    have st: "kwifimon_stats s = stats_add (stats_out ?o) (kwifimon_stats s1)" and "stats_in ?o = zero_stats"
      using mod_stats_outcome [OF assms(1) r] by (simp_all add: reader_outcome_def Let_def)
    moreover obtain os s' where "run_events k user es s1 = Some (os, s')" "length os = length es"
      "stats_add (stats_sum (map stats_out os)) (kwifimon_stats s') =
        stats_add (kwifimon_stats s1) (stats_sum (map stats_in os))"
      "(\<forall>m w. taken k m w) \<longrightarrow> map stats_in os = map event_stats es"
      using Cons.IH [of s1] Cons.prems by auto
    ultimately show ?thesis
      by (intro exI [of _ "?o # os"] exI [of _ s']) (simp add: Read_stats r stats_add_assoc del: if_split)
  qed
qed

section \<open>Properties\<close>

text \<open>C29: the packet hook. For every packet of at least twelve bytes the hook stays inside the
  packet, counts it in exactly the counter of its kind, consumes firmware events of its own
  kind and management frames (answering 0), and hands every other packet unchanged to the
  driver's own handler, whose answer it returns.\<close>

theorem process_respose_behaviour:
  assumes "12 \<le> length p"
  shows "kwifimon_process_respose k p n s =
    Some (let s1 = (if rx_kind p = Other then s
                    else count_locked k (stats_add (kind_stats (rx_kind p))) s)
          in if rx_kind p = Own_event \<or> rx_kind p = Mgmt then (0, s1)
             else sys (orig_process_response k p n) s1)"
  by (simp only: process_respose_spec [OF assms] process_spec_def)

theorem process_respose_behaviour_witness:
  "\<exists>s'. kwifimon_process_respose demo_kernel [0, 0, 0, 0, 0, 0, 20, 0, 0, 0, 0xE5, 0] 12
     (initial_globals demo_init) = Some (0, s') \<and> mgmt_cnt (kwifimon_stats s') = 1"
proof -
  have "rx_kind [0, 0, 0, 0, 0, 0, 20, 0, 0, 0, 0xE5, 0] = Mgmt"
    by (simp add: rx_kind_def pkt_type_defs)
  then show ?thesis
    by (subst process_respose_behaviour)
      (simp_all add: count_locked_def sys_update Let_def stats_add_def initial_globals_def
        zero_stats_def)
qed

text \<open>C2: every packet is accounted for. Over every interleaving of received packets and readers, some of
  which reset the counters: what the resetting readers were handed, plus what was lost because the copy to a reader
  failed, plus what the counters still hold is what the counters held at first plus one for each packet that
  was counted, in the counter of its kind (all modulo \<open>2^32\<close>, the width of a counter). If the mutex can always be taken, every
  packet is counted. The counters are cleared after a copy that failed just the same:
  its result is ignored.\<close>

theorem stats_conserved:
  assumes "reader_laws k user" and "\<forall>e \<in> set es. event_ok e"
  shows "\<exists>os s'. run_events k user es s = Some (os, s') \<and> length os = length es \<and>
    stats_add (stats_sum (map stats_out os)) (kwifimon_stats s') =
      stats_add (kwifimon_stats s) (stats_sum (map stats_in os)) \<and>
    ((\<forall>m w. taken k m w) \<longrightarrow> map stats_in os = map event_stats es)"
  by (rule run_events_conserve [OF assms])

text \<open>A kernel that cannot copy to address 0, and a packet of each of three kinds. The reader with the null
  pointer loses the first.\<close>

definition careful_kernel :: "demo_world kernel" where
  "careful_kernel = demo_kernel\<lparr>ksceKernelMemcpyKernelToUser :=
     (\<lambda>p bs w. if p = 0 then (-14, w) else (0, w\<lparr>d_user := bs\<rparr>))\<rparr>"

definition three_packets :: "event list" where
  "three_packets = [Packet [0, 0, 0, 0, 0, 0, 0, 0, 0, 0, 0xE5, 0] 12, Read_stats 0 1,
     Packet [0, 0, 10, 0, 0, 0, 0, 0, 0, 0, 1, 0] 12, Packet [0x23, 1, 3, 0, 0, 0, 0, 0, 0, 0, 0, 0] 12, Read_stats 1 1]"

theorem stats_conserved_witness:
  "\<exists>s'. run_events careful_kernel (\<lambda>_. d_user) three_packets (initial_globals demo_init) =
      Some ([Counted (kind_stats Mgmt), Lost (kind_stats Mgmt), Counted (kind_stats Data), Counted (kind_stats Own_event),
        Handed (zero_stats\<lparr>pkt_cnt := 1, evt_cnt := 1\<rparr>)], s') \<and> kwifimon_stats s' = zero_stats"
proof -
  have laws: "reader_laws careful_kernel (\<lambda>_. d_user)"
    by (simp add: reader_laws_def careful_kernel_def)
  have ok: "\<forall>e \<in> set three_packets. event_ok e"
    by (simp add: three_packets_def)
  obtain os s' where run: "run_events careful_kernel (\<lambda>_. d_user) three_packets (initial_globals demo_init) = Some (os, s')"
    and sum: "stats_add (stats_sum (map stats_out os)) (kwifimon_stats s') =
      stats_add (kwifimon_stats (initial_globals demo_init)) (stats_sum (map stats_in os))"
    using stats_conserved [OF laws ok, of "initial_globals demo_init"] by blast
  have kinds: "rx_kind [0, 0, 0, 0, 0, 0, 0, 0, 0, 0, 0xE5, 0] = Mgmt"
    "rx_kind [0, 0, 10, 0, 0, 0, 0, 0, 0, 0, 1, 0] = Data"
    "rx_kind [0x23, 1, 3, 0, 0, 0, 0, 0, 0, 0, 0, 0] = Own_event"
    by (simp_all add: rx_kind_def pkt_type_defs)
  have "map_option fst (run_events careful_kernel (\<lambda>_. d_user) three_packets (initial_globals demo_init)) =
    Some [Counted (kind_stats Mgmt), Lost (kind_stats Mgmt), Counted (kind_stats Data), Counted (kind_stats Own_event),
        Handed (zero_stats\<lparr>pkt_cnt := 1, evt_cnt := 1\<rparr>)]"
    by (simp add: three_packets_def process_respose_spec process_spec_def kinds packet_outcome_def reader_outcome_def
        taken_def kwifimon_mod_stats_def syscall_locked_def count_locked_def sys_update Let_def careful_kernel_def
        initial_globals_def stats_add_def zero_stats_def stats.dec_enc [of _ "[]", simplified])
  then have os: "os = [Counted (kind_stats Mgmt), Lost (kind_stats Mgmt), Counted (kind_stats Data),
      Counted (kind_stats Own_event), Handed (zero_stats\<lparr>pkt_cnt := 1, evt_cnt := 1\<rparr>)]"
    using run by simp
  have "kwifimon_stats s' = zero_stats"
    using sum unfolding os by (cases "kwifimon_stats s'") (simp add: initial_globals_def stats_add_def zero_stats_def)
  with run os show ?thesis
    by simp
qed

end
