(* ===== verification/Radiotap.thy ===== *)
theory Radiotap
  imports C_Layout
begin

text \<open>
  The radiotap headers of \<open>src/common/radiotap.h\<close> and \<open>src/common/ieee80211_radiotap.h\<close>: the
  presence bits the capture headers announce, and a reader of the radiotap format, which
  places the fields by the presence bits, each aligned to its natural boundary.
\<close>

section \<open>Presence bits\<close>

definition IEEE80211_RADIOTAP_FLAGS :: nat where "IEEE80211_RADIOTAP_FLAGS = 1"
definition IEEE80211_RADIOTAP_RATE :: nat where "IEEE80211_RADIOTAP_RATE = 2"
definition IEEE80211_RADIOTAP_CHANNEL :: nat where "IEEE80211_RADIOTAP_CHANNEL = 3"
definition IEEE80211_RADIOTAP_DBM_TX_POWER :: nat where "IEEE80211_RADIOTAP_DBM_TX_POWER = 10"
definition IEEE80211_RADIOTAP_DB_ANTSIGNAL :: nat where "IEEE80211_RADIOTAP_DB_ANTSIGNAL = 12"
definition IEEE80211_RADIOTAP_DB_ANTNOISE :: nat where "IEEE80211_RADIOTAP_DB_ANTNOISE = 13"
definition IEEE80211_RADIOTAP_RTS_RETRIES :: nat where "IEEE80211_RADIOTAP_RTS_RETRIES = 16"
definition IEEE80211_RADIOTAP_DATA_RETRIES :: nat where "IEEE80211_RADIOTAP_DATA_RETRIES = 17"
definition IEEE80211_RADIOTAP_MCS :: nat where "IEEE80211_RADIOTAP_MCS = 19"

lemmas presence_defs = IEEE80211_RADIOTAP_FLAGS_def IEEE80211_RADIOTAP_RATE_def
  IEEE80211_RADIOTAP_CHANNEL_def IEEE80211_RADIOTAP_DBM_TX_POWER_def
  IEEE80211_RADIOTAP_DB_ANTSIGNAL_def IEEE80211_RADIOTAP_DB_ANTNOISE_def
  IEEE80211_RADIOTAP_RTS_RETRIES_def IEEE80211_RADIOTAP_DATA_RETRIES_def
  IEEE80211_RADIOTAP_MCS_def

definition TX_RADIOTAP_PRESENT :: u32 where
  "TX_RADIOTAP_PRESENT =
     push_bit IEEE80211_RADIOTAP_RATE 1 OR push_bit IEEE80211_RADIOTAP_DBM_TX_POWER 1 OR
     push_bit IEEE80211_RADIOTAP_RTS_RETRIES 1 OR push_bit IEEE80211_RADIOTAP_DATA_RETRIES 1 OR 0"

definition RX_RADIOTAP_PRESENT :: u32 where
  "RX_RADIOTAP_PRESENT =
     push_bit IEEE80211_RADIOTAP_FLAGS 1 OR push_bit IEEE80211_RADIOTAP_RATE 1 OR
     push_bit IEEE80211_RADIOTAP_CHANNEL 1 OR push_bit IEEE80211_RADIOTAP_DB_ANTSIGNAL 1 OR
     push_bit IEEE80211_RADIOTAP_DB_ANTNOISE 1 OR push_bit IEEE80211_RADIOTAP_MCS 1 OR 0"

section \<open>A reader of the format\<close>

text \<open>
  Alignment and size of the field of each presence bit, from the radiotap standard; a reader
  walks the bits upwards from the end of the base header.
\<close>

definition radiotap_sizes :: "(nat \<times> nat) list" where
  "radiotap_sizes = [(8, 8), (1, 1), (1, 1), (2, 4), (2, 2), (1, 1), (1, 1), (2, 2), (2, 2),
     (2, 2), (1, 1), (1, 1), (1, 1), (1, 1), (2, 2), (2, 2), (1, 1), (1, 1), (4, 8), (1, 3)]"

fun place_fields :: "(nat \<times> nat) list \<Rightarrow> nat \<Rightarrow> u32 \<Rightarrow> nat \<Rightarrow> (nat \<times> nat) list" where
  "place_fields [] i present off = [(i, off)]"
| "place_fields ((align, sz) # rest) i present off =
     (if bit present i
      then (let off = align * ((off + align - 1) div align)
            in (i, off) # place_fields rest (Suc i) present (off + sz))
      else place_fields rest (Suc i) present off)"

definition radiotap_fields :: "u32 \<Rightarrow> (nat \<times> nat) list" where
  "radiotap_fields present = place_fields radiotap_sizes 0 present (sizeof ieee80211_radiotap_header_fields)"

text \<open>
  The capture headers are well-formed radiotap headers. Reading the fields that the
  presence constants announce by the rules of the format, each one is found exactly at the
  offset of the field of the packed struct that carries it, and the last one ends where the
  struct ends.
\<close>

theorem radiotap_headers_match:
  "radiotap_fields RX_RADIOTAP_PRESENT =
     [(IEEE80211_RADIOTAP_FLAGS, the (offset_of rx_radiotap_hdr_fields ''flags'')),
      (IEEE80211_RADIOTAP_RATE, the (offset_of rx_radiotap_hdr_fields ''rate'')),
      (IEEE80211_RADIOTAP_CHANNEL, the (offset_of rx_radiotap_hdr_fields ''ch_freq'')),
      (IEEE80211_RADIOTAP_DB_ANTSIGNAL, the (offset_of rx_radiotap_hdr_fields ''antsignal'')),
      (IEEE80211_RADIOTAP_DB_ANTNOISE, the (offset_of rx_radiotap_hdr_fields ''antnoise'')),
      (IEEE80211_RADIOTAP_MCS, the (offset_of rx_radiotap_hdr_fields ''mcs_known'')),
      (20, sizeof rx_radiotap_hdr_fields)] \<and>
   radiotap_fields TX_RADIOTAP_PRESENT =
     [(IEEE80211_RADIOTAP_RATE, the (offset_of tx_radiotap_hdr_fields ''rate'')),
      (IEEE80211_RADIOTAP_DBM_TX_POWER, the (offset_of tx_radiotap_hdr_fields ''txpower'')),
      (IEEE80211_RADIOTAP_RTS_RETRIES, the (offset_of tx_radiotap_hdr_fields ''rts_retries'')),
      (IEEE80211_RADIOTAP_DATA_RETRIES, the (offset_of tx_radiotap_hdr_fields ''data_retries'')),
      (20, sizeof tx_radiotap_hdr_fields)]"
  by code_simp

end
