(* ===== verification/Crc.thy ===== *)
theory Crc
  imports Wifi_Prelude
begin

text \<open>
  The checksum of the firmware image tool, \<open>dump/bin2elf.c\<close> and \<open>doc/re/bin2elf.c\<close>: a CRC-32
  with the polynomial 0x04C11DB7, most significant bit first, computed with a table of 256
  remainders. Its reference is the division bit by bit; from it follow what a checksum at the
  end of a message does and which corruptions it finds.
\<close>

section \<open>The code\<close>

definition POLYNOMIAL :: u32 where
  "POLYNOMIAL = 0x04C11DB7"

text \<open>One bit of the inner loop of \<open>init_crc\<close>.\<close>

definition crc_bit :: "u32 \<Rightarrow> u32" where
  "crc_bit remainder =
     (if remainder AND 0x80000000 \<noteq> 0 then push_bit 1 remainder XOR POLYNOMIAL
      else push_bit 1 remainder)"

text \<open>\<open>init_crc\<close>: the table entry of a dividend is the remainder after eight bits.\<close>

definition crctable :: "u32 list" where
  "crctable = map (\<lambda>dividend. (crc_bit ^^ 8) (push_bit 24 (of_nat dividend))) [0..<256]"

fun do_crc :: "u32 \<Rightarrow> byte list \<Rightarrow> u32" where
  "do_crc remainder [] = remainder"
| "do_crc remainder (p # ps) =
     (let data = p XOR ucast (drop_bit 24 remainder)
      in do_crc ((crctable ! unat data) XOR push_bit 8 remainder) ps)"

section \<open>Division bit by bit\<close>

text \<open>The reference: each byte is added to the top of the remainder, which is reduced eight times.\<close>

definition crc_byte :: "u32 \<Rightarrow> byte \<Rightarrow> u32" where
  "crc_byte r b = (crc_bit ^^ 8) (r XOR push_bit 24 (ucast b))"

lemma crc_bit_eq: "crc_bit r = push_bit 1 r XOR (if bit r 31 then POLYNOMIAL else 0)"
proof -
  have "r AND 0x80000000 \<noteq> 0 \<longleftrightarrow> bit r 31"
    using and_push_bit_one_zero_iff [of r 31] by (simp add: push_bit_of_1)
  then show ?thesis by (simp only: crc_bit_def if_True if_False xor.right_neutral split: if_split) simp
qed

lemma bit_double: "bit (a * 2 :: u32) i \<longleftrightarrow> i \<noteq> 0 \<and> i < 32 \<and> bit a (i - 1)"
  using bit_push_bit_iff [of 1 a i] by (auto simp: bit_imp_le_length dest: bit_imp_le_length)

lemma crc_bit_xor: "crc_bit (a XOR b) = crc_bit a XOR crc_bit b"
  by (auto simp: crc_bit_eq bit_xor_iff push_bit_xor ac_simps)

lemma crc_bit_0 [simp]: "crc_bit 0 = 0"
  by (simp add: crc_bit_eq)

lemma crc_bits_xor: "(crc_bit ^^ n) (a XOR b) = (crc_bit ^^ n) a XOR (crc_bit ^^ n) b"
  by (induction n) (simp_all add: crc_bit_xor)

lemma crc_bits_0 [simp]: "(crc_bit ^^ n) 0 = 0"
  by (induction n) simp_all

lemma crc_bits_low:
  assumes "\<And>i. 32 - n \<le> i \<Longrightarrow> \<not> bit a i" and "n \<le> 32"
  shows "(crc_bit ^^ n) a = push_bit n a"
  using assms
proof (induction n arbitrary: a)
  case (Suc n)
  have "\<not> bit a 31"
    using Suc.prems by simp
  then have "crc_bit a = push_bit 1 a"
    by (simp add: crc_bit_eq)
  moreover have "(crc_bit ^^ n) (push_bit 1 a) = push_bit n (push_bit 1 a)"
    using Suc.prems by (intro Suc.IH) (auto simp: bit_double)
  ultimately show ?case
    by (simp add: funpow_Suc_right push_bit_push_bit add.commute del: funpow.simps)
qed simp

lemma crc_bit_zero_iff: "crc_bit a = 0 \<longleftrightarrow> a = 0"
proof
  assume z: "crc_bit a = 0"
  have "bit (crc_bit a) 0 = bit a 31"
    by (simp add: crc_bit_eq bit_xor_iff bit_double POLYNOMIAL_def)
  with z have top: "\<not> bit a 31" by simp
  with z have push: "push_bit 1 a = 0"
    by (simp add: crc_bit_eq)
  show "a = 0"
  proof (rule bit_word_eqI)
    fix i assume i: "i < LENGTH(32)"
    show "bit a i = bit (0::u32) i"
    proof (cases "i = 31")
      case True
      with top show ?thesis by simp
    next
      case False
      have "bit (push_bit 1 a) (Suc i) = bit (0::u32) (Suc i)"
        by (simp only: push)
      with False i show ?thesis
        by (simp add: bit_double)
    qed
  qed
qed simp

lemma crc_bits_zero_iff: "(crc_bit ^^ n) a = 0 \<longleftrightarrow> a = 0"
  by (induction n) (simp_all add: crc_bit_zero_iff)

text \<open>The table-driven step is the bitwise one.\<close>

lemma table_step: "(crctable ! unat (b XOR ucast (drop_bit 24 r))) XOR push_bit 8 r = crc_byte r b"
proof -
  define d where "d = b XOR ucast (drop_bit 24 r)"
  have table: "crctable ! unat d = (crc_bit ^^ 8) (push_bit 24 (ucast d))"
    using unat_u8_less [of d] by (simp add: crctable_def del: funpow.simps)
  have split: "r XOR push_bit 24 (ucast b) = push_bit 24 (ucast d) XOR take_bit 24 r"
    unfolding d_def by (rule bit_word_eqI) (auto simp: bit_simps)
  have low: "(crc_bit ^^ 8) (take_bit 24 r) = push_bit 8 (take_bit 24 r)"
    by (rule crc_bits_low) (auto simp: bit_take_bit_iff)
  have "push_bit 8 (take_bit 24 r) = push_bit 8 r"
    by (rule bit_word_eqI) (auto simp: bit_simps)
  then show ?thesis
    unfolding crc_byte_def split crc_bits_xor low d_def [symmetric] table by simp
qed

lemma do_crc_Cons: "do_crc r (b # bs) = do_crc (crc_byte r b) bs"
  by (simp add: table_step)

declare do_crc.simps(2) [simp del]

lemma do_crc_fold: "do_crc r bs = foldl crc_byte r bs"
  by (induction bs arbitrary: r) (simp_all add: do_crc_Cons)

lemma do_crc_append: "do_crc r (xs @ ys) = do_crc (do_crc r xs) ys"
  by (simp add: do_crc_fold)

section \<open>Messages that end with their checksum\<close>

definition be32 :: "u32 \<Rightarrow> byte list" where
  "be32 w = [ucast (drop_bit 24 w), ucast (drop_bit 16 w), ucast (drop_bit 8 w), ucast w]"

lemma length_be32 [simp]: "length (be32 w) = 4"
  by (simp add: be32_def)

lemma crc_byte_xor: "crc_byte (r XOR s) (b XOR c) = crc_byte r b XOR crc_byte s c"
proof -
  have "(ucast (b XOR c) :: u32) = ucast b XOR ucast c"
    by (rule bit_word_eqI) (auto simp: bit_simps)
  then have "(r XOR s) XOR push_bit 24 (ucast (b XOR c)) =
      (r XOR push_bit 24 (ucast b)) XOR (s XOR push_bit 24 (ucast c))"
    by (simp add: push_bit_xor ac_simps)
  then show ?thesis
    unfolding crc_byte_def by (simp only: crc_bits_xor)
qed

lemma do_crc_xor:
  "length xs = length ys \<Longrightarrow>
     do_crc (r XOR s) (map2 (XOR) xs ys) = do_crc r xs XOR do_crc s ys"
proof (induction xs ys arbitrary: r s rule: list_induct2)
  case (Cons x xs y ys)
  then show ?case
    by (simp add: do_crc_Cons crc_byte_xor)
qed simp

lemma crc_byte_word:
  assumes "n \<le> 24"
  shows "crc_byte ((crc_bit ^^ n) r) b = (crc_bit ^^ (n + 8)) (r XOR push_bit (24 - n) (ucast b))"
proof -
  have "(crc_bit ^^ n) (push_bit (24 - n) (ucast b)) = push_bit n (push_bit (24 - n) (ucast b :: u32))"
    using assms by (intro crc_bits_low) (auto simp: bit_simps)
  then have "(crc_bit ^^ n) r XOR push_bit 24 (ucast b) =
      (crc_bit ^^ n) (r XOR push_bit (24 - n) (ucast b))"
    using assms by (simp add: crc_bits_xor push_bit_push_bit)
  then show ?thesis
    unfolding crc_byte_def by (simp only: funpow_add [of 8 n, unfolded comp_def, THEN fun_cong, symmetric] add.commute)
qed

lemma do_crc_word: "do_crc r (be32 w) = (crc_bit ^^ 32) (r XOR w)"
proof -
  define b where "b i = (ucast (drop_bit (8 * i) w) :: byte)" for i
  have w: "push_bit 24 (ucast (b 3)) XOR push_bit 16 (ucast (b 2)) XOR
      push_bit 8 (ucast (b 1)) XOR ucast (b 0) = (w :: u32)"
    unfolding b_def
  proof (rule bit_word_eqI)
    fix n assume "n < LENGTH(32)"
    then consider "n < 8" | "8 \<le> n" "n < 16" | "16 \<le> n" "n < 24" | "24 \<le> n" "n < 32"
      by fastforce
    then show "bit (push_bit 24 (ucast (ucast (drop_bit (8 * 3) w) :: byte)) XOR
        push_bit 16 (ucast (ucast (drop_bit (8 * 2) w) :: byte)) XOR
        push_bit 8 (ucast (ucast (drop_bit (8 * 1) w) :: byte)) XOR
        ucast (ucast (drop_bit (8 * 0) w) :: byte) :: u32) n = bit w n"
      by cases (auto simp: bit_simps)
  qed
  have steps: "do_crc r [b 3, b 2, b 1, b 0] =
      (crc_bit ^^ 32) (r XOR push_bit 24 (ucast (b 3)) XOR push_bit 16 (ucast (b 2)) XOR
        push_bit 8 (ucast (b 1)) XOR ucast (b 0))"
    using crc_byte_word [of 0 r "b 3"]
      crc_byte_word [of 8 "r XOR push_bit 24 (ucast (b 3))" "b 2"]
      crc_byte_word [of 16 "r XOR push_bit 24 (ucast (b 3)) XOR push_bit 16 (ucast (b 2))" "b 1"]
      crc_byte_word [of 24 "r XOR push_bit 24 (ucast (b 3)) XOR push_bit 16 (ucast (b 2)) XOR
        push_bit 8 (ucast (b 1))" "b 0"]
    by (simp add: do_crc_Cons xor.assoc del: funpow.simps)
  have "be32 w = [b 3, b 2, b 1, b 0]"
    by (simp add: be32_def b_def)
  with steps w show ?thesis
    by (simp add: xor.assoc del: funpow.simps)
qed

lemma do_crc_zero_iff: "do_crc r (replicate n 0) = 0 \<longleftrightarrow> r = 0"
proof (induction n arbitrary: r)
  case (Suc n)
  have "crc_byte r 0 = 0 \<longleftrightarrow> r = 0"
    unfolding crc_byte_def by (simp add: crc_bits_zero_iff del: funpow.simps)
  then show ?case
    by (simp add: do_crc_Cons Suc.IH)
qed simp

lemma be32_inverse: "length bs = 4 \<Longrightarrow> \<exists>w. bs = be32 w"
proof -
  assume "length bs = 4"
  then obtain a b c d where bs: "bs = [a, b, c, d]"
    by (auto simp: eval_nat_numeral length_Suc_conv)
  define w :: u32 where "w = ucast d OR push_bit 8 (ucast c) OR push_bit 16 (ucast b) OR
    push_bit 24 (ucast a)"
  have "bs = be32 w"
    unfolding bs w_def be32_def by (auto intro!: bit_word_eqI simp: bit_simps)
  then show ?thesis ..
qed

lemma be32_zero_iff: "be32 w = replicate 4 0 \<longleftrightarrow> w = 0"
proof
  assume "be32 w = replicate 4 0"
  then have z: "be32 w = be32 0"
    by (simp add: be32_def eval_nat_numeral)
  have "(crc_bit ^^ 32) (0 XOR w) = (crc_bit ^^ 32) (0 XOR 0)"
    using arg_cong [OF z, of "do_crc 0"] by (simp only: do_crc_word)
  then show "w = 0"
    by (simp add: crc_bits_zero_iff del: funpow.simps)
qed (simp add: be32_def eval_nat_numeral)

lemma xor_zero_iff: "(a :: u32) XOR b = 0 \<longleftrightarrow> a = b"
  by (auto simp: bit_eq_iff bit_xor_iff)

lemma checksum_zero_iff: "do_crc 0 (msg @ be32 c) = 0 \<longleftrightarrow> c = do_crc 0 msg"
proof -
  have "do_crc 0 (msg @ be32 c) = (crc_bit ^^ 32) (do_crc 0 msg XOR c)"
    by (simp only: do_crc_append do_crc_word)
  then have "do_crc 0 (msg @ be32 c) = 0 \<longleftrightarrow> do_crc 0 msg XOR c = 0"
    by (simp only: crc_bits_zero_iff)
  then show ?thesis
    unfolding xor_zero_iff by (auto simp del: do_crc.simps)
qed

text \<open>Messages that differ in four consecutive bytes have different remainders.\<close>

lemma crc_burst:
  assumes "length old = 4" and "length new = 4" and "old \<noteq> new"
    and "do_crc 0 (pre @ old @ post) = 0"
  shows "do_crc 0 (pre @ new @ post) \<noteq> 0"
proof
  assume "do_crc 0 (pre @ new @ post) = 0"
  with assms(4) have same: "do_crc (do_crc 0 (pre @ old)) post = do_crc (do_crc 0 (pre @ new)) post"
    by (simp add: do_crc_append)
  have "do_crc (a XOR b) (replicate (length post) 0) = do_crc a post XOR do_crc b post" for a b
  proof -
    have "map2 (XOR) post post = replicate (length post) (0::byte)"
      by (rule nth_equalityI) simp_all
    then show ?thesis
      using do_crc_xor [of post post a b] by simp
  qed
  then have "do_crc (do_crc 0 (pre @ old) XOR do_crc 0 (pre @ new)) (replicate (length post) 0) = 0"
    by (simp only: same xor_zero_iff)
  then have "do_crc 0 (pre @ old) = do_crc 0 (pre @ new)"
    by (simp only: do_crc_zero_iff xor_zero_iff)
  moreover obtain v w where vw: "old = be32 v" "new = be32 w"
    using be32_inverse [OF assms(1)] be32_inverse [OF assms(2)] by blast
  ultimately have "(crc_bit ^^ 32) (do_crc 0 pre XOR v) = (crc_bit ^^ 32) (do_crc 0 pre XOR w)"
    by (simp only: do_crc_append do_crc_word)
  then have "(crc_bit ^^ 32) ((do_crc 0 pre XOR v) XOR (do_crc 0 pre XOR w)) = 0"
    by (simp only: crc_bits_xor xor_zero_iff)
  then have "do_crc 0 pre XOR v = do_crc 0 pre XOR w"
    by (simp only: crc_bits_zero_iff xor_zero_iff)
  then have "v = w"
    by (auto simp: bit_eq_iff bit_xor_iff)
  with vw assms(3) show False by simp
qed

section \<open>Properties\<close>

text \<open>C35: the table-driven checksum is the division bit by bit: for every start value and every
  message, one table lookup per byte computes the remainder that eight conditional
  subtractions of the polynomial per byte compute.\<close>

theorem do_crc_bitwise: "do_crc r bs = foldl crc_byte r bs"
  by (rule do_crc_fold)

text \<open>A message that ends with its own checksum, most significant byte first, has remainder
  zero, and no other four bytes at the end give it remainder zero.\<close>

theorem checksum_appended: "do_crc 0 (msg @ be32 c) = 0 \<longleftrightarrow> c = do_crc 0 msg"
  by (rule checksum_zero_iff)

text \<open>Every corruption within four consecutive bytes is found: of two messages of the same
  length that differ only there, at most one has remainder zero.\<close>

theorem corruption_found:
  assumes "length old = 4" and "length new = 4" and "old \<noteq> new"
    and "do_crc 0 (pre @ old @ post) = 0"
  shows "do_crc 0 (pre @ new @ post) \<noteq> 0"
  by (rule crc_burst [OF assms])

theorem corruption_found_witness:
  "do_crc 0 ([1, 2] @ [0, 3, 0, 1] @ be32 (do_crc 0 [1, 2, 0, 0, 0, 1])) \<noteq> 0"
proof (rule corruption_found)
  show "do_crc 0 ([1, 2] @ [0, 0, 0, 1] @ be32 (do_crc 0 [1, 2, 0, 0, 0, 1])) = 0"
    using checksum_zero_iff [of "[1, 2, 0, 0, 0, 1]" "do_crc 0 [1, 2, 0, 0, 0, 1]"] by simp
qed simp_all

end
