(* ===== verification/Bin2elf.thy ===== *)
theory Bin2elf
  imports Crc
begin

text \<open>
  The ELF writer of the firmware dump tool, \<open>dump/bin2elf.c\<close>: it puts the five memory dumps
  into one file behind an ELF header, program headers and section headers, which it builds in
  a packed static struct \<open>e\<close>. The struct is its bytes, because the program headers are written
  past the end of their array. \<open>None\<close> is an access outside the struct or a buffer.
\<close>

section \<open>Headers\<close>

text \<open>Program and section headers of a 32-bit ELF file, as the system header declares them.\<close>

record elf32_phdr =
  p_type :: u32
  p_offset :: u32
  p_vaddr :: u32
  p_paddr :: u32
  p_filesz :: u32
  p_memsz :: u32
  p_flags :: u32
  p_align :: u32

record elf32_shdr =
  sh_name :: u32
  sh_type :: u32
  sh_flags :: u32
  sh_addr :: u32
  sh_offset :: u32
  sh_size :: u32
  sh_link :: u32
  sh_info :: u32
  sh_addralign :: u32
  sh_entsize :: u32

definition phdr_bytes :: "elf32_phdr \<Rightarrow> byte list" where
  "phdr_bytes p = le32 (p_type p) @ le32 (p_offset p) @ le32 (p_vaddr p) @ le32 (p_paddr p) @
     le32 (p_filesz p) @ le32 (p_memsz p) @ le32 (p_flags p) @ le32 (p_align p)"

definition phdr_of :: "byte list \<Rightarrow> elf32_phdr" where
  "phdr_of bs = \<lparr>p_type = ld32 bs, p_offset = ld32 (drop 4 bs), p_vaddr = ld32 (drop 8 bs),
     p_paddr = ld32 (drop 12 bs), p_filesz = ld32 (drop 16 bs), p_memsz = ld32 (drop 20 bs),
     p_flags = ld32 (drop 24 bs), p_align = ld32 (drop 28 bs)\<rparr>"

definition shdr_bytes :: "elf32_shdr \<Rightarrow> byte list" where
  "shdr_bytes h = le32 (sh_name h) @ le32 (sh_type h) @ le32 (sh_flags h) @ le32 (sh_addr h) @
     le32 (sh_offset h) @ le32 (sh_size h) @ le32 (sh_link h) @ le32 (sh_info h) @
     le32 (sh_addralign h) @ le32 (sh_entsize h)"

definition shdr_of :: "byte list \<Rightarrow> elf32_shdr" where
  "shdr_of bs = \<lparr>sh_name = ld32 bs, sh_type = ld32 (drop 4 bs), sh_flags = ld32 (drop 8 bs),
     sh_addr = ld32 (drop 12 bs), sh_offset = ld32 (drop 16 bs), sh_size = ld32 (drop 20 bs),
     sh_link = ld32 (drop 24 bs), sh_info = ld32 (drop 28 bs), sh_addralign = ld32 (drop 32 bs),
     sh_entsize = ld32 (drop 36 bs)\<rparr>"

interpretation phdr: codec phdr_bytes phdr_of 32
  by unfold_locales (simp_all add: phdr_bytes_def phdr_of_def)

interpretation shdr: codec shdr_bytes shdr_of 40
  by unfold_locales (simp_all add: shdr_bytes_def shdr_of_def)

text \<open>The constants of the ELF format.\<close>

definition PT_LOAD :: u32 where "PT_LOAD = 1"
definition PF_X :: u32 where "PF_X = 1"
definition PF_W :: u32 where "PF_W = 2"
definition PF_R :: u32 where "PF_R = 4"
definition SHT_NULL :: u32 where "SHT_NULL = 0"
definition SHT_PROGBITS :: u32 where "SHT_PROGBITS = 1"
definition SHT_STRTAB :: u32 where "SHT_STRTAB = 3"
definition SHT_NOBITS :: u32 where "SHT_NOBITS = 8"
definition SHF_WRITE :: u32 where "SHF_WRITE = 1"
definition SHF_ALLOC :: u32 where "SHF_ALLOC = 2"
definition SHF_EXECINSTR :: u32 where "SHF_EXECINSTR = 4"

lemmas elf_consts = PT_LOAD_def PF_X_def PF_W_def PF_R_def SHT_NULL_def SHT_PROGBITS_def
  SHT_STRTAB_def SHT_NOBITS_def SHF_WRITE_def SHF_ALLOC_def SHF_EXECINSTR_def

section \<open>The static state\<close>

text \<open>Sizes of the parts of \<open>e\<close>, which needs no padding, and the offsets of its arrays.\<close>

definition sizeof_ehdr :: nat where "sizeof_ehdr = 52"
definition sizeof_phdrs :: nat where "sizeof_phdrs = 2 * 32"
definition sizeof_shdrs :: nat where "sizeof_shdrs = 10 * 40"
definition sizeof_strtab :: nat where "sizeof_strtab = 10 * 8"
definition sizeof_e :: nat where
  "sizeof_e = sizeof_ehdr + sizeof_phdrs + sizeof_shdrs + sizeof_strtab"

lemmas sizeof_e_defs = sizeof_e_def sizeof_ehdr_def sizeof_phdrs_def sizeof_shdrs_def
  sizeof_strtab_def

definition phdr_off :: "nat \<Rightarrow> nat" where "phdr_off i = sizeof_ehdr + 32 * i"
definition shdr_off :: "nat \<Rightarrow> nat" where "shdr_off i = sizeof_ehdr + sizeof_phdrs + 40 * i"

record elf_state =
  shsz :: u32
  shstrtab :: "byte list"
  phi :: nat
  shi :: nat
  e_bytes :: "byte list"

definition elf_init :: elf_state where
  "elf_init = \<lparr>shsz = 0, shstrtab = replicate 4096 0, phi = 0, shi = 0,
     e_bytes = replicate sizeof_e 0\<rparr>"

section \<open>Sections and segments\<close>

definition newstr :: "string \<Rightarrow> elf_state \<Rightarrow> (u32 \<times> elf_state) option" where
  "newstr s st =
     (let bs = map of_char s @ [0]
      in do {
        tab \<leftarrow> store (shstrtab st) (unat (shsz st)) bs;
        let st = st\<lparr>shstrtab := tab, shsz := shsz st + of_nat (length bs)\<rparr>;
        Some (shsz st - of_nat (length bs), st)
      })"

text \<open>The headers a section fills in: flags \<open>w\<close> and \<open>x\<close>, address, sizes and file offset.\<close>

definition mk_phdr :: "bool \<Rightarrow> bool \<Rightarrow> u32 \<Rightarrow> u32 \<Rightarrow> u32 \<Rightarrow> u32 \<Rightarrow> elf32_phdr" where
  "mk_phdr w x memaddr memsize fileaddr filesz =
     \<lparr>p_type = PT_LOAD, p_offset = fileaddr, p_vaddr = memaddr, p_paddr = memaddr,
      p_filesz = filesz, p_memsz = memsize,
      p_flags = (if w then PF_R OR PF_W else 0) OR (if x then PF_R OR PF_X else 0),
      p_align = 0\<rparr>"

definition mk_shdr :: "u32 \<Rightarrow> u32 \<Rightarrow> bool \<Rightarrow> bool \<Rightarrow> u32 \<Rightarrow> u32 \<Rightarrow> u32 \<Rightarrow> elf32_shdr" where
  "mk_shdr nm ty w x memaddr fileaddr sz =
     \<lparr>sh_name = nm, sh_type = ty,
      sh_flags = (if w then SHF_ALLOC OR SHF_WRITE else 0) OR
        (if x then SHF_ALLOC OR SHF_EXECINSTR else 0),
      sh_addr = memaddr, sh_offset = fileaddr, sh_size = sz,
      sh_link = 0, sh_info = 0, sh_addralign = 0, sh_entsize = 0\<rparr>"

text \<open>\<open>filesize\<close> is a pointer: null, or read from the state when it is dereferenced.\<close>

definition ss ::
  "string \<Rightarrow> bool \<Rightarrow> bool \<Rightarrow> u32 \<Rightarrow> u32 \<Rightarrow> u32 \<Rightarrow> (elf_state \<Rightarrow> u32) option \<Rightarrow>
     elf_state \<Rightarrow> elf_state option" where
  "ss nm w x memaddr memsize fileaddr filesize st = do {
     st \<leftarrow>
       (case filesize of
          Some fs \<Rightarrow>
            if nm \<noteq> [] \<and> memsize \<noteq> 0 then do {
              e \<leftarrow> store (e_bytes st) (phdr_off (phi st))
                (phdr_bytes (mk_phdr w x memaddr memsize fileaddr (fs st)));
              Some (st\<lparr>e_bytes := e, phi := phi st + 1\<rparr>)
            } else Some st
        | None \<Rightarrow> Some st);
     (u, st) \<leftarrow> newstr nm st;
     let (ty, fileaddr) =
       (if nm = [] then (SHT_NULL, fileaddr)
        else if memsize = 0 then (SHT_STRTAB, of_nat (sizeof_e - sizeof_strtab))
        else if filesize = None then (SHT_NOBITS, fileaddr)
        else (SHT_PROGBITS, fileaddr));
     let sz = (case filesize of Some fs \<Rightarrow> fs st | None \<Rightarrow> memsize);
     e \<leftarrow> store (e_bytes st) (shdr_off (shi st))
       (shdr_bytes (mk_shdr u ty w x memaddr fileaddr sz));
     Some (st\<lparr>e_bytes := e, shi := shi st + 1\<rparr>)
   }"

record dump_seg =
  dbase :: u32
  dsize :: u32
  dname :: string
  dofs :: u32

definition dump_segs :: "dump_seg list" where
  "dump_segs = [
     \<lparr>dbase = 0x00000000, dsize = 0x00080000, dname = ''dump-00000000-00080000.bin'', dofs = 0\<rparr>,
     \<lparr>dbase = 0x03f00000, dsize = 0x00050000, dname = ''dump-03f00000-00050000.bin'', dofs = 0\<rparr>,
     \<lparr>dbase = 0x04000000, dsize = 0x00010000, dname = ''dump-04000000-00010000.bin'', dofs = 0\<rparr>,
     \<lparr>dbase = 0x80000000, dsize = 0x00010000, dname = ''dump-80000000-00010000.bin'', dofs = 0\<rparr>,
     \<lparr>dbase = 0xC0000000, dsize = 0x00040000, dname = ''dump-c0000000-00040000.bin'', dofs = 0\<rparr>]"

text \<open>The section table of the dump, in the order of the calls.\<close>

definition write_sections :: "dump_seg list \<Rightarrow> elf_state \<Rightarrow> elf_state option" where
  "write_sections g st = do {
     st \<leftarrow> ss '''' False False 0 0 0 None st;
     st \<leftarrow> ss ''.000'' True True 0 0x80000 (dofs (g ! 0)) (Some (\<lambda>_. dsize (g ! 0))) st;
     st \<leftarrow> ss ''.03f'' False True 0x03f00000 0x50000 (dofs (g ! 1)) (Some (\<lambda>_. dsize (g ! 1))) st;
     st \<leftarrow> ss ''.040'' True True 0x04000000 0x20000 (dofs (g ! 2)) (Some (\<lambda>_. dsize (g ! 2))) st;
     st \<leftarrow> ss ''.800'' True False 0x80000000 0x10000 (dofs (g ! 3)) (Some (\<lambda>_. dsize (g ! 3))) st;
     st \<leftarrow> ss ''.900'' True False 0x90000000 0x0c000 0 None st;
     st \<leftarrow> ss ''.c00'' True True 0xc0000000 0x40000 (dofs (g ! 4)) (Some (\<lambda>_. dsize (g ! 4))) st;
     ss ''.shstrtab'' False False 0 0 42 (Some shsz) st
   }"

text \<open>The ELF header: 16 bytes of identification and the fields after it.\<close>

definition ehdr_bytes :: "u32 \<Rightarrow> elf_state \<Rightarrow> byte list" where
  "ehdr_bytes entrypoint st =
     [0x7f, 0x45, 0x4c, 0x46, 1, 1, 1, 255, 0, 0, 0, 0, 0, 0, 0, 0] @
     le16 2 @ le16 40 @ le32 1 @ le32 entrypoint @ le32 (of_nat sizeof_ehdr) @
     le32 (of_nat (sizeof_ehdr + sizeof_phdrs)) @ le32 0 @ le16 (of_nat sizeof_ehdr) @
     le16 32 @ le16 (of_nat (phi st)) @ le16 40 @ le16 (of_nat (shi st)) @
     le16 (of_nat (shi st - 1))"

text \<open>\<open>Inl\<close> is the exit code of the program; the answer else is the finished struct.\<close>

definition mkelf :: "u32 \<Rightarrow> dump_seg list \<Rightarrow> elf_state \<Rightarrow> (int + byte list) option" where
  "mkelf entrypoint g st =
     (if sizeof_e > 4096 then Some (Inl 45)
      else do {
        st \<leftarrow> write_sections g st;
        e \<leftarrow> store (e_bytes st) 0 (ehdr_bytes entrypoint st);
        tab \<leftarrow> load (shstrtab st) 0 sizeof_strtab;
        e \<leftarrow> store e (sizeof_e - sizeof_strtab) tab;
        Some (Inr e)
      })"

section \<open>The output file\<close>

text \<open>
  Reading the dumps: a missing file is a null pointer for \<open>fread\<close>; a short one fills only the
  start of its part of the buffer. The answer is the buffer and the segments with their offsets.
\<close>

fun read_dumps ::
  "(string \<Rightarrow> byte list option) \<Rightarrow> dump_seg list \<Rightarrow> u32 \<Rightarrow> byte list \<Rightarrow>
     (byte list \<times> dump_seg list) option" where
  "read_dumps fs [] ofs elfdata = Some (elfdata, [])"
| "read_dumps fs (d # ds) ofs elfdata = do {
     f \<leftarrow> fs (dname d);
     elfdata \<leftarrow> store elfdata (unat ofs) (take (unat (dsize d)) f);
     (elfdata, ds) \<leftarrow> read_dumps fs ds (ofs + dsize d) elfdata;
     Some (elfdata, d\<lparr>dofs := ofs\<rparr> # ds)
   }"

definition elf_size :: u32 where
  "elf_size = 2 * 4096 + sum_list (map dsize dump_segs)"

text \<open>\<open>garbage\<close> is the content of the freshly allocated buffer.\<close>

definition mapit :: "(string \<Rightarrow> byte list option) \<Rightarrow> byte list \<Rightarrow> (int + byte list) option" where
  "mapit fs garbage = do {
     (elfdata, g) \<leftarrow> read_dumps fs dump_segs (2 * 4096) garbage;
     r \<leftarrow> mkelf 0 g elf_init;
     case r of
       Inl code \<Rightarrow> Some (Inl code)
     | Inr e \<Rightarrow> map_option Inr (store elfdata 0 e)
   }"

section \<open>Reading back what was written\<close>

text \<open>A store that fits, and what a later read sees of it.\<close>

definition overwrite :: "nat \<Rightarrow> byte list \<Rightarrow> byte list \<Rightarrow> byte list" where
  "overwrite off xs bs = take off bs @ xs @ drop (off + length xs) bs"

definition field_at :: "nat \<Rightarrow> nat \<Rightarrow> byte list \<Rightarrow> byte list" where
  "field_at off n bs = take n (drop off bs)"

lemma store_overwrite: "off + length xs \<le> length bs \<Longrightarrow> store bs off xs = Some (overwrite off xs bs)"
  by (simp add: store_def overwrite_def)

lemma length_overwrite [simp]: "off + length xs \<le> length bs \<Longrightarrow> length (overwrite off xs bs) = length bs"
  by (simp add: overwrite_def)

lemma field_at_same [simp]:
  "off + n \<le> length bs \<Longrightarrow> length xs = n \<Longrightarrow> field_at off n (overwrite off xs bs) = xs"
  by (simp add: field_at_def overwrite_def)

lemma field_at_other [simp]:
  assumes "off + n \<le> o' \<or> o' + length xs \<le> off" and "o' + length xs \<le> length bs"
  shows "field_at off n (overwrite o' xs bs) = field_at off n bs"
proof -
  have "store bs o' xs = Some (overwrite o' xs bs)"
    using assms(2) by (rule store_overwrite)
  then have "load (overwrite o' xs bs) off n = load bs off n"
    using assms(1) by (rule load_store_disjoint)
  then have "off + n \<le> length bs \<Longrightarrow> ?thesis"
    using assms(2) by (simp add: load_def field_at_def)
  moreover have "\<not> off + n \<le> length bs \<Longrightarrow> ?thesis"
    using assms by (auto simp: field_at_def overwrite_def)
  ultimately show ?thesis by blast
qed

lemma field_at_head [simp]:
  "off + n \<le> length xs \<Longrightarrow> field_at off n (overwrite 0 xs bs) = field_at off n xs"
  by (simp add: field_at_def overwrite_def)

lemma newstr_fits:
  assumes "unat (shsz st) + length s + 1 \<le> length (shstrtab st)" and "length (shstrtab st) = 4096"
  shows "\<exists>tab. newstr s st = Some (shsz st, st\<lparr>shstrtab := tab, shsz := shsz st + of_nat (length s + 1)\<rparr>) \<and>
    length tab = 4096"
proof -
  obtain tab where tab: "store (shstrtab st) (unat (shsz st)) (map of_char s @ [0]) = Some tab"
    using assms by (simp add: store_def)
  then have "length tab = 4096"
    using store_length assms(2) by metis
  with tab show ?thesis
    by (intro exI [of _ tab]) (simp add: newstr_def Let_def add.assoc)
qed

text \<open>A section that is also a segment, a section without content, and the string table.\<close>

lemma ss_segment:
  assumes "length (e_bytes st) = 596" and "length (shstrtab st) = 4096"
    and "unat (shsz st) + length nm + 1 \<le> 4096" and "nm \<noteq> []" and "memsize \<noteq> 0"
    and "phi st \<le> 16" and "shi st \<le> 9"
  shows "\<exists>tab. ss nm w x memaddr memsize fileaddr (Some (\<lambda>_. fsz)) st =
    Some (st\<lparr>shstrtab := tab, shsz := shsz st + of_nat (length nm + 1), phi := phi st + 1,
      shi := shi st + 1,
      e_bytes := overwrite (shdr_off (shi st))
          (shdr_bytes (mk_shdr (shsz st) SHT_PROGBITS w x memaddr fileaddr fsz))
        (overwrite (phdr_off (phi st)) (phdr_bytes (mk_phdr w x memaddr memsize fileaddr fsz))
          (e_bytes st))\<rparr>) \<and> length tab = 4096"
proof -
  define e where "e = overwrite (phdr_off (phi st))
    (phdr_bytes (mk_phdr w x memaddr memsize fileaddr fsz)) (e_bytes st)"
  have len: "length e = 596" and se: "store (e_bytes st) (phdr_off (phi st))
      (phdr_bytes (mk_phdr w x memaddr memsize fileaddr fsz)) = Some e"
    using assms(1,6) by (simp_all add: e_def store_overwrite phdr.enc_width phdr_off_def sizeof_ehdr_def)
  obtain tab where n: "newstr nm (st\<lparr>e_bytes := e, phi := phi st + 1\<rparr>) =
      Some (shsz st, st\<lparr>e_bytes := e, phi := phi st + 1, shstrtab := tab,
        shsz := shsz st + of_nat (length nm + 1)\<rparr>)" and "length tab = 4096"
    using newstr_fits [of "st\<lparr>e_bytes := e, phi := phi st + 1\<rparr>" nm] assms(2,3) by auto
  then show ?thesis
    using assms len se
    by (intro exI [of _ tab]) (simp add: ss_def store_overwrite shdr.enc_width shdr_off_def
        sizeof_e_defs Let_def flip: e_def)
qed

lemma ss_plain:
  assumes "length (e_bytes st) = 596" and "length (shstrtab st) = 4096"
    and "unat (shsz st) + length nm + 1 \<le> 4096" and "shi st \<le> 9"
    and "nm = [] \<or> memsize \<noteq> 0"
  shows "\<exists>tab. ss nm w x memaddr memsize fileaddr None st =
    Some (st\<lparr>shstrtab := tab, shsz := shsz st + of_nat (length nm + 1), shi := shi st + 1,
      e_bytes := overwrite (shdr_off (shi st)) (shdr_bytes (mk_shdr (shsz st)
        (if nm = [] then SHT_NULL else SHT_NOBITS) w x memaddr fileaddr memsize)) (e_bytes st)\<rparr>) \<and>
    length tab = 4096"
proof -
  obtain tab where n: "newstr nm st =
      Some (shsz st, st\<lparr>shstrtab := tab, shsz := shsz st + of_nat (length nm + 1)\<rparr>)"
    and "length tab = 4096"
    using newstr_fits [of st nm] assms(2,3) by auto
  then show ?thesis
    using assms
    by (intro exI [of _ tab]) (auto simp: ss_def store_overwrite shdr.enc_width shdr_off_def
        sizeof_e_defs Let_def)
qed

lemma ss_strtab:
  assumes "length (e_bytes st) = 596" and "length (shstrtab st) = 4096"
    and "unat (shsz st) + length nm + 1 \<le> 4096" and "shi st \<le> 9" and "nm \<noteq> []"
  shows "\<exists>tab. ss nm w x memaddr 0 fileaddr (Some shsz) st =
    Some (st\<lparr>shstrtab := tab, shsz := shsz st + of_nat (length nm + 1), shi := shi st + 1,
      e_bytes := overwrite (shdr_off (shi st)) (shdr_bytes (mk_shdr (shsz st)
        SHT_STRTAB w x memaddr 516 (shsz st + of_nat (length nm + 1)))) (e_bytes st)\<rparr>) \<and>
    length tab = 4096"
proof -
  obtain tab where n: "newstr nm st =
      Some (shsz st, st\<lparr>shstrtab := tab, shsz := shsz st + of_nat (length nm + 1)\<rparr>)"
    and "length tab = 4096"
    using newstr_fits [of st nm] assms(2,3) by auto
  then show ?thesis
    using assms
    by (intro exI [of _ tab]) (auto simp: ss_def store_overwrite shdr.enc_width shdr_off_def
        sizeof_e_defs Let_def)
qed

text \<open>The program headers of the table, in the order they are written.\<close>

definition dump_phdrs :: "dump_seg list \<Rightarrow> elf32_phdr list" where
  "dump_phdrs g =
     [mk_phdr True True 0 0x80000 (dofs (g ! 0)) (dsize (g ! 0)),
      mk_phdr False True 0x03f00000 0x50000 (dofs (g ! 1)) (dsize (g ! 1)),
      mk_phdr True True 0x04000000 0x20000 (dofs (g ! 2)) (dsize (g ! 2)),
      mk_phdr True False 0x80000000 0x10000 (dofs (g ! 3)) (dsize (g ! 3)),
      mk_phdr True True 0xc0000000 0x40000 (dofs (g ! 4)) (dsize (g ! 4))]"

lemmas off_defs = phdr_off_def shdr_off_def sizeof_ehdr_def sizeof_phdrs_def

text \<open>The state after some calls: string table, counters, and the program headers so far.\<close>

definition table_at :: "elf32_phdr list \<Rightarrow> nat \<Rightarrow> u32 \<Rightarrow> elf_state \<Rightarrow> bool" where
  "table_at ps n z st \<longleftrightarrow> length (e_bytes st) = 596 \<and> length (shstrtab st) = 4096 \<and>
     shsz st = z \<and> shi st = n \<and> phi st = length ps \<and>
     (\<forall>i < length ps. field_at (52 + 32 * i) 32 (e_bytes st) = phdr_bytes (ps ! i))"

lemma table_segment:
  assumes "table_at ps n z st" and "unat z + length nm + 1 \<le> 4096" and "nm \<noteq> []"
    and "memsize \<noteq> 0" and "length ps \<le> 4" and "n \<le> 9"
    and "52 + 32 * (length ps + 1) \<le> 116 + 40 * n"
  shows "\<exists>st'. ss nm w x memaddr memsize fileaddr (Some (\<lambda>_. fsz)) st = Some st' \<and>
    table_at (ps @ [mk_phdr w x memaddr memsize fileaddr fsz]) (n + 1) (z + of_nat (length nm + 1)) st'"
proof -
  have st: "length (e_bytes st) = 596" "length (shstrtab st) = 4096" "shsz st = z" "shi st = n"
    "phi st = length ps" "\<And>i. i < length ps \<Longrightarrow> field_at (52 + 32 * i) 32 (e_bytes st) = phdr_bytes (ps ! i)"
    using assms(1) by (simp_all add: table_at_def)
  obtain tab where run: "ss nm w x memaddr memsize fileaddr (Some (\<lambda>_. fsz)) st =
    Some (st\<lparr>shstrtab := tab, shsz := z + of_nat (length nm + 1), phi := length ps + 1,
      shi := n + 1,
      e_bytes := overwrite (116 + 40 * n)
          (shdr_bytes (mk_shdr z SHT_PROGBITS w x memaddr fileaddr fsz))
        (overwrite (52 + 32 * length ps) (phdr_bytes (mk_phdr w x memaddr memsize fileaddr fsz))
          (e_bytes st))\<rparr>)" "length tab = 4096"
    using ss_segment [of st nm memsize w x memaddr fileaddr fsz] st(1-5) assms(2-6)
    by (auto simp: off_defs)
  define e where "e = overwrite (116 + 40 * n)
      (shdr_bytes (mk_shdr z SHT_PROGBITS w x memaddr fileaddr fsz))
    (overwrite (52 + 32 * length ps) (phdr_bytes (mk_phdr w x memaddr memsize fileaddr fsz))
      (e_bytes st))"
  have "length e = 596"
    using st(1) assms(5,6) by (simp add: e_def phdr.enc_width shdr.enc_width)
  moreover have "field_at (52 + 32 * i) 32 e =
      phdr_bytes ((ps @ [mk_phdr w x memaddr memsize fileaddr fsz]) ! i)" if "i < length ps + 1" for i
    using that st(1) st(6) [of i] assms(5-7)
    by (cases "i = length ps") (auto simp: e_def phdr.enc_width shdr.enc_width nth_append)
  ultimately show ?thesis
    using run unfolding e_def [symmetric] by (simp add: table_at_def)
qed

lemma table_keep:
  assumes "table_at ps n z st" and "st' = st\<lparr>shstrtab := tab, shsz := z', shi := n + 1,
      e_bytes := overwrite (116 + 40 * n) (shdr_bytes h) (e_bytes st)\<rparr>"
    and "length tab = 4096" and "n \<le> 9" and "52 + 32 * length ps \<le> 116 + 40 * n"
  shows "table_at ps (n + 1) z' st'"
  using assms by (auto simp: table_at_def shdr.enc_width)

lemma table_plain:
  assumes "table_at ps n z st" and "unat z + length nm + 1 \<le> 4096" and "nm = [] \<or> memsize \<noteq> 0"
    and "n \<le> 9" and "52 + 32 * length ps \<le> 116 + 40 * n"
  shows "\<exists>st'. ss nm w x memaddr memsize fileaddr None st = Some st' \<and>
    table_at ps (n + 1) (z + of_nat (length nm + 1)) st'"
  using ss_plain [of st nm memsize w x memaddr fileaddr] assms table_keep [OF assms(1) refl]
  by (auto simp: table_at_def [of ps n z st] off_defs)

lemma table_strtab:
  assumes "table_at ps n z st" and "unat z + length nm + 1 \<le> 4096" and "nm \<noteq> []"
    and "n \<le> 9" and "52 + 32 * length ps \<le> 116 + 40 * n"
  shows "\<exists>st'. ss nm w x memaddr 0 fileaddr (Some shsz) st = Some st' \<and>
    table_at ps (n + 1) (z + of_nat (length nm + 1)) st'"
  using ss_strtab [of st nm w x memaddr fileaddr] assms table_keep [OF assms(1) refl]
  by (auto simp: table_at_def [of ps n z st] off_defs)

lemma write_sections_run:
  "\<exists>st. write_sections g elf_init = Some st \<and> table_at (dump_phdrs g) 8 41 st"
proof -
  have s0: "table_at [] 0 0 elf_init"
    by (simp add: table_at_def elf_init_def sizeof_e_defs)
  obtain s1 where s1: "ss [] False False 0 0 0 None elf_init = Some s1" "table_at [] 1 1 s1"
    using table_plain [OF s0, of "[]" 0 False False 0 0] by auto
  obtain s2 where s2: "ss ''.000'' True True 0 0x80000 (dofs (g ! 0)) (Some (\<lambda>_. dsize (g ! 0))) s1 = Some s2"
    "table_at (take 1 (dump_phdrs g)) 2 6 s2"
    using table_segment [OF s1(2), of "''.000''" "0x80000" True True 0 "dofs (g ! 0)" "dsize (g ! 0)"]
    by (auto simp: dump_phdrs_def simp flip: numeral_2_eq_2)
  obtain s3 where s3: "ss ''.03f'' False True 0x03f00000 0x50000 (dofs (g ! 1)) (Some (\<lambda>_. dsize (g ! 1))) s2 = Some s3"
    "table_at (take 2 (dump_phdrs g)) 3 11 s3"
    using table_segment [OF s2(2), of "''.03f''" "0x50000" False True "0x03f00000" "dofs (g ! 1)" "dsize (g ! 1)"]
    by (auto simp: dump_phdrs_def)
  obtain s4 where s4: "ss ''.040'' True True 0x04000000 0x20000 (dofs (g ! 2)) (Some (\<lambda>_. dsize (g ! 2))) s3 = Some s4"
    "table_at (take 3 (dump_phdrs g)) 4 16 s4"
    using table_segment [OF s3(2), of "''.040''" "0x20000" True True "0x04000000" "dofs (g ! 2)" "dsize (g ! 2)"]
    by (auto simp: dump_phdrs_def)
  obtain s5 where s5: "ss ''.800'' True False 0x80000000 0x10000 (dofs (g ! 3)) (Some (\<lambda>_. dsize (g ! 3))) s4 = Some s5"
    "table_at (take 4 (dump_phdrs g)) 5 21 s5"
    using table_segment [OF s4(2), of "''.800''" "0x10000" True False "0x80000000" "dofs (g ! 3)" "dsize (g ! 3)"]
    by (auto simp: dump_phdrs_def)
  obtain s6 where s6: "ss ''.900'' True False 0x90000000 0x0c000 0 None s5 = Some s6"
    "table_at (take 4 (dump_phdrs g)) 6 26 s6"
    using table_plain [OF s5(2), of "''.900''" "0x0c000" True False "0x90000000" 0]
    by (auto simp: dump_phdrs_def)
  obtain s7 where s7: "ss ''.c00'' True True 0xc0000000 0x40000 (dofs (g ! 4)) (Some (\<lambda>_. dsize (g ! 4))) s6 = Some s7"
    "table_at (dump_phdrs g) 7 31 s7"
    using table_segment [OF s6(2), of "''.c00''" "0x40000" True True "0xc0000000" "dofs (g ! 4)" "dsize (g ! 4)"]
    by (auto simp: dump_phdrs_def)
  obtain s8 where s8: "ss ''.shstrtab'' False False 0 0 42 (Some shsz) s7 = Some s8"
    "table_at (dump_phdrs g) 8 41 s8"
    using table_strtab [OF s7(2), of "''.shstrtab''" False False 0 42]
    by (auto simp: dump_phdrs_def)
  have "write_sections g elf_init = Some s8"
    unfolding write_sections_def
    by (simp only: s1(1) s2(1) s3(1) s4(1) s5(1) s6(1) s7(1) s8(1) Option.bind.bind_lunit)
  with s8(2) show ?thesis by blast
qed

section \<open>The finished file\<close>

text \<open>What a loader reads: the headers at the place, in the number and of the size the ELF header says.\<close>

definition elf_segments :: "byte list \<Rightarrow> elf32_phdr list" where
  "elf_segments f =
     map (\<lambda>i. phdr_of (field_at (unat (ld32 (field_at 28 4 f)) + unat (ld16 (field_at 42 2 f)) * i) 32 f))
       [0..<unat (ld16 (field_at 44 2 f))]"

definition elf_sections :: "byte list \<Rightarrow> elf32_shdr list" where
  "elf_sections f =
     map (\<lambda>i. shdr_of (field_at (unat (ld32 (field_at 32 4 f)) + unat (ld16 (field_at 46 2 f)) * i) 40 f))
       [0..<unat (ld16 (field_at 48 2 f))]"

text \<open>The struct is finished when the ELF header describes the five headers and eight sections.\<close>

definition finished :: "elf32_phdr list \<Rightarrow> byte list \<Rightarrow> bool" where
  "finished ps e \<longleftrightarrow> 596 \<le> length e \<and> field_at 0 4 e = [0x7f, 0x45, 0x4c, 0x46] \<and>
     ld32 (field_at 28 4 e) = 52 \<and> ld16 (field_at 42 2 e) = 32 \<and> ld16 (field_at 44 2 e) = 5 \<and>
     ld32 (field_at 32 4 e) = 116 \<and> ld16 (field_at 46 2 e) = 40 \<and> ld16 (field_at 48 2 e) = 8 \<and>
     length ps = 5 \<and> (\<forall>i < 5. field_at (52 + 32 * i) 32 e = phdr_bytes (ps ! i))"

lemma length_ehdr_bytes [simp]: "length (ehdr_bytes entry st) = 52"
  by (simp add: ehdr_bytes_def)

lemma ehdr_fields:
  assumes "phi st = 5" and "shi st = 8"
  shows "field_at 0 4 (ehdr_bytes 0 st) = [0x7f, 0x45, 0x4c, 0x46]"
    "ld32 (field_at 28 4 (ehdr_bytes 0 st)) = 52" "ld16 (field_at 42 2 (ehdr_bytes 0 st)) = 32"
    "ld16 (field_at 44 2 (ehdr_bytes 0 st)) = 5" "ld32 (field_at 32 4 (ehdr_bytes 0 st)) = 116"
    "ld16 (field_at 46 2 (ehdr_bytes 0 st)) = 40" "ld16 (field_at 48 2 (ehdr_bytes 0 st)) = 8"
  using assms
  by (simp_all add: ehdr_bytes_def field_at_def le16_def le32_def sizeof_e_defs)

lemma mkelf_finished:
  "\<exists>e. mkelf 0 g elf_init = Some (Inr e) \<and> length e = 596 \<and> finished (dump_phdrs g) e"
proof -
  obtain st where st: "write_sections g elf_init = Some st" "table_at (dump_phdrs g) 8 41 st"
    using write_sections_run by blast
  then have len: "length (e_bytes st) = 596" "length (shstrtab st) = 4096" "phi st = 5" "shi st = 8"
    and ph: "\<And>i. i < 5 \<Longrightarrow> field_at (52 + 32 * i) 32 (e_bytes st) = phdr_bytes (dump_phdrs g ! i)"
    by (simp_all add: table_at_def dump_phdrs_def)
  define e where "e = overwrite 516 (take 80 (shstrtab st)) (overwrite 0 (ehdr_bytes 0 st) (e_bytes st))"
  have "mkelf 0 g elf_init = Some (Inr e)"
    using len by (simp add: mkelf_def st(1) store_overwrite load_def sizeof_e_defs e_def)
  moreover have "length e = 596"
    using len by (simp add: e_def)
  moreover have "finished (dump_phdrs g) e"
    unfolding finished_def
    using len ph by (simp add: e_def ehdr_fields [OF len(3,4)] dump_phdrs_def)
  ultimately show ?thesis by blast
qed

lemma finished_in_file:
  assumes "finished ps e" and "length e \<le> length f"
  shows "finished ps (overwrite 0 e f)"
  using assms by (simp add: finished_def)

lemma phdr_of_bytes [simp]: "phdr_of (phdr_bytes p) = p"
  using phdr.dec_enc [of p "[]"] by simp

lemma finished_segments: "finished ps e \<Longrightarrow> elf_segments e = ps"
  by (rule nth_equalityI) (auto simp: elf_segments_def finished_def mult.commute)

lemma ld32_long: "4 \<le> n \<Longrightarrow> ld32 (take n bs) = ld32 bs"
  by (cases bs rule: ld32.cases) (auto simp: eval_nat_numeral Suc_le_eq gr0_conv_Suc take_Cons
      split: nat.splits)

lemma finished_first_section:
  assumes "finished ps e"
  shows "length (elf_sections e) = 8" and "sh_type (elf_sections e ! 0) = p_offset (ps ! 2)"
proof -
  have "\<forall>i < 5. field_at (52 + 32 * i) 32 e = phdr_bytes (ps ! i)"
    using assms by (simp add: finished_def)
  then have "field_at (52 + 32 * 2) 32 e = phdr_bytes (ps ! 2)"
    by (rule allE [of _ 2]) simp
  then have "p_offset (phdr_of (field_at 116 32 e)) = p_offset (ps ! 2)"
    by simp
  moreover have "sh_type (shdr_of (field_at 116 40 e)) = p_offset (phdr_of (field_at 116 32 e))"
    by (simp add: shdr_of_def phdr_of_def field_at_def drop_take ld32_long)
  ultimately show "sh_type (elf_sections e ! 0) = p_offset (ps ! 2)"
    using assms by (simp add: elf_sections_def finished_def)
  show "length (elf_sections e) = 8"
    using assms by (simp add: elf_sections_def finished_def)
qed

text \<open>The buffer after reading the dumps, and the segments with their offsets.\<close>

definition with_offsets :: "dump_seg list" where
  "with_offsets = map2 (\<lambda>d o'. d\<lparr>dofs := o'\<rparr>) dump_segs [0x2000, 0x82000, 0xd2000, 0xe2000, 0xf2000]"

definition dumps_complete :: "(string \<Rightarrow> byte list option) \<Rightarrow> bool" where
  "dumps_complete fs \<longleftrightarrow>
     (\<forall>d \<in> set dump_segs. \<exists>f. fs (dname d) = Some f \<and> length f = unat (dsize d))"

lemma read_dumps_run:
  assumes "dumps_complete fs" and "length garbage = 0x132000"
  shows "\<exists>buf. read_dumps fs dump_segs (2 * 4096) garbage = Some (buf, with_offsets) \<and>
    length buf = 0x132000 \<and>
    (\<forall>d \<in> set with_offsets. field_at (unat (dofs d)) (unat (dsize d)) buf = the (fs (dname d)))"
proof -
  obtain f0 f1 f2 f3 f4 where
    f: "fs ''dump-00000000-00080000.bin'' = Some f0" "length f0 = 0x80000"
      "fs ''dump-03f00000-00050000.bin'' = Some f1" "length f1 = 0x50000"
      "fs ''dump-04000000-00010000.bin'' = Some f2" "length f2 = 0x10000"
      "fs ''dump-80000000-00010000.bin'' = Some f3" "length f3 = 0x10000"
      "fs ''dump-c0000000-00040000.bin'' = Some f4" "length f4 = 0x40000"
    using assms(1) by (auto simp: dumps_complete_def dump_segs_def)
  show ?thesis
    using f assms(2)
    by (simp add: dump_segs_def with_offsets_def store_overwrite)
qed

lemma mapit_run:
  assumes "dumps_complete fs" and "length garbage = unat elf_size"
  shows "\<exists>out. mapit fs garbage = Some (Inr out) \<and> finished (dump_phdrs with_offsets) out \<and>
    (\<forall>d \<in> set with_offsets. field_at (unat (dofs d)) (unat (dsize d)) out = the (fs (dname d)))"
proof -
  have size: "unat elf_size = 0x132000"
    by (simp add: elf_size_def dump_segs_def)
  obtain buf where buf: "read_dumps fs dump_segs (2 * 4096) garbage = Some (buf, with_offsets)"
    "length buf = 0x132000"
    "\<forall>d \<in> set with_offsets. field_at (unat (dofs d)) (unat (dsize d)) buf = the (fs (dname d))"
    using read_dumps_run [OF assms(1)] assms(2) size by metis
  obtain e where e: "mkelf 0 with_offsets elf_init = Some (Inr e)" "length e = 596"
    "finished (dump_phdrs with_offsets) e"
    using mkelf_finished by blast
  have "mapit fs garbage = Some (Inr (overwrite 0 e buf))"
    unfolding mapit_def buf(1) using e(1,2) buf(2) by (simp add: store_overwrite)
  moreover have "finished (dump_phdrs with_offsets) (overwrite 0 e buf)"
    using finished_in_file [OF e(3)] e(2) buf(2) by simp
  moreover have "field_at (unat (dofs d)) (unat (dsize d)) (overwrite 0 e buf) = the (fs (dname d))"
    if "d \<in> set with_offsets" for d
  proof -
    have "596 \<le> unat (dofs d)"
      using that by (auto simp: with_offsets_def dump_segs_def)
    then show ?thesis
      using buf(2,3) that e(2) by simp
  qed
  ultimately show ?thesis by blast
qed

section \<open>Properties\<close>

text \<open>C34: the output is a loadable image of the dumps. If the five dump files exist with their
  full sizes, the tool produces a file whose program headers, read the way a loader reads them
  from the ELF header, place at each dump's address exactly the bytes of that dump.\<close>

theorem elf_holds_dumps:
  assumes "dumps_complete fs" and "length garbage = unat elf_size"
  shows "\<exists>out. mapit fs garbage = Some (Inr out) \<and>
    map (\<lambda>p. (p_vaddr p, field_at (unat (p_offset p)) (unat (p_filesz p)) out)) (elf_segments out) =
    map (\<lambda>d. (dbase d, the (fs (dname d)))) dump_segs"
proof -
  obtain out where out: "mapit fs garbage = Some (Inr out)"
    and fin: "finished (dump_phdrs with_offsets) out"
    and data: "\<forall>d \<in> set with_offsets.
      field_at (unat (dofs d)) (unat (dsize d)) out = the (fs (dname d))"
    using mapit_run [OF assms] by blast
  have "map (\<lambda>p. (p_vaddr p, field_at (unat (p_offset p)) (unat (p_filesz p)) out))
      (dump_phdrs with_offsets) = map (\<lambda>d. (dbase d, the (fs (dname d)))) dump_segs"
    using data by (simp add: dump_phdrs_def mk_phdr_def with_offsets_def dump_segs_def)
  then show ?thesis
    using out finished_segments [OF fin] by auto
qed

text \<open>Five dump files of the right sizes.\<close>

definition demo_dumps :: "string \<Rightarrow> byte list option" where
  "demo_dumps = map_of (map (\<lambda>d. (dname d, replicate (unat (dsize d)) 7)) dump_segs)"

lemma demo_dumps_complete: "dumps_complete demo_dumps"
  unfolding dumps_complete_def demo_dumps_def dump_segs_def by simp

theorem elf_holds_dumps_witness:
  "\<exists>out. mapit demo_dumps (replicate (unat elf_size) 0) = Some (Inr out) \<and>
    map p_vaddr (elf_segments out) = [0, 0x03f00000, 0x04000000, 0x80000000, 0xC0000000]"
proof -
  obtain out where out: "mapit demo_dumps (replicate (unat elf_size) 0) = Some (Inr out)"
    and segs: "map (\<lambda>p. (p_vaddr p, field_at (unat (p_offset p)) (unat (p_filesz p)) out)) (elf_segments out) =
      map (\<lambda>d. (dbase d, the (demo_dumps (dname d)))) dump_segs"
    using elf_holds_dumps [OF demo_dumps_complete length_replicate] by blast
  have "map p_vaddr (elf_segments out) = map dbase dump_segs"
    using arg_cong [OF segs, of "map fst"] by (simp add: comp_def)
  with out show ?thesis
    by (auto simp: dump_segs_def)
qed

text \<open>The section headers are damaged. The program header array has room for two entries but
  five are written, and the surplus lands on the first section headers: in every output file
  the first section, which has to be the null section, carries the file offset of the third
  segment as its type.\<close>

theorem null_section_overwritten:
  assumes "dumps_complete fs" and "length garbage = unat elf_size"
    and "mapit fs garbage = Some (Inr out)"
  shows "sh_type (elf_sections out ! 0) = p_offset (elf_segments out ! 2) \<and>
    sh_type (elf_sections out ! 0) \<noteq> SHT_NULL"
proof -
  have fin: "finished (dump_phdrs with_offsets) out"
    using mapit_run [OF assms(1,2)] assms(3) by auto
  have "p_offset (dump_phdrs with_offsets ! 2) = 0xd2000"
    by (simp add: dump_phdrs_def mk_phdr_def with_offsets_def dump_segs_def)
  then show ?thesis
    by (simp add: finished_first_section(2) [OF fin] finished_segments [OF fin] SHT_NULL_def)
qed

theorem null_section_overwritten_witness:
  "\<exists>out. mapit demo_dumps (replicate (unat elf_size) 0) = Some (Inr out) \<and>
    sh_type (elf_sections out ! 0) \<noteq> SHT_NULL"
proof -
  obtain out where out: "mapit demo_dumps (replicate (unat elf_size) 0) = Some (Inr out)"
    using mapit_run [OF demo_dumps_complete length_replicate] by blast
  then show ?thesis
    using null_section_overwritten [OF demo_dumps_complete length_replicate out] by blast
qed

end
