(* ===== verification/Fw_Image.thy ===== *)
theory Fw_Image
  imports Crc
begin

text \<open>
  The firmware image reader of \<open>dump/bin2elf.c\<close> (\<open>spew\<close>, the same in \<open>doc/re/bin2elf.c\<close>,
  which calls it): an image is a sequence of blocks, each a header of four words and a body
  with its checksum; the reader checks both checksums and copies the bodies to the place of
  their region in the output buffer. Messages to the terminal are left out. \<open>None\<close> is an
  access outside the image or the output buffer.
\<close>

section \<open>Blocks and state\<close>

definition FW_HAS_DATA_TO_RECV :: u32 where "FW_HAS_DATA_TO_RECV = 0x00000001"
definition FW_HAS_LAST_BLOCK :: u32 where "FW_HAS_LAST_BLOCK = 0x00000004"

record fwheader =
  dnldcmd :: u32
  baseaddr :: u32
  datalength :: u32
  hdr_crc :: u32

definition fwheader_of :: "byte list \<Rightarrow> fwheader" where
  "fwheader_of bs = \<lparr>dnldcmd = ld32 bs, baseaddr = ld32 (drop 4 bs), datalength = ld32 (drop 8 bs),
     hdr_crc = ld32 (drop 12 bs)\<rparr>"

definition fwheader_bytes :: "fwheader \<Rightarrow> byte list" where
  "fwheader_bytes h = le32 (dnldcmd h) @ le32 (baseaddr h) @ le32 (datalength h) @ le32 (hdr_crc h)"

interpretation fwheader: codec fwheader_bytes fwheader_of 16
  by unfold_locales (simp_all add: fwheader_bytes_def fwheader_of_def)

record spew_state =
  upper0 :: u32
  upperC :: u32
  upper04 :: u32
  lower0 :: u32
  lowerC :: u32
  lower04 :: u32
  entrypoint :: u32
  elfdata :: "byte list"

text \<open>The static variables at the start; the buffer of \<open>doc/re\<close> has 4096 bytes and three regions.\<close>

definition elfdata_size :: nat where
  "elfdata_size = 4096 + (1024 + 128 + 128) * 1024"

definition spew_init :: spew_state where
  "spew_init = \<lparr>upper0 = 0, upperC = 0, upper04 = 0, lower0 = - 1, lowerC = - 1, lower04 = - 1,
     entrypoint = 0, elfdata = replicate elfdata_size 0\<rparr>"

datatype spew_result = Returned | Exit int

section \<open>The reader\<close>

text \<open>
  The \<open>switch\<close> over the region of an address: the range of addresses seen in the region, then
  the copy to the region's place in the buffer; \<open>Inl\<close> is the exit code for an unknown region.
\<close>

definition note_range :: "u32 \<Rightarrow> u32 \<Rightarrow> u32 \<Rightarrow> spew_state \<Rightarrow> spew_state" where
  "note_range region addr len st =
     (if region = 0xc0000000 then
        (let st = (if addr + len > upperC st then st\<lparr>upperC := addr + len\<rparr> else st)
         in if addr < lowerC st then st\<lparr>lowerC := addr\<rparr> else st)
      else if region = 0x00000000 then
        (let st = (if addr + len > upper0 st then st\<lparr>upper0 := addr + len\<rparr> else st)
         in if addr < lower0 st then st\<lparr>lower0 := addr\<rparr> else st)
      else if region = 0x04000000 then
        (let st = (if addr + len > upper04 st then st\<lparr>upper04 := addr + len\<rparr> else st)
         in if addr < lower04 st then st\<lparr>lower04 := addr\<rparr> else st)
      else st)"

definition copy_body :: "nat \<Rightarrow> u32 \<Rightarrow> byte list \<Rightarrow> spew_state \<Rightarrow> (int + spew_state) option" where
  "copy_body off len map_bytes st = do {
     bs \<leftarrow> load map_bytes 0 (unat len);
     e \<leftarrow> store (elfdata st) off bs;
     Some (Inr (st\<lparr>elfdata := e\<rparr>))
   }"

definition place_block :: "u32 \<Rightarrow> u32 \<Rightarrow> byte list \<Rightarrow> spew_state \<Rightarrow> (int + spew_state) option" where
  "place_block addr len map_bytes st =
     (let region = addr AND NOT 0x003fffff; off = unat (addr AND 0x003fffff);
          st = note_range region addr len st
      in if region = 0xc0000000 then copy_body (4096 + 1024 * 1024 + off) len map_bytes st
         else if region = 0x00000000 then copy_body (4096 + off) len map_bytes st
         else if region = 0x04000000 then
           copy_body (4096 + (1024 + 128) * 1024 + off) len map_bytes st
         else Some (Inl 9))"

text \<open>
  \<open>img\<close> is what is left of the mapped file and \<open>mapsize\<close> its length; the macro \<open>need\<close>
  returns when fewer bytes are left than asked for, which it compares as signed numbers.
\<close>

function spew :: "byte list \<Rightarrow> int \<Rightarrow> spew_state \<Rightarrow> (spew_result \<times> spew_state) option" where
  "spew img mapsize st =
     (if mapsize = 0 then Some (Exit 19, st)
      else if mapsize < 0 then Some (Exit 7, st)
      else if mapsize < 16 then Some (Returned, st)
      else
        (case load img 0 16 of
           None \<Rightarrow> None
         | Some hb \<Rightarrow>
             (let h = fwheader_of hb; body = drop 16 img; mapsize = mapsize - 16
              in if datalength h \<le> word_of_int mapsize \<and>
                     load img (12 + unat (datalength h)) 4 = None then None
                 else if do_crc 0 hb \<noteq> 0 then Some (Exit 91, st)
                 else if dnldcmd h = FW_HAS_LAST_BLOCK \<and> datalength h = 0 then
                   Some (Returned, st\<lparr>entrypoint := baseaddr h\<rparr>)
                 else if mapsize < sint (datalength h) then Some (Returned, st)
                 else
                   (let len = datalength h - 4; addr = baseaddr h
                    in case load body 0 (unat (len + 4)) of
                         None \<Rightarrow> None
                       | Some bs \<Rightarrow>
                           if do_crc 0 bs \<noteq> 0 then Some (Exit 90, st)
                           else
                             (case place_block addr len body st of
                                None \<Rightarrow> None
                              | Some (Inl code) \<Rightarrow> Some (Exit code, st)
                              | Some (Inr st) \<Rightarrow>
                                  spew (drop (unat (datalength h)) body)
                                    (mapsize - int (unat (datalength h))) st)))))"
  by pat_completeness auto

termination
  by (relation "measure (\<lambda>(img, _, _). length img)") (auto simp: load_def split: if_splits)

declare spew.simps [simp del]

section \<open>Well-formed images\<close>

text \<open>The bytes of a header whose checksum is right, of a data block and of the last block.\<close>

definition checked_header :: "u32 \<Rightarrow> u32 \<Rightarrow> u32 \<Rightarrow> byte list" where
  "checked_header cmd addr n =
     (let front = le32 cmd @ le32 addr @ le32 n in front @ be32 (do_crc 0 front))"

definition data_block :: "u32 \<Rightarrow> byte list \<Rightarrow> byte list" where
  "data_block addr bs =
     checked_header FW_HAS_DATA_TO_RECV addr (of_nat (length bs + 4)) @ bs @ be32 (do_crc 0 bs)"

definition last_block :: "u32 \<Rightarrow> byte list" where
  "last_block entry = checked_header FW_HAS_LAST_BLOCK entry 0"

lemma length_checked_header [simp]: "length (checked_header cmd addr n) = 16"
  by (simp add: checked_header_def Let_def)

lemma crc_checked_header [simp]: "do_crc 0 (checked_header cmd addr n) = 0"
  unfolding checked_header_def Let_def by (simp only: checksum_zero_iff)

lemma checked_header_fields [simp]:
  "dnldcmd (fwheader_of (checked_header cmd addr n)) = cmd"
  "baseaddr (fwheader_of (checked_header cmd addr n)) = addr"
  "datalength (fwheader_of (checked_header cmd addr n)) = n"
  by (simp_all add: fwheader_of_def checked_header_def Let_def)

text \<open>Where the byte at a chip address goes in the buffer: three regions of the sizes reserved.\<close>

definition region_of :: "u32 \<Rightarrow> (nat \<times> nat) option" where
  "region_of a =
     (if a AND NOT 0x003fffff = 0xc0000000 then Some (4096 + 1024 * 1024, 128 * 1024)
      else if a AND NOT 0x003fffff = 0 then Some (4096, 1024 * 1024)
      else if a AND NOT 0x003fffff = 0x04000000 then Some (4096 + (1024 + 128) * 1024, 128 * 1024)
      else None)"

definition region_off :: "u32 \<Rightarrow> nat" where
  "region_off a = unat (a AND 0x003fffff)"

text \<open>The chip memory the buffer stands for, and a memory with a block written to it.\<close>

definition chip_mem :: "spew_state \<Rightarrow> u32 \<Rightarrow> byte option" where
  "chip_mem st a =
     (case region_of a of
        Some (start, sz) \<Rightarrow>
          if region_off a < sz then Some (elfdata st ! (start + region_off a)) else None
      | None \<Rightarrow> None)"

fun write_block :: "(u32 \<Rightarrow> byte option) \<Rightarrow> u32 \<times> byte list \<Rightarrow> u32 \<Rightarrow> byte option" where
  "write_block m (addr, bs) a =
     (if unat (a - addr) < length bs then Some (bs ! unat (a - addr)) else m a)"

definition block_ok :: "u32 \<times> byte list \<Rightarrow> bool" where
  "block_ok b =
     (case region_of (fst b) of
        Some (start, sz) \<Rightarrow> region_off (fst b) + length (snd b) \<le> sz
      | None \<Rightarrow> False)"

section \<open>Regions\<close>

lemma low_mask: "(0x003fffff :: u32) = mask 22"
  by (simp add: mask_eq_exp_minus_1)

lemma region_off_mod: "region_off a = unat a mod 2 ^ 22"
proof -
  have "unat (take_bit 22 a) = take_bit 22 (unat a)"
    by (rule unsigned_take_bit_eq)
  then show ?thesis
    unfolding region_off_def low_mask take_bit_eq_mask [symmetric]
    by (simp only: take_bit_eq_mod [of 22 "unat a"])
qed

lemma region_base: "unat (a AND NOT 0x003fffff) = 2 ^ 22 * (unat a div 2 ^ 22)" for a :: u32
proof -
  have base: "a AND NOT 0x003fffff = push_bit 22 (drop_bit 22 a)"
    unfolding low_mask by (rule bit_word_eqI) (auto simp: bit_simps)
  have "2 ^ 22 * (unat a div 2 ^ 22) \<le> unat a"
    by (rule times_div_less_eq_dividend)
  moreover have "unat a < 2 ^ 32"
    by simp
  ultimately have "2 ^ 22 * (unat a div 2 ^ 22) < 2 ^ 32"
    by (rule le_less_trans)
  moreover have "unat (drop_bit 22 a) = unat a div 2 ^ 22"
    by (simp only: unsigned_drop_bit_eq) (simp add: drop_bit_eq_div take_bit_nat_eq_self)
  then have "unat (push_bit 22 (drop_bit 22 a)) = take_bit 32 (2 ^ 22 * (unat a div 2 ^ 22))"
    by (simp only: unsigned_push_bit_eq) (simp add: push_bit_eq_mult mult.commute)
  ultimately show ?thesis
    unfolding base by (simp only: take_bit_nat_eq_self)
qed

lemma region_iff:
  fixes a :: u32
  shows "a AND NOT 0x003fffff = 0xc0000000 \<longleftrightarrow> unat a div 2 ^ 22 = 768"
    and "a AND NOT 0x003fffff = 0 \<longleftrightarrow> unat a div 2 ^ 22 = 0"
    and "a AND NOT 0x003fffff = 0x04000000 \<longleftrightarrow> unat a div 2 ^ 22 = 16"
  unfolding word_unat_eq_iff region_base by simp_all

lemma region_of_div:
  "region_of a =
     (if unat a div 2 ^ 22 = 768 then Some (4096 + 1024 * 1024, 128 * 1024)
      else if unat a div 2 ^ 22 = 0 then Some (4096, 1024 * 1024)
      else if unat a div 2 ^ 22 = 16 then Some (4096 + (1024 + 128) * 1024, 128 * 1024)
      else None)"
  unfolding region_of_def region_iff ..

text \<open>
  Two addresses in regions: the places of the bytes tell how they are related to a block.
\<close>

lemma region_place:
  assumes "region_of b = Some (start, sz)" and "region_off b + n \<le> sz"
    and "region_of a = Some (start', sz')" and "region_off a < sz'"
  shows "unat (a - b) < n \<longleftrightarrow>
    start + region_off b \<le> start' + region_off a \<and> start' + region_off a < start + region_off b + n"
    and "unat (a - b) < n \<Longrightarrow> start' + region_off a = start + region_off b + unat (a - b)"
proof -
  have a: "unat a = 2 ^ 22 * (unat a div 2 ^ 22) + region_off a"
    and b: "unat b = 2 ^ 22 * (unat b div 2 ^ 22) + region_off b"
    by (simp_all add: region_off_mod)
  have off: "region_off a < 2 ^ 22" "region_off b < 2 ^ 22"
    by (simp_all add: region_off_mod)
  have diff: "unat (a - b) = (if unat b \<le> unat a then unat a - unat b else unat a + 2 ^ 32 - unat b)"
    by (simp add: unat_sub_if_size word_size)
  define p q where "p = unat a div 2 ^ 22" and "q = unat b div 2 ^ 22"
  have p: "(p = 768 \<and> start' = 4096 + 1024 * 1024 \<and> sz' = 128 * 1024) \<or> (p = 0 \<and> start' = 4096 \<and> sz' = 1024 * 1024) \<or>
      (p = 16 \<and> start' = 4096 + (1024 + 128) * 1024 \<and> sz' = 128 * 1024)"
    using assms(3) unfolding region_of_div p_def by (auto split: if_splits)
  have q: "(q = 768 \<and> start = 4096 + 1024 * 1024 \<and> sz = 128 * 1024) \<or> (q = 0 \<and> start = 4096 \<and> sz = 1024 * 1024) \<or>
      (q = 16 \<and> start = 4096 + (1024 + 128) * 1024 \<and> sz = 128 * 1024)"
    using assms(1) unfolding region_of_div q_def by (auto split: if_splits)
  show "unat (a - b) < n \<longleftrightarrow>
      start + region_off b \<le> start' + region_off a \<and> start' + region_off a < start + region_off b + n"
    using p q assms(2,4) off diff a b unfolding p_def [symmetric] q_def [symmetric]
    by (elim disjE conjE) (auto split: if_splits)
  show "start' + region_off a = start + region_off b + unat (a - b)" if "unat (a - b) < n"
    using that p q assms(2,4) off diff a b unfolding p_def [symmetric] q_def [symmetric]
    by (elim disjE conjE) (auto split: if_splits)
qed

lemma region_sizes:
  "region_of b = Some (start, sz) \<Longrightarrow> start + sz \<le> elfdata_size \<and> sz \<le> 2 ^ 20"
  unfolding region_of_div by (auto simp: elfdata_size_def split: if_splits)

lemma region_inside:
  assumes "region_of b = Some (start, sz)" and "region_off b + n \<le> sz" and "unat (a - b) < n"
  shows "region_of a = Some (start, sz)" and "region_off a = region_off b + unat (a - b)"
proof -
  define k where "k = unat (a - b)"
  have bound: "region_off b + k < 2 ^ 22"
    using region_sizes [OF assms(1)] assms(2,3) unfolding k_def by simp
  have b: "unat b = 2 ^ 22 * (unat b div 2 ^ 22) + region_off b"
    by (simp add: region_off_mod)
  have "unat b div 2 ^ 22 < 2 ^ 10"
    using unat_u32_less [of b] by (simp add: less_mult_imp_div_less)
  then have "unat b + k < 2 ^ 32"
    using b bound by simp
  moreover have "a = b + of_nat k"
    by (simp add: k_def)
  ultimately have a: "unat a = unat b + k"
    by (simp add: unat_word_ariths unat_of_nat)
  have "unat a = 2 ^ 22 * (unat b div 2 ^ 22) + (region_off b + k)"
    using a b by simp
  then have "unat a div 2 ^ 22 = unat b div 2 ^ 22" "unat a mod 2 ^ 22 = region_off b + k"
    using bound by simp_all
  then show "region_of a = Some (start, sz)" "region_off a = region_off b + unat (a - b)"
    using assms(1) by (simp_all only: region_of_div region_off_mod [of a] k_def)
qed

lemma nth_overwrite:
  assumes "s + length bs \<le> length e" and "i < length e"
  shows "(take s e @ bs @ drop (s + length bs) e) ! i =
    (if s \<le> i \<and> i < s + length bs then bs ! (i - s) else e ! i)"
  using assms by (auto simp: nth_append)

section \<open>One block\<close>

lemma note_range_frame [simp]:
  "elfdata (note_range region addr len st) = elfdata st"
  "entrypoint (note_range region addr len st) = entrypoint st"
  by (simp_all add: note_range_def Let_def)

lemma place_block_region:
  assumes "region_of addr = Some (start, sz)"
  shows "place_block addr len bytes st =
    copy_body (start + region_off addr) len bytes
      (note_range (addr AND NOT 0x003fffff) addr len st)"
  using assms unfolding region_of_def
  by (auto simp: place_block_def Let_def region_off_def split: if_splits)

lemma place_block_ok:
  assumes "block_ok (addr, bs)" and "length (elfdata st) = elfdata_size"
    and "len = of_nat (length bs)"
  shows "\<exists>st'. place_block addr len (bs @ rest) st = Some (Inr st') \<and>
    length (elfdata st') = elfdata_size \<and> entrypoint st' = entrypoint st \<and>
    chip_mem st' = write_block (chip_mem st) (addr, bs)"
proof -
  obtain start sz where reg: "region_of addr = Some (start, sz)"
    and fits: "region_off addr + length bs \<le> sz"
    using assms(1) by (auto simp: block_ok_def split: option.splits)
  note sizes = region_sizes [OF reg]
  define s where "s = start + region_off addr"
  have inside: "s + length bs \<le> elfdata_size"
    using fits sizes by (simp add: s_def)
  have len: "unat len = length bs"
    using fits sizes by (simp add: assms(3) unat_of_nat)
  define e where "e = take s (elfdata st) @ bs @ drop (s + length bs) (elfdata st)"
  define st' where "st' = (note_range (addr AND NOT 0x003fffff) addr len st)\<lparr>elfdata := e\<rparr>"
  have run: "place_block addr len (bs @ rest) st = Some (Inr st')"
    using inside assms(2)
    by (simp add: place_block_region [OF reg] copy_body_def load_def store_def len e_def s_def st'_def)
  have len_e: "length e = elfdata_size"
    using inside assms(2) by (simp add: e_def)
  have "chip_mem st' a = write_block (chip_mem st) (addr, bs) a" for a
  proof (cases "\<exists>start' sz'. region_of a = Some (start', sz') \<and> region_off a < sz'")
    case True
    then obtain start' sz' where a: "region_of a = Some (start', sz')" "region_off a < sz'"
      by blast
    define i where "i = start' + region_off a"
    have i: "i < elfdata_size"
      using region_sizes [OF a(1)] a(2) by (simp add: i_def)
    have "e ! i = (if s \<le> i \<and> i < s + length bs then bs ! (i - s) else elfdata st ! i)"
      unfolding e_def using inside i assms(2) by (intro nth_overwrite) simp_all
    moreover have "unat (a - addr) < length bs \<longleftrightarrow> s \<le> i \<and> i < s + length bs"
      unfolding s_def i_def by (rule region_place(1) [OF reg fits a])
    moreover have "unat (a - addr) < length bs \<Longrightarrow> i - s = unat (a - addr)"
      using region_place(2) [OF reg fits a] by (simp add: s_def i_def)
    ultimately show ?thesis
      using a by (auto simp: chip_mem_def st'_def simp flip: i_def)
  next
    case False
    have "\<not> unat (a - addr) < length bs"
    proof
      assume "unat (a - addr) < length bs"
      from region_inside [OF reg fits this] this False fits show False by auto
    qed
    with False show ?thesis
      by (auto simp: chip_mem_def split: option.splits prod.splits)
  qed
  then have "chip_mem st' = write_block (chip_mem st) (addr, bs)" by blast
  with run len_e show ?thesis by (simp add: st'_def)
qed

section \<open>A whole image\<close>

lemma tail_in_bounds:
  fixes d :: u32
  assumes "16 \<le> length img" and "d \<le> word_of_int (int (length img) - 16)"
  shows "load img (12 + unat d) 4 \<noteq> None"
proof -
  have "(word_of_int (int (length img) - 16) :: u32) = of_nat (length img - 16)"
    using assms(1) by (simp add: of_nat_diff)
  then have "unat d \<le> (length img - 16) mod 2 ^ 32"
    using assms(2) by (simp add: word_le_nat_alt unat_of_nat)
  also have "\<dots> \<le> length img - 16"
    by (rule mod_less_eq_dividend)
  finally show ?thesis
    using assms(1) by (simp add: load_def)
qed

text \<open>One turn of the loop on an image with a complete header.\<close>

lemma spew_header:
  assumes "length hb = 16"
  shows "spew (hb @ body) (int (length (hb @ body))) st =
    (let h = fwheader_of hb; d = datalength h in
     if do_crc 0 hb \<noteq> 0 then Some (Exit 91, st)
     else if dnldcmd h = FW_HAS_LAST_BLOCK \<and> d = 0 then
       Some (Returned, st\<lparr>entrypoint := baseaddr h\<rparr>)
     else if int (length body) < sint d then Some (Returned, st)
     else
       (case load body 0 (unat d) of
          None \<Rightarrow> None
        | Some bs \<Rightarrow>
            if do_crc 0 bs \<noteq> 0 then Some (Exit 90, st)
            else
              (case place_block (baseaddr h) (d - 4) body st of
                 None \<Rightarrow> None
               | Some (Inl code) \<Rightarrow> Some (Exit code, st)
               | Some (Inr st) \<Rightarrow>
                   spew (drop (unat d) body) (int (length body) - int (unat d)) st)))"
proof -
  have len: "int (length (hb @ body)) = 16 + int (length body)"
    using assms by simp
  have "(d \<le> word_of_int (int (length body)) \<and> load (hb @ body) (12 + unat d) 4 = None) = False"
    for d :: u32
    using tail_in_bounds [of "hb @ body" d] assms by auto
  moreover have "load (hb @ body) 0 16 = Some hb" "drop 16 (hb @ body) = body"
    using assms by (simp_all add: load_def)
  moreover have "(16 + int (length body) = 0) = False" "(16 + int (length body) < 0) = False"
    "(16 + int (length body) < 16) = False" "16 + int (length body) - 16 = int (length body)"
    by simp_all
  ultimately show ?thesis
    unfolding len by (subst spew.simps) (simp only: if_False option.case Let_def diff_add_cancel)
qed

lemma small_word_nat:
  assumes "n < 2 ^ 31"
  shows "unat (of_nat n :: u32) = n" and "sint (of_nat n :: u32) = int n"
proof -
  show n: "unat (of_nat n :: u32) = n"
    using assms by (simp add: unat_of_nat)
  have u: "uint (of_nat n :: u32) = int n"
    by (simp only: uint_nat n)
  show "sint (of_nat n :: u32) = int n"
    unfolding sint_uint u using assms by (simp add: signed_take_bit_int_eq_self)
qed

lemma body_crc [simp]: "do_crc 0 (bs @ be32 (do_crc 0 bs)) = 0"
  by (simp only: checksum_zero_iff)

lemma block_ok_short: "block_ok (addr, bs) \<Longrightarrow> length bs \<le> 2 ^ 20"
  using region_sizes [of addr] by (fastforce simp: block_ok_def split: option.splits)

lemma spew_data_block:
  assumes "block_ok (addr, bs)" and "length (elfdata st) = elfdata_size"
  shows "\<exists>st'. spew (data_block addr bs @ rest) (int (length (data_block addr bs @ rest))) st =
      spew rest (int (length rest)) st' \<and>
    length (elfdata st') = elfdata_size \<and> chip_mem st' = write_block (chip_mem st) (addr, bs)"
proof -
  define d :: u32 where "d = of_nat (length bs + 4)"
  let ?hb = "checked_header FW_HAS_DATA_TO_RECV addr d"
  let ?body = "(bs @ be32 (do_crc 0 bs)) @ rest"
  have d: "unat d = length bs + 4" "sint d = int (length bs + 4)" "d - 4 = of_nat (length bs)"
    using small_word_nat [of "length bs + 4"] block_ok_short [OF assms(1)]
    unfolding d_def by simp_all
  have image: "data_block addr bs @ rest = ?hb @ ?body"
    by (simp add: data_block_def d_def)
  obtain st' where st': "place_block addr (d - 4) ?body st = Some (Inr st')"
    "length (elfdata st') = elfdata_size" "chip_mem st' = write_block (chip_mem st) (addr, bs)"
    using place_block_ok [OF assms d(3)] by (metis append.assoc)
  have "load ?body 0 (unat d) = Some (bs @ be32 (do_crc 0 bs))"
    by (simp add: load_def d)
  moreover have "drop (unat d) ?body = rest" "int (length ?body) - int (unat d) = int (length rest)"
    by (simp_all add: d)
  ultimately have "spew (?hb @ ?body) (int (length (?hb @ ?body))) st =
      spew rest (int (length rest)) st'"
    using st'(1) d(2)
    by (simp only: spew_header length_checked_header Let_def checked_header_fields crc_checked_header
        body_crc option.case sum.case) (simp add: FW_HAS_DATA_TO_RECV_def FW_HAS_LAST_BLOCK_def)
  then show ?thesis
    unfolding image using st'(2,3) by blast
qed

lemma spew_last_block:
  "spew (last_block entry @ rest) (int (length (last_block entry @ rest))) st =
     Some (Returned, st\<lparr>entrypoint := entry\<rparr>)"
  by (simp add: last_block_def spew_header Let_def del: length_append of_nat_add)

definition fw_image :: "(u32 \<times> byte list) list \<Rightarrow> u32 \<Rightarrow> byte list" where
  "fw_image blocks entry = concat (map (\<lambda>(addr, bs). data_block addr bs) blocks) @ last_block entry"

text \<open>C33: a well-formed image is loaded.\<close>

theorem spew_loads_image:
  assumes "\<forall>b \<in> set blocks. block_ok b" and "length (elfdata st) = elfdata_size"
  shows "\<exists>st'. spew (fw_image blocks entry @ rest) (int (length (fw_image blocks entry @ rest))) st =
      Some (Returned, st') \<and>
    entrypoint st' = entry \<and> chip_mem st' = foldl write_block (chip_mem st) blocks"
  using assms
proof (induction blocks arbitrary: st)
  case Nil
  have "chip_mem (st\<lparr>entrypoint := entry\<rparr>) = chip_mem st"
    by (rule ext) (simp add: chip_mem_def split: option.split)
  then show ?case
    by (simp add: fw_image_def spew_last_block del: length_append of_nat_add)
next
  case (Cons b blocks)
  obtain addr bs where b: "b = (addr, bs)" by fastforce
  have split: "fw_image ((addr, bs) # blocks) entry @ rest = data_block addr bs @ fw_image blocks entry @ rest"
    by (simp add: fw_image_def)
  obtain st1 where st1: "spew (fw_image (b # blocks) entry @ rest)
      (int (length (fw_image (b # blocks) entry @ rest))) st =
      spew (fw_image blocks entry @ rest) (int (length (fw_image blocks entry @ rest))) st1"
    "length (elfdata st1) = elfdata_size" "chip_mem st1 = write_block (chip_mem st) b"
    using spew_data_block [of addr bs st "fw_image blocks entry @ rest"] Cons.prems
    unfolding b split by auto
  show ?case
    unfolding st1(1) using Cons.IH [of st1] Cons.prems(1) st1(2,3) by simp
qed

theorem spew_loads_image_witness:
  "\<exists>st'. spew (fw_image [(0xc0000010, [1, 2, 3])] 0x20 @ [])
      (int (length (fw_image [(0xc0000010, [1, 2, 3])] 0x20 @ []))) spew_init = Some (Returned, st') \<and>
    entrypoint st' = 0x20 \<and> chip_mem st' 0xc0000011 = Some 2"
proof -
  have "\<forall>b \<in> set [(0xc0000010, [1, 2, 3])]. block_ok b"
    by (simp add: block_ok_def region_of_def region_off_def)
  moreover have "length (elfdata spew_init) = elfdata_size"
    by (simp add: spew_init_def)
  ultimately obtain st' where
    "spew (fw_image [(0xc0000010, [1, 2, 3])] 0x20 @ [])
      (int (length (fw_image [(0xc0000010, [1, 2, 3])] 0x20 @ []))) spew_init = Some (Returned, st')"
    "entrypoint st' = 0x20"
    "chip_mem st' = foldl write_block (chip_mem spew_init) [(0xc0000010, [1, 2, 3])]"
    using spew_loads_image by blast
  then show ?thesis
    by (intro exI [of _ st']) simp
qed

text \<open>A corrupted header stops the reader.\<close>

theorem corrupt_header_exits:
  assumes "length pre + length post = 12" and "length old = 4" and "length new = 4"
    and "old \<noteq> new" and "do_crc 0 (pre @ old @ post) = 0"
  shows "spew ((pre @ new @ post) @ body) (int (length ((pre @ new @ post) @ body))) st =
    Some (Exit 91, st)"
proof -
  have "length (pre @ new @ post) = 16"
    using assms(1,3) by simp
  moreover have "do_crc 0 (pre @ new @ post) \<noteq> 0"
    by (rule crc_burst [OF assms(2-5)])
  ultimately show ?thesis
    by (simp only: spew_header Let_def if_True not_False_eq_True)
qed

theorem corrupt_header_exits_witness:
  "spew ((le32 1 @ [1, 0, 0, 0] @ drop 8 (checked_header 1 0 8)) @ [])
     (int (length ((le32 1 @ [1, 0, 0, 0] @ drop 8 (checked_header 1 0 8)) @ []))) spew_init =
   Some (Exit 91, spew_init)"
proof (rule corrupt_header_exits [where old = "[0, 0, 0, 0]"])
  have "le32 1 @ [0, 0, 0, 0] @ drop 8 (checked_header 1 0 8) = checked_header 1 0 8"
    by (simp add: checked_header_def Let_def le32_def)
  then show "do_crc 0 (le32 1 @ [0, 0, 0, 0] @ drop 8 (checked_header 1 0 8)) = 0"
    by (simp only: crc_checked_header)
qed simp_all

text \<open>A block without room for its checksum. A header that announces an empty data block
  passes both checks; the length without the checksum wraps to 2^32 - 4, and the copy runs
  outside the image.\<close>

theorem empty_block_overruns:
  assumes "cmd \<noteq> FW_HAS_LAST_BLOCK" and "region_of addr \<noteq> None" and "length body < 2 ^ 32 - 4"
  shows "spew (checked_header cmd addr 0 @ body) (int (length (checked_header cmd addr 0 @ body))) st =
    None"
proof -
  obtain start sz where reg: "region_of addr = Some (start, sz)"
    using assms(2) by auto
  have "unat (0 - 4 :: u32) = 2 ^ 32 - 4"
    by simp
  then have "load body 0 (unat (0 - 4 :: u32)) = None"
    using assms(3) by (simp add: load_eq_None)
  then have "place_block addr (0 - 4) body st = None"
    by (simp only: place_block_region [OF reg] copy_body_def Option.bind.bind_lzero)
  then show ?thesis
    using assms(1) by (simp only: spew_header length_checked_header Let_def checked_header_fields
        crc_checked_header) (simp add: load_def)
qed

theorem empty_block_overruns_witness:
  "spew (checked_header FW_HAS_DATA_TO_RECV 0xc0000000 0 @ [1, 2])
     (int (length (checked_header FW_HAS_DATA_TO_RECV 0xc0000000 0 @ [1, 2]))) spew_init = None"
  by (rule empty_block_overruns)
    (simp_all add: FW_HAS_DATA_TO_RECV_def FW_HAS_LAST_BLOCK_def region_of_def)

end
