(* ===== verification/Rates.thy ===== *)
theory Rates
  imports Wifi_Prelude
begin

text \<open>
  The channel and rate tables of \<open>src/kplugin/m.c\<close>: channel number and frequency lookups
  for the 2.4 GHz and 5 GHz bands, and the data rate of a received frame.

  A \<open>for\<close> loop that returns at the first matching table entry is \<open>List.find\<close>. The two
  tables obey the contract \<open>channel_table\<close>, in which the lookups are inverse to each
  other. Reading past the end of a rate table is \<open>None\<close>.
\<close>

section \<open>Tables\<close>

record ieee80211_channel =
  center_freq :: u32
  hw_value :: u32

abbreviation chan :: "u32 \<Rightarrow> u32 \<Rightarrow> ieee80211_channel" where
  "chan f h \<equiv> \<lparr>center_freq = f, hw_value = h\<rparr>"

definition MWIFIEX_RATE_BITMAP_MCS0 :: u8 where
  "MWIFIEX_RATE_BITMAP_MCS0 = 32"

definition mwifiex_data_rates :: "u16 list" where
  "mwifiex_data_rates = [0x02, 0x04, 0x0B, 0x16, 0x00, 0x0C, 0x12, 0x18,
     0x24, 0x30, 0x48, 0x60, 0x6C, 0x90, 0x0D, 0x1A, 0x27, 0x34, 0x4E, 0x68,
     0x75, 0x82, 0x0C, 0x1B, 0x36, 0x51, 0x6C, 0xA2, 0xD8, 0xF3, 0x10E, 0x00]"

text \<open>\<open>sizeof(mwifiex_data_rates)\<close> counts bytes, two per entry.\<close>

definition sizeof_mwifiex_data_rates :: nat where
  "sizeof_mwifiex_data_rates = 2 * length mwifiex_data_rates"

definition mcs_rate :: "u16 list list" where
  "mcs_rate = [
     [0x1b, 0x36, 0x51, 0x6c, 0xa2, 0xd8, 0xf3, 0x10e,
      0x36, 0x6c, 0xa2, 0xd8, 0x144, 0x1b0, 0x1e6, 0x21c],
     [0x1e, 0x3c, 0x5a, 0x78, 0xb4, 0xf0, 0x10e, 0x12c,
      0x3c, 0x78, 0xb4, 0xf0, 0x168, 0x1e0, 0x21c, 0x258],
     [0x0d, 0x1a, 0x27, 0x34, 0x4e, 0x68, 0x75, 0x82,
      0x1a, 0x34, 0x4e, 0x68, 0x9c, 0xd0, 0xea, 0x104],
     [0x0e, 0x1c, 0x2b, 0x39, 0x56, 0x73, 0x82, 0x90,
      0x1c, 0x39, 0x56, 0x73, 0xad, 0xe7, 0x104, 0x120]]"

definition mwifiex_channels_2ghz :: "ieee80211_channel list" where
  "mwifiex_channels_2ghz = [
    chan 2412 1, chan 2417 2, chan 2422 3, chan 2427 4, chan 2432 5, chan 2437 6,
    chan 2442 7, chan 2447 8, chan 2452 9, chan 2457 10, chan 2462 11, chan 2467 12,
    chan 2472 13, chan 2484 14]"

definition mwifiex_channels_5ghz :: "ieee80211_channel list" where
  "mwifiex_channels_5ghz = [
    chan 5040 8, chan 5060 12, chan 5080 16, chan 5170 34, chan 5190 38, chan 5210 42,
    chan 5230 46, chan 5180 36, chan 5200 40, chan 5220 44, chan 5240 48, chan 5260 52,
    chan 5280 56, chan 5300 60, chan 5320 64, chan 5500 100, chan 5520 104, chan 5540 108,
    chan 5560 112, chan 5580 116, chan 5600 120, chan 5620 124, chan 5640 128, chan 5660 132]"

section \<open>Lookups\<close>

definition m_chan_valid :: "u32 \<Rightarrow> int \<Rightarrow> int" where
  "m_chan_valid num band =
     (if band \<noteq> 0 then
        (case find (\<lambda>c. num = hw_value c) mwifiex_channels_5ghz of Some _ \<Rightarrow> 1 | None \<Rightarrow> 0)
      else
        (case find (\<lambda>c. num = hw_value c) mwifiex_channels_2ghz of Some _ \<Rightarrow> 1 | None \<Rightarrow> 0))"

definition m_freq_valid :: "u32 \<Rightarrow> int" where
  "m_freq_valid freq =
     (if freq > 5000 then
        (case find (\<lambda>c. freq = center_freq c) mwifiex_channels_5ghz of Some _ \<Rightarrow> 1 | None \<Rightarrow> 0)
      else
        (case find (\<lambda>c. freq = center_freq c) mwifiex_channels_2ghz of Some _ \<Rightarrow> 1 | None \<Rightarrow> 0))"

definition m_hwvalue_to_freq :: "u32 \<Rightarrow> u32 \<Rightarrow> u32" where
  "m_hwvalue_to_freq num band =
     (if band \<noteq> 0 then
        (case find (\<lambda>c. num = hw_value c) mwifiex_channels_5ghz of
           Some c \<Rightarrow> center_freq c | None \<Rightarrow> 0)
      else
        (case find (\<lambda>c. num = hw_value c) mwifiex_channels_2ghz of
           Some c \<Rightarrow> center_freq c | None \<Rightarrow> 0))"

definition m_freq_to_hwvalue :: "u32 \<Rightarrow> u32" where
  "m_freq_to_hwvalue freq =
     (if freq > 5000 then
        (case find (\<lambda>c. freq = center_freq c) mwifiex_channels_5ghz of
           Some c \<Rightarrow> hw_value c | None \<Rightarrow> 0)
      else
        (case find (\<lambda>c. freq = center_freq c) mwifiex_channels_2ghz of
           Some c \<Rightarrow> hw_value c | None \<Rightarrow> 0))"

definition mcs_rate_at :: "nat \<Rightarrow> u8 \<Rightarrow> u16 option" where
  "mcs_rate_at row index = do { r \<leftarrow> idx mcs_rate row; idx r (unat index) }"

definition mwifiex_index_to_data_rate :: "u8 \<Rightarrow> u8 \<Rightarrow> u16 option" where
  "mwifiex_index_to_data_rate index ht_info =
     (if ht_info AND 1 \<noteq> 0 then
        if index = MWIFIEX_RATE_BITMAP_MCS0 then
          (if ht_info AND 4 \<noteq> 0 then Some 0x0D else Some 0x0C)
        else if index < 8 then
          (if ht_info AND 2 \<noteq> 0 then
             (if ht_info AND 4 \<noteq> 0 then mcs_rate_at 1 index else mcs_rate_at 0 index)
           else
             (if ht_info AND 4 \<noteq> 0 then mcs_rate_at 3 index else mcs_rate_at 2 index))
        else idx mwifiex_data_rates 0
      else
        (let index = (if unat index \<ge> sizeof_mwifiex_data_rates then 0 else index)
         in idx mwifiex_data_rates (unat index)))"

section \<open>Lookups in a well-formed table\<close>

locale channel_table =
  fixes tbl :: "ieee80211_channel list"
  assumes distinct_hw: "distinct (map hw_value tbl)"
    and distinct_freq: "distinct (map center_freq tbl)"
    and freq_nonzero: "c \<in> set tbl \<Longrightarrow> center_freq c \<noteq> 0"
    and hw_nonzero: "c \<in> set tbl \<Longrightarrow> hw_value c \<noteq> 0"
begin

lemma find_hw: "find (\<lambda>c. n = hw_value c) tbl = Some c \<longleftrightarrow> c \<in> set tbl \<and> hw_value c = n"
  by (rule find_distinct_key [OF distinct_hw])

lemma find_freq: "find (\<lambda>c. f = center_freq c) tbl = Some c \<longleftrightarrow> c \<in> set tbl \<and> center_freq c = f"
  by (rule find_distinct_key [OF distinct_freq])

text \<open>Both keys of an entry lead to the entry; a lookup fails when no entry has the key.\<close>

lemma find_own_hw: "c \<in> set tbl \<Longrightarrow> find (\<lambda>d. hw_value c = hw_value d) tbl = Some c"
  by (simp add: find_hw)

lemma find_own_freq: "c \<in> set tbl \<Longrightarrow> find (\<lambda>d. center_freq c = center_freq d) tbl = Some c"
  by (simp add: find_freq)

lemma hw_cases:
  obtains (found) c where "c \<in> set tbl" "n = hw_value c"
  | (absent) "find (\<lambda>c. n = hw_value c) tbl = None"
  by (cases "find (\<lambda>c. n = hw_value c) tbl") (auto dest: find_hw [THEN iffD1])

lemma freq_cases:
  obtains (found) c where "c \<in> set tbl" "f = center_freq c"
  | (absent) "find (\<lambda>c. f = center_freq c) tbl = None"
  by (cases "find (\<lambda>c. f = center_freq c) tbl") (auto dest: find_freq [THEN iffD1])

lemmas lookups = find_own_hw find_own_freq freq_nonzero hw_nonzero

end

interpretation ghz2: channel_table mwifiex_channels_2ghz
  by unfold_locales (auto simp: mwifiex_channels_2ghz_def)

interpretation ghz5: channel_table mwifiex_channels_5ghz
  by unfold_locales (auto simp: mwifiex_channels_5ghz_def)

lemma ghz5_above_5000: "c \<in> set mwifiex_channels_5ghz \<Longrightarrow> 5000 < center_freq c"
  by (auto simp: mwifiex_channels_5ghz_def)

lemma ghz2_below_5000: "c \<in> set mwifiex_channels_2ghz \<Longrightarrow> \<not> 5000 < center_freq c"
  by (auto simp: mwifiex_channels_2ghz_def)

lemmas chan_lookup_defs =
  m_chan_valid_def m_freq_valid_def m_hwvalue_to_freq_def m_freq_to_hwvalue_def

section \<open>Rates\<close>

lemma length_mwifiex_data_rates [simp]: "length mwifiex_data_rates = 32"
  by (simp add: mwifiex_data_rates_def)

lemma sizeof_data_rates [simp]: "sizeof_mwifiex_data_rates = 64"
  by (simp add: sizeof_mwifiex_data_rates_def)

lemma data_rates_bound: "i < 32 \<Longrightarrow> unat (mwifiex_data_rates ! i) \<le> 300"
proof -
  have "list_all (\<lambda>r. unat r \<le> 300) mwifiex_data_rates"
    by (simp add: mwifiex_data_rates_def)
  then show "i < 32 \<Longrightarrow> unat (mwifiex_data_rates ! i) \<le> 300"
    by (simp add: list_all_length)
qed

lemma mcs_rate_shape: "length mcs_rate = 4" "\<forall>r \<in> set mcs_rate. length r = 16"
  by (simp_all add: mcs_rate_def)

lemma mcs_rate_at_defined:
  "row < 4 \<Longrightarrow> unat i < 16 \<Longrightarrow> mcs_rate_at row i = Some (mcs_rate ! row ! unat i)"
  using mcs_rate_shape by (simp add: mcs_rate_at_def idx_def)

text \<open>The first eight columns (one spatial stream) stay below the 40 MHz short-interval
  rate of MCS 7.\<close>

lemma mcs_rate_bound:
  assumes "row < 4" and "j < 8"
  shows "unat (mcs_rate ! row ! j) \<le> 300"
proof -
  have "list_all (\<lambda>r. list_all (\<lambda>x. unat x \<le> 300) (take 8 r)) mcs_rate"
    by (simp add: mcs_rate_def)
  then have "list_all (\<lambda>x. unat x \<le> 300) (take 8 (mcs_rate ! row))"
    using assms(1) mcs_rate_shape(1) by (simp add: list_all_length)
  moreover have "length (mcs_rate ! row) = 16"
    using assms(1) mcs_rate_shape by simp
  ultimately show ?thesis
    using assms(2) by (simp add: list_all_length)
qed

section \<open>Properties\<close>

text \<open>Channel numbers and frequencies convert into each other without loss. A channel
  number that \<open>m_chan_valid\<close> accepts on a band has a frequency that \<open>m_freq_valid\<close> accepts and
  that converts back to the same number; a valid frequency converts to a channel number that
  converts back, on the band the frequency belongs to; and the conversions answer 0 exactly for
  the inputs the validity checks reject.\<close>

theorem channel_lookup_roundtrip:
  "(m_chan_valid num (uint band) = 1 \<longrightarrow>
      m_freq_valid (m_hwvalue_to_freq num band) = 1 \<and>
      m_freq_to_hwvalue (m_hwvalue_to_freq num band) = num) \<and>
   (m_freq_valid freq = 1 \<longrightarrow>
      m_hwvalue_to_freq (m_freq_to_hwvalue freq) (if freq > 5000 then 1 else 0) = freq) \<and>
   (m_hwvalue_to_freq num band = 0 \<longleftrightarrow> m_chan_valid num (uint band) = 0) \<and>
   (m_freq_to_hwvalue freq = 0 \<longleftrightarrow> m_freq_valid freq = 0)"
proof -
  have num: "(m_chan_valid num (uint band) = 1 \<longrightarrow>
      m_freq_valid (m_hwvalue_to_freq num band) = 1 \<and>
      m_freq_to_hwvalue (m_hwvalue_to_freq num band) = num) \<and>
    (m_hwvalue_to_freq num band = 0 \<longleftrightarrow> m_chan_valid num (uint band) = 0)"
  proof (cases "band = 0")
    case True
    then show ?thesis
      by (cases num rule: ghz2.hw_cases)
        (simp_all add: chan_lookup_defs ghz2.lookups ghz2_below_5000)
  next
    case False
    then have "uint band \<noteq> 0"
      by (simp add: uint_0_iff)
    with False show ?thesis
      by (cases num rule: ghz5.hw_cases)
        (simp_all add: chan_lookup_defs ghz5.lookups ghz5_above_5000)
  qed
  have "(m_freq_valid freq = 1 \<longrightarrow>
      m_hwvalue_to_freq (m_freq_to_hwvalue freq) (if freq > 5000 then 1 else 0) = freq) \<and>
    (m_freq_to_hwvalue freq = 0 \<longleftrightarrow> m_freq_valid freq = 0)"
  proof (cases "freq > 5000")
    case True
    then show ?thesis
      by (cases freq rule: ghz5.freq_cases) (simp_all add: chan_lookup_defs ghz5.lookups)
  next
    case False
    then show ?thesis
      by (cases freq rule: ghz2.freq_cases) (simp_all add: chan_lookup_defs ghz2.lookups)
  qed
  with num show ?thesis by blast
qed

theorem channel_lookup_roundtrip_witness:
  "m_freq_to_hwvalue (m_hwvalue_to_freq 36 1) = 36 \<and>
   m_hwvalue_to_freq (m_freq_to_hwvalue 2484) 0 = 2484"
  using channel_lookup_roundtrip [of 36 1 2484]
  by (simp add: chan_lookup_defs mwifiex_channels_5ghz_def mwifiex_channels_2ghz_def)

text \<open>The rate lookup reads outside its table exactly for legacy rates with index 32 to 63:
  the guard compares the index with the size of the table in bytes, twice its number of entries.
  Every rate it does return is at most 300 (150 Mb/s in units of 500 kb/s).\<close>

theorem index_to_data_rate_bounds:
  "(mwifiex_index_to_data_rate index ht_info = None \<longleftrightarrow>
      \<not> bit ht_info 0 \<and> 32 \<le> unat index \<and> unat index < 64) \<and>
   (\<forall>rate. mwifiex_index_to_data_rate index ht_info = Some rate \<longrightarrow> unat rate \<le> 300)"
proof (cases "ht_info AND 1 = 0")
  case True
  then show ?thesis
    by (auto simp: mwifiex_index_to_data_rate_def Let_def idx_def word_and_1_zero_iff
        data_rates_bound split: if_splits)
next
  case False
  then show ?thesis
    by (auto simp: mwifiex_index_to_data_rate_def idx_def word_and_1_zero_iff data_rates_bound
        mcs_rate_at_defined mcs_rate_bound word_less_nat_alt)
qed

theorem index_to_data_rate_bounds_witness:
  "mwifiex_index_to_data_rate 40 0 = None \<and> mwifiex_index_to_data_rate 7 7 = Some 300"
proof -
  have mcs: "mwifiex_index_to_data_rate 7 7 = Some 300"
    by (simp add: mwifiex_index_to_data_rate_def MWIFIEX_RATE_BITMAP_MCS0_def mcs_rate_at_def
        mcs_rate_def idx_def)
  have "mwifiex_index_to_data_rate 40 0 = None"
    using index_to_data_rate_bounds [of 40 0] by simp
  with mcs show ?thesis by blast
qed

end
