(* ===== verification/Cfp.thy ===== *)
theory Cfp
  imports Rates
begin

text \<open>
  Rates and channels in the mwifiex driver, \<open>doc/mwifiex/cfp.c\<close>, from which the plugin's
  \<open>m.c\<close> was cut down: region codes, the rate of a received frame, the rates of a band, and
  the search for a channel. Structs are reduced to the fields these functions use. Reading or
  writing outside an array, and following a null pointer, is \<open>None\<close>.
\<close>

section \<open>Constants and tables\<close>

definition MWIFIEX_SUPPORTED_RATES :: nat where "MWIFIEX_SUPPORTED_RATES = 14"
definition MWIFIEX_SUPPORTED_RATES_EXT :: u8 where "MWIFIEX_SUPPORTED_RATES_EXT = 32"
definition MWIFIEX_RATE_FORMAT_HT :: u8 where "MWIFIEX_RATE_FORMAT_HT = 1"
definition MWIFIEX_RATE_FORMAT_VHT :: u8 where "MWIFIEX_RATE_FORMAT_VHT = 2"
definition MWIFIEX_RATE_BITMAP_MCS0 :: u8 where "MWIFIEX_RATE_BITMAP_MCS0 = 32"
definition MWIFIEX_RATE_INDEX_MCS0 :: u8 where "MWIFIEX_RATE_INDEX_MCS0 = 12"
definition MWIFIEX_BW20_MCS_NUM :: u8 where "MWIFIEX_BW20_MCS_NUM = 15"
definition MWIFIEX_RATE_INDEX_OFDM0 :: u8 where "MWIFIEX_RATE_INDEX_OFDM0 = 4"
definition HT_STREAM_2X2 :: u8 where "HT_STREAM_2X2 = 0x22"
definition FIRST_VALID_CHANNEL :: u16 where "FIRST_VALID_CHANNEL = 0xff"
definition HostCmd_SCAN_RADIO_TYPE_BG :: u8 where "HostCmd_SCAN_RADIO_TYPE_BG = 0"
definition HostCmd_SCAN_RADIO_TYPE_A :: u8 where "HostCmd_SCAN_RADIO_TYPE_A = 1"
definition BAND_B :: u8 where "BAND_B = 1"
definition BAND_G :: u8 where "BAND_G = 2"
definition BAND_A :: u8 where "BAND_A = 4"
definition BAND_GN :: u8 where "BAND_GN = 8"
definition BAND_AN :: u8 where "BAND_AN = 16"
definition BAND_AAC :: u8 where "BAND_AAC = 32"

text \<open>Constants of the Linux headers.\<close>

definition NL80211_IFTYPE_STATION :: u32 where "NL80211_IFTYPE_STATION = 2"
definition NL80211_IFTYPE_P2P_CLIENT :: u32 where "NL80211_IFTYPE_P2P_CLIENT = 8"
definition IEEE80211_CHAN_DISABLED :: u32 where "IEEE80211_CHAN_DISABLED = 1"

lemmas band_consts = BAND_B_def BAND_G_def BAND_A_def BAND_GN_def BAND_AN_def BAND_AAC_def

definition adhoc_rates_b :: "u8 list" where
  "adhoc_rates_b = [0x82, 0x84, 0x8b, 0x96, 0]"
definition adhoc_rates_g :: "u8 list" where
  "adhoc_rates_g = [0x8c, 0x12, 0x98, 0x24, 0xb0, 0x48, 0x60, 0x6c, 0]"
definition adhoc_rates_bg :: "u8 list" where
  "adhoc_rates_bg = [0x82, 0x84, 0x8b, 0x96, 0x0c, 0x12, 0x18, 0x24, 0x30, 0x48, 0x60, 0x6c, 0]"
definition adhoc_rates_a :: "u8 list" where
  "adhoc_rates_a = [0x8c, 0x12, 0x98, 0x24, 0xb0, 0x48, 0x60, 0x6c, 0]"
definition supported_rates_a :: "u8 list" where
  "supported_rates_a = [0x0c, 0x12, 0x18, 0x24, 0xb0, 0x48, 0x60, 0x6c, 0]"
definition supported_rates_b :: "u8 list" where
  "supported_rates_b = [0x02, 0x04, 0x0b, 0x16, 0]"
definition supported_rates_g :: "u8 list" where
  "supported_rates_g = [0x0c, 0x12, 0x18, 0x24, 0x30, 0x48, 0x60, 0x6c, 0]"
definition supported_rates_bg :: "u8 list" where
  "supported_rates_bg = [0x02, 0x04, 0x0b, 0x0c, 0x12, 0x16, 0x18, 0x24, 0x30, 0x48, 0x60, 0x6c, 0]"
definition supported_rates_n :: "u8 list" where
  "supported_rates_n = [0x02, 0x04, 0]"

definition mwifiex_data_rates :: "u16 list" where
  "mwifiex_data_rates = [0x02, 0x04,
     0x0B, 0x16, 0x00, 0x0C, 0x12, 0x18,
     0x24, 0x30, 0x48, 0x60, 0x6C, 0x90,
     0x0D, 0x1A, 0x27, 0x34, 0x4E, 0x68,
     0x75, 0x82, 0x0C, 0x1B, 0x36, 0x51,
     0x6C, 0xA2, 0xD8, 0xF3, 0x10E, 0x00]"

definition region_code_index :: "u16 list" where
  "region_code_index = [0x00, 0x10, 0x20, 0x30, 0x31, 0x32, 0x40, 0x41, 0x50]"

definition mcs_rate :: "u16 list list" where
  "mcs_rate = [
     [0x1b, 0x36, 0x51, 0x6c, 0xa2, 0xd8, 0xf3, 0x10e,
      0x36, 0x6c, 0xa2, 0xd8, 0x144, 0x1b0, 0x1e6, 0x21c],
     [0x1e, 0x3c, 0x5a, 0x78, 0xb4, 0xf0, 0x10e, 0x12c,
      0x3c, 0x78, 0xb4, 0xf0, 0x168, 0x1e0, 0x21c, 0x258],
     [0x0d, 0x1a, 0x27, 0x34, 0x4e, 0x68, 0x75, 0x82,
      0x1a, 0x34, 0x4e, 0x68, 0x9c, 0xd0, 0xea, 0x104],
     [0x0e, 0x1c, 0x2b, 0x39, 0x56, 0x73, 0x82, 0x90,
      0x1c, 0x39, 0x56, 0x73, 0xad, 0xe7, 0x104, 0x120]]"

definition ac_mcs_rate_nss1 :: "u16 list list" where
  "ac_mcs_rate_nss1 = [
     [0x75, 0xEA, 0x15F, 0x1D4, 0x2BE, 0x3A8, 0x41D, 0x492, 0x57C, 0x618],
     [0x82, 0x104, 0x186, 0x208, 0x30C, 0x410, 0x492, 0x514, 0x618, 0x6C6],
     [0x3B, 0x75, 0xB0, 0xEA, 0x15F, 0x1D4, 0x20F, 0x249, 0x2BE, 0x30C],
     [0x41, 0x82, 0xC3, 0x104, 0x186, 0x208, 0x249, 0x28A, 0x30C, 0x363],
     [0x1B, 0x36, 0x51, 0x6C, 0xA2, 0xD8, 0xF3, 0x10E, 0x144, 0x168],
     [0x1E, 0x3C, 0x5A, 0x78, 0xB4, 0xF0, 0x10E, 0x12C, 0x168, 0x190],
     [0xD, 0x1A, 0x27, 0x34, 0x4E, 0x68, 0x75, 0x82, 0x9C, 0x00],
     [0xF, 0x1D, 0x2C, 0x3A, 0x57, 0x74, 0x82, 0x91, 0xAE, 0x00]]"

definition ac_mcs_rate_nss2 :: "u16 list list" where
  "ac_mcs_rate_nss2 = [
     [0xEA, 0x1D4, 0x2BE, 0x3A8, 0x57C, 0x750, 0x83A, 0x924, 0xAF8, 0xC30],
     [0x104, 0x208, 0x30C, 0x410, 0x618, 0x820, 0x924, 0xA28, 0xC30, 0xD8B],
     [0x75, 0xEA, 0x15F, 0x1D4, 0x2BE, 0x3A8, 0x41D, 0x492, 0x57C, 0x618],
     [0x82, 0x104, 0x186, 0x208, 0x30C, 0x410, 0x492, 0x514, 0x618, 0x6C6],
     [0x36, 0x6C, 0xA2, 0xD8, 0x144, 0x1B0, 0x1E6, 0x21C, 0x288, 0x2D0],
     [0x3C, 0x78, 0xB4, 0xF0, 0x168, 0x1E0, 0x21C, 0x258, 0x2D0, 0x320],
     [0x1A, 0x34, 0x4A, 0x68, 0x9C, 0xD0, 0xEA, 0x104, 0x138, 0x00],
     [0x1D, 0x3A, 0x57, 0x74, 0xAE, 0xE6, 0x104, 0x121, 0x15B, 0x00]]"

definition region_code_mapping_t :: "(u8 \<times> string) list" where
  "region_code_mapping_t = [
     (0x10, ''US ''), (0x20, ''CA ''), (0x30, ''FR ''), (0x31, ''ES ''), (0x32, ''FR ''),
     (0x40, ''JP ''), (0x41, ''JP ''), (0x50, ''CN '')]"

section \<open>State\<close>

text \<open>A channel and a band of the wireless core, and the triplet a search fills in.\<close>

record wiphy_channel =
  ch_center_freq :: u32
  ch_hw_value :: u16
  ch_flags :: u32
  ch_max_power :: u16

record wiphy_band =
  channels :: "wiphy_channel list"
  bitrates :: "u16 list"

record mwifiex_chan_freq_power =
  channel :: u16
  freq :: u32
  max_tx_power :: u16
  unsupported :: u8

record cfp_priv =
  user_dev_mcs_support :: u8
  is_hw_11ac_capable :: bool
  config_bands :: u8
  adhoc_start_band :: u8
  band_2ghz :: "wiphy_band option"
  band_5ghz :: "wiphy_band option"
  request_rates_2ghz :: u32
  request_rates_5ghz :: u32
  bss_mode :: u32
  media_connected :: bool
  curr_data_rates :: "u8 list"
  curr_num_of_rates :: nat
  bitmap_rates :: "u16 list"
  cfp :: mwifiex_chan_freq_power

section \<open>Rates of received frames\<close>

definition mwifiex_11d_code_2_region :: "u8 \<Rightarrow> string option" where
  "mwifiex_11d_code_2_region code =
     (case find (\<lambda>(c, _). c = code) region_code_mapping_t of
        Some (_, region) \<Rightarrow> Some region
      | None \<Rightarrow> None)"

definition table_at :: "u16 list list \<Rightarrow> u8 \<Rightarrow> u8 \<Rightarrow> u16 option" where
  "table_at t row col = do { r \<leftarrow> idx t (unat row); idx r (unat col) }"

definition mwifiex_index_to_acs_data_rate :: "u8 \<Rightarrow> u8 \<Rightarrow> u16 option" where
  "mwifiex_index_to_acs_data_rate index ht_info =
     (if ht_info AND 0x3 = MWIFIEX_RATE_FORMAT_VHT then
        (let mcs_index = min (index AND 0xF) 9;
             bw = drop_bit 2 (ht_info AND 0xC);
             gi = drop_bit 4 (ht_info AND 0x10)
         in if drop_bit 4 index = 1
            then table_at ac_mcs_rate_nss2 (2 * (3 - bw) + gi) mcs_index
            else table_at ac_mcs_rate_nss1 (2 * (3 - bw) + gi) mcs_index)
      else if ht_info AND 0x3 = MWIFIEX_RATE_FORMAT_HT then
        (let bw = drop_bit 2 (ht_info AND 0xC);
             gi = drop_bit 4 (ht_info AND 0x10)
         in if index = MWIFIEX_RATE_BITMAP_MCS0 then
              (if gi = 1 then Some 0x0D else Some 0x0C)
            else if index < 16 then
              (if bw = 1 \<or> bw = 0 then table_at mcs_rate (2 * (1 - bw) + gi) index
               else idx mwifiex_data_rates 0)
            else idx mwifiex_data_rates 0)
      else
        (let index = (if index \<ge> MWIFIEX_SUPPORTED_RATES_EXT then 0 else index)
         in idx mwifiex_data_rates (unat index)))"

definition mwifiex_index_to_data_rate :: "cfp_priv \<Rightarrow> u8 \<Rightarrow> u8 \<Rightarrow> u16 option" where
  "mwifiex_index_to_data_rate priv index ht_info =
     (let mcs_num_supp = (if user_dev_mcs_support priv = HT_STREAM_2X2 then 16 else 8)
      in if is_hw_11ac_capable priv then mwifiex_index_to_acs_data_rate index ht_info
         else if ht_info AND 1 \<noteq> 0 then
           (if index = MWIFIEX_RATE_BITMAP_MCS0 then
              (if ht_info AND 4 \<noteq> 0 then Some 0x0D else Some 0x0C)
            else if index < mcs_num_supp then
              (if ht_info AND 2 \<noteq> 0 then
                 (if ht_info AND 4 \<noteq> 0 then table_at mcs_rate 1 index
                  else table_at mcs_rate 0 index)
               else
                 (if ht_info AND 4 \<noteq> 0 then table_at mcs_rate 3 index
                  else table_at mcs_rate 2 index))
            else idx mwifiex_data_rates 0)
         else
           (let index = (if index \<ge> MWIFIEX_SUPPORTED_RATES_EXT then 0 else index)
            in idx mwifiex_data_rates (unat index)))"

definition mwifiex_adjust_data_rate :: "u8 \<Rightarrow> u8 \<Rightarrow> u8" where
  "mwifiex_adjust_data_rate rx_rate rate_info =
     (if rate_info AND 1 \<noteq> 0 \<and> rate_info AND 2 \<noteq> 0 then
        MWIFIEX_RATE_INDEX_MCS0 + MWIFIEX_BW20_MCS_NUM + rx_rate
      else if rate_info AND 1 \<noteq> 0 then MWIFIEX_RATE_INDEX_MCS0 + rx_rate
      else if rx_rate > MWIFIEX_RATE_INDEX_OFDM0 then rx_rate - 1 else rx_rate)"

section \<open>Rates of a band\<close>

text \<open>The answers are the number of rates and the buffer with the rates.\<close>

primrec mwifiex_copy_rates ::
  "u8 list \<Rightarrow> nat \<Rightarrow> u8 list \<Rightarrow> nat \<Rightarrow> (nat \<times> u8 list) option" where
  "mwifiex_copy_rates dest pos src 0 = Some (pos, dest)"
| "mwifiex_copy_rates dest pos src (Suc len) =
     (case src of
        [] \<Rightarrow> None
      | r # src \<Rightarrow>
          if r = 0 then Some (pos, dest)
          else if pos \<ge> MWIFIEX_SUPPORTED_RATES then Some (pos, dest)
          else if pos < length dest then mwifiex_copy_rates (dest[pos := r]) (pos + 1) src len
          else None)"

definition mwifiex_get_supported_rates :: "cfp_priv \<Rightarrow> u8 list \<Rightarrow> (nat \<times> u8 list) option" where
  "mwifiex_get_supported_rates priv rates =
     (let copy = (\<lambda>tbl. mwifiex_copy_rates rates 0 tbl (length tbl))
      in if bss_mode priv = NL80211_IFTYPE_STATION \<or> bss_mode priv = NL80211_IFTYPE_P2P_CLIENT then
           (let b = config_bands priv
            in if b = BAND_B then copy supported_rates_b
               else if b \<in> {BAND_G, BAND_G OR BAND_GN} then copy supported_rates_g
               else if b \<in> {BAND_B OR BAND_G, BAND_A OR BAND_B OR BAND_G, BAND_A OR BAND_B,
                   BAND_A OR BAND_B OR BAND_G OR BAND_GN OR BAND_AN,
                   BAND_A OR BAND_B OR BAND_G OR BAND_GN OR BAND_AN OR BAND_AAC,
                   BAND_B OR BAND_G OR BAND_GN} then copy supported_rates_bg
               else if b \<in> {BAND_A, BAND_A OR BAND_G} then copy supported_rates_a
               else if b \<in> {BAND_AN, BAND_A OR BAND_AN, BAND_A OR BAND_AN OR BAND_AAC,
                   BAND_A OR BAND_G OR BAND_AN OR BAND_GN,
                   BAND_A OR BAND_G OR BAND_AN OR BAND_GN OR BAND_AAC} then copy supported_rates_a
               else if b = BAND_GN then copy supported_rates_n
               else Some (0, rates))
         else
           (let b = adhoc_start_band priv
            in if b = BAND_B then copy adhoc_rates_b
               else if b \<in> {BAND_G, BAND_G OR BAND_GN} then copy adhoc_rates_g
               else if b \<in> {BAND_B OR BAND_G, BAND_B OR BAND_G OR BAND_GN} then copy adhoc_rates_bg
               else if b \<in> {BAND_A, BAND_A OR BAND_AN} then copy adhoc_rates_a
               else Some (0, rates)))"

definition mwifiex_get_active_data_rates :: "cfp_priv \<Rightarrow> u8 list \<Rightarrow> (nat \<times> u8 list) option" where
  "mwifiex_get_active_data_rates priv rates =
     (if \<not> media_connected priv then mwifiex_get_supported_rates priv rates
      else mwifiex_copy_rates rates 0 (curr_data_rates priv) (curr_num_of_rates priv))"

text \<open>The rates a scan request asks for: those with their bit set in the mask.\<close>

fun masked_rates :: "u32 \<Rightarrow> nat \<Rightarrow> u16 list \<Rightarrow> u8 list \<Rightarrow> nat \<Rightarrow> (nat \<times> u8 list) option" where
  "masked_rates rate_mask i [] rates num_rates = Some (num_rates, rates)"
| "masked_rates rate_mask i (b # bs) rates num_rates =
     (if \<not> bit rate_mask i then masked_rates rate_mask (i + 1) bs rates num_rates
      else if num_rates < length rates then
        masked_rates rate_mask (i + 1) bs (rates[num_rates := ucast (b div 5)]) (num_rates + 1)
      else None)"

definition mwifiex_get_rates_from_cfg80211 ::
  "cfp_priv \<Rightarrow> u8 list \<Rightarrow> u8 \<Rightarrow> (nat \<times> u8 list) option" where
  "mwifiex_get_rates_from_cfg80211 priv rates radio_type =
     (case (if radio_type \<noteq> 0 then (band_5ghz priv, request_rates_5ghz priv)
            else (band_2ghz priv, request_rates_2ghz priv)) of
        (None, _) \<Rightarrow> Some (0, rates)
      | (Some sband, rate_mask) \<Rightarrow> masked_rates rate_mask 0 (bitrates sband) rates 0)"

definition mwifiex_is_rate_auto :: "cfp_priv \<Rightarrow> bool" where
  "mwifiex_is_rate_auto priv = (length (filter (\<lambda>r. r \<noteq> 0) (bitmap_rates priv)) > 1)"

section \<open>Channels\<close>

definition mwifiex_band_to_radio_type :: "u8 \<Rightarrow> u8" where
  "mwifiex_band_to_radio_type band =
     (if band \<in> {BAND_A, BAND_AN, BAND_A OR BAND_AN, BAND_A OR BAND_AN OR BAND_AAC}
      then HostCmd_SCAN_RADIO_TYPE_A else HostCmd_SCAN_RADIO_TYPE_BG)"

text \<open>\<open>True\<close> is the address of the triplet in the state, \<open>False\<close> the null pointer.\<close>

definition mwifiex_get_cfp :: "cfp_priv \<Rightarrow> u8 \<Rightarrow> u16 \<Rightarrow> u32 \<Rightarrow> bool \<times> cfp_priv" where
  "mwifiex_get_cfp priv band nr f =
     (if nr = 0 \<and> f = 0 then (False, priv)
      else
        (case (if mwifiex_band_to_radio_type band = HostCmd_SCAN_RADIO_TYPE_BG
               then band_2ghz priv else band_5ghz priv) of
           None \<Rightarrow> (False, priv)
         | Some sband \<Rightarrow>
             (case find (\<lambda>ch. ch_flags ch AND IEEE80211_CHAN_DISABLED = 0 \<and>
                   (if f \<noteq> 0 then ch_center_freq ch = f
                    else ch_hw_value ch = nr \<or> nr = FIRST_VALID_CHANNEL)) (channels sband) of
                None \<Rightarrow> (False, priv)
              | Some ch \<Rightarrow>
                  (True, priv\<lparr>cfp := cfp priv\<lparr>channel := ch_hw_value ch, freq := ch_center_freq ch,
                     max_tx_power := ch_max_power ch\<rparr>\<rparr>))))"

section \<open>Lookups stay inside their tables\<close>

lemma table_at_defined:
  assumes "unat row < length t" and "\<forall>r \<in> set t. length r = w" and "unat col < w"
  shows "table_at t row col = Some (t ! unat row ! unat col)"
  using assms by (simp add: table_at_def idx_def)

lemma same_tables: "Cfp.mwifiex_data_rates = Rates.mwifiex_data_rates" "Cfp.mcs_rate = Rates.mcs_rate"
  by (simp_all add: Cfp.mwifiex_data_rates_def Rates.mwifiex_data_rates_def Cfp.mcs_rate_def
      Rates.mcs_rate_def)

lemma mcs_table_at: "unat row < 4 \<Longrightarrow> table_at Cfp.mcs_rate row index = mcs_rate_at (unat row) index"
  by (simp add: table_at_def mcs_rate_at_def same_tables)

lemma mask_drop_bound:
  fixes h :: u8
  shows "unat (drop_bit n (h AND m)) \<le> unat m div 2 ^ n"
proof -
  have "unat (h AND m) \<le> unat m"
    using word_and_le1 [of h m] by (simp add: word_le_nat_alt)
  then have "unat (h AND m) div 2 ^ n \<le> unat m div 2 ^ n"
    by (rule div_le_mono)
  moreover have "unat (drop_bit n (h AND m)) = unat (h AND m) div 2 ^ n"
    by (simp only: unsigned_drop_bit_eq) (simp add: drop_bit_eq_div take_bit_nat_eq_self)
  ultimately show ?thesis
    by simp
qed

text \<open>Bandwidth and guard interval of a rate have four and two values.\<close>

lemma bw_gi_cases:
  fixes h :: u8
  obtains "drop_bit 2 (h AND 0xC) = 0" | "drop_bit 2 (h AND 0xC) = 1"
    | "drop_bit 2 (h AND 0xC) = 2" | "drop_bit 2 (h AND 0xC) = 3"
proof -
  have "unat (drop_bit 2 (h AND 0xC)) \<le> 3"
    using mask_drop_bound [of 2 h "0xC"] by simp
  then have "unat (drop_bit 2 (h AND 0xC)) \<in> {0, 1, 2, 3}"
    by auto
  then show thesis
    using that by (simp add: word_unat_eq_iff del: unat_eq_0) blast
qed

lemma gi_cases:
  fixes h :: u8
  obtains "drop_bit 4 (h AND 0x10) = 0" | "drop_bit 4 (h AND 0x10) = 1"
proof -
  have "unat (drop_bit 4 (h AND 0x10)) \<le> 1"
    using mask_drop_bound [of 4 h "0x10"] by simp
  then have "unat (drop_bit 4 (h AND 0x10)) \<in> {0, 1}"
    by auto
  then show thesis
    using that by (simp add: word_unat_eq_iff del: unat_eq_0) blast
qed

lemma ac_tables:
  "length ac_mcs_rate_nss1 = 8" "\<forall>r \<in> set ac_mcs_rate_nss1. length r = 10"
  "length ac_mcs_rate_nss2 = 8" "\<forall>r \<in> set ac_mcs_rate_nss2. length r = 10"
  by (simp_all add: ac_mcs_rate_nss1_def ac_mcs_rate_nss2_def)

lemma data_rates_at: "unat i < 32 \<Longrightarrow> idx Cfp.mwifiex_data_rates (unat i) \<noteq> None" for i :: u8
  by (simp add: idx_def same_tables)

lemma acs_rate_defined: "mwifiex_index_to_acs_data_rate index ht_info \<noteq> None"
proof -
  have col: "unat (min (index AND 0xF) 9) < 10"
    by (simp add: min_def word_le_nat_alt)
  have ht: "unat (2 * (1 - bw) + gi) < 4" if "bw = 1 \<or> bw = 0" "gi = 0 \<or> gi = 1" for bw gi :: u8
    using that by auto
  have vht: "unat (2 * (3 - drop_bit 2 (ht_info AND 0xC)) + drop_bit 4 (ht_info AND 0x10)) < 8"
    by (cases ht_info rule: bw_gi_cases; cases ht_info rule: gi_cases) simp_all
  have gi: "drop_bit 4 (ht_info AND 0x10) = 0 \<or> drop_bit 4 (ht_info AND 0x10) = 1"
    by (cases ht_info rule: gi_cases) simp_all
  show ?thesis
    unfolding mwifiex_index_to_acs_data_rate_def
    using vht col ac_tables ht gi mcs_rate_shape
    by (auto simp: Let_def table_at_defined [where w = 10] same_tables mcs_table_at idx_def
        table_at_defined [where w = 16] word_less_nat_alt
        word_le_nat_alt MWIFIEX_SUPPORTED_RATES_EXT_def)
qed

section \<open>Copied rates\<close>

lemma copy_rates_prefix:
  assumes "length src \<le> len \<Longrightarrow> 0 \<in> set src" and "pos + length (takeWhile (\<lambda>r. r \<noteq> 0) src) \<le> 14"
    and "14 \<le> length dest"
  shows "mwifiex_copy_rates dest pos src len =
    (let rs = take len (takeWhile (\<lambda>r. r \<noteq> 0) src)
     in Some (pos + length rs, take pos dest @ rs @ drop (pos + length rs) dest))"
  using assms
proof (induction len arbitrary: dest pos src)
  case (Suc len)
  show ?case
  proof (cases src)
    case (Cons r src')
    show ?thesis
    proof (cases "r = 0")
      case False
      have "mwifiex_copy_rates (dest[pos := r]) (Suc pos) src' len =
        (let rs = take len (takeWhile (\<lambda>r. r \<noteq> 0) src')
         in Some (Suc pos + length rs, take (Suc pos) (dest[pos := r]) @ rs @
           drop (Suc pos + length rs) (dest[pos := r])))"
        using Suc.prems Cons False by (intro Suc.IH) auto
      moreover have "pos < 14" "pos < length dest"
        using Suc.prems(2,3) Cons False by auto
      ultimately show ?thesis
        using Cons False
        by (simp add: MWIFIEX_SUPPORTED_RATES_def Let_def take_Suc_conv_app_nth drop_update_cancel)
    qed (use Cons in simp)
  qed (use Suc.prems(1) in auto)
qed simp

text \<open>The rates of a terminated table, and the tables of the driver.\<close>

definition rates_of :: "u8 list \<Rightarrow> u8 list" where
  "rates_of = takeWhile (\<lambda>r. r \<noteq> 0)"

definition terminated :: "u8 list \<Rightarrow> bool" where
  "terminated src \<longleftrightarrow> 0 \<in> set src \<and> length (rates_of src) \<le> 14"

lemma copy_terminated:
  assumes "terminated src" and "14 \<le> length dest"
  shows "mwifiex_copy_rates dest 0 src (length src) =
    Some (length (rates_of src), rates_of src @ drop (length (rates_of src)) dest)"
proof -
  have "length (takeWhile (\<lambda>r. r \<noteq> 0) src) \<le> length src"
    by (rule length_takeWhile_le)
  then show ?thesis
    using copy_rates_prefix [of src "length src" 0 dest] assms
    by (simp add: terminated_def rates_of_def Let_def)
qed

lemma tables_terminated [simp]:
  "terminated supported_rates_a" "terminated supported_rates_b" "terminated supported_rates_g"
  "terminated supported_rates_bg" "terminated supported_rates_n"
  "terminated adhoc_rates_a" "terminated adhoc_rates_b" "terminated adhoc_rates_g"
  "terminated adhoc_rates_bg"
  by (simp_all add: terminated_def rates_of_def supported_rates_a_def supported_rates_b_def
      supported_rates_g_def supported_rates_bg_def supported_rates_n_def adhoc_rates_a_def
      adhoc_rates_b_def adhoc_rates_g_def adhoc_rates_bg_def)

section \<open>Properties\<close>

text \<open>C39: the plugin's rate lookup is the driver's. For a chip without 802.11ac and with one
  stream, the driver's lookup never leaves its tables, and the plugin's answers the same rate
  but for the indices at which it reads past its table.\<close>

theorem plugin_rate_is_driver_rate:
  assumes "\<not> is_hw_11ac_capable priv" and "user_dev_mcs_support priv \<noteq> HT_STREAM_2X2"
  shows "\<exists>rate. Cfp.mwifiex_index_to_data_rate priv index ht_info = Some rate \<and>
    Rates.mwifiex_index_to_data_rate index ht_info =
      (if \<not> bit ht_info 0 \<and> 32 \<le> unat index \<and> unat index < 64 then None else Some rate)"
proof (cases "ht_info AND 1 = 0")
  case True
  then show ?thesis
    using assms
    by (auto simp: Cfp.mwifiex_index_to_data_rate_def Rates.mwifiex_index_to_data_rate_def
        same_tables idx_def Let_def word_and_1_zero_iff MWIFIEX_SUPPORTED_RATES_EXT_def
        word_le_nat_alt)
next
  case False
  then show ?thesis
    using assms
    by (simp add: Cfp.mwifiex_index_to_data_rate_def Rates.mwifiex_index_to_data_rate_def
        same_tables mcs_table_at [unfolded same_tables] mcs_rate_at_defined idx_def word_and_1_zero_iff word_less_nat_alt
        Cfp.MWIFIEX_RATE_BITMAP_MCS0_def Rates.MWIFIEX_RATE_BITMAP_MCS0_def)
qed

definition demo_priv :: cfp_priv where
  "demo_priv = \<lparr>user_dev_mcs_support = 0x11, is_hw_11ac_capable = False, config_bands = 11,
     adhoc_start_band = 3, band_2ghz = None, band_5ghz = None, request_rates_2ghz = 0,
     request_rates_5ghz = 0, bss_mode = 2, media_connected = False, curr_data_rates = [],
     curr_num_of_rates = 0, bitmap_rates = [],
     cfp = \<lparr>channel = 0, freq = 0, max_tx_power = 0, unsupported = 0\<rparr>\<rparr>"

theorem plugin_rate_is_driver_rate_witness:
  "Cfp.mwifiex_index_to_data_rate demo_priv 7 3 = Rates.mwifiex_index_to_data_rate 7 3"
  using plugin_rate_is_driver_rate [of demo_priv 7 3] by (auto simp: demo_priv_def HT_STREAM_2X2_def)

text \<open>The band combinations with rates, and lists of distinct legacy rates.\<close>

definition infra_bands :: "u8 list" where
  "infra_bands = [1, 2, 10, 3, 7, 5, 31, 63, 11, 4, 6, 16, 20, 52, 30, 62, 8]"

definition adhoc_bands :: "u8 list" where
  "adhoc_bands = [1, 2, 10, 3, 11, 4, 20]"

definition legacy_rates :: "u8 list \<Rightarrow> bool" where
  "legacy_rates rs \<longleftrightarrow> rs \<noteq> [] \<and> distinct (map (\<lambda>r. r AND 0x7f) rs) \<and>
     set (map (\<lambda>r. r AND 0x7f) rs) \<subseteq> set [2, 4, 11, 22, 12, 18, 24, 36, 48, 72, 96, 108]"

lemma tables_legacy:
  "list_all (\<lambda>t. legacy_rates (rates_of t)) [supported_rates_a, supported_rates_b, supported_rates_g,
     supported_rates_bg, supported_rates_n, adhoc_rates_a, adhoc_rates_b, adhoc_rates_g, adhoc_rates_bg]"
  by (simp add: legacy_rates_def rates_of_def supported_rates_a_def supported_rates_b_def
      supported_rates_g_def supported_rates_bg_def supported_rates_n_def adhoc_rates_a_def
      adhoc_rates_b_def adhoc_rates_g_def adhoc_rates_bg_def)

text \<open>The rates of a band. Into any buffer of the driver's size, the driver writes a list of
  distinct legacy rates (the top bit marks the basic ones) and leaves the rest of the buffer as
  it was; the list is empty exactly if the band combination is none of those listed.\<close>

theorem supported_rates_outcome:
  assumes "length rates = 14"
  shows "\<exists>rs. mwifiex_get_supported_rates priv rates = Some (length rs, rs @ drop (length rs) rates) \<and>
    (if (if bss_mode priv \<in> {NL80211_IFTYPE_STATION, NL80211_IFTYPE_P2P_CLIENT}
         then config_bands priv \<in> set infra_bands else adhoc_start_band priv \<in> set adhoc_bands)
     then legacy_rates rs else rs = [])"
proof -
  have copy: "mwifiex_copy_rates rates 0 t (length t) =
      Some (length (rates_of t), rates_of t @ drop (length (rates_of t)) rates)" if "terminated t" for t
    using copy_terminated [OF that] assms by simp
  note legacy = tables_legacy [simplified]
  show ?thesis
  proof (cases "bss_mode priv = NL80211_IFTYPE_STATION \<or> bss_mode priv = NL80211_IFTYPE_P2P_CLIENT")
    case True
    then show ?thesis
      using legacy
      by (auto simp: mwifiex_get_supported_rates_def Let_def copy band_consts infra_bands_def
          split: if_split)
  next
    case False
    then show ?thesis
      using legacy
      by (auto simp: mwifiex_get_supported_rates_def Let_def copy band_consts adhoc_bands_def
          split: if_split)
  qed
qed

theorem supported_rates_outcome_witness:
  "\<exists>rs. mwifiex_get_supported_rates demo_priv (replicate 14 0) =
     Some (length rs, rs @ drop (length rs) (replicate 14 0)) \<and> legacy_rates rs"
  using supported_rates_outcome [of "replicate 14 0" demo_priv]
  by (auto simp: demo_priv_def NL80211_IFTYPE_STATION_def infra_bands_def)

text \<open>The table for two streams. Each of its rates is twice the rate for one stream, up to
  rounding by two units, except the third for 20 MHz with the long guard interval.\<close>

theorem two_stream_rates:
  "filter (\<lambda>(row, col). \<not> \<bar>2 * int (unat (ac_mcs_rate_nss1 ! row ! col)) -
      int (unat (ac_mcs_rate_nss2 ! row ! col))\<bar> \<le> 2)
     (List.product [0..<8] [0..<10]) = [(6, 2)]"
  by code_simp

end
