(* ===== verification/Rx_Window.thy ===== *)
theory Rx_Window
  imports Wifi_Prelude "HOL-Library.Multiset"
begin

text \<open>
  The receive reorder window of the mwifiex driver, \<open>doc/mwifiex/11n_rxreorder.c\<close>: packets of
  an 802.11n block-ack session arrive out of order, wait in a window of slots counted from the
  next expected sequence number, and are handed up in order. This theory has the operations on
  one table; \<open>Rx_Reorder\<close> has those on the list of tables.

  The layers above are the fields of \<open>upper\<close>, functions over an unspecified state \<open>'w\<close>. Spin
  locks are left out: an operation runs alone. \<open>None\<close> is an access outside the slots.
\<close>

section \<open>State\<close>

definition MAX_TID_VALUE :: int where "MAX_TID_VALUE = 2 * 2 ^ 11"
definition TWOPOW11 :: int where "TWOPOW11 = 2 * 2 ^ 10"
definition PKT_TYPE_BAR :: u8 where "PKT_TYPE_BAR = 0xE7"
definition PKT_TYPE_AMSDU :: u8 where "PKT_TYPE_AMSDU = 0xE6"
definition RXREOR_FORCE_NO_DROP :: u8 where "RXREOR_FORCE_NO_DROP = 1"
definition RXREOR_INIT_WINDOW_SHIFT :: u8 where "RXREOR_INIT_WINDOW_SHIFT = 2"
definition MIN_FLUSH_TIMER_MS :: u32 where "MIN_FLUSH_TIMER_MS = 50"
definition MIN_FLUSH_TIMER_15_MS :: u32 where "MIN_FLUSH_TIMER_15_MS = 15"
definition MWIFIEX_BA_WIN_SIZE_32 :: int where "MWIFIEX_BA_WIN_SIZE_32 = 32"
definition MWIFIEX_BSS_ROLE_UAP :: u8 where "MWIFIEX_BSS_ROLE_UAP = 1"
definition ETH_P_TDLS :: u16 where "ETH_P_TDLS = 0x890D"

text \<open>
  A table: station and traffic identifier, window, and slots (\<open>None\<close> is an empty slot).
  \<open>timer_ms\<close> is the delay the flush timer was last armed with.
\<close>

record rx_tbl =
  tid :: int
  ta :: "byte list"
  init_win :: int
  start_win :: int
  win_size :: int
  rx_reorder_ptr :: "byte list option list"
  timer_is_set :: bool
  timer_ms :: u32
  amsdu :: bool
  tbl_flags :: u8

text \<open>
  The calls into the rest of the driver and the kernel. \<open>amsdu_to_8023s\<close> is the splitting of an
  aggregate into its frames.
\<close>

record 'w upper =
  amsdu_to_8023s :: "byte list \<Rightarrow> byte list list"
  tdls_enabled :: bool
  process_tdls_action_frame :: "byte list \<Rightarrow> nat \<Rightarrow> 'w \<Rightarrow> 'w"
  uap_recv_packet :: "byte list \<Rightarrow> 'w \<Rightarrow> int \<times> 'w"
  recv_packet :: "byte list \<Rightarrow> 'w \<Rightarrow> int \<times> 'w"
  handle_uap_rx_forward :: "byte list \<Rightarrow> 'w \<Rightarrow> int \<times> 'w"
  process_rx_packet :: "byte list \<Rightarrow> 'w \<Rightarrow> int \<times> 'w"
  bss_role :: u8

section \<open>Handing packets up\<close>

text \<open>\<open>h_proto\<close> of an Ethernet frame is in network byte order.\<close>

definition h_proto :: "byte list \<Rightarrow> u16" where
  "h_proto frame = ld16 (rev (take 2 (drop 12 frame)))"

definition recv_subframe :: "'w upper \<Rightarrow> nat \<Rightarrow> byte list \<Rightarrow> 'w \<Rightarrow> 'w" where
  "recv_subframe u len frame w =
     (let w = (if tdls_enabled u \<and> h_proto frame = ETH_P_TDLS
               then process_tdls_action_frame u frame len w else w)
      in if bss_role u = MWIFIEX_BSS_ROLE_UAP then snd (uap_recv_packet u frame w)
         else snd (recv_packet u frame w))"

text \<open>A packet starts with \<open>struct rxpd\<close>: length, offset and type are at 2, 4 and 6.\<close>

definition mwifiex_11n_dispatch_amsdu_pkt :: "'w upper \<Rightarrow> byte list \<Rightarrow> 'w \<Rightarrow> int \<times> 'w" where
  "mwifiex_11n_dispatch_amsdu_pkt u skb w =
     (if ld16 (drop 6 skb) = ucast PKT_TYPE_AMSDU then
        (let msdu = take (unat (ld16 (drop 2 skb))) (drop (unat (ld16 (drop 4 skb))) skb)
         in (0, fold (recv_subframe u (length msdu)) (amsdu_to_8023s u msdu) w))
      else (-1, w))"

text \<open>A packet may be the null pointer: the firmware dropped it.\<close>

definition mwifiex_11n_dispatch_pkt :: "'w upper \<Rightarrow> byte list option \<Rightarrow> 'w \<Rightarrow> int \<times> 'w" where
  "mwifiex_11n_dispatch_pkt u payload w =
     (case payload of
        None \<Rightarrow> (0, w)
      | Some skb \<Rightarrow>
          (let (ret, w) = mwifiex_11n_dispatch_amsdu_pkt u skb w
           in if ret = 0 then (0, w)
              else if bss_role u = MWIFIEX_BSS_ROLE_UAP then handle_uap_rx_forward u skb w
              else process_rx_packet u skb w))"

section \<open>Moving the window\<close>

text \<open>
  The two loops over the slots. The first empties \<open>n\<close> slots from \<open>i\<close> on and hands their
  packets up; the second moves \<open>n\<close> slots down by \<open>d\<close> and empties where they were.
\<close>

primrec dispatch_slots ::
  "'w upper \<Rightarrow> nat \<Rightarrow> nat \<Rightarrow> byte list option list \<Rightarrow> 'w \<Rightarrow> (byte list option list \<times> 'w) option" where
  "dispatch_slots u 0 i ptrs w = Some (ptrs, w)"
| "dispatch_slots u (Suc n) i ptrs w = do {
     rx_tmp_ptr \<leftarrow> idx ptrs i;
     let w = (if rx_tmp_ptr \<noteq> None then snd (mwifiex_11n_dispatch_pkt u rx_tmp_ptr w) else w);
     dispatch_slots u n (i + 1) (ptrs[i := None]) w
   }"

primrec shift_slots ::
  "nat \<Rightarrow> nat \<Rightarrow> nat \<Rightarrow> byte list option list \<Rightarrow> byte list option list option" where
  "shift_slots 0 d i ptrs = Some ptrs"
| "shift_slots (Suc n) d i ptrs = do {
     p \<leftarrow> idx ptrs (d + i);
     shift_slots n d (i + 1) ((ptrs[i := p])[d + i := None])
   }"

definition mwifiex_11n_dispatch_pkt_until_start_win ::
  "'w upper \<Rightarrow> rx_tbl \<Rightarrow> int \<Rightarrow> 'w \<Rightarrow> (rx_tbl \<times> 'w) option" where
  "mwifiex_11n_dispatch_pkt_until_start_win u tbl start w =
     (let pkt_to_send = (if start > start_win tbl then min (start - start_win tbl) (win_size tbl)
                         else win_size tbl)
      in do {
        (ptrs, w) \<leftarrow> dispatch_slots u (nat pkt_to_send) 0 (rx_reorder_ptr tbl) w;
        ptrs \<leftarrow> shift_slots (nat (win_size tbl - pkt_to_send)) (nat pkt_to_send) 0 ptrs;
        Some (tbl\<lparr>rx_reorder_ptr := ptrs, start_win := start\<rparr>, w)
      })"

text \<open>The loop up to the first hole; the answer starts with where it stopped.\<close>

primrec scan_slots ::
  "'w upper \<Rightarrow> nat \<Rightarrow> nat \<Rightarrow> byte list option list \<Rightarrow> 'w \<Rightarrow>
     (nat \<times> byte list option list \<times> 'w) option" where
  "scan_slots u 0 i ptrs w = Some (i, ptrs, w)"
| "scan_slots u (Suc n) i ptrs w = do {
     rx_tmp_ptr \<leftarrow> idx ptrs i;
     if rx_tmp_ptr = None then Some (i, ptrs, w)
     else scan_slots u n (i + 1) (ptrs[i := None]) (snd (mwifiex_11n_dispatch_pkt u rx_tmp_ptr w))
   }"

definition mwifiex_11n_scan_and_dispatch ::
  "'w upper \<Rightarrow> rx_tbl \<Rightarrow> 'w \<Rightarrow> (rx_tbl \<times> 'w) option" where
  "mwifiex_11n_scan_and_dispatch u tbl w = do {
     (i, ptrs, w) \<leftarrow> scan_slots u (nat (win_size tbl)) 0 (rx_reorder_ptr tbl) w;
     ptrs \<leftarrow> (if i > 0 then shift_slots (nat (win_size tbl) - i) i 0 ptrs else Some ptrs);
     Some (tbl\<lparr>rx_reorder_ptr := ptrs,
       start_win := (start_win tbl + int i) AND (MAX_TID_VALUE - 1)\<rparr>, w)
   }"

section \<open>The flush timer\<close>

text \<open>The index of the last occupied slot; -1 if there is none.\<close>

primrec last_slot :: "nat \<Rightarrow> byte list option list \<Rightarrow> int option" where
  "last_slot 0 ptrs = Some (-1)"
| "last_slot (Suc n) ptrs = do {
     p \<leftarrow> idx ptrs n;
     if p \<noteq> None then Some (int n) else last_slot n ptrs
   }"

definition mwifiex_11n_find_last_seq_num :: "rx_tbl \<Rightarrow> int option" where
  "mwifiex_11n_find_last_seq_num tbl = last_slot (nat (win_size tbl)) (rx_reorder_ptr tbl)"

definition mwifiex_flush_data :: "'w upper \<Rightarrow> rx_tbl \<Rightarrow> 'w \<Rightarrow> (rx_tbl \<times> 'w) option" where
  "mwifiex_flush_data u tbl w =
     (let tbl = tbl\<lparr>timer_is_set := False\<rparr>
      in do {
        seq_num \<leftarrow> mwifiex_11n_find_last_seq_num tbl;
        if seq_num < 0 then Some (tbl, w)
        else mwifiex_11n_dispatch_pkt_until_start_win u tbl
          ((start_win tbl + seq_num + 1) AND (MAX_TID_VALUE - 1)) w
      })"

definition mwifiex_11n_rxreorder_timer_restart :: "rx_tbl \<Rightarrow> rx_tbl" where
  "mwifiex_11n_rxreorder_timer_restart tbl =
     (let min_flush_time = (if win_size tbl \<ge> MWIFIEX_BA_WIN_SIZE_32 then MIN_FLUSH_TIMER_15_MS
                            else MIN_FLUSH_TIMER_MS)
      in tbl\<lparr>timer_ms := min_flush_time * of_int (win_size tbl), timer_is_set := True\<rparr>)"

section \<open>A packet for a window\<close>

text \<open>
  The part of \<open>mwifiex_11n_rx_reorder_pkt\<close> after the table was found. First the decision
  whether the packet is too old, with the flags and the start it may change.
\<close>

definition admit_seq :: "int \<Rightarrow> rx_tbl \<Rightarrow> bool \<times> rx_tbl" where
  "admit_seq seq_num tbl =
     (let init_window_shift = (tbl_flags tbl AND RXREOR_INIT_WINDOW_SHIFT \<noteq> 0);
          tbl = (if init_window_shift
                 then tbl\<lparr>tbl_flags := tbl_flags tbl AND NOT RXREOR_INIT_WINDOW_SHIFT\<rparr> else tbl)
      in if tbl_flags tbl AND RXREOR_FORCE_NO_DROP \<noteq> 0 then
           (True, tbl\<lparr>tbl_flags := tbl_flags tbl AND NOT RXREOR_FORCE_NO_DROP\<rparr>)
         else if init_window_shift \<and> seq_num < start_win tbl \<and> seq_num \<ge> init_win tbl then
           (True, tbl\<lparr>start_win := seq_num\<rparr>)
         else if start_win tbl + TWOPOW11 > MAX_TID_VALUE - 1 then
           (\<not> (seq_num \<ge> ((start_win tbl + TWOPOW11) AND (MAX_TID_VALUE - 1)) \<and>
               seq_num < start_win tbl), tbl)
         else (\<not> (seq_num < start_win tbl \<or> seq_num \<ge> start_win tbl + TWOPOW11), tbl))"

text \<open>Then the window is moved if the packet is beyond it; \<open>end_win\<close> is its last number.\<close>

definition advance_win :: "'w upper \<Rightarrow> int \<Rightarrow> rx_tbl \<Rightarrow> 'w \<Rightarrow> (rx_tbl \<times> 'w) option" where
  "advance_win u seq_num tbl w =
     (let end_win = (start_win tbl + win_size tbl - 1) AND (MAX_TID_VALUE - 1)
      in if (end_win < start_win tbl \<and> seq_num < start_win tbl \<and> seq_num > end_win) \<or>
            (end_win > start_win tbl \<and> (seq_num > end_win \<or> seq_num < start_win tbl)) then
           (let end_win = seq_num;
                start = (if end_win - win_size tbl + 1 \<ge> 0 then end_win - win_size tbl + 1
                         else MAX_TID_VALUE - (win_size tbl - end_win) + 1)
            in mwifiex_11n_dispatch_pkt_until_start_win u tbl start w)
         else Some (tbl, w))"

text \<open>\<open>pkt_index\<close> has 16 bits. An occupied slot refuses the packet.\<close>

definition store_pkt :: "int \<Rightarrow> byte list option \<Rightarrow> rx_tbl \<Rightarrow> (int \<times> rx_tbl) option" where
  "store_pkt seq_num payload tbl =
     (let pkt_index = unat (of_int (if seq_num \<ge> start_win tbl then seq_num - start_win tbl
                                    else seq_num + MAX_TID_VALUE - start_win tbl) :: u16)
      in do {
        p \<leftarrow> idx (rx_reorder_ptr tbl) pkt_index;
        if p \<noteq> None then Some (-1, tbl)
        else Some (0, tbl\<lparr>rx_reorder_ptr := (rx_reorder_ptr tbl)[pkt_index := payload]\<rparr>)
      })"

definition reorder_in_tbl ::
  "'w upper \<Rightarrow> u16 \<Rightarrow> u8 \<Rightarrow> byte list option \<Rightarrow> rx_tbl \<Rightarrow> 'w \<Rightarrow> (int \<times> rx_tbl \<times> 'w) option" where
  "reorder_in_tbl u seq pkt_type payload tbl w =
     (if pkt_type = PKT_TYPE_AMSDU \<and> \<not> amsdu tbl then
        Some (0, tbl, snd (mwifiex_11n_dispatch_pkt u payload w))
      else
        (let prev_start_win = start_win tbl;
             seq_num = uint seq;
             (admitted, tbl) = admit_seq seq_num tbl
         in do {
           (ret, tbl, w) \<leftarrow>
             (if \<not> admitted then Some (-1, tbl, w)
              else
                (let seq_num = (if pkt_type = PKT_TYPE_BAR
                       then (seq_num + win_size tbl - 1) AND (MAX_TID_VALUE - 1) else seq_num)
                 in do {
                   (tbl, w) \<leftarrow> advance_win u seq_num tbl w;
                   (ret, tbl) \<leftarrow> (if pkt_type \<noteq> PKT_TYPE_BAR then store_pkt seq_num payload tbl
                                  else Some (0, tbl));
                   if ret \<noteq> 0 then Some (ret, tbl, w)
                   else map_option (Pair 0) (mwifiex_11n_scan_and_dispatch u tbl w)
                 }));
           let tbl = (if \<not> timer_is_set tbl \<or> prev_start_win \<noteq> start_win tbl
                      then mwifiex_11n_rxreorder_timer_restart tbl else tbl);
           Some (ret, tbl, w)
         }))"

section \<open>What the loops do\<close>

text \<open>The packets in a list of slots, and handing one up.\<close>

definition packets :: "'a option list \<Rightarrow> 'a list" where
  "packets ptrs = map the (filter (\<lambda>p. p \<noteq> None) ptrs)"

lemma packets_simps [simp]:
  "packets [] = []" "packets (None # ps) = packets ps" "packets (Some p # ps) = p # packets ps"
  "packets (ps @ qs) = packets ps @ packets qs" "packets (replicate n None) = []"
  by (simp_all add: packets_def)

definition deliver :: "'w upper \<Rightarrow> byte list \<Rightarrow> 'w \<Rightarrow> 'w" where
  "deliver u p w = snd (mwifiex_11n_dispatch_pkt u (Some p) w)"

text \<open>The window moved by \<open>d\<close> slots, and by the run of packets at its start.\<close>

definition slide :: "nat \<Rightarrow> 'a option list \<Rightarrow> 'a option list" where
  "slide d ptrs = drop d ptrs @ replicate (min d (length ptrs)) None"

definition run_length :: "'a option list \<Rightarrow> nat" where
  "run_length ptrs = length (takeWhile (\<lambda>p. p \<noteq> None) ptrs)"

lemma length_slide [simp]: "length (slide d ptrs) = length ptrs"
  by (simp add: slide_def)

lemma run_length_le: "run_length ptrs \<le> length ptrs"
  by (simp add: run_length_def length_takeWhile_le)

lemma take_slot: "i < length ps \<Longrightarrow> take (Suc n) (drop i ps) = [ps ! i] @ take n (drop (Suc i) ps)"
  by (simp add: Cons_nth_drop_Suc [symmetric])

lemma take_cleared: "i < length ps \<Longrightarrow> take (Suc i) (ps[i := x]) = take i ps @ [x]"
  by (simp add: take_Suc_conv_app_nth)

lemma dispatch_slots_eq:
  "i + n \<le> length ptrs \<Longrightarrow> dispatch_slots u n i ptrs w =
     Some (take i ptrs @ replicate n None @ drop (i + n) ptrs,
       fold (deliver u) (packets (take n (drop i ptrs))) w)"
proof (induction n arbitrary: i ptrs w)
  case (Suc n)
  then have i: "i < length ptrs" by simp
  let ?w = "fold (deliver u) (packets [ptrs ! i]) w"
  have "dispatch_slots u (Suc n) i ptrs w = dispatch_slots u n (Suc i) (ptrs[i := None]) ?w"
    using i by (cases "ptrs ! i") (simp_all add: idx_def deliver_def Let_def)
  also have "\<dots> = Some (take (Suc i) (ptrs[i := None]) @ replicate n None @ drop (Suc i + n) (ptrs[i := None]),
      fold (deliver u) (packets (take n (drop (Suc i) (ptrs[i := None])))) ?w)"
    using Suc.prems by (intro Suc.IH) simp
  also have "\<dots> = Some (take i ptrs @ replicate (Suc n) None @ drop (i + Suc n) ptrs,
      fold (deliver u) (packets (take (Suc n) (drop i ptrs))) w)"
    unfolding take_slot [OF i] take_cleared [OF i] by (cases "ptrs ! i") simp_all
  finally show ?case .
qed simp

lemma shift_slots_gen:
  assumes "d + i + n = length ptrs" and "0 < d"
  shows "shift_slots n d i ptrs = Some (map (\<lambda>j.
    if i \<le> j \<and> j < i + n then ptrs ! (d + j) else if d + i \<le> j then None else ptrs ! j)
      [0..<length ptrs])"
  using assms
proof (induction n arbitrary: i ptrs)
  case 0
  have "ptrs = map (\<lambda>j. if i \<le> j \<and> j < i + 0 then ptrs ! (d + j) else if d + i \<le> j then None else ptrs ! j)
      [0..<length ptrs]"
    using 0 by (intro nth_equalityI) auto
  then show ?case
    by simp
next
  case (Suc n)
  define qs where "qs = (ptrs[i := ptrs ! (d + i)])[d + i := None]"
  have len: "length qs = length ptrs"
    by (simp add: qs_def)
  have step: "shift_slots (Suc n) d i ptrs = shift_slots n d (Suc i) qs"
    using Suc.prems by (simp add: idx_def qs_def)
  have ih: "shift_slots n d (Suc i) qs = Some (map (\<lambda>j.
      if Suc i \<le> j \<and> j < Suc i + n then qs ! (d + j) else if d + Suc i \<le> j then None else qs ! j)
        [0..<length qs])"
    using Suc.prems by (intro Suc.IH) (simp_all add: len)
  show ?case
    unfolding step ih len
  proof (intro arg_cong [where f = Some] map_cong refl)
    fix j assume "j \<in> set [0..<length ptrs]"
    then show "(if Suc i \<le> j \<and> j < Suc i + n then qs ! (d + j) else if d + Suc i \<le> j then None else qs ! j) =
        (if i \<le> j \<and> j < i + Suc n then ptrs ! (d + j) else if d + i \<le> j then None else ptrs ! j)"
      using Suc.prems by (cases "j = i"; cases "j = d + i") (simp_all add: qs_def nth_list_update)
  qed
qed

lemma shift_slots_eq:
  assumes "0 < d" and "d \<le> length ptrs" and "\<forall>j < d. ptrs ! j = None"
  shows "shift_slots (length ptrs - d) d 0 ptrs = Some (drop d ptrs @ replicate d None)"
proof -
  have "shift_slots (length ptrs - d) d 0 ptrs = Some (map (\<lambda>j.
      if 0 \<le> j \<and> j < 0 + (length ptrs - d) then ptrs ! (d + j) else if d + 0 \<le> j then None else ptrs ! j)
        [0..<length ptrs])"
    using assms by (intro shift_slots_gen) simp_all
  also have "\<dots> = Some (drop d ptrs @ replicate d None)"
    using assms by (intro arg_cong [where f = Some] nth_equalityI) (auto simp: nth_append)
  finally show ?thesis .
qed

lemma scan_slots_eq:
  "i + n = length ptrs \<Longrightarrow> scan_slots u n i ptrs w =
     (let k = run_length (drop i ptrs)
      in Some (i + k, take i ptrs @ replicate k None @ drop (i + k) ptrs,
        fold (deliver u) (packets (take k (drop i ptrs))) w))"
proof (induction n arbitrary: i ptrs w)
  case (Suc n)
  then have i: "i < length ptrs" by simp
  show ?case
  proof (cases "ptrs ! i")
    case None
    then have "run_length (drop i ptrs) = 0"
      using i by (simp add: run_length_def Cons_nth_drop_Suc [symmetric])
    then show ?thesis
      using i None by (simp add: idx_def)
  next
    case (Some p)
    define k where "k = run_length (drop (Suc i) ptrs)"
    have run: "run_length (drop i ptrs) = Suc k"
      using i Some by (simp add: run_length_def k_def Cons_nth_drop_Suc [symmetric])
    let ?w = "deliver u p w"
    have "scan_slots u (Suc n) i ptrs w = scan_slots u n (Suc i) (ptrs[i := None]) ?w"
      using i Some by (simp add: idx_def deliver_def)
    also have "\<dots> = (let k = run_length (drop (Suc i) (ptrs[i := None]))
        in Some (Suc i + k, take (Suc i) (ptrs[i := None]) @ replicate k None @ drop (Suc i + k) (ptrs[i := None]),
          fold (deliver u) (packets (take k (drop (Suc i) (ptrs[i := None])))) ?w))"
      using Suc.prems by (intro Suc.IH) simp
    also have "\<dots> = (let k = run_length (drop i ptrs)
        in Some (i + k, take i ptrs @ replicate k None @ drop (i + k) ptrs,
          fold (deliver u) (packets (take k (drop i ptrs))) w))"
      unfolding run take_cleared [OF i] Let_def take_slot [OF i]
      by (simp add: k_def [symmetric] Some)
    finally show ?thesis .
  qed
qed (simp add: run_length_def)

section \<open>The operations on a sound table\<close>

text \<open>
  Sound: as many slots as the window size says, at least two and at most half the sequence
  numbers, and a start that is a sequence number or one past the last.
\<close>

definition tbl_ok :: "rx_tbl \<Rightarrow> bool" where
  "tbl_ok t \<longleftrightarrow> 2 \<le> length (rx_reorder_ptr t) \<and> length (rx_reorder_ptr t) \<le> 2048 \<and>
     win_size t = int (length (rx_reorder_ptr t)) \<and> 0 \<le> start_win t \<and> start_win t \<le> 4096"

lemma and_4095: "x AND (MAX_TID_VALUE - 1) = x mod 4096" for x :: int
proof -
  have "MAX_TID_VALUE - 1 = mask 12"
    by (simp add: MAX_TID_VALUE_def mask_eq_exp_minus_1)
  then show ?thesis
    by (simp add: take_bit_eq_mod flip: take_bit_eq_mask)
qed

lemma slide_replicate: "drop d ptrs @ replicate d None = slide d ptrs" if "d \<le> length ptrs"
  using that by (simp add: slide_def)

lemma until_eq:
  assumes "tbl_ok t"
    and "d = (if start > start_win t then min (nat (start - start_win t)) (length (rx_reorder_ptr t))
      else length (rx_reorder_ptr t))"
  shows "mwifiex_11n_dispatch_pkt_until_start_win u t start w =
    Some (t\<lparr>rx_reorder_ptr := slide d (rx_reorder_ptr t), start_win := start\<rparr>,
      fold (deliver u) (packets (take d (rx_reorder_ptr t))) w)"
proof -
  let ?p = "rx_reorder_ptr t"
  let ?q = "replicate d None @ drop d ?p"
  have win: "win_size t = int (length ?p)" "2 \<le> length ?p"
    using assms(1) by (simp_all add: tbl_ok_def)
  have d: "0 < d" "d \<le> length ?p"
    using assms(2) win(2) by (auto simp: min_def)
  have send: "(if start > start_win t then min (start - start_win t) (win_size t) else win_size t) = int d"
    using assms(2) win(1) by (auto simp: min_def)
  have disp: "dispatch_slots u d 0 ?p w = Some (?q, fold (deliver u) (packets (take d ?p)) w)"
    using dispatch_slots_eq [of 0 d ?p u w] d by simp
  have "shift_slots (length ?q - d) d 0 ?q = Some (drop d ?q @ replicate d None)"
    using d by (intro shift_slots_eq) (simp_all add: nth_append)
  then have shift: "shift_slots (nat (win_size t - int d)) d 0 ?q = Some (slide d ?p)"
    using d win(1) by (simp add: slide_replicate nat_diff_distrib)
  show ?thesis
    unfolding mwifiex_11n_dispatch_pkt_until_start_win_def Let_def send nat_int
    by (simp add: disp shift)
qed

lemma scan_eq:
  assumes "tbl_ok t" and "k = run_length (rx_reorder_ptr t)"
  shows "mwifiex_11n_scan_and_dispatch u t w =
    Some (t\<lparr>rx_reorder_ptr := slide k (rx_reorder_ptr t), start_win := (start_win t + int k) mod 4096\<rparr>,
      fold (deliver u) (packets (take k (rx_reorder_ptr t))) w)"
proof -
  let ?p = "rx_reorder_ptr t"
  let ?q = "replicate k None @ drop k ?p"
  have win: "nat (win_size t) = length ?p"
    using assms(1) by (simp add: tbl_ok_def)
  have k: "k \<le> length ?p"
    by (simp add: assms(2) run_length_le)
  have scan: "scan_slots u (length ?p) 0 ?p w = Some (k, ?q, fold (deliver u) (packets (take k ?p)) w)"
    using scan_slots_eq [of 0 "length ?p" ?p u w] by (simp add: Let_def assms(2))
  have "0 < k \<Longrightarrow> shift_slots (length ?q - k) k 0 ?q = Some (drop k ?q @ replicate k None)"
    using k by (intro shift_slots_eq) (simp_all add: nth_append)
  then have "(if 0 < k then shift_slots (length ?p - k) k 0 ?q else Some ?q) = Some (slide k ?p)"
    using k by (auto simp: slide_replicate) (simp add: slide_def)
  then show ?thesis
    unfolding mwifiex_11n_scan_and_dispatch_def win and_4095 by (simp add: scan)
qed

lemma last_slot_bounds:
  assumes "n \<le> length ptrs"
  shows "\<exists>r. last_slot n ptrs = Some r \<and> -1 \<le> r \<and> r < int n \<and>
    packets (drop (nat (r + 1)) (take n ptrs)) = []"
  using assms
proof (induction n)
  case (Suc n)
  have split: "take (Suc n) ptrs = take n ptrs @ [ptrs ! n]"
    using Suc.prems by (simp add: take_Suc_conv_app_nth)
  obtain r where r: "last_slot n ptrs = Some r" "-1 \<le> r" "r < int n"
    "packets (drop (nat (r + 1)) (take n ptrs)) = []"
    using Suc by auto
  show ?case
  proof (cases "ptrs ! n")
    case None
    then show ?thesis
      using Suc.prems r by (intro exI [of _ r]) (auto simp: split idx_def nat_le_iff)
  next
    case (Some p)
    then show ?thesis
      using Suc.prems by (intro exI [of _ "int n"]) (simp add: split idx_def nat_add_distrib)
  qed
qed simp

lemma packets_take_all: "packets (drop d ptrs) = [] \<Longrightarrow> packets (take d ptrs) = packets ptrs"
  by (metis append.right_neutral append_take_drop_id packets_simps(4))

lemma packets_slide: "packets (slide d ptrs) = packets (drop d ptrs)"
  by (simp add: slide_def)

lemma mod_once: "0 \<le> x \<Longrightarrow> x < 8192 \<Longrightarrow> x mod 4096 = (if x < 4096 then x else x - 4096)" for x :: int
  using mod_pos_pos_trivial [of "x - 4096" 4096] mod_add_self2 [of "x - 4096" 4096]
    mod_pos_pos_trivial [of x 4096] by auto

text \<open>The flush timer hands everything up.\<close>

lemma flush_eq:
  assumes "tbl_ok t"
  shows "\<exists>start ptrs. mwifiex_flush_data u t w =
    Some (t\<lparr>timer_is_set := False, rx_reorder_ptr := ptrs, start_win := start\<rparr>,
      fold (deliver u) (packets (rx_reorder_ptr t)) w) \<and>
    packets ptrs = [] \<and> length ptrs = length (rx_reorder_ptr t) \<and> 0 \<le> start \<and> start \<le> 4096"
proof -
  let ?p = "rx_reorder_ptr t" and ?t = "t\<lparr>timer_is_set := False\<rparr>"
  have win: "nat (win_size t) = length ?p" and ok: "tbl_ok ?t"
    using assms by (simp_all add: tbl_ok_def)
  obtain r where r: "last_slot (length ?p) ?p = Some r" "-1 \<le> r" "r < int (length ?p)"
    "packets (drop (nat (r + 1)) ?p) = []"
    using last_slot_bounds [of "length ?p" ?p] by auto
  show ?thesis
  proof (cases "r < 0")
    case True
    then have "r = -1" using r(2) by simp
    then show ?thesis
      using r assms by (intro exI [of _ "start_win t"] exI [of _ ?p])
        (simp add: mwifiex_flush_data_def mwifiex_11n_find_last_seq_num_def win Let_def tbl_ok_def)
  next
    case False
    define start where "start = (start_win t + r + 1) mod 4096"
    define d where "d = (if start > start_win t then min (nat (start - start_win t)) (length ?p) else length ?p)"
    have start: "0 \<le> start" "start < 4096"
      by (simp_all add: start_def)
    have "nat (r + 1) \<le> d"
    proof (cases "start > start_win t")
      case True
      have "start = (if start_win t + r + 1 < 4096 then start_win t + r + 1 else start_win t + r + 1 - 4096)"
        unfolding start_def using assms False r(3) by (intro mod_once) (simp_all add: tbl_ok_def)
      with True have "start = start_win t + r + 1"
        using assms r(3) by (auto simp: tbl_ok_def split: if_splits)
      with True r(3) show ?thesis by (simp add: d_def)
    next
      case False
      with r(3) show ?thesis by (simp add: d_def)
    qed
    then obtain e where e: "d = e + nat (r + 1)"
      by (metis add.commute le_Suc_ex)
    have empty: "packets (drop d ?p) = []"
    proof -
      have "packets (drop (nat (r + 1)) ?p) =
          packets (take e (drop (nat (r + 1)) ?p)) @ packets (drop d ?p)"
        unfolding e by (metis append_take_drop_id drop_drop packets_simps(4))
      with r(4) show ?thesis by simp
    qed
    have "mwifiex_flush_data u t w = mwifiex_11n_dispatch_pkt_until_start_win u ?t start w"
      using r(1) False
      by (simp add: mwifiex_flush_data_def mwifiex_11n_find_last_seq_num_def win Let_def and_4095 start_def)
    also have "\<dots> = Some (?t\<lparr>rx_reorder_ptr := slide d ?p, start_win := start\<rparr>,
        fold (deliver u) (packets (take d ?p)) w)"
      using until_eq [OF ok, of d start u w] by (simp add: d_def)
    finally show ?thesis
      using start empty
      by (intro exI [of _ start] exI [of _ "slide d ?p"]) (simp add: packets_take_all packets_slide)
  qed
qed

section \<open>What a packet does to the window\<close>

text \<open>How far a sequence number is ahead of the start of the window, modulo 4096.\<close>

definition ahead :: "int \<Rightarrow> int \<Rightarrow> nat" where
  "ahead seq start = nat ((seq - start) mod 4096)"

lemma ahead_cases:
  assumes "0 \<le> seq" "seq < 4096" "0 \<le> start" "start \<le> 4096"
  shows "int (ahead seq start) = (if seq \<ge> start then seq - start else seq + 4096 - start)"
  using mod_once [of "seq - start + 4096"] assms by (auto simp: ahead_def)

lemma ahead_less: "ahead seq start < 4096"
  by (simp add: ahead_def nat_less_iff)

text \<open>
  The specification: a packet half the sequence space ahead or more is old and refused. A
  packet beyond the window moves it so that the packet's slot is the last, which hands up the
  slots that fall out; with \<open>wrap\<close> the whole window is handed up instead if its start passes
  4095. A packet for an occupied slot is refused, any other is stored. Then the run of packets
  at the start is handed up. The answer is the code, the packets handed up, and the window.
\<close>

definition move_spec ::
  "bool \<Rightarrow> nat \<Rightarrow> int \<times> 'a option list \<Rightarrow> 'a list \<times> int \<times> 'a option list" where
  "move_spec wrap o' win =
     (case win of (start, ptrs) \<Rightarrow>
        if o' < length ptrs then ([], start, ptrs)
        else
          (let m = o' - (length ptrs - 1);
               d = (if wrap \<and> start + int m \<ge> 4096 then length ptrs else min m (length ptrs))
           in (packets (take d ptrs), (start + int m) mod 4096, slide d ptrs)))"

definition scan_spec :: "int \<times> 'a option list \<Rightarrow> 'a list \<times> int \<times> 'a option list" where
  "scan_spec win =
     (case win of (start, ptrs) \<Rightarrow>
        let k = run_length ptrs
        in (packets (take k ptrs), (start + int k) mod 4096, slide k ptrs))"

definition recv_spec ::
  "bool \<Rightarrow> int \<Rightarrow> 'a \<Rightarrow> int \<times> 'a option list \<Rightarrow> int \<times> 'a list \<times> int \<times> 'a option list" where
  "recv_spec wrap seq p win =
     (let o' = ahead seq (fst win)
      in if o' \<ge> 2048 then (-1, [], win)
         else
           (let (out, start, ptrs) = move_spec wrap o' win; i = min o' (length ptrs - 1)
            in if ptrs ! i \<noteq> None then (-1, out, start, ptrs)
               else (let (out', win') = scan_spec (start, ptrs[i := Some p])
                     in (0, out @ out', win'))))"

text \<open>A block ack request moves the start to its sequence number and stores nothing.\<close>

definition bar_spec ::
  "bool \<Rightarrow> int \<Rightarrow> int \<times> 'a option list \<Rightarrow> int \<times> 'a list \<times> int \<times> 'a option list" where
  "bar_spec wrap seq win =
     (let o' = ahead seq (fst win)
      in if o' \<ge> 2048 then (-1, [], win)
         else
           (let (out, win) = move_spec wrap (o' + (length (snd win) - 1)) win;
                (out', win) = scan_spec win
            in (0, out @ out', win)))"

section \<open>The code meets the specification\<close>

abbreviation window :: "rx_tbl \<Rightarrow> int \<times> byte list option list" where
  "window t \<equiv> (start_win t, rx_reorder_ptr t)"

text \<open>No flags pending, and a start below 4096.\<close>

definition tbl_steady :: "rx_tbl \<Rightarrow> bool" where
  "tbl_steady t \<longleftrightarrow> tbl_ok t \<and> start_win t < 4096 \<and> tbl_flags t = 0"

lemma admit_plain:
  assumes "0 \<le> start_win t" "start_win t < 4096" "tbl_flags t = 0" and "0 \<le> seq" "seq < 4096"
  shows "admit_seq seq t = (ahead seq (start_win t) < 2048, t)"
proof -
  have off: "int (ahead seq (start_win t)) = (if seq \<ge> start_win t then seq - start_win t
      else seq + 4096 - start_win t)"
    using assms by (intro ahead_cases) simp_all
  have mask: "(start_win t + 2048) AND 4095 =
      (if start_win t + 2048 < 4096 then start_win t + 2048 else start_win t + 2048 - 4096)"
    using assms(1,2) mod_once [of "start_win t + 2048"] and_4095 [of "start_win t + 2048"]
    by (simp add: MAX_TID_VALUE_def)
  show ?thesis
    unfolding admit_seq_def using assms off mask
    by (auto simp: Let_def TWOPOW11_def MAX_TID_VALUE_def)
qed

lemma admit_steady:
  "tbl_steady t \<Longrightarrow> 0 \<le> seq \<Longrightarrow> seq < 4096 \<Longrightarrow>
     admit_seq seq t = (ahead seq (start_win t) < 2048, t)"
  by (simp add: tbl_steady_def tbl_ok_def admit_plain)

lemma advance_eq:
  assumes "tbl_ok t" and "0 \<le> seq" "seq < 4096"
  shows "advance_win u seq t w =
    (let (out, start, ptrs) = move_spec True (ahead seq (start_win t)) (window t)
     in Some (t\<lparr>start_win := start, rx_reorder_ptr := ptrs\<rparr>, fold (deliver u) out w))"
proof -
  let ?s = "start_win t" and ?p = "rx_reorder_ptr t"
  have start: "0 \<le> ?s" "?s \<le> 4096" and len: "2 \<le> length ?p" "length ?p \<le> 2048"
    and win: "win_size t = int (length ?p)"
    using assms(1) by (simp_all add: tbl_ok_def)
  have off: "int (ahead seq ?s) = (if seq \<ge> ?s then seq - ?s else seq + 4096 - ?s)"
    using start assms(2,3) by (intro ahead_cases) simp_all
  define e where "e = (?s + win_size t - 1) AND (MAX_TID_VALUE - 1)"
  have e: "e = (if ?s + win_size t - 1 < 4096 then ?s + win_size t - 1 else ?s + win_size t - 1 - 4096)"
    unfolding e_def and_4095 using start len win by (intro mod_once) simp_all
  have outside: "(e < ?s \<and> seq < ?s \<and> seq > e) \<or> (e > ?s \<and> (seq > e \<or> seq < ?s)) \<longleftrightarrow>
      length ?p \<le> ahead seq ?s"
    using e off start len win assms(2,3) by (auto split: if_splits)
  show ?thesis
  proof (cases "length ?p \<le> ahead seq ?s")
    case False
    then show ?thesis
      using outside unfolding advance_win_def Let_def e_def [symmetric] by (auto simp: move_spec_def)
  next
    case True
    define m where "m = ahead seq ?s - (length ?p - 1)"
    define s' where "s' = (if seq - win_size t + 1 \<ge> 0 then seq - win_size t + 1
      else MAX_TID_VALUE - (win_size t - seq) + 1)"
    have m: "int m = int (ahead seq ?s) - int (length ?p) + 1" "0 < m"
      using True len by (simp_all add: m_def of_nat_diff)
    have bound: "m < 4096"
      using ahead_less [of seq ?s] by (simp add: m_def)
    have s': "s' = (if ?s + int m < 4096 then ?s + int m else ?s + int m - 4096)"
      using m off start win len assms(2,3) unfolding s'_def MAX_TID_VALUE_def by (auto split: if_splits)
    have s'_mod: "s' = (?s + int m) mod 4096"
      unfolding s' using start m(2) ahead_less [of seq ?s] by (intro mod_once [symmetric]) (simp_all add: m_def)
    define d where "d = (if ?s + int m \<ge> 4096 then length ?p else min m (length ?p))"
    have d: "d = (if s' > ?s then min (nat (s' - ?s)) (length ?p) else length ?p)"
      using s' m(2) bound unfolding d_def by auto
    have "advance_win u seq t w = mwifiex_11n_dispatch_pkt_until_start_win u t s' w"
      using outside True unfolding advance_win_def Let_def e_def [symmetric] s'_def by simp
    also have "\<dots> = Some (t\<lparr>rx_reorder_ptr := slide d ?p, start_win := s'\<rparr>,
        fold (deliver u) (packets (take d ?p)) w)"
      by (rule until_eq [OF assms(1) d])
    finally have "advance_win u seq t w = \<dots>" .
    moreover have "move_spec True (ahead seq ?s) (window t) = (packets (take d ?p), s', slide d ?p)"
      using True by (simp add: move_spec_def Let_def d_def s'_mod m_def)
    ultimately show ?thesis
      by simp
  qed
qed

text \<open>The slot of a packet after the window was moved for it.\<close>

lemma moved_window:
  assumes "move_spec wrap o' (s, ptrs) = (out, s', ptrs')" and "0 \<le> s"
  shows "length ptrs' = length ptrs" and "0 \<le> s'" and "s' \<le> max s 4096"
    and "o' < length ptrs \<Longrightarrow> s' = s \<and> ptrs' = ptrs \<and> out = []"
    and "mset out + mset (packets ptrs') = mset (packets ptrs)"
proof -
  have split: "mset (packets (take d ptrs)) + mset (packets (drop d ptrs)) = mset (packets ptrs)" for d
    by (metis append_take_drop_id mset_append packets_simps(4))
  show "length ptrs' = length ptrs" "0 \<le> s'" "o' < length ptrs \<Longrightarrow> s' = s \<and> ptrs' = ptrs \<and> out = []"
    using assms by (auto simp: move_spec_def Let_def split: if_splits)
  show "s' \<le> max s 4096"
    using assms pos_mod_bound [of 4096] by (auto simp: move_spec_def Let_def less_imp_le split: if_splits)
  show "mset out + mset (packets ptrs') = mset (packets ptrs)"
    using assms(1) split by (auto simp: move_spec_def Let_def packets_slide split: if_splits)
qed

lemma ahead_moved:
  assumes "move_spec wrap (ahead seq s) (s, ptrs) = (out, s', ptrs')"
    and "0 \<le> seq" "seq < 4096" "ptrs \<noteq> []"
  shows "ahead seq s' = min (ahead seq s) (length ptrs - 1)"
proof (cases "ahead seq s < length ptrs")
  case True
  then show ?thesis
    using assms(1) by (auto simp: move_spec_def)
next
  case False
  define m where "m = ahead seq s - (length ptrs - 1)"
  have s': "s' = (s + int m) mod 4096"
    using False assms(1) by (auto simp: move_spec_def Let_def m_def)
  have "int (ahead seq s) = (seq - s) mod 4096"
    by (simp add: ahead_def)
  then have "int (ahead seq s) - int m = int (length ptrs - 1)"
    using False by (simp add: m_def of_nat_diff)
  have "(seq - s') mod 4096 = ((seq - s) mod 4096 - int m) mod 4096"
    unfolding s' by (simp add: mod_simps algebra_simps)
  also have "\<dots> = int (length ptrs - 1) mod 4096"
    using \<open>int (ahead seq s) - int m = _\<close> by (simp add: ahead_def)
  also have "\<dots> = int (length ptrs - 1)"
    using False ahead_less [of seq s] by (simp add: of_nat_diff)
  finally show ?thesis
    using False by (simp add: ahead_def)
qed

lemma store_eq:
  assumes "tbl_ok t" and "0 \<le> seq" "seq < 4096" and "ahead seq (start_win t) < length (rx_reorder_ptr t)"
  shows "store_pkt seq payload t =
    (let i = ahead seq (start_win t)
     in if rx_reorder_ptr t ! i \<noteq> None then Some (-1, t)
        else Some (0, t\<lparr>rx_reorder_ptr := (rx_reorder_ptr t)[i := payload]\<rparr>))"
proof -
  have off: "int (ahead seq (start_win t)) = (if seq \<ge> start_win t then seq - start_win t
      else seq + 4096 - start_win t)"
    using assms(1-3) by (intro ahead_cases) (simp_all add: tbl_ok_def)
  have "(if seq \<ge> start_win t then seq - start_win t else seq + MAX_TID_VALUE - start_win t) =
      int (ahead seq (start_win t))"
    using off by (simp add: MAX_TID_VALUE_def)
  moreover have "unat (of_int (int (ahead seq (start_win t))) :: u16) = ahead seq (start_win t)"
    using ahead_less [of seq "start_win t"] by (simp add: unat_of_nat)
  ultimately show ?thesis
    using assms(4) unfolding store_pkt_def by (simp add: idx_def Let_def)
qed

text \<open>The answer of the code, with the timer it may restart.\<close>

definition same_but_timer :: "rx_tbl \<Rightarrow> rx_tbl \<Rightarrow> bool" where
  "same_but_timer t t' \<longleftrightarrow>
     t'\<lparr>timer_is_set := timer_is_set t, timer_ms := timer_ms t\<rparr> = t"

lemma same_but_timer_simps:
  assumes "same_but_timer t t'"
  shows "window t' = window t" "tbl_flags t' = tbl_flags t" "win_size t' = win_size t"
    "amsdu t' = amsdu t" "tid t' = tid t" "ta t' = ta t" "init_win t' = init_win t"
  using assms by (cases t; cases t'; simp add: same_but_timer_def)+

lemma restart_timer_same: "same_but_timer t (mwifiex_11n_rxreorder_timer_restart t)"
  by (simp add: same_but_timer_def mwifiex_11n_rxreorder_timer_restart_def Let_def)

lemma same_but_timer_refl [simp]: "same_but_timer t t"
  by (simp add: same_but_timer_def)

lemma scan_window:
  assumes "tbl_ok t"
  shows "mwifiex_11n_scan_and_dispatch u t w =
    (let (out, win) = scan_spec (window t)
     in Some (t\<lparr>start_win := fst win, rx_reorder_ptr := snd win\<rparr>, fold (deliver u) out w))"
  by (simp add: scan_eq [OF assms refl] scan_spec_def Let_def)

lemma reorder_spec:
  assumes "tbl_steady t" and "uint seq < 4096" and "pkt_type \<noteq> PKT_TYPE_BAR"
    and "pkt_type = PKT_TYPE_AMSDU \<Longrightarrow> amsdu t"
  shows "\<exists>t'. reorder_in_tbl u seq pkt_type (Some p) t w =
    (let (ret, out, start, ptrs) = recv_spec True (uint seq) p (window t)
     in Some (ret, t', fold (deliver u) out w)) \<and>
    same_but_timer (t\<lparr>start_win := fst (snd (snd (recv_spec True (uint seq) p (window t)))),
      rx_reorder_ptr := snd (snd (snd (recv_spec True (uint seq) p (window t))))\<rparr>) t'"
proof -
  let ?s = "start_win t" and ?p = "rx_reorder_ptr t" and ?seq = "uint seq"
  let ?restart = "\<lambda>tb. if \<not> timer_is_set tb \<or> ?s \<noteq> start_win tb
    then mwifiex_11n_rxreorder_timer_restart tb else tb"
  have restart: "same_but_timer tb (?restart tb)" for tb
    by (simp add: restart_timer_same)
  have ok: "tbl_ok t" and range: "0 \<le> ?seq" "?seq < 4096" and s: "0 \<le> ?s" "?s < 4096"
    and len: "2 \<le> length ?p" "length ?p \<le> 2048" "win_size t = int (length ?p)"
    using assms by (simp_all add: tbl_steady_def tbl_ok_def)
  note admit = admit_steady [OF assms(1) range]
  show ?thesis
  proof (cases "ahead ?seq ?s < 2048")
    case False
    then have "recv_spec True ?seq p (window t) = (-1, [], window t)"
      by (simp add: recv_spec_def)
    then show ?thesis
      using False assms(3,4) restart [of t]
      by (auto simp: reorder_in_tbl_def admit Let_def)
  next
    case True
    obtain out s1 ptrs where mv: "move_spec True (ahead ?seq ?s) (window t) = (out, s1, ptrs)"
      by (metis prod_cases3)
    define t1 where "t1 = t\<lparr>start_win := s1, rx_reorder_ptr := ptrs\<rparr>"
    have adv: "advance_win u ?seq t w = Some (t1, fold (deliver u) out w)"
      by (simp add: advance_eq [OF ok range] mv t1_def)
    note moved = moved_window [OF mv s(1)]
    have ok1: "tbl_ok t1"
      using moved(1-3) len s by (simp add: t1_def tbl_ok_def)
    have i: "ahead ?seq s1 = min (ahead ?seq ?s) (length ?p - 1)"
      using len by (intro ahead_moved [OF mv range]) auto
    have st: "store_pkt ?seq (Some p) t1 =
      (if ptrs ! (min (ahead ?seq ?s) (length ?p - 1)) \<noteq> None then Some (-1, t1)
       else Some (0, t1\<lparr>rx_reorder_ptr := ptrs[min (ahead ?seq ?s) (length ?p - 1) := Some p]\<rparr>))"
      using store_eq [OF ok1 range, of "Some p"] i len moved(1) by (simp add: t1_def Let_def)
    show ?thesis
    proof (cases "ptrs ! (min (ahead ?seq ?s) (length ?p - 1)) = None")
      case False
      then have spec: "recv_spec True ?seq p (window t) = (-1, out, s1, ptrs)"
        using True mv moved(1) by (simp add: recv_spec_def)
      show ?thesis
        using True False assms(3,4) restart [of t1]
        unfolding spec reorder_in_tbl_def by (auto simp: Let_def admit adv st t1_def [symmetric])
    next
      case empty: True
      define t2 where "t2 = t1\<lparr>rx_reorder_ptr := ptrs[min (ahead ?seq ?s) (length ?p - 1) := Some p]\<rparr>"
      have ok2: "tbl_ok t2"
        using ok1 by (simp add: t2_def t1_def tbl_ok_def)
      obtain out2 s2 ptrs2 where sc: "scan_spec (window t2) = (out2, s2, ptrs2)"
        by (metis prod_cases3)
      have spec: "recv_spec True ?seq p (window t) = (0, out @ out2, s2, ptrs2)"
        using True empty mv moved(1) sc by (simp add: recv_spec_def t2_def t1_def)
      have scan: "mwifiex_11n_scan_and_dispatch u t2 w' =
          Some (t2\<lparr>start_win := s2, rx_reorder_ptr := ptrs2\<rparr>, fold (deliver u) out2 w')" for w'
        by (simp add: scan_window [OF ok2] sc)
      have st2: "store_pkt ?seq (Some p) t1 = Some (0, t2)"
        using empty by (simp add: st t2_def)
      have "t2\<lparr>start_win := s2, rx_reorder_ptr := ptrs2\<rparr> = t\<lparr>start_win := s2, rx_reorder_ptr := ptrs2\<rparr>"
        by (simp add: t2_def t1_def)
      then show ?thesis
        using True assms(3,4) restart [of "t\<lparr>start_win := s2, rx_reorder_ptr := ptrs2\<rparr>"]
        unfolding spec reorder_in_tbl_def by (auto simp: Let_def admit adv st2 scan)
    qed
  qed
qed

section \<open>Every operation keeps the table sound and loses nothing\<close>

lemma admit_keeps:
  assumes "admit_seq seq t = (b, t')" and "0 \<le> seq" "seq < 4096"
  shows "rx_reorder_ptr t' = rx_reorder_ptr t" and "tbl_ok t \<Longrightarrow> tbl_ok t'"
    and "amsdu t' = amsdu t"
  using assms by (auto simp: admit_seq_def Let_def tbl_ok_def split: if_splits)

lemma scan_spec_keeps:
  assumes "scan_spec (s, ptrs) = (out, s', ptrs')"
  shows "length ptrs' = length ptrs" "0 \<le> s'" "s' \<le> 4096"
    "mset out + mset (packets ptrs') = mset (packets ptrs)"
proof -
  have "mset (packets (take d ptrs)) + mset (packets (drop d ptrs)) = mset (packets ptrs)" for d
    by (metis append_take_drop_id mset_append packets_simps(4))
  with assms show "length ptrs' = length ptrs" "0 \<le> s'" "s' \<le> 4096"
    "mset out + mset (packets ptrs') = mset (packets ptrs)"
    using pos_mod_bound [of 4096] by (auto simp: scan_spec_def Let_def packets_slide less_imp_le)
qed

lemma packets_update:
  "i < length ptrs \<Longrightarrow> ptrs ! i = None \<Longrightarrow>
     mset (packets (ptrs[i := x])) = mset (packets ptrs) + mset (packets [x])"
proof (induction ptrs arbitrary: i)
  case (Cons p ptrs)
  then show ?case
    by (cases i; cases p; cases x) auto
qed simp

text \<open>The payload of a packet that its table took.\<close>

definition taken :: "int \<Rightarrow> u8 \<Rightarrow> byte list option \<Rightarrow> byte list list" where
  "taken ret pkt_type payload = (if ret = 0 \<and> pkt_type \<noteq> PKT_TYPE_BAR then packets [payload] else [])"

lemma reorder_step:
  assumes "tbl_ok t" and "uint seq < 4096" and "pkt_type = PKT_TYPE_BAR \<Longrightarrow> payload = None"
  shows "\<exists>ret t' out. reorder_in_tbl u seq pkt_type payload t w = Some (ret, t', fold (deliver u) out w) \<and>
    tbl_ok t' \<and> (ret = 0 \<or> ret = -1) \<and>
    mset out + mset (packets (rx_reorder_ptr t')) =
      mset (packets (rx_reorder_ptr t)) + mset (taken ret pkt_type payload)"
proof (cases "pkt_type = PKT_TYPE_AMSDU \<and> \<not> amsdu t")
  case True
  then have "reorder_in_tbl u seq pkt_type payload t w =
      Some (0, t, fold (deliver u) (packets [payload]) w)"
    by (cases payload) (simp_all add: reorder_in_tbl_def deliver_def mwifiex_11n_dispatch_pkt_def)
  then show ?thesis
    using assms(1) True
    by (intro exI conjI) (auto simp: taken_def PKT_TYPE_AMSDU_def PKT_TYPE_BAR_def)
next
  case no_amsdu: False
  obtain b t1 where adm: "admit_seq (uint seq) t = (b, t1)" by fastforce
  note keeps = admit_keeps [OF adm uint_ge_0 assms(2)]
  have ok1: "tbl_ok t1" using keeps(2) assms(1) .
  define re where "re = (\<lambda>tb. if \<not> timer_is_set tb \<or> start_win t \<noteq> start_win tb
    then mwifiex_11n_rxreorder_timer_restart tb else tb)"
  have restart: "tbl_ok (re tb) = tbl_ok tb" "rx_reorder_ptr (re tb) = rx_reorder_ptr tb" for tb
    by (simp_all add: re_def mwifiex_11n_rxreorder_timer_restart_def Let_def tbl_ok_def)
  show ?thesis
  proof (cases b)
    case False
    then have "reorder_in_tbl u seq pkt_type payload t w = Some (-1, re t1, fold (deliver u) [] w)"
      using no_amsdu by (auto simp: reorder_in_tbl_def adm Let_def re_def)
    then show ?thesis
      using ok1 keeps(1) by (intro exI [of _ "-1"] exI [of _ "re t1"] exI [of _ "[]"])
        (simp add: restart taken_def)
  next
    case admitted: True
    define q where "q = (if pkt_type = PKT_TYPE_BAR
      then (uint seq + win_size t1 - 1) AND (MAX_TID_VALUE - 1) else uint seq)"
    have q: "0 \<le> q" "q < 4096"
      using assms(2) by (simp_all add: q_def and_4095)
    obtain out s2 ptrs where mv: "move_spec True (ahead q (start_win t1)) (window t1) = (out, s2, ptrs)"
      by (metis prod_cases3)
    define t2 where "t2 = t1\<lparr>start_win := s2, rx_reorder_ptr := ptrs\<rparr>"
    have adv: "advance_win u q t1 w = Some (t2, fold (deliver u) out w)"
      by (simp add: advance_eq [OF ok1 q] mv t2_def)
    have s1: "0 \<le> start_win t1" "start_win t1 \<le> 4096" "rx_reorder_ptr t1 \<noteq> []"
      using ok1 by (auto simp: tbl_ok_def)
    note moved = moved_window [OF mv s1(1)]
    have ok2: "tbl_ok t2"
      using moved(1-3) ok1 by (simp add: t2_def tbl_ok_def)
    have i: "ahead q s2 < length ptrs"
      using ahead_moved [OF mv q s1(3)] moved(1) s1(3) by (cases "rx_reorder_ptr t1") auto
    have done_scan: "\<exists>t' out'. mwifiex_11n_scan_and_dispatch u t3 w' =
        Some (t', fold (deliver u) out' w') \<and> tbl_ok t' \<and>
        mset out' + mset (packets (rx_reorder_ptr t')) = mset (packets (rx_reorder_ptr t3))"
      if "tbl_ok t3" for t3 w'
    proof -
      obtain o3 s3 p3 where sc: "scan_spec (window t3) = (o3, s3, p3)"
        by (metis prod_cases3)
      show ?thesis
        using scan_spec_keeps [OF sc] that
        by (intro exI [of _ "t3\<lparr>start_win := s3, rx_reorder_ptr := p3\<rparr>"] exI [of _ o3])
          (simp add: scan_window [OF that] sc tbl_ok_def)
    qed
    have call: "reorder_in_tbl u seq pkt_type payload t w = do {
        (ret, tb, w) \<leftarrow> do {
          (ret, tb) \<leftarrow> (if pkt_type \<noteq> PKT_TYPE_BAR then store_pkt q payload t2 else Some (0, t2));
          if ret \<noteq> 0 then Some (ret, tb, fold (deliver u) out w)
          else map_option (Pair 0) (mwifiex_11n_scan_and_dispatch u tb (fold (deliver u) out w)) };
        Some (ret, re tb, w) }"
      using no_amsdu admitted
      by (simp only: reorder_in_tbl_def adm Let_def prod.case q_def [symmetric] re_def if_False
          not_True_eq_False adv Option.bind.bind_lunit)
    show ?thesis
    proof (cases "pkt_type \<noteq> PKT_TYPE_BAR \<and> ptrs ! ahead q s2 \<noteq> None")
      case True
      have "reorder_in_tbl u seq pkt_type payload t w = Some (-1, re t2, fold (deliver u) out w)"
        using True i store_eq [OF ok2 q, of payload] unfolding call by (simp add: t2_def Let_def)
      then show ?thesis
        using ok2 moved(5) keeps(1)
        by (intro exI [of _ "-1"] exI [of _ "re t2"] exI [of _ out])
          (simp add: restart taken_def, simp add: t2_def)
    next
      case False
      define t3 where "t3 = (if pkt_type \<noteq> PKT_TYPE_BAR
        then t2\<lparr>rx_reorder_ptr := ptrs[ahead q s2 := payload]\<rparr> else t2)"
      have st: "(if pkt_type \<noteq> PKT_TYPE_BAR then store_pkt q payload t2 else Some (0, t2)) = Some (0, t3)"
        using False i store_eq [OF ok2 q, of payload] by (auto simp: t2_def t3_def Let_def)
      have ok3: "tbl_ok t3"
        using ok2 by (simp add: t3_def t2_def tbl_ok_def)
      have buf3: "mset (packets (rx_reorder_ptr t3)) = mset (packets ptrs) + mset (taken 0 pkt_type payload)"
        using False i packets_update [of "ahead q s2" ptrs payload] by (auto simp: t3_def t2_def taken_def)
      obtain t4 out4 where sc: "mwifiex_11n_scan_and_dispatch u t3 (fold (deliver u) out w) =
          Some (t4, fold (deliver u) out4 (fold (deliver u) out w))" "tbl_ok t4"
        "mset out4 + mset (packets (rx_reorder_ptr t4)) = mset (packets (rx_reorder_ptr t3))"
        using done_scan [OF ok3] by blast
      have "reorder_in_tbl u seq pkt_type payload t w =
          Some (0, re t4, fold (deliver u) (out @ out4) w)"
        unfolding call st by (simp add: sc(1))
      moreover have "mset (out @ out4) + mset (packets (rx_reorder_ptr t4)) =
          mset (packets (rx_reorder_ptr t)) + mset (taken 0 pkt_type payload)"
      proof -
        have "mset (out @ out4) + mset (packets (rx_reorder_ptr t4)) =
            mset out + (mset out4 + mset (packets (rx_reorder_ptr t4)))"
          by (simp add: ac_simps)
        also have "\<dots> = (mset out + mset (packets ptrs)) + mset (taken 0 pkt_type payload)"
          by (simp add: sc(3) buf3 ac_simps)
        finally show ?thesis
          using moved(5) keeps(1) by simp
      qed
      ultimately show ?thesis
        using sc(2) by (intro exI [of _ 0] exI [of _ "re t4"] exI [of _ "out @ out4"])
          (simp add: restart)
    qed
  qed
qed

section \<open>Runs of a table\<close>

text \<open>Packets and block ack requests arrive, and the flush timer fires.\<close>

datatype rx_event = Packet u16 u8 "byte list" | Bar u16 | Flush

text \<open>A run hands back the packets the table took.\<close>

fun run_events ::
  "'w upper \<Rightarrow> rx_event list \<Rightarrow> rx_tbl \<Rightarrow> 'w \<Rightarrow> (byte list list \<times> rx_tbl \<times> 'w) option" where
  "run_events u [] t w = Some ([], t, w)"
| "run_events u (Packet seq ty p # es) t w = do {
     (ret, t, w) \<leftarrow> reorder_in_tbl u seq ty (Some p) t w;
     (acc, t, w) \<leftarrow> run_events u es t w;
     Some (taken ret ty (Some p) @ acc, t, w)
   }"
| "run_events u (Bar seq # es) t w = do {
     (_, t, w) \<leftarrow> reorder_in_tbl u seq PKT_TYPE_BAR None t w;
     run_events u es t w
   }"
| "run_events u (Flush # es) t w = do {
     (t, w) \<leftarrow> mwifiex_flush_data u t w;
     run_events u es t w
   }"

text \<open>Sequence numbers have twelve bits, and a packet is not typed as a request.\<close>

fun event_ok :: "rx_event \<Rightarrow> bool" where
  "event_ok (Packet seq ty p) = (uint seq < 4096 \<and> ty \<noteq> PKT_TYPE_BAR)"
| "event_ok (Bar seq) = (uint seq < 4096)"
| "event_ok Flush = True"

lemma run_step:
  assumes "tbl_ok t" and "event_ok e"
  shows "\<exists>acc t' out. (\<forall>es. run_events u (e # es) t w = do {
      (acc', t, w) \<leftarrow> run_events u es t' (fold (deliver u) out w);
      Some (acc @ acc', t, w) }) \<and> tbl_ok t' \<and>
    mset out + mset (packets (rx_reorder_ptr t')) = mset (packets (rx_reorder_ptr t)) + mset acc"
proof (cases e)
  case (Packet seq ty p)
  obtain ret t' out where "reorder_in_tbl u seq ty (Some p) t w = Some (ret, t', fold (deliver u) out w)"
    "tbl_ok t'" "mset out + mset (packets (rx_reorder_ptr t')) =
      mset (packets (rx_reorder_ptr t)) + mset (taken ret ty (Some p))"
    using reorder_step [OF assms(1), of seq ty "Some p" u w] assms(2) Packet by auto
  then show ?thesis
    by (intro exI [of _ "taken ret ty (Some p)"] exI [of _ t'] exI [of _ out]) (simp add: Packet)
next
  case (Bar seq)
  obtain ret t' out where "reorder_in_tbl u seq PKT_TYPE_BAR None t w = Some (ret, t', fold (deliver u) out w)"
    "tbl_ok t'" "mset out + mset (packets (rx_reorder_ptr t')) = mset (packets (rx_reorder_ptr t))"
    using reorder_step [OF assms(1), of seq PKT_TYPE_BAR None u w] assms(2) Bar by (auto simp: taken_def)
  then show ?thesis
    by (intro exI [of _ "[]"] exI [of _ t'] exI [of _ out]) (simp add: Bar)
next
  case Flush
  obtain start ptrs where "mwifiex_flush_data u t w =
      Some (t\<lparr>timer_is_set := False, rx_reorder_ptr := ptrs, start_win := start\<rparr>,
        fold (deliver u) (packets (rx_reorder_ptr t)) w)"
    "packets ptrs = []" "length ptrs = length (rx_reorder_ptr t)" "0 \<le> start" "start \<le> 4096"
    using flush_eq [OF assms(1), of u w] by (elim exE conjE)
  then show ?thesis
    using assms(1) by (intro exI [of _ "[]"] exI [of _ "packets (rx_reorder_ptr t)"]
      exI [of _ "t\<lparr>timer_is_set := False, rx_reorder_ptr := ptrs, start_win := start\<rparr>"])
      (simp add: Flush tbl_ok_def)
qed

end
