(* ===== verification/Rx_Order.thy ===== *)
theory Rx_Order
  imports Rx_Window
begin

text \<open>
  The order in which the receive reorder window hands packets up: strictly by sequence number
  as long as the numbers do not wrap around, and not when the start of the window wraps. Also
  here: the code as an implementation of the window's specification, and the window of one slot.
\<close>

section \<open>A concrete driver\<close>

text \<open>The upper layer keeps the packets it was handed, in order.\<close>

definition logger :: "byte list list upper" where
  "logger = \<lparr>amsdu_to_8023s = (\<lambda>p. [p]), tdls_enabled = False, process_tdls_action_frame = (\<lambda>_ _ w. w),
     uap_recv_packet = (\<lambda>p w. (0, w @ [p])), recv_packet = (\<lambda>p w. (0, w @ [p])),
     handle_uap_rx_forward = (\<lambda>p w. (0, w @ [p])), process_rx_packet = (\<lambda>p w. (0, w @ [p])),
     bss_role = 0\<rparr>"

definition empty_tbl :: "int \<Rightarrow> nat \<Rightarrow> rx_tbl" where
  "empty_tbl start n = \<lparr>tid = 0, ta = [1, 2, 3, 4, 5, 6], init_win = start, start_win = start,
     win_size = int n, rx_reorder_ptr = replicate n None, timer_is_set = False, timer_ms = 0,
     amsdu = True, tbl_flags = 0\<rparr>"

text \<open>A packet of one byte is of type 0, no aggregate.\<close>

lemma logger_deliver [simp]: "deliver logger [b] w = w @ [[b]]"
  by (simp add: deliver_def mwifiex_11n_dispatch_pkt_def mwifiex_11n_dispatch_amsdu_pkt_def
      logger_def PKT_TYPE_AMSDU_def MWIFIEX_BSS_ROLE_UAP_def)

lemma empty_tbl_steady: "2 \<le> n \<Longrightarrow> n \<le> 2048 \<Longrightarrow> 0 \<le> s \<Longrightarrow> s < 4096 \<Longrightarrow> tbl_steady (empty_tbl s n)"
  by (simp add: tbl_steady_def tbl_ok_def empty_tbl_def)

section \<open>Numbers of the slots\<close>

text \<open>The sequence numbers of the occupied slots of a window.\<close>

fun numbers :: "int \<Rightarrow> 'a option list \<Rightarrow> int list" where
  "numbers s [] = []"
| "numbers s (p # ps) = (if p = None then numbers (s + 1) ps else s # numbers (s + 1) ps)"

text \<open>Every slot is empty or has the packet with its number.\<close>

definition labelled :: "(int \<Rightarrow> 'a) \<Rightarrow> int \<Rightarrow> 'a option list \<Rightarrow> bool" where
  "labelled pkt s ps \<longleftrightarrow> (\<forall>i < length ps. ps ! i = None \<or> ps ! i = Some (pkt (s + int i)))"

lemma labelled_Cons: "labelled pkt s (p # ps) \<longleftrightarrow> (p = None \<or> p = Some (pkt s)) \<and> labelled pkt (s + 1) ps"
  by (auto simp: labelled_def All_less_Suc2 ac_simps)

lemma packets_numbers: "labelled pkt s ps \<Longrightarrow> packets ps = map pkt (numbers s ps)"
  by (induction ps arbitrary: s) (auto simp: labelled_Cons)

lemma mem_numbers: "n \<in> set (numbers s ps) \<longleftrightarrow> (\<exists>i < length ps. ps ! i \<noteq> None \<and> n = s + int i)"
proof (induction ps arbitrary: s)
  case (Cons p ps)
  show ?case
    by (cases p) (auto simp: Cons Ex_less_Suc2 ac_simps)
qed simp

lemma sorted_numbers: "sorted_wrt (<) (numbers s ps)"
  by (induction ps arbitrary: s) (auto simp: mem_numbers)

lemma nth_slide: "i < length ps \<Longrightarrow> slide d ps ! i = (if d + i < length ps then ps ! (d + i) else None)"
  by (auto simp: slide_def nth_append min_def)

lemma numbers_take: "n \<in> set (numbers s (take d ps)) \<longleftrightarrow> n \<in> set (numbers s ps) \<and> n < s + int d"
  by (auto simp: mem_numbers)

lemma labelled_slide: "labelled pkt s ps \<Longrightarrow> labelled pkt (s + int d) (slide d ps)"
  unfolding labelled_def
proof (intro allI impI)
  fix i assume l: "\<forall>i < length ps. ps ! i = None \<or> ps ! i = Some (pkt (s + int i))" and "i < length (slide d ps)"
  then show "slide d ps ! i = None \<or> slide d ps ! i = Some (pkt (s + int d + int i))"
    using l [rule_format, of "d + i"] by (simp add: nth_slide ac_simps)
qed

lemma numbers_slide: "n \<in> set (numbers (s + int d) (slide d ps)) \<longleftrightarrow> n \<in> set (numbers s ps) \<and> s + int d \<le> n"
proof
  assume "n \<in> set (numbers (s + int d) (slide d ps))"
  then obtain i where "i < length ps" "slide d ps ! i \<noteq> None" "n = s + int d + int i"
    by (auto simp: mem_numbers)
  then show "n \<in> set (numbers s ps) \<and> s + int d \<le> n"
    unfolding mem_numbers by (intro conjI exI [of _ "d + i"]) (simp_all add: nth_slide split: if_splits)
next
  assume "n \<in> set (numbers s ps) \<and> s + int d \<le> n"
  then obtain i where "i < length ps" "ps ! i \<noteq> None" "n = s + int i" "d \<le> i"
    by (auto simp: mem_numbers)
  then show "n \<in> set (numbers (s + int d) (slide d ps))"
    unfolding mem_numbers by (intro exI [of _ "i - d"]) (simp add: nth_slide)
qed

lemma labelled_store:
  assumes "labelled pkt s ps"
  shows "labelled pkt s (ps[i := Some (pkt (s + int i))])"
  unfolding labelled_def
proof (intro allI impI)
  fix j assume "j < length (ps[i := Some (pkt (s + int i))])"
  then show "ps[i := Some (pkt (s + int i))] ! j = None \<or>
      ps[i := Some (pkt (s + int i))] ! j = Some (pkt (s + int j))"
    using assms by (cases "j = i") (simp_all add: labelled_def)
qed

lemma numbers_store:
  "i < length ps \<Longrightarrow> n \<in> set (numbers s (ps[i := Some x])) \<longleftrightarrow> n = s + int i \<or> n \<in> set (numbers s ps)"
  unfolding mem_numbers by (auto simp: nth_list_update)

lemma run_occupied:
  assumes "i < run_length ps"
  shows "s + int i \<in> set (numbers s ps)"
proof -
  have "takeWhile (\<lambda>p. p \<noteq> None) ps ! i \<in> set (takeWhile (\<lambda>p. p \<noteq> None) ps)"
    using assms by (intro nth_mem) (simp add: run_length_def)
  then have "takeWhile (\<lambda>p. p \<noteq> None) ps ! i \<noteq> None"
    by (auto dest: set_takeWhileD)
  moreover have "takeWhile (\<lambda>p. p \<noteq> None) ps ! i = ps ! i"
    using assms by (simp add: run_length_def takeWhile_nth)
  ultimately show ?thesis
    unfolding mem_numbers using assms run_length_le [of ps] by (intro exI [of _ i]) simp
qed

section \<open>Order without wrap-around\<close>

text \<open>
  While all numbers lie between \<open>lo\<close> and \<open>hi\<close>: what was handed up is in strict order and before
  the window, what waits is in its slot and before \<open>hi\<close>.
\<close>

definition order_inv :: "(int \<Rightarrow> 'a) \<Rightarrow> int \<Rightarrow> int \<Rightarrow> int list \<Rightarrow> int \<Rightarrow> 'a option list \<Rightarrow> bool" where
  "order_inv pkt lo hi ds s ps \<longleftrightarrow> labelled pkt s ps \<and> lo \<le> s \<and> s \<le> hi \<and>
     (\<forall>n \<in> set (numbers s ps). n < hi) \<and> sorted_wrt (<) ds \<and> (\<forall>n \<in> set ds. n < s)"

lemma labelled_take: "labelled pkt s ps \<Longrightarrow> labelled pkt s (take k ps)"
  by (simp add: labelled_def)

lemma inv_advance:
  assumes "order_inv pkt lo hi ds s ps" and "s + int k \<le> hi"
  shows "packets (take k ps) = map pkt (numbers s (take k ps))"
    and "order_inv pkt lo hi (ds @ numbers s (take k ps)) (s + int k) (slide k ps)"
proof -
  show "packets (take k ps) = map pkt (numbers s (take k ps))"
    using assms(1) by (intro packets_numbers labelled_take) (simp add: order_inv_def)
  have low: "s \<le> n" if "n \<in> set (numbers s (take k ps))" for n
    using that by (auto simp: mem_numbers)
  have up: "n < s + int k" if "n \<in> set (numbers s (take k ps))" for n
    using that by (simp add: numbers_take)
  show "order_inv pkt lo hi (ds @ numbers s (take k ps)) (s + int k) (slide k ps)"
    using assms low up unfolding order_inv_def
    by (auto simp: labelled_slide numbers_slide sorted_wrt_append sorted_numbers) force+
qed

lemma inv_store:
  assumes "order_inv pkt lo hi ds s ps" and "i < length ps" and "s + int i < hi"
  shows "order_inv pkt lo hi ds s (ps[i := Some (pkt (s + int i))])"
  using assms unfolding order_inv_def by (auto simp: labelled_store numbers_store)

lemma inv_move:
  assumes "order_inv pkt lo hi ds s ps" and "0 \<le> lo" and "hi < 4096" and "s + int o' < hi"
  shows "\<exists>ds' s' ps'. move_spec True o' (s, ps) = (map pkt ds', s', ps') \<and>
    order_inv pkt lo hi (ds @ ds') s' ps' \<and> s' + int (min o' (length ps - 1)) = s + int o' \<and>
    set ds' \<subseteq> set (numbers s ps) \<and> set (numbers s' ps') \<subseteq> set (numbers s ps) \<and> length ps' = length ps"
proof (cases "o' < length ps")
  case True
  then show ?thesis
    using assms by (intro exI [of _ "[]"] exI [of _ s] exI [of _ ps]) (auto simp: move_spec_def)
next
  case False
  define m where "m = o' - (length ps - 1)"
  have m: "s + int m \<le> hi" "s + int m < 4096" "int m + int (length ps - 1) = int o'"
    using False assms(3,4) by (simp_all add: m_def)
  have s: "0 \<le> s" using assms(1,2) by (simp add: order_inv_def)
  have "move_spec True o' (s, ps) = (packets (take m ps), s + int m, slide m ps)"
    using False m(2) s by (simp add: move_spec_def Let_def m_def slide_def min_def)
  then show ?thesis
    using inv_advance [OF assms(1) m(1)] m(3) False
    by (intro exI [of _ "numbers s (take m ps)"] exI [of _ "s + int m"] exI [of _ "slide m ps"])
      (auto simp: numbers_slide numbers_take)
qed

lemma inv_scan:
  assumes "order_inv pkt lo hi ds s ps" and "0 \<le> lo" and "hi < 4096"
  shows "\<exists>ds' s' ps'. scan_spec (s, ps) = (map pkt ds', s', ps') \<and>
    order_inv pkt lo hi (ds @ ds') s' ps' \<and> set ds' \<subseteq> set (numbers s ps) \<and>
    set (numbers s' ps') \<subseteq> set (numbers s ps) \<and> length ps' = length ps"
proof -
  define k where "k = run_length ps"
  have k: "s + int k \<le> hi"
  proof (cases k)
    case 0
    then show ?thesis using assms(1) by (simp add: order_inv_def)
  next
    case (Suc j)
    then have "s + int j \<in> set (numbers s ps)"
      by (intro run_occupied) (simp add: k_def [symmetric])
    then show ?thesis
      using assms(1) Suc by (auto simp: order_inv_def)
  qed
  have "scan_spec (s, ps) = (packets (take k ps), s + int k, slide k ps)"
    using assms k by (simp add: scan_spec_def Let_def k_def order_inv_def)
  then show ?thesis
    using inv_advance [OF assms(1) k]
    by (intro exI [of _ "numbers s (take k ps)"] exI [of _ "s + int k"] exI [of _ "slide k ps"])
      (auto simp: numbers_slide numbers_take)
qed

lemma inv_recv:
  assumes inv: "order_inv pkt lo hi ds s ps" and lo: "0 \<le> lo" and hi: "hi \<le> lo + 2048" "hi < 4096"
    and q: "lo \<le> q" "q < hi" and ps: "ps \<noteq> []"
  shows "\<exists>ret ds' s' ps'. recv_spec True q (pkt q) (s, ps) = (ret, map pkt ds', s', ps') \<and>
    order_inv pkt lo hi (ds @ ds') s' ps' \<and> set ds' \<subseteq> insert q (set (numbers s ps)) \<and>
    set (numbers s' ps') \<subseteq> insert q (set (numbers s ps)) \<and> length ps' = length ps"
proof -
  have s: "lo \<le> s" "s \<le> hi"
    using inv by (simp_all add: order_inv_def)
  have off: "int (ahead q s) = (if q \<ge> s then q - s else q + 4096 - s)"
    using s lo hi q by (intro ahead_cases) simp_all
  show ?thesis
  proof (cases "ahead q s \<ge> 2048")
    case True
    then show ?thesis
      using inv by (intro exI [of _ "-1"] exI [of _ "[]"] exI [of _ s] exI [of _ ps])
        (auto simp: recv_spec_def)
  next
    case False
    then have qs: "s + int (ahead q s) = q"
      using off s lo hi q by (auto split: if_splits)
    obtain d1 s1 p1 where mv: "move_spec True (ahead q s) (s, ps) = (map pkt d1, s1, p1)"
      and inv1: "order_inv pkt lo hi (ds @ d1) s1 p1"
      and slot: "s1 + int (min (ahead q s) (length ps - 1)) = q"
      and sub1: "set d1 \<subseteq> set (numbers s ps)" "set (numbers s1 p1) \<subseteq> set (numbers s ps)"
      and len1: "length p1 = length ps"
      using inv_move [OF inv lo hi(2), of "ahead q s"] qs q(2) by auto
    let ?i = "min (ahead q s) (length ps - 1)"
    have i: "?i < length p1"
      using ps len1 by (cases ps) auto
    show ?thesis
    proof (cases "p1 ! ?i = None")
      case False
      then show ?thesis
        using \<open>\<not> 2048 \<le> ahead q s\<close> mv inv1 sub1 len1
        by (intro exI [of _ "-1"] exI [of _ d1] exI [of _ s1] exI [of _ p1])
          (auto simp: recv_spec_def Let_def)
    next
      case True
      have inv2: "order_inv pkt lo hi (ds @ d1) s1 (p1[?i := Some (pkt q)])"
        using inv_store [OF inv1 i] slot q(2) by simp
      obtain d2 s2 p2 where sc: "scan_spec (s1, p1[?i := Some (pkt q)]) = (map pkt d2, s2, p2)"
        "order_inv pkt lo hi ((ds @ d1) @ d2) s2 p2"
        "set d2 \<subseteq> set (numbers s1 (p1[?i := Some (pkt q)]))"
        "set (numbers s2 p2) \<subseteq> set (numbers s1 (p1[?i := Some (pkt q)]))" "length p2 = length p1"
        using inv_scan [OF inv2 lo hi(2)] by auto
      have new: "set (numbers s1 (p1[?i := Some (pkt q)])) \<subseteq> insert q (set (numbers s ps))"
        using sub1(2) slot numbers_store [OF i] by auto
      show ?thesis
        using \<open>\<not> 2048 \<le> ahead q s\<close> True mv len1 sc sub1 new
        by (intro exI [of _ 0] exI [of _ "d1 @ d2"] exI [of _ s2] exI [of _ p2])
          (auto simp: recv_spec_def Let_def)
    qed
  qed
qed

text \<open>A block ack request does to the window what the specification says.\<close>

lemma ahead_bar:
  assumes "ahead q s < 2048" and "0 < n" "n \<le> 2048"
  shows "ahead ((q + int n - 1) mod 4096) s = ahead q s + (n - 1)"
proof -
  have "(q + int n - 1 - s) mod 4096 = ((q - s) mod 4096 + (int n - 1)) mod 4096"
    unfolding mod_add_left_eq by (simp add: algebra_simps)
  also have "\<dots> = (int (ahead q s) + int (n - 1)) mod 4096"
    using assms(2) by (simp add: ahead_def of_nat_diff)
  also have "\<dots> = int (ahead q s + (n - 1))"
    using assms by simp
  finally show ?thesis
    by (simp add: ahead_def mod_simps)
qed

lemma bar_meets_spec:
  assumes "tbl_steady t" and "uint seq < 4096"
    and "bar_spec True (uint seq) (window t) = (ret, out, start, ptrs)"
  shows "\<exists>t'. reorder_in_tbl u seq PKT_TYPE_BAR p t w = Some (ret, t', fold (deliver u) out w) \<and>
    same_but_timer (t\<lparr>start_win := start, rx_reorder_ptr := ptrs\<rparr>) t'"
proof -
  let ?s = "start_win t" and ?n = "length (rx_reorder_ptr t)" and ?q = "uint seq"
  define re where "re = (\<lambda>tb. if \<not> timer_is_set tb \<or> ?s \<noteq> start_win tb
    then mwifiex_11n_rxreorder_timer_restart tb else tb)"
  have restart: "same_but_timer tb (re tb)" for tb
    by (simp add: re_def restart_timer_same)
  have ok: "tbl_ok t" and n: "0 < ?n" "?n \<le> 2048" "win_size t = int ?n"
    using assms(1) by (auto simp: tbl_steady_def tbl_ok_def)
  note admit = admit_steady [OF assms(1) uint_ge_0 assms(2)]
  show ?thesis
  proof (cases "ahead ?q ?s < 2048")
    case False
    then have "ret = -1" "out = []" "start = ?s" "ptrs = rx_reorder_ptr t"
      using assms(3) by (auto simp: bar_spec_def)
    then show ?thesis
      using False restart [of t]
      by (auto simp: reorder_in_tbl_def admit Let_def PKT_TYPE_BAR_def PKT_TYPE_AMSDU_def re_def)
  next
    case True
    define q where "q = (?q + int ?n - 1) mod 4096"
    obtain o1 s1 p1 where mv: "move_spec True (ahead q ?s) (window t) = (o1, s1, p1)"
      by (metis prod_cases3)
    define t1 where "t1 = t\<lparr>start_win := s1, rx_reorder_ptr := p1\<rparr>"
    have adv: "advance_win u q t w = Some (t1, fold (deliver u) o1 w)"
      using advance_eq [OF ok, of q u w] by (simp add: mv t1_def) (simp add: q_def)
    have ok1: "tbl_ok t1"
      using moved_window(1-3) [OF mv] ok by (auto simp: t1_def tbl_ok_def)
    obtain o2 s2 p2 where sc: "scan_spec (window t1) = (o2, s2, p2)"
      by (metis prod_cases3)
    have scan: "mwifiex_11n_scan_and_dispatch u t1 w' =
        Some (t\<lparr>start_win := s2, rx_reorder_ptr := p2\<rparr>, fold (deliver u) o2 w')" for w'
      by (simp add: scan_window [OF ok1] sc) (simp add: t1_def)
    have "ahead q ?s = ahead ?q ?s + (?n - 1)"
      unfolding q_def using True n(1,2) by (rule ahead_bar)
    then have spec: "ret = 0" "out = o1 @ o2" "start = s2" "ptrs = p2"
      using assms(3) True mv sc by (auto simp: bar_spec_def Let_def t1_def)
    have "reorder_in_tbl u seq PKT_TYPE_BAR p t w =
        Some (0, re (t\<lparr>start_win := s2, rx_reorder_ptr := p2\<rparr>), fold (deliver u) (o1 @ o2) w)"
      using True adv scan n(3)
      by (simp add: reorder_in_tbl_def admit Let_def PKT_TYPE_BAR_def PKT_TYPE_AMSDU_def and_4095
          re_def flip: q_def)
    then show ?thesis
      using restart by (auto simp: spec)
  qed
qed

section \<open>Properties\<close>

text \<open>C3: no packet is lost, duplicated or made up. Whatever packets, block ack requests and flushes
  a sound table sees, with whatever flags pending, no slot outside the table is touched, the
  table stays sound, and the packets handed up together with those waiting are those that waited
  before and those the table took.\<close>

theorem no_packet_lost:
  assumes "tbl_ok t" and "\<forall>e \<in> set es. event_ok e"
  shows "\<exists>acc t' out. run_events u es t w = Some (acc, t', fold (deliver u) out w) \<and> tbl_ok t' \<and>
    mset out + mset (packets (rx_reorder_ptr t')) = mset (packets (rx_reorder_ptr t)) + mset acc"
  using assms
proof (induction es arbitrary: t w)
  case Nil
  then show ?case
    by (intro exI [of _ "[]"] exI [of _ t]) simp
next
  case (Cons e es)
  obtain acc t1 out where step: "\<And>es. run_events u (e # es) t w = do {
      (acc', t, w) \<leftarrow> run_events u es t1 (fold (deliver u) out w);
      Some (acc @ acc', t, w) }" and ok: "tbl_ok t1"
    and one: "mset out + mset (packets (rx_reorder_ptr t1)) = mset (packets (rx_reorder_ptr t)) + mset acc"
    using run_step [OF Cons.prems(1), of e u w] Cons.prems(2) by auto
  obtain acc' t2 out' where rest: "run_events u es t1 (fold (deliver u) out w) =
      Some (acc', t2, fold (deliver u) out' (fold (deliver u) out w))" "tbl_ok t2"
    "mset out' + mset (packets (rx_reorder_ptr t2)) = mset (packets (rx_reorder_ptr t1)) + mset acc'"
    using Cons.IH [OF ok, of "fold (deliver u) out w"] Cons.prems(2) by auto
  have "mset (out @ out') + mset (packets (rx_reorder_ptr t2)) =
      mset (packets (rx_reorder_ptr t)) + mset (acc @ acc')"
    using one rest(3) by (simp add: union_assoc)
  then show ?case
    using rest(1,2) by (intro exI [of _ "acc @ acc'"] exI [of _ t2] exI [of _ "out @ out'"])
      (simp add: step)
qed

theorem no_packet_lost_witness:
  "\<exists>acc t' out. run_events logger [Packet 5 0 [1], Bar 3, Flush] (empty_tbl 0 4) [] =
     Some (acc, t', fold (deliver logger) out []) \<and> tbl_ok t'"
  using no_packet_lost [of "empty_tbl 0 4" "[Packet 5 0 [1], Bar 3, Flush]" logger "[]"]
  by (auto simp: tbl_ok_def empty_tbl_def PKT_TYPE_BAR_def)

text \<open>C6: the code implements the window's specification. For a packet of a session without
  pending flags, the code hands up exactly the packets the specification hands up, in its order,
  answers its code and leaves its window; only the flush timer may be restarted beside that.\<close>

theorem reorder_meets_spec:
  assumes "tbl_steady t" and "uint seq < 4096" and "pkt_type \<notin> {PKT_TYPE_BAR, PKT_TYPE_AMSDU}"
    and "recv_spec True (uint seq) p (window t) = (ret, out, start, ptrs)"
  shows "\<exists>t'. reorder_in_tbl u seq pkt_type (Some p) t w = Some (ret, t', fold (deliver u) out w) \<and>
    same_but_timer (t\<lparr>start_win := start, rx_reorder_ptr := ptrs\<rparr>) t'"
  using reorder_spec [OF assms(1,2), of pkt_type u p w] assms(3,4) by auto

theorem reorder_meets_spec_witness:
  "\<exists>t'. reorder_in_tbl logger 11 0 (Some [1]) (empty_tbl 10 4) [] = Some (0, t', [])"
proof -
  have "recv_spec True (uint (11 :: u16)) [1] (window (empty_tbl 10 4)) =
      (0, [], 10, [None, Some [1], None, None])"
    by code_simp
  then show ?thesis
    using reorder_meets_spec [OF empty_tbl_steady, of 4 10 11 0 "[1]" 0 "[]" 10 _ logger "[]"]
    by (auto simp: PKT_TYPE_BAR_def PKT_TYPE_AMSDU_def)
qed

text \<open>One packet for a table, with the window afterwards.\<close>

lemma reorder_packet:
  assumes "tbl_steady t" and "uint seq < 4096" and "pkt_type \<notin> {PKT_TYPE_BAR, PKT_TYPE_AMSDU}"
    and "recv_spec True (uint seq) p (window t) = (ret, out, start, ptrs)"
    and "length ptrs = length (rx_reorder_ptr t)" "0 \<le> start" "start < 4096"
  obtains t' where "reorder_in_tbl u seq pkt_type (Some p) t w = Some (ret, t', fold (deliver u) out w)"
    "start_win t' = start" "rx_reorder_ptr t' = ptrs" "tbl_steady t'"
proof -
  obtain t' where t': "reorder_in_tbl u seq pkt_type (Some p) t w = Some (ret, t', fold (deliver u) out w)"
    "same_but_timer (t\<lparr>start_win := start, rx_reorder_ptr := ptrs\<rparr>) t'"
    using reorder_spec [OF assms(1,2), of pkt_type u p w] assms(3,4) by auto
  note same = same_but_timer_simps [OF t'(2), simplified]
  have "tbl_steady t'"
    using assms(1,5-7) same by (simp add: tbl_steady_def tbl_ok_def)
  then show ?thesis
    using that t'(1) same(1) by simp
qed

lemma order_run:
  assumes bounds: "0 \<le> lo" "hi \<le> lo + 2048" "hi < 4096" and ty: "pkt_type \<notin> {PKT_TYPE_BAR, PKT_TYPE_AMSDU}"
    and "tbl_steady t" "order_inv pkt lo hi ds (start_win t) (rx_reorder_ptr t)"
    and "\<forall>q \<in> set qs. lo \<le> uint q \<and> uint q < hi"
  shows "\<exists>ds' acc t'. run_events u (map (\<lambda>q. Packet q pkt_type (pkt (uint q))) qs) t w =
      Some (acc, t', fold (deliver u) (map pkt ds') w) \<and> sorted_wrt (<) (ds @ ds') \<and>
      set ds' \<subseteq> uint ` set qs \<union> set (numbers (start_win t) (rx_reorder_ptr t))"
  using assms(5-7)
proof (induction qs arbitrary: ds t w)
  case Nil
  then show ?case
    by (intro exI [of _ "[]"] exI [of _ t]) (simp add: order_inv_def)
next
  case (Cons q qs)
  have ne: "rx_reorder_ptr t \<noteq> []"
    using Cons.prems(1) by (auto simp: tbl_steady_def tbl_ok_def)
  have q: "lo \<le> uint q" "uint q < hi"
    using Cons.prems(3) by simp_all
  obtain ret d1 s1 p1 where spec: "recv_spec True (uint q) (pkt (uint q)) (window t) = (ret, map pkt d1, s1, p1)"
    and inv1: "order_inv pkt lo hi (ds @ d1) s1 p1"
    and sub: "set d1 \<subseteq> insert (uint q) (set (numbers (start_win t) (rx_reorder_ptr t)))"
      "set (numbers s1 p1) \<subseteq> insert (uint q) (set (numbers (start_win t) (rx_reorder_ptr t)))"
    and len: "length p1 = length (rx_reorder_ptr t)"
    using inv_recv [OF Cons.prems(2) bounds q ne] by blast
  have s1: "0 \<le> s1" "s1 < 4096" "uint q < 4096"
    using inv1 bounds q by (simp_all add: order_inv_def)
  obtain t1 where step: "reorder_in_tbl u q pkt_type (Some (pkt (uint q))) t w = Some (ret, t1, fold (deliver u) (map pkt d1) w)"
    and t1: "start_win t1 = s1" "rx_reorder_ptr t1 = p1" "tbl_steady t1"
    by (rule reorder_packet [OF Cons.prems(1) s1(3) ty spec len s1(1,2)])
  have inv1': "order_inv pkt lo hi (ds @ d1) (start_win t1) (rx_reorder_ptr t1)"
    and qs: "\<forall>q \<in> set qs. lo \<le> uint q \<and> uint q < hi"
    using inv1 t1(1,2) Cons.prems(3) by simp_all
  from Cons.IH [OF t1(3) inv1' qs, of "fold (deliver u) (map pkt d1) w"]
  obtain ds' acc t' where rest: "run_events u (map (\<lambda>q. Packet q pkt_type (pkt (uint q))) qs) t1 (fold (deliver u) (map pkt d1) w) =
      Some (acc, t', fold (deliver u) (map pkt ds') (fold (deliver u) (map pkt d1) w))"
    "sorted_wrt (<) ((ds @ d1) @ ds')" "set ds' \<subseteq> uint ` set qs \<union> set (numbers s1 p1)"
    unfolding t1(1,2) by blast
  show ?case
    using step rest sub
    by (intro exI [of _ "d1 @ ds'"] exI [of _ "taken ret pkt_type (Some (pkt (uint q))) @ acc"] exI [of _ t']) auto
qed

lemma no_packets_numbers: "packets ps = [] \<Longrightarrow> numbers s ps = []"
  by (induction ps arbitrary: s) (auto simp: packets_def split: if_splits)

lemma no_packets_labelled: "packets ps = [] \<Longrightarrow> labelled pkt s ps"
  by (auto simp: labelled_def packets_def filter_empty_conv)

text \<open>C4: packets are handed up in order. A session that starts with an empty window below 2048
  and sees packets whose numbers lie in the 2048 from its start hands them up in strictly
  increasing order of their numbers, each at most once, whatever the order, the losses and the
  repetitions in which they arrive.\<close>

theorem in_order_delivery:
  assumes "tbl_steady t" and "packets (rx_reorder_ptr t) = []" and "start_win t + 2048 < 4096"
    and "\<forall>q \<in> set qs. start_win t \<le> uint q \<and> uint q < start_win t + 2048"
    and "pkt_type \<notin> {PKT_TYPE_BAR, PKT_TYPE_AMSDU}"
  shows "\<exists>ds acc t'. run_events u (map (\<lambda>q. Packet q pkt_type (pkt (uint q))) qs) t w =
      Some (acc, t', fold (deliver u) (map pkt ds) w) \<and>
    sorted_wrt (<) ds \<and> set ds \<subseteq> uint ` set qs"
proof -
  have "order_inv pkt (start_win t) (start_win t + 2048) [] (start_win t) (rx_reorder_ptr t)"
    using no_packets_numbers [OF assms(2)] no_packets_labelled [OF assms(2)] by (simp add: order_inv_def)
  then show ?thesis
    using order_run [of "start_win t" "start_win t + 2048" pkt_type t pkt "[]" qs u w] assms no_packets_numbers [OF assms(2)]
    by (simp add: tbl_steady_def tbl_ok_def)
qed

theorem in_order_delivery_witness:
  "\<exists>ds acc t'. run_events logger (map (\<lambda>q. Packet q 0 [of_int (uint q)]) [12, 10, 11, 10]) (empty_tbl 10 4) [] =
      Some (acc, t', fold (deliver logger) (map (\<lambda>q. [of_int q]) ds) []) \<and> sorted_wrt (<) ds"
proof -
  have "tbl_steady (empty_tbl 10 4)"
    by (rule empty_tbl_steady) simp_all
  then show ?thesis
    using in_order_delivery [of "empty_tbl 10 4" "[12, 10, 11, 10]" 0 logger "\<lambda>q. [of_int q]" "[]"]
    by (auto simp: empty_tbl_def PKT_TYPE_BAR_def PKT_TYPE_AMSDU_def)
qed

text \<open>The order is lost when the start of the window wraps around. A table of eight slots starts
  at 4095 and holds packet 6, whose predecessors are missing. Packet 7 moves the start to 0,
  which is less than 4095, so the code hands the whole window up, packet 6 with it; the missing
  packet 0 is still accepted and handed up afterwards. The specification without the exception
  keeps packet 6 and hands up packet 0 alone.\<close>

theorem wrap_breaks_order:
  "map_option (\<lambda>(acc, _, w). w)
     (run_events logger [Packet 6 0 [6], Packet 7 0 [7], Packet 0 0 [0]] (empty_tbl 4095 8) []) =
     Some [[6], [0]] \<and>
   (let (_, _, win) = recv_spec False 6 6 (4095, replicate 8 None);
        (_, out, win) = recv_spec False 7 7 win;
        (_, out', win) = recv_spec False 0 (0 :: nat) win
    in out = [] \<and> out' = [0])"
  by code_simp

text \<open>A session with a window of one slot overruns it. The test for a packet beyond the window
  compares its last number with its first, which coincide, so the window is never moved, and
  every packet ahead of the start is stored outside the only slot.\<close>

theorem window_of_one_overruns:
  assumes "win_size t = 1" and "length (rx_reorder_ptr t) = 1" and "0 \<le> start_win t" "start_win t < 4096"
    and "tbl_flags t = 0" and "pkt_type \<notin> {PKT_TYPE_BAR, PKT_TYPE_AMSDU}" and "uint seq < 4096"
    and "0 < ahead (uint seq) (start_win t)" and "ahead (uint seq) (start_win t) < 2048"
  shows "reorder_in_tbl u seq pkt_type payload t w = None"
proof -
  let ?s = "start_win t" and ?q = "uint seq"
  have off: "int (ahead ?q ?s) = (if ?q \<ge> ?s then ?q - ?s else ?q + 4096 - ?s)"
    using assms by (intro ahead_cases) simp_all
  have admit: "admit_seq ?q t = (True, t)"
    using admit_plain [OF assms(3-5) uint_ge_0 assms(7)] assms(9) by simp
  have stay: "advance_win u ?q t w = Some (t, w)"
  proof -
    have "(?s + win_size t - 1) AND (MAX_TID_VALUE - 1) = ?s"
      using assms(1,3,4) by (simp add: and_4095)
    then show ?thesis
      by (simp add: advance_win_def Let_def)
  qed
  have "(if ?q \<ge> ?s then ?q - ?s else ?q + MAX_TID_VALUE - ?s) = int (ahead ?q ?s)"
    using off by (simp add: MAX_TID_VALUE_def)
  then have "store_pkt ?q payload t = None"
    unfolding store_pkt_def using assms(2,8) ahead_less [of ?q ?s] by (simp add: idx_def unat_of_nat)
  then show ?thesis
    using assms(6) by (simp add: reorder_in_tbl_def admit stay Let_def)
qed

theorem window_of_one_overruns_witness:
  "reorder_in_tbl logger 11 0 (Some [1]) (empty_tbl 10 1) [] = None"
  by (rule window_of_one_overruns)
    (simp_all add: empty_tbl_def PKT_TYPE_BAR_def PKT_TYPE_AMSDU_def ahead_def)

end
