(* ===== verification/Ba_State.thy ===== *)
theory Ba_State
  imports Rx_Order C_Layout
begin

text \<open>
  Block-ack sessions of the mwifiex driver: the state that \<open>doc/mwifiex/11n.c\<close> and
  \<open>doc/mwifiex/11n_rxreorder.c\<close> share, the lookups in it, and the requests both files send.

  The state of an interface is \<open>ba_priv\<close>, the part of \<open>mwifiex_private\<close> these files use; the
  kernel's linked lists are lists, and a pointer to an entry is its position. What the files
  call in the rest of the driver and the kernel is a \<open>driver\<close>, functions over an unspecified
  state \<open>'w\<close>. The firmware's command structs are byte lists, read and written at the offsets
  of their fields. \<open>None\<close> is an access outside an array. An operation runs alone: what other
  threads do between two locked regions is not modelled.
\<close>

section \<open>Constants\<close>

definition MAX_NUM_TID :: nat where "MAX_NUM_TID = 8"
definition MWIFIEX_BSS_ROLE_STA :: u8 where "MWIFIEX_BSS_ROLE_STA = 0"
definition BSS_ROLE_BIT_MASK :: u8 where "BSS_ROLE_BIT_MASK = 1"
definition MWIFIEX_BSS_TYPE_STA :: u8 where "MWIFIEX_BSS_TYPE_STA = 0"
definition MWIFIEX_BSS_TYPE_UAP :: u8 where "MWIFIEX_BSS_TYPE_UAP = 1"
definition MWIFIEX_BSS_TYPE_P2P :: u8 where "MWIFIEX_BSS_TYPE_P2P = 2"
definition BA_STREAM_NOT_ALLOWED :: u8 where "BA_STREAM_NOT_ALLOWED = 0xff"
definition BA_RESULT_SUCCESS :: u16 where "BA_RESULT_SUCCESS = 0"
definition BA_RESULT_TIMEOUT :: u8 where "BA_RESULT_TIMEOUT = 2"
definition ADDBA_RSP_STATUS_ACCEPT :: u16 where "ADDBA_RSP_STATUS_ACCEPT = 0"
definition TYPE_DELBA_SENT :: u8 where "TYPE_DELBA_SENT = 1"
definition TYPE_DELBA_RECEIVE :: u8 where "TYPE_DELBA_RECEIVE = 2"
definition BLOCKACKPARAM_TID_POS :: nat where "BLOCKACKPARAM_TID_POS = 2"
definition BLOCKACKPARAM_AMSDU_SUPP_MASK :: u16 where "BLOCKACKPARAM_AMSDU_SUPP_MASK = 1"
definition BLOCKACKPARAM_WINSIZE_POS :: nat where "BLOCKACKPARAM_WINSIZE_POS = 6"
definition IMMEDIATE_BLOCK_ACK :: u16 where "IMMEDIATE_BLOCK_ACK = 2"
definition DELBA_TID_POS :: nat where "DELBA_TID_POS = 12"
definition DELBA_INITIATOR_POS :: nat where "DELBA_INITIATOR_POS = 11"
definition MWIFIEX_DEF_11N_RX_SEQ_NUM :: u16 where "MWIFIEX_DEF_11N_RX_SEQ_NUM = 0xffff"
definition SSN_MASK :: u16 where "SSN_MASK = 0xfff0"
definition S_DS_GEN :: u16 where "S_DS_GEN = 8"
definition HostCmd_ACT_GEN_GET :: u16 where "HostCmd_ACT_GEN_GET = 0"
definition HostCmd_ACT_GEN_SET :: u16 where "HostCmd_ACT_GEN_SET = 1"
definition HostCmd_CMD_11N_CFG :: u16 where "HostCmd_CMD_11N_CFG = 0xcd"
definition HostCmd_CMD_11N_ADDBA_REQ :: u16 where "HostCmd_CMD_11N_ADDBA_REQ = 0xce"
definition HostCmd_CMD_11N_ADDBA_RSP :: u16 where "HostCmd_CMD_11N_ADDBA_RSP = 0xcf"
definition HostCmd_CMD_11N_DELBA :: u16 where "HostCmd_CMD_11N_DELBA = 0xd0"
definition MWIFIEX_STA_AMPDU_DEF_TXWINSIZE :: u32 where "MWIFIEX_STA_AMPDU_DEF_TXWINSIZE = 64"
definition MWIFIEX_STA_AMPDU_DEF_RXWINSIZE :: u32 where "MWIFIEX_STA_AMPDU_DEF_RXWINSIZE = 64"
definition MWIFIEX_STA_COEX_AMPDU_DEF_RXWINSIZE :: u32 where "MWIFIEX_STA_COEX_AMPDU_DEF_RXWINSIZE = 16"
definition MWIFIEX_UAP_AMPDU_DEF_TXWINSIZE :: u32 where "MWIFIEX_UAP_AMPDU_DEF_TXWINSIZE = 32"
definition MWIFIEX_UAP_AMPDU_DEF_RXWINSIZE :: u32 where "MWIFIEX_UAP_AMPDU_DEF_RXWINSIZE = 16"
definition MWIFIEX_UAP_COEX_AMPDU_DEF_RXWINSIZE :: u32 where "MWIFIEX_UAP_COEX_AMPDU_DEF_RXWINSIZE = 16"
definition MWIFIEX_11AC_STA_AMPDU_DEF_TXWINSIZE :: u32 where "MWIFIEX_11AC_STA_AMPDU_DEF_TXWINSIZE = 64"
definition MWIFIEX_11AC_STA_AMPDU_DEF_RXWINSIZE :: u32 where "MWIFIEX_11AC_STA_AMPDU_DEF_RXWINSIZE = 64"

text \<open>Constants of the Linux headers.\<close>

definition IEEE80211_ADDBA_PARAM_TID_MASK :: u16 where "IEEE80211_ADDBA_PARAM_TID_MASK = 0x3c"
definition IEEE80211_ADDBA_PARAM_BUF_SIZE_MASK :: u16 where "IEEE80211_ADDBA_PARAM_BUF_SIZE_MASK = 0xffc0"
definition IEEE80211_DELBA_PARAM_INITIATOR_MASK :: u16 where "IEEE80211_DELBA_PARAM_INITIATOR_MASK = 0x800"
definition WLAN_REASON_QSTA_TIMEOUT :: u16 where "WLAN_REASON_QSTA_TIMEOUT = 39"
definition IFTYPE_ADHOC :: u32 where "IFTYPE_ADHOC = 1"
definition IFTYPE_STATION :: u32 where "IFTYPE_STATION = 2"
definition IFTYPE_P2P_CLIENT :: u32 where "IFTYPE_P2P_CLIENT = 8"

section \<open>Command structs\<close>

definition addba_req_fields :: "cfield list" where
  "addba_req_fields = [(''add_req_result'', CI8), (''peer_mac_addr'', CArr 6 CI8),
     (''dialog_token'', CI8), (''block_ack_param_set'', CI16), (''block_ack_tmo'', CI16),
     (''ssn'', CI16)]"

definition addba_rsp_fields :: "cfield list" where
  "addba_rsp_fields = [(''add_rsp_result'', CI8), (''peer_mac_addr'', CArr 6 CI8),
     (''dialog_token'', CI8), (''status_code'', CI16), (''block_ack_param_set'', CI16),
     (''block_ack_tmo'', CI16), (''ssn'', CI16)]"

definition delba_fields :: "cfield list" where
  "delba_fields = [(''del_result'', CI8), (''peer_mac_addr'', CArr 6 CI8),
     (''del_ba_param_set'', CI16), (''reason_code'', CI16), (''reserved'', CI8)]"

definition batimeout_fields :: "cfield list" where
  "batimeout_fields = [(''tid'', CI8), (''peer_mac_addr'', CArr 6 CI8), (''origninator'', CI8)]"

lemma addba_req_layout:
  "field_offsets 0 addba_req_fields = [(''add_req_result'', 0), (''peer_mac_addr'', 1),
     (''dialog_token'', 7), (''block_ack_param_set'', 8), (''block_ack_tmo'', 10), (''ssn'', 12)]"
  "sizeof addba_req_fields = 14"
  by (simp_all add: addba_req_fields_def)

lemma addba_rsp_layout:
  "field_offsets 0 addba_rsp_fields = [(''add_rsp_result'', 0), (''peer_mac_addr'', 1),
     (''dialog_token'', 7), (''status_code'', 8), (''block_ack_param_set'', 10),
     (''block_ack_tmo'', 12), (''ssn'', 14)]"
  "sizeof addba_rsp_fields = 16"
  by (simp_all add: addba_rsp_fields_def)

lemma delba_layout:
  "field_offsets 0 delba_fields = [(''del_result'', 0), (''peer_mac_addr'', 1),
     (''del_ba_param_set'', 7), (''reason_code'', 9), (''reserved'', 11)]"
  "sizeof delba_fields = 12"
  by (simp_all add: delba_fields_def)

lemma batimeout_layout:
  "field_offsets 0 batimeout_fields = [(''tid'', 0), (''peer_mac_addr'', 1), (''origninator'', 7)]"
  "sizeof batimeout_fields = 8"
  by (simp_all add: batimeout_fields_def)

text \<open>A 16-bit field at an offset; the target is little-endian, so the conversions do nothing.\<close>

definition get16 :: "byte list \<Rightarrow> nat \<Rightarrow> u16 option" where
  "get16 bs off = map_option ld16 (load bs off 2)"

definition put16 :: "byte list \<Rightarrow> nat \<Rightarrow> u16 \<Rightarrow> byte list option" where
  "put16 bs off v = store bs off (le16 v)"

lemma get16_Some [mem_simps]: "off + 2 \<le> length bs \<Longrightarrow> get16 bs off = Some (ld16 (take 2 (drop off bs)))"
  by (simp add: get16_def mem_simps)

lemma uint_less_unat: "uint x < numeral k \<longleftrightarrow> unat x < numeral k"
  unfolding uint_nat of_nat_less_numeral_iff by (rule refl)

lemma store_defined:
  "off + length xs \<le> length bs \<Longrightarrow> \<exists>bs'. store bs off xs = Some bs' \<and> length bs' = length bs"
  by (simp add: store_def)

lemma put16_defined: "off + 2 \<le> length bs \<Longrightarrow> \<exists>bs'. put16 bs off v = Some bs' \<and> length bs' = length bs"
  by (simp add: put16_def store_def)

lemma get16_put16: "put16 bs off v = Some bs' \<Longrightarrow> get16 bs' off = Some v"
  using load_store_same [of bs off "le16 v" bs'] by (simp add: put16_def get16_def)

lemma get16_put16_other:
  "put16 bs off v = Some bs' \<Longrightarrow> o' + 2 \<le> off \<or> off + 2 \<le> o' \<Longrightarrow> get16 bs' o' = get16 bs o'"
  using load_store_disjoint [of bs off "le16 v" bs' o' 2] by (simp add: put16_def get16_def)

lemma load_put16_other:
  "put16 bs off v = Some bs' \<Longrightarrow> o' + n \<le> off \<or> off + 2 \<le> o' \<Longrightarrow> load bs' o' n = load bs o' n"
  using load_store_disjoint [of bs off "le16 v" bs' o' n] by (simp add: put16_def)

text \<open>The fields of the parameter set of a request.\<close>

definition param_tid :: "u16 \<Rightarrow> u16" where
  "param_tid p = drop_bit BLOCKACKPARAM_TID_POS (p AND IEEE80211_ADDBA_PARAM_TID_MASK)"

definition param_win :: "u16 \<Rightarrow> u16" where
  "param_win p = drop_bit BLOCKACKPARAM_WINSIZE_POS (p AND IEEE80211_ADDBA_PARAM_BUF_SIZE_MASK)"

text \<open>A command for the firmware: its header fields and the union of parameters.\<close>

record host_cmd =
  command :: u16
  cmd_size :: u16
  params :: "byte list"

section \<open>State of an interface\<close>

datatype mwifiex_ba_status = BA_SETUP_NONE | BA_SETUP_INPROGRESS | BA_SETUP_COMPLETE

datatype mwifiex_wmm_ac_e = WMM_AC_BK | WMM_AC_BE | WMM_AC_VI | WMM_AC_VO

record add_ba_param_t =
  tx_win_size :: u32
  rx_win_size :: u32
  timeout :: u32
  tx_amsdu :: bool
  rx_amsdu :: bool

record tx_aggr =
  ampdu_user :: u8
  ampdu_ap :: u8
  amsdu_prio :: u8

text \<open>
  A packet of the kernel: its buffer with the free bytes in front of the data and the buffer's address,
  its priority and arrival time, and the driver's notes on it (\<open>mwifiex_txinfo\<close>).
\<close>

record skb =
  skb_data :: "byte list"
  headroom :: "byte list"
  buf_at :: nat
  priority :: u32
  tstamp :: int
  tx_flags :: u8
  tx_bss_num :: u8
  tx_bss_type :: u8
  aggr_num :: u8
  ack_frame_id :: u8
  status_code :: int
  pkt_len :: u32

text \<open>A receiver: \<open>node_at\<close> is the address of its entry, which tells it from a later one.\<close>

record ra_list_tbl =
  node_at :: nat
  skb_head :: "skb list"
  ra :: "byte list"
  is_11n_enabled :: u32
  max_amsdu :: u16
  ba_pkt_count :: u16
  ba_packet_thr :: u8
  ra_ba_status :: mwifiex_ba_status
  amsdu_in_ampdu :: bool
  total_pkt_count :: u16
  tdls_link :: bool
  tx_paused :: bool

record tx_ba_stream_tbl =
  tx_tid :: int
  tx_ra :: "byte list"
  ba_status :: mwifiex_ba_status
  tx_tbl_amsdu :: bool

text \<open>Statistics of a station, \<open>mwifiex_station_stats\<close>, and of an interface, of the kernel's \<open>net_device_stats\<close>.\<close>

record station_stats =
  last_rx :: u64
  sta_rx_bytes :: u64
  sta_rx_packets :: u32
  tx_failed :: u32
  last_tx_rate :: u8
  last_tx_htinfo :: u8

record net_stats =
  rx_bytes :: u64
  rx_packets :: u64
  rx_dropped :: u64
  tx_dropped :: u64

record sta_node =
  mac_addr :: "byte list"
  sta_11n_enabled :: u8
  sta_11ac_enabled :: u8
  ampdu_sta :: "u8 list"
  sta_rx_seq :: "u16 list"
  sta_max_amsdu :: u16
  tdls_status :: u8
  tx_pause :: u8
  stats :: station_stats

record ac_state =
  ac_disabled :: bool
  flow_required :: bool
  flow_created :: bool

text \<open>
  The queues of an interface, \<open>mwifiex_wmm_desc\<close> without the lists of receivers and the
  downgraded categories, which are in the record of the interface.
\<close>

record wmm_desc =
  packets_out :: "u32 list"
  pkts_paused :: "u32 list"
  ac_status :: "mwifiex_wmm_ac_e \<Rightarrow> ac_state"
  drv_pkt_delay_max :: u32
  queue_priority :: "mwifiex_wmm_ac_e list"
  user_pri_pkt_tx_ctrl :: "u32 list"
  tx_pkts_queued :: u32
  highest_queued_prio :: int

text \<open>
  The wireless mode is \<open>mode\<close>; \<open>hw_11ac\<close>, \<open>rx_locked\<close>, \<open>rx_processing\<close> and
  \<open>adhoc_11n_enabled\<close> belong to the adapter. \<open>ac_down_graded_vals\<close> is an array with an entry for each access category, and
  \<open>dialog_tok\<close> the static variable of \<open>mwifiex_send_addba\<close>.
\<close>

record ba_priv =
  rx_tbls :: "rx_tbl list"
  tx_tbls :: "tx_ba_stream_tbl list"
  ra_lists :: "ra_list_tbl list list"
  sta_list :: "sta_node list"
  aggr_prio_tbl :: "tx_aggr list"
  add_ba_param :: add_ba_param_t
  rx_seq :: "u16 list"
  ac_down_graded_vals :: "mwifiex_wmm_ac_e \<Rightarrow> mwifiex_wmm_ac_e"
  mode :: u32
  bss_type :: u8
  connected :: bool
  bss_started :: bool
  cfg_bssid :: "byte list"
  hw_11ac :: bool
  rx_locked :: bool
  rx_processing :: bool
  dialog_tok :: u8
  is_data_rate_auto :: bool
  rates_bitmap :: "u16 list"
  ap_11n_enabled :: bool
  adhoc_11n_enabled :: bool
  wmm :: wmm_desc
  wmm_enabled :: bool
  wmm_ie :: "byte list"
  tos_to_tid_inv :: "u8 list"
  bypass_txq :: "skb list"
  tdls_txq :: "skb list"
  port_open :: bool
  bss_num :: u8
  bss_priority :: nat
  pkt_tx_ctrl :: u32
  wps_session :: bool
  bss_11n_enabled :: bool
  curr_addr :: "byte list"
  bss_mac_address :: "byte list"
  hs2_enabled :: bool
  rxpd_rate :: u8
  rxpd_htinfo :: u8
  mgmt_frame_mask :: u32
  iftype_unspecified :: bool
  net_stats_of :: net_stats
  del_list_idx :: nat

text \<open>
  The services: handing packets up (with the role of the interface), sending a command with
  its action and data, allocating memory, and waiting for the receive work, which is taken to
  leave the tables of the interface alone.
\<close>

record 'w driver =
  up :: "'w upper"
  mwifiex_send_cmd :: "u16 \<Rightarrow> u16 \<Rightarrow> byte list \<Rightarrow> 'w \<Rightarrow> int \<times> 'w"
  kzalloc :: "'w \<Rightarrow> bool \<times> 'w"
  flush_workqueue :: "'w \<Rightarrow> 'w"

definition GET_BSS_ROLE :: "'w driver \<Rightarrow> u8" where
  "GET_BSS_ROLE d = bss_role (up d) AND BSS_ROLE_BIT_MASK"

section \<open>Lookups\<close>

text \<open>Searching a list: the position of the first entry with a property.\<close>

fun first_index :: "('a \<Rightarrow> bool) \<Rightarrow> 'a list \<Rightarrow> nat option" where
  "first_index P [] = None"
| "first_index P (x # xs) = (if P x then Some 0 else map_option Suc (first_index P xs))"

definition remove_at :: "nat \<Rightarrow> 'a list \<Rightarrow> 'a list" where
  "remove_at i xs = take i xs @ drop (Suc i) xs"

definition mwifiex_get_sta_entry :: "ba_priv \<Rightarrow> byte list \<Rightarrow> sta_node option" where
  "mwifiex_get_sta_entry priv mac = find (\<lambda>n. mac_addr n = mac) (sta_list priv)"

definition mwifiex_queuing_ra_based :: "'w driver \<Rightarrow> ba_priv \<Rightarrow> bool" where
  "mwifiex_queuing_ra_based d priv =
     (\<not> ((mode priv = IFTYPE_STATION \<or> mode priv = IFTYPE_P2P_CLIENT) \<and>
         GET_BSS_ROLE d = MWIFIEX_BSS_ROLE_STA))"

definition ac_to_tid :: "mwifiex_wmm_ac_e \<Rightarrow> u8 list" where
  "ac_to_tid ac = (case ac of WMM_AC_BK \<Rightarrow> [1, 2] | WMM_AC_BE \<Rightarrow> [0, 3]
     | WMM_AC_VI \<Rightarrow> [4, 5] | WMM_AC_VO \<Rightarrow> [6, 7])"

definition mwifiex_wmm_convert_tos_to_ac :: "u32 \<Rightarrow> mwifiex_wmm_ac_e" where
  "mwifiex_wmm_convert_tos_to_ac tos =
     (let tos_to_ac = [WMM_AC_BE, WMM_AC_BK, WMM_AC_BK, WMM_AC_BE,
        WMM_AC_VI, WMM_AC_VI, WMM_AC_VO, WMM_AC_VO]
      in if tos \<ge> 8 then WMM_AC_BE else tos_to_ac ! unat tos)"

definition mwifiex_wmm_downgrade_tid :: "ba_priv \<Rightarrow> u32 \<Rightarrow> u8" where
  "mwifiex_wmm_downgrade_tid priv t =
     (let ac = mwifiex_wmm_convert_tos_to_ac t;
          ac_down = ac_down_graded_vals priv ac
      in ac_to_tid ac_down ! unat (t mod 2))"

text \<open>The answer of the search in a list of receivers is a position or the null pointer.\<close>

definition mwifiex_wmm_get_ralist_node :: "ba_priv \<Rightarrow> u8 \<Rightarrow> byte list \<Rightarrow> nat option option" where
  "mwifiex_wmm_get_ralist_node priv t ra_addr = do {
     rs \<leftarrow> idx (ra_lists priv) (unat t);
     Some (first_index (\<lambda>r. ra r = ra_addr) rs)
   }"

definition mwifiex_get_ba_tbl :: "ba_priv \<Rightarrow> int \<Rightarrow> byte list \<Rightarrow> nat option" where
  "mwifiex_get_ba_tbl priv t r = first_index (\<lambda>e. tx_ra e = r \<and> tx_tid e = t) (tx_tbls priv)"

definition mwifiex_get_ba_status :: "ba_priv \<Rightarrow> mwifiex_ba_status \<Rightarrow> nat option" where
  "mwifiex_get_ba_status priv st = first_index (\<lambda>e. ba_status e = st) (tx_tbls priv)"

definition mwifiex_11n_get_rx_reorder_tbl :: "ba_priv \<Rightarrow> int \<Rightarrow> byte list \<Rightarrow> nat option" where
  "mwifiex_11n_get_rx_reorder_tbl priv t a = first_index (\<lambda>e. ta e = a \<and> tid e = t) (rx_tbls priv)"

definition mwifiex_is_tx_ba_stream_ptr_valid :: "ba_priv \<Rightarrow> nat option \<Rightarrow> bool" where
  "mwifiex_is_tx_ba_stream_ptr_valid priv ptr =
     (case ptr of None \<Rightarrow> False | Some i \<Rightarrow> i < length (tx_tbls priv))"

text \<open>Removing an entry through the null pointer, or one that is not in the list, is \<open>None\<close>.\<close>

definition mwifiex_11n_delete_tx_ba_stream_tbl_entry :: "ba_priv \<Rightarrow> nat option \<Rightarrow> ba_priv option" where
  "mwifiex_11n_delete_tx_ba_stream_tbl_entry priv ptr =
     (if ptr = None \<and> mwifiex_is_tx_ba_stream_ptr_valid priv ptr then Some priv
      else do {
        i \<leftarrow> ptr;
        _ \<leftarrow> idx (tx_tbls priv) i;
        Some (priv\<lparr>tx_tbls := remove_at i (tx_tbls priv)\<rparr>)
      })"

text \<open>The two fields of a receiver's entry that the sessions keep up to date.\<close>

definition set_ra_session ::
  "ba_priv \<Rightarrow> u8 \<Rightarrow> nat option \<Rightarrow> mwifiex_ba_status \<Rightarrow> bool \<Rightarrow> ba_priv" where
  "set_ra_session priv t ra_list st am =
     (case ra_list of
        None \<Rightarrow> priv
      | Some i \<Rightarrow>
          (let rs = ra_lists priv ! unat t
           in priv\<lparr>ra_lists := (ra_lists priv)[unat t := rs[i := (rs ! i)\<lparr>ra_ba_status := st,
                amsdu_in_ampdu := am\<rparr>]]\<rparr>))"

section \<open>Requests\<close>

text \<open>The window of a request; a peer on a direct link must be known.\<close>

definition addba_tx_win :: "'w driver \<Rightarrow> ba_priv \<Rightarrow> byte list \<Rightarrow> u32 option" where
  "addba_tx_win d priv peer_mac =
     (if GET_BSS_ROLE d = MWIFIEX_BSS_ROLE_STA \<and> tdls_enabled (up d) \<and>
         hw_11ac priv \<and> cfg_bssid priv \<noteq> peer_mac
      then (case mwifiex_get_sta_entry priv peer_mac of
          None \<Rightarrow> None
        | Some n \<Rightarrow> Some (if sta_11ac_enabled n \<noteq> 0 then MWIFIEX_11AC_STA_AMPDU_DEF_TXWINSIZE
                         else tx_win_size (add_ba_param priv)))
      else Some (tx_win_size (add_ba_param priv)))"

definition mwifiex_send_addba ::
  "'w driver \<Rightarrow> int \<Rightarrow> byte list \<Rightarrow> ba_priv \<Rightarrow> 'w \<Rightarrow> (int \<times> ba_priv \<times> 'w) option" where
  "mwifiex_send_addba d t peer_mac priv w =
     (case addba_tx_win d priv peer_mac of
        None \<Rightarrow> Some (-1, priv, w)
      | Some win \<Rightarrow>
             (let block_ack_param_set = ucast (push_bit BLOCKACKPARAM_TID_POS (of_int t :: u32) OR
                    push_bit BLOCKACKPARAM_WINSIZE_POS win) OR IMMEDIATE_BLOCK_ACK
              in do {
                am \<leftarrow> (if tx_amsdu (add_ba_param priv) then do {
                          p \<leftarrow> idx (aggr_prio_tbl priv) (nat t);
                          Some (amsdu_prio p \<noteq> BA_STREAM_NOT_ALLOWED)
                        } else Some False);
                let block_ack_param_set = (if am then block_ack_param_set OR BLOCKACKPARAM_AMSDU_SUPP_MASK
                                           else block_ack_param_set);
                let tok = dialog_tok priv + 1;
                let tok = (if tok = 0 then 1 else tok);
                let add_ba_req = [0] @ peer_mac @ [tok] @ le16 block_ack_param_set @
                      le16 (ucast (timeout (add_ba_param priv))) @ le16 0;
                let (ret, w) = mwifiex_send_cmd d HostCmd_CMD_11N_ADDBA_REQ 0 add_ba_req w;
                Some (ret, priv\<lparr>dialog_tok := tok\<rparr>, w)
              }))"

text \<open>
  The initiator bit is computed in a local variable that is not stored back in the command.
\<close>

definition mwifiex_send_delba :: "'w driver \<Rightarrow> int \<Rightarrow> byte list \<Rightarrow> int \<Rightarrow> 'w \<Rightarrow> int \<times> 'w" where
  "mwifiex_send_delba d t peer_mac initiator w =
     (let delba_param = push_bit DELBA_TID_POS (of_int t) :: u16;
          del_ba_param_set = (if initiator \<noteq> 0 then delba_param OR IEEE80211_DELBA_PARAM_INITIATOR_MASK
                              else delba_param AND NOT IEEE80211_DELBA_PARAM_INITIATOR_MASK);
          delba = [0] @ peer_mac @ le16 delba_param @ le16 0 @ [0]
      in mwifiex_send_cmd d HostCmd_CMD_11N_DELBA HostCmd_ACT_GEN_SET delba w)"

definition mwifiex_11n_delba :: "'w driver \<Rightarrow> ba_priv \<Rightarrow> int \<Rightarrow> 'w \<Rightarrow> 'w" where
  "mwifiex_11n_delba d priv t w =
     (case find (\<lambda>e. tid e = t) (rx_tbls priv) of
        None \<Rightarrow> w
      | Some e \<Rightarrow> snd (mwifiex_send_delba d t (ta e) 0 w))"

section \<open>Lists of sessions\<close>

lemma first_index_None [simp]: "first_index P xs = None \<longleftrightarrow> (\<forall>x \<in> set xs. \<not> P x)"
  by (induction xs) auto

lemma first_index_Some: "first_index P xs = Some i \<longleftrightarrow> i < length xs \<and> P (xs ! i) \<and> (\<forall>j < i. \<not> P (xs ! j))"
proof (induction xs arbitrary: i)
  case (Cons x xs)
  show ?case
    by (cases i) (auto simp: Cons.IH nth_Cons split: nat.splits)
qed simp

lemma length_remove_at [simp]: "i < length xs \<Longrightarrow> length (remove_at i xs) = length xs - 1"
  by (simp add: remove_at_def)

lemma set_remove_at: "set (remove_at i xs) \<subseteq> set xs"
  by (auto simp: remove_at_def dest: in_set_takeD in_set_dropD)

lemma map_remove_at: "map f (remove_at i xs) = remove_at i (map f xs)"
  by (simp add: remove_at_def take_map drop_map)

lemma split_at: "i < length xs \<Longrightarrow> xs = take i xs @ xs ! i # drop (Suc i) xs"
  by (rule id_take_nth_drop)

lemma remove_at_distinct:
  assumes "distinct xs" and "i < length xs"
  shows "distinct (remove_at i xs)" and "set (remove_at i xs) = set xs - {xs ! i}"
proof -
  have xs: "xs = take i xs @ xs ! i # drop (Suc i) xs"
    using assms(2) by (rule split_at)
  have d: "distinct (take i xs @ xs ! i # drop (Suc i) xs)"
    using assms(1) by (subst (asm) xs)
  have s: "set xs = set (take i xs @ xs ! i # drop (Suc i) xs)"
    by (subst xs) (rule refl)
  from d show "distinct (remove_at i xs)"
    by (simp add: remove_at_def)
  from d show "set (remove_at i xs) = set xs - {xs ! i}"
    unfolding s by (auto simp: remove_at_def)
qed

text \<open>
  Both the receive and the transmit side keep a list of sessions that is searched by the
  station's address and the traffic identifier. The contract of such a list: the search
  finds the first entry with the key.
\<close>

locale session_list =
  fixes lookup :: "'e list \<Rightarrow> int \<Rightarrow> byte list \<Rightarrow> nat option"
    and key :: "'e \<Rightarrow> byte list \<times> int"
  assumes lookup_None: "lookup es t a = None \<longleftrightarrow> (a, t) \<notin> key ` set es"
    and lookup_key: "lookup es t a = Some i \<Longrightarrow> i < length es \<and> key (es ! i) = (a, t)"
begin

lemma keys_update: "i < length es \<Longrightarrow> key e = key (es ! i) \<Longrightarrow> map key (es[i := e]) = map key es"
  by (metis list_update_id map_update)

lemma keys_added:
  assumes "distinct (map key es)" and "lookup es (snd (key e)) (fst (key e)) = None"
  shows "distinct (map key (es @ [e]))"
  using assms by (simp add: lookup_None image_iff)

lemma keys_removed:
  assumes "distinct (map key es)" and "i < length es"
  shows "distinct (map key (remove_at i es))"
  using assms remove_at_distinct [of "map key es" i] by (simp add: map_remove_at)

lemma lookup_unique:
  assumes "distinct (map key es)" and "i < length es" and "key (es ! i) = (a, t)"
  shows "lookup es t a = Some i"
proof (cases "lookup es t a")
  case None
  with assms(2,3) show ?thesis
    by (metis image_eqI lookup_None nth_mem)
next
  case (Some j)
  then have j: "j < length es" "key (es ! j) = (a, t)"
    using lookup_key by blast+
  then have "map key es ! j = map key es ! i"
    using assms(2,3) by simp
  then have "j = i"
    using assms(1,2) j(1) by (metis length_map nth_eq_iff_index_eq)
  with Some show ?thesis by simp
qed

lemma lookup_added:
  assumes "distinct (map key es)" and "lookup es t a = None" and "key e = (a, t)"
  shows "lookup (es @ [e]) t a = Some (length es)"
  using lookup_unique [OF keys_added [OF assms(1)]] assms(2,3) by simp

lemma lookup_removed:
  assumes "distinct (map key es)" and "lookup es t a = Some i"
  shows "lookup (remove_at i es) t a = None"
proof -
  have i: "i < length es" "key (es ! i) = (a, t)"
    using lookup_key [OF assms(2)] by blast+
  have "set (remove_at i (map key es)) = set (map key es) - {(a, t)}"
    using remove_at_distinct(2) [of "map key es" i] assms(1) i by simp
  then show ?thesis
    by (simp add: lookup_None flip: map_remove_at)
qed

end

definition rx_key :: "rx_tbl \<Rightarrow> byte list \<times> int" where "rx_key e = (ta e, tid e)"

definition tx_key :: "tx_ba_stream_tbl \<Rightarrow> byte list \<times> int" where "tx_key e = (tx_ra e, tx_tid e)"

interpretation rx: session_list "\<lambda>es t a. first_index (\<lambda>e. ta e = a \<and> tid e = t) es" rx_key
  by unfold_locales (auto simp: first_index_Some rx_key_def)

interpretation tx: session_list "\<lambda>es t a. first_index (\<lambda>e. tx_ra e = a \<and> tx_tid e = t) es" tx_key
  by unfold_locales (auto simp: first_index_Some tx_key_def)

section \<open>Downgrading a traffic identifier\<close>

lemma downgrade_tid_less: "unat (mwifiex_wmm_downgrade_tid priv t) < MAX_NUM_TID"
proof -
  have "unat (t mod 2) < 2"
    using mod_less_divisor [of 2 "unat t"] by (simp add: unat_mod)
  then have "ac_to_tid a ! unat (t mod 2) \<in> set (ac_to_tid a)" for a
    by (intro nth_mem) (simp add: ac_to_tid_def split: mwifiex_wmm_ac_e.splits)
  moreover have "x \<in> set (ac_to_tid a) \<Longrightarrow> unat x < 8" for a x
    by (auto simp: ac_to_tid_def split: mwifiex_wmm_ac_e.splits)
  ultimately show ?thesis
    unfolding mwifiex_wmm_downgrade_tid_def Let_def MAX_NUM_TID_def by blast
qed

section \<open>A new interface\<close>

text \<open>A station that is connected and has no session, for examples.\<close>

definition fresh_priv :: ba_priv where
  "fresh_priv = \<lparr>rx_tbls = [], tx_tbls = [], ra_lists = replicate 8 [], sta_list = [],
     aggr_prio_tbl = replicate 8 \<lparr>ampdu_user = 0, ampdu_ap = 0, amsdu_prio = 0\<rparr>,
     add_ba_param = \<lparr>tx_win_size = 64, rx_win_size = 64, timeout = 0xffff, tx_amsdu = True, rx_amsdu = True\<rparr>,
     rx_seq = replicate 8 0xffff, ac_down_graded_vals = (\<lambda>a. a), mode = 2, bss_type = 0,
     connected = True, bss_started = False, cfg_bssid = [1, 2, 3, 4, 5, 6], hw_11ac = False,
     rx_locked = False, rx_processing = False, dialog_tok = 0, is_data_rate_auto = True,
     rates_bitmap = [0, 0, 0], ap_11n_enabled = False, adhoc_11n_enabled = False,
     wmm = \<lparr>packets_out = replicate 8 0, pkts_paused = replicate 8 0,
       ac_status = (\<lambda>a. \<lparr>ac_disabled = False, flow_required = False, flow_created = False\<rparr>),
       drv_pkt_delay_max = 510, queue_priority = [WMM_AC_VO, WMM_AC_VI, WMM_AC_BE, WMM_AC_BK],
       user_pri_pkt_tx_ctrl = replicate 8 0,
       tx_pkts_queued = 0, highest_queued_prio = 7\<rparr>,
     wmm_enabled = True, wmm_ie = replicate 26 0, tos_to_tid_inv = [2, 0, 1, 3, 4, 5, 6, 7],
     bypass_txq = [], tdls_txq = [], port_open = True, bss_num = 0, bss_priority = 0, pkt_tx_ctrl = 0,
     wps_session = False, bss_11n_enabled = True, curr_addr = [2, 2, 2, 2, 2, 2],
     bss_mac_address = [1, 2, 3, 4, 5, 6], hs2_enabled = False, rxpd_rate = 0,
     rxpd_htinfo = 0, mgmt_frame_mask = 0, iftype_unspecified = False,
     net_stats_of = \<lparr>rx_bytes = 0, rx_packets = 0, rx_dropped = 0, tx_dropped = 0\<rparr>, del_list_idx = 0\<rparr>"

end
