(* ===== verification/Rx_Reorder.thy ===== *)
theory Rx_Reorder
  imports Ba_State
begin

text \<open>
  The receive side of block-ack sessions in the mwifiex driver, \<open>doc/mwifiex/11n_rxreorder.c\<close>:
  the list of reorder tables, the packets and firmware events that create, move and delete
  them, and the window sizes of all interfaces.
\<close>

section \<open>Tables\<close>

definition set_tbl :: "ba_priv \<Rightarrow> nat \<Rightarrow> rx_tbl \<Rightarrow> ba_priv" where
  "set_tbl priv i t = priv\<lparr>rx_tbls := (rx_tbls priv)[i := t]\<rparr>"

definition mwifiex_del_rx_reorder_entry ::
  "'w driver \<Rightarrow> nat option \<Rightarrow> ba_priv \<Rightarrow> 'w \<Rightarrow> (ba_priv \<times> 'w) option" where
  "mwifiex_del_rx_reorder_entry d tbl priv w =
     (case tbl of
        None \<Rightarrow> Some (priv, w)
      | Some i \<Rightarrow>
          (let priv = priv\<lparr>rx_locked := True\<rparr>;
               w = (if rx_processing priv then flush_workqueue d w else w)
           in do {
             t \<leftarrow> idx (rx_tbls priv) i;
             let start = (start_win t + win_size t) AND (MAX_TID_VALUE - 1);
             (t, w) \<leftarrow> mwifiex_11n_dispatch_pkt_until_start_win (up d) t start w;
             let priv = priv\<lparr>rx_tbls := remove_at i (rx_tbls priv)\<rparr>;
             Some (priv\<lparr>rx_locked := False\<rparr>, w)
           }))"

text \<open>The walk over \<open>n\<close> tables from position \<open>i\<close> on that deletes some of them.\<close>

primrec del_matching ::
  "'w driver \<Rightarrow> (rx_tbl \<Rightarrow> bool) \<Rightarrow> nat \<Rightarrow> nat \<Rightarrow> ba_priv \<Rightarrow> 'w \<Rightarrow> (ba_priv \<times> 'w) option" where
  "del_matching d P 0 i priv w = Some (priv, w)"
| "del_matching d P (Suc n) i priv w = do {
     t \<leftarrow> idx (rx_tbls priv) i;
     if P t then do {
       (priv, w) \<leftarrow> mwifiex_del_rx_reorder_entry d (Some i) priv w;
       del_matching d P n i priv w
     } else del_matching d P n (i + 1) priv w
   }"

definition mwifiex_11n_del_rx_reorder_tbl_by_ta ::
  "'w driver \<Rightarrow> byte list option \<Rightarrow> ba_priv \<Rightarrow> 'w \<Rightarrow> (ba_priv \<times> 'w) option" where
  "mwifiex_11n_del_rx_reorder_tbl_by_ta d a priv w =
     (case a of
        None \<Rightarrow> Some (priv, w)
      | Some a \<Rightarrow> del_matching d (\<lambda>t. ta t = a) (length (rx_tbls priv)) 0 priv w)"

definition mwifiex_reset_11n_rx_seq_num :: "ba_priv \<Rightarrow> ba_priv" where
  "mwifiex_reset_11n_rx_seq_num priv = priv\<lparr>rx_seq := replicate (length (rx_seq priv)) 0xffff\<rparr>"

definition mwifiex_11n_cleanup_reorder_tbl ::
  "'w driver \<Rightarrow> ba_priv \<Rightarrow> 'w \<Rightarrow> (ba_priv \<times> 'w) option" where
  "mwifiex_11n_cleanup_reorder_tbl d priv w = do {
     (priv, w) \<leftarrow> del_matching d (\<lambda>_. True) (length (rx_tbls priv)) 0 priv w;
     let priv = priv\<lparr>rx_tbls := []\<rparr>;
     Some (mwifiex_reset_11n_rx_seq_num priv, w)
   }"

text \<open>The last sequence number seen for a traffic identifier before the session.\<close>

definition last_rx_seq :: "'w driver \<Rightarrow> ba_priv \<Rightarrow> byte list \<Rightarrow> int \<Rightarrow> u16 option" where
  "last_rx_seq d priv a t =
     (if mwifiex_queuing_ra_based d priv then
        (if bss_role (up d) = MWIFIEX_BSS_ROLE_UAP then
           (case mwifiex_get_sta_entry priv a of
              Some node \<Rightarrow> idx (sta_rx_seq node) (nat t)
            | None \<Rightarrow> Some 0)
         else Some 0)
      else
        (case mwifiex_get_sta_entry priv a of
           Some node \<Rightarrow> idx (sta_rx_seq node) (nat t)
         | None \<Rightarrow> idx (rx_seq priv) (nat t)))"

definition mwifiex_11n_create_rx_reorder_tbl ::
  "'w driver \<Rightarrow> byte list \<Rightarrow> int \<Rightarrow> int \<Rightarrow> int \<Rightarrow> ba_priv \<Rightarrow> 'w \<Rightarrow> (ba_priv \<times> 'w) option" where
  "mwifiex_11n_create_rx_reorder_tbl d a t win seq_num priv w =
     (case mwifiex_11n_get_rx_reorder_tbl priv t a of
        Some i \<Rightarrow> do {
          tbl \<leftarrow> idx (rx_tbls priv) i;
          (tbl, w) \<leftarrow> mwifiex_11n_dispatch_pkt_until_start_win (up d) tbl seq_num w;
          Some (set_tbl priv i tbl, w)
        }
      | None \<Rightarrow>
          (let (ok, w) = kzalloc d w
           in if \<not> ok then Some (priv, w)
              else do {
                last_seq \<leftarrow> last_rx_seq d priv a t;
                let shift = (last_seq \<noteq> MWIFIEX_DEF_11N_RX_SEQ_NUM \<and> uint last_seq \<ge> seq_num);
                let (ok, w) = kzalloc d w;
                if \<not> ok then Some (priv, w)
                else
                  (let new_node = \<lparr>tid = t, ta = a, init_win = seq_num,
                         start_win = (if shift then uint last_seq + 1 else seq_num),
                         win_size = win, rx_reorder_ptr = replicate (nat win) None,
                         timer_is_set = False, timer_ms = 0, amsdu = False,
                         tbl_flags = (if shift then RXREOR_INIT_WINDOW_SHIFT else 0)\<rparr>
                   in Some (priv\<lparr>rx_tbls := rx_tbls priv @ [new_node]\<rparr>, w))
              }))"

definition mwifiex_11n_rx_reorder_pkt ::
  "'w driver \<Rightarrow> u16 \<Rightarrow> u16 \<Rightarrow> byte list \<Rightarrow> u8 \<Rightarrow> byte list option \<Rightarrow> ba_priv \<Rightarrow> 'w \<Rightarrow>
     (int \<times> ba_priv \<times> 'w) option" where
  "mwifiex_11n_rx_reorder_pkt d seq_num t a pkt_type payload priv w =
     (case mwifiex_11n_get_rx_reorder_tbl priv (uint t) a of
        None \<Rightarrow>
          Some (0, priv, if pkt_type \<noteq> PKT_TYPE_BAR then snd (mwifiex_11n_dispatch_pkt (up d) payload w)
                         else w)
      | Some i \<Rightarrow> do {
          tbl \<leftarrow> idx (rx_tbls priv) i;
          (ret, tbl, w) \<leftarrow> reorder_in_tbl (up d) seq_num pkt_type payload tbl w;
          Some (ret, set_tbl priv i tbl, w)
        })"

text \<open>The flush timer of a table fires.\<close>

definition flush_timer_fires :: "'w driver \<Rightarrow> nat \<Rightarrow> ba_priv \<Rightarrow> 'w \<Rightarrow> (ba_priv \<times> 'w) option" where
  "flush_timer_fires d i priv w = do {
     t \<leftarrow> idx (rx_tbls priv) i;
     (t, w) \<leftarrow> mwifiex_flush_data (up d) t w;
     Some (set_tbl priv i t, w)
   }"

section \<open>Commands and their responses\<close>

definition mwifiex_cmd_11n_addba_req :: "host_cmd \<Rightarrow> byte list \<Rightarrow> host_cmd option" where
  "mwifiex_cmd_11n_addba_req cmd data_buf = do {
     req \<leftarrow> load data_buf 0 (sizeof addba_req_fields);
     ps \<leftarrow> store (params cmd) 0 req;
     Some (cmd\<lparr>command := HostCmd_CMD_11N_ADDBA_REQ,
       cmd_size := of_nat (sizeof addba_req_fields) + S_DS_GEN, params := ps\<rparr>)
   }"

definition mwifiex_cmd_11n_delba :: "host_cmd \<Rightarrow> byte list \<Rightarrow> host_cmd option" where
  "mwifiex_cmd_11n_delba cmd data_buf = do {
     del_ba \<leftarrow> load data_buf 0 (sizeof delba_fields);
     ps \<leftarrow> store (params cmd) 0 del_ba;
     Some (cmd\<lparr>command := HostCmd_CMD_11N_DELBA,
       cmd_size := of_nat (sizeof delba_fields) + S_DS_GEN, params := ps\<rparr>)
   }"

text \<open>The window of a response; a peer on a direct link must be known.\<close>

definition addba_rx_win :: "'w driver \<Rightarrow> ba_priv \<Rightarrow> byte list \<Rightarrow> u32 option" where
  "addba_rx_win d priv peer =
     (if GET_BSS_ROLE d = MWIFIEX_BSS_ROLE_STA \<and> tdls_enabled (up d) \<and>
         hw_11ac priv \<and> cfg_bssid priv \<noteq> peer
      then (case mwifiex_get_sta_entry priv peer of
          None \<Rightarrow> None
        | Some n \<Rightarrow> Some (if sta_11ac_enabled n \<noteq> 0 then MWIFIEX_11AC_STA_AMPDU_DEF_RXWINSIZE
                         else rx_win_size (add_ba_param priv)))
      else Some (rx_win_size (add_ba_param priv)))"

text \<open>The parameter set of the response has the window in its upper ten bits.\<close>

definition rsp_param :: "bool \<Rightarrow> u32 \<Rightarrow> u16 \<Rightarrow> u16" where
  "rsp_param no_amsdu win p =
     (let p = p AND NOT IEEE80211_ADDBA_PARAM_BUF_SIZE_MASK;
          p = (if no_amsdu then p AND NOT BLOCKACKPARAM_AMSDU_SUPP_MASK else p)
      in p OR ucast (push_bit BLOCKACKPARAM_WINSIZE_POS win))"

text \<open>
  The answer to a request for a session: the result, the command with the response, and the
  request, whose parameters are overwritten.
\<close>

definition mwifiex_cmd_11n_addba_rsp_gen ::
  "'w driver \<Rightarrow> host_cmd \<Rightarrow> byte list \<Rightarrow> ba_priv \<Rightarrow> 'w \<Rightarrow>
     (int \<times> host_cmd \<times> byte list \<times> ba_priv \<times> 'w) option" where
  "mwifiex_cmd_11n_addba_rsp_gen d cmd req priv w = do {
     peer \<leftarrow> load req 1 6;
     case addba_rx_win d priv peer of
       None \<Rightarrow> Some (-1, cmd, req, priv, w)
     | Some rx_win \<Rightarrow> do {
         let cmd = cmd\<lparr>command := HostCmd_CMD_11N_ADDBA_RSP,
                    cmd_size := of_nat (sizeof addba_rsp_fields) + S_DS_GEN\<rparr>;
         rsp \<leftarrow> store (params cmd) 1 peer;
         token \<leftarrow> load req 7 1;
         rsp \<leftarrow> store rsp 7 token;
         tmo \<leftarrow> get16 req 10;
         rsp \<leftarrow> put16 rsp 12 tmo;
         ssn \<leftarrow> get16 req 12;
         rsp \<leftarrow> put16 rsp 14 ssn;
         param \<leftarrow> get16 req 8;
         let t = param_tid param;
         rsp \<leftarrow> put16 rsp 8 ADDBA_RSP_STATUS_ACCEPT;
         no_amsdu \<leftarrow> (if \<not> rx_amsdu (add_ba_param priv) then Some True
                       else map_option (\<lambda>p. amsdu_prio p = BA_STREAM_NOT_ALLOWED)
                         (idx (aggr_prio_tbl priv) (unat t)));
         let param = rsp_param no_amsdu rx_win param;
         rsp \<leftarrow> put16 rsp 10 param;
         let win = param_win param;
         req \<leftarrow> put16 req 8 param;
         (priv, w) \<leftarrow> mwifiex_11n_create_rx_reorder_tbl d peer (uint t) (uint win) (uint ssn) priv w;
         Some (0, cmd\<lparr>params := rsp\<rparr>, req, priv, w)
       }
   }"

text \<open>The end of a session, for the side of the link the bit and the kind of event tell.\<close>

definition mwifiex_del_ba_tbl ::
  "'w driver \<Rightarrow> int \<Rightarrow> byte list \<Rightarrow> u8 \<Rightarrow> int \<Rightarrow> ba_priv \<Rightarrow> 'w \<Rightarrow> (ba_priv \<times> 'w) option" where
  "mwifiex_del_ba_tbl d t peer_mac type initiator priv w =
     (let cleanup_rx_reorder_tbl = (if type = TYPE_DELBA_RECEIVE then initiator \<noteq> 0 else initiator = 0)
      in if cleanup_rx_reorder_tbl then
           (case mwifiex_11n_get_rx_reorder_tbl priv t peer_mac of
              None \<Rightarrow> Some (priv, w)
            | Some i \<Rightarrow> mwifiex_del_rx_reorder_entry d (Some i) priv w)
         else
           (case mwifiex_get_ba_tbl priv t peer_mac of
              None \<Rightarrow> Some (priv, w)
            | Some i \<Rightarrow> do {
                let tid_down = mwifiex_wmm_downgrade_tid priv (of_int t);
                ra_list \<leftarrow> mwifiex_wmm_get_ralist_node priv tid_down peer_mac;
                let priv = set_ra_session priv tid_down ra_list BA_SETUP_NONE False;
                priv \<leftarrow> mwifiex_11n_delete_tx_ba_stream_tbl_entry priv (Some i);
                Some (priv, w)
              }))"

definition mwifiex_ret_11n_addba_resp ::
  "'w driver \<Rightarrow> host_cmd \<Rightarrow> ba_priv \<Rightarrow> 'w \<Rightarrow> (ba_priv \<times> 'w) option" where
  "mwifiex_ret_11n_addba_resp d resp priv w = do {
     peer \<leftarrow> load (params resp) 1 6;
     status_code \<leftarrow> get16 (params resp) 8;
     param \<leftarrow> get16 (params resp) 10;
     let t = param_tid param;
     let tbl = mwifiex_11n_get_rx_reorder_tbl priv (uint t) peer;
     if status_code \<noteq> BA_RESULT_SUCCESS then mwifiex_del_rx_reorder_entry d tbl priv w
     else (case tbl of
         None \<Rightarrow> Some (priv, w)
       | Some i \<Rightarrow> do {
           tbl \<leftarrow> idx (rx_tbls priv) i;
           am \<leftarrow> (if param AND BLOCKACKPARAM_AMSDU_SUPP_MASK \<noteq> 0 \<and> rx_amsdu (add_ba_param priv)
                  then map_option (\<lambda>p. amsdu_prio p \<noteq> BA_STREAM_NOT_ALLOWED)
                    (idx (aggr_prio_tbl priv) (unat t))
                  else Some False);
           Some (set_tbl priv i (tbl\<lparr>amsdu := am\<rparr>), w)
         })
   }"

text \<open>The event that a session has timed out asks the firmware to end it.\<close>

definition mwifiex_11n_ba_stream_timeout ::
  "'w driver \<Rightarrow> byte list \<Rightarrow> 'w \<Rightarrow> 'w option" where
  "mwifiex_11n_ba_stream_timeout d event w = do {
     peer \<leftarrow> load event 1 6;
     t \<leftarrow> idx event 0;
     orig \<leftarrow> idx event 7;
     let del_ba_param_set = 0 OR push_bit DELBA_TID_POS (ucast t);
     let del_ba_param_set = del_ba_param_set OR push_bit DELBA_INITIATOR_POS (ucast orig);
     let delba = [0] @ peer @ le16 del_ba_param_set @ le16 WLAN_REASON_QSTA_TIMEOUT @ [0];
     Some (snd (mwifiex_send_cmd d HostCmd_CMD_11N_DELBA 0 delba w))
   }"

section \<open>Sound lists of tables\<close>

text \<open>Every table is sound, and no two belong to the same station and traffic identifier.\<close>

definition rx_sound :: "ba_priv \<Rightarrow> bool" where
  "rx_sound priv \<longleftrightarrow> (\<forall>t \<in> set (rx_tbls priv). tbl_ok t) \<and> distinct (map rx_key (rx_tbls priv))"

text \<open>The packets that wait in the tables of an interface.\<close>

definition tbl_packets :: "rx_tbl \<Rightarrow> byte list multiset" where
  "tbl_packets t = mset (packets (rx_reorder_ptr t))"

definition waiting :: "ba_priv \<Rightarrow> byte list multiset" where
  "waiting priv = sum_list (map tbl_packets (rx_tbls priv))"

lemma sum_list_remove:
  fixes f :: "'a \<Rightarrow> 'b::comm_monoid_add"
  assumes "i < length xs"
  shows "sum_list (map f (remove_at i xs)) + f (xs ! i) = sum_list (map f xs)"
proof -
  have "sum_list (map f xs) = sum_list (map f (take i xs @ xs ! i # drop (Suc i) xs))"
    using split_at [OF assms] by simp
  then show ?thesis
    by (simp add: remove_at_def ac_simps)
qed

lemma sum_list_update:
  fixes f :: "'a \<Rightarrow> 'b::comm_monoid_add"
  assumes "i < length xs"
  shows "sum_list (map f (xs[i := x])) + f (xs ! i) = sum_list (map f xs) + f x"
proof -
  define r where "r = sum_list (map f (remove_at i xs))"
  have "sum_list (map f (xs[i := x])) = r + f x" "sum_list (map f xs) = r + f (xs ! i)"
    using sum_list_remove [of i "xs[i := x]" f] sum_list_remove [of i xs f] assms
    by (simp_all add: remove_at_def r_def)
  then show ?thesis
    by (simp add: ac_simps)
qed

lemma exchange:
  fixes a :: "'a multiset"
  assumes "a + b = c + e" and "o' + e = b + f"
  shows "o' + a = c + f"
proof -
  have "(o' + a) + (b + e) = (o' + e) + (a + b)"
    by (simp add: ac_simps)
  also have "\<dots> = (c + f) + (b + e)"
    unfolding assms by (simp add: ac_simps)
  finally show ?thesis
    by simp
qed

lemma waiting_set_tbl:
  "i < length (rx_tbls priv) \<Longrightarrow>
     waiting (set_tbl priv i t) + tbl_packets (rx_tbls priv ! i) = waiting priv + tbl_packets t"
  by (simp add: waiting_def set_tbl_def sum_list_update)

lemma rx_sound_set_tbl:
  assumes "rx_sound priv" and "i < length (rx_tbls priv)" and "tbl_ok t"
    and "rx_key t = rx_key (rx_tbls priv ! i)"
  shows "rx_sound (set_tbl priv i t)"
  using assms set_update_subset_insert [of "rx_tbls priv" i t]
  by (auto simp: rx_sound_def set_tbl_def rx.keys_update)

lemma rx_lookup:
  "mwifiex_11n_get_rx_reorder_tbl priv t a = Some i \<Longrightarrow>
     i < length (rx_tbls priv) \<and> rx_key (rx_tbls priv ! i) = (a, t)"
  unfolding mwifiex_11n_get_rx_reorder_tbl_def by (rule rx.lookup_key)

lemma rx_soundD: "rx_sound priv \<Longrightarrow> i < length (rx_tbls priv) \<Longrightarrow> tbl_ok (rx_tbls priv ! i)"
  by (simp add: rx_sound_def)

text \<open>The operations on a table keep its key.\<close>

lemma until_key:
  "mwifiex_11n_dispatch_pkt_until_start_win u t start w = Some (t', w') \<Longrightarrow> rx_key t' = rx_key t"
  by (auto simp: mwifiex_11n_dispatch_pkt_until_start_win_def Let_def rx_key_def
      Option.bind_eq_Some_conv)

lemma scan_key: "mwifiex_11n_scan_and_dispatch u t w = Some (t', w') \<Longrightarrow> rx_key t' = rx_key t"
  by (auto simp: mwifiex_11n_scan_and_dispatch_def rx_key_def Option.bind_eq_Some_conv)

lemma advance_key: "advance_win u q t w = Some (t', w') \<Longrightarrow> rx_key t' = rx_key t"
  by (auto simp: advance_win_def Let_def until_key split: if_splits)

lemma admit_key: "admit_seq q t = (b, t') \<Longrightarrow> rx_key t' = rx_key t"
  by (auto simp: admit_seq_def Let_def rx_key_def split: if_splits)

lemma store_key: "store_pkt q p t = Some (r, t') \<Longrightarrow> rx_key t' = rx_key t"
  by (auto simp: store_pkt_def Let_def rx_key_def Option.bind_eq_Some_conv split: if_splits)

lemma restart_key: "rx_key (mwifiex_11n_rxreorder_timer_restart t) = rx_key t"
  by (simp add: mwifiex_11n_rxreorder_timer_restart_def Let_def rx_key_def)

lemmas tbl_keys = until_key scan_key advance_key admit_key store_key restart_key

lemma reorder_key:
  assumes "reorder_in_tbl u seq ty p t w = Some (ret, t', w')"
  shows "rx_key t' = rx_key t"
proof (cases "ty = PKT_TYPE_AMSDU \<and> \<not> amsdu t")
  case True
  with assms show ?thesis by (simp add: reorder_in_tbl_def)
next
  case False
  obtain b t1 where adm: "admit_seq (uint seq) t = (b, t1)" by fastforce
  show ?thesis
    using assms False admit_key [OF adm]
    by (auto simp: reorder_in_tbl_def adm Let_def Option.bind_eq_Some_conv restart_key
        dest!: advance_key store_key scan_key split: if_splits)
qed

text \<open>
  What an operation may do to the rest of the system: hand packets up, in an order that
  \<open>out\<close> records, and call the other services.
\<close>

inductive runs_to :: "'w driver \<Rightarrow> byte list list \<Rightarrow> 'w \<Rightarrow> 'w \<Rightarrow> bool" for d where
  begins: "runs_to d [] w w"
| hands_up: "runs_to d out w w' \<Longrightarrow> runs_to d (out @ [p]) w (deliver (up d) p w')"
| allocates: "runs_to d out w w' \<Longrightarrow> runs_to d out w (snd (kzalloc d w'))"
| flushes: "runs_to d out w w' \<Longrightarrow> runs_to d out w (flush_workqueue d w')"
| sends: "runs_to d out w w' \<Longrightarrow> runs_to d out w (snd (mwifiex_send_cmd d c a b w'))"

lemma runs_to_refl [simp]: "runs_to d [] w w"
  by (rule begins)

lemma runs_to_trans:
  assumes "runs_to d out' w' w''" and "runs_to d out w w'"
  shows "runs_to d (out @ out') w w''"
  using assms
proof (induction rule: runs_to.induct)
  case (hands_up out' w1 w2 p)
  then show ?case
    using runs_to.hands_up [of d "out @ out'" w w2 p] by simp
qed (auto intro: runs_to.intros)

lemma runs_to_fold: "runs_to d out w (fold (deliver (up d)) out w)"
proof (induction out rule: rev_induct)
  case (snoc p out)
  then show ?case
    using hands_up [of d out w "fold (deliver (up d)) out w" p] by simp
qed (simp add: begins)

text \<open>
  What every operation of the receive side does: the tables stay sound, and the packets handed
  up and waiting afterwards are those that waited before and those the operation took.
\<close>

definition rx_step ::
  "'w driver \<Rightarrow> byte list list \<Rightarrow> ba_priv \<times> 'w \<Rightarrow> ba_priv \<times> 'w \<Rightarrow> bool" where
  "rx_step d acc s s' \<longleftrightarrow> rx_sound (fst s') \<and>
     (\<exists>out. runs_to d out (snd s) (snd s') \<and> mset out + waiting (fst s') = waiting (fst s) + mset acc) \<and>
     fst s'\<lparr>rx_tbls := rx_tbls (fst s)\<rparr> = fst s"

text \<open>One table is replaced by what an operation on it made of it.\<close>

lemma rx_step_tbl:
  assumes "rx_sound priv" and "i < length (rx_tbls priv)" and "tbl_ok t"
    and "rx_key t = rx_key (rx_tbls priv ! i)"
    and "mset out + tbl_packets t = tbl_packets (rx_tbls priv ! i) + mset acc"
  shows "rx_step d acc (priv, w) (set_tbl priv i t, fold (deliver (up d)) out w)"
proof -
  have "mset out + waiting (set_tbl priv i t) = waiting priv + mset acc"
    using waiting_set_tbl [OF assms(2)] assms(5) by (rule exchange)
  then show ?thesis
    using assms rx_sound_set_tbl [OF assms(1,2,3,4)]
    using runs_to_fold [of d out w] by (auto simp: rx_step_def) (simp add: set_tbl_def)
qed

lemma rx_packet_step:
  assumes "rx_sound priv" and "uint seq < 4096"
    and "ty = PKT_TYPE_BAR \<Longrightarrow> p = None"
  shows "\<exists>ret acc priv' w'. mwifiex_11n_rx_reorder_pkt d seq t a ty p priv w = Some (ret, priv', w') \<and>
    rx_step d acc (priv, w) (priv', w') \<and>
    (ret = 0 \<longrightarrow> acc = (if ty = PKT_TYPE_BAR then [] else packets [p])) \<and> (ret \<noteq> 0 \<longrightarrow> acc = [])"
proof (cases "mwifiex_11n_get_rx_reorder_tbl priv (uint t) a")
  case None
  let ?acc = "if ty = PKT_TYPE_BAR then [] else packets [p]"
  have "mwifiex_11n_rx_reorder_pkt d seq t a ty p priv w =
      Some (0, priv, fold (deliver (up d)) ?acc w)"
    using None by (cases p)
      (simp_all add: mwifiex_11n_rx_reorder_pkt_def deliver_def mwifiex_11n_dispatch_pkt_def)
  moreover have "rx_step d ?acc (priv, w) (priv, fold (deliver (up d)) ?acc w)"
    using assms(1) runs_to_fold [of d ?acc w]
    by (simp only: rx_step_def fst_conv snd_conv) (auto simp: ac_simps intro!: exI [of _ ?acc])
  ultimately show ?thesis
    by (intro exI [of _ 0] exI [of _ ?acc] exI [of _ priv] exI conjI) simp_all
next
  case (Some i)
  note i = rx_lookup [OF Some]
  obtain ret t' out where r: "reorder_in_tbl (up d) seq ty p (rx_tbls priv ! i) w =
      Some (ret, t', fold (deliver (up d)) out w)" "tbl_ok t'" "ret = 0 \<or> ret = -1"
    "mset out + mset (packets (rx_reorder_ptr t')) =
      mset (packets (rx_reorder_ptr (rx_tbls priv ! i))) + mset (taken ret ty p)"
    using reorder_step [OF rx_soundD [OF assms(1)], of i seq ty p "up d" w] i assms(2,3) by blast
  have "mwifiex_11n_rx_reorder_pkt d seq t a ty p priv w =
      Some (ret, set_tbl priv i t', fold (deliver (up d)) out w)"
    using i r(1) by (simp add: mwifiex_11n_rx_reorder_pkt_def Some idx_def)
  moreover have "rx_step d (taken ret ty p) (priv, w) (set_tbl priv i t', fold (deliver (up d)) out w)"
    using i r reorder_key [OF r(1)] assms(1) by (intro rx_step_tbl) (simp_all add: tbl_packets_def)
  ultimately show ?thesis
    by (intro exI [of _ ret] exI [of _ "taken ret ty p"] exI conjI) (auto simp: taken_def)
qed

lemma flush_timer_step:
  assumes "rx_sound priv" and "i < length (rx_tbls priv)"
  shows "\<exists>priv' w'. flush_timer_fires d i priv w = Some (priv', w') \<and> rx_step d [] (priv, w) (priv', w')"
proof -
  let ?t = "rx_tbls priv ! i"
  obtain start ptrs where f: "mwifiex_flush_data (up d) ?t w =
      Some (?t\<lparr>timer_is_set := False, rx_reorder_ptr := ptrs, start_win := start\<rparr>,
        fold (deliver (up d)) (packets (rx_reorder_ptr ?t)) w)"
    "packets ptrs = []" "length ptrs = length (rx_reorder_ptr ?t)" "0 \<le> start" "start \<le> 4096"
    using flush_eq [OF rx_soundD [OF assms(1,2)], of "up d" w] by (elim exE conjE)
  let ?t' = "?t\<lparr>timer_is_set := False, rx_reorder_ptr := ptrs, start_win := start\<rparr>"
  have "rx_step d [] (priv, w)
      (set_tbl priv i ?t', fold (deliver (up d)) (packets (rx_reorder_ptr ?t)) w)"
    using f(2-5) rx_soundD [OF assms(1,2)] assms
    by (intro rx_step_tbl) (simp_all add: tbl_packets_def rx_key_def tbl_ok_def)
  then show ?thesis
    using assms(2) f(1) by (simp add: flush_timer_fires_def idx_def)
qed

text \<open>Deleting a table hands up every packet that waits in it.\<close>

lemma del_entry_step:
  assumes "rx_sound priv" and "i < length (rx_tbls priv)" and "\<not> rx_locked priv"
  shows "\<exists>w'. mwifiex_del_rx_reorder_entry d (Some i) priv w =
      Some (priv\<lparr>rx_tbls := remove_at i (rx_tbls priv)\<rparr>, w') \<and>
    rx_step d [] (priv, w) (priv\<lparr>rx_tbls := remove_at i (rx_tbls priv)\<rparr>, w')"
proof -
  let ?t = "rx_tbls priv ! i" and ?n = "length (rx_reorder_ptr (rx_tbls priv ! i))"
  define w1 where "w1 = (if rx_processing priv then flush_workqueue d w else w)"
  define start where "start = (start_win ?t + win_size ?t) AND (MAX_TID_VALUE - 1)"
  have ok: "tbl_ok ?t"
    using rx_soundD [OF assms(1,2)] .
  have "start = (if start_win ?t + win_size ?t < 4096 then start_win ?t + win_size ?t
      else start_win ?t + win_size ?t - 4096)"
    unfolding start_def and_4095 using ok by (intro mod_once) (simp_all add: tbl_ok_def)
  then have all: "?n = (if start > start_win ?t then min (nat (start - start_win ?t)) ?n else ?n)"
    using ok by (auto simp: tbl_ok_def)
  have until: "mwifiex_11n_dispatch_pkt_until_start_win (up d) ?t start w1 =
      Some (?t\<lparr>rx_reorder_ptr := slide ?n (rx_reorder_ptr ?t), start_win := start\<rparr>,
        fold (deliver (up d)) (packets (rx_reorder_ptr ?t)) w1)"
    using until_eq [OF ok all, of "up d" w1] by simp
  let ?p = "priv\<lparr>rx_tbls := remove_at i (rx_tbls priv)\<rparr>"
  let ?w = "fold (deliver (up d)) (packets (rx_reorder_ptr ?t)) w1"
  have "mwifiex_del_rx_reorder_entry d (Some i) priv w =
      Some (priv\<lparr>rx_locked := False, rx_tbls := remove_at i (rx_tbls priv)\<rparr>, ?w)"
    using assms(2) until by (simp add: mwifiex_del_rx_reorder_entry_def idx_def Let_def w1_def start_def)
  moreover have "priv\<lparr>rx_locked := False, rx_tbls := remove_at i (rx_tbls priv)\<rparr> = ?p"
    using assms(3) by simp
  moreover have "rx_step d [] (priv, w) (?p, ?w)"
  proof -
    have "waiting ?p + tbl_packets ?t = waiting priv"
      using sum_list_remove [OF assms(2)] by (simp add: waiting_def)
    moreover have "rx_sound ?p"
      using assms(1,2) set_remove_at [of i "rx_tbls priv"] rx.keys_removed [of "rx_tbls priv" i]
      by (auto simp: rx_sound_def)
    moreover have "runs_to d [] w w1"
      using flushes [OF begins, of d w] begins [of d w] by (simp add: w1_def)
    then have "runs_to d (packets (rx_reorder_ptr ?t)) w ?w"
      using runs_to_trans [OF runs_to_fold] by fastforce
    ultimately show ?thesis
      by (auto simp: rx_step_def tbl_packets_def ac_simps intro!: exI [of _ "packets (rx_reorder_ptr ?t)"])
  qed
  ultimately show ?thesis
    by auto
qed

end
