(* ===== verification/Rx_Events.thy ===== *)
theory Rx_Events
  imports Rx_Reorder
begin

text \<open>
  The rest of \<open>doc/mwifiex/11n_rxreorder.c\<close>: what is done for all interfaces of an adapter, and
  the firmware's event that packets of a session were dropped. Loops whose counter is a byte
  are modelled with fuel.
\<close>

section \<open>All interfaces\<close>

definition MWIFIEX_BSS_COEX_COUNT :: u8 where "MWIFIEX_BSS_COEX_COUNT = 2"

text \<open>An interface that is not set up is the null pointer; \<open>priv_num\<close> is the length of the list.\<close>

record adapter =
  privs :: "ba_priv option list"
  coex_win_size :: u8
  coex_tx_win_size :: u8
  coex_rx_win_size :: u8
  fw_api_ver :: u8
  hw_dot_11n_dev_cap :: u32

definition mwifiex_update_rxreor_flags :: "adapter \<Rightarrow> u8 \<Rightarrow> adapter" where
  "mwifiex_update_rxreor_flags a flags =
     a\<lparr>privs := map (map_option (\<lambda>priv.
        priv\<lparr>rx_tbls := map (\<lambda>t. t\<lparr>tbl_flags := flags\<rparr>) (rx_tbls priv)\<rparr>)) (privs a)\<rparr>"

definition choose_rx_win :: "bool \<Rightarrow> adapter \<Rightarrow> ba_priv \<Rightarrow> u32" where
  "choose_rx_win coex_flag a priv =
     (if coex_win_size a \<noteq> 0 \<and> coex_rx_win_size a \<noteq> 0 then ucast (coex_rx_win_size a)
      else if bss_type priv = MWIFIEX_BSS_TYPE_STA \<or> bss_type priv = MWIFIEX_BSS_TYPE_P2P then
        (if coex_flag then MWIFIEX_STA_COEX_AMPDU_DEF_RXWINSIZE else MWIFIEX_STA_AMPDU_DEF_RXWINSIZE)
      else if bss_type priv = MWIFIEX_BSS_TYPE_UAP then
        (if coex_flag then MWIFIEX_UAP_COEX_AMPDU_DEF_RXWINSIZE else MWIFIEX_UAP_AMPDU_DEF_RXWINSIZE)
      else rx_win_size (add_ba_param priv))"

definition set_rx_win :: "bool \<Rightarrow> adapter \<Rightarrow> ba_priv \<Rightarrow> ba_priv" where
  "set_rx_win coex_flag a priv =
     priv\<lparr>add_ba_param := (add_ba_param priv)\<lparr>rx_win_size := choose_rx_win coex_flag a priv\<rparr>\<rparr>"

text \<open>
  The loop over the interfaces, for either window size: \<open>upd\<close> chooses the new size, \<open>win\<close> reads
  it, \<open>notify i priv t\<close> ends a session of interface \<open>i\<close>. The inner loop over the traffic
  identifiers uses the same counter and leaves it at 8.
\<close>

primrec winsize_loop ::
  "nat \<Rightarrow> (ba_priv \<Rightarrow> ba_priv) \<Rightarrow> (ba_priv \<Rightarrow> u32) \<Rightarrow> (nat \<Rightarrow> ba_priv \<Rightarrow> nat \<Rightarrow> 'w \<Rightarrow> 'w) \<Rightarrow>
     u8 \<Rightarrow> adapter \<Rightarrow> 'w \<Rightarrow> (adapter \<times> 'w) option" where
  "winsize_loop 0 upd win notify i a w = None"
| "winsize_loop (Suc fuel) upd win notify i a w =
     (if unat i < length (privs a) then
        (case privs a ! unat i of
           None \<Rightarrow> winsize_loop fuel upd win notify (i + 1) a w
         | Some priv \<Rightarrow>
             (let priv' = upd priv;
                  a = a\<lparr>privs := (privs a)[unat i := Some priv']\<rparr>
              in if win priv \<noteq> win priv' then
                   (if \<not> connected priv' then winsize_loop fuel upd win notify (i + 1) a w
                    else
                      (let w = fold (notify (unat i) priv') [0..<MAX_NUM_TID] w
                       in winsize_loop fuel upd win notify (of_nat MAX_NUM_TID + 1) a w))
                 else winsize_loop fuel upd win notify (i + 1) a w))
      else Some (a, w))"

definition mwifiex_update_ampdu_rxwinsize ::
  "(nat \<Rightarrow> 'w driver) \<Rightarrow> adapter \<Rightarrow> bool \<Rightarrow> 'w \<Rightarrow> (adapter \<times> 'w) option" where
  "mwifiex_update_ampdu_rxwinsize ds a coex_flag w =
     winsize_loop (Suc (length (privs a))) (set_rx_win coex_flag a) (\<lambda>p. rx_win_size (add_ba_param p))
       (\<lambda>i p t. mwifiex_11n_delba (ds i) p (int t)) 0 a w"

text \<open>The number of active interfaces decides; the loop stops counting at two.\<close>

fun count_active :: "(nat \<Rightarrow> 'w driver) \<Rightarrow> nat \<Rightarrow> ba_priv option list \<Rightarrow> u8 \<Rightarrow> u8" where
  "count_active ds i [] cnt = cnt"
| "count_active ds i (p # ps) cnt =
     (let cnt = (case p of
            None \<Rightarrow> cnt
          | Some priv \<Rightarrow>
              (let cnt = (if GET_BSS_ROLE (ds i) = MWIFIEX_BSS_ROLE_STA \<and> connected priv
                            then cnt + 1 else cnt)
               in if GET_BSS_ROLE (ds i) = MWIFIEX_BSS_ROLE_UAP \<and> bss_started priv
                  then cnt + 1 else cnt))
      in if cnt \<ge> MWIFIEX_BSS_COEX_COUNT then cnt else count_active ds (i + 1) ps cnt)"

definition mwifiex_coex_ampdu_rxwinsize ::
  "(nat \<Rightarrow> 'w driver) \<Rightarrow> adapter \<Rightarrow> 'w \<Rightarrow> (adapter \<times> 'w) option" where
  "mwifiex_coex_ampdu_rxwinsize ds a w =
     (if count_active ds 0 (privs a) 0 \<ge> MWIFIEX_BSS_COEX_COUNT
      then mwifiex_update_ampdu_rxwinsize ds a True w
      else mwifiex_update_ampdu_rxwinsize ds a False w)"

section \<open>Dropped packets\<close>

definition TLV_TYPE_RXBA_SYNC :: u16 where "TLV_TYPE_RXBA_SYNC = 0x100 + 153"

definition rxba_sync_fields :: "cfield list" where
  "rxba_sync_fields = [(''header'', CStruct [(''type'', CI16), (''len'', CI16)]),
     (''mac'', CArr 6 CI8), (''tid'', CI8), (''reserved'', CI8), (''seq_num'', CI16),
     (''bitmap_len'', CI16), (''bitmap'', CArr 1 CI8)]"

lemma rxba_sync_layout:
  "field_offsets 0 rxba_sync_fields = [(''header'', 0), (''mac'', 4), (''tid'', 10), (''reserved'', 11),
     (''seq_num'', 12), (''bitmap_len'', 14), (''bitmap'', 16)]"
  "sizeof rxba_sync_fields = 17"
  by (simp_all add: rxba_sync_fields_def)

text \<open>The event handler returns, accesses memory outside a buffer, or is still running.\<close>

datatype 'a outcome = Returned 'a | Fault | Running

text \<open>The bits of byte \<open>i\<close> of the bitmap: each set bit is a packet the firmware dropped.\<close>

primrec rxba_bits ::
  "'w driver \<Rightarrow> u16 \<Rightarrow> u8 \<Rightarrow> byte list \<Rightarrow> u8 \<Rightarrow> byte \<Rightarrow> nat list \<Rightarrow> ba_priv \<Rightarrow> 'w \<Rightarrow> (ba_priv \<times> 'w) option" where
  "rxba_bits d seq t mac i b [] priv w = Some (priv, w)"
| "rxba_bits d seq t mac i b (j # js) priv w =
     (if bit b j then do {
        let seq_num = of_int ((MAX_TID_VALUE - 1) AND (uint seq + uint i * 8 + int j));
        (_, priv, w) \<leftarrow> mwifiex_11n_rx_reorder_pkt d seq_num (ucast t) mac 0 None priv w;
        rxba_bits d seq t mac i b js priv w
      } else rxba_bits d seq t mac i b js priv w)"

text \<open>The counter of the bytes has 8 bits, the length of the bitmap 16.\<close>

primrec rxba_bytes ::
  "nat \<Rightarrow> 'w driver \<Rightarrow> u16 \<Rightarrow> u16 \<Rightarrow> u8 \<Rightarrow> byte list \<Rightarrow> byte list \<Rightarrow> u8 \<Rightarrow> ba_priv \<Rightarrow> 'w \<Rightarrow>
     (ba_priv \<times> 'w) outcome" where
  "rxba_bytes 0 d seq len t mac bitmap i priv w = Running"
| "rxba_bytes (Suc fuel) d seq len t mac bitmap i priv w =
     (if unat i < unat len then
        (case idx bitmap (unat i) of
           None \<Rightarrow> Fault
         | Some b \<Rightarrow>
             (case rxba_bits d seq t mac i b [0..<8] priv w of
                None \<Rightarrow> Fault
              | Some (priv, w) \<Rightarrow> rxba_bytes fuel d seq len t mac bitmap (i + 1) priv w))
      else Returned (priv, w))"

text \<open>
  The walk over the records of the event. \<open>pos\<close> is the position of the record in the memory
  \<open>buf\<close> and \<open>left\<close> the signed \<open>tlv_buf_left\<close>, which is compared with an unsigned size: a negative
  number is not less than it.
\<close>

function rxba_tlvs ::
  "nat \<Rightarrow> 'w driver \<Rightarrow> byte list \<Rightarrow> nat \<Rightarrow> int \<Rightarrow> ba_priv \<Rightarrow> 'w \<Rightarrow> (ba_priv \<times> 'w) outcome" where
  "rxba_tlvs fuel d buf pos left priv w =
     (if 0 \<le> left \<and> left < int (sizeof rxba_sync_fields) then Returned (priv, w)
      else if length buf < pos + 4 then Fault
      else
        (let tlv_type = ld16 (drop pos buf);
             tlv_len = unat (ld16 (drop (pos + 2) buf))
         in if tlv_type \<noteq> TLV_TYPE_RXBA_SYNC then Returned (priv, w)
            else if length buf < pos + 16 then Fault
            else
              (let mac = take 6 (drop (pos + 4) buf);
                   t = buf ! (pos + 10);
                   seq = ld16 (drop (pos + 12) buf);
                   bitmap_len = ld16 (drop (pos + 14) buf)
               in if mwifiex_11n_get_rx_reorder_tbl priv (uint t) mac = None then Returned (priv, w)
                  else
                    (case rxba_bytes fuel d seq bitmap_len t mac (drop (pos + 16) buf) 0 priv w of
                       Returned (priv, w) \<Rightarrow>
                         rxba_tlvs fuel d buf (pos + (sizeof rxba_sync_fields + tlv_len))
                           (left - int (sizeof rxba_sync_fields + tlv_len)) priv w
                     | Fault \<Rightarrow> Fault
                     | Running \<Rightarrow> Running))))"
  by pat_completeness auto
termination
  by (relation "measure (\<lambda>(fuel, d, buf, pos, left, priv, w). length buf - pos)")
    (auto simp: rxba_sync_layout)

declare rxba_tlvs.simps [simp del]

definition mwifiex_11n_rxba_sync_event ::
  "nat \<Rightarrow> 'w driver \<Rightarrow> byte list \<Rightarrow> u16 \<Rightarrow> ba_priv \<Rightarrow> 'w \<Rightarrow> (ba_priv \<times> 'w) outcome" where
  "mwifiex_11n_rxba_sync_event fuel d event_buf len priv w =
     rxba_tlvs fuel d event_buf 0 (uint len) priv w"

section \<open>The window sizes\<close>

text \<open>
  The interfaces that are reached: up to the first connected one whose window size changes. The
  others keep their size, and no session of theirs is ended.
\<close>

definition unaffected :: "(ba_priv \<Rightarrow> ba_priv) \<Rightarrow> (ba_priv \<Rightarrow> u32) \<Rightarrow> ba_priv option \<Rightarrow> bool" where
  "unaffected upd win p =
     (case p of None \<Rightarrow> True | Some q \<Rightarrow> \<not> (win q \<noteq> win (upd q) \<and> connected (upd q)))"

definition reached :: "(ba_priv \<Rightarrow> ba_priv) \<Rightarrow> (ba_priv \<Rightarrow> u32) \<Rightarrow> ba_priv option list \<Rightarrow> nat" where
  "reached upd win ps = length (takeWhile (unaffected upd win) ps)"

lemma unat_inc: "unat i < 255 \<Longrightarrow> unat (i + 1) = Suc (unat i)" for i :: u8
  by (simp add: unat_word_ariths)

lemma winsize_step:
  assumes "unat i < length (privs a)" and "unaffected upd win (privs a ! unat i)"
  shows "winsize_loop (Suc fuel) upd win notify i a w = winsize_loop fuel upd win notify (i + 1)
    (a\<lparr>privs := (privs a)[unat i := map_option upd (privs a ! unat i)]\<rparr>) w"
proof (cases "privs a ! unat i")
  case None
  then have "a\<lparr>privs := (privs a)[unat i := map_option upd (privs a ! unat i)]\<rparr> = a"
    using list_update_id [of "privs a" "unat i"] by simp
  with None assms(1) show ?thesis by simp
next
  case (Some p)
  with assms show ?thesis by (auto simp: unaffected_def Let_def)
qed

lemma winsize_stop:
  assumes "length (privs a) \<le> 8" and "unat i < length (privs a)" and "\<not> unaffected upd win (privs a ! unat i)"
  shows "winsize_loop (Suc (Suc fuel)) upd win notify i a w =
    Some (a\<lparr>privs := (privs a)[unat i := map_option upd (privs a ! unat i)]\<rparr>,
      fold (notify (unat i) (upd (the (privs a ! unat i)))) [0..<MAX_NUM_TID] w)"
  using assms by (cases "privs a ! unat i") (simp_all add: unaffected_def Let_def MAX_NUM_TID_def)

lemma winsize_loop_eq:
  assumes "length (privs a) \<le> 8" and "unat i \<le> length (privs a)" and "length (privs a) - unat i < fuel"
  shows "winsize_loop fuel upd win notify i a w =
    (let rest = drop (unat i) (privs a); n = reached upd win rest
     in Some (a\<lparr>privs := take (unat i) (privs a) @ map (map_option upd) (take (Suc n) rest) @
            drop (Suc n) rest\<rparr>,
          if n < length rest then fold (notify (unat i + n) (upd (the (rest ! n)))) [0..<MAX_NUM_TID] w
          else w))"
  using assms
proof (induction fuel arbitrary: i a)
  case (Suc fuel)
  let ?k = "unat i" and ?ps = "privs a"
  show ?case
  proof (cases "?k < length ?ps")
    case False
    then show ?thesis
      using Suc.prems by (simp add: reached_def)
  next
    case True
    note rest = Cons_nth_drop_Suc [OF True, symmetric]
    have next_i: "unat (i + 1) = Suc ?k"
      using True Suc.prems(1) by (intro unat_inc) simp
    let ?a = "a\<lparr>privs := ?ps[?k := map_option upd (?ps ! ?k)]\<rparr>"
    show ?thesis
    proof (cases "unaffected upd win (?ps ! ?k)")
      case un: True
      have "winsize_loop fuel upd win notify (i + 1) ?a w =
        (let rest = drop (Suc ?k) ?ps; n = reached upd win rest
         in Some (a\<lparr>privs := take (Suc ?k) (privs ?a) @ map (map_option upd) (take (Suc n) rest) @
                drop (Suc n) rest\<rparr>,
              if n < length rest then fold (notify (Suc ?k + n) (upd (the (rest ! n)))) [0..<MAX_NUM_TID] w
              else w))"
        using Suc.IH [of ?a "i + 1"] Suc.prems True by (simp add: next_i Let_def)
      then show ?thesis
        using True un unfolding winsize_step [OF True un] rest
        by (simp add: reached_def Let_def take_Suc_conv_app_nth)
    next
      case False
      obtain fuel' where fuel: "fuel = Suc fuel'"
        using Suc.prems(3) True by (cases fuel) auto
      show ?thesis
        using True False unfolding fuel winsize_stop [OF Suc.prems(1) True False] rest
        by (simp add: reached_def upd_conv_take_nth_drop)
    qed
  qed
qed simp

lemma winsize_update:
  assumes "length (privs a) \<le> 8"
  shows "winsize_loop (Suc (length (privs a))) upd win notify 0 a w =
    (let n = reached upd win (privs a)
     in Some (a\<lparr>privs := map (map_option upd) (take (Suc n) (privs a)) @ drop (Suc n) (privs a)\<rparr>,
          if n < length (privs a) then fold (notify n (upd (the (privs a ! n)))) [0..<MAX_NUM_TID] w
          else w))"
  using winsize_loop_eq [of a 0 "Suc (length (privs a))" upd win notify w] assms
  by (simp add: Let_def del: winsize_loop.simps)

section \<open>Dropped packets\<close>

text \<open>A packet without payload changes nothing in a window that waits for its first packet.\<close>

lemma null_in_tbl:
  assumes "tbl_steady t" and "uint seq < 4096" and "rx_reorder_ptr t ! 0 = None"
    and "ahead (uint seq) (start_win t) < length (rx_reorder_ptr t)"
  shows "\<exists>ret t'. reorder_in_tbl u seq 0 None t w = Some (ret, t', w) \<and> same_but_timer t t'"
proof -
  let ?q = "uint seq" and ?p = "rx_reorder_ptr t"
  define re where "re = (\<lambda>tb. if \<not> timer_is_set tb \<or> start_win t \<noteq> start_win tb
    then mwifiex_11n_rxreorder_timer_restart tb else tb)"
  have restart: "same_but_timer t (re t)"
    by (simp add: re_def restart_timer_same)
  have ok: "tbl_ok t" and start: "0 \<le> start_win t" "start_win t < 4096"
    and len: "2 \<le> length ?p" "length ?p \<le> 2048"
    using assms(1) by (simp_all add: tbl_steady_def tbl_ok_def)
  have admit: "admit_seq ?q t = (True, t)"
    using admit_steady [OF assms(1) uint_ge_0 assms(2)] assms(4) len by simp
  have adv: "advance_win u ?q t w = Some (t, w)"
    using advance_eq [OF ok uint_ge_0 assms(2), of u w] assms(4) by (simp add: move_spec_def)
  have store: "store_pkt ?q None t = Some (if ?p ! ahead ?q (start_win t) \<noteq> None then -1 else 0, t)"
  proof -
    have "t\<lparr>rx_reorder_ptr := ?p[ahead ?q (start_win t) := None]\<rparr> = t"
      if "?p ! ahead ?q (start_win t) = None"
      using that list_update_id [of ?p "ahead ?q (start_win t)"] by simp
    then show ?thesis
      using store_eq [OF ok uint_ge_0 assms(2,4), of None] by (auto simp: Let_def)
  qed
  have run: "run_length ?p = 0"
    using assms(3) len by (cases ?p) (auto simp: run_length_def)
  have scan: "mwifiex_11n_scan_and_dispatch u t w = Some (t, w)"
    using scan_eq [OF ok refl, of u w] start by (simp add: run slide_def)
  have "reorder_in_tbl u seq 0 None t w =
      Some (if ?p ! ahead ?q (start_win t) \<noteq> None then -1 else 0, re t, w)"
    by (simp add: reorder_in_tbl_def admit adv store scan Let_def PKT_TYPE_BAR_def PKT_TYPE_AMSDU_def re_def)
  with restart show ?thesis by blast
qed

lemma rxba_bits_sound:
  "rx_sound priv \<Longrightarrow> \<exists>priv' w'. rxba_bits d seq t mac i b js priv w = Some (priv', w') \<and> rx_sound priv'"
proof (induction js arbitrary: priv w)
  case (Cons j js)
  let ?q = "of_int ((MAX_TID_VALUE - 1) AND (uint seq + uint i * 8 + int j)) :: u16"
  have "uint ?q < 4096"
    using and_4095 [of "uint seq + uint i * 8 + int j"]
    by (simp add: and.commute uint_word_of_int mod_simps)
  then obtain ret acc p1 w1 where "mwifiex_11n_rx_reorder_pkt d ?q (ucast t) mac 0 None priv w = Some (ret, p1, w1)"
    "rx_step d acc (priv, w) (p1, w1)"
    using rx_packet_step [OF Cons.prems, of ?q 0 None d "ucast t" mac w] by blast
  then show ?case
    using Cons.IH [of p1 w1] Cons.IH [OF Cons.prems, of w] by (simp add: rx_step_def)
qed simp

lemma rxba_bytes_stuck:
  assumes "255 < unat len"
  shows "rxba_bytes fuel d seq len t mac bitmap i priv w \<noteq> Returned r"
proof (induction fuel arbitrary: i priv w)
  case (Suc fuel)
  have "unat i < unat len"
    using assms unat_u8_less [of i] by linarith
  then show ?case
    using Suc by (auto split: option.splits)
qed simp

lemma rxba_bytes_returns:
  assumes "unat len \<le> 255" and "unat len \<le> length bitmap" and "rx_sound priv" and "unat i \<le> unat len"
    and "unat len - unat i < fuel"
  shows "\<exists>priv' w'. rxba_bytes fuel d seq len t mac bitmap i priv w = Returned (priv', w') \<and> rx_sound priv'"
  using assms(3-5)
proof (induction fuel arbitrary: i priv w)
  case (Suc fuel)
  show ?case
  proof (cases "unat i < unat len")
    case True
    have next_i: "unat (i + 1) = Suc (unat i)"
      using True assms(1) by (intro unat_inc) simp
    obtain p1 w1 where "rxba_bits d seq t mac i (bitmap ! unat i) [0..<8] priv w = Some (p1, w1)" "rx_sound p1"
      using rxba_bits_sound [OF Suc.prems(1), of d seq t mac i "bitmap ! unat i" "[0..<8]" w]
      by (elim exE conjE)
    then show ?thesis
      using Suc.IH [of p1 "i + 1" w1] Suc.prems True assms(2) by (simp add: idx_def next_i del: upt_rec_numeral)
  next
    case False
    then show ?thesis using Suc.prems(1) by simp
  qed
qed simp

end
