(* ===== verification/Tx_Ba.thy ===== *)
theory Tx_Ba
  imports Rx_Events
begin

text \<open>
  The transmit side of block-ack sessions in the mwifiex driver, \<open>doc/mwifiex/11n.c\<close>, and the
  decisions in \<open>doc/mwifiex/11n.h\<close>: the list of streams, the responses of the firmware, the
  configuration commands, and the tables shown to user space.
\<close>

section \<open>Streams\<close>

definition MWIFIEX_MAX_TX_BASTREAM_SUPPORTED :: nat where "MWIFIEX_MAX_TX_BASTREAM_SUPPORTED = 2"
definition MWIFIEX_MAX_RX_BASTREAM_SUPPORTED :: nat where "MWIFIEX_MAX_RX_BASTREAM_SUPPORTED = 16"
definition MWIFIEX_DEFAULT_BLOCK_ACK_TIMEOUT :: u32 where "MWIFIEX_DEFAULT_BLOCK_ACK_TIMEOUT = 0xffff"
definition MWIFIEX_FW_V15 :: u8 where "MWIFIEX_FW_V15 = 15"
definition HostCmd_CMD_RECONFIGURE_TX_BUFF :: u16 where "HostCmd_CMD_RECONFIGURE_TX_BUFF = 0xd9"
definition HostCmd_CMD_AMSDU_AGGR_CTRL :: u16 where "HostCmd_CMD_AMSDU_AGGR_CTRL = 0xdf"

text \<open>The secondary channel of a 40 MHz pair, from the Linux headers.\<close>

definition IEEE80211_HT_PARAM_CHA_SEC_NONE :: u8 where "IEEE80211_HT_PARAM_CHA_SEC_NONE = 0"
definition IEEE80211_HT_PARAM_CHA_SEC_ABOVE :: u8 where "IEEE80211_HT_PARAM_CHA_SEC_ABOVE = 1"
definition IEEE80211_HT_PARAM_CHA_SEC_BELOW :: u8 where "IEEE80211_HT_PARAM_CHA_SEC_BELOW = 3"

definition INITIATOR_BIT :: "u16 \<Rightarrow> u16" where
  "INITIATOR_BIT param = drop_bit DELBA_INITIATOR_POS (param AND push_bit DELBA_INITIATOR_POS 1)"

definition mwifiex_create_ba_tbl ::
  "'w driver \<Rightarrow> byte list \<Rightarrow> int \<Rightarrow> mwifiex_ba_status \<Rightarrow> ba_priv \<Rightarrow> 'w \<Rightarrow> (ba_priv \<times> 'w) option" where
  "mwifiex_create_ba_tbl d r t st priv w =
     (if mwifiex_get_ba_tbl priv t r \<noteq> None then Some (priv, w)
      else
        (let (ok, w) = kzalloc d w
         in if \<not> ok then Some (priv, w)
            else do {
              let tid_down = mwifiex_wmm_downgrade_tid priv (of_int t);
              ra_list \<leftarrow> mwifiex_wmm_get_ralist_node priv tid_down r;
              let priv = set_ra_session priv tid_down ra_list st False;
              let new_node = \<lparr>tx_tid = t, tx_ra = r, ba_status = st, tx_tbl_amsdu = False\<rparr>;
              Some (priv\<lparr>tx_tbls := tx_tbls priv @ [new_node]\<rparr>, w)
            }))"

text \<open>The walk over \<open>n\<close> streams from position \<open>i\<close> on that deletes some of them.\<close>

primrec del_streams ::
  "(tx_ba_stream_tbl \<Rightarrow> bool) \<Rightarrow> nat \<Rightarrow> nat \<Rightarrow> ba_priv \<Rightarrow> ba_priv option" where
  "del_streams P 0 i priv = Some priv"
| "del_streams P (Suc n) i priv = do {
     e \<leftarrow> idx (tx_tbls priv) i;
     if P e then do {
       priv \<leftarrow> mwifiex_11n_delete_tx_ba_stream_tbl_entry priv (Some i);
       del_streams P n i priv
     } else del_streams P n (i + 1) priv
   }"

definition mwifiex_11n_delete_all_tx_ba_stream_tbl :: "ba_priv \<Rightarrow> ba_priv option" where
  "mwifiex_11n_delete_all_tx_ba_stream_tbl priv = do {
     priv \<leftarrow> del_streams (\<lambda>_. True) (length (tx_tbls priv)) 0 priv;
     Some (priv\<lparr>tx_tbls := [],
       aggr_prio_tbl := map (\<lambda>p. p\<lparr>ampdu_ap := ampdu_user p\<rparr>) (aggr_prio_tbl priv)\<rparr>)
   }"

definition mwifiex_del_tx_ba_stream_tbl_by_ra :: "ba_priv \<Rightarrow> byte list option \<Rightarrow> ba_priv option" where
  "mwifiex_del_tx_ba_stream_tbl_by_ra priv r =
     (case r of
        None \<Rightarrow> Some priv
      | Some r \<Rightarrow> del_streams (\<lambda>e. tx_ra e = r) (length (tx_tbls priv)) 0 priv)"

section \<open>Responses of the firmware\<close>

definition mwifiex_ret_11n_delba ::
  "'w driver \<Rightarrow> host_cmd \<Rightarrow> ba_priv \<Rightarrow> 'w \<Rightarrow> (ba_priv \<times> 'w) option" where
  "mwifiex_ret_11n_delba d resp priv w = do {
     del_result \<leftarrow> idx (params resp) 0;
     peer \<leftarrow> load (params resp) 1 6;
     del_ba_param_set \<leftarrow> get16 (params resp) 7;
     let t = uint (drop_bit DELBA_TID_POS del_ba_param_set);
     if ucast del_result = BA_RESULT_SUCCESS then do {
       (priv, w) \<leftarrow> mwifiex_del_ba_tbl d t peer TYPE_DELBA_SENT (uint (INITIATOR_BIT del_ba_param_set)) priv w;
       case mwifiex_get_ba_status priv BA_SETUP_INPROGRESS of
         None \<Rightarrow> Some (priv, w)
       | Some i \<Rightarrow> do {
           e \<leftarrow> idx (tx_tbls priv) i;
           (_, priv, w) \<leftarrow> mwifiex_send_addba d (tx_tid e) (tx_ra e) priv w;
           Some (priv, w)
         }
     } else if INITIATOR_BIT del_ba_param_set = 0 then Some (priv, w)
     else do {
       (priv, w) \<leftarrow> mwifiex_create_ba_tbl d peer t BA_SETUP_INPROGRESS priv w;
       case mwifiex_get_ba_status priv BA_SETUP_INPROGRESS of
         None \<Rightarrow> Some (priv, w)
       | Some i \<Rightarrow> do {
           e \<leftarrow> idx (tx_tbls priv) i;
           mwifiex_del_ba_tbl d (tx_tid e) (tx_ra e) TYPE_DELBA_SENT 1 priv w
         }
     }
   }"

text \<open>The response is written back with the fragment number cleared from the start.\<close>

definition mwifiex_ret_11n_addba_req ::
  "'w driver \<Rightarrow> host_cmd \<Rightarrow> ba_priv \<Rightarrow> 'w \<Rightarrow> (host_cmd \<times> ba_priv \<times> 'w) option" where
  "mwifiex_ret_11n_addba_req d resp priv w = do {
     param \<leftarrow> get16 (params resp) 10;
     ssn \<leftarrow> get16 (params resp) 14;
     ps \<leftarrow> put16 (params resp) 14 (ssn AND SSN_MASK);
     let resp = resp\<lparr>params := ps\<rparr>;
     let t = uint (param_tid param);
     peer \<leftarrow> load (params resp) 1 6;
     let tid_down = mwifiex_wmm_downgrade_tid priv (of_int t);
     ra_list \<leftarrow> mwifiex_wmm_get_ralist_node priv tid_down peer;
     status_code \<leftarrow> get16 (params resp) 8;
     add_rsp_result \<leftarrow> idx (params resp) 0;
     if status_code \<noteq> BA_RESULT_SUCCESS then do {
       let priv = set_ra_session priv tid_down ra_list BA_SETUP_NONE False;
       (priv, w) \<leftarrow> mwifiex_del_ba_tbl d t peer TYPE_DELBA_SENT 1 priv w;
       if add_rsp_result \<noteq> BA_RESULT_TIMEOUT then do {
         p \<leftarrow> idx (aggr_prio_tbl priv) (nat t);
         Some (resp, priv\<lparr>aggr_prio_tbl :=
           (aggr_prio_tbl priv)[nat t := p\<lparr>ampdu_ap := BA_STREAM_NOT_ALLOWED\<rparr>]\<rparr>, w)
       } else Some (resp, priv, w)
     } else
       (case mwifiex_get_ba_tbl priv t peer of
          None \<Rightarrow> Some (resp, priv, w)
        | Some i \<Rightarrow> do {
            e \<leftarrow> idx (tx_tbls priv) i;
            am \<leftarrow> (if param AND BLOCKACKPARAM_AMSDU_SUPP_MASK \<noteq> 0 \<and> tx_amsdu (add_ba_param priv)
                   then map_option (\<lambda>p. amsdu_prio p \<noteq> BA_STREAM_NOT_ALLOWED)
                     (idx (aggr_prio_tbl priv) (nat t))
                   else Some False);
            let priv = priv\<lparr>tx_tbls := (tx_tbls priv)[i := e\<lparr>ba_status := BA_SETUP_COMPLETE,
              tx_tbl_amsdu := am\<rparr>]\<rparr>;
            Some (resp, set_ra_session priv tid_down ra_list BA_SETUP_COMPLETE am, w)
          })
   }"

text \<open>A peer ended a session.\<close>

definition mwifiex_11n_delete_ba_stream ::
  "'w driver \<Rightarrow> byte list \<Rightarrow> ba_priv \<Rightarrow> 'w \<Rightarrow> (ba_priv \<times> 'w) option" where
  "mwifiex_11n_delete_ba_stream d del_ba priv w = do {
     peer \<leftarrow> load del_ba 1 6;
     del_ba_param_set \<leftarrow> get16 del_ba 7;
     let t = uint (drop_bit DELBA_TID_POS del_ba_param_set);
     mwifiex_del_ba_tbl d t peer TYPE_DELBA_RECEIVE (uint (INITIATOR_BIT del_ba_param_set)) priv w
   }"

section \<open>Configuration commands\<close>

definition mwifiex_cmd_recfg_tx_buf :: "host_cmd \<Rightarrow> int \<Rightarrow> u16 option \<Rightarrow> host_cmd option" where
  "mwifiex_cmd_recfg_tx_buf cmd cmd_action buf_size =
     (let action = of_int cmd_action :: u16
      in do {
        ps \<leftarrow> put16 (params cmd) 0 action;
        sz \<leftarrow> (if action = HostCmd_ACT_GEN_SET then buf_size else Some 0);
        ps \<leftarrow> put16 ps 2 sz;
        Some (cmd\<lparr>command := HostCmd_CMD_RECONFIGURE_TX_BUFF, cmd_size := 8 + S_DS_GEN, params := ps\<rparr>)
      })"

definition mwifiex_cmd_amsdu_aggr_ctrl :: "host_cmd \<Rightarrow> int \<Rightarrow> u16 \<Rightarrow> host_cmd option" where
  "mwifiex_cmd_amsdu_aggr_ctrl cmd cmd_action enable =
     (let action = of_int cmd_action :: u16
      in do {
        ps \<leftarrow> put16 (params cmd) 0 action;
        ps \<leftarrow> (if action = HostCmd_ACT_GEN_SET then put16 ps 2 enable else Some ps);
        ps \<leftarrow> put16 ps 4 0;
        Some (cmd\<lparr>command := HostCmd_CMD_AMSDU_AGGR_CTRL, cmd_size := 6 + S_DS_GEN, params := ps\<rparr>)
      })"

record ds_11n_tx_cfg =
  tx_htcap :: u16
  tx_htinfo :: u16
  misc_config :: u16

definition mwifiex_cmd_11n_cfg :: "ba_priv \<Rightarrow> host_cmd \<Rightarrow> u16 \<Rightarrow> ds_11n_tx_cfg \<Rightarrow> host_cmd option" where
  "mwifiex_cmd_11n_cfg priv cmd cmd_action txcfg = do {
     ps \<leftarrow> put16 (params cmd) 0 cmd_action;
     ps \<leftarrow> put16 ps 2 (tx_htcap txcfg);
     ps \<leftarrow> put16 ps 4 (tx_htinfo txcfg);
     ps \<leftarrow> (if hw_11ac priv then put16 ps 6 (misc_config txcfg) else Some ps);
     Some (cmd\<lparr>command := HostCmd_CMD_11N_CFG, cmd_size := 8 + S_DS_GEN, params := ps\<rparr>)
   }"

definition mwifiex_set_ba_params :: "'w driver \<Rightarrow> ba_priv \<Rightarrow> ba_priv" where
  "mwifiex_set_ba_params d priv =
     (let p = (add_ba_param priv)\<lparr>timeout := MWIFIEX_DEFAULT_BLOCK_ACK_TIMEOUT\<rparr>;
          p = (if GET_BSS_ROLE d = MWIFIEX_BSS_ROLE_UAP
               then p\<lparr>tx_win_size := MWIFIEX_UAP_AMPDU_DEF_TXWINSIZE,
                      rx_win_size := MWIFIEX_UAP_AMPDU_DEF_RXWINSIZE\<rparr>
               else p\<lparr>tx_win_size := MWIFIEX_STA_AMPDU_DEF_TXWINSIZE,
                      rx_win_size := MWIFIEX_STA_AMPDU_DEF_RXWINSIZE\<rparr>)
      in priv\<lparr>add_ba_param := p\<lparr>tx_amsdu := True, rx_amsdu := True\<rparr>\<rparr>)"

definition mwifiex_get_sec_chan_offset :: "int \<Rightarrow> u8" where
  "mwifiex_get_sec_chan_offset ch =
     (if ch \<in> {36, 44, 52, 60, 100, 108, 116, 124, 132, 140, 149, 157} then IEEE80211_HT_PARAM_CHA_SEC_ABOVE
      else if ch \<in> {40, 48, 56, 64, 104, 112, 120, 128, 136, 144, 153, 161} then IEEE80211_HT_PARAM_CHA_SEC_BELOW
      else IEEE80211_HT_PARAM_CHA_SEC_NONE)"

section \<open>Window sizes for sending\<close>

definition mwifiex_send_delba_txbastream_tbl :: "'w driver \<Rightarrow> ba_priv \<Rightarrow> u8 \<Rightarrow> 'w \<Rightarrow> 'w" where
  "mwifiex_send_delba_txbastream_tbl d priv t w =
     (case find (\<lambda>e. ba_status e = BA_SETUP_COMPLETE \<and> uint t = tx_tid e) (tx_tbls priv) of
        None \<Rightarrow> w
      | Some e \<Rightarrow> snd (mwifiex_send_delba d (tx_tid e) (tx_ra e) 1 w))"

definition choose_tx_win :: "adapter \<Rightarrow> ba_priv \<Rightarrow> u32" where
  "choose_tx_win a priv =
     (if coex_win_size a \<noteq> 0 \<and> coex_tx_win_size a \<noteq> 0 then ucast (coex_tx_win_size a)
      else if bss_type priv = MWIFIEX_BSS_TYPE_STA \<or> bss_type priv = MWIFIEX_BSS_TYPE_P2P
        then MWIFIEX_STA_AMPDU_DEF_TXWINSIZE
      else if bss_type priv = MWIFIEX_BSS_TYPE_UAP then MWIFIEX_UAP_AMPDU_DEF_TXWINSIZE
      else tx_win_size (add_ba_param priv))"

definition set_tx_win :: "adapter \<Rightarrow> ba_priv \<Rightarrow> ba_priv" where
  "set_tx_win a priv =
     priv\<lparr>add_ba_param := (add_ba_param priv)\<lparr>tx_win_size := choose_tx_win a priv\<rparr>\<rparr>"

definition mwifiex_update_ampdu_txwinsize ::
  "(nat \<Rightarrow> 'w driver) \<Rightarrow> adapter \<Rightarrow> 'w \<Rightarrow> (adapter \<times> 'w) option" where
  "mwifiex_update_ampdu_txwinsize ds a w =
     winsize_loop (Suc (length (privs a))) (set_tx_win a) (\<lambda>p. tx_win_size (add_ba_param p))
       (\<lambda>i p t. mwifiex_send_delba_txbastream_tbl (ds i) p (of_nat t)) 0 a w"

section \<open>Tables for user space\<close>

definition MAX_RX_WINSIZE :: nat where "MAX_RX_WINSIZE = 64"

record ds_rx_reorder_tbl =
  ds_tid :: u16
  ds_ta :: "byte list"
  ds_start_win :: u32
  ds_win_size :: u32
  ds_buffer :: "u32 list"

record ds_tx_ba_stream_tbl =
  ds_tx_tid :: u16
  ds_ra :: "byte list"
  ds_amsdu :: bool

primrec fill_buffer :: "nat \<Rightarrow> nat \<Rightarrow> byte list option list \<Rightarrow> u32 list \<Rightarrow> u32 list option" where
  "fill_buffer 0 i ptrs buffer = Some buffer"
| "fill_buffer (Suc n) i ptrs buffer = do {
     p \<leftarrow> idx ptrs i;
     _ \<leftarrow> idx buffer i;
     fill_buffer n (i + 1) ptrs (buffer[i := (if p \<noteq> None then 1 else 0)])
   }"

fun fill_rx_tbls :: "rx_tbl list \<Rightarrow> nat \<Rightarrow> ds_rx_reorder_tbl list \<Rightarrow> (nat \<times> ds_rx_reorder_tbl list) option" where
  "fill_rx_tbls [] cnt buf = Some (cnt, buf)"
| "fill_rx_tbls (t # ts) cnt buf = do {
     e \<leftarrow> idx buf cnt;
     b \<leftarrow> fill_buffer (nat (win_size t)) 0 (rx_reorder_ptr t) (ds_buffer e);
     let e = \<lparr>ds_tid = of_int (tid t), ds_ta = ta t, ds_start_win = of_int (start_win t),
              ds_win_size = of_int (win_size t), ds_buffer = b\<rparr>;
     let buf = buf[cnt := e];
     let cnt = cnt + 1;
     if cnt \<ge> MWIFIEX_MAX_RX_BASTREAM_SUPPORTED then Some (cnt, buf) else fill_rx_tbls ts cnt buf
   }"

definition mwifiex_get_rx_reorder_tbl ::
  "ba_priv \<Rightarrow> ds_rx_reorder_tbl list \<Rightarrow> (nat \<times> ds_rx_reorder_tbl list) option" where
  "mwifiex_get_rx_reorder_tbl priv buf = fill_rx_tbls (rx_tbls priv) 0 buf"

fun fill_tx_tbls ::
  "tx_ba_stream_tbl list \<Rightarrow> nat \<Rightarrow> ds_tx_ba_stream_tbl list \<Rightarrow> (nat \<times> ds_tx_ba_stream_tbl list) option" where
  "fill_tx_tbls [] cnt buf = Some (cnt, buf)"
| "fill_tx_tbls (e # es) cnt buf = do {
     _ \<leftarrow> idx buf cnt;
     let buf = buf[cnt := \<lparr>ds_tx_tid = of_int (tx_tid e), ds_ra = tx_ra e, ds_amsdu = tx_tbl_amsdu e\<rparr>];
     let cnt = cnt + 1;
     if cnt \<ge> MWIFIEX_MAX_TX_BASTREAM_SUPPORTED then Some (cnt, buf) else fill_tx_tbls es cnt buf
   }"

definition mwifiex_get_tx_ba_stream_tbl ::
  "ba_priv \<Rightarrow> ds_tx_ba_stream_tbl list \<Rightarrow> (nat \<times> ds_tx_ba_stream_tbl list) option" where
  "mwifiex_get_tx_ba_stream_tbl priv buf = fill_tx_tbls (tx_tbls priv) 0 buf"

section \<open>May a stream be set up\<close>

definition mwifiex_is_station_ampdu_allowed :: "ba_priv \<Rightarrow> ra_list_tbl \<Rightarrow> int \<Rightarrow> bool option" where
  "mwifiex_is_station_ampdu_allowed priv ptr t =
     (case mwifiex_get_sta_entry priv (ra ptr) of
        None \<Rightarrow> Some False
      | Some node \<Rightarrow> map_option (\<lambda>a. a \<noteq> BA_STREAM_NOT_ALLOWED) (idx (ampdu_sta node) (nat t)))"

definition mwifiex_is_ampdu_allowed :: "'w driver \<Rightarrow> ba_priv \<Rightarrow> ra_list_tbl \<Rightarrow> int \<Rightarrow> bool option" where
  "mwifiex_is_ampdu_allowed d priv ptr t =
     (if ra ptr = replicate 6 0xff then Some False
      else if GET_BSS_ROLE d = MWIFIEX_BSS_ROLE_UAP then mwifiex_is_station_ampdu_allowed priv ptr t
      else if tdls_link ptr then mwifiex_is_station_ampdu_allowed priv ptr t
      else map_option (\<lambda>p. ampdu_ap p \<noteq> BA_STREAM_NOT_ALLOWED) (idx (aggr_prio_tbl priv) (nat t)))"

definition mwifiex_is_amsdu_allowed :: "ba_priv \<Rightarrow> int \<Rightarrow> bool option" where
  "mwifiex_is_amsdu_allowed priv t = do {
     p \<leftarrow> idx (aggr_prio_tbl priv) (nat t);
     if amsdu_prio p = BA_STREAM_NOT_ALLOWED then Some False
     else if is_data_rate_auto priv then Some True
     else map_option (\<lambda>r. r AND 3 = 0) (idx (rates_bitmap priv) 2)
   }"

definition mwifiex_space_avail_for_new_ba_stream :: "adapter \<Rightarrow> bool" where
  "mwifiex_space_avail_for_new_ba_stream a =
     (let ba_stream_num = sum_list (map (\<lambda>p. case p of None \<Rightarrow> 0
            | Some priv \<Rightarrow> of_nat (length (tx_tbls priv))) (privs a)) :: u32;
          ba_stream_max =
            (if fw_api_ver a = MWIFIEX_FW_V15 then
               (let n = drop_bit 18 (hw_dot_11n_dev_cap a) AND 0xF
                in if n = 0 then of_nat MWIFIEX_MAX_TX_BASTREAM_SUPPORTED else n)
             else of_nat MWIFIEX_MAX_TX_BASTREAM_SUPPORTED)
      in ba_stream_num < ba_stream_max)"

text \<open>The stream of the least priority below that of \<open>ptr_tid\<close>: whether there is one, and which.\<close>

fun least_stream ::
  "ba_priv \<Rightarrow> tx_ba_stream_tbl list \<Rightarrow> int \<Rightarrow> (int \<times> byte list) option \<Rightarrow> (int \<times> byte list) option option" where
  "least_stream priv [] prio found = Some found"
| "least_stream priv (e # es) prio found = do {
     p \<leftarrow> idx (aggr_prio_tbl priv) (nat (tx_tid e));
     if prio > uint (ampdu_user p)
     then least_stream priv es (uint (ampdu_user p)) (Some (tx_tid e, tx_ra e))
     else least_stream priv es prio found
   }"

definition mwifiex_find_stream_to_delete :: "ba_priv \<Rightarrow> int \<Rightarrow> (int \<times> byte list) option option" where
  "mwifiex_find_stream_to_delete priv ptr_tid = do {
     p \<leftarrow> idx (aggr_prio_tbl priv) (nat ptr_tid);
     least_stream priv (tx_tbls priv) (uint (ampdu_user p)) None
   }"

definition mwifiex_is_sta_11n_enabled :: "'w driver \<Rightarrow> ba_priv \<Rightarrow> sta_node option \<Rightarrow> int" where
  "mwifiex_is_sta_11n_enabled d priv node =
     (case node of
        None \<Rightarrow> 0
      | Some n \<Rightarrow>
          if bss_role (up d) = MWIFIEX_BSS_ROLE_UAP \<and> \<not> ap_11n_enabled priv \<or>
             mode priv = IFTYPE_ADHOC \<and> \<not> adhoc_11n_enabled priv then 0
          else uint (sta_11n_enabled n))"

definition mwifiex_tdls_peer_11n_enabled :: "ba_priv \<Rightarrow> byte list \<Rightarrow> u8" where
  "mwifiex_tdls_peer_11n_enabled priv r =
     (case mwifiex_get_sta_entry priv r of Some node \<Rightarrow> sta_11n_enabled node | None \<Rightarrow> 0)"

end
