(* ===== verification/Ba_Sessions.thy ===== *)
theory Ba_Sessions
  imports Tx_Ba
begin

text \<open>
  Both sides of block-ack sessions together: packets, timers and the events and responses of
  the firmware, in any order, on the state of one interface.
\<close>

section \<open>The invariant of an interface\<close>

text \<open>
  Sound reorder tables, streams for different stations and identifiers, arrays of the sizes
  the driver gives them, and last sequence numbers that are unset or have twelve bits. The
  receive window has at least two slots.
\<close>

definition seqs_ok :: "u16 list \<Rightarrow> bool" where
  "seqs_ok qs \<longleftrightarrow> length qs = MAX_NUM_TID \<and> (\<forall>q \<in> set qs. q = MWIFIEX_DEF_11N_RX_SEQ_NUM \<or> uint q < 4096)"

definition ba_inv :: "ba_priv \<Rightarrow> bool" where
  "ba_inv priv \<longleftrightarrow> rx_sound priv \<and> \<not> rx_locked priv \<and>
     distinct (map tx_key (tx_tbls priv)) \<and> (\<forall>e \<in> set (tx_tbls priv). 0 \<le> tx_tid e \<and> tx_tid e < 8) \<and>
     length (aggr_prio_tbl priv) = MAX_NUM_TID \<and> length (ra_lists priv) = MAX_NUM_TID \<and>
     seqs_ok (rx_seq priv) \<and> (\<forall>n \<in> set (sta_list priv). seqs_ok (sta_rx_seq n)) \<and>
     2 \<le> unat (rx_win_size (add_ba_param priv)) \<and> unat (rx_win_size (add_ba_param priv)) < 1024"

definition ba_step ::
  "'w driver \<Rightarrow> byte list list \<Rightarrow> ba_priv \<times> 'w \<Rightarrow> ba_priv \<times> 'w \<Rightarrow> bool" where
  "ba_step d acc s s' \<longleftrightarrow> ba_inv (fst s') \<and>
     (\<exists>out. runs_to d out (snd s) (snd s') \<and> mset out + waiting (fst s') = waiting (fst s) + mset acc)"

lemma ba_inv_rx:
  assumes "ba_inv priv" and "rx_sound priv'" and "priv'\<lparr>rx_tbls := rx_tbls priv\<rparr> = priv"
  shows "ba_inv priv'"
proof -
  have "priv' = priv\<lparr>rx_tbls := rx_tbls priv'\<rparr>"
    by (subst assms(3) [symmetric]) simp
  then obtain ts where "priv' = priv\<lparr>rx_tbls := ts\<rparr>" by blast
  with assms(1,2) show ?thesis
    by (simp add: ba_inv_def rx_sound_def)
qed

lemma ba_step_rx:
  "ba_inv (fst s) \<Longrightarrow> rx_step d acc s s' \<Longrightarrow> ba_step d acc s s'"
  by (simp add: ba_step_def rx_step_def) (metis ba_inv_rx)

lemma ba_step_trans:
  assumes "ba_step d acc s s'" and "ba_step d acc' s' s''"
  shows "ba_step d (acc @ acc') s s''"
proof -
  obtain out where out: "runs_to d out (snd s) (snd s')" "mset out + waiting (fst s') = waiting (fst s) + mset acc"
    using assms(1) unfolding ba_step_def by blast
  obtain out' where out': "runs_to d out' (snd s') (snd s'')"
    "mset out' + waiting (fst s'') = waiting (fst s') + mset acc'"
    using assms(2) unfolding ba_step_def by blast
  have "mset (out @ out') + waiting (fst s'') = mset out + waiting (fst s') + mset acc'"
    using out'(2) by (simp add: add.assoc)
  also have "\<dots> = waiting (fst s) + mset (acc @ acc')"
    using out(2) by (simp add: add.assoc)
  finally show ?thesis
    using assms(2) runs_to_trans [OF out'(1) out(1)] unfolding ba_step_def by blast
qed

text \<open>Changes that leave the receive side alone.\<close>

lemma ba_step_tx:
  assumes "ba_inv priv'" and "rx_tbls priv' = rx_tbls priv" and "runs_to d [] w w'"
  shows "ba_step d [] (priv, w) (priv', w')"
  using assms by (auto simp: ba_step_def waiting_def intro!: exI [of _ "[]"])

lemma ba_step_refl: "ba_inv priv \<Longrightarrow> ba_step d [] (priv, w) (priv, w)"
  by (simp add: ba_step_tx runs_to.begins)

lemma ba_inv_sound: "ba_inv priv \<Longrightarrow> rx_sound priv"
  by (simp add: ba_inv_def)

section \<open>Deleting tables\<close>

lemma del_matching_step:
  assumes "ba_inv priv" and "i + n = length (rx_tbls priv)"
  shows "\<exists>priv' w'. del_matching d P n i priv w = Some (priv', w') \<and>
    ba_step d [] (priv, w) (priv', w') \<and>
    rx_tbls priv' = take i (rx_tbls priv) @ filter (\<lambda>t. \<not> P t) (drop i (rx_tbls priv))"
  using assms(1,2)
proof (induction n arbitrary: i priv w)
  case 0
  then show ?case by (simp add: ba_step_def)
next
  case (Suc n)
  have i: "i < length (rx_tbls priv)" using Suc.prems(2) by simp
  note split = Cons_nth_drop_Suc [OF i]
  show ?case
  proof (cases "P (rx_tbls priv ! i)")
    case False
    obtain priv' w' where "del_matching d P n (Suc i) priv w = Some (priv', w')"
      "ba_step d [] (priv, w) (priv', w')"
      "rx_tbls priv' = take (Suc i) (rx_tbls priv) @ filter (\<lambda>t. \<not> P t) (drop (Suc i) (rx_tbls priv))"
      using Suc.IH [of priv "Suc i" w] Suc.prems by auto
    then show ?thesis
      using i False by (simp add: idx_def take_Suc_conv_app_nth flip: split)
  next
    case True
    let ?p = "priv\<lparr>rx_tbls := remove_at i (rx_tbls priv)\<rparr>"
    have nl: "\<not> rx_locked priv"
      using Suc.prems(1) by (simp add: ba_inv_def)
    obtain w1 where w1: "mwifiex_del_rx_reorder_entry d (Some i) priv w = Some (?p, w1)"
      "rx_step d [] (priv, w) (?p, w1)"
      using del_entry_step [OF ba_inv_sound [OF Suc.prems(1)] i nl, of d w]
      by (elim exE conjE)
    have s1: "ba_step d [] (priv, w) (?p, w1)"
      using ba_step_rx [OF _ w1(2)] Suc.prems(1) by simp
    have inv1: "ba_inv ?p" and len1: "i + n = length (rx_tbls ?p)"
      using s1 i Suc.prems(2) by (simp_all add: ba_step_def)
    obtain priv' w' where "del_matching d P n i ?p w1 = Some (priv', w')"
      "ba_step d [] (?p, w1) (priv', w')"
      "rx_tbls priv' = take i (rx_tbls ?p) @ filter (\<lambda>t. \<not> P t) (drop i (rx_tbls ?p))"
      using Suc.IH [OF inv1 len1, of w1] by (elim exE conjE)
    then show ?thesis
      using i True w1(1) ba_step_trans [OF s1, of "[]" "(priv', w')"]
      by (simp add: idx_def remove_at_def min_def flip: split)
  qed
qed

lemma by_ta_step:
  assumes "ba_inv priv"
  shows "\<exists>priv' w'. mwifiex_11n_del_rx_reorder_tbl_by_ta d (Some a) priv w = Some (priv', w') \<and>
    ba_step d [] (priv, w) (priv', w') \<and> rx_tbls priv' = filter (\<lambda>t. ta t \<noteq> a) (rx_tbls priv)"
  using del_matching_step [OF assms, of 0 "length (rx_tbls priv)" d "\<lambda>t. ta t = a" w]
  by (simp add: mwifiex_11n_del_rx_reorder_tbl_by_ta_def)

lemma cleanup_step:
  assumes "ba_inv priv"
  shows "\<exists>priv' w'. mwifiex_11n_cleanup_reorder_tbl d priv w = Some (priv', w') \<and>
    ba_step d [] (priv, w) (priv', w') \<and> rx_tbls priv' = [] \<and> waiting priv' = {#}"
proof -
  obtain p1 w1 where p1: "del_matching d (\<lambda>_. True) (length (rx_tbls priv)) 0 priv w = Some (p1, w1)"
    "ba_step d [] (priv, w) (p1, w1)" "rx_tbls p1 = []"
    using del_matching_step [OF assms, of 0 "length (rx_tbls priv)" d "\<lambda>_. True" w] by auto
  let ?p = "mwifiex_reset_11n_rx_seq_num (p1\<lparr>rx_tbls := []\<rparr>)"
  have "ba_inv ?p"
    using p1(2) by (simp add: ba_step_def ba_inv_def mwifiex_reset_11n_rx_seq_num_def seqs_ok_def
        rx_sound_def MWIFIEX_DEF_11N_RX_SEQ_NUM_def)
  then have "ba_step d [] (p1, w1) (?p, w1)"
    using p1(3) by (intro ba_step_tx) (simp_all add: mwifiex_reset_11n_rx_seq_num_def)
  then show ?thesis
    using p1 ba_step_trans [OF p1(2), of "[]" "(?p, w1)"]
    by (simp add: mwifiex_11n_cleanup_reorder_tbl_def)
      (simp add: mwifiex_reset_11n_rx_seq_num_def waiting_def)
qed

section \<open>Setting a session up\<close>

lemma last_rx_seq_ok:
  assumes "ba_inv priv" and "0 \<le> t" "t < 8"
  shows "\<exists>q. last_rx_seq d priv a t = Some q \<and> (q = MWIFIEX_DEF_11N_RX_SEQ_NUM \<or> uint q < 4096)"
proof -
  have seq: "\<exists>q. idx qs (nat t) = Some q \<and> (q = MWIFIEX_DEF_11N_RX_SEQ_NUM \<or> uint q < 4096)"
    if "seqs_ok qs" for qs
    using that assms(2,3) by (auto simp: seqs_ok_def idx_def MAX_NUM_TID_def)
  have "seqs_ok (rx_seq priv)" "\<And>n. mwifiex_get_sta_entry priv a = Some n \<Longrightarrow> seqs_ok (sta_rx_seq n)"
    using assms(1) by (auto simp: ba_inv_def mwifiex_get_sta_entry_def find_Some_iff)
  then show ?thesis
    using seq by (auto simp: last_rx_seq_def split: option.splits)
qed

lemma create_step:
  assumes "ba_inv priv" and "0 \<le> t" "t < 8" and "2 \<le> win" "win \<le> 2048"
    and "0 \<le> ssn" "ssn < 4096"
  shows "\<exists>priv' w'. mwifiex_11n_create_rx_reorder_tbl d a t win ssn priv w = Some (priv', w') \<and>
    ba_step d [] (priv, w) (priv', w')"
proof (cases "mwifiex_11n_get_rx_reorder_tbl priv t a")
  case (Some i)
  note i = rx_lookup [OF Some]
  let ?t = "rx_tbls priv ! i"
  define k where "k = (if ssn > start_win ?t then min (nat (ssn - start_win ?t)) (length (rx_reorder_ptr ?t))
      else length (rx_reorder_ptr ?t))"
  let ?t' = "?t\<lparr>rx_reorder_ptr := slide k (rx_reorder_ptr ?t), start_win := ssn\<rparr>"
  let ?out = "packets (take k (rx_reorder_ptr ?t))"
  have ok: "tbl_ok ?t"
    using rx_soundD [OF ba_inv_sound [OF assms(1)]] i by blast
  have split: "mset (packets (take k ps)) + mset (packets (drop k ps)) = mset (packets ps)"
    for ps :: "byte list option list"
    by (metis append_take_drop_id mset_append packets_simps(4))
  have "rx_step d [] (priv, w) (set_tbl priv i ?t', fold (deliver (up d)) ?out w)"
    using assms i ok ba_inv_sound split
    by (intro rx_step_tbl) (simp_all add: tbl_ok_def rx_key_def tbl_packets_def packets_slide)
  then show ?thesis
    using i until_eq [OF ok k_def, of "up d" w] assms(1)
    by (simp add: mwifiex_11n_create_rx_reorder_tbl_def Some idx_def ba_step_rx)
next
  case None
  obtain ok w1 where a1: "kzalloc d w = (ok, w1)" by fastforce
  obtain ok' w2 where a2: "kzalloc d w1 = (ok', w2)" by fastforce
  have seen: "runs_to d [] w w1" "runs_to d [] w w2"
    using allocates [OF begins, of d w] allocates [OF allocates [OF begins], of d w] a1 a2 by simp_all
  obtain q where q: "last_rx_seq d priv a t = Some q" "q = MWIFIEX_DEF_11N_RX_SEQ_NUM \<or> uint q < 4096"
    using last_rx_seq_ok [OF assms(1,2,3)] by blast
  define shift where "shift \<longleftrightarrow> q \<noteq> MWIFIEX_DEF_11N_RX_SEQ_NUM \<and> uint q \<ge> ssn"
  define n where "n = \<lparr>tid = t, ta = a, init_win = ssn, start_win = (if shift then uint q + 1 else ssn),
    win_size = win, rx_reorder_ptr = replicate (nat win) None, timer_is_set = False, timer_ms = 0,
    amsdu = False, tbl_flags = (if shift then RXREOR_INIT_WINDOW_SHIFT else 0)\<rparr>"
  let ?p = "priv\<lparr>rx_tbls := rx_tbls priv @ [n]\<rparr>"
  have new: "tbl_ok n" "rx_key n = (a, t)" "tbl_packets n = {#}"
    using assms q(2) by (auto simp: n_def tbl_ok_def rx_key_def tbl_packets_def shift_def)
  have "distinct (map rx_key (rx_tbls priv @ [n]))"
    using None ba_inv_sound [OF assms(1)] new(2)
    by (intro rx.keys_added) (simp_all add: rx_sound_def mwifiex_11n_get_rx_reorder_tbl_def)
  then have "rx_sound ?p"
    using new(1) ba_inv_sound [OF assms(1)] by (auto simp: rx_sound_def)
  moreover have "waiting ?p = waiting priv"
    using new(3) by (simp add: waiting_def)
  ultimately have added: "ba_step d [] (priv, w) (?p, w2)"
    using ba_inv_rx [OF assms(1), of ?p] seen(2) by (auto simp: ba_step_def intro!: exI [of _ "[]"])
  have "ba_step d [] (priv, w) (priv, w1)" "ba_step d [] (priv, w) (priv, w2)"
    using assms(1) seen by (auto intro: ba_step_tx ba_step_refl)
  moreover have "mwifiex_11n_create_rx_reorder_tbl d a t win ssn priv w =
      (if \<not> ok then Some (priv, w1) else if \<not> ok' then Some (priv, w2) else Some (?p, w2))"
    by (simp add: mwifiex_11n_create_rx_reorder_tbl_def None a1 a2 q(1) shift_def [symmetric] n_def)
  ultimately show ?thesis
    using added by auto
qed

lemma win_mask: "IEEE80211_ADDBA_PARAM_BUF_SIZE_MASK = NOT (mask 6)"
  by (simp add: IEEE80211_ADDBA_PARAM_BUF_SIZE_MASK_def mask_eq_exp_minus_1)

lemma rsp_param_win:
  assumes "unat win < 1024"
  shows "unat (param_win (rsp_param b win p)) = unat win"
proof -
  have "win = take_bit 10 win"
    using assms by (simp add: word_unat_eq_iff unsigned_take_bit_eq take_bit_nat_eq_self)
  then have high: "bit win n \<Longrightarrow> n < 10" for n
    by (metis bit_take_bit_iff)
  have "param_win (rsp_param b win p) = ucast win"
    unfolding param_win_def rsp_param_def Let_def win_mask BLOCKACKPARAM_WINSIZE_POS_def
    using high by (intro bit_word_eqI) (auto simp: bit_simps dest: high)
  then show ?thesis
    using assms by (simp add: unsigned_ucast_eq unsigned_take_bit_eq take_bit_nat_eq_self)
qed

lemma tid_mask: "IEEE80211_ADDBA_PARAM_TID_MASK = push_bit 2 (mask 4)"
  by (simp add: IEEE80211_ADDBA_PARAM_TID_MASK_def mask_eq_exp_minus_1)

lemma rsp_param_tid: "param_tid (rsp_param b win p) = param_tid p"
  unfolding param_tid_def rsp_param_def Let_def win_mask tid_mask BLOCKACKPARAM_TID_POS_def
    BLOCKACKPARAM_WINSIZE_POS_def BLOCKACKPARAM_AMSDU_SUPP_MASK_def
  by (intro bit_word_eqI) (simp add: bit_simps, linarith)

text \<open>The response that is generated, and the table that is created for it.\<close>

lemma addba_rsp_gen_eq:
  assumes "16 \<le> length (params cmd)" and "14 \<le> length req" and "length (aggr_prio_tbl priv) = 8"
    and "uint (param_tid (ld16 (take 2 (drop 8 req)))) < 8"
    and "addba_rx_win d priv (take 6 (drop 1 req)) = Some rx_win"
  shows "\<exists>rsp req' b. let q = rsp_param b rx_win (ld16 (take 2 (drop 8 req)));
      ssn = ld16 (take 2 (drop 12 req)) in
    mwifiex_cmd_11n_addba_rsp_gen d cmd req priv w = do {
      (priv, w) \<leftarrow> mwifiex_11n_create_rx_reorder_tbl d (take 6 (drop 1 req))
        (uint (param_tid (ld16 (take 2 (drop 8 req))))) (uint (param_win q)) (uint ssn) priv w;
      Some (0, cmd\<lparr>command := HostCmd_CMD_11N_ADDBA_RSP,
        cmd_size := of_nat (sizeof addba_rsp_fields) + S_DS_GEN, params := rsp\<rparr>, req', priv, w) } \<and>
    load rsp 1 6 = Some (take 6 (drop 1 req)) \<and> get16 rsp 8 = Some ADDBA_RSP_STATUS_ACCEPT \<and>
    get16 rsp 10 = Some q \<and> get16 rsp 14 = Some ssn"
proof -
  let ?peer = "take 6 (drop 1 req)" and ?param = "ld16 (take 2 (drop 8 req))"
  define no_amsdu where "no_amsdu \<longleftrightarrow> \<not> rx_amsdu (add_ba_param priv) \<or>
    amsdu_prio (aggr_prio_tbl priv ! unat (param_tid ?param)) = BA_STREAM_NOT_ALLOWED"
  have t: "unat (param_tid ?param) < length (aggr_prio_tbl priv)"
    using assms(3,4) by (simp add: uint_less_unat)
  have am: "(if \<not> rx_amsdu (add_ba_param priv) then Some True
      else map_option (\<lambda>p. amsdu_prio p = BA_STREAM_NOT_ALLOWED)
        (idx (aggr_prio_tbl priv) (unat (param_tid ?param)))) = Some no_amsdu"
    using t by (simp add: no_amsdu_def idx_def)
  define q where "q = rsp_param no_amsdu rx_win ?param"
  obtain r1 where r1: "store (params cmd) 1 ?peer = Some r1" "length r1 = length (params cmd)"
    using assms(1,2) store_defined [of 1 ?peer "params cmd"] by auto
  obtain r2 where r2: "store r1 7 (take 1 (drop 7 req)) = Some r2" "length r2 = length r1"
    using assms(1,2) r1(2) store_defined [of 7 "take 1 (drop 7 req)" r1] by auto
  obtain r3 where r3: "put16 r2 12 (ld16 (take 2 (drop 10 req))) = Some r3" "length r3 = length r2"
    using assms(1) r1(2) r2(2) put16_defined [of 12 r2] by auto
  obtain r4 where r4: "put16 r3 14 (ld16 (take 2 (drop 12 req))) = Some r4" "length r4 = length r3"
    using assms(1) r1(2) r2(2) r3(2) put16_defined [of 14 r3] by auto
  obtain r5 where r5: "put16 r4 8 ADDBA_RSP_STATUS_ACCEPT = Some r5" "length r5 = length r4"
    using assms(1) r1(2) r2(2) r3(2) r4(2) put16_defined [of 8 r4] by auto
  obtain r6 where r6: "put16 r5 10 q = Some r6"
    using assms(1) r1(2) r2(2) r3(2) r4(2) r5(2) put16_defined [of 10 r5] by auto
  obtain q6 where q6: "put16 req 8 q = Some q6"
    using assms(2) put16_defined [of 8 req] by auto
  have loads: "load req 1 6 = Some ?peer" "load req 7 1 = Some (take 1 (drop 7 req))"
    "get16 req 10 = Some (ld16 (take 2 (drop 10 req)))" "get16 req 12 = Some (ld16 (take 2 (drop 12 req)))"
    "get16 req 8 = Some ?param"
    using assms(2) by (simp_all add: mem_simps)
  have gen: "mwifiex_cmd_11n_addba_rsp_gen d cmd req priv w = do {
      (priv, w) \<leftarrow> mwifiex_11n_create_rx_reorder_tbl d ?peer (uint (param_tid ?param))
        (uint (param_win q)) (uint (ld16 (take 2 (drop 12 req)))) priv w;
      Some (0, cmd\<lparr>command := HostCmd_CMD_11N_ADDBA_RSP,
        cmd_size := of_nat (sizeof addba_rsp_fields) + S_DS_GEN, params := r6\<rparr>, q6, priv, w) }"
    unfolding mwifiex_cmd_11n_addba_rsp_gen_def loads Option.bind.bind_lunit assms(5) option.case
    using r1(1) r2(1) r3(1) r4(1) r5(1) r6 q6 am by (simp add: q_def)
  have "load r6 1 6 = load r1 1 6"
    using load_put16_other [OF r6, of 1 6] load_put16_other [OF r5(1), of 1 6]
      load_put16_other [OF r4(1), of 1 6] load_put16_other [OF r3(1), of 1 6]
      load_store_disjoint [OF r2(1), of 1 6] by simp
  then have "load r6 1 6 = Some ?peer"
    using load_store_same [OF r1(1)] assms(2) by simp
  moreover have "get16 r6 8 = Some ADDBA_RSP_STATUS_ACCEPT" "get16 r6 10 = Some q"
      "get16 r6 14 = Some (ld16 (take 2 (drop 12 req)))"
    using get16_put16 [OF r5(1)] get16_put16 [OF r6] get16_put16 [OF r4(1)]
      get16_put16_other [OF r6, of 8] get16_put16_other [OF r6, of 14] get16_put16_other [OF r5(1), of 14]
    by simp_all
  ultimately show ?thesis
    using gen unfolding q_def Let_def by blast
qed

lemma addba_rsp_gen_step:
  assumes "ba_inv priv" and "16 \<le> length (params cmd)" and "14 \<le> length req"
    and "uint (param_tid (ld16 (take 2 (drop 8 req)))) < 8" and "uint (ld16 (take 2 (drop 12 req))) < 4096"
  shows "\<exists>ret cmd' req' priv' w'. mwifiex_cmd_11n_addba_rsp_gen d cmd req priv w = Some (ret, cmd', req', priv', w') \<and>
    ba_step d [] (priv, w) (priv', w')"
proof (cases "addba_rx_win d priv (take 6 (drop 1 req))")
  case None
  then have "mwifiex_cmd_11n_addba_rsp_gen d cmd req priv w = Some (-1, cmd, req, priv, w)"
    using assms(3) by (simp add: mwifiex_cmd_11n_addba_rsp_gen_def mem_simps)
  then show ?thesis
    using assms(1) by (auto intro: ba_step_refl)
next
  case (Some rx_win)
  let ?peer = "take 6 (drop 1 req)" and ?param = "ld16 (take 2 (drop 8 req))"
  let ?ssn = "ld16 (take 2 (drop 12 req))"
  have rx_win: "2 \<le> unat rx_win" "unat rx_win < 1024"
    using Some assms(1) by (auto simp: addba_rx_win_def ba_inv_def MWIFIEX_11AC_STA_AMPDU_DEF_RXWINSIZE_def
        split: if_splits option.splits)
  have len: "length (aggr_prio_tbl priv) = 8"
    using assms(1) by (simp add: ba_inv_def MAX_NUM_TID_def)
  obtain rsp req' b where gen: "mwifiex_cmd_11n_addba_rsp_gen d cmd req priv w = do {
      (priv, w) \<leftarrow> mwifiex_11n_create_rx_reorder_tbl d ?peer (uint (param_tid ?param))
        (uint (param_win (rsp_param b rx_win ?param))) (uint ?ssn) priv w;
      Some (0, cmd\<lparr>command := HostCmd_CMD_11N_ADDBA_RSP,
        cmd_size := of_nat (sizeof addba_rsp_fields) + S_DS_GEN, params := rsp\<rparr>, req', priv, w) }"
    using addba_rsp_gen_eq [OF assms(2,3) len assms(4) Some, of w] unfolding Let_def by blast
  let ?win = "param_win (rsp_param b rx_win ?param)"
  have "\<not> uint ?win < 2" "uint ?win < 1024"
    using rx_win by (simp_all only: uint_less_unat rsp_param_win not_less)
  then have win: "2 \<le> uint ?win" "uint ?win \<le> 2048"
    by simp_all
  obtain priv' w' where "mwifiex_11n_create_rx_reorder_tbl d ?peer (uint (param_tid ?param))
      (uint ?win) (uint ?ssn) priv w = Some (priv', w')" "ba_step d [] (priv, w) (priv', w')"
    using create_step [OF assms(1) uint_ge_0 assms(4) win uint_ge_0 assms(5), of d ?peer w]
    by (elim exE conjE)
  then show ?thesis
    unfolding gen by simp
qed

lemma addba_resp_step:
  assumes "ba_inv priv" and "16 \<le> length (params resp)"
    and "uint (param_tid (ld16 (take 2 (drop 10 (params resp))))) < 8"
  shows "\<exists>priv' w'. mwifiex_ret_11n_addba_resp d resp priv w = Some (priv', w') \<and>
    ba_step d [] (priv, w) (priv', w')"
proof -
  let ?peer = "take 6 (drop 1 (params resp))" and ?param = "ld16 (take 2 (drop 10 (params resp)))"
  have loads: "load (params resp) 1 6 = Some ?peer" "get16 (params resp) 10 = Some ?param"
    "get16 (params resp) 8 = Some (ld16 (take 2 (drop 8 (params resp))))"
    using assms(2) by (simp_all add: mem_simps)
  have t: "unat (param_tid ?param) < length (aggr_prio_tbl priv)"
    using assms(1,3) by (simp add: ba_inv_def MAX_NUM_TID_def uint_less_unat)
  show ?thesis
  proof (cases "mwifiex_11n_get_rx_reorder_tbl priv (uint (param_tid ?param)) ?peer")
    case None
    then have "mwifiex_ret_11n_addba_resp d resp priv w = Some (priv, w)"
      unfolding mwifiex_ret_11n_addba_resp_def loads Option.bind.bind_lunit
      by (simp add: Let_def mwifiex_del_rx_reorder_entry_def)
    then show ?thesis
      using assms(1) by (auto intro: ba_step_tx ba_step_refl)
  next
    case (Some i)
    note i = rx_lookup [OF Some]
    have step: "ba_step d [] (priv, w) (set_tbl priv i ((rx_tbls priv ! i)\<lparr>amsdu := am\<rparr>), w)" for am
    proof -
      have "rx_step d [] (priv, w)
          (set_tbl priv i ((rx_tbls priv ! i)\<lparr>amsdu := am\<rparr>), fold (deliver (up d)) [] w)"
        using i rx_soundD [OF ba_inv_sound [OF assms(1)]] ba_inv_sound [OF assms(1)]
        by (intro rx_step_tbl) (auto simp: tbl_ok_def rx_key_def tbl_packets_def)
      then show ?thesis
        using assms(1) by (intro ba_step_rx) simp_all
    qed
    have nl: "\<not> rx_locked priv"
      using assms(1) by (simp add: ba_inv_def)
    obtain w1 where del: "mwifiex_del_rx_reorder_entry d (Some i) priv w =
        Some (priv\<lparr>rx_tbls := remove_at i (rx_tbls priv)\<rparr>, w1)"
      "rx_step d [] (priv, w) (priv\<lparr>rx_tbls := remove_at i (rx_tbls priv)\<rparr>, w1)"
      using del_entry_step [OF ba_inv_sound [OF assms(1)] conjunct1 [OF i] nl, of d w]
      by (elim exE conjE)
    have "ba_step d [] (priv, w) (priv\<lparr>rx_tbls := remove_at i (rx_tbls priv)\<rparr>, w1)"
      using ba_step_rx [OF _ del(2)] assms(1) by simp
    then show ?thesis
      unfolding mwifiex_ret_11n_addba_resp_def loads Option.bind.bind_lunit
      using Some i t step del(1)
      by (auto simp: Let_def idx_def split: if_splits)
  qed
qed

section \<open>Ending a session\<close>

lemma set_ra_inv:
  assumes "ba_inv priv"
  shows "ba_inv (set_ra_session priv t r st am)" "rx_tbls (set_ra_session priv t r st am) = rx_tbls priv"
    "tx_tbls (set_ra_session priv t r st am) = tx_tbls priv"
    "aggr_prio_tbl (set_ra_session priv t r st am) = aggr_prio_tbl priv"
  using assms by (auto simp: set_ra_session_def ba_inv_def rx_sound_def Let_def split: option.splits)

lemma ralist_defined:
  assumes "ba_inv priv"
  shows "\<exists>r. mwifiex_wmm_get_ralist_node priv (mwifiex_wmm_downgrade_tid priv' t) a = Some r"
  using assms downgrade_tid_less [of priv' t]
  by (simp add: mwifiex_wmm_get_ralist_node_def idx_def ba_inv_def)

lemma tx_lookup:
  "mwifiex_get_ba_tbl priv t a = Some i \<Longrightarrow> i < length (tx_tbls priv) \<and> tx_key (tx_tbls priv ! i) = (a, t)"
  unfolding mwifiex_get_ba_tbl_def by (rule tx.lookup_key)

lemma del_stream_entry:
  assumes "ba_inv priv" and "i < length (tx_tbls priv)"
  shows "mwifiex_11n_delete_tx_ba_stream_tbl_entry priv (Some i) =
      Some (priv\<lparr>tx_tbls := remove_at i (tx_tbls priv)\<rparr>)"
    and "ba_inv (priv\<lparr>tx_tbls := remove_at i (tx_tbls priv)\<rparr>)"
  using assms set_remove_at [of i "tx_tbls priv"] tx.keys_removed [of "tx_tbls priv" i]
  by (auto simp: mwifiex_11n_delete_tx_ba_stream_tbl_entry_def idx_def ba_inv_def rx_sound_def)

lemma del_ba_step:
  assumes "ba_inv priv"
  shows "\<exists>priv' w'. mwifiex_del_ba_tbl d t a ty ini priv w = Some (priv', w') \<and>
    ba_step d [] (priv, w) (priv', w')"
proof -
  have stay: "ba_step d [] (priv, w) (priv, w)"
    using assms(1) by (auto intro: ba_step_tx ba_step_refl)
  have rx: "\<exists>priv' w'. mwifiex_del_rx_reorder_entry d (Some i) priv w = Some (priv', w') \<and>
      ba_step d [] (priv, w) (priv', w')"
    if "mwifiex_11n_get_rx_reorder_tbl priv t a = Some i" for i
    using del_entry_step [OF ba_inv_sound [OF assms(1)] conjunct1 [OF rx_lookup [OF that]], of d w]
      assms(1) ba_step_rx by (fastforce simp: ba_inv_def)
  have tx: "\<exists>priv' w'. (do {
        ra_list \<leftarrow> mwifiex_wmm_get_ralist_node priv (mwifiex_wmm_downgrade_tid priv (of_int t)) a;
        let priv = set_ra_session priv (mwifiex_wmm_downgrade_tid priv (of_int t)) ra_list BA_SETUP_NONE False;
        priv \<leftarrow> mwifiex_11n_delete_tx_ba_stream_tbl_entry priv (Some i);
        Some (priv, w) }) = Some (priv', w') \<and> ba_step d [] (priv, w) (priv', w')"
    if "mwifiex_get_ba_tbl priv t a = Some i" for i
  proof -
    obtain r where r: "mwifiex_wmm_get_ralist_node priv (mwifiex_wmm_downgrade_tid priv (of_int t)) a = Some r"
      using ralist_defined [OF assms(1)] by blast
    let ?p = "set_ra_session priv (mwifiex_wmm_downgrade_tid priv (of_int t)) r BA_SETUP_NONE False"
    note p = set_ra_inv [OF assms(1), of "mwifiex_wmm_downgrade_tid priv (of_int t)" r BA_SETUP_NONE False]
    have i: "i < length (tx_tbls ?p)"
      using tx_lookup [OF that] p(3) by simp
    show ?thesis
      using del_stream_entry [OF p(1) i] p(2) by (auto simp: r Let_def intro!: ba_step_tx)
  qed
  show ?thesis
    unfolding mwifiex_del_ba_tbl_def
    using stay rx tx by (auto simp: Let_def split: option.splits)
qed

lemma delete_ba_stream_step:
  assumes "ba_inv priv" and "9 \<le> length del_ba"
  shows "\<exists>priv' w'. mwifiex_11n_delete_ba_stream d del_ba priv w = Some (priv', w') \<and>
    ba_step d [] (priv, w) (priv', w')"
  using del_ba_step [OF assms(1)] assms(2)
  by (simp add: mwifiex_11n_delete_ba_stream_def mem_simps Let_def)

section \<open>Responses\<close>

lemma send_addba_step:
  assumes "ba_inv priv" and "0 \<le> t" "t < 8"
  shows "\<exists>ret priv' w'. mwifiex_send_addba d t a priv w = Some (ret, priv', w') \<and>
    ba_step d [] (priv, w) (priv', w')"
proof -
  have t: "nat t < length (aggr_prio_tbl priv)"
    using assms by (simp add: ba_inv_def MAX_NUM_TID_def)
  have inv: "ba_inv (priv\<lparr>dialog_tok := k\<rparr>)" for k
    using assms(1) by (simp add: ba_inv_def rx_sound_def)
  have seen: "runs_to d [] w (snd (mwifiex_send_cmd d c x b w))" for c x b
    by (rule sends [OF begins])
  have "ba_step d [] (priv, w) (priv, w)"
    using assms(1) by (auto intro: ba_step_tx ba_step_refl)
  then show ?thesis
    using t seen inv
    by (auto simp: mwifiex_send_addba_def Let_def idx_def case_prod_beta intro!: ba_step_tx
        split: option.splits)
qed

lemma create_ba_step:
  assumes "ba_inv priv" and "0 \<le> t" "t < 8"
  shows "\<exists>priv' w'. mwifiex_create_ba_tbl d a t st priv w = Some (priv', w') \<and>
    ba_step d [] (priv, w) (priv', w')"
proof -
  let ?down = "mwifiex_wmm_downgrade_tid priv (of_int t)"
  obtain ok w1 where k: "kzalloc d w = (ok, w1)" by fastforce
  have seen: "runs_to d [] w w1"
    using allocates [OF begins, of d w] k by simp
  obtain r where r: "mwifiex_wmm_get_ralist_node priv ?down a = Some r"
    using ralist_defined [OF assms(1)] by blast
  define p1 where "p1 = set_ra_session priv ?down r st False"
  note p1 = set_ra_inv [OF assms(1), of ?down r st False, folded p1_def]
  let ?n = "\<lparr>tx_tid = t, tx_ra = a, ba_status = st, tx_tbl_amsdu = False\<rparr>"
  have "ba_inv (p1\<lparr>tx_tbls := tx_tbls p1 @ [?n]\<rparr>)" if "mwifiex_get_ba_tbl priv t a = None"
  proof -
    have "distinct (map tx_key (tx_tbls p1 @ [?n]))"
      using p1(1) that
      by (intro tx.keys_added) (simp_all add: ba_inv_def mwifiex_get_ba_tbl_def tx_key_def p1(3))
    then show ?thesis
      using p1(1) assms(2,3) by (auto simp: ba_inv_def rx_sound_def)
  qed
  then have new: "ba_step d [] (priv, w) (p1\<lparr>tx_tbls := tx_tbls p1 @ [?n]\<rparr>, w1)"
    if "mwifiex_get_ba_tbl priv t a = None"
    using that p1(2) seen by (intro ba_step_tx) simp_all
  have stay: "ba_step d [] (priv, w) (priv, w)" "ba_step d [] (priv, w) (priv, w1)"
    using assms(1) seen by (auto intro: ba_step_tx ba_step_refl)
  show ?thesis
  proof (cases "mwifiex_get_ba_tbl priv t a")
    case None
    then show ?thesis
      using new stay by (auto simp: mwifiex_create_ba_tbl_def k r p1_def Let_def)
  next
    case (Some i)
    then show ?thesis
      using stay by (simp add: mwifiex_create_ba_tbl_def)
  qed
qed

lemma ba_status_tid:
  assumes "ba_inv priv" and "mwifiex_get_ba_status priv st = Some i"
  shows "i < length (tx_tbls priv)" "0 \<le> tx_tid (tx_tbls priv ! i)" "tx_tid (tx_tbls priv ! i) < 8"
  using assms by (auto simp: mwifiex_get_ba_status_def first_index_Some ba_inv_def)

lemma ret_delba_step:
  assumes "ba_inv priv" and "9 \<le> length (params resp)"
    and "uint (drop_bit DELBA_TID_POS (ld16 (take 2 (drop 7 (params resp))))) < 8"
  shows "\<exists>priv' w'. mwifiex_ret_11n_delba d resp priv w = Some (priv', w') \<and>
    ba_step d [] (priv, w) (priv', w')"
proof -
  let ?peer = "take 6 (drop 1 (params resp))" and ?param = "ld16 (take 2 (drop 7 (params resp)))"
  define t where "t = uint (drop_bit DELBA_TID_POS ?param)"
  have t: "0 \<le> t" "t < 8"
    using assms(3) by (simp_all add: t_def)
  have loads: "idx (params resp) 0 = Some (params resp ! 0)" "load (params resp) 1 6 = Some ?peer"
    "get16 (params resp) 7 = Some ?param"
    using assms(2) by (auto simp: mem_simps idx_def)
  have answer: "\<exists>priv' w'. (case mwifiex_get_ba_status p1 BA_SETUP_INPROGRESS of
        None \<Rightarrow> Some (p1, w1)
      | Some i \<Rightarrow> do {
          e \<leftarrow> idx (tx_tbls p1) i;
          (_, priv, w) \<leftarrow> mwifiex_send_addba d (tx_tid e) (tx_ra e) p1 w1;
          Some (priv, w) }) = Some (priv', w') \<and> ba_step d [] (priv, w) (priv', w')"
    if "ba_step d [] (priv, w) (p1, w1)" for p1 w1
  proof (cases "mwifiex_get_ba_status p1 BA_SETUP_INPROGRESS")
    case (Some i)
    have inv: "ba_inv p1" using that by (simp add: ba_step_def)
    note i = ba_status_tid [OF inv Some]
    obtain ret p2 w2 where "mwifiex_send_addba d (tx_tid (tx_tbls p1 ! i)) (tx_ra (tx_tbls p1 ! i)) p1 w1 =
        Some (ret, p2, w2)" "ba_step d [] (p1, w1) (p2, w2)"
      using send_addba_step [OF inv i(2,3), of d _ w1] by blast
    then show ?thesis
      using i(1) Some ba_step_trans [OF that, of "[]" "(p2, w2)"] by (simp add: idx_def)
  qed (use that in simp)
  have cancel: "\<exists>priv' w'. (case mwifiex_get_ba_status p1 BA_SETUP_INPROGRESS of
        None \<Rightarrow> Some (p1, w1)
      | Some i \<Rightarrow> do {
          e \<leftarrow> idx (tx_tbls p1) i;
          mwifiex_del_ba_tbl d (tx_tid e) (tx_ra e) TYPE_DELBA_SENT 1 p1 w1 }) = Some (priv', w') \<and>
      ba_step d [] (priv, w) (priv', w')"
    if "ba_step d [] (priv, w) (p1, w1)" for p1 w1
  proof (cases "mwifiex_get_ba_status p1 BA_SETUP_INPROGRESS")
    case (Some i)
    have inv: "ba_inv p1" using that by (simp add: ba_step_def)
    note i = ba_status_tid [OF inv Some]
    obtain p2 w2 where "mwifiex_del_ba_tbl d (tx_tid (tx_tbls p1 ! i)) (tx_ra (tx_tbls p1 ! i))
        TYPE_DELBA_SENT 1 p1 w1 = Some (p2, w2)" "ba_step d [] (p1, w1) (p2, w2)"
      using del_ba_step [OF inv, of d _ _ _ _ w1] by blast
    then show ?thesis
      using i(1) Some ba_step_trans [OF that, of "[]" "(p2, w2)"] by (simp add: idx_def)
  qed (use that in simp)
  obtain p1 w1 where del: "mwifiex_del_ba_tbl d t ?peer TYPE_DELBA_SENT (uint (INITIATOR_BIT ?param)) priv w =
      Some (p1, w1)" "ba_step d [] (priv, w) (p1, w1)"
    using del_ba_step [OF assms(1), of d t ?peer TYPE_DELBA_SENT "uint (INITIATOR_BIT ?param)" w]
    by (elim exE conjE)
  obtain p2 w2 where create: "mwifiex_create_ba_tbl d ?peer t BA_SETUP_INPROGRESS priv w = Some (p2, w2)"
      "ba_step d [] (priv, w) (p2, w2)"
    using create_ba_step [OF assms(1) t, of d ?peer BA_SETUP_INPROGRESS w] by (elim exE conjE)
  have stay: "ba_step d [] (priv, w) (priv, w)"
    using assms(1) by (auto intro: ba_step_tx ba_step_refl)
  show ?thesis
    unfolding mwifiex_ret_11n_delba_def loads Option.bind.bind_lunit Let_def t_def [symmetric]
    using answer [OF del(2)] cancel [OF create(2)] stay
    by (simp only: del(1) create(1) Option.bind.bind_lunit prod.case simp_thms split: if_split) blast
qed

lemma ret_addba_req_step:
  assumes "ba_inv priv" and "16 \<le> length (params resp)"
    and "uint (param_tid (ld16 (take 2 (drop 10 (params resp))))) < 8"
  shows "\<exists>resp' priv' w'. mwifiex_ret_11n_addba_req d resp priv w = Some (resp', priv', w') \<and>
    ba_step d [] (priv, w) (priv', w')"
proof -
  let ?param = "ld16 (take 2 (drop 10 (params resp)))"
  define t where "t = uint (param_tid ?param)"
  have t: "0 \<le> t" "t < 8" using assms(3) by (simp_all add: t_def)
  obtain ps where ps: "put16 (params resp) 14 (ld16 (take 2 (drop 14 (params resp))) AND SSN_MASK) = Some ps"
    "length ps = length (params resp)"
    using assms(2) put16_defined [of 14 "params resp"] by auto
  let ?peer = "take 6 (drop 1 ps)" and ?down = "mwifiex_wmm_downgrade_tid priv (of_int t)"
  have loads: "get16 (params resp) 10 = Some ?param"
    "get16 (params resp) 14 = Some (ld16 (take 2 (drop 14 (params resp))))"
    "load ps 1 6 = Some ?peer" "get16 ps 8 = Some (ld16 (take 2 (drop 8 ps)))" "idx ps 0 = Some (ps ! 0)"
    using assms(2) ps(2) by (auto simp: mem_simps idx_def)
  obtain r where r: "mwifiex_wmm_get_ralist_node priv ?down ?peer = Some r"
    using ralist_defined [OF assms(1)] by blast
  define p0 where "p0 = set_ra_session priv ?down r BA_SETUP_NONE False"
  note p0 = set_ra_inv [OF assms(1), of ?down r BA_SETUP_NONE False, folded p0_def]
  have s0: "ba_step d [] (priv, w) (p0, w)"
    using p0 by (intro ba_step_tx) simp_all
  obtain p1 w1 where del: "mwifiex_del_ba_tbl d t ?peer TYPE_DELBA_SENT 1 p0 w = Some (p1, w1)"
      "ba_step d [] (p0, w) (p1, w1)"
    using del_ba_step [OF p0(1), of d t ?peer TYPE_DELBA_SENT 1 w] by (elim exE conjE)
  have s1: "ba_step d [] (priv, w) (p1, w1)"
    using ba_step_trans [OF s0 del(2)] by simp
  have tid: "nat t < length (aggr_prio_tbl p)" if "ba_inv p" for p
    using that t by (simp add: ba_inv_def MAX_NUM_TID_def)
  have inv1: "ba_inv p1" using s1 by (simp add: ba_step_def)
  have "ba_inv (p1\<lparr>aggr_prio_tbl := (aggr_prio_tbl p1)[nat t := x]\<rparr>)" for x
    using inv1 by (simp add: ba_inv_def rx_sound_def)
  then have s2: "ba_step d [] (priv, w) (p1\<lparr>aggr_prio_tbl := (aggr_prio_tbl p1)[nat t := x]\<rparr>, w1)" for x
    using s1 by (simp add: ba_step_def waiting_def)
  have refused: "\<exists>priv' w'. (do {
        (priv, w) \<leftarrow> mwifiex_del_ba_tbl d t ?peer TYPE_DELBA_SENT 1 p0 w;
        if b then do {
          p \<leftarrow> idx (aggr_prio_tbl priv) (nat t);
          Some (resp\<lparr>params := ps\<rparr>, priv\<lparr>aggr_prio_tbl :=
            (aggr_prio_tbl priv)[nat t := p\<lparr>ampdu_ap := BA_STREAM_NOT_ALLOWED\<rparr>]\<rparr>, w)
        } else Some (resp\<lparr>params := ps\<rparr>, priv, w) }) = Some (resp\<lparr>params := ps\<rparr>, priv', w') \<and>
      ba_step d [] (priv, w) (priv', w')" for b
    unfolding del(1) Option.bind.bind_lunit prod.case using tid [OF inv1] s1 s2 by (simp add: idx_def)
  have accepted: "\<exists>priv' w'. (case mwifiex_get_ba_tbl priv t ?peer of
          None \<Rightarrow> Some (resp\<lparr>params := ps\<rparr>, priv, w)
        | Some i \<Rightarrow> do {
            e \<leftarrow> idx (tx_tbls priv) i;
            am \<leftarrow> (if ?param AND BLOCKACKPARAM_AMSDU_SUPP_MASK \<noteq> 0 \<and> tx_amsdu (add_ba_param priv)
                   then map_option (\<lambda>p. amsdu_prio p \<noteq> BA_STREAM_NOT_ALLOWED)
                     (idx (aggr_prio_tbl priv) (nat t))
                   else Some False);
            let priv = priv\<lparr>tx_tbls := (tx_tbls priv)[i := e\<lparr>ba_status := BA_SETUP_COMPLETE,
              tx_tbl_amsdu := am\<rparr>]\<rparr>;
            Some (resp\<lparr>params := ps\<rparr>, set_ra_session priv ?down r BA_SETUP_COMPLETE am, w)
          }) = Some (resp\<lparr>params := ps\<rparr>, priv', w') \<and> ba_step d [] (priv, w) (priv', w')"
  proof (cases "mwifiex_get_ba_tbl priv t ?peer")
    case None
    then show ?thesis
      using assms(1) by (auto intro: ba_step_tx ba_step_refl)
  next
    case (Some i)
    note i = tx_lookup [OF Some]
    define e where "e = tx_tbls priv ! i"
    define am where "am \<longleftrightarrow> ?param AND BLOCKACKPARAM_AMSDU_SUPP_MASK \<noteq> 0 \<and> tx_amsdu (add_ba_param priv) \<and>
      amsdu_prio (aggr_prio_tbl priv ! nat t) \<noteq> BA_STREAM_NOT_ALLOWED"
    let ?e = "e\<lparr>ba_status := BA_SETUP_COMPLETE, tx_tbl_amsdu := am\<rparr>"
    define p2 where "p2 = priv\<lparr>tx_tbls := (tx_tbls priv)[i := ?e]\<rparr>"
    have "map tx_key ((tx_tbls priv)[i := ?e]) = map tx_key (tx_tbls priv)"
      using i by (intro tx.keys_update) (simp_all add: tx_key_def e_def)
    moreover have "\<forall>x \<in> set ((tx_tbls priv)[i := ?e]). 0 \<le> tx_tid x \<and> tx_tid x < 8"
      using assms(1) i set_update_subset_insert [of "tx_tbls priv" i ?e]
      by (auto simp: ba_inv_def e_def dest!: subsetD)
    ultimately have "ba_inv p2"
      using assms(1) by (simp add: p2_def ba_inv_def rx_sound_def)
    note p2 = set_ra_inv [OF this, of ?down r BA_SETUP_COMPLETE am]
    have "ba_step d [] (priv, w) (set_ra_session p2 ?down r BA_SETUP_COMPLETE am, w)"
      using p2 by (intro ba_step_tx) (simp_all add: p2_def)
    then show ?thesis
      using Some i tid [OF assms(1)] by (auto simp: idx_def Let_def am_def p2_def e_def)
  qed
  have new_params: "params (resp\<lparr>params := ps\<rparr>) = ps"
    by simp
  show ?thesis
    unfolding mwifiex_ret_11n_addba_req_def loads ps(1) Option.bind.bind_lunit Let_def t_def [symmetric]
      new_params r p0_def [symmetric]
    using refused [of "ps ! 0 \<noteq> BA_RESULT_TIMEOUT"] accepted [unfolded Let_def]
    by (cases "ld16 (take 2 (drop 8 ps)) = BA_RESULT_SUCCESS")
      (simp_all only: simp_thms if_True if_False, blast+)
qed

section \<open>Runs\<close>

text \<open>
  What can happen to an interface. The timer of a table that is gone has been stopped; a
  response or an event carries the bytes the firmware sent.
\<close>

datatype ba_event =
    Received u16 u16 "byte list" u8 "byte list option"
  | Timer nat
  | Session_Request host_cmd "byte list"
  | Session_Confirmed host_cmd
  | Session_Answered host_cmd
  | Session_Ended "byte list"
  | End_Confirmed host_cmd
  | Station_Gone "byte list"
  | Cleaned_Up

text \<open>One event; the answer starts with the packets that the tables or the layers above took.\<close>

fun ba_handle ::
  "'w driver \<Rightarrow> ba_event \<Rightarrow> ba_priv \<Rightarrow> 'w \<Rightarrow> (byte list list \<times> ba_priv \<times> 'w) option" where
  "ba_handle d (Received seq t a ty p) priv w = do {
     (ret, priv, w) \<leftarrow> mwifiex_11n_rx_reorder_pkt d seq t a ty p priv w;
     Some (if ret = 0 \<and> ty \<noteq> PKT_TYPE_BAR then packets [p] else [], priv, w)
   }"
| "ba_handle d (Timer i) priv w =
     (if i < length (rx_tbls priv) then map_option (Pair []) (flush_timer_fires d i priv w)
      else Some ([], priv, w))"
| "ba_handle d (Session_Request cmd req) priv w =
     map_option (\<lambda>(_, _, _, priv, w). ([], priv, w)) (mwifiex_cmd_11n_addba_rsp_gen d cmd req priv w)"
| "ba_handle d (Session_Confirmed resp) priv w = map_option (Pair []) (mwifiex_ret_11n_addba_resp d resp priv w)"
| "ba_handle d (Session_Answered resp) priv w =
     map_option (\<lambda>(_, priv, w). ([], priv, w)) (mwifiex_ret_11n_addba_req d resp priv w)"
| "ba_handle d (Session_Ended del_ba) priv w =
     map_option (Pair []) (mwifiex_11n_delete_ba_stream d del_ba priv w)"
| "ba_handle d (End_Confirmed resp) priv w = map_option (Pair []) (mwifiex_ret_11n_delba d resp priv w)"
| "ba_handle d (Station_Gone a) priv w =
     map_option (Pair []) (mwifiex_11n_del_rx_reorder_tbl_by_ta d (Some a) priv w)"
| "ba_handle d Cleaned_Up priv w = map_option (Pair []) (mwifiex_11n_cleanup_reorder_tbl d priv w)"

fun ba_run ::
  "'w driver \<Rightarrow> ba_event list \<Rightarrow> ba_priv \<Rightarrow> 'w \<Rightarrow> (byte list list \<times> ba_priv \<times> 'w) option" where
  "ba_run d [] priv w = Some ([], priv, w)"
| "ba_run d (e # es) priv w = do {
     (acc, priv, w) \<leftarrow> ba_handle d e priv w;
     (acc', priv, w) \<leftarrow> ba_run d es priv w;
     Some (acc @ acc', priv, w)
   }"

text \<open>
  What is asked of the events: sequence numbers of twelve bits, traffic identifiers below 8,
  and buffers that hold their structs.
\<close>

fun ba_event_ok :: "ba_event \<Rightarrow> bool" where
  "ba_event_ok (Received seq t a ty p) = (uint seq < 4096 \<and> (ty = PKT_TYPE_BAR \<longrightarrow> p = None))"
| "ba_event_ok (Session_Request cmd req) = (16 \<le> length (params cmd) \<and> 14 \<le> length req \<and>
     uint (param_tid (ld16 (take 2 (drop 8 req)))) < 8 \<and> uint (ld16 (take 2 (drop 12 req))) < 4096)"
| "ba_event_ok (Session_Confirmed resp) = (16 \<le> length (params resp) \<and>
     uint (param_tid (ld16 (take 2 (drop 10 (params resp))))) < 8)"
| "ba_event_ok (Session_Answered resp) = (16 \<le> length (params resp) \<and>
     uint (param_tid (ld16 (take 2 (drop 10 (params resp))))) < 8)"
| "ba_event_ok (Session_Ended del_ba) = (9 \<le> length del_ba)"
| "ba_event_ok (End_Confirmed resp) = (9 \<le> length (params resp) \<and>
     uint (drop_bit DELBA_TID_POS (ld16 (take 2 (drop 7 (params resp))))) < 8)"
| "ba_event_ok _ = True"

lemma handle_step:
  assumes "ba_inv priv" and "ba_event_ok e"
  shows "\<exists>acc priv' w'. ba_handle d e priv w = Some (acc, priv', w') \<and> ba_step d acc (priv, w) (priv', w')"
proof (cases e)
  case (Received seq t a ty p)
  then obtain ret acc priv' w' where r: "mwifiex_11n_rx_reorder_pkt d seq t a ty p priv w = Some (ret, priv', w')"
    "rx_step d acc (priv, w) (priv', w')"
    "ret = 0 \<longrightarrow> acc = (if ty = PKT_TYPE_BAR then [] else packets [p])" "ret \<noteq> 0 \<longrightarrow> acc = []"
    using rx_packet_step [OF ba_inv_sound [OF assms(1)], of seq ty p d t a w] assms(2) by auto
  have "acc = (if ret = 0 \<and> ty \<noteq> PKT_TYPE_BAR then packets [p] else [])"
    using r(3,4) by auto
  then show ?thesis
    using r(1) ba_step_rx [OF _ r(2)] assms(1) by (simp add: Received)
next
  case (Timer i)
  show ?thesis
  proof (cases "i < length (rx_tbls priv)")
    case True
    then show ?thesis
      using flush_timer_step [OF ba_inv_sound [OF assms(1)] True, of d w] ba_step_rx assms(1)
      by (fastforce simp: Timer)
  qed (use assms(1) in \<open>simp add: Timer ba_step_def\<close>)
next
  case (Session_Request cmd req)
  then obtain ret cmd' req' priv' w' where
    "mwifiex_cmd_11n_addba_rsp_gen d cmd req priv w = Some (ret, cmd', req', priv', w')"
    "ba_step d [] (priv, w) (priv', w')"
    using addba_rsp_gen_step [OF assms(1), of cmd req d w] assms(2) by auto
  then show ?thesis
    by (simp add: Session_Request)
next
  case (Session_Confirmed resp)
  then show ?thesis
    using addba_resp_step [OF assms(1), of resp d w] assms(2) by auto
next
  case (Session_Answered resp)
  then obtain resp' priv' w' where "mwifiex_ret_11n_addba_req d resp priv w = Some (resp', priv', w')"
    "ba_step d [] (priv, w) (priv', w')"
    using ret_addba_req_step [OF assms(1), of resp d w] assms(2) by auto
  then show ?thesis
    by (simp add: Session_Answered)
next
  case (Session_Ended del_ba)
  then show ?thesis
    using delete_ba_stream_step [OF assms(1), of del_ba d w] assms(2) by auto
next
  case (End_Confirmed resp)
  then show ?thesis
    using ret_delba_step [OF assms(1), of resp d w] assms(2) by auto
next
  case (Station_Gone a)
  then show ?thesis
    using by_ta_step [OF assms(1), of d a w] by auto
next
  case Cleaned_Up
  then show ?thesis
    using cleanup_step [OF assms(1), of d w] by auto
qed

section \<open>Properties\<close>

text \<open>C7: the block-ack machinery is sound. Whatever packets, timers, requests, responses, events and
  deletions an interface sees, in whatever order, no array is left, the invariant of its tables
  and streams holds, and the packets handed up and waiting at the end are those at the
  beginning and those taken in between: also tables that are deleted, moved or replaced lose
  no packet. The traffic identifiers of the events are below 8; a request has four bits for it, and the driver uses them as an
  index without a check.\<close>

theorem sessions_sound:
  assumes "ba_inv priv" and "\<forall>e \<in> set es. ba_event_ok e"
  shows "\<exists>acc priv' w'. ba_run d es priv w = Some (acc, priv', w') \<and> ba_inv priv' \<and>
    (\<exists>out. runs_to d out w w' \<and> mset out + waiting priv' = waiting priv + mset acc)"
proof -
  have "\<exists>acc priv' w'. ba_run d es priv w = Some (acc, priv', w') \<and> ba_step d acc (priv, w) (priv', w')"
    using assms(1,2)
  proof (induction es arbitrary: priv w)
    case Nil
    then show ?case by (simp add: ba_step_def)
  next
    case (Cons e es)
    obtain acc p1 w1 where one: "ba_handle d e priv w = Some (acc, p1, w1)" "ba_step d acc (priv, w) (p1, w1)"
      using handle_step [OF Cons.prems(1), of e d w] Cons.prems(2) by auto
    obtain acc' p2 w2 where rest: "ba_run d es p1 w1 = Some (acc', p2, w2)" "ba_step d acc' (p1, w1) (p2, w2)"
      using Cons.IH [of p1 w1] Cons.prems(2) one(2) by (auto simp: ba_step_def)
    show ?case
      using one(1) rest(1) ba_step_trans [OF one(2) rest(2)] by simp
  qed
  then show ?thesis
    by (simp add: ba_step_def)
qed

text \<open>An interface and a driver that logs the packets handed up.\<close>

definition log_driver :: "byte list list driver" where
  "log_driver = \<lparr>up = logger, mwifiex_send_cmd = (\<lambda>c a b w. (0, w)), kzalloc = (\<lambda>w. (True, w)),
     flush_workqueue = (\<lambda>w. w)\<rparr>"

lemma fresh_inv: "ba_inv fresh_priv"
  by (simp add: ba_inv_def fresh_priv_def rx_sound_def seqs_ok_def MAX_NUM_TID_def MWIFIEX_DEF_11N_RX_SEQ_NUM_def)

text \<open>A request for a session with sequence numbers from 10, and a command buffer.\<close>

definition demo_request :: "byte list" where
  "demo_request = [0] @ [1, 2, 3, 4, 5, 6] @ [1] @ le16 0x1002 @ le16 0 @ le16 10"

definition demo_cmd :: host_cmd where
  "demo_cmd = \<lparr>command = 0, cmd_size = 0, params = replicate 16 0\<rparr>"

theorem sessions_sound_witness:
  "\<exists>acc priv' w'. ba_run log_driver [Session_Request demo_cmd demo_request,
      Received 11 0 [1, 2, 3, 4, 5, 6] 0 (Some [1]), Cleaned_Up] fresh_priv [] = Some (acc, priv', w') \<and>
    ba_inv priv'"
proof -
  have "ld16 (take 2 (drop 8 demo_request)) = 0x1002" "ld16 (take 2 (drop 12 demo_request)) = 10"
    "param_tid 0x1002 = 0" "length demo_request = 14" "length (params demo_cmd) = 16"
    by code_simp+
  then have ok: "\<forall>e \<in> set [Session_Request demo_cmd demo_request,
      Received 11 0 [1, 2, 3, 4, 5, 6] 0 (Some [1]), Cleaned_Up]. ba_event_ok e"
    by (simp add: PKT_TYPE_BAR_def)
  show ?thesis
    using sessions_sound [OF fresh_inv ok, of log_driver "[]"] by blast
qed

end
