(* ===== verification/Ba_Properties.thy ===== *)
theory Ba_Properties
  imports Ba_Sessions
begin

text \<open>
  What single operations of block-ack sessions guarantee, and where they fail: setting a
  session up and refusing it, ending it, the window sizes of all interfaces, and the firmware's
  notice of dropped packets.
\<close>

section \<open>Setting up and refusing\<close>

text \<open>C16: the driver uses the session it announces. If there is memory and no session for the peer
  and traffic identifier yet, the answer to a request has the peer's address and start, the
  configured window and the requested identifier, and the driver adds exactly one empty table,
  whose window size and identifier are those of the answer. Its window starts with the number of the
  answer, unless the last number noted for the sender (0 where none is kept) is this one or a higher one: then it starts behind
  that number and is marked as shifted, though the answer announces the lower one.\<close>

theorem session_agreed:
  assumes "ba_inv priv" and "16 \<le> length (params cmd)" and "14 \<le> length req"
    and "uint (param_tid (ld16 (take 2 (drop 8 req)))) < 8" and "uint (ld16 (take 2 (drop 12 req))) < 4096"
    and "addba_rx_win d priv (take 6 (drop 1 req)) = Some win"
    and "mwifiex_11n_get_rx_reorder_tbl priv (uint (param_tid (ld16 (take 2 (drop 8 req))))) (take 6 (drop 1 req)) = None"
    and "\<forall>w. fst (kzalloc d w)"
  shows "\<exists>cmd' req' tbl w' p. mwifiex_cmd_11n_addba_rsp_gen d cmd req priv w =
      Some (0, cmd', req', priv\<lparr>rx_tbls := rx_tbls priv @ [tbl]\<rparr>, w') \<and>
    load (params cmd') 1 6 = Some (ta tbl) \<and> get16 (params cmd') 8 = Some ADDBA_RSP_STATUS_ACCEPT \<and>
    get16 (params cmd') 10 = Some p \<and> get16 (params cmd') 14 = Some (ld16 (take 2 (drop 12 req))) \<and>
    ta tbl = take 6 (drop 1 req) \<and> tid tbl = uint (param_tid p) \<and> win_size tbl = uint (param_win p) \<and>
    param_tid p = param_tid (ld16 (take 2 (drop 8 req))) \<and> unat (param_win p) = unat win \<and>
    init_win tbl = uint (ld16 (take 2 (drop 12 req))) \<and> tbl_ok tbl \<and> packets (rx_reorder_ptr tbl) = [] \<and>
    (\<exists>q. last_rx_seq d priv (ta tbl) (tid tbl) = Some q \<and>
      (if q = MWIFIEX_DEF_11N_RX_SEQ_NUM \<or> uint q < init_win tbl
       then start_win tbl = init_win tbl \<and> tbl_flags tbl = 0
       else start_win tbl = uint q + 1 \<and> tbl_flags tbl = RXREOR_INIT_WINDOW_SHIFT))"
proof -
  let ?peer = "take 6 (drop 1 req)" and ?param = "ld16 (take 2 (drop 8 req))"
  let ?ssn = "ld16 (take 2 (drop 12 req))"
  have win: "2 \<le> unat win" "unat win < 1024"
    using assms(1,6) by (auto simp: addba_rx_win_def ba_inv_def MWIFIEX_11AC_STA_AMPDU_DEF_RXWINSIZE_def
        split: if_splits option.splits)
  have len: "length (aggr_prio_tbl priv) = 8"
    using assms(1) by (simp add: ba_inv_def MAX_NUM_TID_def)
  obtain rsp req' b where gen: "mwifiex_cmd_11n_addba_rsp_gen d cmd req priv w = do {
      (priv, w) \<leftarrow> mwifiex_11n_create_rx_reorder_tbl d ?peer (uint (param_tid ?param))
        (uint (param_win (rsp_param b win ?param))) (uint ?ssn) priv w;
      Some (0, cmd\<lparr>command := HostCmd_CMD_11N_ADDBA_RSP,
        cmd_size := of_nat (sizeof addba_rsp_fields) + S_DS_GEN, params := rsp\<rparr>, req', priv, w) }"
    and rsp: "load rsp 1 6 = Some ?peer" "get16 rsp 8 = Some ADDBA_RSP_STATUS_ACCEPT"
      "get16 rsp 10 = Some (rsp_param b win ?param)" "get16 rsp 14 = Some ?ssn"
    using addba_rsp_gen_eq [OF assms(2,3) len assms(4,6), of w] unfolding Let_def by blast
  define p where "p = rsp_param b win ?param"
  have p: "param_tid p = param_tid ?param" "unat (param_win p) = unat win"
    using win(2) by (simp_all add: p_def rsp_param_tid rsp_param_win)
  have nat_size: "2 \<le> unat (param_win p)" "unat (param_win p) \<le> 2048"
    using win by (simp_all add: p(2))
  have size: "2 \<le> uint (param_win p)" "uint (param_win p) \<le> 2048"
  proof -
    have "\<not> uint (param_win p) < 2" "uint (param_win p) < 1024"
      using win by (simp_all only: uint_less_unat p(2) not_less)
    then show "2 \<le> uint (param_win p)" "uint (param_win p) \<le> 2048" by simp_all
  qed
  obtain q where q: "last_rx_seq d priv ?peer (uint (param_tid ?param)) = Some q"
    "q = MWIFIEX_DEF_11N_RX_SEQ_NUM \<or> uint q < 4096"
    using last_rx_seq_ok [OF assms(1) uint_ge_0 assms(4)] by blast
  define shift where "shift \<longleftrightarrow> q \<noteq> MWIFIEX_DEF_11N_RX_SEQ_NUM \<and> uint q \<ge> uint ?ssn"
  define tbl where "tbl = \<lparr>tid = uint (param_tid ?param), ta = ?peer, init_win = uint ?ssn,
    start_win = (if shift then uint q + 1 else uint ?ssn), win_size = uint (param_win p),
    rx_reorder_ptr = replicate (nat (uint (param_win p))) None, timer_is_set = False, timer_ms = 0,
    amsdu = False, tbl_flags = (if shift then RXREOR_INIT_WINDOW_SHIFT else 0)\<rparr>"
  have create: "mwifiex_11n_create_rx_reorder_tbl d ?peer (uint (param_tid ?param)) (uint (param_win p))
      (uint ?ssn) priv w = Some (priv\<lparr>rx_tbls := rx_tbls priv @ [tbl]\<rparr>, snd (kzalloc d (snd (kzalloc d w))))"
    using assms(8)
    unfolding mwifiex_11n_create_rx_reorder_tbl_def assms(7) option.case q(1)
    by (simp add: Let_def case_prod_beta shift_def [symmetric] tbl_def)
  have "tbl_ok tbl"
    using size nat_size assms(5) q(2) by (auto simp: tbl_def tbl_ok_def shift_def)
  moreover have "\<exists>q. last_rx_seq d priv (ta tbl) (tid tbl) = Some q \<and>
      (if q = MWIFIEX_DEF_11N_RX_SEQ_NUM \<or> uint q < init_win tbl
       then start_win tbl = init_win tbl \<and> tbl_flags tbl = 0
       else start_win tbl = uint q + 1 \<and> tbl_flags tbl = RXREOR_INIT_WINDOW_SHIFT)"
    using q(1) by (intro exI [of _ q]) (auto simp: tbl_def shift_def)
  ultimately show ?thesis
    using gen rsp create p
    by (intro exI [of _ "cmd\<lparr>command := HostCmd_CMD_11N_ADDBA_RSP,
        cmd_size := of_nat (sizeof addba_rsp_fields) + S_DS_GEN, params := rsp\<rparr>"] exI [of _ req']
        exI [of _ tbl] exI [of _ "snd (kzalloc d (snd (kzalloc d w)))"] exI [of _ p])
      (simp flip: p_def, simp add: tbl_def)
qed

lemma demo_request_fields:
  "ld16 (take 2 (drop 8 demo_request)) = 0x1002" "ld16 (take 2 (drop 12 demo_request)) = 10"
  "take 6 (drop 1 demo_request) = [1, 2, 3, 4, 5, 6]" "length demo_request = 14" "length (params demo_cmd) = 16"
  "param_tid 0x1002 = 0"
  by code_simp+

theorem session_agreed_witness:
  "\<exists>cmd' req' tbl w' p. mwifiex_cmd_11n_addba_rsp_gen log_driver demo_cmd demo_request fresh_priv [] =
      Some (0, cmd', req', fresh_priv\<lparr>rx_tbls := rx_tbls fresh_priv @ [tbl]\<rparr>, w') \<and> win_size tbl = uint (param_win p) \<and>
    start_win tbl = 10"
proof -
  have win: "addba_rx_win log_driver fresh_priv (take 6 (drop 1 demo_request)) = Some 64"
    by (simp add: addba_rx_win_def fresh_priv_def)
  have hyps: "16 \<le> length (params demo_cmd)" "14 \<le> length demo_request"
    "uint (param_tid (ld16 (take 2 (drop 8 demo_request)))) < 8"
    "uint (ld16 (take 2 (drop 12 demo_request))) < 4096"
    by (simp_all only: demo_request_fields) simp_all
  have none: "mwifiex_11n_get_rx_reorder_tbl fresh_priv t a = None" for t a
    by (simp add: mwifiex_11n_get_rx_reorder_tbl_def fresh_priv_def)
  have "\<forall>w. fst (kzalloc log_driver w)"
    by (simp add: log_driver_def)
  from session_agreed [OF fresh_inv hyps win none this, of "[]"] obtain cmd' req' tbl w' p q where
    run: "mwifiex_cmd_11n_addba_rsp_gen log_driver demo_cmd demo_request fresh_priv [] =
      Some (0, cmd', req', fresh_priv\<lparr>rx_tbls := rx_tbls fresh_priv @ [tbl]\<rparr>, w')" "win_size tbl = uint (param_win p)"
    and ssn: "init_win tbl = uint (ld16 (take 2 (drop 12 demo_request)))"
    and key: "ta tbl = take 6 (drop 1 demo_request)" "tid tbl = uint (param_tid p)"
      "param_tid p = param_tid (ld16 (take 2 (drop 8 demo_request)))"
    and q: "last_rx_seq log_driver fresh_priv (ta tbl) (tid tbl) = Some q"
    and start: "if q = MWIFIEX_DEF_11N_RX_SEQ_NUM \<or> uint q < init_win tbl
      then start_win tbl = init_win tbl \<and> tbl_flags tbl = 0
      else start_win tbl = uint q + 1 \<and> tbl_flags tbl = RXREOR_INIT_WINDOW_SHIFT"
    by (elim exE conjE) (rule that; assumption)
  have "tid tbl = 0"
    unfolding key demo_request_fields by simp
  moreover have "last_rx_seq log_driver fresh_priv [1, 2, 3, 4, 5, 6] 0 = Some MWIFIEX_DEF_11N_RX_SEQ_NUM"
    by code_simp
  ultimately have "q = MWIFIEX_DEF_11N_RX_SEQ_NUM"
    using q unfolding key(1) demo_request_fields by simp
  then have "start_win tbl = 10"
    using start ssn unfolding demo_request_fields by simp
  with run show ?thesis
    by blast
qed

text \<open>A refused session stays refused. If the firmware reports that a peer refused a session,
  for another reason than a timeout, the stream is gone, and on an interface that is no access
  point no session with this traffic identifier is started again.\<close>

theorem refused_session_stays_refused:
  assumes "ba_inv priv" and "16 \<le> length (params resp)"
    and "uint (param_tid (ld16 (take 2 (drop 10 (params resp))))) < 8"
    and "ld16 (take 2 (drop 8 (params resp))) \<noteq> BA_RESULT_SUCCESS" and "params resp ! 0 \<noteq> BA_RESULT_TIMEOUT"
    and "GET_BSS_ROLE d \<noteq> MWIFIEX_BSS_ROLE_UAP" and "t = uint (param_tid (ld16 (take 2 (drop 10 (params resp)))))"
  shows "\<exists>resp' priv' w'. mwifiex_ret_11n_addba_req d resp priv w = Some (resp', priv', w') \<and>
    mwifiex_get_ba_tbl priv' t (take 6 (drop 1 (params resp))) = None \<and>
    (\<forall>r. \<not> tdls_link r \<longrightarrow> mwifiex_is_ampdu_allowed d priv' r t = Some False)"
proof -
  let ?param = "ld16 (take 2 (drop 10 (params resp)))" and ?peer = "take 6 (drop 1 (params resp))"
  have t: "0 \<le> t" "t < 8" using assms(3,7) by simp_all
  obtain ps where ps: "put16 (params resp) 14 (ld16 (take 2 (drop 14 (params resp))) AND SSN_MASK) = Some ps"
    "length ps = length (params resp)"
    using assms(2) put16_defined [of 14 "params resp"] by auto
  let ?down = "mwifiex_wmm_downgrade_tid priv (of_int t)"
  have head: "take 1 (params resp) = [params resp ! 0]"
    using assms(2) by (cases "params resp") auto
  have loads: "get16 (params resp) 10 = Some ?param"
    "get16 (params resp) 14 = Some (ld16 (take 2 (drop 14 (params resp))))"
    "load (params resp) 1 6 = Some ?peer" "get16 (params resp) 8 = Some (ld16 (take 2 (drop 8 (params resp))))"
    "load (params resp) 0 1 = Some [params resp ! 0]"
    using assms(2) head by (auto simp: mem_simps)
  have new: "load ps 1 6 = Some ?peer" "get16 ps 8 = Some (ld16 (take 2 (drop 8 (params resp))))"
    "idx ps 0 = Some (params resp ! 0)"
  proof -
    show "load ps 1 6 = Some ?peer" "get16 ps 8 = Some (ld16 (take 2 (drop 8 (params resp))))"
      using load_put16_other [OF ps(1), of 1 6] get16_put16_other [OF ps(1), of 8] loads by simp_all
    have "load ps 0 1 = Some [params resp ! 0]"
      using load_put16_other [OF ps(1), of 0 1] loads(5) by simp
    then show "idx ps 0 = Some (params resp ! 0)"
      using assms(2) ps(2) by (cases ps) (auto simp: load_def idx_def)
  qed
  obtain r where r: "mwifiex_wmm_get_ralist_node priv ?down ?peer = Some r"
    using ralist_defined [OF assms(1)] by blast
  define p0 where "p0 = set_ra_session priv ?down r BA_SETUP_NONE False"
  note p0 = set_ra_inv [OF assms(1), of ?down r BA_SETUP_NONE False, folded p0_def]
  obtain p1 where del: "mwifiex_del_ba_tbl d t ?peer TYPE_DELBA_SENT 1 p0 w = Some (p1, w)"
    and gone: "mwifiex_get_ba_tbl p1 t ?peer = None" and inv1: "ba_inv p1"
  proof (cases "mwifiex_get_ba_tbl p0 t ?peer")
    case None
    then show ?thesis
      using that p0(1) by (simp add: mwifiex_del_ba_tbl_def TYPE_DELBA_SENT_def TYPE_DELBA_RECEIVE_def)
  next
    case (Some i)
    obtain r0 where r0: "mwifiex_wmm_get_ralist_node p0 (mwifiex_wmm_downgrade_tid p0 (of_int t)) ?peer = Some r0"
      using ralist_defined [OF p0(1)] by blast
    define p2 where "p2 = set_ra_session p0 (mwifiex_wmm_downgrade_tid p0 (of_int t)) r0 BA_SETUP_NONE False"
    note p2 = set_ra_inv [OF p0(1), of "mwifiex_wmm_downgrade_tid p0 (of_int t)" r0 BA_SETUP_NONE False, folded p2_def]
    have i: "i < length (tx_tbls p2)"
      using tx_lookup [OF Some] p2(3) by simp
    have "distinct (map tx_key (tx_tbls p2))" "mwifiex_get_ba_tbl p2 t ?peer = Some i"
      using p2(1,3) Some by (simp_all add: ba_inv_def mwifiex_get_ba_tbl_def)
    then have "mwifiex_get_ba_tbl (p2\<lparr>tx_tbls := remove_at i (tx_tbls p2)\<rparr>) t ?peer = None"
      using tx.lookup_removed unfolding mwifiex_get_ba_tbl_def by simp
    then show ?thesis
      using that [of "p2\<lparr>tx_tbls := remove_at i (tx_tbls p2)\<rparr>"] del_stream_entry [OF p2(1) i] Some r0
      by (simp add: mwifiex_del_ba_tbl_def TYPE_DELBA_SENT_def TYPE_DELBA_RECEIVE_def Let_def p2_def)
  qed
  have len: "nat t < length (aggr_prio_tbl p1)"
    using inv1 t by (simp add: ba_inv_def MAX_NUM_TID_def)
  let ?p = "p1\<lparr>aggr_prio_tbl := (aggr_prio_tbl p1)[nat t :=
    (aggr_prio_tbl p1 ! nat t)\<lparr>ampdu_ap := BA_STREAM_NOT_ALLOWED\<rparr>]\<rparr>"
  have new_params: "params (resp\<lparr>params := ps\<rparr>) = ps"
    by simp
  have "mwifiex_ret_11n_addba_req d resp priv w = Some (resp\<lparr>params := ps\<rparr>, ?p, w)"
    unfolding mwifiex_ret_11n_addba_req_def loads ps(1) Option.bind.bind_lunit Let_def assms(7) [symmetric]
      new_params new r p0_def [symmetric] del
    using assms(4,5) len by (simp add: idx_def)
  moreover have "mwifiex_get_ba_tbl ?p t ?peer = None"
    using gone by (simp add: mwifiex_get_ba_tbl_def)
  moreover have "mwifiex_is_ampdu_allowed d ?p x t = Some False" if "\<not> tdls_link x" for x
    using assms(6) that len by (simp add: mwifiex_is_ampdu_allowed_def idx_def)
  ultimately show ?thesis
    by blast
qed

theorem refused_session_stays_refused_witness:
  "\<exists>resp' priv' w'. mwifiex_ret_11n_addba_req log_driver
      \<lparr>command = 0, cmd_size = 0, params = [0, 1, 2, 3, 4, 5, 6, 1, 37, 0, 2, 0, 0, 0, 0, 0]\<rparr> fresh_priv [] =
    Some (resp', priv', w') \<and> mwifiex_get_ba_tbl priv' 0 [1, 2, 3, 4, 5, 6] = None"
proof -
  have "param_tid 2 = 0" by code_simp
  then show ?thesis
    using refused_session_stays_refused [OF fresh_inv, of
        "\<lparr>command = 0, cmd_size = 0, params = [0, 1, 2, 3, 4, 5, 6, 1, 37, 0, 2, 0, 0, 0, 0, 0]\<rparr>" log_driver 0 "[]"]
    by (simp add: BA_RESULT_SUCCESS_def BA_RESULT_TIMEOUT_def GET_BSS_ROLE_def log_driver_def logger_def
        MWIFIEX_BSS_ROLE_UAP_def) blast
qed

section \<open>Window sizes of all interfaces\<close>

text \<open>C32: changing the window sizes ends, and stops early. With at most eight interfaces both
  updates return. They set the new size of the interfaces up to the first connected one whose
  size changes, ask the firmware to end the sessions of that interface only, and leave every
  later interface as it was.\<close>

theorem winsize_updates_stop:
  assumes "length (privs a) \<le> 8"
  shows "mwifiex_update_ampdu_rxwinsize ds a coex_flag w =
    (let upd = set_rx_win coex_flag a; n = reached upd (\<lambda>p. rx_win_size (add_ba_param p)) (privs a)
     in Some (a\<lparr>privs := map (map_option upd) (take (Suc n) (privs a)) @ drop (Suc n) (privs a)\<rparr>,
          if n < length (privs a)
          then fold (\<lambda>t. mwifiex_11n_delba (ds n) (upd (the (privs a ! n))) (int t)) [0..<8] w else w)) \<and>
    mwifiex_update_ampdu_txwinsize ds a w =
    (let upd = set_tx_win a; n = reached upd (\<lambda>p. tx_win_size (add_ba_param p)) (privs a)
     in Some (a\<lparr>privs := map (map_option upd) (take (Suc n) (privs a)) @ drop (Suc n) (privs a)\<rparr>,
          if n < length (privs a)
          then fold (\<lambda>t. mwifiex_send_delba_txbastream_tbl (ds n) (upd (the (privs a ! n))) (of_nat t)) [0..<8] w
          else w))"
  unfolding mwifiex_update_ampdu_rxwinsize_def mwifiex_update_ampdu_txwinsize_def winsize_update [OF assms]
    Let_def MAX_NUM_TID_def by (intro conjI refl)

text \<open>Two connected stations; the adapter has to share the channel with another radio.\<close>

definition demo_adapter :: adapter where
  "demo_adapter = \<lparr>privs = [Some fresh_priv, Some fresh_priv], coex_win_size = 0, coex_tx_win_size = 0,
     coex_rx_win_size = 0, fw_api_ver = 15, hw_dot_11n_dev_cap = 0\<rparr>"

theorem winsize_updates_stop_witness:
  "\<exists>a w. mwifiex_update_ampdu_rxwinsize (\<lambda>i. log_driver) demo_adapter True [] = Some (a, w) \<and>
    map (map_option (\<lambda>p. rx_win_size (add_ba_param p))) (privs a) = [Some 16, Some 64]"
proof -
  have "length (privs demo_adapter) \<le> 8"
    by (simp add: demo_adapter_def)
  note upd = winsize_updates_stop [OF this, of "\<lambda>i. log_driver" True "[]", THEN conjunct1]
  have "reached (set_rx_win True demo_adapter) (\<lambda>p. rx_win_size (add_ba_param p)) (privs demo_adapter) = 0"
    by (simp add: reached_def unaffected_def demo_adapter_def set_rx_win_def choose_rx_win_def fresh_priv_def
        MWIFIEX_BSS_TYPE_STA_def MWIFIEX_STA_COEX_AMPDU_DEF_RXWINSIZE_def)
  then show ?thesis
    unfolding upd Let_def
    by (simp add: demo_adapter_def set_rx_win_def choose_rx_win_def fresh_priv_def MWIFIEX_BSS_TYPE_STA_def
        MWIFIEX_STA_COEX_AMPDU_DEF_RXWINSIZE_def)
qed

section \<open>Notices of dropped packets\<close>

text \<open>A record of the event: its length field, the session, the first sequence number, the bitmap.\<close>

definition sync_record :: "nat \<Rightarrow> byte list \<Rightarrow> u8 \<Rightarrow> u16 \<Rightarrow> byte list \<Rightarrow> byte list" where
  "sync_record l mac t seq bitmap = le16 TLV_TYPE_RXBA_SYNC @ le16 (of_nat l) @ mac @ [t, 0] @ le16 seq @
     le16 (of_nat (length bitmap)) @ bitmap"

lemma sync_record_fields:
  fixes l :: nat and mac bitmap rest :: "byte list" and t :: u8 and seq :: u16
  assumes "length mac = 6" and "l < 65536" and "length bitmap < 65536"
  defines "buf \<equiv> sync_record l mac t seq bitmap @ rest"
  shows "length buf = 16 + length bitmap + length rest" "ld16 buf = TLV_TYPE_RXBA_SYNC"
    "unat (ld16 (drop 2 buf)) = l" "take 6 (drop 4 buf) = mac" "buf ! 10 = t" "ld16 (drop 12 buf) = seq"
    "unat (ld16 (drop 14 buf)) = length bitmap" "drop 16 buf = bitmap @ rest"
proof -
  have lens: "unat (of_nat l :: u16) = l" "unat (of_nat (length bitmap) :: u16) = length bitmap"
    using assms(2,3) by (simp_all add: unat_of_nat)
  show "length buf = 16 + length bitmap + length rest" "ld16 buf = TLV_TYPE_RXBA_SYNC"
    "unat (ld16 (drop 2 buf)) = l" "take 6 (drop 4 buf) = mac" "buf ! 10 = t" "ld16 (drop 12 buf) = seq"
    "unat (ld16 (drop 14 buf)) = length bitmap" "drop 16 buf = bitmap @ rest"
    using assms(1) lens by (simp_all add: buf_def sync_record_def nth_append)
qed

lemma event_record:
  fixes l :: nat and mac bitmap rest :: "byte list" and t :: u8 and seq :: u16
  assumes "length mac = 6" and "l < 65536" and "length bitmap < 65536" and "17 \<le> uint len"
    and "mwifiex_11n_get_rx_reorder_tbl priv (uint t) mac \<noteq> None"
  defines "buf \<equiv> sync_record l mac t seq bitmap @ rest"
  shows "mwifiex_11n_rxba_sync_event fuel d buf len priv w =
    (case rxba_bytes fuel d seq (of_nat (length bitmap)) t mac (bitmap @ rest) 0 priv w of
       Returned (priv, w) \<Rightarrow> rxba_tlvs fuel d buf (17 + l) (uint len - int (17 + l)) priv w
     | Fault \<Rightarrow> Fault | Running \<Rightarrow> Running)"
proof -
  note fields = sync_record_fields [OF assms(1-3), of t seq rest, folded buf_def]
  have "ld16 (drop 14 buf) = of_nat (length bitmap)"
    using arg_cong [OF fields(7), of "of_nat :: nat \<Rightarrow> u16"] by simp
  moreover obtain i where "mwifiex_11n_get_rx_reorder_tbl priv (uint t) mac = Some i"
    using assms(5) by blast
  ultimately show ?thesis
    unfolding mwifiex_11n_rxba_sync_event_def rxba_tlvs.simps [of fuel d buf 0]
    using assms(4) fields(3) [unfolded numeral_2_eq_2] by (simp add: fields rxba_sync_layout Let_def cong: outcome.case_cong)
qed

text \<open>A notice whose bitmap has more than 255 bytes never ends. The counter of the bytes has
  eight bits and starts again at zero; whatever the memory after the event holds, the handler
  does not return.\<close>

theorem sync_event_stuck:
  fixes seq :: u16
  assumes "length mac = 6" and "l < 65536" and "255 < length bitmap" and "length bitmap < 65536"
    and "uint len = int (16 + length bitmap)"
    and "mwifiex_11n_get_rx_reorder_tbl priv (uint t) mac \<noteq> None"
  shows "mwifiex_11n_rxba_sync_event fuel d (sync_record l mac t seq bitmap @ rest) len priv w \<noteq> Returned r"
proof -
  have "255 < unat (of_nat (length bitmap) :: u16)" "17 \<le> uint len"
    using assms(3-5) by (simp_all add: unat_of_nat)
  note step = event_record [OF assms(1,2,4) this(2) assms(6), of fuel d seq rest w]
    and stuck = rxba_bytes_stuck [OF this(1), of fuel d seq t mac "bitmap @ rest" 0 priv w]
  show ?thesis
  proof (cases "rxba_bytes fuel d seq (of_nat (length bitmap)) t mac (bitmap @ rest) 0 priv w")
    case (Returned s)
    with stuck show ?thesis by blast
  qed (simp_all add: step)
qed

text \<open>A session that waits for packet 10, in four slots.\<close>

definition session_priv :: ba_priv where
  "session_priv = fresh_priv\<lparr>rx_tbls := [(empty_tbl 10 4)\<lparr>ta := [1, 2, 3, 4, 5, 6], tid := 0\<rparr>]\<rparr>"

lemma session_found: "mwifiex_11n_get_rx_reorder_tbl session_priv 0 [1, 2, 3, 4, 5, 6] = Some 0"
  by (simp add: mwifiex_11n_get_rx_reorder_tbl_def session_priv_def)

lemma session_sound: "rx_sound session_priv"
  by (simp add: rx_sound_def session_priv_def tbl_ok_def empty_tbl_def)

theorem sync_event_stuck_witness:
  "\<forall>fuel r. mwifiex_11n_rxba_sync_event fuel log_driver
     (sync_record 268 [1, 2, 3, 4, 5, 6] 0 10 (replicate 256 0) @ []) 272 session_priv [] \<noteq> Returned r"
  by (intro allI, rule sync_event_stuck) (simp_all add: session_found)

text \<open>Where a notice ends. Up to 255 bytes of bitmap are worked through, and every table stays
  sound. The walk then goes on 17 bytes and the length field further. It is at the end of the
  event if the field counts one byte less than the bitmap, and the handler returns. If the field counts
  everything after the record's header, 12 bytes and the bitmap, the walk is 13 bytes past the
  end, the number of bytes left is negative and taken for a large one, and the handler reads on:
  if the memory ends within 17 bytes of the event, outside of it.\<close>

theorem sync_event_end:
  fixes seq :: u16
  assumes "rx_sound priv" and "length mac = 6" and "1 \<le> length bitmap" and "length bitmap \<le> 255"
    and "uint len = int (16 + length bitmap)" and "256 \<le> fuel"
    and "mwifiex_11n_get_rx_reorder_tbl priv (uint t) mac \<noteq> None"
  shows "\<exists>priv' w'. rx_sound priv' \<and>
    rxba_bytes fuel d seq (of_nat (length bitmap)) t mac (bitmap @ rest) 0 priv w = Returned (priv', w') \<and>
    mwifiex_11n_rxba_sync_event fuel d (sync_record (length bitmap - 1) mac t seq bitmap @ rest) len priv w =
      Returned (priv', w') \<and>
    (length rest < 17 \<longrightarrow>
     mwifiex_11n_rxba_sync_event fuel d (sync_record (12 + length bitmap) mac t seq bitmap @ rest) len priv w = Fault)"
proof -
  have n: "unat (of_nat (length bitmap) :: u16) = length bitmap" and len: "17 \<le> uint len"
    using assms(3-5) by (simp_all add: unat_of_nat)
  obtain priv' w' where bytes: "rxba_bytes fuel d seq (of_nat (length bitmap)) t mac (bitmap @ rest) 0 priv w =
      Returned (priv', w')" "rx_sound priv'"
    using rxba_bytes_returns [of "of_nat (length bitmap)" "bitmap @ rest" priv 0 fuel d seq t mac w] assms n
    by auto
  have "mwifiex_11n_rxba_sync_event fuel d (sync_record (length bitmap - 1) mac t seq bitmap @ rest) len priv w =
      Returned (priv', w')"
    using event_record [OF assms(2) _ _ len assms(7), of "length bitmap - 1" bitmap fuel d seq rest w] assms(3-5) bytes(1)
    by (simp add: rxba_tlvs.simps rxba_sync_layout)
  moreover have "mwifiex_11n_rxba_sync_event fuel d (sync_record (12 + length bitmap) mac t seq bitmap @ rest) len
      priv w = Fault" if "length rest < 17"
    using event_record [OF assms(2) _ _ len assms(7), of "12 + length bitmap" bitmap fuel d seq rest w] assms(2,4,5) bytes(1) that
    by (simp add: rxba_tlvs.simps rxba_sync_layout sync_record_def)
  ultimately show ?thesis
    using bytes by blast
qed

theorem sync_event_end_witness:
  "mwifiex_11n_rxba_sync_event 256 log_driver (sync_record 13 [1, 2, 3, 4, 5, 6] 0 10 [1] @ []) 17 session_priv [] = Fault"
  using sync_event_end [OF session_sound, of "[1, 2, 3, 4, 5, 6]" "[1]" 17 256 0 log_driver 10 "[]" "[]"]
  by (simp add: session_found) blast

text \<open>The notice of a dropped packet does not help the packets behind it. While the window waits
  for its first packet, a notice for a number in the window changes nothing but the timer: no
  packet is handed up and the window stays, even if the notice is for the first packet itself.\<close>

theorem drop_notice_ignored:
  fixes seq :: u16 and t :: u16
  assumes "mwifiex_11n_get_rx_reorder_tbl priv (uint t) a = Some i" and "tbl_steady (rx_tbls priv ! i)"
    and "uint seq < 4096" and "rx_reorder_ptr (rx_tbls priv ! i) ! 0 = None"
    and "ahead (uint seq) (start_win (rx_tbls priv ! i)) < length (rx_reorder_ptr (rx_tbls priv ! i))"
  shows "\<exists>ret tbl. mwifiex_11n_rx_reorder_pkt d seq t a 0 None priv w = Some (ret, set_tbl priv i tbl, w) \<and>
    same_but_timer (rx_tbls priv ! i) tbl"
proof -
  obtain ret tbl where "reorder_in_tbl (up d) seq 0 None (rx_tbls priv ! i) w = Some (ret, tbl, w)"
    "same_but_timer (rx_tbls priv ! i) tbl"
    using null_in_tbl [OF assms(2-5), of "up d" w] by (elim exE conjE)
  then show ?thesis
    using assms(1) rx_lookup [OF assms(1)] by (auto simp: mwifiex_11n_rx_reorder_pkt_def idx_def)
qed

theorem drop_notice_ignored_witness:
  "\<exists>ret tbl. mwifiex_11n_rx_reorder_pkt log_driver 10 0 [1, 2, 3, 4, 5, 6] 0 None session_priv [] =
    Some (ret, set_tbl session_priv 0 tbl, []) \<and> same_but_timer (rx_tbls session_priv ! 0) tbl"
proof (rule drop_notice_ignored)
  show "mwifiex_11n_get_rx_reorder_tbl session_priv (uint (0 :: u16)) [1, 2, 3, 4, 5, 6] = Some 0"
    using session_found by simp
qed (simp_all add: session_priv_def empty_tbl_def tbl_steady_def tbl_ok_def ahead_def)

section \<open>Ending a session\<close>

text \<open>The firmware is not told who ends a session. The request to end one is the same whether
  the driver is its initiator or not: the bit of the initiator is always clear.\<close>

theorem delba_initiator_lost:
  assumes "length peer_mac = 6"
  shows "mwifiex_send_delba d t peer_mac initiator w = mwifiex_send_delba d t peer_mac 0 w \<and>
   (\<exists>delba p. mwifiex_send_delba d t peer_mac initiator w =
      mwifiex_send_cmd d HostCmd_CMD_11N_DELBA HostCmd_ACT_GEN_SET delba w \<and>
    get16 delba 7 = Some p \<and> INITIATOR_BIT p = 0)"
proof -
  let ?p = "push_bit DELBA_TID_POS (of_int t) :: u16"
  let ?delba = "[0] @ peer_mac @ le16 ?p @ le16 0 @ [0]"
  have "INITIATOR_BIT ?p = 0"
    unfolding INITIATOR_BIT_def DELBA_TID_POS_def DELBA_INITIATOR_POS_def
    by (intro bit_word_eqI) (auto simp: bit_simps)
  moreover have "get16 ?delba 7 = Some ?p"
    using assms by (simp add: get16_def load_def)
  moreover have "mwifiex_send_delba d t peer_mac i w =
      mwifiex_send_cmd d HostCmd_CMD_11N_DELBA HostCmd_ACT_GEN_SET ?delba w" for i
    by (simp add: mwifiex_send_delba_def Let_def)
  ultimately show ?thesis by auto
qed

theorem delba_initiator_lost_witness:
  "mwifiex_send_delba log_driver 5 [1, 2, 3, 4, 5, 6] 1 [] = mwifiex_send_delba log_driver 5 [1, 2, 3, 4, 5, 6] 0 [] \<and>
   (\<exists>delba p. mwifiex_send_delba log_driver 5 [1, 2, 3, 4, 5, 6] 1 [] =
      mwifiex_send_cmd log_driver HostCmd_CMD_11N_DELBA HostCmd_ACT_GEN_SET delba [] \<and>
    get16 delba 7 = Some p \<and> INITIATOR_BIT p = 0)"
  by (rule delba_initiator_lost) simp

end
