(* ===== verification/Wmm_Prio.thy ===== *)
theory Wmm_Prio
  imports Tx_Ba Cfp
begin

text \<open>
  The priorities of the transmit queues in the mwifiex driver, the first part of
  \<open>doc/mwifiex/wmm.c\<close>: the access point announces for each of four access categories how long
  a station has to back off, and the driver sorts the categories by it and arranges the
  eight traffic identifiers in that order; the firmware reports which categories may be used.
\<close>

section \<open>Access categories\<close>

text \<open>The categories are ordered by their number.\<close>

primrec ac_num :: "mwifiex_wmm_ac_e \<Rightarrow> nat" where
  "ac_num WMM_AC_BK = 0"
| "ac_num WMM_AC_BE = 1"
| "ac_num WMM_AC_VI = 2"
| "ac_num WMM_AC_VO = 3"

instantiation mwifiex_wmm_ac_e :: linorder
begin

definition less_eq_mwifiex_wmm_ac_e :: "mwifiex_wmm_ac_e \<Rightarrow> mwifiex_wmm_ac_e \<Rightarrow> bool" where
  "less_eq_mwifiex_wmm_ac_e a b \<longleftrightarrow> ac_num a \<le> ac_num b"

definition less_mwifiex_wmm_ac_e :: "mwifiex_wmm_ac_e \<Rightarrow> mwifiex_wmm_ac_e \<Rightarrow> bool" where
  "less_mwifiex_wmm_ac_e a b \<longleftrightarrow> ac_num a < ac_num b"

instance
proof
  fix a b :: mwifiex_wmm_ac_e
  assume "a \<le> b" and "b \<le> a"
  then show "a = b"
    by (cases a; cases b) (simp_all add: less_eq_mwifiex_wmm_ac_e_def)
qed (auto simp: less_eq_mwifiex_wmm_ac_e_def less_mwifiex_wmm_ac_e_def)

end

lemma ac_num_less [simp]: "ac_num a < 4"
  by (cases a) simp_all

lemma ac_num_inject [simp]: "ac_num a = ac_num b \<longleftrightarrow> a = b"
  by (cases a; cases b) simp_all

definition all_acs :: "mwifiex_wmm_ac_e list" where
  "all_acs = [WMM_AC_BK, WMM_AC_BE, WMM_AC_VI, WMM_AC_VO]"

lemma all_acs_nth [simp]: "all_acs ! ac_num a = a"
  by (cases a) (simp_all add: all_acs_def)

section \<open>Constants\<close>

definition HIGH_PRIO_TID :: int where "HIGH_PRIO_TID = 7"
definition LOW_PRIO_TID :: int where "LOW_PRIO_TID = 0"
definition NO_PKT_PRIO_TID :: int where "NO_PKT_PRIO_TID = -1"
definition MWIFIEX_WMM_DRV_DELAY_MAX :: u32 where "MWIFIEX_WMM_DRV_DELAY_MAX = 510"
definition MWIFIEX_TX_DATA_BUF_SIZE_2K :: u16 where "MWIFIEX_TX_DATA_BUF_SIZE_2K = 2048"
definition MWIFIEX_AIFSN :: u8 where "MWIFIEX_AIFSN = 0x0f"
definition MWIFIEX_ACI :: u8 where "MWIFIEX_ACI = 0x60"
definition MWIFIEX_ECW_MIN :: u8 where "MWIFIEX_ECW_MIN = 0x0f"
definition TLV_TYPE_WMMQSTATUS :: u16 where "TLV_TYPE_WMMQSTATUS = 0x100 + 16"

text \<open>From the Linux headers.\<close>

definition WLAN_EID_VENDOR_SPECIFIC :: u8 where "WLAN_EID_VENDOR_SPECIFIC = 221"
definition IEEE80211_WMM_IE_AP_QOSINFO_UAPSD :: u8 where "IEEE80211_WMM_IE_AP_QOSINFO_UAPSD = 0x80"

definition wmm_info_ie :: "u8 list" where
  "wmm_info_ie = [WLAN_EID_VENDOR_SPECIFIC, 0x07, 0x00, 0x50, 0xf2, 0x02, 0x00, 0x01, 0x00]"

definition wmm_aci_to_qidx_map :: "mwifiex_wmm_ac_e list" where
  "wmm_aci_to_qidx_map = [WMM_AC_BE, WMM_AC_BK, WMM_AC_VI, WMM_AC_VO]"

text \<open>
  The order of the traffic identifiers at the start, and its inverse. The order is one array for
  all interfaces; the inverse, copied from this table, belongs to the interface.
\<close>

definition tos_to_tid :: "u8 list" where
  "tos_to_tid = [1, 2, 0, 3, 4, 5, 6, 7]"

definition tos_to_tid_inv_table :: "u8 list" where
  "tos_to_tid_inv_table = [2, 0, 1, 3, 4, 5, 6, 7]"

section \<open>Packed structs\<close>

definition ieee_types_vendor_header_fields :: "cfield list" where
  "ieee_types_vendor_header_fields = [(''element_id'', CI8), (''len'', CI8), (''oui'', CArr 4 CI8),
     (''oui_subtype'', CI8), (''version'', CI8)]"

definition ieee_types_wmm_ac_parameters_fields :: "cfield list" where
  "ieee_types_wmm_ac_parameters_fields = [(''aci_aifsn_bitmap'', CI8), (''ecw_bitmap'', CI8), (''tx_op_limit'', CI16)]"

definition ieee_types_wmm_parameter_fields :: "cfield list" where
  "ieee_types_wmm_parameter_fields = [(''vend_hdr'', CStruct ieee_types_vendor_header_fields),
     (''qos_info_bitmap'', CI8), (''reserved'', CI8),
     (''ac_params'', CArr 4 (CStruct ieee_types_wmm_ac_parameters_fields))]"

lemma wmm_parameter_layout:
  "field_offsets 0 ieee_types_wmm_parameter_fields = [(''vend_hdr'', 0), (''qos_info_bitmap'', 8),
     (''reserved'', 9), (''ac_params'', 10)]"
  "sizeof ieee_types_wmm_parameter_fields = 26"
  "field_offsets 0 ieee_types_wmm_ac_parameters_fields = [(''aci_aifsn_bitmap'', 0), (''ecw_bitmap'', 1), (''tx_op_limit'', 2)]"
  "sizeof ieee_types_wmm_ac_parameters_fields = 4"
  by (simp_all add: ieee_types_wmm_parameter_fields_def ieee_types_vendor_header_fields_def
      ieee_types_wmm_ac_parameters_fields_def)

section \<open>Queue priorities\<close>

definition mwifiex_wmm_default_queue_priorities :: "ba_priv \<Rightarrow> ba_priv" where
  "mwifiex_wmm_default_queue_priorities priv =
     priv\<lparr>wmm := (wmm priv)\<lparr>queue_priority := [WMM_AC_VO, WMM_AC_VI, WMM_AC_BE, WMM_AC_BK]\<rparr>\<rparr>"

text \<open>The arrays of the order and its inverse.\<close>

definition order_tids :: "mwifiex_wmm_ac_e list \<Rightarrow> u8 list \<Rightarrow> u8 list" where
  "order_tids qp tos = fold (\<lambda>i tos.
     tos[7 - i * 2 := ac_to_tid (qp ! i) ! 1, 6 - i * 2 := ac_to_tid (qp ! i) ! 0]) [0..<4] tos"

definition invert_tids :: "u8 list \<Rightarrow> u8 list \<Rightarrow> u8 list" where
  "invert_tids tos ranks = fold (\<lambda>i ranks. ranks[unat (tos ! i) := of_nat i]) [0..<MAX_NUM_TID] ranks"

definition mwifiex_wmm_queue_priorities_tid :: "u8 list \<Rightarrow> ba_priv \<Rightarrow> u8 list \<times> ba_priv" where
  "mwifiex_wmm_queue_priorities_tid tos priv =
     (let tos = order_tids (queue_priority (wmm priv)) tos
      in (tos, priv\<lparr>tos_to_tid_inv := invert_tids tos (tos_to_tid_inv priv),
            wmm := (wmm priv)\<lparr>highest_queued_prio := HIGH_PRIO_TID\<rparr>\<rparr>))"

definition avg_back_off :: "u8 \<Rightarrow> u8 \<Rightarrow> u16" where
  "avg_back_off ecw aci_aifsn =
     (let cw_min = of_int (2 ^ unat (ecw AND MWIFIEX_ECW_MIN) - 1) :: u16
      in drop_bit 1 cw_min + ucast (aci_aifsn AND MWIFIEX_AIFSN))"

definition aci_ac :: "u8 \<Rightarrow> mwifiex_wmm_ac_e" where
  "aci_ac aci_aifsn = wmm_aci_to_qidx_map ! unat (drop_bit 5 (aci_aifsn AND MWIFIEX_ACI))"

text \<open>The parameters of a category, from the memory the pointer to the element leads to.\<close>

primrec read_ac_params ::
  "byte list \<Rightarrow> nat list \<Rightarrow> u16 list \<times> mwifiex_wmm_ac_e list \<Rightarrow> (u16 list \<times> mwifiex_wmm_ac_e list) option" where
  "read_ac_params ie [] s = Some s"
| "read_ac_params ie (n # ns) s = do {
     aci_aifsn \<leftarrow> idx ie (10 + 4 * n);
     ecw \<leftarrow> idx ie (11 + 4 * n);
     let ac = aci_ac aci_aifsn;
     read_ac_params ie ns ((fst s)[ac_num ac := avg_back_off ecw aci_aifsn], (snd s)[ac_num ac := ac])
   }"

definition swap :: "nat \<Rightarrow> 'a list \<Rightarrow> 'a list" where
  "swap j xs = xs[j - 1 := xs ! j, j := xs ! (j - 1)]"

definition bubble_step :: "nat \<Rightarrow> u16 list \<times> mwifiex_wmm_ac_e list \<Rightarrow> u16 list \<times> mwifiex_wmm_ac_e list" where
  "bubble_step j s =
     (let (tmp, qp) = s
      in if tmp ! (j - 1) > tmp ! j then (swap j tmp, swap j qp)
         else if tmp ! (j - 1) = tmp ! j then
           (if qp ! (j - 1) < qp ! j then (tmp, swap j qp) else (tmp, qp))
         else (tmp, qp))"

definition bubble_sort :: "nat \<Rightarrow> u16 list \<times> mwifiex_wmm_ac_e list \<Rightarrow> u16 list \<times> mwifiex_wmm_ac_e list" where
  "bubble_sort num_ac s = fold (\<lambda>i. fold bubble_step [1..<num_ac - i]) [0..<num_ac] s"

text \<open>\<open>tmp\<close> is an array on the stack, so its contents are what is found there.\<close>

definition mwifiex_wmm_setup_queue_priorities ::
  "u16 list \<Rightarrow> byte list option \<Rightarrow> u8 list \<Rightarrow> ba_priv \<Rightarrow> (u8 list \<times> ba_priv) option" where
  "mwifiex_wmm_setup_queue_priorities tmp param_ie tos priv =
     (case param_ie of
        None \<Rightarrow> Some (tos, mwifiex_wmm_default_queue_priorities priv)
      | Some ie \<Rightarrow>
          if \<not> wmm_enabled priv then Some (tos, mwifiex_wmm_default_queue_priorities priv)
          else do {
            s \<leftarrow> read_ac_params ie [0..<4] (tmp, queue_priority (wmm priv));
            let (_, qp) = bubble_sort 4 s;
            Some (mwifiex_wmm_queue_priorities_tid tos (priv\<lparr>wmm := (wmm priv)\<lparr>queue_priority := qp\<rparr>\<rparr>))
          })"

section \<open>Categories that may not be used\<close>

definition mwifiex_wmm_eval_downgrade_ac :: "ba_priv \<Rightarrow> mwifiex_wmm_ac_e \<Rightarrow> mwifiex_wmm_ac_e" where
  "mwifiex_wmm_eval_downgrade_ac priv eval_ac =
     (let st = ac_status (wmm priv)
      in if \<not> ac_disabled (st eval_ac) then eval_ac
         else fold (\<lambda>down_ac ret_ac. if \<not> ac_disabled (st down_ac) \<and> \<not> flow_required (st down_ac)
             then down_ac else ret_ac) (filter (\<lambda>a. a < eval_ac) all_acs) WMM_AC_BK)"

definition mwifiex_wmm_setup_ac_downgrade :: "ba_priv \<Rightarrow> ba_priv" where
  "mwifiex_wmm_setup_ac_downgrade priv =
     (if \<not> wmm_enabled priv then priv\<lparr>ac_down_graded_vals := \<lambda>a. a\<rparr>
      else priv\<lparr>ac_down_graded_vals := \<lambda>a. mwifiex_wmm_eval_downgrade_ac priv a\<rparr>)"

section \<open>Reports of the firmware\<close>

definition put_ac_status :: "ba_priv \<Rightarrow> u8 \<Rightarrow> ac_state \<Rightarrow> ba_priv option" where
  "put_ac_status priv queue_index st = do {
     ac \<leftarrow> idx all_acs (unat queue_index);
     Some (priv\<lparr>wmm := (wmm priv)\<lparr>ac_status := (ac_status (wmm priv))(ac := st)\<rparr>\<rparr>)
   }"

text \<open>
  The walk over the records of the response. \<open>mem\<close> is the memory from the parameters of the
  response on, \<open>pos\<close> the position in it, and \<open>ie\<close> the position of the last element seen. The element's
  length has 8 bits, and the memory it is copied to is the description of the access point.
\<close>

function wmm_status_tlvs ::
  "byte list \<Rightarrow> nat \<Rightarrow> nat \<Rightarrow> nat option \<Rightarrow> ba_priv \<Rightarrow> (byte list \<times> nat option \<times> ba_priv) option" where
  "wmm_status_tlvs mem pos resp_len ie priv =
     (if resp_len < 4 then Some (mem, ie, priv)
      else do {
        typ \<leftarrow> get16 mem pos;
        tlv_len \<leftarrow> map_option unat (get16 mem (pos + 2));
        if resp_len < tlv_len + 4 then Some (mem, ie, priv)
        else if typ = TLV_TYPE_WMMQSTATUS then do {
          queue_index \<leftarrow> idx mem (pos + 4);
          dis \<leftarrow> idx mem (pos + 5);
          req \<leftarrow> idx mem (pos + 8);
          crt \<leftarrow> idx mem (pos + 9);
          priv \<leftarrow> put_ac_status priv queue_index
            \<lparr>ac_disabled = dis \<noteq> 0, flow_required = req \<noteq> 0, flow_created = crt \<noteq> 0\<rparr>;
          wmm_status_tlvs mem (pos + (tlv_len + 4)) (resp_len - (tlv_len + 4)) ie priv
        } else if typ = ucast WLAN_EID_VENDOR_SPECIFIC then do {
          let len = (of_nat tlv_len :: u8);
          mem \<leftarrow> store mem (pos + 3) [len];
          mem \<leftarrow> store mem (pos + 2) [WLAN_EID_VENDOR_SPECIFIC];
          bytes \<leftarrow> load mem (pos + 2) (unat len + 2);
          desc \<leftarrow> store (wmm_ie priv) 0 bytes;
          wmm_status_tlvs mem (pos + (tlv_len + 4)) (resp_len - (tlv_len + 4)) (Some (pos + 2))
            (priv\<lparr>wmm_ie := desc\<rparr>)
        } else Some (mem, ie, priv)
      })"
  by pat_completeness auto
termination
  by (relation "measure (\<lambda>(mem, pos, resp_len, ie, priv). resp_len)") auto

declare wmm_status_tlvs.simps [simp del]

text \<open>\<open>tmp\<close> is the stack of the function that sorts.\<close>

definition mwifiex_ret_wmm_get_status ::
  "u16 list \<Rightarrow> byte list \<Rightarrow> u16 \<Rightarrow> u8 list \<Rightarrow> ba_priv \<Rightarrow> (u8 list \<times> ba_priv) option" where
  "mwifiex_ret_wmm_get_status tmp mem resp_size tos priv = do {
     (mem, ie, priv) \<leftarrow> wmm_status_tlvs mem 0 (unat resp_size) None priv;
     (tos, priv) \<leftarrow> mwifiex_wmm_setup_queue_priorities tmp (map_option (\<lambda>p. drop p mem) ie) tos priv;
     Some (tos, mwifiex_wmm_setup_ac_downgrade priv)
   }"

section \<open>Association and delay\<close>

text \<open>
  The element for an association request, appended to the buffer. \<open>ht_cap\<close> tells whether the
  access point announced high throughput, \<open>ie\<close> is its parameter element.
\<close>

definition mwifiex_wmm_process_association_req ::
  "bool \<Rightarrow> u8 \<Rightarrow> u8 \<Rightarrow> byte list \<Rightarrow> byte list option \<Rightarrow> bool \<Rightarrow> (byte list \<times> nat) option" where
  "mwifiex_wmm_process_association_req wmm_required bands wmm_qosinfo assoc_buf ie ht_cap =
     (case ie of
        None \<Rightarrow> Some (assoc_buf, 0)
      | Some ie \<Rightarrow> do {
          element_id \<leftarrow> idx ie 0;
          if (wmm_required \<or> ht_cap \<and> (bands AND BAND_GN \<noteq> 0 \<or> bands AND BAND_AN \<noteq> 0)) \<and>
             element_id = WLAN_EID_VENDOR_SPECIFIC
          then do {
            qos_info \<leftarrow> idx ie 8;
            let body = (if qos_info AND IEEE80211_WMM_IE_AP_QOSINFO_UAPSD \<noteq> 0
                        then (drop 2 wmm_info_ie)[6 := wmm_qosinfo] else drop 2 wmm_info_ie);
            let tlv = le16 (ucast (wmm_info_ie ! 0)) @ le16 (ucast (wmm_info_ie ! 1)) @ body;
            Some (assoc_buf @ tlv, length tlv)
          } else Some (assoc_buf, 0)
        })"

definition mwifiex_wmm_compute_drv_pkt_delay :: "u32 \<Rightarrow> ba_priv \<Rightarrow> u8" where
  "mwifiex_wmm_compute_drv_pkt_delay queue_delay priv =
     ucast (drop_bit 1 (min queue_delay (drv_pkt_delay_max (wmm priv))))"

section \<open>The sort\<close>

text \<open>
  The two arrays are one array of pairs. The code's order on pairs is that of a number: a
  shorter back-off first, and of two equal ones the higher category.
\<close>

definition bkey :: "u16 \<times> mwifiex_wmm_ac_e \<Rightarrow> nat" where
  "bkey p = unat (fst p) * 4 + (3 - ac_num (snd p))"

definition sort_step :: "('a \<Rightarrow> nat) \<Rightarrow> nat \<Rightarrow> 'a list \<Rightarrow> 'a list" where
  "sort_step key j xs = (if key (xs ! (j - 1)) > key (xs ! j) then swap j xs else xs)"

lemma bkey_less: "bkey p < bkey q \<longleftrightarrow> fst p < fst q \<or> fst p = fst q \<and> snd q < snd p"
proof -
  have le: "ac_num (snd p) \<le> 3" "ac_num (snd q) \<le> 3"
    using ac_num_less [of "snd p"] ac_num_less [of "snd q"] by linarith+
  show ?thesis
  proof (cases "fst p = fst q")
    case True
    with le show ?thesis by (auto simp: bkey_def less_mwifiex_wmm_ac_e_def)
  next
    case False
    then have "unat (fst p) \<noteq> unat (fst q)"
      by (metis word_unat_eq_iff)
    with False le show ?thesis
      by (auto simp: bkey_def word_less_nat_alt)
  qed
qed

lemma length_swap [simp]: "length (swap j xs) = length xs"
  by (simp add: swap_def)

lemma swap_same: "xs ! (j - 1) = xs ! j \<Longrightarrow> swap j xs = xs"
  by (simp add: swap_def) (metis list_update_id)

lemma zip_swap:
  "j < length xs \<Longrightarrow> length xs = length ys \<Longrightarrow> zip (swap j xs) (swap j ys) = swap j (zip xs ys)"
  by (simp add: swap_def zip_update)

lemma bubble_step_zip:
  assumes "length tmp = length qp" and "j < length tmp" and "bubble_step j (tmp, qp) = (tmp', qp')"
  shows "length tmp' = length tmp \<and> length qp' = length qp \<and> zip tmp' qp' = sort_step bkey j (zip tmp qp)"
proof -
  have eq: "tmp ! (j - 1) = tmp ! j \<Longrightarrow> zip tmp (swap j qp) = swap j (zip tmp qp)"
    using zip_swap [of j tmp qp] assms(1,2) swap_same [of tmp j] by simp
  have "j - 1 < length tmp" using assms(2) by simp
  then have key: "bkey (zip tmp qp ! (j - 1)) > bkey (zip tmp qp ! j) \<longleftrightarrow>
      tmp ! (j - 1) > tmp ! j \<or> tmp ! (j - 1) = tmp ! j \<and> qp ! (j - 1) < qp ! j"
    using assms(1,2) by (auto simp: bkey_less)
  show ?thesis
    using assms(3) zip_swap [OF assms(2,1)] eq unfolding sort_step_def key
    by (auto simp: bubble_step_def split: if_splits)
qed

lemma bubble_steps_zip:
  assumes "length tmp = length qp" and "\<forall>j \<in> set js. j < length tmp" and "fold bubble_step js (tmp, qp) = (tmp', qp')"
  shows "length tmp' = length tmp \<and> length qp' = length qp \<and> zip tmp' qp' = fold (sort_step bkey) js (zip tmp qp)"
  using assms
proof (induction js arbitrary: tmp qp)
  case (Cons j js)
  obtain t q where tq: "bubble_step j (tmp, qp) = (t, q)" by fastforce
  have "length t = length tmp \<and> length q = length qp \<and> zip t q = sort_step bkey j (zip tmp qp)"
    using bubble_step_zip [OF _ _ tq] Cons.prems(1,2) by simp
  then show ?case
    using Cons.IH [of t q] Cons.prems tq by simp
qed simp

lemma bubble_passes_zip:
  assumes "length tmp = length qp" and "fold (\<lambda>i. fold bubble_step [1..<length tmp - i]) is (tmp, qp) = (tmp', qp')"
  shows "length tmp' = length tmp \<and> length qp' = length qp \<and>
    zip tmp' qp' = fold (\<lambda>i. fold (sort_step bkey) [1..<length tmp - i]) is (zip tmp qp)"
  using assms
proof (induction "is" arbitrary: tmp qp)
  case (Cons i "is")
  obtain t q where tq: "fold bubble_step [1..<length tmp - i] (tmp, qp) = (t, q)" by fastforce
  have "\<forall>j \<in> set [1..<length tmp - i]. j < length tmp"
    by auto
  note bubble_steps_zip [OF Cons.prems(1) this tq]
  with Cons.IH [of t q] Cons.prems tq show ?case
    by simp
qed simp

text \<open>A pass moves the greatest pair of its range to the end of the range.\<close>

lemma take_swap: "j < n \<Longrightarrow> take n (swap j xs) = swap j (take n xs)"
  by (simp add: swap_def take_update_swap)

lemma mset_swap_step: "j < length xs \<Longrightarrow> mset (swap j xs) = mset xs"
  using mset_swap [of "j - 1" xs j] by (simp add: swap_def) (metis less_imp_diff_less list_update_swap mset_swap)

lemma sort_pass:
  fixes key :: "'a \<Rightarrow> nat"
  assumes "1 \<le> m" and "m \<le> length xs"
  defines "ys \<equiv> fold (sort_step key) [1..<m] xs"
  shows "length ys = length xs \<and> mset (take m ys) = mset (take m xs) \<and> drop m ys = drop m xs \<and>
    (\<forall>i < m. key (ys ! i) \<le> key (ys ! (m - 1)))"
  using assms(1,2) unfolding ys_def
proof (induction m rule: dec_induct)
  case (step m)
  define ys where "ys = fold (sort_step key) [1..<m] xs"
  have len: "m < length xs" "1 \<le> m"
    using step by simp_all
  have ys: "length ys = length xs" "mset (take m ys) = mset (take m xs)" "drop m ys = drop m xs"
    "\<And>i. i < m \<Longrightarrow> key (ys ! i) \<le> key (ys ! (m - 1))"
    using step by (simp_all add: ys_def)
  have fold: "fold (sort_step key) [1..<Suc m] xs = sort_step key m ys"
    using len(2) by (simp add: ys_def)
  have at: "ys ! m = xs ! m"
    using ys(1,3) len(1) by (metis hd_drop_conv_nth)
  have "mset (take (Suc m) ys) = mset (take (Suc m) xs)"
    using ys(1,2) len(1) at by (simp add: take_Suc_conv_app_nth)
  moreover have "mset (swap m (take (Suc m) ys)) = mset (take (Suc m) ys)"
    using ys(1) len(1) by (intro mset_swap_step) simp
  moreover have "drop (Suc m) (swap m ys) = drop (Suc m) ys"
    by (simp add: swap_def)
  moreover have "drop (Suc m) ys = drop (Suc m) xs"
    using ys(3) by (metis drop_Suc drop_tl tl_drop)
  moreover have "\<forall>i < Suc m. key (sort_step key m ys ! i) \<le> key (sort_step key m ys ! m)"
  proof (cases "key (ys ! (m - 1)) > key (ys ! m)")
    case True
    then show ?thesis
      using ys(1,4) len by (auto simp: sort_step_def swap_def nth_list_update less_Suc_eq)
  next
    case False
    then have "\<And>i. i < m \<Longrightarrow> key (ys ! i) \<le> key (ys ! m)"
      using ys(4) by (meson le_trans linorder_not_less)
    with False show ?thesis
      by (auto simp: sort_step_def less_Suc_eq)
  qed
  ultimately show ?case
    unfolding fold using ys(1) by (simp add: sort_step_def take_swap)
qed simp

lemma sort_passes:
  fixes key :: "'a \<Rightarrow> nat"
  assumes "k \<le> length xs"
  defines "ys \<equiv> fold (\<lambda>i. fold (sort_step key) [1..<length xs - i]) [0..<k] xs"
  shows "length ys = length xs \<and> mset ys = mset xs \<and>
    (\<forall>i j. i < j \<and> j < length xs \<and> length xs - k \<le> j \<longrightarrow> key (ys ! i) \<le> key (ys ! j))"
  using assms(1) unfolding ys_def
proof (induction k)
  case (Suc k)
  define ys where "ys = fold (\<lambda>i. fold (sort_step key) [1..<length xs - i]) [0..<k] xs"
  define m where "m = length xs - k"
  define zs where "zs = fold (sort_step key) [1..<m] ys"
  have ys: "length ys = length xs" "mset ys = mset xs"
    "\<And>i j. i < j \<Longrightarrow> j < length xs \<Longrightarrow> m \<le> j \<Longrightarrow> key (ys ! i) \<le> key (ys ! j)"
    using Suc unfolding ys_def m_def by auto
  have m: "1 \<le> m" "m \<le> length ys"
    using Suc.prems ys(1) by (simp_all add: m_def)
  have zs: "length zs = length ys" "mset (take m zs) = mset (take m ys)" "drop m zs = drop m ys"
    "\<And>i. i < m \<Longrightarrow> key (zs ! i) \<le> key (zs ! (m - 1))"
    using sort_pass [OF m, of key] unfolding zs_def by blast+
  have same: "zs ! j = ys ! j" if "m \<le> j" "j < length xs" for j
    using zs(1,3) that m ys(1) by (metis le_add_diff_inverse nth_drop)
  have front: "\<exists>i' < m. zs ! i = ys ! i'" if "i < m" for i
  proof -
    have "zs ! i \<in> set (take m zs)"
      using that m zs(1) by (auto simp: in_set_conv_nth intro!: exI [of _ i])
    then have "zs ! i \<in> set (take m ys)"
      using zs(2) by (metis mset_eq_setD)
    then show ?thesis
      using m by (auto simp: in_set_conv_nth)
  qed
  have "key (zs ! i) \<le> key (zs ! j)" if "i < j" "j < length xs" "length xs - Suc k \<le> j" for i j
  proof (cases "m \<le> j")
    case True
    then show ?thesis
      using same [OF True that(2)] same [of i] front [of i] ys(3) that by (cases "i < m") (fastforce, simp)
  next
    case False
    with that have "j = m - 1" "i < m" by (simp_all add: m_def)
    then show ?thesis using zs(4) by simp
  qed
  moreover have "mset zs = mset ys"
    using zs(2,3) by (metis append_take_drop_id mset_append)
  ultimately show ?case
    using zs(1) ys(1,2) by (simp add: zs_def ys_def m_def)
qed simp

lemma bubble_sort_sorts:
  assumes "length tmp = n" and "length qp = n" and "bubble_sort n (tmp, qp) = (tmp', qp')"
  shows "length tmp' = n \<and> length qp' = n \<and> mset (zip tmp' qp') = mset (zip tmp qp) \<and>
    (\<forall>i j. i < j \<and> j < n \<longrightarrow> tmp' ! i < tmp' ! j \<or> tmp' ! i = tmp' ! j \<and> qp' ! j \<le> qp' ! i)"
proof -
  let ?z = "zip tmp qp"
  have z: "length tmp' = n" "length qp' = n"
    "zip tmp' qp' = fold (\<lambda>i. fold (sort_step bkey) [1..<length ?z - i]) [0..<length ?z] ?z"
    using bubble_passes_zip [of tmp qp "[0..<n]" tmp' qp'] assms by (simp_all add: bubble_sort_def)
  have "mset (zip tmp' qp') = mset ?z"
    and key: "\<And>i j. i < j \<Longrightarrow> j < n \<Longrightarrow> bkey (zip tmp' qp' ! i) \<le> bkey (zip tmp' qp' ! j)"
    using sort_passes [of "length ?z" ?z bkey] assms(1,2) unfolding z(3) [symmetric] by auto
  moreover have "tmp' ! i < tmp' ! j \<or> tmp' ! i = tmp' ! j \<and> qp' ! j \<le> qp' ! i" if "i < j" "j < n" for i j
    using key [OF that] bkey_less [of "zip tmp' qp' ! j" "zip tmp' qp' ! i"] that z(1,2)
    by (simp add: not_less [symmetric]) force
  ultimately show ?thesis
    using z(1,2) by blast
qed

section \<open>The order of the queues\<close>

definition param_ac :: "byte list \<Rightarrow> nat \<Rightarrow> mwifiex_wmm_ac_e" where
  "param_ac ie n = aci_ac (ie ! (10 + 4 * n))"

definition param_back_off :: "byte list \<Rightarrow> nat \<Rightarrow> u16" where
  "param_back_off ie n = avg_back_off (ie ! (11 + 4 * n)) (ie ! (10 + 4 * n))"

lemma set_acs: "set [a, b, c, d] = (UNIV :: mwifiex_wmm_ac_e set)" if "distinct [a, b, c, d]"
proof -
  have univ: "(UNIV :: mwifiex_wmm_ac_e set) = set all_acs"
    by (auto simp: all_acs_def intro: mwifiex_wmm_ac_e.exhaust)
  have "card (UNIV :: mwifiex_wmm_ac_e set) = 4" "finite (UNIV :: mwifiex_wmm_ac_e set)"
    unfolding univ by (simp_all add: all_acs_def)
  moreover have "card (set [a, b, c, d]) = 4"
    using distinct_card [OF that] by simp
  ultimately show ?thesis
    by (intro card_subset_eq) simp_all
qed

lemma read_ac_params_all:
  assumes "length tmp = 4" and "length qp = 4" and "26 \<le> length ie" and "distinct (map (param_ac ie) [0..<4])"
  shows "\<exists>t. read_ac_params ie [0..<4] (tmp, qp) = Some (t, all_acs) \<and> length t = 4 \<and>
    (\<forall>n < 4. t ! ac_num (param_ac ie n) = param_back_off ie n)"
proof -
  have list: "[0..<4] = [0, 1, 2, 3::nat]"
    by (simp add: upt_rec)
  let ?a = "\<lambda>n. param_ac ie n" and ?b = "\<lambda>n. param_back_off ie n"
  define t where "t = tmp[ac_num (?a 0) := ?b 0, ac_num (?a 1) := ?b 1, ac_num (?a 2) := ?b 2, ac_num (?a 3) := ?b 3]"
  define q where "q = qp[ac_num (?a 0) := ?a 0, ac_num (?a 1) := ?a 1, ac_num (?a 2) := ?a 2, ac_num (?a 3) := ?a 3]"
  have diff: "distinct [?a 0, ?a 1, ?a 2, ?a 3]"
    using assms(4) by (simp add: list)
  have read: "read_ac_params ie [0..<4] (tmp, qp) = Some (t, q)"
    using assms(3) by (simp add: list t_def q_def idx_def param_ac_def param_back_off_def Let_def)
  have "q ! ac_num a = a" for a
  proof -
    have "a \<in> {?a 0, ?a 1, ?a 2, ?a 3}"
      using set_acs [OF diff] by simp
    then show ?thesis
      using diff assms(2) by (auto simp: q_def)
  qed
  from this [of WMM_AC_BK] this [of WMM_AC_BE] this [of WMM_AC_VI] this [of WMM_AC_VO]
  have "q = all_acs"
    using assms(2) by (intro nth_equalityI)
      (auto simp: q_def all_acs_def less_Suc_eq numeral_eq_Suc nth_Cons split: nat.splits)
  moreover have "t ! ac_num (?a n) = ?b n" if "n < 4" for n
  proof -
    have "n \<in> {0, 1, 2, 3}"
      using that by auto
    then show ?thesis
      using diff assms(1) by (auto simp: t_def)
  qed
  ultimately show ?thesis
    using read assms(1) by (auto simp: t_def)
qed

lemma order_tids_eq:
  assumes "length tos = 8"
  shows "order_tids [a, b, c, d] tos = ac_to_tid d @ ac_to_tid c @ ac_to_tid b @ ac_to_tid a"
proof -
  obtain t0 t1 t2 t3 t4 t5 t6 t7 where "tos = [t0, t1, t2, t3, t4, t5, t6, t7]"
    using assms by (auto simp: length_Suc_conv numeral_eq_Suc)
  then show ?thesis
    by (cases a; cases b; cases c; cases d)
      (simp_all add: order_tids_def ac_to_tid_def upt_rec numeral_eq_Suc)
qed

lemma invert_tids_steps:
  assumes "k \<le> length tos" and "distinct (map unat tos)" and "\<forall>t \<in> set tos. unat t < length ranks"
  shows "length (fold (\<lambda>i ranks. ranks[unat (tos ! i) := of_nat i]) [0..<k] ranks) = length ranks \<and>
    (\<forall>i < k. fold (\<lambda>i ranks. ranks[unat (tos ! i) := of_nat i]) [0..<k] ranks ! unat (tos ! i) = (of_nat i :: u8))"
  using assms(1)
proof (induction k)
  case (Suc k)
  have "unat (tos ! k) \<noteq> unat (tos ! i)" if "i < k" for i
    using nth_eq_iff_index_eq [OF assms(2), of i k] that Suc.prems by auto
  moreover have "unat (tos ! k) < length ranks"
    using assms(3) Suc.prems by simp
  ultimately show ?case
    using Suc by (auto simp: less_Suc_eq)
qed simp

lemma tids_distinct:
  assumes "distinct [a, b, c, d]"
  shows "distinct (map unat (ac_to_tid d @ ac_to_tid c @ ac_to_tid b @ ac_to_tid a))"
  using assms by (cases a; cases b; cases c; cases d) (simp_all add: ac_to_tid_def)

lemma ac_to_tid_less: "t \<in> set (ac_to_tid a) \<Longrightarrow> unat t < 8"
  by (cases a) (auto simp: ac_to_tid_def)

lemma length_ac_to_tid [simp]: "length (ac_to_tid a) = 2"
  by (cases a) (simp_all add: ac_to_tid_def)

lemma invert_tids_inverse:
  assumes "distinct [a, b, c, d]" and "length ranks = 8" and "i < 8"
    and "tos = ac_to_tid d @ ac_to_tid c @ ac_to_tid b @ ac_to_tid a"
  shows "invert_tids tos ranks ! unat (tos ! i) = of_nat i"
proof -
  have "\<forall>t \<in> set tos. unat t < length ranks"
    using ac_to_tid_less assms(2,4) by auto
  then show ?thesis
    using invert_tids_steps [of 8 tos ranks] tids_distinct [OF assms(1)] assms(3,4)
    by (simp add: invert_tids_def MAX_NUM_TID_def)
qed

lemma bubble_sort_acs:
  assumes "length t = 4" and "bubble_sort 4 (t, all_acs) = (t', qp)"
  shows "length qp = 4" "distinct qp" "set qp = UNIV" "\<And>i. i < 4 \<Longrightarrow> t' ! i = t ! ac_num (qp ! i)"
    "\<And>i j. i < j \<Longrightarrow> j < 4 \<Longrightarrow> t' ! i < t' ! j \<or> t' ! i = t' ! j \<and> qp ! j < qp ! i"
proof -
  have acs: "length all_acs = 4" "distinct all_acs"
    by (simp_all add: all_acs_def)
  have sorted: "length t' = 4" "length qp = 4" "mset (zip t' qp) = mset (zip t all_acs)"
    "\<And>i j. i < j \<Longrightarrow> j < 4 \<Longrightarrow> t' ! i < t' ! j \<or> t' ! i = t' ! j \<and> qp ! j \<le> qp ! i"
    using bubble_sort_sorts [OF assms(1) acs(1) assms(2)] by blast+
  have "mset (map snd (zip t' qp)) = mset (map snd (zip t all_acs))"
    unfolding mset_map sorted(3) by (rule refl)
  then have "mset qp = mset all_acs"
    using assms(1) sorted(1,2) acs(1) by (simp del: mset_map)
  then show qp: "distinct qp" "length qp = 4"
    using acs(2) sorted(2) mset_eq_imp_distinct_iff by blast+
  then obtain a b c d where "qp = [a, b, c, d]"
    by (auto simp: length_Suc_conv numeral_eq_Suc)
  then show "set qp = UNIV"
    using set_acs qp(1) by blast
  show "t' ! i = t ! ac_num (qp ! i)" if "i < 4" for i
  proof -
    have "(t' ! i, qp ! i) \<in> set (zip t' qp)"
      using that sorted(1,2) by (auto simp: set_zip)
    then have "(t' ! i, qp ! i) \<in> set (zip t all_acs)"
      using sorted(3) by (metis mset_eq_setD)
    then obtain k where k: "k < 4" "t' ! i = t ! k" "qp ! i = all_acs ! k"
      using assms(1) acs(1) by (auto simp: set_zip)
    have "ac_num (all_acs ! k) = k"
      using k(1) by (auto simp: all_acs_def less_Suc_eq numeral_eq_Suc)
    with k show ?thesis by simp
  qed
  show "t' ! i < t' ! j \<or> t' ! i = t' ! j \<and> qp ! j < qp ! i" if "i < j" "j < 4" for i j
    using sorted(4) [OF that] nth_eq_iff_index_eq [OF qp(1), of i j] qp(2) that
    by (auto simp: order.order_iff_strict)
qed

text \<open>C13: the queues are ordered as the access point asks. If its element describes all four
  categories, the driver ends up with each category once, those with the shorter average
  back-off first, the higher of two equal ones first; the traffic identifiers are in that order, the
  two of the first category at the top, and the interface's table is the inverse of the order.\<close>

theorem priorities_sorted:
  assumes "wmm_enabled priv" and "26 \<le> length ie" and "distinct (map (param_ac ie) [0..<4])"
    and "length tmp = 4" and "length (queue_priority (wmm priv)) = 4"
    and "length tos = 8" and "length (tos_to_tid_inv priv) = 8"
  shows "\<exists>tos' priv' qp. mwifiex_wmm_setup_queue_priorities tmp (Some ie) tos priv = Some (tos', priv') \<and>
    queue_priority (wmm priv') = qp \<and> length qp = 4 \<and> set qp = UNIV \<and>
    (\<forall>i j m n. i < j \<and> j < 4 \<and> m < 4 \<and> n < 4 \<and> param_ac ie m = qp ! i \<and> param_ac ie n = qp ! j \<longrightarrow>
      param_back_off ie m < param_back_off ie n \<or>
      param_back_off ie m = param_back_off ie n \<and> qp ! j < qp ! i) \<and>
    tos' = ac_to_tid (qp ! 3) @ ac_to_tid (qp ! 2) @ ac_to_tid (qp ! 1) @ ac_to_tid (qp ! 0) \<and>
    (\<forall>i < 8. tos_to_tid_inv priv' ! unat (tos' ! i) = of_nat i) \<and>
    highest_queued_prio (wmm priv') = HIGH_PRIO_TID"
proof -
  obtain t where t: "read_ac_params ie [0..<4] (tmp, queue_priority (wmm priv)) = Some (t, all_acs)"
    "length t = 4" "\<And>n. n < 4 \<Longrightarrow> t ! ac_num (param_ac ie n) = param_back_off ie n"
    using read_ac_params_all [OF assms(4,5,2,3)] by blast
  obtain t' qp where sort: "bubble_sort 4 (t, all_acs) = (t', qp)" by fastforce
  note sorted = bubble_sort_acs [OF t(2) sort]
  obtain a b c d where qp: "qp = [a, b, c, d]"
    using sorted(1) by (auto simp: length_Suc_conv numeral_eq_Suc)
  let ?tos = "ac_to_tid d @ ac_to_tid c @ ac_to_tid b @ ac_to_tid a"
  have res: "mwifiex_wmm_setup_queue_priorities tmp (Some ie) tos priv =
      Some (?tos, priv\<lparr>wmm := (wmm priv)\<lparr>queue_priority := qp, highest_queued_prio := HIGH_PRIO_TID\<rparr>,
        tos_to_tid_inv := invert_tids ?tos (tos_to_tid_inv priv)\<rparr>)"
    using assms(1) order_tids_eq [OF assms(6), of a b c d]
    by (simp add: mwifiex_wmm_setup_queue_priorities_def t(1) sort mwifiex_wmm_queue_priorities_tid_def
        Let_def qp)
  have "param_back_off ie m < param_back_off ie n \<or> param_back_off ie m = param_back_off ie n \<and> qp ! j < qp ! i"
    if "i < j" "j < 4" "m < 4" "n < 4" "param_ac ie m = qp ! i" "param_ac ie n = qp ! j" for i j m n
    using sorted(5) [OF that(1,2)] sorted(4) [of i] sorted(4) [of j] t(3) [OF that(3)] t(3) [OF that(4)] that
    by simp
  moreover have "\<forall>i < 8. invert_tids ?tos (tos_to_tid_inv priv) ! unat (?tos ! i) = of_nat i"
    using invert_tids_inverse [of a b c d, OF _ assms(7)] sorted(2) qp by blast
  ultimately show ?thesis
    unfolding res using sorted(1,3)
    by (intro exI [of _ ?tos] exI [of _ "priv\<lparr>wmm := (wmm priv)\<lparr>queue_priority := qp,
        highest_queued_prio := HIGH_PRIO_TID\<rparr>, tos_to_tid_inv := invert_tids ?tos (tos_to_tid_inv priv)\<rparr>"]
        exI [of _ qp]) (simp add: qp)
qed

text \<open>The parameters of an access point: default back-offs of the standard.\<close>

definition demo_ie :: "byte list" where
  "demo_ie = [221, 24, 0, 0x50, 0xf2, 2, 1, 1, 0, 0,
     0x03, 0xa4, 0, 0, 0x27, 0xa4, 0, 0, 0x42, 0x43, 0, 0, 0x62, 0x32, 0, 0]"

theorem priorities_sorted_witness:
  "\<exists>tos' priv' qp. mwifiex_wmm_setup_queue_priorities [7, 7, 7, 7] (Some demo_ie) tos_to_tid fresh_priv = Some (tos', priv') \<and>
    queue_priority (wmm priv') = qp \<and> set qp = UNIV"
proof -
  have "map (param_ac demo_ie) [0..<4] = [WMM_AC_BE, WMM_AC_BK, WMM_AC_VI, WMM_AC_VO]"
    by code_simp
  then have "distinct (map (param_ac demo_ie) [0..<4])"
    by simp
  from priorities_sorted [OF _ _ this, of fresh_priv "[7, 7, 7, 7]" tos_to_tid] show ?thesis
    by (simp add: fresh_priv_def demo_ie_def tos_to_tid_def) blast
qed

section \<open>Reports\<close>



















text \<open>An access point can make the driver write outside its description. If the first record of
  a report is an element of more than 24 bytes, all of them are copied over the 26 bytes kept
  for it, and what follows.\<close>

theorem status_element_overruns:
  assumes "24 < length body" and "length body \<le> 255" and "length body + 4 \<le> unat resp_size"
    and "length (wmm_ie priv) = 26"
  shows "mwifiex_ret_wmm_get_status tmp (le16 (ucast WLAN_EID_VENDOR_SPECIFIC) @ le16 (of_nat (length body)) @ body)
    resp_size tos priv = None"
proof -
  define E where "E = le16 (ucast WLAN_EID_VENDOR_SPECIFIC) @ le16 (of_nat (length body)) @ body"
  define V where "V = [WLAN_EID_VENDOR_SPECIFIC, 0, WLAN_EID_VENDOR_SPECIFIC, of_nat (length body)] @ body"
  define D where "D = [WLAN_EID_VENDOR_SPECIFIC, of_nat (length body)] @ body"
  have len: "unat (of_nat (length body) :: u16) = length body" "unat (of_nat (length body) :: u8) = length body"
    using assms(2) by (simp_all add: unat_of_nat)
  have E: "get16 E 0 = Some (ucast WLAN_EID_VENDOR_SPECIFIC)" "get16 E 2 = Some (of_nat (length body))"
    by (simp_all add: E_def get16_def load_def)
  obtain E1 where E1: "store E 3 [of_nat (length body)] = Some E1" "store E1 2 [WLAN_EID_VENDOR_SPECIFIC] = Some V"
    by (simp add: E_def V_def store_def le16_def WLAN_EID_VENDOR_SPECIFIC_def)
  have D: "load V 2 (length body + 2) = Some D" "store (wmm_ie priv) 0 D = None"
    using assms(1,4) by (simp_all add: V_def D_def load_def store_def)
  have "ucast WLAN_EID_VENDOR_SPECIFIC \<noteq> TLV_TYPE_WMMQSTATUS"
    by (simp add: WLAN_EID_VENDOR_SPECIFIC_def TLV_TYPE_WMMQSTATUS_def)
  then have "wmm_status_tlvs E 0 (unat resp_size) None priv = None"
    using assms(3) by (subst wmm_status_tlvs.simps)
      (simp add: E E1 D len Let_def del: add_2_eq_Suc')
  then show ?thesis
    unfolding mwifiex_ret_wmm_get_status_def E_def by simp
qed

theorem status_element_overruns_witness:
  "mwifiex_ret_wmm_get_status [0, 0, 0, 0] (le16 (ucast WLAN_EID_VENDOR_SPECIFIC) @ le16 30 @ replicate 30 0)
    34 tos_to_tid fresh_priv = None"
proof -
  have "length (wmm_ie fresh_priv) = 26"
    by (simp add: fresh_priv_def)
  from status_element_overruns [OF _ _ _ this, of "replicate 30 0" 34 "[0, 0, 0, 0]" tos_to_tid] show ?thesis
    by simp
qed

end
