(* ===== verification/Wmm_Queue.thy ===== *)
theory Wmm_Queue
  imports Wmm_Prio
begin

text \<open>
  The transmit queues of an interface in the mwifiex driver, the middle part of
  \<open>doc/mwifiex/wmm.c\<close>: for each traffic identifier a list of receivers, each with a queue of
  packets; adding and deleting receivers, adding packets, pausing receivers, and cleaning up. A counter
  of the packets that may be sent decides whether the driver looks into the queues at all.

  A frame has at least an Ethernet header; shorter ones read as padded with zeros. Deleting
  a receiver frees its entry: a later entry has another address.
\<close>

section \<open>Constants and services\<close>

definition BA_SETUP_MAX_PACKET_THRESHOLD :: u8 where "BA_SETUP_MAX_PACKET_THRESHOLD = 16"
definition BA_SETUP_PACKET_OFFSET :: u8 where "BA_SETUP_PACKET_OFFSET = 16"
definition MWIFIEX_BUF_FLAG_REQUEUED_PKT :: u8 where "MWIFIEX_BUF_FLAG_REQUEUED_PKT = 1"
definition MWIFIEX_BUF_FLAG_TDLS_PKT :: u8 where "MWIFIEX_BUF_FLAG_TDLS_PKT = 4"
definition MWIFIEX_BUF_FLAG_AGGR_PKT :: u8 where "MWIFIEX_BUF_FLAG_AGGR_PKT = 32"
definition TDLS_NOT_SETUP :: u8 where "TDLS_NOT_SETUP = 0"
definition TDLS_SETUP_INPROGRESS :: u8 where "TDLS_SETUP_INPROGRESS = 1"
definition TDLS_SETUP_COMPLETE :: u8 where "TDLS_SETUP_COMPLETE = 2"
definition TDLS_CHAN_SWITCHING :: u8 where "TDLS_CHAN_SWITCHING = 5"
definition TDLS_IN_BASE_CHAN :: u8 where "TDLS_IN_BASE_CHAN = 6"
definition TDLS_IN_OFF_CHAN :: u8 where "TDLS_IN_OFF_CHAN = 7"

text \<open>
  The services: allocating an entry (its address, or none), the time in nanoseconds, and giving a packet
  back to the kernel with its status.
\<close>

record 'w queue_driver =
  drv :: "'w driver"
  alloc_node :: "'w \<Rightarrow> nat option \<times> 'w"
  ktime_get_ns :: "'w \<Rightarrow> 64 word \<times> 'w"
  write_data_complete :: "skb \<Rightarrow> bool \<Rightarrow> int \<Rightarrow> 'w \<Rightarrow> 'w"

definition mwifiex_is_skb_mgmt_frame :: "skb \<Rightarrow> bool" where
  "mwifiex_is_skb_mgmt_frame s = (ld32 (skb_data s) = 0xE5)"

definition mwifiex_get_tdls_link_status :: "ba_priv \<Rightarrow> byte list \<Rightarrow> u8" where
  "mwifiex_get_tdls_link_status priv mac =
     (case mwifiex_get_sta_entry priv mac of None \<Rightarrow> TDLS_NOT_SETUP | Some n \<Rightarrow> tdls_status n)"

definition mwifiex_is_tdls_link_setup :: "u8 \<Rightarrow> bool" where
  "mwifiex_is_tdls_link_setup status =
     (status \<in> {TDLS_SETUP_COMPLETE, TDLS_CHAN_SWITCHING, TDLS_IN_BASE_CHAN, TDLS_IN_OFF_CHAN})"

definition mwifiex_get_random_ba_threshold :: "'w queue_driver \<Rightarrow> 'w \<Rightarrow> u8 \<times> 'w" where
  "mwifiex_get_random_ba_threshold q w =
     (let (ns, w) = ktime_get_ns q w;
          ns = ns + (drop_bit 32 ns + drop_bit 16 ns)
      in (ucast ns mod BA_SETUP_MAX_PACKET_THRESHOLD + BA_SETUP_PACKET_OFFSET, w))"

section \<open>Receivers\<close>

definition mwifiex_wmm_allocate_ralist_node ::
  "'w queue_driver \<Rightarrow> byte list \<Rightarrow> 'w \<Rightarrow> ra_list_tbl option \<times> 'w" where
  "mwifiex_wmm_allocate_ralist_node q ra_addr w =
     (let (p, w) = alloc_node q w
      in (map_option (\<lambda>p. \<lparr>node_at = p, skb_head = [], ra = ra_addr, is_11n_enabled = 0, max_amsdu = 0,
            ba_pkt_count = 0, ba_packet_thr = 0, ra_ba_status = BA_SETUP_NONE, amsdu_in_ampdu = False,
            total_pkt_count = 0, tdls_link = False, tx_paused = False\<rparr>) p, w))"

definition node_11n ::
  "'w queue_driver \<Rightarrow> ba_priv \<Rightarrow> byte list \<Rightarrow> ra_list_tbl \<Rightarrow> ra_list_tbl" where
  "node_11n q priv ra_addr r =
     (if \<not> mwifiex_queuing_ra_based (drv q) priv then
        (if mwifiex_is_tdls_link_setup (mwifiex_get_tdls_link_status priv ra_addr)
         then r\<lparr>tdls_link := True, is_11n_enabled := ucast (mwifiex_tdls_peer_11n_enabled priv ra_addr)\<rparr>
         else r\<lparr>is_11n_enabled := (if bss_11n_enabled priv then 1 else 0)\<rparr>)
      else
        (let node = mwifiex_get_sta_entry priv ra_addr;
             r = (case node of None \<Rightarrow> r | Some n \<Rightarrow> r\<lparr>tx_paused := tx_pause n \<noteq> 0\<rparr>);
             r = r\<lparr>is_11n_enabled := of_int (mwifiex_is_sta_11n_enabled (drv q) priv node)\<rparr>
         in (case node of
               Some n \<Rightarrow> (if is_11n_enabled r \<noteq> 0 then r\<lparr>max_amsdu := sta_max_amsdu n\<rparr> else r)
             | None \<Rightarrow> r)))"

definition new_node ::
  "'w queue_driver \<Rightarrow> ba_priv \<Rightarrow> byte list \<Rightarrow> ra_list_tbl \<Rightarrow> 'w \<Rightarrow> ra_list_tbl \<times> 'w" where
  "new_node q priv ra_addr r w =
     (let r = node_11n q priv ra_addr r
      in if is_11n_enabled r \<noteq> 0
         then (let (thr, w) = mwifiex_get_random_ba_threshold q w
               in (r\<lparr>ba_pkt_count := 0, ba_packet_thr := thr\<rparr>, w))
         else (r, w))"

primrec ralist_add :: "'w queue_driver \<Rightarrow> nat list \<Rightarrow> byte list \<Rightarrow> ba_priv \<Rightarrow> 'w \<Rightarrow> ba_priv \<times> 'w" where
  "ralist_add q [] ra_addr priv w = (priv, w)"
| "ralist_add q (i # is) ra_addr priv w =
     (case mwifiex_wmm_allocate_ralist_node q ra_addr w of
        (None, w) \<Rightarrow> (priv, w)
      | (Some r, w) \<Rightarrow>
          (let (r, w) = new_node q priv ra_addr r w
           in ralist_add q is ra_addr (priv\<lparr>ra_lists := (ra_lists priv)[i := ra_lists priv ! i @ [r]]\<rparr>) w))"

definition mwifiex_ralist_add :: "'w queue_driver \<Rightarrow> byte list \<Rightarrow> ba_priv \<Rightarrow> 'w \<Rightarrow> ba_priv \<times> 'w" where
  "mwifiex_ralist_add q ra_addr priv w = ralist_add q [0..<MAX_NUM_TID] ra_addr priv w"

definition mwifiex_wmm_get_queue_raptr ::
  "'w queue_driver \<Rightarrow> u8 \<Rightarrow> byte list \<Rightarrow> ba_priv \<Rightarrow> 'w \<Rightarrow> (nat option \<times> ba_priv \<times> 'w) option" where
  "mwifiex_wmm_get_queue_raptr q t ra_addr priv w = do {
     ptr \<leftarrow> mwifiex_wmm_get_ralist_node priv t ra_addr;
     if ptr \<noteq> None then Some (ptr, priv, w)
     else do {
       let (priv, w) = mwifiex_ralist_add q ra_addr priv w;
       ptr \<leftarrow> mwifiex_wmm_get_ralist_node priv t ra_addr;
       Some (ptr, priv, w)
     }
   }"

definition mwifiex_is_ralist_valid :: "ba_priv \<Rightarrow> nat \<Rightarrow> nat \<Rightarrow> bool" where
  "mwifiex_is_ralist_valid priv ra_list ptr_index =
     (\<exists>r \<in> set (ra_lists priv ! ptr_index). node_at r = ra_list)"

section \<open>Packets in\<close>

text \<open>A change of the receiver at position \<open>i\<close> of a list.\<close>

definition upd_ra :: "nat \<Rightarrow> nat \<Rightarrow> (ra_list_tbl \<Rightarrow> ra_list_tbl) \<Rightarrow> ba_priv \<Rightarrow> ba_priv" where
  "upd_ra t i f priv = priv\<lparr>ra_lists := (ra_lists priv)[t := (ra_lists priv ! t)[i := f (ra_lists priv ! t ! i)]]\<rparr>"

definition mwifiex_wmm_add_buf_bypass_txqueue :: "skb \<Rightarrow> ba_priv \<Rightarrow> ba_priv" where
  "mwifiex_wmm_add_buf_bypass_txqueue s priv = priv\<lparr>bypass_txq := bypass_txq priv @ [s]\<rparr>"

text \<open>The packet at the end of a receiver's queue, with all counters.\<close>

definition put_packet :: "nat \<Rightarrow> nat \<Rightarrow> skb \<Rightarrow> ba_priv \<Rightarrow> ba_priv" where
  "put_packet t i s priv =
     (let priv = upd_ra t i (\<lambda>r. r\<lparr>skb_head := skb_head r @ [s], ba_pkt_count := ba_pkt_count r + 1,
            total_pkt_count := total_pkt_count r + 1\<rparr>) priv;
          m = wmm priv;
          prio = uint (tos_to_tid_inv priv ! t);
          m = (if highest_queued_prio m < prio then m\<lparr>highest_queued_prio := prio\<rparr> else m);
          m = (if tx_paused (ra_lists priv ! t ! i)
               then m\<lparr>pkts_paused := (pkts_paused m)[t := pkts_paused m ! t + 1]\<rparr>
               else m\<lparr>tx_pkts_queued := tx_pkts_queued m + 1\<rparr>)
      in priv\<lparr>wmm := m\<rparr>)"

text \<open>
  Where a packet goes: to the queue for direct links that are being set up, or to a receiver,
  which may be the null pointer. In the infrastructure case the code asks a copy of
  the head of the list for its first entry. An empty list's head points to itself, but its copy points to
  the original: the answer for an empty list is the original head taken for an entry.
\<close>

datatype target = Tdls_Queue | Receiver "nat option"

definition find_target ::
  "'w queue_driver \<Rightarrow> skb \<Rightarrow> u8 \<Rightarrow> u8 \<Rightarrow> ba_priv \<Rightarrow> 'w \<Rightarrow> (target \<times> skb \<times> ba_priv \<times> 'w) option" where
  "find_target q s tdls_st tid_down priv w =
     (let h_dest = take 6 (skb_data s)
      in if \<not> mwifiex_queuing_ra_based (drv q) priv \<and> \<not> mwifiex_is_skb_mgmt_frame s then
           (if mwifiex_is_tdls_link_setup tdls_st then do {
              (ptr, priv, w) \<leftarrow> mwifiex_wmm_get_queue_raptr q tid_down h_dest priv w;
              Some (Receiver ptr, s\<lparr>tx_flags := tx_flags s OR MWIFIEX_BUF_FLAG_TDLS_PKT\<rparr>, priv, w)
            } else if tdls_st = TDLS_SETUP_INPROGRESS then Some (Tdls_Queue, s, priv, w)
            else do {
              rs \<leftarrow> idx (ra_lists priv) (unat tid_down);
              if rs = [] then None else Some (Receiver (Some 0), s, priv, w)
            })
         else
           (let ra_addr = (if bit (h_dest ! 0) 0 \<or> mwifiex_is_skb_mgmt_frame s then replicate 6 0xff else h_dest)
            in do {
              (ptr, priv, w) \<leftarrow> mwifiex_wmm_get_queue_raptr q tid_down ra_addr priv w;
              Some (Receiver ptr, s, priv, w)
            }))"

definition mwifiex_wmm_add_buf_txqueue ::
  "'w queue_driver \<Rightarrow> skb \<Rightarrow> ba_priv \<Rightarrow> 'w \<Rightarrow> (ba_priv \<times> 'w) option" where
  "mwifiex_wmm_add_buf_txqueue q s priv w =
     (let ra_addr = take 6 (skb_data s);
          tdls_st = (if GET_BSS_ROLE (drv q) = MWIFIEX_BSS_ROLE_STA \<and> tdls_enabled (up (drv q)) \<and>
                h_proto (skb_data s) \<noteq> ETH_P_TDLS \<and> cfg_bssid priv \<noteq> ra_addr
              then mwifiex_get_tdls_link_status priv ra_addr else TDLS_NOT_SETUP)
      in if \<not> connected priv \<and> \<not> mwifiex_is_skb_mgmt_frame s then Some (priv, write_data_complete q s False (-1) w)
         else do {
           let tid_down = mwifiex_wmm_downgrade_tid priv (priority s);
           (tgt, s, priv, w) \<leftarrow> find_target q s tdls_st tid_down priv w;
           (case tgt of
              Tdls_Queue \<Rightarrow> Some (priv\<lparr>tdls_txq := tdls_txq priv @ [s]\<rparr>, w)
            | Receiver None \<Rightarrow> Some (priv, write_data_complete q s False (-1) w)
            | Receiver (Some i) \<Rightarrow> Some (put_packet (unat tid_down) i s priv, w))
         })"

section \<open>Pausing receivers\<close>

text \<open>The flag of a receiver is compared with the byte of the event as numbers.\<close>

definition pause_differs :: "ra_list_tbl \<Rightarrow> u8 \<Rightarrow> bool" where
  "pause_differs r pause \<longleftrightarrow> (if tx_paused r then 1 else 0) \<noteq> pause"

text \<open>One receiver of list \<open>t\<close>; \<open>cnt\<close> counts the packets concerned.\<close>

definition pause_ra :: "u8 \<Rightarrow> nat \<Rightarrow> nat \<Rightarrow> u32 \<times> ba_priv \<Rightarrow> u32 \<times> ba_priv" where
  "pause_ra pause t i s =
     (let (cnt, priv) = s; r = ra_lists priv ! t ! i
      in if pause_differs r pause then
           (let n = ucast (total_pkt_count r);
                priv = upd_ra t i (\<lambda>r. r\<lparr>tx_paused := pause \<noteq> 0\<rparr>) priv;
                m = wmm priv;
                p = (if pause \<noteq> 0 then pkts_paused m ! t + n else pkts_paused m ! t - n)
            in (cnt + n, priv\<lparr>wmm := m\<lparr>pkts_paused := (pkts_paused m)[t := p]\<rparr>\<rparr>))
         else (cnt, priv))"

definition move_counts :: "u8 \<Rightarrow> u32 \<Rightarrow> ba_priv \<Rightarrow> ba_priv" where
  "move_counts pause cnt priv =
     (if cnt \<noteq> 0 then
        (let m = wmm priv;
             n = (if pause \<noteq> 0 then tx_pkts_queued m - cnt else tx_pkts_queued m + cnt)
         in priv\<lparr>wmm := m\<lparr>tx_pkts_queued := n, highest_queued_prio := HIGH_PRIO_TID\<rparr>\<rparr>)
      else priv)"

primrec pause_tids :: "byte list \<Rightarrow> u8 \<Rightarrow> nat list \<Rightarrow> u32 \<times> ba_priv \<Rightarrow> (u32 \<times> ba_priv) option" where
  "pause_tids mac pause [] s = Some s"
| "pause_tids mac pause (t # ts) s = do {
     ptr \<leftarrow> mwifiex_wmm_get_ralist_node (snd s) (of_nat t) mac;
     pause_tids mac pause ts (case ptr of None \<Rightarrow> s | Some i \<Rightarrow> pause_ra pause t i s)
   }"

definition mwifiex_update_ralist_tx_pause :: "byte list \<Rightarrow> u8 \<Rightarrow> ba_priv \<Rightarrow> ba_priv option" where
  "mwifiex_update_ralist_tx_pause mac pause priv = do {
     (cnt, priv) \<leftarrow> pause_tids mac pause [0..<MAX_NUM_TID] (0, priv);
     Some (move_counts pause cnt priv)
   }"

text \<open>All receivers but one, while a direct link is on another channel.\<close>

definition pause_others :: "byte list \<Rightarrow> u8 \<Rightarrow> nat \<Rightarrow> u32 \<times> ba_priv \<Rightarrow> u32 \<times> ba_priv" where
  "pause_others mac pause t s =
     fold (\<lambda>i s. if ra (ra_lists (snd s) ! t ! i) = mac then s else pause_ra pause t i s)
       [0..<length (ra_lists (snd s) ! t)] s"

definition mwifiex_update_ralist_tx_pause_in_tdls_cs :: "byte list \<Rightarrow> u8 \<Rightarrow> ba_priv \<Rightarrow> ba_priv" where
  "mwifiex_update_ralist_tx_pause_in_tdls_cs mac pause priv =
     (let (cnt, priv) = fold (pause_others mac pause) [0..<MAX_NUM_TID] (0, priv)
      in move_counts pause cnt priv)"

section \<open>Cleaning up\<close>

text \<open>The packets of a receiver are given back; its counters stay.\<close>

definition mwifiex_wmm_del_pkts_in_ralist_node :: "'w queue_driver \<Rightarrow> ra_list_tbl \<Rightarrow> 'w \<Rightarrow> ra_list_tbl \<times> 'w" where
  "mwifiex_wmm_del_pkts_in_ralist_node q r w =
     (r\<lparr>skb_head := []\<rparr>, fold (\<lambda>s. write_data_complete q s False (-1)) (skb_head r) w)"

fun mwifiex_wmm_del_pkts_in_ralist ::
  "'w queue_driver \<Rightarrow> ra_list_tbl list \<Rightarrow> 'w \<Rightarrow> ra_list_tbl list \<times> 'w" where
  "mwifiex_wmm_del_pkts_in_ralist q [] w = ([], w)"
| "mwifiex_wmm_del_pkts_in_ralist q (r # rs) w =
     (let (r, w) = mwifiex_wmm_del_pkts_in_ralist_node q r w;
          (rs, w) = mwifiex_wmm_del_pkts_in_ralist q rs w
      in (r # rs, w))"

primrec cleanup_tids :: "'w queue_driver \<Rightarrow> nat list \<Rightarrow> ba_priv \<Rightarrow> 'w \<Rightarrow> ba_priv \<times> 'w" where
  "cleanup_tids q [] priv w = (priv, w)"
| "cleanup_tids q (t # ts) priv w =
     (let (rs, w) = mwifiex_wmm_del_pkts_in_ralist q (ra_lists priv ! t) w
      in cleanup_tids q ts (priv\<lparr>ra_lists := (ra_lists priv)[t := rs]\<rparr>) w)"

definition mwifiex_wmm_cleanup_queues :: "'w queue_driver \<Rightarrow> ba_priv \<Rightarrow> 'w \<Rightarrow> ba_priv \<times> 'w" where
  "mwifiex_wmm_cleanup_queues q priv w =
     (let (priv, w) = cleanup_tids q [0..<MAX_NUM_TID] priv w
      in (priv\<lparr>wmm := (wmm priv)\<lparr>tx_pkts_queued := 0, highest_queued_prio := HIGH_PRIO_TID\<rparr>\<rparr>, w))"

definition mwifiex_wmm_delete_all_ralist :: "ba_priv \<Rightarrow> ba_priv" where
  "mwifiex_wmm_delete_all_ralist priv = priv\<lparr>ra_lists := map (\<lambda>_. []) (ra_lists priv)\<rparr>"

text \<open>
  The whole clean-up, with the reorder tables and streams. The optional clean-up of the bus, the frames
  that wait for an acknowledgement and the counter of the bypass queue are left out; the order
  of the traffic identifiers goes back to the table.
\<close>

definition mwifiex_clean_txrx :: "'w queue_driver \<Rightarrow> u8 list \<Rightarrow> ba_priv \<Rightarrow> 'w \<Rightarrow> (u8 list \<times> ba_priv \<times> 'w) option" where
  "mwifiex_clean_txrx q tos priv w = do {
     (priv, w) \<leftarrow> mwifiex_11n_cleanup_reorder_tbl (drv q) priv w;
     let (priv, w) = mwifiex_wmm_cleanup_queues q priv w;
     priv \<leftarrow> mwifiex_11n_delete_all_tx_ba_stream_tbl priv;
     let priv = mwifiex_wmm_delete_all_ralist priv;
     let w = fold (\<lambda>s. write_data_complete q s False (-1)) (tdls_txq priv) w;
     let w = fold (\<lambda>s. write_data_complete q s False (-1)) (bypass_txq priv) w;
     Some (concat (map ac_to_tid all_acs), priv\<lparr>tdls_txq := [], bypass_txq := []\<rparr>, w)
   }"

primrec del_peer :: "'w queue_driver \<Rightarrow> byte list \<Rightarrow> nat list \<Rightarrow> ba_priv \<Rightarrow> 'w \<Rightarrow> (ba_priv \<times> 'w) option" where
  "del_peer q ra_addr [] priv w = Some (priv, w)"
| "del_peer q ra_addr (t # ts) priv w = do {
     ptr \<leftarrow> mwifiex_wmm_get_ralist_node priv (of_nat t) ra_addr;
     (case ptr of
        None \<Rightarrow> del_peer q ra_addr ts priv w
      | Some i \<Rightarrow>
          (let r = ra_lists priv ! t ! i;
               (_, w) = mwifiex_wmm_del_pkts_in_ralist_node q r w;
               n = ucast (total_pkt_count r);
               m = wmm priv;
               m = (if tx_paused r then m\<lparr>pkts_paused := (pkts_paused m)[t := pkts_paused m ! t - n]\<rparr>
                    else m\<lparr>tx_pkts_queued := tx_pkts_queued m - n\<rparr>)
           in del_peer q ra_addr ts (priv\<lparr>wmm := m, ra_lists := (ra_lists priv)[t := remove_at i (ra_lists priv ! t)]\<rparr>) w))
   }"

definition mwifiex_wmm_del_peer_ra_list :: "'w queue_driver \<Rightarrow> byte list \<Rightarrow> ba_priv \<Rightarrow> 'w \<Rightarrow> (ba_priv \<times> 'w) option" where
  "mwifiex_wmm_del_peer_ra_list q ra_addr priv w = del_peer q ra_addr [0..<MAX_NUM_TID] priv w"

text \<open>The start of an interface.\<close>

definition mwifiex_wmm_init :: "bool \<Rightarrow> u16 \<Rightarrow> 'w driver \<Rightarrow> ba_priv \<Rightarrow> ba_priv" where
  "mwifiex_wmm_init disable_tx_amsdu tx_buf_size d priv =
     (let pr = (\<lambda>i. tos_to_tid_inv priv ! i);
          tbl = map (\<lambda>i. if i = 6 \<or> i = 7
              then \<lparr>ampdu_user = BA_STREAM_NOT_ALLOWED, ampdu_ap = BA_STREAM_NOT_ALLOWED, amsdu_prio = BA_STREAM_NOT_ALLOWED\<rparr>
              else \<lparr>ampdu_user = pr i, ampdu_ap = pr i,
                amsdu_prio = (if \<not> disable_tx_amsdu \<and> tx_buf_size > MWIFIEX_TX_DATA_BUF_SIZE_2K then pr i
                              else BA_STREAM_NOT_ALLOWED)\<rparr>) [0..<MAX_NUM_TID];
          priv = mwifiex_reset_11n_rx_seq_num (mwifiex_set_ba_params d (priv\<lparr>aggr_prio_tbl := tbl\<rparr>))
      in priv\<lparr>wmm := (wmm priv)\<lparr>drv_pkt_delay_max := MWIFIEX_WMM_DRV_DELAY_MAX, tx_pkts_queued := 0,
           highest_queued_prio := HIGH_PRIO_TID\<rparr>\<rparr>)"

end
