(* ===== verification/Tx_Desc.thy ===== *)
theory Tx_Desc
  imports Wmm_Queue
begin

text \<open>
  The descriptor that the mwifiex driver puts in front of a packet for the chip, \<open>doc/mwifiex/sta_tx.c\<close>
  and the end of \<open>uap_txrx.c\<close>, and the state of the adapter that sending shares: for each level of priority
  the interfaces in turn, the queue of packets that are ready for the bus, and the marks of
  power saving. An interface is known by its number.
\<close>

section \<open>Constants\<close>

definition MWIFIEX_DMA_ALIGN_SZ :: nat where "MWIFIEX_DMA_ALIGN_SZ = 64"
definition INTF_HDR_ALIGN :: nat where "INTF_HDR_ALIGN = 4"
definition MAX_TXPD_SZ :: nat where "MAX_TXPD_SZ = 32"
definition MWIFIEX_MIN_DATA_HEADER_LEN :: nat where
  "MWIFIEX_MIN_DATA_HEADER_LEN = MWIFIEX_DMA_ALIGN_SZ + INTF_HDR_ALIGN + MAX_TXPD_SZ"
definition MWIFIEX_MGMT_FRAME_HEADER_SIZE :: u16 where "MWIFIEX_MGMT_FRAME_HEADER_SIZE = 8"
definition MWIFIEX_TxPD_POWER_MGMT_LAST_PACKET :: u8 where "MWIFIEX_TxPD_POWER_MGMT_LAST_PACKET = 0x08"
definition MWIFIEX_TXPD_FLAGS_TDLS_PACKET :: u8 where "MWIFIEX_TXPD_FLAGS_TDLS_PACKET = 0x10"
definition MWIFIEX_TXPD_FLAGS_REQ_TX_STATUS :: u8 where "MWIFIEX_TXPD_FLAGS_REQ_TX_STATUS = 0x20"
definition MWIFIEX_BUF_FLAG_EAPOL_TX_STATUS :: u8 where "MWIFIEX_BUF_FLAG_EAPOL_TX_STATUS = 8"
definition MWIFIEX_BUF_FLAG_ACTION_TX_STATUS :: u8 where "MWIFIEX_BUF_FLAG_ACTION_TX_STATUS = 16"
definition WMM_HIGHEST_PRIORITY :: u8 where "WMM_HIGHEST_PRIORITY = 7"
definition PKT_TYPE_MGMT :: u32 where "PKT_TYPE_MGMT = 0xE5"
definition NULL_PACKET_HDR :: nat where "NULL_PACKET_HDR = 64"
definition EBUSY :: int where "EBUSY = 16"
definition EINPROGRESS :: int where "EINPROGRESS = 115"

text \<open>The kinds of bus, \<open>mwifiex_iface_type\<close>.\<close>

datatype mwifiex_iface_type = MWIFIEX_SDIO | MWIFIEX_PCIE | MWIFIEX_USB

definition txpd_fields :: "cfield list" where
  "txpd_fields = [(''bss_type'', CI8), (''bss_num'', CI8), (''tx_pkt_length'', CI16), (''tx_pkt_offset'', CI16),
     (''tx_pkt_type'', CI16), (''tx_control'', CI32), (''priority'', CI8), (''flags'', CI8), (''pkt_delay_2ms'', CI8),
     (''reserved1'', CArr 2 CI8), (''tx_token_id'', CI8), (''reserved'', CArr 2 CI8)]"

lemma txpd_layout:
  "field_offsets 0 txpd_fields = [(''bss_type'', 0), (''bss_num'', 1), (''tx_pkt_length'', 2), (''tx_pkt_offset'', 4),
     (''tx_pkt_type'', 6), (''tx_control'', 8), (''priority'', 12), (''flags'', 13), (''pkt_delay_2ms'', 14),
     (''reserved1'', 15), (''tx_token_id'', 17), (''reserved'', 18)]"
  "sizeof txpd_fields = 20"
  by (simp_all add: txpd_fields_def)

section \<open>State and services\<close>

text \<open>
  \<open>bss_prio_tbl\<close> has for each level the interfaces in their order, \<open>bss_prio_cur\<close> the position of the
  one looked at last; \<open>tos\<close> is the static array that orders the traffic identifiers of all interfaces. \<open>sleep_period\<close> is
  \<open>sleep_period.period\<close>, \<open>curr_cmd\<close> and \<open>cmd_pending\<close> say that there is a current command and that commands wait.
\<close>

record tx_adapter = adapter +
  bss_prio_tbl :: "nat list list"
  bss_prio_cur :: "nat list"
  tos :: "u8 list"
  tx_buf_size :: nat
  data_sent :: bool
  tx_lock_flag :: bool
  tx_queued :: int
  tx_data_q :: "skb list"
  iface_type :: mwifiex_iface_type
  intf_hdr_len :: nat
  pps_uapsd_mode :: bool
  sleep_period :: u16
  cmd_sent :: bool
  curr_cmd :: bool
  cmd_pending :: bool
  delay_null_pkt :: bool
  bypass_tx_pending :: int
  surprise_removed :: bool
  num_tx_host_to_card_failure :: u32

text \<open>
  The services: those of the queues by interface, whether the bus is ready for an interface, sending to the bus with the
  length of the next packet (the answer, and the new value of \<open>data_sent\<close>), the time a packet has waited in
  milliseconds, buffers for aggregates (with their size and what they hold) and for empty frames (with the space in front reserved), giving back such a
  frame, and what other threads do to the adapter before a lock is taken again.
\<close>

record 'w tx_driver =
  qd :: "nat \<Rightarrow> 'w queue_driver"
  is_port_ready :: "nat \<Rightarrow> 'w \<Rightarrow> bool"
  host_to_card :: "nat \<Rightarrow> skb \<Rightarrow> nat \<Rightarrow> 'w \<Rightarrow> int \<times> bool \<times> 'w"
  queue_delay :: "skb \<Rightarrow> 'w \<Rightarrow> u32"
  alloc_dma_align_buf :: "nat \<Rightarrow> 'w \<Rightarrow> (skb \<times> nat \<times> (nat \<Rightarrow> byte)) option \<times> 'w"
  dev_alloc_skb :: "nat \<Rightarrow> 'w \<Rightarrow> skb option \<times> 'w"
  dev_kfree_skb_any :: "skb \<Rightarrow> 'w \<Rightarrow> 'w"
  meanwhile :: "tx_adapter \<Rightarrow> 'w \<Rightarrow> tx_adapter \<times> 'w"

definition tx_role :: "'w tx_driver \<Rightarrow> nat \<Rightarrow> u8" where
  "tx_role tx i = GET_BSS_ROLE (drv (qd tx i))"

text \<open>An interface that may send: its port is open and the bus is ready for it.\<close>

definition port_closed :: "ba_priv \<Rightarrow> bool" where
  "port_closed priv \<longleftrightarrow> \<not> port_open priv \<and> mode priv \<noteq> IFTYPE_ADHOC"

definition mwifiex_wmm_lists_empty :: "'w tx_driver \<Rightarrow> tx_adapter \<Rightarrow> 'w \<Rightarrow> bool" where
  "mwifiex_wmm_lists_empty tx a w =
     list_all (\<lambda>(i, p). case p of None \<Rightarrow> True
       | Some priv \<Rightarrow> port_closed priv \<or> \<not> is_port_ready tx i w \<or> tx_pkts_queued (wmm priv) = 0)
       (enumerate 0 (privs a))"

definition mwifiex_bypass_txlist_empty :: "'w tx_driver \<Rightarrow> tx_adapter \<Rightarrow> 'w \<Rightarrow> bool" where
  "mwifiex_bypass_txlist_empty tx a w =
     list_all (\<lambda>(i, p). case p of None \<Rightarrow> True
       | Some priv \<Rightarrow> \<not> is_port_ready tx i w \<or> bypass_txq priv = [])
       (enumerate 0 (privs a))"

definition mwifiex_get_priv_by_id :: "tx_adapter \<Rightarrow> u8 \<Rightarrow> u8 \<Rightarrow> nat option" where
  "mwifiex_get_priv_by_id a num type =
     first_index (\<lambda>p. case p of None \<Rightarrow> False | Some priv \<Rightarrow> bss_num priv = num \<and> bss_type priv = type) (privs a)"

section \<open>The descriptor\<close>

text \<open>
  Whether this is the last packet before the chip may sleep: only with a sleep period, nothing else queued and no
  command under way.
\<close>

definition mwifiex_check_last_packet_indication :: "'w tx_driver \<Rightarrow> tx_adapter \<Rightarrow> 'w \<Rightarrow> bool \<times> tx_adapter" where
  "mwifiex_check_last_packet_indication tx a w =
     (if sleep_period a = 0 then (False, a)
      else
        (let ret = mwifiex_wmm_lists_empty tx a w
         in if ret \<and> \<not> cmd_sent a \<and> \<not> curr_cmd a \<and> \<not> cmd_pending a
            then (True, a\<lparr>delay_null_pkt := False\<rparr>)
            else (False, a\<lparr>delay_null_pkt := True\<rparr>)))"

definition last_packet_flags :: "'w tx_driver \<Rightarrow> u8 \<Rightarrow> tx_adapter \<Rightarrow> 'w \<Rightarrow> u8 \<times> tx_adapter" where
  "last_packet_flags tx flags a w =
     (if pps_uapsd_mode a then
        (let (is_last, a) = mwifiex_check_last_packet_indication tx a w
         in if is_last then (MWIFIEX_TxPD_POWER_MGMT_LAST_PACKET, a\<lparr>tx_lock_flag := True\<rparr>) else (flags, a))
      else (flags, a))"

text \<open>Taking free bytes in front of the data; too few are a panic, \<open>None\<close>.\<close>

definition skb_push :: "nat \<Rightarrow> skb \<Rightarrow> skb option" where
  "skb_push n s =
     (if length (headroom s) < n then None
      else (let k = length (headroom s) - n
            in Some (s\<lparr>skb_data := drop k (headroom s) @ skb_data s, headroom := take k (headroom s)\<rparr>)))"

definition txpd_bytes :: "ba_priv \<Rightarrow> u16 \<Rightarrow> u16 \<Rightarrow> u16 \<Rightarrow> u32 \<Rightarrow> u8 \<Rightarrow> u8 \<Rightarrow> u8 \<Rightarrow> u8 \<Rightarrow> byte list" where
  "txpd_bytes priv len off type ctrl prio flags delay token =
     [bss_type priv, bss_num priv] @ le16 len @ le16 off @ le16 type @ le32 ctrl @
     [prio, flags, delay, 0, 0, token, 0, 0]"

text \<open>What the descriptors of both kinds of interface share; \<open>flags\<close> starts with the request for a status.\<close>

definition status_flags :: "skb \<Rightarrow> u8 \<times> u8" where
  "status_flags s =
     (if tx_flags s AND MWIFIEX_BUF_FLAG_EAPOL_TX_STATUS \<noteq> 0 \<or> tx_flags s AND MWIFIEX_BUF_FLAG_ACTION_TX_STATUS \<noteq> 0
      then (ack_frame_id s, MWIFIEX_TXPD_FLAGS_REQ_TX_STATUS) else (0, 0))"

definition user_tx_control :: "ba_priv \<Rightarrow> u8 \<Rightarrow> u32" where
  "user_tx_control priv prio =
     (let ctrl = (if unat prio < length (user_pri_pkt_tx_ctrl (wmm priv))
                  then user_pri_pkt_tx_ctrl (wmm priv) ! unat prio else 0)
      in if ctrl = 0 then pkt_tx_ctrl priv else ctrl)"

text \<open>The bytes between descriptor and data, so that the bus header starts at a multiple of 64.\<close>

definition txpd_pad :: "nat \<Rightarrow> skb \<Rightarrow> nat" where
  "txpd_pad hroom s =
     nat ((int (buf_at s + length (headroom s)) - int (sizeof txpd_fields + hroom)) mod int MWIFIEX_DMA_ALIGN_SZ)"

definition put_txpd :: "'w tx_driver \<Rightarrow> ba_priv \<Rightarrow> u8 \<Rightarrow> u8 \<Rightarrow> nat \<Rightarrow> skb \<Rightarrow> 'w \<Rightarrow> skb option" where
  "put_txpd tx priv token flags hroom s w = do {
     let pkt_type = (if mwifiex_is_skb_mgmt_frame s then ucast PKT_TYPE_MGMT else 0);
     let pad = txpd_pad hroom s;
     let len = length (skb_data s);
     let pkt_offset = of_nat (sizeof txpd_fields + pad) +
           (if pkt_type = ucast PKT_TYPE_MGMT then MWIFIEX_MGMT_FRAME_HEADER_SIZE else 0);
     let txpd = txpd_bytes priv (of_nat len) pkt_offset pkt_type (user_tx_control priv (ucast (priority s)))
           (ucast (priority s)) flags (mwifiex_wmm_compute_drv_pkt_delay (queue_delay tx s w) priv) token;
     s \<leftarrow> skb_push (sizeof txpd_fields + pad) s;
     let s = s\<lparr>skb_data := txpd @ drop (sizeof txpd_fields) (skb_data s)\<rparr>;
     skb_push hroom s
   }"

definition mwifiex_process_sta_txpd ::
  "'w tx_driver \<Rightarrow> ba_priv \<Rightarrow> skb \<Rightarrow> tx_adapter \<Rightarrow> 'w \<Rightarrow> (skb \<times> tx_adapter) option" where
  "mwifiex_process_sta_txpd tx priv s a w =
     (if skb_data s = [] then Some (s\<lparr>status_code := -1\<rparr>, a)
      else if length (headroom s) < MWIFIEX_MIN_DATA_HEADER_LEN then None
      else do {
        let (token, flags) = status_flags s;
        let (flags, a) = last_packet_flags tx flags a w;
        let flags = (if tx_flags s AND MWIFIEX_BUF_FLAG_TDLS_PKT \<noteq> 0
              then flags OR MWIFIEX_TXPD_FLAGS_TDLS_PACKET else flags);
        s \<leftarrow> put_txpd tx priv token flags (intf_hdr_len a) s w;
        Some (s, a)
      })"

definition mwifiex_process_uap_txpd ::
  "'w tx_driver \<Rightarrow> ba_priv \<Rightarrow> skb \<Rightarrow> tx_adapter \<Rightarrow> 'w \<Rightarrow> (skb \<times> tx_adapter) option" where
  "mwifiex_process_uap_txpd tx priv s a w =
     (if skb_data s = [] then Some (s\<lparr>status_code := -1\<rparr>, a)
      else if length (headroom s) < MWIFIEX_MIN_DATA_HEADER_LEN then None
      else do {
        let (token, flags) = status_flags s;
        s \<leftarrow> put_txpd tx priv token flags (intf_hdr_len a) s w;
        Some (s, a)
      })"

text \<open>
  The empty frame that tells the access point about power saving. The buffer must have 64 bytes; those the
  descriptor does not use keep what the buffer held.
\<close>

definition mwifiex_send_null_packet ::
  "'w tx_driver \<Rightarrow> nat \<Rightarrow> u8 \<Rightarrow> tx_adapter \<Rightarrow> 'w \<Rightarrow> (int \<times> tx_adapter \<times> 'w) option" where
  "mwifiex_send_null_packet tx i flags a w = do {
     priv \<leftarrow> idx (privs a) i;
     priv \<leftarrow> priv;
     if surprise_removed a \<or> \<not> connected priv \<or> data_sent a \<or> \<not> is_port_ready tx i w then Some (-1, a, w)
     else
       (case dev_alloc_skb tx NULL_PACKET_HDR w of
          (None, w) \<Rightarrow> Some (-1, a, w)
        | (Some s, w) \<Rightarrow>
            (if length (headroom s) < sizeof txpd_fields + intf_hdr_len a then None
             else do {
               let txpd = drop (length (headroom s) - sizeof txpd_fields) (headroom s);
               let txpd = [bss_type priv, bss_num priv] @ take 2 (drop 2 txpd) @ le16 (of_nat (sizeof txpd_fields)) @
                     take 2 (drop 6 txpd) @ le32 (pkt_tx_ctrl priv) @ [WMM_HIGHEST_PRIORITY, flags] @ drop 14 txpd;
               s \<leftarrow> skb_push (sizeof txpd_fields) s;
               s \<leftarrow> skb_push (intf_hdr_len a) (s\<lparr>skb_data := txpd, tx_flags := 0, tx_bss_num := bss_num priv,
                      tx_bss_type := bss_type priv, aggr_num := 0, ack_frame_id := 0, status_code := 0, pkt_len := 0\<rparr>);
               let (ret, ds, w) = host_to_card tx i s 0 w;
               let a = a\<lparr>data_sent := ds\<rparr>;
               let a = (if ret = - EBUSY \<or> ret = -1
                        then a\<lparr>num_tx_host_to_card_failure := num_tx_host_to_card_failure a + 1\<rparr> else a);
               let w = (if ret \<in> {- EBUSY, -1, 0} then dev_kfree_skb_any tx s w else w);
               let a = (if ret \<in> {0, - EINPROGRESS} then a\<lparr>tx_lock_flag := True\<rparr> else a);
               Some (ret, a, w)
             }))
   }"

section \<open>What the chip finds\<close>

lemma length_txpd_bytes [simp]: "length (txpd_bytes priv len off type ctrl prio flags delay token) = 20"
  by (simp add: txpd_bytes_def)

lemma txpd_bytes_read [simp]:
  "ld16 (drop 2 (txpd_bytes priv len off type ctrl prio flags delay token @ rest)) = len"
  "ld16 (drop 4 (txpd_bytes priv len off type ctrl prio flags delay token @ rest)) = off"
proof -
  have "drop 2 (txpd_bytes priv len off type ctrl prio flags delay token @ rest) = le16 len @
      le16 off @ le16 type @ le32 ctrl @ [prio, flags, delay, 0, 0, token, 0, 0] @ rest"
    "drop 4 (txpd_bytes priv len off type ctrl prio flags delay token @ rest) =
      le16 off @ le16 type @ le32 ctrl @ [prio, flags, delay, 0, 0, token, 0, 0] @ rest"
    by (simp_all add: txpd_bytes_def le16_def)
  then show "ld16 (drop 2 (txpd_bytes priv len off type ctrl prio flags delay token @ rest)) = len"
    "ld16 (drop 4 (txpd_bytes priv len off type ctrl prio flags delay token @ rest)) = off"
    by (simp_all only: ld16_le16)
qed

lemma skb_push_Some:
  "n \<le> length (headroom s) \<Longrightarrow> skb_push n s =
    Some (s\<lparr>skb_data := drop (length (headroom s) - n) (headroom s) @ skb_data s,
      headroom := take (length (headroom s) - n) (headroom s)\<rparr>)"
  by (simp add: skb_push_def Let_def)

lemma txpd_pad_less [simp]: "txpd_pad hroom s < 64"
  by (simp add: txpd_pad_def MWIFIEX_DMA_ALIGN_SZ_def nat_less_iff)

lemma txpd_pad_aligns:
  assumes "20 + txpd_pad hroom s + hroom \<le> length (headroom s)"
  shows "64 dvd buf_at s + (length (headroom s) - (20 + txpd_pad hroom s) - hroom)"
proof -
  let ?x = "int (buf_at s + length (headroom s)) - int (20 + hroom)"
  have "int (txpd_pad hroom s) = ?x mod 64"
    by (simp add: txpd_pad_def txpd_layout MWIFIEX_DMA_ALIGN_SZ_def)
  moreover have "int (buf_at s + (length (headroom s) - (20 + txpd_pad hroom s) - hroom)) =
      ?x - int (txpd_pad hroom s)"
    using assms by linarith
  ultimately have "64 dvd int (buf_at s + (length (headroom s) - (20 + txpd_pad hroom s) - hroom))"
    by (simp only: dvd_minus_mod)
  then show ?thesis
    by (metis int_dvd_int_iff of_nat_numeral)
qed

text \<open>
  What the chip reads behind the header of the bus: as many bytes as the length says, from the offset on. The
  fields are read first; \<open>None\<close> if the packet they describe does not lie in the buffer.
\<close>

definition txpd_length :: "nat \<Rightarrow> byte list \<Rightarrow> nat" where
  "txpd_length hroom bs = unat (ld16 (drop 2 (drop hroom bs)))"

definition txpd_offset :: "nat \<Rightarrow> byte list \<Rightarrow> nat" where
  "txpd_offset hroom bs = unat (ld16 (drop 4 (drop hroom bs)))"

definition chip_packet :: "nat \<Rightarrow> byte list \<Rightarrow> byte list option" where
  "chip_packet hroom bs =
     (if hroom + 20 \<le> length bs then load (drop hroom bs) (txpd_offset hroom bs) (txpd_length hroom bs) else None)"

definition mgmt_skip :: "skb \<Rightarrow> nat" where
  "mgmt_skip s = (if mwifiex_is_skb_mgmt_frame s then 8 else 0)"

text \<open>
  The buffer \<open>s'\<close> for the packet \<open>s\<close>: the length is that of the packet, and the offset leads to the packet or,
  for a management frame, eight bytes into it, so that its end is eight bytes behind the buffer.
\<close>

definition described :: "nat \<Rightarrow> skb \<Rightarrow> skb \<Rightarrow> bool" where
  "described hroom s s' \<longleftrightarrow>
     txpd_length hroom (skb_data s') = length (skb_data s) \<and>
     hroom + txpd_offset hroom (skb_data s') + txpd_length hroom (skb_data s') = length (skb_data s') + mgmt_skip s \<and>
     drop (hroom + txpd_offset hroom (skb_data s')) (skb_data s') = drop (mgmt_skip s) (skb_data s) \<and>
     chip_packet hroom (skb_data s') = (if mwifiex_is_skb_mgmt_frame s then None else Some (skb_data s)) \<and>
     (buf_at s' + length (headroom s')) mod 64 = 0"

lemma put_txpd_packet:
  assumes "length (skb_data s) < 65536" "100 \<le> length (headroom s)" "hroom \<le> 16"
  shows "\<exists>s'. put_txpd tx priv token flags hroom s w = Some s' \<and> described hroom s s'"
proof -
  let ?n = "20 + txpd_pad hroom s"
  let ?m = "if mwifiex_is_skb_mgmt_frame s then 8 else 0 :: u16"
  have n: "?n < 84" using txpd_pad_less[of hroom s] by linarith
  have mgmt: "(if (if mwifiex_is_skb_mgmt_frame s then ucast PKT_TYPE_MGMT else 0) = (ucast PKT_TYPE_MGMT :: u16)
      then MWIFIEX_MGMT_FRAME_HEADER_SIZE else 0) = ?m"
    by (simp add: PKT_TYPE_MGMT_def MWIFIEX_MGMT_FRAME_HEADER_SIZE_def)
  have off: "unat (of_nat ?n + ?m) = ?n + mgmt_skip s"
    using txpd_pad_less[of hroom s]
    by (simp add: mgmt_skip_def unat_word_ariths unat_of_nat del: txpd_pad_less)
  have len: "unat (of_nat (length (skb_data s)) :: u16) = length (skb_data s)"
    using assms(1) by (simp add: unat_of_nat)
  define txpd where "txpd = txpd_bytes priv (of_nat (length (skb_data s))) (of_nat ?n + ?m)
     (if mwifiex_is_skb_mgmt_frame s then ucast PKT_TYPE_MGMT else 0) (user_tx_control priv (ucast (priority s)))
     (ucast (priority s)) flags (mwifiex_wmm_compute_drv_pkt_delay (queue_delay tx s w) priv) token"
  have T: "put_txpd tx priv token flags hroom s w =
      Option.bind (skb_push ?n s) (\<lambda>s. skb_push hroom (s\<lparr>skb_data := txpd @ drop 20 (skb_data s)\<rparr>))"
    by (simp only: put_txpd_def Let_def mgmt txpd_layout txpd_def)
  have txpd: "length txpd = 20" "\<And>r. ld16 (drop 2 (txpd @ r)) = of_nat (length (skb_data s))"
    "\<And>r. ld16 (drop 4 (txpd @ r)) = of_nat ?n + ?m"
    by (simp_all only: txpd_def length_txpd_bytes txpd_bytes_read)
  define pad where "pad = drop 20 (drop (length (headroom s) - ?n) (headroom s))"
  have padlen: "length pad = txpd_pad hroom s"
    using n assms(2) unfolding pad_def length_drop by linarith
  have h1: "?n \<le> length (headroom s)" and h2: "hroom \<le> length (headroom s) - ?n"
    using n assms(2,3) by linarith+
  have z: "20 + (length (headroom s) - ?n) - length (headroom s) = 0"
    using h1 by linarith
  have "\<exists>s'. put_txpd tx priv token flags hroom s w = Some s' \<and>
      (\<exists>h. length h = hroom \<and> skb_data s' = h @ txpd @ pad @ skb_data s) \<and> buf_at s' = buf_at s \<and>
      length (headroom s') = length (headroom s) - ?n - hroom"
    using h2 z unfolding T skb_push_Some[OF h1] pad_def
    by (auto simp: skb_push_Some intro!: exI[of _ "drop (length (headroom s) - ?n - hroom) (take (length (headroom s) - ?n) (headroom s))"])
  then obtain s' h where s': "put_txpd tx priv token flags hroom s w = Some s'" "length h = hroom"
    "skb_data s' = h @ txpd @ pad @ skb_data s" "buf_at s' = buf_at s"
    "length (headroom s') = length (headroom s) - ?n - hroom"
    by blast
  have d: "drop hroom (skb_data s') = txpd @ pad @ skb_data s"
    using s'(2,3) by simp
  have fields: "txpd_length hroom (skb_data s') = length (skb_data s)" "txpd_offset hroom (skb_data s') = ?n + mgmt_skip s"
    unfolding txpd_length_def txpd_offset_def d txpd(2,3) len off by (rule refl)+
  have total: "length (skb_data s') = hroom + ?n + length (skb_data s)"
    using s'(2,3) txpd(1) padlen by simp
  have behind: "drop (?n + mgmt_skip s) (drop hroom (skb_data s')) = drop (mgmt_skip s) (skb_data s)"
    unfolding d using txpd(1) padlen by simp
  have found: "chip_packet hroom (skb_data s') = (if mwifiex_is_skb_mgmt_frame s then None else Some (skb_data s))"
    using total behind by (cases "mwifiex_is_skb_mgmt_frame s") (simp_all add: chip_packet_def load_def fields mgmt_skip_def)
  have aligned: "(buf_at s' + length (headroom s')) mod 64 = 0"
  proof -
    have "?n + hroom \<le> length (headroom s)"
      using n assms(2,3) by linarith
    from txpd_pad_aligns[OF this] show ?thesis
      unfolding s'(4,5) by (simp only: dvd_eq_mod_eq_0)
  qed
  have "described hroom s s'"
    using fields total behind found aligned by (simp add: described_def add.commute)
  with s'(1) show ?thesis
    by blast
qed

lemmas min_header = MWIFIEX_MIN_DATA_HEADER_LEN_def MWIFIEX_DMA_ALIGN_SZ_def INTF_HDR_ALIGN_def MAX_TXPD_SZ_def

text \<open>
  C12: With the space in front of the packet that the driver asks for and a bus header of at most 16 bytes, the
  descriptor is put in front of every packet without overrun, on both kinds of interface, and the buffer for the bus starts
  at a multiple of 64 bytes. The length in the descriptor is that of the packet, and the chip, which goes by the length
  and the offset, finds in the buffer exactly the packet. For a management frame the offset skips the driver's own
  8 bytes but the length still counts them, so what is described ends 8 bytes behind the buffer.
\<close>

theorem descriptor_locates_packet:
  assumes "skb_data s \<noteq> []" "length (skb_data s) < 65536"
    "MWIFIEX_MIN_DATA_HEADER_LEN \<le> length (headroom s)" "intf_hdr_len a \<le> 16"
    and "process = mwifiex_process_sta_txpd \<or> process = mwifiex_process_uap_txpd"
  shows "\<exists>s' a'. process tx priv s a w = Some (s', a') \<and>
    txpd_length (intf_hdr_len a) (skb_data s') = length (skb_data s) \<and>
    intf_hdr_len a + txpd_offset (intf_hdr_len a) (skb_data s') + txpd_length (intf_hdr_len a) (skb_data s') =
      length (skb_data s') + mgmt_skip s \<and>
    drop (intf_hdr_len a + txpd_offset (intf_hdr_len a) (skb_data s')) (skb_data s') = drop (mgmt_skip s) (skb_data s) \<and>
    chip_packet (intf_hdr_len a) (skb_data s') = (if mwifiex_is_skb_mgmt_frame s then None else Some (skb_data s)) \<and>
    (buf_at s' + length (headroom s')) mod 64 = 0"
proof -
  have room: "100 \<le> length (headroom s)" and nonempty: "skb_data s \<noteq> []"
    "\<not> length (headroom s) < MWIFIEX_MIN_DATA_HEADER_LEN"
    using assms(1,3) by (simp_all add: min_header)
  have hdr: "intf_hdr_len (snd (last_packet_flags tx flags a w)) = intf_hdr_len a" for flags
    by (simp add: last_packet_flags_def mwifiex_check_last_packet_indication_def Let_def split: prod.splits if_splits)
  note put = put_txpd_packet[where tx=tx and priv=priv and w=w, OF assms(2) room assms(4)]
  obtain token flags where 1: "status_flags s = (token, flags)" by fastforce
  have "\<exists>s' a'. process tx priv s a w = Some (s', a') \<and> described (intf_hdr_len a) s s'"
    using assms(5)
  proof
    assume p: "process = mwifiex_process_sta_txpd"
    obtain flags' a' where 2: "last_packet_flags tx flags a w = (flags', a')" by fastforce
    then have hdr': "intf_hdr_len a' = intf_hdr_len a" using hdr[of flags] by simp
    define fl where "fl = (if tx_flags s AND MWIFIEX_BUF_FLAG_TDLS_PKT \<noteq> 0
      then flags' OR MWIFIEX_TXPD_FLAGS_TDLS_PACKET else flags')"
    obtain s' where "put_txpd tx priv token fl (intf_hdr_len a) s w = Some s' \<and> described (intf_hdr_len a) s s'"
      using put[of token fl] ..
    then show ?thesis
      using nonempty hdr' by (simp add: p mwifiex_process_sta_txpd_def 1 2 Let_def fl_def[symmetric])
  next
    assume p: "process = mwifiex_process_uap_txpd"
    obtain s' where "put_txpd tx priv token flags (intf_hdr_len a) s w = Some s' \<and> described (intf_hdr_len a) s s'"
      using put[of token flags] ..
    then show ?thesis
      using nonempty by (simp add: p mwifiex_process_uap_txpd_def 1 Let_def)
  qed
  then show ?thesis
    unfolding described_def .
qed

definition sample_packet :: "nat \<Rightarrow> skb" where
  "sample_packet n = \<lparr>skb_data = replicate 12 1 @ [8, 0] @ map of_nat [0..<n], headroom = replicate 128 0, buf_at = 0,
     priority = 0, tstamp = 0, tx_flags = 0, tx_bss_num = 0, tx_bss_type = 0, aggr_num = 0, ack_frame_id = 0,
     status_code = 0, pkt_len = 0\<rparr>"

definition demo_tx_adapter :: "ba_priv list \<Rightarrow> tx_adapter" where
  "demo_tx_adapter ps = \<lparr>privs = map Some ps, coex_win_size = 0, coex_tx_win_size = 0, coex_rx_win_size = 0,
     fw_api_ver = 15, hw_dot_11n_dev_cap = 0, bss_prio_tbl = [[0..<length ps]], bss_prio_cur = [0],
     tos = tos_to_tid, tx_buf_size = 2048, data_sent = False, tx_lock_flag = False, tx_queued = 0, tx_data_q = [],
     iface_type = MWIFIEX_SDIO, intf_hdr_len = 4, pps_uapsd_mode = False, sleep_period = 0, cmd_sent = False,
     curr_cmd = False, cmd_pending = False, delay_null_pkt = False, bypass_tx_pending = 0,
     surprise_removed = False, num_tx_host_to_card_failure = 0\<rparr>"

theorem descriptor_locates_packet_witness:
  "\<forall>tx w. \<exists>s' a'. mwifiex_process_sta_txpd tx fresh_priv (sample_packet 5) (demo_tx_adapter [fresh_priv]) w = Some (s', a') \<and>
    chip_packet (intf_hdr_len (demo_tx_adapter [fresh_priv])) (skb_data s') = Some (skb_data (sample_packet 5)) \<and>
    (buf_at s' + length (headroom s')) mod 64 = 0"
proof (intro allI)
  fix tx :: "'w tx_driver" and w
  have data: "\<not> mwifiex_is_skb_mgmt_frame (sample_packet 5)"
    by code_simp
  have "skb_data (sample_packet 5) \<noteq> []" "length (skb_data (sample_packet 5)) < 65536"
    "MWIFIEX_MIN_DATA_HEADER_LEN \<le> length (headroom (sample_packet 5))" "intf_hdr_len (demo_tx_adapter [fresh_priv]) \<le> 16"
    by (simp_all add: sample_packet_def demo_tx_adapter_def min_header)
  from descriptor_locates_packet [OF this disjI1 [OF refl], of tx fresh_priv w]
  show "\<exists>s' a'. mwifiex_process_sta_txpd tx fresh_priv (sample_packet 5) (demo_tx_adapter [fresh_priv]) w = Some (s', a') \<and>
    chip_packet (intf_hdr_len (demo_tx_adapter [fresh_priv])) (skb_data s') = Some (skb_data (sample_packet 5)) \<and>
    (buf_at s' + length (headroom s')) mod 64 = 0"
    using data by auto
qed

end
