(* ===== verification/Tx_Aggr.thy ===== *)
theory Tx_Aggr
  imports Tx_Desc
begin

text \<open>
  Aggregation in the mwifiex driver, \<open>doc/mwifiex/11n_aggr.c\<close>: packets for the same receiver are
  joined to one frame, each with a header of its own and filled up to a multiple of four
  bytes. The reader of such a frame, as the standard describes it, gets the packets back.
\<close>

section \<open>The frame\<close>

definition LLC_SNAP_LEN :: nat where "LLC_SNAP_LEN = 8"

text \<open>Network byte order.\<close>

definition be16 :: "u16 \<Rightarrow> byte list" where
  "be16 v = rev (le16 v)"

text \<open>The header of a packet in the frame: addresses, length, and the type in a SNAP header.\<close>

definition tx_header :: "byte list \<Rightarrow> byte list" where
  "tx_header src = take 12 src @ be16 (of_nat (length src - 14 + LLC_SNAP_LEN)) @
     [0xaa, 0xaa, 0x03, 0, 0, 0] @ take 2 (drop 12 src)"

text \<open>
  Adding a packet. \<open>align\<close> is the position of the frame's first byte modulo four and \<open>room\<close> what the
  buffer holds; a packet without an Ethernet header and one that does not fit are \<open>None\<close>. The answer
  has the number of bytes to fill up.
\<close>

definition mwifiex_11n_form_amsdu_pkt ::
  "nat \<Rightarrow> nat \<Rightarrow> byte list \<Rightarrow> byte list \<Rightarrow> (byte list \<times> nat \<times> nat) option" where
  "mwifiex_11n_form_amsdu_pkt align room aggr src =
     (let aggr = aggr @ tx_header src @ drop 14 src;
          pad = (4 - (align + length aggr) mod 4) mod 4
      in if length src < 14 \<or> room < length aggr then None else Some (aggr, pad, length aggr + pad))"

text \<open>
  The loop over the packets that wait: the frame, the bytes it was filled up by last, the packets taken and
  those left. The bytes filled in are what the buffer held, \<open>junk\<close>.
\<close>

fun aggregate_skbs ::
  "nat \<Rightarrow> nat \<Rightarrow> nat \<Rightarrow> (nat \<Rightarrow> byte) \<Rightarrow> byte list \<Rightarrow> nat \<Rightarrow> skb list \<Rightarrow>
     (byte list \<times> nat \<times> skb list \<times> skb list) option" where
  "aggregate_skbs max_len align room junk aggr pad [] = Some (aggr, pad, [], [])"
| "aggregate_skbs max_len align room junk aggr pad (s # ss) =
     (if length aggr + length (skb_data s) + LLC_SNAP_LEN > max_len then Some (aggr, pad, [], s # ss)
      else
        (case mwifiex_11n_form_amsdu_pkt align room aggr (skb_data s) of
           None \<Rightarrow> None
         | Some (aggr, pad, _) \<Rightarrow>
             (if room - length aggr < pad then Some (aggr, 0, [s], ss)
              else
                (case aggregate_skbs max_len align room junk
                    (aggr @ map junk [length aggr..<length aggr + pad]) pad ss of
                   None \<Rightarrow> None
                 | Some (aggr, pad, tk, left) \<Rightarrow> Some (aggr, pad, s # tk, left)))))"

text \<open>
  The descriptor in front of the frame, of the kind \<open>PKT_TYPE_AMSDU\<close>. The packet's note for direct
  links is overwritten by that of the last packet before the chip sleeps.
\<close>

definition mwifiex_11n_form_amsdu_txpd ::
  "'w tx_driver \<Rightarrow> nat \<Rightarrow> ba_priv \<Rightarrow> skb \<Rightarrow> tx_adapter \<Rightarrow> 'w \<Rightarrow> (skb \<times> tx_adapter) option" where
  "mwifiex_11n_form_amsdu_txpd tx i priv s a w = do {
     let flags = (if tx_flags s AND MWIFIEX_BUF_FLAG_TDLS_PKT \<noteq> 0 then MWIFIEX_TXPD_FLAGS_TDLS_PACKET else 0);
     let (flags, a) = (if tx_role tx i = MWIFIEX_BSS_ROLE_STA then last_packet_flags tx flags a w else (flags, a));
     let txpd = txpd_bytes priv (of_nat (length (skb_data s))) (of_nat (sizeof txpd_fields)) (ucast PKT_TYPE_AMSDU)
           (pkt_tx_ctrl priv) (ucast (priority s)) flags
           (mwifiex_wmm_compute_drv_pkt_delay (queue_delay tx s w) priv) 0;
     s \<leftarrow> skb_push (sizeof txpd_fields) s;
     Some (s\<lparr>skb_data := txpd @ drop (sizeof txpd_fields) (skb_data s)\<rparr>, a)
   }"

definition mwifiex_is_11n_aggragation_possible :: "'w driver \<Rightarrow> ba_priv \<Rightarrow> ra_list_tbl \<Rightarrow> nat \<Rightarrow> bool" where
  "mwifiex_is_11n_aggragation_possible d priv r max_buf_size =
     (let max_amsdu_size = (if bss_role (up d) = MWIFIEX_BSS_ROLE_UAP \<and> ap_11n_enabled priv \<and> is_11n_enabled r \<noteq> 0
            then min (unat (max_amsdu r)) max_buf_size else max_buf_size)
      in (case skb_head r of
            s1 # s2 # _ \<Rightarrow> length (skb_data s1) + length (skb_data s2) < max_amsdu_size
          | _ \<Rightarrow> False))"

section \<open>Reading a frame\<close>

text \<open>
  The receiver's side, from the standard: each packet is found at a multiple of four bytes, and its
  header says how long it is.
\<close>

definition subframe :: "byte list \<Rightarrow> byte list" where
  "subframe p = tx_header p @ drop 14 p"

definition subframe_len :: "byte list \<Rightarrow> nat" where
  "subframe_len bs = unat (ld16 (rev (take 2 (drop 12 bs)))) + 14"

definition subframe_packet :: "byte list \<Rightarrow> byte list" where
  "subframe_packet bs = take 12 bs @ take 2 (drop 20 bs) @ drop 22 (take (subframe_len bs) bs)"

function split_amsdu :: "byte list \<Rightarrow> byte list list option" where
  "split_amsdu bs =
     (if bs = [] then Some []
      else if length bs < 22 \<or> subframe_len bs < 22 \<or> length bs < subframe_len bs then None
      else map_option ((#) (subframe_packet bs)) (split_amsdu (drop ((subframe_len bs + 3) div 4 * 4) bs)))"
  by pat_completeness auto
termination
  by (relation "measure length") (auto simp: subframe_len_def)

declare split_amsdu.simps [simp del]

text \<open>A frame that holds the packets of a list.\<close>

inductive amsdu :: "byte list \<Rightarrow> byte list list \<Rightarrow> bool" where
  amsdu_none: "amsdu [] []"
| amsdu_last: "amsdu (subframe p) [p]"
| amsdu_more: "\<lbrakk>amsdu b ps; ps \<noteq> []; (length (subframe p) + length fill) mod 4 = 0; length fill < 4\<rbrakk> \<Longrightarrow>
    amsdu (subframe p @ fill @ b) (p # ps)"

definition packet_ok :: "byte list \<Rightarrow> bool" where
  "packet_ok p \<longleftrightarrow> 14 \<le> length p \<and> length p < 65536"

lemma length_be16 [simp]: "length (be16 v) = 2"
  by (simp add: be16_def le16_def)

lemma length_tx_header [simp]: "14 \<le> length p \<Longrightarrow> length (tx_header p) = 22"
  by (simp add: tx_header_def)

lemma length_subframe [simp]: "14 \<le> length p \<Longrightarrow> length (subframe p) = length p + 8"
  by (simp add: subframe_def)

lemma subframe_layout:
  assumes "14 \<le> length p"
  shows "take 12 (subframe p @ r) = take 12 p"
    and "take 2 (drop 12 (subframe p @ r)) = be16 (of_nat (length p - 14 + LLC_SNAP_LEN))"
    and "take 2 (drop 20 (subframe p @ r)) = take 2 (drop 12 p)"
    and "drop 22 (take (length p + 8) (subframe p @ r)) = drop 14 p"
  using assms by (simp_all add: subframe_def tx_header_def be16_def le16_def)[3]
    (use assms in \<open>simp add: subframe_def drop_take\<close>)

lemma subframe_len_eq:
  assumes "packet_ok p"
  shows "subframe_len (subframe p @ r) = length p + 8"
proof -
  have "length p - 14 + LLC_SNAP_LEN < 2 ^ LENGTH(16)"
    using assms unfolding packet_ok_def LLC_SNAP_LEN_def by (simp; linarith)
  then have "unat (of_nat (length p - 14 + LLC_SNAP_LEN) :: u16) = length p - 14 + LLC_SNAP_LEN"
    by (simp only: unsigned_of_nat take_bit_nat_eq_self of_nat_id)
  moreover have p: "14 \<le> length p"
    using assms by (simp add: packet_ok_def)
  ultimately have "subframe_len (subframe p @ r) = length p - 14 + LLC_SNAP_LEN + 14"
    by (simp only: subframe_len_def subframe_layout(2)[OF p] be16_def rev_rev_ident ld16_le16_nil)
  then show ?thesis
    using p by (simp add: LLC_SNAP_LEN_def)
qed

lemma subframe_packet_eq:
  assumes "packet_ok p"
  shows "subframe_packet (subframe p @ r) = p"
proof -
  have "take 12 p @ take 2 (drop 12 p) @ drop 14 p = p"
    using append_take_drop_id[of 2 "drop 12 p"] by (simp flip: append_assoc)
  then show ?thesis
    using assms subframe_layout[of p r] subframe_len_eq[of p r]
    by (simp add: subframe_packet_def packet_ok_def)
qed

lemma split_subframe:
  assumes "packet_ok p"
  shows "split_amsdu (subframe p @ r) =
    map_option ((#) p) (split_amsdu (drop ((length p + 11) div 4 * 4) (subframe p @ r)))"
proof -
  have ne: "subframe p @ r \<noteq> []"
    by (simp add: subframe_def tx_header_def)
  have len: "length (subframe p @ r) = length p + 8 + length r" "14 \<le> length p"
    using assms by (simp_all add: packet_ok_def)
  have le: "\<not> (length (subframe p @ r) < 22 \<or> length p + 8 < 22 \<or> length (subframe p @ r) < length p + 8)"
    using len by linarith
  have "(length p + 8 + 3) div 4 * 4 = (length p + 11) div 4 * 4"
    by simp
  then show ?thesis
    by (simp only: split_amsdu.simps[of "subframe p @ r"] ne le subframe_len_eq[OF assms] if_False
        subframe_packet_eq[OF assms])
qed

lemma split_amsdu_Nil [simp]: "split_amsdu [] = Some []"
  by (simp add: split_amsdu.simps)

lemma split_amsdu_packets:
  assumes "amsdu b ps" "\<forall>p \<in> set ps. packet_ok p"
  shows "split_amsdu b = Some ps"
  using assms
proof (induction rule: amsdu.induct)
  case (amsdu_last p)
  then show ?case
    using split_subframe[of p "[]"] by (simp add: packet_ok_def)
next
  case (amsdu_more b ps p fill)
  have len: "length (subframe p) = length p + 8"
    using amsdu_more.prems by (simp add: packet_ok_def)
  have "(length p + 11) div 4 * 4 = length (subframe p @ fill)"
    using amsdu_more.hyps(3,4) len by (simp; presburger)
  then have "drop ((length p + 11) div 4 * 4) (subframe p @ fill @ b) = b"
    by (metis append.assoc append_eq_conv_conj)
  then show ?case
    using amsdu_more split_subframe[of p "fill @ b"] by simp
qed simp

section \<open>What the loop builds\<close>

text \<open>Without the bytes filled in last, the loop adds a frame of the packets taken.\<close>

lemma fill_aligned: "4 dvd n + (4 - n mod 4) mod (4::nat)"
proof -
  consider "n mod 4 = 0" | "n mod 4 = 1" | "n mod 4 = 2" | "n mod 4 = 3"
    by linarith
  then show ?thesis
    by cases (simp_all, presburger+)
qed

lemma fill_small: "(4 - n mod 4) mod 4 < (4::nat)"
  by simp

lemma fill_after: "4 dvd a \<Longrightarrow> (b + (4 - (a + b) mod 4) mod 4) mod 4 = (0::nat)"
  using fill_aligned[of "a + b"] by (simp add: add.assoc dvd_add_right_iff mod_eq_0_iff_dvd)

lemma aggregate_builds:
  assumes "aggregate_skbs max_len align room junk aggr pad ss = Some (aggr', pad', tk, left)"
    "4 dvd align + length aggr" "\<forall>s \<in> set ss. packet_ok (skb_data s)"
  shows "ss = tk @ left \<and> (tk = [] \<longrightarrow> aggr' = aggr \<and> pad' = pad) \<and>
    (tk \<noteq> [] \<longrightarrow> (\<exists>b. amsdu b (map skb_data tk) \<and> pad' \<le> length aggr' \<and>
       take (length aggr' - pad') aggr' = aggr @ b))"
  using assms
proof (induction ss arbitrary: aggr pad aggr' pad' tk left)
  case (Cons s ss)
  let ?p = "skb_data s"
  let ?a1 = "aggr @ subframe ?p"
  let ?pad = "(4 - (align + length ?a1) mod 4) mod 4"
  let ?a2 = "?a1 @ map junk [length ?a1..<length ?a1 + ?pad]"
  have form: "mwifiex_11n_form_amsdu_pkt align room aggr ?p =
      (if room < length ?a1 then None else Some (?a1, ?pad, length ?a1 + ?pad))"
    using Cons.prems(3) by (simp add: mwifiex_11n_form_amsdu_pkt_def Let_def subframe_def packet_ok_def)
  show ?case
  proof (cases "length aggr + length ?p + LLC_SNAP_LEN > max_len")
    case True
    then show ?thesis using Cons.prems(1) by simp
  next
    case fits: False
    have room: "\<not> room < length ?a1"
      using Cons.prems(1) fits by (auto simp: form)
    show ?thesis
    proof (cases "room - length ?a1 < ?pad")
      case True
      then have "aggr' = ?a1" "pad' = 0" "tk = [s]" "left = ss"
        using Cons.prems(1) fits room by (auto simp: form)
      then show ?thesis by (auto intro!: exI[of _ "subframe ?p"] amsdu.amsdu_last)
    next
      case False
      then obtain tk' where rec: "aggregate_skbs max_len align room junk ?a2 ?pad ss = Some (aggr', pad', tk', left)"
        and tk: "tk = s # tk'"
        using Cons.prems(1) fits room by (auto simp: form split: option.splits)
      have al: "4 dvd align + length ?a2"
        using fill_aligned[of "align + length ?a1"] by (simp add: add.assoc)
      have fill: "(length (subframe ?p) + ?pad) mod 4 = 0" "?pad < 4"
        using fill_after[OF Cons.prems(2), of "length (subframe ?p)"] fill_small
        by (simp_all add: add.assoc)
      note ih = Cons.IH[OF rec al]
      show ?thesis
      proof (cases "tk' = []")
        case True
        then show ?thesis
          using ih Cons.prems(3) by (auto simp: tk intro!: exI[of _ "subframe ?p"] amsdu.amsdu_last)
      next
        case False
        then obtain b where b: "amsdu b (map skb_data tk')" "pad' \<le> length aggr'"
          "take (length aggr' - pad') aggr' = ?a2 @ b"
          using ih Cons.prems(3) by auto
        have "amsdu (subframe ?p @ map junk [length ?a1..<length ?a1 + ?pad] @ b) (?p # map skb_data tk')"
          using False fill by (intro amsdu.amsdu_more b(1)) simp_all
        then show ?thesis
          using ih Cons.prems(3) b False by (auto simp: tk intro!: exI)
      qed
    qed
  qed
qed simp

lemma aggregate_returns:
  assumes "max_len \<le> room" "\<forall>s \<in> set ss. packet_ok (skb_data s)"
  shows "aggregate_skbs max_len align room junk aggr pad ss \<noteq> None"
  using assms
proof (induction ss arbitrary: aggr pad)
  case (Cons s ss)
  have "mwifiex_11n_form_amsdu_pkt align room aggr (skb_data s) \<noteq> None"
    if "length aggr + length (skb_data s) + LLC_SNAP_LEN \<le> max_len"
    using that Cons.prems
    by (simp add: mwifiex_11n_form_amsdu_pkt_def Let_def packet_ok_def LLC_SNAP_LEN_def)
  then show ?case
    using Cons.IH[OF Cons.prems(1)] Cons.prems(2)
    by (simp add: not_less not_le[symmetric] del: not_None_eq split: option.splits) blast
qed simp

text \<open>
  C11: When the frame starts at a multiple of four bytes and the buffer holds at least its nominal
  size, the loop returns for every queue of Ethernet packets: it takes the packets at the head of the queue
  and leaves the others in order, and the receiver, who splits the frame by the lengths in it, gets exactly
  the packets taken, with their addresses, types and bytes.
\<close>

theorem amsdu_roundtrip:
  assumes "4 dvd align" "max_len \<le> room" "\<forall>s \<in> set ss. packet_ok (skb_data s)"
  shows "\<exists>aggr pad tk left. aggregate_skbs max_len align room junk [] 0 ss = Some (aggr, pad, tk, left) \<and>
    ss = tk @ left \<and> split_amsdu (take (length aggr - pad) aggr) = Some (map skb_data tk)"
proof -
  obtain aggr pad tk left
    where r: "aggregate_skbs max_len align room junk [] 0 ss = Some (aggr, pad, tk, left)"
    using aggregate_returns[OF assms(2,3), of align junk "[]" 0] by auto
  note built = aggregate_builds[OF r _ assms(3)]
  then have "\<forall>p \<in> set (map skb_data tk). packet_ok p"
    using assms(1,3) by auto
  then have "split_amsdu (take (length aggr - pad) aggr) = Some (map skb_data tk)"
    using built assms(1) split_amsdu_packets by (cases "tk = []") auto
  then show ?thesis
    using r built assms(1) by auto
qed

theorem amsdu_roundtrip_witness:
  "\<exists>aggr pad tk left. aggregate_skbs 100 64 100 (\<lambda>_. 0) [] 0 [sample_packet 5, sample_packet 2, sample_packet 90] =
       Some (aggr, pad, tk, left) \<and>
    [sample_packet 5, sample_packet 2, sample_packet 90] = tk @ left \<and>
    split_amsdu (take (length aggr - pad) aggr) = Some (map skb_data tk)"
  by (rule amsdu_roundtrip) (simp_all add: packet_ok_def sample_packet_def)

end
