(* ===== verification/Wmm_Tx.thy ===== *)
theory Wmm_Tx
  imports Tx_Aggr
begin

text \<open>
  Sending in the mwifiex driver: the search for the next packet and its sending, the last part of
  \<open>doc/mwifiex/wmm.c\<close>; aggregation, \<open>11n_aggr.c\<close>; and the queue of packets for the bus, \<open>txrx.c\<close>. A receiver is
  known by the address of its entry, so that the code's check whether it still exists makes sense: while a packet is on the
  bus the lock is not held, and \<open>meanwhile\<close> is what happens then.
\<close>

section \<open>State of an interface\<close>

definition get_priv :: "tx_adapter \<Rightarrow> nat \<Rightarrow> ba_priv option" where
  "get_priv a i = do { p \<leftarrow> idx (privs a) i; p }"

definition upd_priv :: "nat \<Rightarrow> (ba_priv \<Rightarrow> ba_priv) \<Rightarrow> tx_adapter \<Rightarrow> tx_adapter" where
  "upd_priv i f a = a\<lparr>privs := (privs a)[i := map_option f (privs a ! i)]\<rparr>"

definition find_node :: "ba_priv \<Rightarrow> nat \<Rightarrow> nat \<Rightarrow> nat option" where
  "find_node priv t p = do { rs \<leftarrow> idx (ra_lists priv) t; first_index (\<lambda>r. node_at r = p) rs }"

definition upd_queued :: "(u32 \<Rightarrow> u32) \<Rightarrow> ba_priv \<Rightarrow> ba_priv" where
  "upd_queued f priv = priv\<lparr>wmm := (wmm priv)\<lparr>tx_pkts_queued := f (tx_pkts_queued (wmm priv))\<rparr>\<rparr>"

definition set_prio :: "int \<Rightarrow> ba_priv \<Rightarrow> ba_priv" where
  "set_prio h priv = priv\<lparr>wmm := (wmm priv)\<lparr>highest_queued_prio := h\<rparr>\<rparr>"

definition mwifiex_get_tid :: "ra_list_tbl \<Rightarrow> int" where
  "mwifiex_get_tid r = (case skb_head r of [] \<Rightarrow> 0 | s # _ \<Rightarrow> uint (priority s))"

section \<open>The search\<close>

text \<open>The priorities from the highest with a packet downwards, and the first receiver with one.\<close>

definition can_send :: "ra_list_tbl \<Rightarrow> bool" where
  "can_send r \<longleftrightarrow> \<not> tx_paused r \<and> skb_head r \<noteq> []"

fun scan_prios :: "u8 list \<Rightarrow> ba_priv \<Rightarrow> nat list \<Rightarrow> (nat \<times> nat \<times> nat) option option" where
  "scan_prios order priv [] = Some None"
| "scan_prios order priv (i # is) = do {
     t \<leftarrow> idx order i;
     rs \<leftarrow> idx (ra_lists priv) (unat t);
     (case first_index can_send rs of
        Some k \<Rightarrow> Some (Some (i, unat t, k))
      | None \<Rightarrow> scan_prios order priv is)
   }"

definition prios_from :: "int \<Rightarrow> nat list" where
  "prios_from h = rev [0..<nat (h + 1)]"

text \<open>One interface; while its counter is not zero the search starts again from the top.\<close>

primrec try_interface ::
  "nat \<Rightarrow> bool \<Rightarrow> u8 list \<Rightarrow> ba_priv \<Rightarrow> ((nat \<times> nat) option \<times> ba_priv) outcome" where
  "try_interface 0 ready order priv = Running"
| "try_interface (Suc fuel) ready order priv =
     (if port_closed priv \<or> tx_pkts_queued (wmm priv) = 0 then Returned (None, priv)
      else if \<not> ready then Returned (None, priv)
      else
        (case scan_prios order priv (prios_from (highest_queued_prio (wmm priv))) of
           None \<Rightarrow> Fault
         | Some (Some (i, t, k)) \<Rightarrow>
             Returned (Some (t, k),
               if highest_queued_prio (wmm priv) > int i then set_prio (int i) priv else priv)
         | Some None \<Rightarrow>
             (if tx_pkts_queued (wmm priv) \<noteq> 0 then try_interface fuel ready order (set_prio HIGH_PRIO_TID priv)
              else Returned (None, set_prio NO_PKT_PRIO_TID priv))))"

text \<open>The interfaces of level \<open>j\<close> at the given positions: the answer is interface, identifier and entry.\<close>

primrec search_nodes ::
  "nat \<Rightarrow> 'w tx_driver \<Rightarrow> nat \<Rightarrow> nat list \<Rightarrow> tx_adapter \<Rightarrow> 'w \<Rightarrow> ((nat \<times> nat \<times> nat) option \<times> tx_adapter) outcome" where
  "search_nodes fuel tx j [] a w =
     Returned (None, a\<lparr>bss_prio_cur := (bss_prio_cur a)[j := length (bss_prio_tbl a ! j)]\<rparr>)"
| "search_nodes fuel tx j (c # cs) a w =
     (let i = bss_prio_tbl a ! j ! c;
          a = a\<lparr>bss_prio_cur := (bss_prio_cur a)[j := c]\<rparr>
      in (case get_priv a i of
            None \<Rightarrow> Fault
          | Some priv \<Rightarrow>
              (case try_interface fuel (is_port_ready tx i w) (tos a) priv of
                 Fault \<Rightarrow> Fault
               | Running \<Rightarrow> Running
               | Returned (r, priv) \<Rightarrow>
                   (let a = upd_priv i (\<lambda>_. priv) a
                    in (case r of
                          Some (t, k) \<Rightarrow> Returned (Some (i, t, node_at (ra_lists priv ! t ! k)), a)
                        | None \<Rightarrow> search_nodes fuel tx j cs a w)))))"

primrec search_levels ::
  "nat \<Rightarrow> 'w tx_driver \<Rightarrow> nat list \<Rightarrow> tx_adapter \<Rightarrow> 'w \<Rightarrow> ((nat \<times> nat \<times> nat) option \<times> tx_adapter) outcome" where
  "search_levels fuel tx [] a w = Returned (None, a)"
| "search_levels fuel tx (j # js) a w =
     (if length (bss_prio_tbl a) \<le> j then Fault
      else
        (case search_nodes fuel tx j [0..<length (bss_prio_tbl a ! j)] a w of
           Fault \<Rightarrow> Fault
         | Running \<Rightarrow> Running
         | Returned (Some r, a) \<Rightarrow> Returned (Some r, a)
         | Returned (None, a) \<Rightarrow> search_levels fuel tx js a w))"

definition mwifiex_wmm_get_highest_priolist_ptr ::
  "nat \<Rightarrow> 'w tx_driver \<Rightarrow> tx_adapter \<Rightarrow> 'w \<Rightarrow> ((nat \<times> nat \<times> nat) option \<times> tx_adapter) outcome" where
  "mwifiex_wmm_get_highest_priolist_ptr fuel tx a w = search_levels fuel tx (rev [0..<length (privs a)]) a w"

text \<open>
  Turns: the head of a list moves behind the current entry, so the next one comes first. If the current entry is
  the head itself the list is destroyed, \<open>None\<close>.
\<close>

definition rotate_behind :: "nat \<Rightarrow> 'a list \<Rightarrow> 'a list" where
  "rotate_behind c xs = drop (Suc c) xs @ take (Suc c) xs"

definition mwifiex_rotate_priolists :: "nat \<Rightarrow> nat \<Rightarrow> nat \<Rightarrow> tx_adapter \<Rightarrow> tx_adapter option" where
  "mwifiex_rotate_priolists i p t a = do {
     priv \<leftarrow> get_priv a i;
     let j = bss_priority priv;
     tbl \<leftarrow> idx (bss_prio_tbl a) j;
     c \<leftarrow> idx (bss_prio_cur a) j;
     if length tbl \<le> c then None
     else do {
       let a = a\<lparr>bss_prio_tbl := (bss_prio_tbl a)[j := rotate_behind c tbl],
                 bss_prio_cur := (bss_prio_cur a)[j := length tbl - 1]\<rparr>;
       (case find_node priv t p of
          None \<Rightarrow> Some a
        | Some k \<Rightarrow> Some (upd_priv i (\<lambda>priv. priv\<lparr>
            wmm := (wmm priv)\<lparr>packets_out := (packets_out (wmm priv))[t := packets_out (wmm priv) ! t + 1]\<rparr>,
            ra_lists := (ra_lists priv)[t := rotate_behind k (ra_lists priv ! t)]\<rparr>) a))
     }
   }"

section \<open>To the bus\<close>

text \<open>The flags of the descriptor are cleared when the bus refuses the packet that locked sending.\<close>

definition clear_txpd_flags :: "nat \<Rightarrow> skb \<Rightarrow> skb" where
  "clear_txpd_flags hroom s = s\<lparr>skb_data := (skb_data s)[hroom + 13 := 0]\<rparr>"

definition unlock_tx :: "'w tx_driver \<Rightarrow> nat \<Rightarrow> skb \<Rightarrow> tx_adapter \<Rightarrow> skb \<times> tx_adapter" where
  "unlock_tx tx i s a =
     (if tx_role tx i = MWIFIEX_BSS_ROLE_STA \<and> pps_uapsd_mode a \<and> tx_lock_flag a
      then (clear_txpd_flags (intf_hdr_len a) s, a\<lparr>tx_lock_flag := False\<rparr>) else (s, a))"

definition to_card :: "'w tx_driver \<Rightarrow> nat \<Rightarrow> skb \<Rightarrow> nat \<Rightarrow> tx_adapter \<Rightarrow> 'w \<Rightarrow> int \<times> tx_adapter \<times> 'w" where
  "to_card tx i s next_len a w =
     (let (ret, ds, w) = host_to_card tx i s next_len w in (ret, a\<lparr>data_sent := ds\<rparr>, w))"

text \<open>What is done with a packet that the bus took or failed to take; \<open>aggr\<close> marks an aggregate.\<close>

definition card_result ::
  "'w tx_driver \<Rightarrow> nat \<Rightarrow> skb \<Rightarrow> bool \<Rightarrow> int \<Rightarrow> tx_adapter \<Rightarrow> 'w \<Rightarrow> tx_adapter \<times> 'w" where
  "card_result tx i s aggr ret a w =
     (let a = (if ret = -1 then a\<lparr>num_tx_host_to_card_failure := num_tx_host_to_card_failure a + 1\<rparr> else a);
          w = (if ret = -1 \<or> ret = 0 then write_data_complete (qd tx i) s aggr ret w else w)
      in (a, w))"

definition next_pkt_len :: "skb list \<Rightarrow> nat" where
  "next_pkt_len ss = (case ss of [] \<Rightarrow> 0 | s # _ \<Rightarrow> length (skb_data s) + sizeof txpd_fields)"

definition mwifiex_process_tx ::
  "'w tx_driver \<Rightarrow> nat \<Rightarrow> skb \<Rightarrow> nat \<Rightarrow> tx_adapter \<Rightarrow> 'w \<Rightarrow> (int \<times> skb \<times> tx_adapter \<times> 'w) option" where
  "mwifiex_process_tx tx i s next_len a w = do {
     priv \<leftarrow> get_priv a i;
     (s, a) \<leftarrow> (if bss_role (up (drv (qd tx i))) = MWIFIEX_BSS_ROLE_UAP
                then mwifiex_process_uap_txpd tx priv s a w else mwifiex_process_sta_txpd tx priv s a w);
     if data_sent a \<or> tx_lock_flag a
     then Some (0, s, a\<lparr>tx_data_q := tx_data_q a @ [s], tx_queued := tx_queued a + 1\<rparr>, w)
     else do {
       let (ret, a, w) = to_card tx i s next_len a w;
       let (s, a) = (if ret = - EBUSY then unlock_tx tx i s a else (s, a));
       let (a, w) = card_result tx i s False ret a w;
       Some (ret, s, a, w)
     }
   }"

text \<open>A packet the bus did not take goes to the end of its queue again, as one that has its descriptor.\<close>

definition requeue :: "skb \<Rightarrow> ra_list_tbl \<Rightarrow> ra_list_tbl" where
  "requeue s r = r\<lparr>skb_head := skb_head r @ [s\<lparr>tx_flags := tx_flags s OR MWIFIEX_BUF_FLAG_REQUEUED_PKT\<rparr>]\<rparr>"

definition mwifiex_send_single_packet ::
  "'w tx_driver \<Rightarrow> nat \<Rightarrow> nat \<Rightarrow> nat \<Rightarrow> tx_adapter \<Rightarrow> 'w \<Rightarrow> (tx_adapter \<times> 'w) option" where
  "mwifiex_send_single_packet tx i p t a w = do {
     priv \<leftarrow> get_priv a i;
     k \<leftarrow> find_node priv t p;
     (case skb_head (ra_lists priv ! t ! k) of
        [] \<Rightarrow> Some (a, w)
      | s # ss \<Rightarrow> do {
          let a = upd_priv i (upd_ra t k (\<lambda>r. r\<lparr>skb_head := ss, total_pkt_count := total_pkt_count r - 1\<rparr>)) a;
          (ret, s, a, w) \<leftarrow> mwifiex_process_tx tx i s (next_pkt_len ss) a w;
          let (a, w) = meanwhile tx a w;
          if ret = - EBUSY then do {
            priv \<leftarrow> get_priv a i;
            (case find_node priv t p of
               None \<Rightarrow> Some (a, write_data_complete (qd tx i) s False (-1) w)
             | Some k \<Rightarrow> Some (upd_priv i (upd_ra t k (\<lambda>r. (requeue s r)\<lparr>total_pkt_count := total_pkt_count r + 1,
                 ba_pkt_count := ba_pkt_count r + 1\<rparr>)) a, w))
          } else do {
            a \<leftarrow> mwifiex_rotate_priolists i p t a;
            Some (upd_priv i (upd_queued (\<lambda>n. n - 1)) a, w)
          }
        })
   }"

definition mwifiex_is_ptr_processed :: "ra_list_tbl \<Rightarrow> bool" where
  "mwifiex_is_ptr_processed r =
     (case skb_head r of [] \<Rightarrow> False | s # _ \<Rightarrow> tx_flags s AND MWIFIEX_BUF_FLAG_REQUEUED_PKT \<noteq> 0)"

text \<open>At the end the entry is used without a check whether it still exists.\<close>

definition mwifiex_send_processed_packet ::
  "'w tx_driver \<Rightarrow> nat \<Rightarrow> nat \<Rightarrow> nat \<Rightarrow> tx_adapter \<Rightarrow> 'w \<Rightarrow> (tx_adapter \<times> 'w) option" where
  "mwifiex_send_processed_packet tx i p t a w = do {
     priv \<leftarrow> get_priv a i;
     k \<leftarrow> find_node priv t p;
     (case skb_head (ra_lists priv ! t ! k) of
        [] \<Rightarrow> Some (a, w)
      | s # ss \<Rightarrow>
          if data_sent a \<or> tx_lock_flag a then
            (let a = upd_priv i (upd_queued (\<lambda>n. n - 1) \<circ>
                   upd_ra t k (\<lambda>r. r\<lparr>skb_head := ss, total_pkt_count := total_pkt_count r - 1\<rparr>)) a
             in Some (a\<lparr>tx_data_q := tx_data_q a @ [s], tx_queued := tx_queued a + 1\<rparr>, w))
          else do {
            let a = upd_priv i (upd_ra t k (\<lambda>r. r\<lparr>skb_head := ss\<rparr>)) a;
            let (ret, a, w) = to_card tx i s (next_pkt_len ss) a w;
            let (a, w) = meanwhile tx a w;
            if ret = - EBUSY then do {
              priv \<leftarrow> get_priv a i;
              (case find_node priv t p of
                 None \<Rightarrow> Some (a, write_data_complete (qd tx i) s False (-1) w)
               | Some k \<Rightarrow> Some (upd_priv i (upd_ra t k (requeue s)) a, w))
            } else do {
              let (a, w) = card_result tx i s False ret a w;
              a \<leftarrow> mwifiex_rotate_priolists i p t a;
              let a = upd_priv i (upd_queued (\<lambda>n. n - 1)) a;
              priv \<leftarrow> get_priv a i;
              k \<leftarrow> find_node priv t p;
              Some (upd_priv i (upd_ra t k (\<lambda>r. r\<lparr>total_pkt_count := total_pkt_count r - 1\<rparr>)) a, w)
            }
          })
   }"

section \<open>Aggregates\<close>

text \<open>
  The buffer for an aggregate, with space in front for the bus header and the descriptor; the frame's notes
  are those of the first packet.
\<close>

definition skb_reserve :: "nat \<Rightarrow> skb \<times> nat \<times> (nat \<Rightarrow> byte) \<Rightarrow> (skb \<times> nat \<times> (nat \<Rightarrow> byte)) option" where
  "skb_reserve n buf =
     (let (b, room, junk) = buf
      in if room < n then None
         else Some (b\<lparr>headroom := headroom b @ map junk [0..<n]\<rparr>, room - n, \<lambda>k. junk (k + n)))"

definition aggr_info :: "skb \<Rightarrow> skb \<Rightarrow> skb" where
  "aggr_info src b = b\<lparr>priority := priority src, tstamp := tstamp src,
     tx_flags := (tx_flags src AND MWIFIEX_BUF_FLAG_TDLS_PKT) OR MWIFIEX_BUF_FLAG_AGGR_PKT,
     tx_bss_num := tx_bss_num src, tx_bss_type := tx_bss_type src, aggr_num := 0, ack_frame_id := 0, status_code := 0,
     pkt_len := 0\<rparr>"

text \<open>
  The loop may end because the bytes to fill up do not fit. Then the packet whose length is announced to the bus
  as that of the next one is the last packet taken, which has been given back already: \<open>None\<close>.
\<close>

definition fill_missing :: "nat \<Rightarrow> nat \<Rightarrow> byte list \<Rightarrow> bool" where
  "fill_missing align room aggr \<longleftrightarrow> room - length aggr < (4 - (align + length aggr) mod 4) mod 4"

text \<open>The packets of the loop are taken together; the answer has the frame, whether its end is such, the number and the rest.\<close>

definition build_amsdu ::
  "'w tx_driver \<Rightarrow> nat \<Rightarrow> nat \<Rightarrow> nat \<Rightarrow> skb \<times> nat \<times> (nat \<Rightarrow> byte) \<Rightarrow> skb \<Rightarrow> tx_adapter \<Rightarrow> 'w \<Rightarrow>
     (skb \<times> bool \<times> nat \<times> skb list \<times> tx_adapter \<times> 'w) option" where
  "build_amsdu tx i t k buf src a w = do {
     priv \<leftarrow> get_priv a i;
     (b, room, junk) \<leftarrow> skb_reserve (intf_hdr_len a + sizeof txpd_fields) buf;
     let align = buf_at b + length (headroom b);
     (aggr, pad, tk, left) \<leftarrow> aggregate_skbs (tx_buf_size a) align room junk [] 0 (skb_head (ra_lists priv ! t ! k));
     let w = fold (\<lambda>s. write_data_complete (qd tx i) s False 0) tk w;
     let a = upd_priv i (upd_queued (\<lambda>n. n - of_nat (length tk)) \<circ>
           upd_ra t k (\<lambda>r. r\<lparr>skb_head := left, total_pkt_count := total_pkt_count r - of_nat (length tk)\<rparr>)) a;
     priv \<leftarrow> get_priv a i;
     let b = aggr_info src b\<lparr>skb_data := take (length aggr - pad) aggr\<rparr>;
     (b, a) \<leftarrow> mwifiex_11n_form_amsdu_txpd tx i priv b a w;
     b \<leftarrow> skb_push (intf_hdr_len a) b;
     Some (b\<lparr>aggr_num := of_nat (length tk * 2)\<rparr>, fill_missing align room aggr, length tk, left, a, w)
   }"

definition mwifiex_11n_aggregate_pkt ::
  "'w tx_driver \<Rightarrow> nat \<Rightarrow> nat \<Rightarrow> nat \<Rightarrow> tx_adapter \<Rightarrow> 'w \<Rightarrow> (int \<times> tx_adapter \<times> 'w) option" where
  "mwifiex_11n_aggregate_pkt tx i p t a w = do {
     priv \<leftarrow> get_priv a i;
     k \<leftarrow> find_node priv t p;
     (case skb_head (ra_lists priv ! t ! k) of
        [] \<Rightarrow> Some (0, a, w)
      | src # _ \<Rightarrow>
          (case alloc_dma_align_buf tx (tx_buf_size a) w of
             (None, w) \<Rightarrow> Some (-1, a, w)
           | (Some buf, w) \<Rightarrow> do {
               (s, freed, n, left, a, w) \<leftarrow> build_amsdu tx i t k buf src a w;
               if data_sent a \<or> tx_lock_flag a
               then Some (0, a\<lparr>tx_data_q := tx_data_q a @ [s], tx_queued := tx_queued a + int (n * 2)\<rparr>, w)
               else if freed then None
               else do {
                 let (ret, a, w) = to_card tx i s (next_pkt_len left) a w;
                 let (a, w) = meanwhile tx a w;
                 if ret = - EBUSY then do {
                   priv \<leftarrow> get_priv a i;
                   (case find_node priv t p of
                      None \<Rightarrow> Some (-1, a, write_data_complete (qd tx i) s True (-1) w)
                    | Some k \<Rightarrow>
                        (let (s, a) = unlock_tx tx i s a
                         in Some (0, upd_priv i (upd_queued (\<lambda>n. n + 1) \<circ>
                              upd_ra t k (\<lambda>r. (requeue s r)\<lparr>total_pkt_count := total_pkt_count r + 1\<rparr>)) a, w)))
                 } else do {
                   let (a, w) = card_result tx i s True ret a w;
                   if ret = -1 then Some (0, a, w)
                   else do { a \<leftarrow> mwifiex_rotate_priolists i p t a; Some (0, a, w) }
                 }
               }
             }))
   }"

section \<open>One packet\<close>

text \<open>Setting up a session first, when enough packets were queued for the receiver.\<close>

definition setup_session ::
  "'w driver \<Rightarrow> adapter \<Rightarrow> ba_priv \<Rightarrow> ra_list_tbl \<Rightarrow> int \<Rightarrow> 'w \<Rightarrow> (ba_priv \<times> 'w) option" where
  "setup_session d a priv r t w = do {
     allowed \<leftarrow> mwifiex_is_ampdu_allowed d priv r t;
     if \<not> allowed \<or> uint (ba_pkt_count r) \<le> uint (ba_packet_thr r) then Some (priv, w)
     else if mwifiex_space_avail_for_new_ba_stream a then do {
       (priv, w) \<leftarrow> mwifiex_create_ba_tbl d (ra r) t BA_SETUP_INPROGRESS priv w;
       (_, priv, w) \<leftarrow> mwifiex_send_addba d t (ra r) priv w;
       Some (priv, w)
     } else do {
       victim \<leftarrow> mwifiex_find_stream_to_delete priv t;
       (case victim of
          None \<Rightarrow> Some (priv, w)
        | Some (tid_del, ra_del) \<Rightarrow> do {
            (priv, w) \<leftarrow> mwifiex_create_ba_tbl d (ra r) t BA_SETUP_INPROGRESS priv w;
            Some (priv, snd (mwifiex_send_delba d tid_del ra_del 1 w))
          })
     }
   }"

definition send_unprocessed ::
  "'w tx_driver \<Rightarrow> nat \<Rightarrow> nat \<Rightarrow> nat \<Rightarrow> int \<Rightarrow> ra_list_tbl \<Rightarrow> tx_adapter \<Rightarrow> 'w \<Rightarrow> (tx_adapter \<times> 'w) option" where
  "send_unprocessed tx i p t tno r a w = do {
     let d = drv (qd tx i);
     priv \<leftarrow> get_priv a i;
     let in_session = (is_11n_enabled r = 0 \<or> ra_ba_status r \<noteq> BA_SETUP_NONE \<or> wps_session priv);
     (a, w) \<leftarrow> (if in_session then Some (a, w)
                else do {
                  (priv', w) \<leftarrow> setup_session d (adapter.truncate a) priv r tno w;
                  Some (upd_priv i (\<lambda>_. priv') a, w)
                });
     priv \<leftarrow> get_priv a i;
     k \<leftarrow> find_node priv t p;
     let r = ra_lists priv ! t ! k;
     aggr \<leftarrow> (if in_session \<and> \<not> (is_11n_enabled r \<noteq> 0 \<and> ra_ba_status r \<noteq> BA_SETUP_NONE \<and> amsdu_in_ampdu r)
              then Some False
              else do {
                ok \<leftarrow> mwifiex_is_amsdu_allowed priv tno;
                Some (ok \<and> mwifiex_is_11n_aggragation_possible d priv r (tx_buf_size a))
              });
     if aggr then do { (_, a, w) \<leftarrow> mwifiex_11n_aggregate_pkt tx i p t a w; Some (a, w) }
     else mwifiex_send_single_packet tx i p t a w
   }"

definition lift_option :: "'a option \<Rightarrow> 'a outcome" where
  "lift_option x = (case x of None \<Rightarrow> Fault | Some y \<Rightarrow> Returned y)"

text \<open>The identifier is read off the first packet before the lock is taken again.\<close>

definition send_found ::
  "'w tx_driver \<Rightarrow> nat \<Rightarrow> nat \<Rightarrow> nat \<Rightarrow> tx_adapter \<Rightarrow> 'w \<Rightarrow> (int \<times> tx_adapter \<times> 'w) option" where
  "send_found tx i t p a w = do {
     priv \<leftarrow> get_priv a i;
     k \<leftarrow> find_node priv t p;
     let tno = mwifiex_get_tid (ra_lists priv ! t ! k);
     let (a, w) = meanwhile tx a w;
     priv \<leftarrow> get_priv a i;
     if \<not> mwifiex_is_ralist_valid priv p t then Some (-1, a, w)
     else do {
       k \<leftarrow> find_node priv t p;
       let r = ra_lists priv ! t ! k;
       (a, w) \<leftarrow> (if mwifiex_is_ptr_processed r then mwifiex_send_processed_packet tx i p t a w
                  else send_unprocessed tx i p t tno r a w);
       Some (0, a, w)
     }
   }"

definition mwifiex_dequeue_tx_packet ::
  "nat \<Rightarrow> 'w tx_driver \<Rightarrow> tx_adapter \<Rightarrow> 'w \<Rightarrow> (int \<times> tx_adapter \<times> 'w) outcome" where
  "mwifiex_dequeue_tx_packet fuel tx a w =
     (case mwifiex_wmm_get_highest_priolist_ptr fuel tx a w of
        Fault \<Rightarrow> Fault
      | Running \<Rightarrow> Running
      | Returned (None, a) \<Rightarrow> Returned (-1, a, w)
      | Returned (Some (i, t, p), a) \<Rightarrow> lift_option (send_found tx i t p a w))"

definition MWIFIEX_MAX_PKTS_TXQ :: int where "MWIFIEX_MAX_PKTS_TXQ = 16"

primrec wmm_process_tx :: "nat \<Rightarrow> nat \<Rightarrow> 'w tx_driver \<Rightarrow> tx_adapter \<Rightarrow> 'w \<Rightarrow> (tx_adapter \<times> 'w) outcome" where
  "wmm_process_tx 0 fuel tx a w = Running"
| "wmm_process_tx (Suc n) fuel tx a w =
     (case mwifiex_dequeue_tx_packet fuel tx a w of
        Fault \<Rightarrow> Fault
      | Running \<Rightarrow> Running
      | Returned (ret, a, w) \<Rightarrow>
          (if ret \<noteq> 0 then Returned (a, w)
           else if (if iface_type a \<noteq> MWIFIEX_SDIO then data_sent a \<or> tx_lock_flag a
                    else MWIFIEX_MAX_PKTS_TXQ \<le> tx_queued a) then Returned (a, w)
           else if mwifiex_wmm_lists_empty tx a w then Returned (a, w)
           else wmm_process_tx n fuel tx a w))"

definition mwifiex_wmm_process_tx :: "nat \<Rightarrow> 'w tx_driver \<Rightarrow> tx_adapter \<Rightarrow> 'w \<Rightarrow> (tx_adapter \<times> 'w) outcome" where
  "mwifiex_wmm_process_tx fuel tx a w = wmm_process_tx fuel fuel tx a w"

section \<open>Packets that bypass the queues\<close>

definition bypass_interface :: "'w tx_driver \<Rightarrow> nat \<Rightarrow> tx_adapter \<Rightarrow> 'w \<Rightarrow> (tx_adapter \<times> 'w) option" where
  "bypass_interface tx i a w =
     (case get_priv a i of
        None \<Rightarrow> Some (a, w)
      | Some priv \<Rightarrow>
          (if \<not> is_port_ready tx i w then Some (a, w)
           else
             (case bypass_txq priv of
                [] \<Rightarrow> Some (a, w)
              | s # ss \<Rightarrow> do {
                  (ret, s, a, w) \<leftarrow> mwifiex_process_tx tx i s 0 (upd_priv i (\<lambda>p. p\<lparr>bypass_txq := ss\<rparr>) a) w;
                  if ret = - EBUSY
                  then Some (upd_priv i (\<lambda>p. p\<lparr>bypass_txq :=
                         s\<lparr>tx_flags := tx_flags s OR MWIFIEX_BUF_FLAG_REQUEUED_PKT\<rparr> # bypass_txq p\<rparr>) a, w)
                  else Some (a\<lparr>bypass_tx_pending := bypass_tx_pending a - 1\<rparr>, w)
                })))"

primrec bypass_all :: "'w tx_driver \<Rightarrow> nat list \<Rightarrow> tx_adapter \<Rightarrow> 'w \<Rightarrow> (tx_adapter \<times> 'w) option" where
  "bypass_all tx [] a w = Some (a, w)"
| "bypass_all tx (i # is) a w = do { (a, w) \<leftarrow> bypass_interface tx i a w; bypass_all tx is a w }"

definition mwifiex_process_bypass_tx :: "'w tx_driver \<Rightarrow> tx_adapter \<Rightarrow> 'w \<Rightarrow> (tx_adapter \<times> 'w) option" where
  "mwifiex_process_bypass_tx tx a w =
     (if data_sent a \<or> tx_lock_flag a then Some (a, w) else bypass_all tx [0..<length (privs a)] a w)"

section \<open>The queue for the bus\<close>

text \<open>The weight of a packet in the counter of the queue.\<close>

definition txq_weight :: "skb \<Rightarrow> int" where
  "txq_weight s = (if tx_flags s AND MWIFIEX_BUF_FLAG_AGGR_PKT \<noteq> 0 then uint (aggr_num s) else 1)"

text \<open>A packet of an interface that is gone is given back through the services of the first one.\<close>

definition mwifiex_host_to_card ::
  "'w tx_driver \<Rightarrow> skb \<Rightarrow> nat \<Rightarrow> tx_adapter \<Rightarrow> 'w \<Rightarrow> int \<times> tx_adapter \<times> 'w" where
  "mwifiex_host_to_card tx s next_len a w =
     (case mwifiex_get_priv_by_id a (tx_bss_num s) (tx_bss_type s) of
        None \<Rightarrow> (0, a\<lparr>num_tx_host_to_card_failure := num_tx_host_to_card_failure a + 1\<rparr>,
                 write_data_complete (qd tx 0) s False 0 w)
      | Some i \<Rightarrow>
          (let (ret, a, w) = to_card tx i s next_len a w
           in if ret = - EBUSY
              then (let (s, a) = unlock_tx tx i s a
                    in (ret, a\<lparr>tx_data_q := s # tx_data_q a, tx_queued := tx_queued a + txq_weight s\<rparr>, w))
              else (let (a, w) = card_result tx i s False ret a w in (ret, a, w))))"

definition mwifiex_dequeue_tx_queue :: "'w tx_driver \<Rightarrow> tx_adapter \<Rightarrow> 'w \<Rightarrow> int \<times> tx_adapter \<times> 'w" where
  "mwifiex_dequeue_tx_queue tx a w =
     (case tx_data_q a of
        [] \<Rightarrow> (-1, a, w)
      | s # ss \<Rightarrow>
          (let a = a\<lparr>tx_data_q := ss, tx_queued := tx_queued a - txq_weight s\<rparr>;
               next_len = (case ss of [] \<Rightarrow> 0 | s # _ \<Rightarrow> length (skb_data s));
               next_len = (if next_len = 0 \<and> \<not> mwifiex_wmm_lists_empty tx a w then 1 else next_len)
           in mwifiex_host_to_card tx s next_len a w))"

text \<open>Each turn but the last shortens the queue, so its length is enough fuel.\<close>

primrec process_tx_queue :: "nat \<Rightarrow> 'w tx_driver \<Rightarrow> tx_adapter \<Rightarrow> 'w \<Rightarrow> tx_adapter \<times> 'w" where
  "process_tx_queue 0 tx a w = (a, w)"
| "process_tx_queue (Suc n) tx a w =
     (if data_sent a \<or> tx_lock_flag a then (a, w)
      else
        (let (ret, a, w) = mwifiex_dequeue_tx_queue tx a w
         in if ret \<noteq> 0 \<or> tx_data_q a = [] then (a, w) else process_tx_queue n tx a w))"

definition mwifiex_process_tx_queue :: "'w tx_driver \<Rightarrow> tx_adapter \<Rightarrow> 'w \<Rightarrow> tx_adapter \<times> 'w" where
  "mwifiex_process_tx_queue tx a w = process_tx_queue (Suc (length (tx_data_q a))) tx a w"

end
