(* ===== verification/Wmm_Inv.thy ===== *)
theory Wmm_Inv
  imports Wmm_Tx
begin

text \<open>
  The counters of the transmit queues: the invariant of one interface, that every operation on the queues
  keeps, and what it means for the search. The counter that decides whether the queues are searched is the number of
  packets that can be sent, every receiver's own counter is the length of its queue, and no packet that can be
  sent waits above the highest priority the driver has noted.
\<close>

section \<open>The invariant\<close>

definition cnt :: "ra_list_tbl \<Rightarrow> u32" where
  "cnt r = (if tx_paused r then 0 else of_nat (length (skb_head r)))"

definition list_cnt :: "ra_list_tbl list \<Rightarrow> u32" where
  "list_cnt rs = sum_list (map cnt rs)"

definition queue_cnt :: "ba_priv \<Rightarrow> u32" where
  "queue_cnt priv = sum_list (map list_cnt (ra_lists priv))"

definition counts_ok :: "ra_list_tbl \<Rightarrow> bool" where
  "counts_ok r \<longleftrightarrow> unat (total_pkt_count r) = length (skb_head r)"

definition list_ok :: "ra_list_tbl list \<Rightarrow> bool" where
  "list_ok rs \<longleftrightarrow> (\<forall>r \<in> set rs. counts_ok r) \<and> distinct (map node_at rs)"

definition prio_of :: "ba_priv \<Rightarrow> nat \<Rightarrow> int" where
  "prio_of priv t = uint (tos_to_tid_inv priv ! t)"

definition prios_noted :: "ba_priv \<Rightarrow> nat \<Rightarrow> bool" where
  "prios_noted priv t \<longleftrightarrow>
     (\<forall>r \<in> set (ra_lists priv ! t). can_send r \<longrightarrow> prio_of priv t \<le> highest_queued_prio (wmm priv))"

text \<open>\<open>k\<close> packets are on their way to the bus, already out of their queue but still counted.\<close>

definition counters_ok :: "u32 \<Rightarrow> ba_priv \<Rightarrow> bool" where
  "counters_ok k priv \<longleftrightarrow> length (ra_lists priv) = 8 \<and> tx_pkts_queued (wmm priv) = queue_cnt priv + k \<and>
     (\<forall>t < 8. list_ok (ra_lists priv ! t))"

definition prios_ok :: "ba_priv \<Rightarrow> bool" where
  "prios_ok priv \<longleftrightarrow> (\<forall>t < 8. prios_noted priv t \<and> prio_of priv t \<le> HIGH_PRIO_TID) \<and>
     highest_queued_prio (wmm priv) \<le> HIGH_PRIO_TID"

definition queues_ok :: "ba_priv \<Rightarrow> bool" where
  "queues_ok priv \<longleftrightarrow> counters_ok 0 priv \<and> prios_ok priv"

lemma counters_okD:
  assumes "counters_ok k priv"
  shows "length (ra_lists priv) = 8" "tx_pkts_queued (wmm priv) = queue_cnt priv + k"
    "t < 8 \<Longrightarrow> list_ok (ra_lists priv ! t)"
  using assms by (auto simp: counters_ok_def)

text \<open>An operation that changes one list.\<close>

lemma counters_ok_change:
  assumes ok: "counters_ok k priv" and t: "t < 8" and lists: "ra_lists priv' = (ra_lists priv)[t := rs]"
    and rs: "list_ok rs"
    and counter: "tx_pkts_queued (wmm priv') + list_cnt (ra_lists priv ! t) + k =
      tx_pkts_queued (wmm priv) + list_cnt rs + k'"
  shows "counters_ok k' priv'"
proof -
  have len: "length (ra_lists priv) = 8" using ok by (rule counters_okD)
  have "queue_cnt priv' + list_cnt (ra_lists priv ! t) = queue_cnt priv + list_cnt rs"
    using sum_list_update[of t "ra_lists priv" list_cnt rs] t len by (simp add: queue_cnt_def lists)
  then have "tx_pkts_queued (wmm priv') + (list_cnt (ra_lists priv ! t) + k) =
      queue_cnt priv' + k' + (list_cnt (ra_lists priv ! t) + k)"
    using counter counters_okD(2)[OF ok] by (simp add: ac_simps)
  then have "tx_pkts_queued (wmm priv') = queue_cnt priv' + k'"
    by (rule add_right_imp_eq)
  moreover have "list_ok (ra_lists priv' ! u)" if "u < 8" for u
    using counters_okD(3)[OF ok that] rs len that by (cases "u = t") (simp_all add: lists)
  ultimately show ?thesis
    using ok by (simp add: counters_ok_def lists)
qed

lemma prios_ok_change:
  assumes ok: "prios_ok priv" and t: "t < 8" "length (ra_lists priv) = 8"
    and lists: "ra_lists priv' = (ra_lists priv)[t := rs]" and tbl: "tos_to_tid_inv priv' = tos_to_tid_inv priv"
    and noted: "\<exists>r \<in> set rs. can_send r \<Longrightarrow> prio_of priv t \<le> highest_queued_prio (wmm priv')"
    and higher: "highest_queued_prio (wmm priv) \<le> highest_queued_prio (wmm priv')"
    and top: "highest_queued_prio (wmm priv') \<le> HIGH_PRIO_TID"
  shows "prios_ok priv'"
proof -
  have "prios_noted priv' u" if "u < 8" for u
    using ok noted higher t that
    by (cases "u = t") (auto simp: prios_ok_def prios_noted_def prio_of_def lists tbl intro: order_trans)
  then show ?thesis
    using ok top by (simp add: prios_ok_def prio_of_def tbl)
qed

text \<open>Operations that touch neither lists nor counters.\<close>

definition same_queues :: "ba_priv \<Rightarrow> ba_priv \<Rightarrow> bool" where
  "same_queues priv priv' \<longleftrightarrow> ra_lists priv' = ra_lists priv \<and> tos_to_tid_inv priv' = tos_to_tid_inv priv \<and>
     wmm priv' = wmm priv"

lemma same_queues_ok:
  assumes "same_queues priv priv'"
  shows "counters_ok k priv' = counters_ok k priv" "prios_ok priv' = prios_ok priv"
  using assms
  by (simp_all add: same_queues_def counters_ok_def queue_cnt_def prios_ok_def prios_noted_def prio_of_def)

section \<open>Changing a receiver\<close>

lemma upd_ra_simps [simp]:
  "ra_lists (upd_ra t i f priv) = (ra_lists priv)[t := (ra_lists priv ! t)[i := f (ra_lists priv ! t ! i)]]"
  "wmm (upd_ra t i f priv) = wmm priv" "tos_to_tid_inv (upd_ra t i f priv) = tos_to_tid_inv priv"
  by (simp_all add: upd_ra_def)

lemma list_cnt_update:
  "i < length rs \<Longrightarrow> list_cnt (rs[i := r]) + cnt (rs ! i) = list_cnt rs + cnt r"
  unfolding list_cnt_def by (rule sum_list_update)

lemma list_ok_update:
  assumes "list_ok rs" "i < length rs" "counts_ok r" "node_at r = node_at (rs ! i)"
  shows "list_ok (rs[i := r])"
proof -
  have "map node_at (rs[i := r]) = map node_at rs"
    using assms(2,4) by (metis list_update_id map_update)
  then show ?thesis
    using assms(1,3) unfolding list_ok_def by (auto dest: set_update_subset_insert[THEN subsetD])
qed

lemma list_okD:
  assumes "list_ok rs"
  shows "i < length rs \<Longrightarrow> counts_ok (rs ! i)" "distinct (map node_at rs)"
  using assms by (auto simp: list_ok_def)

lemma can_send_update:
  "r' \<in> set (rs[i := r]) \<Longrightarrow> can_send r' \<Longrightarrow> can_send r \<or> (\<exists>r \<in> set rs. can_send r)"
  using set_update_subset_insert[of rs i r] by auto

text \<open>A change of one receiver, and of the counters.\<close>

lemma counters_ok_upd:
  assumes ok: "counters_ok k priv" and t: "t < 8" and i: "i < length (ra_lists priv ! t)"
    and lists: "ra_lists priv' = (ra_lists priv)[t := (ra_lists priv ! t)[i := r']]"
    and r': "counts_ok r'" "node_at r' = node_at (ra_lists priv ! t ! i)"
    and counter: "tx_pkts_queued (wmm priv') + cnt (ra_lists priv ! t ! i) + k = tx_pkts_queued (wmm priv) + cnt r' + k'"
  shows "counters_ok k' priv'"
proof (rule counters_ok_change[OF ok t lists])
  let ?rs = "ra_lists priv ! t"
  show "list_ok (?rs[i := r'])"
    using list_ok_update counters_okD(3)[OF ok t] i r' by blast
  have "tx_pkts_queued (wmm priv') + list_cnt ?rs + k + cnt r' =
      tx_pkts_queued (wmm priv') + (list_cnt (?rs[i := r']) + cnt (?rs ! i)) + k"
    using list_cnt_update[OF i, of r'] by (simp add: ac_simps)
  also have "\<dots> = tx_pkts_queued (wmm priv) + list_cnt (?rs[i := r']) + k' + cnt r'"
    using counter by (simp add: ac_simps)
  finally show "tx_pkts_queued (wmm priv') + list_cnt ?rs + k = tx_pkts_queued (wmm priv) + list_cnt (?rs[i := r']) + k'"
    by simp
qed

lemma prios_ok_upd:
  assumes ok: "prios_ok priv" and t: "t < 8" "length (ra_lists priv) = 8"
    and lists: "ra_lists priv' = (ra_lists priv)[t := (ra_lists priv ! t)[i := r']]"
    and tbl: "tos_to_tid_inv priv' = tos_to_tid_inv priv"
    and noted: "can_send r' \<Longrightarrow> prio_of priv t \<le> highest_queued_prio (wmm priv')"
    and higher: "highest_queued_prio (wmm priv) \<le> highest_queued_prio (wmm priv')"
    and top: "highest_queued_prio (wmm priv') \<le> HIGH_PRIO_TID"
  shows "prios_ok priv'"
proof (rule prios_ok_change[OF ok t lists tbl _ higher top])
  assume "\<exists>r \<in> set ((ra_lists priv ! t)[i := r']). can_send r"
  then consider "can_send r'" | "\<exists>r \<in> set (ra_lists priv ! t). can_send r"
    using can_send_update by blast
  then show "prio_of priv t \<le> highest_queued_prio (wmm priv')"
    using noted ok higher t(1) by cases (auto simp: prios_ok_def prios_noted_def)
qed

section \<open>Adding a packet\<close>

lemma counts_ok_Suc:
  assumes "counts_ok r" "length (skb_head r) < 65535"
  shows "unat (total_pkt_count r + 1) = Suc (length (skb_head r))"
proof -
  have "unat (total_pkt_count r) < 65535" using assms by (simp add: counts_ok_def)
  then show ?thesis
    using assms(1) by (simp add: counts_ok_def unat_word_ariths)
qed

lemma put_packet_queues:
  "ra_lists (put_packet t i s priv) = (ra_lists priv)[t := (ra_lists priv ! t)[i := (ra_lists priv ! t ! i)
     \<lparr>skb_head := skb_head (ra_lists priv ! t ! i) @ [s], ba_pkt_count := ba_pkt_count (ra_lists priv ! t ! i) + 1,
      total_pkt_count := total_pkt_count (ra_lists priv ! t ! i) + 1\<rparr>]]"
  "tos_to_tid_inv (put_packet t i s priv) = tos_to_tid_inv priv"
  "highest_queued_prio (wmm (put_packet t i s priv)) = max (highest_queued_prio (wmm priv)) (prio_of priv t)"
  by (simp_all add: put_packet_def Let_def prio_of_def)

lemma put_packet_ok:
  assumes ok: "counters_ok k priv" and t: "t < 8" and i: "i < length (ra_lists priv ! t)"
    and room: "length (skb_head (ra_lists priv ! t ! i)) < 65535"
  shows "counters_ok k (put_packet t i s priv)"
proof (rule counters_ok_upd[OF ok t i put_packet_queues(1)])
  have "counts_ok (ra_lists priv ! t ! i)"
    using list_okD(1)[OF counters_okD(3)[OF ok t] i] .
  then show "counts_ok ((ra_lists priv ! t ! i)\<lparr>skb_head := skb_head (ra_lists priv ! t ! i) @ [s],
      ba_pkt_count := ba_pkt_count (ra_lists priv ! t ! i) + 1,
      total_pkt_count := total_pkt_count (ra_lists priv ! t ! i) + 1\<rparr>)"
    using counts_ok_Suc room by (simp add: counts_ok_def)
qed (use t i counters_okD(1)[OF ok] in \<open>simp_all add: put_packet_def Let_def cnt_def\<close>)

lemma put_packet_prios:
  assumes "prios_ok priv" "t < 8" "length (ra_lists priv) = 8"
  shows "prios_ok (put_packet t i s priv)"
  by (rule prios_ok_upd[OF assms put_packet_queues(1,2)])
    (use assms in \<open>simp_all add: put_packet_queues(3) prios_ok_def\<close>)

text \<open>New receivers are put at the end of the lists, without packets.\<close>

definition nodes_distinct :: "ba_priv \<Rightarrow> bool" where
  "nodes_distinct priv \<longleftrightarrow> (\<forall>t < 8. distinct (map node_at (ra_lists priv ! t)))"

definition new_nodes :: "ra_list_tbl list \<Rightarrow> bool" where
  "new_nodes ns \<longleftrightarrow> (\<forall>r \<in> set ns. skb_head r = [] \<and> total_pkt_count r = 0)"

definition grown :: "ba_priv \<Rightarrow> ba_priv \<Rightarrow> bool" where
  "grown priv priv' \<longleftrightarrow> length (ra_lists priv') = length (ra_lists priv) \<and>
     (\<forall>t < length (ra_lists priv). \<exists>ns. ra_lists priv' ! t = ra_lists priv ! t @ ns \<and> new_nodes ns) \<and>
     wmm priv' = wmm priv \<and> tos_to_tid_inv priv' = tos_to_tid_inv priv"

lemma grown_refl [simp]: "grown priv priv"
  by (simp add: grown_def new_nodes_def)

lemma grown_trans:
  assumes "grown a b" "grown b c"
  shows "grown a c"
proof -
  have "\<exists>ns. ra_lists c ! t = ra_lists a ! t @ ns \<and> new_nodes ns" if t: "t < length (ra_lists a)" for t
  proof -
    obtain ns where "ra_lists b ! t = ra_lists a ! t @ ns" "new_nodes ns"
      using assms(1) t by (auto simp: grown_def)
    moreover have "t < length (ra_lists b)"
      using assms(1) t by (simp add: grown_def)
    then obtain ms where "ra_lists c ! t = ra_lists b ! t @ ms" "new_nodes ms"
      using assms(2) by (auto simp: grown_def)
    ultimately show ?thesis by (intro exI[of _ "ns @ ms"]) (auto simp: new_nodes_def)
  qed
  then show ?thesis using assms by (simp add: grown_def)
qed

lemma new_nodes_cnt: "new_nodes ns \<Longrightarrow> list_cnt ns = 0"
  by (induction ns) (simp_all add: new_nodes_def list_cnt_def cnt_def)

lemma grown_counters:
  assumes "grown priv priv'" and "counters_ok k priv" and "nodes_distinct priv'"
  shows "counters_ok k priv'"
proof -
  have len: "length (ra_lists priv) = 8" using assms(2) by (rule counters_okD)
  have "map list_cnt (ra_lists priv') = map list_cnt (ra_lists priv)"
  proof (rule nth_equalityI)
    fix t assume "t < length (map list_cnt (ra_lists priv'))"
    then obtain ns where "ra_lists priv' ! t = ra_lists priv ! t @ ns" "new_nodes ns" "t < length (ra_lists priv)"
      using assms(1) by (auto simp: grown_def)
    then show "map list_cnt (ra_lists priv') ! t = map list_cnt (ra_lists priv) ! t"
      using assms(1) new_nodes_cnt[of ns] by (simp add: grown_def list_cnt_def)
  qed (use assms(1) in \<open>simp add: grown_def\<close>)
  moreover have "list_ok (ra_lists priv' ! t)" if t: "t < 8" for t
  proof -
    obtain ns where "ra_lists priv' ! t = ra_lists priv ! t @ ns" "new_nodes ns"
      using assms(1) t len by (auto simp: grown_def)
    moreover have "distinct (map node_at (ra_lists priv' ! t))"
      using assms(3) t by (simp add: nodes_distinct_def)
    ultimately show ?thesis
      using counters_okD(3)[OF assms(2) t] unfolding list_ok_def
      by (metis Un_iff counts_ok_def list.size(3) new_nodes_def set_append unsigned_0)
  qed
  ultimately show ?thesis
    using assms(1) counters_okD(2)[OF assms(2)] len by (simp add: counters_ok_def queue_cnt_def grown_def)
qed

lemma grown_prios:
  assumes "grown priv priv'" and "prios_ok priv" and "length (ra_lists priv) = 8"
  shows "prios_ok priv'"
proof -
  have "prios_noted priv' t" if t: "t < 8" for t
  proof -
    obtain ns where "ra_lists priv' ! t = ra_lists priv ! t @ ns" "new_nodes ns"
      using assms(1,3) t by (auto simp: grown_def)
    then show ?thesis
      using assms(1,2) t by (auto simp: prios_ok_def prios_noted_def prio_of_def grown_def new_nodes_def can_send_def)
  qed
  then show ?thesis
    using assms(1,2) by (simp add: prios_ok_def prio_of_def grown_def)
qed

lemma new_node_empty:
  assumes "mwifiex_wmm_allocate_ralist_node q a w = (Some r, w1)" "new_node q priv a r w1 = (r', w2)"
  shows "new_nodes [r']"
  using assms
  by (auto simp: new_nodes_def mwifiex_wmm_allocate_ralist_node_def new_node_def node_11n_def Let_def
      split: prod.splits if_splits option.splits)

lemma ralist_add_grown:
  assumes "ralist_add q ts a priv w = (priv', w')" "\<forall>t \<in> set ts. t < length (ra_lists priv)"
  shows "grown priv priv'"
  using assms
proof (induction ts arbitrary: priv w)
  case (Cons t ts)
  show ?case
  proof (cases "mwifiex_wmm_allocate_ralist_node q a w")
    case (Pair o' w1)
    show ?thesis
    proof (cases o')
      case (Some r)
      obtain r' w2 where n: "new_node q priv a r w1 = (r', w2)" by fastforce
      let ?p = "priv\<lparr>ra_lists := (ra_lists priv)[t := ra_lists priv ! t @ [r']]\<rparr>"
      have e: "new_nodes [r']"
        using new_node_empty[OF _ n] Pair Some by simp
      have "\<exists>ns. (ra_lists priv)[t := ra_lists priv ! t @ [r']] ! u = ra_lists priv ! u @ ns \<and> new_nodes ns"
        if "u < length (ra_lists priv)" for u
        using e that by (cases "u = t") (auto simp: new_nodes_def)
      then have "grown priv ?p"
        by (simp add: grown_def)
      moreover have "grown ?p priv'"
        using Cons.IH[of ?p w2] Cons.prems Pair Some n by simp
      ultimately show ?thesis by (rule grown_trans)
    qed (use Cons.prems Pair in simp)
  qed
qed simp

lemma get_queue_raptr_grown:
  assumes "mwifiex_wmm_get_queue_raptr q t a priv w = Some (ptr, priv', w')" "length (ra_lists priv) = 8"
  shows "grown priv priv'" "ptr = Some i \<Longrightarrow> i < length (ra_lists priv' ! unat t)"
  using assms ralist_add_grown[of q "[0..<MAX_NUM_TID]" a priv w]
  by (auto simp: mwifiex_wmm_get_queue_raptr_def mwifiex_wmm_get_ralist_node_def mwifiex_ralist_add_def first_index_Some
      idx_Some_iff MAX_NUM_TID_def Option.bind_eq_Some_conv split: prod.splits if_splits)

lemma downgrade_less: "unat (mwifiex_wmm_downgrade_tid priv n) < 8"
proof -
  have l: "unat (n mod 2) < length (ac_to_tid a)" for a
    by (simp add: unat_mod)
  show ?thesis
    unfolding mwifiex_wmm_downgrade_tid_def Let_def by (rule ac_to_tid_less, rule nth_mem, rule l)
qed

lemma find_target_grown:
  assumes "find_target q s st t priv w = Some (tgt, s', priv', w')" "length (ra_lists priv) = 8" "unat t < 8"
  shows "grown priv priv'" "tgt = Receiver (Some i) \<Longrightarrow> i < length (ra_lists priv' ! unat t)"
  using assms
  by (auto simp: find_target_def Let_def Option.bind_eq_Some_conv idx_Some_iff split: if_splits
      dest: get_queue_raptr_grown)

text \<open>There is room: no queue has 65535 packets.\<close>

definition queues_short :: "ba_priv \<Rightarrow> bool" where
  "queues_short priv \<longleftrightarrow> (\<forall>t < 8. \<forall>r \<in> set (ra_lists priv ! t). length (skb_head r) < 65535)"

lemma grown_short:
  assumes "grown priv priv'" "queues_short priv" "length (ra_lists priv) = 8"
  shows "queues_short priv'"
  unfolding queues_short_def
proof (intro allI impI ballI)
  fix t r assume t: "t < 8" and r: "r \<in> set (ra_lists priv' ! t)"
  obtain ns where "ra_lists priv' ! t = ra_lists priv ! t @ ns" "new_nodes ns"
    using assms(1,3) t by (auto simp: grown_def)
  then show "length (skb_head r) < 65535"
    using assms(2) t r by (auto simp: queues_short_def new_nodes_def)
qed

lemma put_packet_distinct:
  assumes "t < length (ra_lists priv)" "i < length (ra_lists priv ! t)"
  shows "nodes_distinct (put_packet t i s priv) = nodes_distinct priv"
proof -
  have "map node_at (ra_lists (put_packet t i s priv) ! u) = map node_at (ra_lists priv ! u)" for u
    using assms by (cases "u = t") (simp_all add: put_packet_queues(1) map_update list_update_same_conv)
  then show ?thesis by (simp add: nodes_distinct_def)
qed

lemma add_buf_txqueue_ok:
  assumes r: "mwifiex_wmm_add_buf_txqueue q s priv w = Some (priv', w')"
    and ok: "counters_ok k priv" and short: "queues_short priv" and distinct: "nodes_distinct priv'"
  shows "counters_ok k priv'" "prios_ok priv \<Longrightarrow> prios_ok priv'"
proof -
  have len: "length (ra_lists priv) = 8" using ok by (rule counters_okD)
  let ?t = "mwifiex_wmm_downgrade_tid priv (priority s)"
  have "counters_ok k priv' \<and> (prios_ok priv \<longrightarrow> prios_ok priv')"
  proof (cases "\<not> connected priv \<and> \<not> mwifiex_is_skb_mgmt_frame s")
    case True
    then show ?thesis using r ok by (auto simp: mwifiex_wmm_add_buf_txqueue_def Let_def)
  next
    case False
    then obtain st tgt s1 p1 w1 where f: "find_target q s st ?t priv w = Some (tgt, s1, p1, w1)"
      and c: "(case tgt of Tdls_Queue \<Rightarrow> Some (p1\<lparr>tdls_txq := tdls_txq p1 @ [s1]\<rparr>, w1)
            | Receiver None \<Rightarrow> Some (p1, write_data_complete q s1 False (-1) w1)
            | Receiver (Some i) \<Rightarrow> Some (put_packet (unat ?t) i s1 p1, w1)) = Some (priv', w')"
      using r by (auto simp: mwifiex_wmm_add_buf_txqueue_def Let_def Option.bind_eq_Some_conv)
    note g = find_target_grown[OF f len downgrade_less]
    have len1: "length (ra_lists p1) = 8" using g(1) len by (simp add: grown_def)
    note step = grown_counters[OF g(1) ok] grown_prios[OF g(1) _ len]
    show ?thesis
    proof (cases tgt)
      case Tdls_Queue
      then have "same_queues p1 priv'" "nodes_distinct p1"
        using c distinct by (auto simp: same_queues_def nodes_distinct_def)
      then show ?thesis using step same_queues_ok by blast
    next
      case (Receiver ptr)
      show ?thesis
      proof (cases ptr)
        case None
        then show ?thesis using c Receiver distinct step by auto
      next
        case (Some i)
        have i: "i < length (ra_lists p1 ! unat ?t)"
          using g(2) Receiver Some by simp
        have e: "priv' = put_packet (unat ?t) i s1 p1"
          using c Receiver Some by simp
        have d: "nodes_distinct p1"
          using distinct put_packet_distinct[of "unat ?t" p1 i s1] i downgrade_less[of priv] len1 by (simp add: e)
        have "length (skb_head (ra_lists p1 ! unat ?t ! i)) < 65535"
          using grown_short[OF g(1) short len] downgrade_less nth_mem[OF i] unfolding queues_short_def by blast
        then show ?thesis
          unfolding e using put_packet_ok[OF step(1)[OF d] downgrade_less i] put_packet_prios[OF _ downgrade_less len1] step(2)
          by blast
      qed
    qed
  qed
  then show "counters_ok k priv'" "prios_ok priv \<Longrightarrow> prios_ok priv'" by blast+
qed

section \<open>Pausing\<close>

definition paused_cnt :: "ra_list_tbl \<Rightarrow> nat" where
  "paused_cnt r = (if tx_paused r then length (skb_head r) else 0)"

definition paused_pkts :: "ba_priv \<Rightarrow> nat" where
  "paused_pkts priv = sum_list (map (\<lambda>rs. sum_list (map paused_cnt rs)) (ra_lists priv))"

lemma paused_pkts_upd:
  assumes "t < length (ra_lists priv)" "i < length (ra_lists priv ! t)"
    and "ra_lists priv' = (ra_lists priv)[t := (ra_lists priv ! t)[i := r']]"
  shows "paused_pkts priv' + paused_cnt (ra_lists priv ! t ! i) = paused_pkts priv + paused_cnt r'"
proof -
  let ?f = "\<lambda>rs. sum_list (map paused_cnt rs)"
  have "paused_pkts priv' + ?f (ra_lists priv ! t) = paused_pkts priv + ?f ((ra_lists priv ! t)[i := r'])"
    unfolding paused_pkts_def assms(3) by (rule sum_list_update[OF assms(1)])
  then show ?thesis
    using sum_list_update[OF assms(2), of paused_cnt r'] by linarith
qed

text \<open>
  While receivers are paused or released one by one, \<open>c\<close> packets have changed sides. As long as fewer
  than $2^{32}$ packets are paused it is zero only when no released receiver has a packet.
\<close>

definition pausing :: "u8 \<Rightarrow> u32 \<Rightarrow> ba_priv \<Rightarrow> u32 \<times> ba_priv \<Rightarrow> bool" where
  "pausing pause k priv0 s \<longleftrightarrow> (case s of (c, priv) \<Rightarrow>
     counters_ok (if pause \<noteq> 0 then k + c else k - c) priv \<and> (\<forall>t < 8. prio_of priv t \<le> HIGH_PRIO_TID) \<and>
     (if pause \<noteq> 0 then prios_ok priv
      else \<exists>n. c = of_nat n \<and> n + paused_pkts priv = paused_pkts priv0 \<and> (n = 0 \<longrightarrow> prios_ok priv)))"

lemma pausing_start:
  assumes "counters_ok k priv" "prios_ok priv"
  shows "pausing pause k priv (0, priv)"
  using assms by (auto simp: pausing_def prios_ok_def intro: exI[of _ 0])

lemma counts_ok_ucast: "counts_ok r \<Longrightarrow> (ucast (total_pkt_count r) :: u32) = of_nat (length (skb_head r))"
  by (metis counts_ok_def of_nat_unat)

lemma pause_ra_keeps:
  assumes inv: "pausing pause k priv0 s" and t: "t < 8" and i: "i < length (ra_lists (snd s) ! t)"
    and bit: "pause = 0 \<or> pause = 1"
  shows "pausing pause k priv0 (pause_ra pause t i s)"
    and "length (ra_lists (snd (pause_ra pause t i s)) ! u) = length (ra_lists (snd s) ! u)"
proof -
  obtain c priv where s: "s = (c, priv)" by fastforce
  let ?r = "ra_lists priv ! t ! i"
  let ?r' = "?r\<lparr>tx_paused := pause \<noteq> 0\<rparr>"
  let ?n = "length (skb_head ?r)"
  have ok: "counters_ok (if pause \<noteq> 0 then k + c else k - c) priv" using inv by (simp add: pausing_def s)
  have len: "length (ra_lists priv) = 8" using ok by (rule counters_okD)
  have i': "i < length (ra_lists priv ! t)" using i by (simp add: s)
  have co: "counts_ok ?r" using list_okD(1)[OF counters_okD(3)[OF ok t] i'] .
  show "pausing pause k priv0 (pause_ra pause t i s)"
  proof (cases "pause_differs ?r pause")
    case False
    then show ?thesis using inv by (simp add: pause_ra_def s)
  next
    case True
    then obtain m where e: "pause_ra pause t i s = (c + of_nat ?n, (upd_ra t i (\<lambda>r. r\<lparr>tx_paused := pause \<noteq> 0\<rparr>) priv)\<lparr>wmm := m\<rparr>)"
      and m: "tx_pkts_queued m = tx_pkts_queued (wmm priv)" "highest_queued_prio m = highest_queued_prio (wmm priv)"
      by (simp add: pause_ra_def s Let_def counts_ok_ucast[OF co])
    let ?p = "(upd_ra t i (\<lambda>r. r\<lparr>tx_paused := pause \<noteq> 0\<rparr>) priv)\<lparr>wmm := m\<rparr>"
    have lists: "ra_lists ?p = (ra_lists priv)[t := (ra_lists priv ! t)[i := ?r']]" by simp
    have flag: "tx_paused ?r = (pause = 0)"
      using True bit by (auto simp: pause_differs_def split: if_splits)
    have c1: "counters_ok (if pause \<noteq> 0 then k + (c + of_nat ?n) else k - (c + of_nat ?n)) ?p"
      by (rule counters_ok_upd[OF ok t i' lists])
        (use co flag in \<open>simp_all add: counts_ok_def cnt_def m\<close>)
    have c2: "\<forall>t < 8. prio_of ?p t \<le> HIGH_PRIO_TID"
      using inv by (simp add: pausing_def s prio_of_def)
    have prios: "prios_ok ?p" if "prios_ok priv" "can_send ?r' \<Longrightarrow> False"
      by (rule prios_ok_upd[OF that(1) t len lists]) (use that m in \<open>simp_all add: prios_ok_def\<close>)
    have c3: "\<exists>n. c + of_nat ?n = of_nat n \<and> n + paused_pkts ?p = paused_pkts priv0 \<and> (n = 0 \<longrightarrow> prios_ok ?p)"
      if z: "pause = 0"
    proof -
      obtain n where n: "c = of_nat n" "n + paused_pkts priv = paused_pkts priv0" "n = 0 \<Longrightarrow> prios_ok priv"
        using inv z by (auto simp: pausing_def s)
      have "paused_pkts ?p + ?n = paused_pkts priv"
        using paused_pkts_upd[OF _ i' lists] t len flag z by (simp add: paused_cnt_def)
      then show ?thesis
        using n prios by (intro exI[of _ "n + ?n"]) (auto simp: can_send_def)
    qed
    show ?thesis
    proof (cases "pause = 0")
      case True
      then show ?thesis
        unfolding e pausing_def prod.case using c1 c2 c3 by (simp del: upd_ra_simps)
    next
      case False
      then have "prios_ok ?p"
        using inv prios by (simp add: pausing_def s can_send_def)
      then show ?thesis
        unfolding e pausing_def prod.case using c1 c2 False by (simp del: upd_ra_simps)
    qed
  qed
  show "length (ra_lists (snd (pause_ra pause t i s)) ! u) = length (ra_lists (snd s) ! u)"
    using t len by (cases "u = t") (simp_all add: pause_ra_def s Let_def)
qed

lemma move_counts_ok:
  assumes inv: "pausing pause k priv0 (c, priv)" and few: "paused_pkts priv0 < 2 ^ 32"
  shows "counters_ok k (move_counts pause c priv)" "prios_ok (move_counts pause c priv)"
proof -
  show "counters_ok k (move_counts pause c priv)"
    using inv by (auto simp: pausing_def move_counts_def counters_ok_def queue_cnt_def Let_def split: if_splits)
  show "prios_ok (move_counts pause c priv)"
  proof (cases "c = 0")
    case True
    have "prios_ok priv"
    proof (cases "pause = 0")
      case z: True
      then obtain n where n: "c = of_nat n" "n + paused_pkts priv = paused_pkts priv0" "n = 0 \<Longrightarrow> prios_ok priv"
        using inv by (auto simp: pausing_def)
      have "n < 2 ^ LENGTH(32)" using n(2) few by simp
      moreover have "(of_nat n :: u32) = 0" using True n(1) by simp
      ultimately have "n = 0"
        by (metis of_nat_eq_0_iff unat_0 unsigned_of_nat take_bit_nat_eq_self of_nat_id unsigned_0)
      then show ?thesis by (rule n(3))
    qed (use inv in \<open>simp add: pausing_def\<close>)
    then show ?thesis by (simp add: move_counts_def True)
  next
    case False
    then show ?thesis
      using inv by (auto simp: pausing_def move_counts_def prios_ok_def prios_noted_def prio_of_def Let_def)
  qed
qed

lemma pause_tids_ok:
  assumes "pausing pause k priv0 s" "\<forall>t \<in> set ts. t < 8" "pause = 0 \<or> pause = 1" "pause_tids mac pause ts s = Some s'"
  shows "pausing pause k priv0 s'"
  using assms
proof (induction ts arbitrary: s)
  case (Cons t ts)
  have t: "t < 8" "unat (of_nat t :: u8) = t"
    using Cons.prems(2) by (simp_all add: unat_of_nat)
  obtain ptr where ptr: "mwifiex_wmm_get_ralist_node (snd s) (of_nat t) mac = Some ptr"
    "pause_tids mac pause ts (case ptr of None \<Rightarrow> s | Some i \<Rightarrow> pause_ra pause t i s) = Some s'"
    using Cons.prems(4) by (auto simp: Option.bind_eq_Some_conv)
  have "pausing pause k priv0 (case ptr of None \<Rightarrow> s | Some i \<Rightarrow> pause_ra pause t i s)"
  proof (cases ptr)
    case (Some i)
    then have "i < length (ra_lists (snd s) ! t)"
      using ptr(1) t by (auto simp: mwifiex_wmm_get_ralist_node_def first_index_Some idx_Some_iff Option.bind_eq_Some_conv)
    then show ?thesis using pause_ra_keeps(1)[OF Cons.prems(1) t(1) _ Cons.prems(3)] Some by simp
  qed (use Cons.prems in simp)
  then show ?case using Cons.IH Cons.prems ptr(2) by simp
qed simp

lemma pause_others_ok:
  assumes inv: "pausing pause k priv0 s" and t: "t < 8" and bit: "pause = 0 \<or> pause = 1"
  shows "pausing pause k priv0 (pause_others mac pause t s)"
proof -
  let ?f = "\<lambda>i s. if ra (ra_lists (snd s) ! t ! i) = mac then s else pause_ra pause t i s"
  have "pausing pause k priv0 (fold ?f is s') \<and> length (ra_lists (snd (fold ?f is s')) ! t) = length (ra_lists (snd s) ! t)"
    if "\<forall>i \<in> set is. i < length (ra_lists (snd s) ! t)" "pausing pause k priv0 s'"
      "length (ra_lists (snd s') ! t) = length (ra_lists (snd s) ! t)" for "is" s'
    using that
  proof (induction "is" arbitrary: s')
    case (Cons i "is")
    have "pausing pause k priv0 (?f i s') \<and> length (ra_lists (snd (?f i s')) ! t) = length (ra_lists (snd s) ! t)"
      using pause_ra_keeps(1)[where i=i, OF Cons.prems(2) t _ bit]
        pause_ra_keeps(2)[where i=i and u=t, OF Cons.prems(2) t _ bit] Cons.prems by simp
    then show ?case using Cons.IH[of "?f i s'"] Cons.prems by simp
  qed simp
  then show ?thesis unfolding pause_others_def using inv by simp
qed

lemma tx_pause_ok:
  assumes "mwifiex_update_ralist_tx_pause mac pause priv = Some priv'" "pause = 0 \<or> pause = 1"
    and "counters_ok k priv" "prios_ok priv" "paused_pkts priv < 2 ^ 32"
  shows "counters_ok k priv'" "prios_ok priv'"
proof -
  obtain c p where tids: "pause_tids mac pause [0..<MAX_NUM_TID] (0, priv) = Some (c, p)"
    and p: "priv' = move_counts pause c p"
    using assms(1) by (auto simp: mwifiex_update_ralist_tx_pause_def Option.bind_eq_Some_conv)
  have "pausing pause k priv (c, p)"
    by (rule pause_tids_ok[OF pausing_start[OF assms(3,4)] _ assms(2) tids]) (simp add: MAX_NUM_TID_def)
  then show "counters_ok k priv'" "prios_ok priv'"
    unfolding p using move_counts_ok[OF _ assms(5)] by simp_all
qed

lemma tx_pause_cs_ok:
  assumes "pause = 0 \<or> pause = 1" and "counters_ok k priv" "prios_ok priv" "paused_pkts priv < 2 ^ 32"
  shows "counters_ok k (mwifiex_update_ralist_tx_pause_in_tdls_cs mac pause priv)"
    "prios_ok (mwifiex_update_ralist_tx_pause_in_tdls_cs mac pause priv)"
proof -
  have "pausing pause k priv (fold (pause_others mac pause) ts s)" if "\<forall>t \<in> set ts. t < 8" "pausing pause k priv s" for ts s
    using that by (induction ts arbitrary: s) (simp_all add: pause_others_ok[OF _ _ assms(1)])
  then have "pausing pause k priv (fold (pause_others mac pause) [0..<MAX_NUM_TID] (0, priv))"
    using pausing_start[OF assms(2,3)] by (simp add: MAX_NUM_TID_def)
  then show "counters_ok k (mwifiex_update_ralist_tx_pause_in_tdls_cs mac pause priv)"
    "prios_ok (mwifiex_update_ralist_tx_pause_in_tdls_cs mac pause priv)"
    using move_counts_ok[OF _ assms(4)]
    by (auto simp: mwifiex_update_ralist_tx_pause_in_tdls_cs_def Let_def split: prod.split)
qed

section \<open>Deleting a peer\<close>

lemma remove_at_ok:
  assumes "list_ok rs" "i < length rs"
  shows "list_ok (remove_at i rs)" "list_cnt (remove_at i rs) + cnt (rs ! i) = list_cnt rs"
  using assms set_remove_at[of i rs] sum_list_remove[OF assms(2), of cnt] remove_at_distinct(1)[of "map node_at rs" i]
  by (auto simp: list_ok_def list_cnt_def map_remove_at)

lemma del_peer_ok:
  assumes "del_peer q a ts priv w = Some (priv', w')" "\<forall>t \<in> set ts. t < 8" "counters_ok k priv"
  shows "counters_ok k priv' \<and> (prios_ok priv \<longrightarrow> prios_ok priv')"
  using assms
proof (induction ts arbitrary: priv w)
  case (Cons t ts)
  have t: "t < 8" "unat (of_nat t :: u8) = t"
    using Cons.prems(2) by (simp_all add: unat_of_nat)
  have len: "length (ra_lists priv) = 8" using Cons.prems(3) by (rule counters_okD)
  obtain ptr where ptr: "mwifiex_wmm_get_ralist_node priv (of_nat t) a = Some ptr"
    using Cons.prems(1) by (auto simp: Option.bind_eq_Some_conv)
  show ?case
  proof (cases ptr)
    case None
    then show ?thesis using Cons ptr by simp
  next
    case (Some i)
    let ?r = "ra_lists priv ! t ! i"
    have i: "i < length (ra_lists priv ! t)"
      using ptr t Some by (auto simp: mwifiex_wmm_get_ralist_node_def first_index_Some idx_Some_iff Option.bind_eq_Some_conv)
    note lok = counters_okD(3)[OF Cons.prems(3) t(1)]
    have co: "counts_ok ?r" using list_okD(1)[OF lok i] .
    obtain p w1 where p: "del_peer q a ts p w1 = Some (priv', w')"
      and lists: "ra_lists p = (ra_lists priv)[t := remove_at i (ra_lists priv ! t)]"
      and q: "tos_to_tid_inv p = tos_to_tid_inv priv" "highest_queued_prio (wmm p) = highest_queued_prio (wmm priv)"
        "tx_pkts_queued (wmm p) = tx_pkts_queued (wmm priv) - cnt ?r"
      using Cons.prems(1) ptr Some counts_ok_ucast[OF co]
      by (auto simp: Let_def cnt_def mwifiex_wmm_del_pkts_in_ralist_node_def split: if_splits)
    have "counters_ok k p"
      by (rule counters_ok_change[OF Cons.prems(3) t(1) lists remove_at_ok(1)[OF lok i]])
        (use remove_at_ok(2)[OF lok i, symmetric] q in simp)
    moreover have "prios_ok p" if "prios_ok priv"
    proof (rule prios_ok_change[OF that t(1) len lists q(1)])
      assume "\<exists>r \<in> set (remove_at i (ra_lists priv ! t)). can_send r"
      then show "prio_of priv t \<le> highest_queued_prio (wmm p)"
        using that t(1) set_remove_at[of i "ra_lists priv ! t"] q(2) by (auto simp: prios_ok_def prios_noted_def)
    qed (use q that in \<open>simp_all add: prios_ok_def\<close>)
    ultimately show ?thesis
      using Cons.IH[OF p] Cons.prems(2) by simp
  qed
qed simp

section \<open>The search in one interface\<close>

definition busy :: "ba_priv \<Rightarrow> bool" where
  "busy priv \<longleftrightarrow> (\<exists>t < 8. \<exists>r \<in> set (ra_lists priv ! t). can_send r)"

definition send_cnt :: "ra_list_tbl \<Rightarrow> nat" where
  "send_cnt r = (if tx_paused r then 0 else length (skb_head r))"

definition send_pkts :: "ba_priv \<Rightarrow> nat" where
  "send_pkts priv = sum_list (map (\<lambda>rs. sum_list (map send_cnt rs)) (ra_lists priv))"

lemma of_nat_sum_list: "of_nat (sum_list (map f xs)) = sum_list (map (\<lambda>x. of_nat (f x)) xs)"
  by (induction xs) simp_all

lemma queue_cnt_eq: "queue_cnt priv = of_nat (send_pkts priv)"
proof -
  have "cnt = (\<lambda>r. of_nat (send_cnt r))"
    by (simp add: cnt_def send_cnt_def fun_eq_iff)
  moreover have "list_cnt = (\<lambda>rs. sum_list (map cnt rs))"
    by (simp add: list_cnt_def fun_eq_iff)
  ultimately show ?thesis
    by (simp add: queue_cnt_def send_pkts_def of_nat_sum_list)
qed

lemma send_pkts_zero:
  assumes "length (ra_lists priv) = 8"
  shows "send_pkts priv = 0 \<longleftrightarrow> \<not> busy priv"
proof -
  have "send_cnt r = 0 \<longleftrightarrow> \<not> can_send r" for r
    by (simp add: send_cnt_def can_send_def)
  then show ?thesis
    using assms by (simp add: send_pkts_def busy_def all_set_conv_all_nth[of "ra_lists priv"])
qed

lemma queued_zero:
  assumes "counters_ok 0 priv" "send_pkts priv < 2 ^ 32"
  shows "tx_pkts_queued (wmm priv) = 0 \<longleftrightarrow> \<not> busy priv"
proof -
  have "send_pkts priv < 2 ^ LENGTH(32)" using assms(2) by simp
  then have "(of_nat (send_pkts priv) :: u32) = 0 \<longleftrightarrow> send_pkts priv = 0"
    by (metis of_nat_0 of_nat_id take_bit_nat_eq_self unsigned_0 unsigned_of_nat)
  then show ?thesis
    using counters_okD(1,2)[OF assms(1)] send_pkts_zero by (simp add: queue_cnt_eq)
qed

text \<open>The order of the traffic identifiers and its inverse.\<close>

definition order_ok :: "u8 list \<Rightarrow> u8 list \<Rightarrow> bool" where
  "order_ok order back \<longleftrightarrow> length order = 8 \<and> length back = 8 \<and>
     (\<forall>i < 8. unat (order ! i) < 8 \<and> unat (back ! unat (order ! i)) = i) \<and>
     (\<forall>t < 8. unat (back ! t) < 8 \<and> unat (order ! unat (back ! t)) = t)"

lemma scan_prios_spec:
  assumes "order_ok order back" "length (ra_lists priv) = 8" "\<forall>i \<in> set is. i < 8"
  shows "\<exists>x. scan_prios order priv is = Some x \<and>
    (case x of
       None \<Rightarrow> \<forall>i \<in> set is. \<forall>r \<in> set (ra_lists priv ! unat (order ! i)). \<not> can_send r
     | Some (i, t, k) \<Rightarrow> i < 8 \<and> t = unat (order ! i) \<and> k < length (ra_lists priv ! t) \<and> can_send (ra_lists priv ! t ! k) \<and>
         (\<exists>pre post. is = pre @ i # post \<and>
            (\<forall>j \<in> set pre. \<forall>r \<in> set (ra_lists priv ! unat (order ! j)). \<not> can_send r)))"
  using assms(3)
proof (induction "is")
  case (Cons i "is")
  let ?rs = "ra_lists priv ! unat (order ! i)"
  have 1: "idx order i = Some (order ! i)" "idx (ra_lists priv) (unat (order ! i)) = Some ?rs"
    using assms(1,2) Cons.prems by (simp_all add: order_ok_def idx_def)
  obtain x where x: "scan_prios order priv is = Some x" "case x of
       None \<Rightarrow> \<forall>i \<in> set is. \<forall>r \<in> set (ra_lists priv ! unat (order ! i)). \<not> can_send r
     | Some (i, t, k) \<Rightarrow> i < 8 \<and> t = unat (order ! i) \<and> k < length (ra_lists priv ! t) \<and> can_send (ra_lists priv ! t ! k) \<and>
         (\<exists>pre post. is = pre @ i # post \<and>
            (\<forall>j \<in> set pre. \<forall>r \<in> set (ra_lists priv ! unat (order ! j)). \<not> can_send r))"
    using Cons by auto
  show ?case
  proof (cases "first_index can_send ?rs")
    case (Some k)
    note found = Some[unfolded first_index_Some]
    have "\<exists>pre post. i # is = pre @ i # post \<and>
        (\<forall>j \<in> set pre. \<forall>r \<in> set (ra_lists priv ! unat (order ! j)). \<not> can_send r)"
      by (intro exI[of _ "[]"] exI[of _ "is"]) simp
    then show ?thesis
      using found Cons.prems by (intro exI[of _ "Some (i, unat (order ! i), k)"]) (simp add: 1 Some)
  next
    case None
    then have none: "\<forall>r \<in> set ?rs. \<not> can_send r" by simp
    show ?thesis
    proof (cases x)
      case None
      then show ?thesis using x none \<open>first_index can_send ?rs = None\<close> by (simp add: 1 del: first_index_None)
    next
      case (Some y)
      obtain i' t k where y: "y = (i', t, k)" by (cases y)
      obtain pre post where "is = pre @ i' # post"
        "\<forall>j \<in> set pre. \<forall>r \<in> set (ra_lists priv ! unat (order ! j)). \<not> can_send r"
        using x Some y by auto
      then have "\<exists>pre post. i # is = pre @ i' # post \<and>
            (\<forall>j \<in> set pre. \<forall>r \<in> set (ra_lists priv ! unat (order ! j)). \<not> can_send r)"
        using none by (intro exI[of _ "i # pre"] exI[of _ post]) simp
      moreover have "i' < 8" "t = unat (order ! i')" "k < length (ra_lists priv ! t)" "can_send (ra_lists priv ! t ! k)"
        using x(2)[unfolded Some y option.case prod.case] by blast+
      ultimately show ?thesis
        using x(1) Some y \<open>first_index can_send ?rs = None\<close> by (simp add: 1 del: first_index_None)
    qed
  qed
qed simp

lemma set_prios_from: "set (prios_from h) = {i. int i \<le> h}"
  by (auto simp: prios_from_def)

lemma prios_from_split:
  assumes "prios_from h = pre @ i # post"
  shows "int i \<le> h" "i < j \<Longrightarrow> int j \<le> h \<Longrightarrow> j \<in> set pre"
proof -
  have "int i \<le> h \<and> (\<forall>j. i < j \<and> int j \<le> h \<longrightarrow> j \<in> set pre)" if "rev [0..<n] = pre @ i # post" "n = nat (h + 1)" for n
  proof -
    have "sorted_wrt (>) (pre @ i # post)"
      using that(1) by (metis sorted_wrt_rev sorted_wrt_upt rev_rev_ident)
    then have "\<forall>j \<in> set post. j < i" by (simp add: sorted_wrt_append)
    moreover have "set (pre @ i # post) = {0..<n}" using that(1) by (metis set_rev set_upt)
    ultimately show ?thesis using that(2) by (fastforce simp: set_eq_iff)
  qed
  then show "int i \<le> h" "i < j \<Longrightarrow> int j \<le> h \<Longrightarrow> j \<in> set pre"
    using assms by (auto simp: prios_from_def)
qed

text \<open>An interface that may send.\<close>

definition may_send :: "bool \<Rightarrow> ba_priv \<Rightarrow> bool" where
  "may_send ready priv \<longleftrightarrow> \<not> port_closed priv \<and> ready \<and> busy priv"

definition first_in_line :: "ba_priv \<Rightarrow> nat \<Rightarrow> nat \<Rightarrow> bool" where
  "first_in_line priv t k \<longleftrightarrow> t < 8 \<and> k < length (ra_lists priv ! t) \<and> can_send (ra_lists priv ! t ! k) \<and>
     (\<forall>u < 8. \<forall>r \<in> set (ra_lists priv ! u). can_send r \<longrightarrow> prio_of priv u \<le> prio_of priv t)"

lemma set_prio_simps [simp]:
  "ra_lists (set_prio h priv) = ra_lists priv" "tos_to_tid_inv (set_prio h priv) = tos_to_tid_inv priv"
  "tx_pkts_queued (wmm (set_prio h priv)) = tx_pkts_queued (wmm priv)"
  "highest_queued_prio (wmm (set_prio h priv)) = h" "bss_priority (set_prio h priv) = bss_priority priv"
  "port_closed (set_prio h priv) = port_closed priv"
  by (simp_all add: set_prio_def port_closed_def)

lemma set_prio_ok [simp]:
  "counters_ok k (set_prio h priv) = counters_ok k priv" "busy (set_prio h priv) = busy priv"
  "first_in_line (set_prio h priv) t i = first_in_line priv t i" "send_pkts (set_prio h priv) = send_pkts priv"
  by (simp_all add: counters_ok_def queue_cnt_def busy_def first_in_line_def prio_of_def send_pkts_def)

text \<open>With the invariant one pass is enough, and it finds a packet of the highest priority.\<close>

lemma try_interface_spec:
  assumes ok: "queues_ok priv" and order: "order_ok order (tos_to_tid_inv priv)" and few: "send_pkts priv < 2 ^ 32"
  shows "if may_send ready priv
    then \<exists>t k h. try_interface (Suc fuel) ready order priv = Returned (Some (t, k), set_prio h priv) \<and>
      first_in_line priv t k \<and> queues_ok (set_prio h priv)
    else try_interface (Suc fuel) ready order priv = Returned (None, priv)"
proof -
  let ?h = "highest_queued_prio (wmm priv)"
  have c: "counters_ok 0 priv" and p: "prios_ok priv" using ok by (simp_all add: queues_ok_def)
  have len: "length (ra_lists priv) = 8" using c by (rule counters_okD)
  have h7: "?h \<le> 7" using p by (simp add: prios_ok_def HIGH_PRIO_TID_def)
  note z = queued_zero[OF c few]
  show ?thesis
  proof (cases "may_send ready priv")
    case False
    then show ?thesis using z by (auto simp: may_send_def)
  next
    case True
    then have b: "busy priv" and start: "\<not> port_closed priv" "ready" "tx_pkts_queued (wmm priv) \<noteq> 0"
      using z by (auto simp: may_send_def)
    have "\<forall>i \<in> set (prios_from ?h). i < 8" using h7 by (auto simp: set_prios_from)
    then obtain x where x: "scan_prios order priv (prios_from ?h) = Some x" and
      spec: "case x of
       None \<Rightarrow> \<forall>i \<in> set (prios_from ?h). \<forall>r \<in> set (ra_lists priv ! unat (order ! i)). \<not> can_send r
     | Some (i, t, k) \<Rightarrow> i < 8 \<and> t = unat (order ! i) \<and> k < length (ra_lists priv ! t) \<and> can_send (ra_lists priv ! t ! k) \<and>
         (\<exists>pre post. prios_from ?h = pre @ i # post \<and>
            (\<forall>j \<in> set pre. \<forall>r \<in> set (ra_lists priv ! unat (order ! j)). \<not> can_send r))"
      using scan_prios_spec[OF order len] by blast
    have noted: "\<exists>i. i < 8 \<and> unat (order ! i) = u \<and> int i = prio_of priv u \<and> int i \<le> ?h"
      if "u < 8" "r \<in> set (ra_lists priv ! u)" "can_send r" for u r
    proof (intro exI conjI)
      let ?i = "unat (tos_to_tid_inv priv ! u)"
      show "?i < 8" "unat (order ! ?i) = u" using order that(1) by (simp_all add: order_ok_def)
      show i: "int ?i = prio_of priv u" by (simp add: prio_of_def)
      have "prios_noted priv u" using p that(1) by (simp add: prios_ok_def)
      then show "int ?i \<le> ?h" unfolding i using that(2,3) by (auto simp: prios_noted_def)
    qed
    have "x \<noteq> None"
    proof
      assume "x = None"
      then have none: "\<forall>i. int i \<le> ?h \<longrightarrow> (\<forall>r \<in> set (ra_lists priv ! unat (order ! i)). \<not> can_send r)"
        using spec by (simp add: set_prios_from)
      obtain u r where "u < 8" "r \<in> set (ra_lists priv ! u)" "can_send r" using b by (auto simp: busy_def)
      then show False using noted none by metis
    qed
    then obtain i t k pre post where xs: "x = Some (i, t, k)" "i < 8" "t = unat (order ! i)"
      "k < length (ra_lists priv ! t)" "can_send (ra_lists priv ! t ! k)" "prios_from ?h = pre @ i # post"
      "\<forall>j \<in> set pre. \<forall>r \<in> set (ra_lists priv ! unat (order ! j)). \<not> can_send r"
      using spec by (auto split: option.splits)
    have prio_t: "prio_of priv t = int i"
      using order xs(2,3) by (simp add: order_ok_def prio_of_def uint_nat)
    have above: "prio_of priv u \<le> int i" if u: "u < 8" "r \<in> set (ra_lists priv ! u)" "can_send r" for u r
    proof (rule ccontr)
      assume "\<not> prio_of priv u \<le> int i"
      moreover obtain j where "unat (order ! j) = u" "int j = prio_of priv u" "int j \<le> ?h"
        using noted[OF u] by blast
      ultimately show False
        using prios_from_split(2)[OF xs(6), of j] xs(7) u by auto
    qed
    have "first_in_line priv t k"
      using order xs(2-5) above prio_t by (auto simp: first_in_line_def order_ok_def)
    moreover have "queues_ok (set_prio (int i) priv)"
      using c p above xs(2) by (auto simp: queues_ok_def prios_ok_def prios_noted_def prio_of_def HIGH_PRIO_TID_def)
    moreover have "int i \<le> ?h" by (rule prios_from_split(1)[OF xs(6)])
    then have "try_interface (Suc fuel) ready order priv = Returned (Some (t, k), set_prio (int i) priv)"
      using start by (cases "int i = ?h") (simp_all add: x xs(1) set_prio_def)
    ultimately show ?thesis
      using True by auto
  qed
qed

end
