(* ===== verification/Wmm_Send.thy ===== *)
theory Wmm_Send
  imports Wmm_Inv
begin

text \<open>
  The search over all interfaces and the sending of packets keep the invariant of the queues: when nothing
  else happens while a packet is on the bus, the counters stay exact and the search always returns, with a packet of
  the highest priority. When a peer is deleted in that time they do not, and the search never returns.
\<close>

section \<open>All interfaces\<close>

definition queues_inv :: "tx_adapter \<Rightarrow> bool" where
  "queues_inv a \<longleftrightarrow> (\<forall>i priv. get_priv a i = Some priv \<longrightarrow>
     queues_ok priv \<and> order_ok (tos a) (tos_to_tid_inv priv))"

text \<open>Every interface in the table of level \<open>j\<close> exists and has that level.\<close>

definition sched_inv :: "tx_adapter \<Rightarrow> bool" where
  "sched_inv a \<longleftrightarrow> length (bss_prio_cur a) = length (bss_prio_tbl a) \<and> length (privs a) \<le> length (bss_prio_tbl a) \<and>
     (\<forall>j < length (bss_prio_tbl a). \<forall>i \<in> set (bss_prio_tbl a ! j). \<exists>priv. get_priv a i = Some priv \<and> bss_priority priv = j)"

definition few_packets :: "tx_adapter \<Rightarrow> bool" where
  "few_packets a \<longleftrightarrow> (\<forall>i priv. get_priv a i = Some priv \<longrightarrow> send_pkts priv < 2 ^ 32)"

definition sends :: "'w tx_driver \<Rightarrow> tx_adapter \<Rightarrow> 'w \<Rightarrow> nat \<Rightarrow> bool" where
  "sends tx a w i \<longleftrightarrow> (\<exists>priv. get_priv a i = Some priv \<and> may_send (is_port_ready tx i w) priv)"

lemma get_priv_upd:
  assumes "get_priv a i = Some priv"
  shows "get_priv (upd_priv i f a) j = (if j = i then Some (f priv) else get_priv a j)"
  using assms by (auto simp: get_priv_def upd_priv_def idx_def split: if_splits)

lemma upd_priv_id: "get_priv a i = Some priv \<Longrightarrow> upd_priv i (\<lambda>_. priv) a = a"
  by (auto simp: get_priv_def upd_priv_def idx_def list_update_same_conv split: if_splits)

lemma upd_priv_simps [simp]:
  "bss_prio_tbl (upd_priv i f a) = bss_prio_tbl a" "bss_prio_cur (upd_priv i f a) = bss_prio_cur a"
  "tos (upd_priv i f a) = tos a" "length (privs (upd_priv i f a)) = length (privs a)"
  "tx_data_q (upd_priv i f a) = tx_data_q a" "tx_queued (upd_priv i f a) = tx_queued a"
  "data_sent (upd_priv i f a) = data_sent a" "tx_lock_flag (upd_priv i f a) = tx_lock_flag a"
  by (simp_all add: upd_priv_def)

text \<open>Changes of the adapter that do not concern the queues.\<close>

definition same_ifaces :: "tx_adapter \<Rightarrow> tx_adapter \<Rightarrow> bool" where
  "same_ifaces a a' \<longleftrightarrow> privs a' = privs a \<and> tos a' = tos a"

definition same_table :: "tx_adapter \<Rightarrow> tx_adapter \<Rightarrow> bool" where
  "same_table a a' \<longleftrightarrow> bss_prio_tbl a' = bss_prio_tbl a \<and> bss_prio_cur a' = bss_prio_cur a"

lemma same_ifaces_get: "same_ifaces a a' \<Longrightarrow> get_priv a' = get_priv a"
  by (simp add: same_ifaces_def get_priv_def fun_eq_iff)

lemma same_ifaces_inv: "same_ifaces a a' \<Longrightarrow> queues_inv a' = queues_inv a"
  by (simp add: queues_inv_def same_ifaces_get) (simp add: same_ifaces_def)

lemma same_sched_inv:
  assumes "same_ifaces a a'" "bss_prio_tbl a' = bss_prio_tbl a" "length (bss_prio_cur a') = length (bss_prio_cur a)"
  shows "sched_inv a' = sched_inv a"
proof -
  have "privs a' = privs a" using assms(1) by (simp add: same_ifaces_def)
  then show ?thesis
    by (simp only: sched_inv_def same_ifaces_get[OF assms(1)] assms(2,3))
qed

lemma queues_inv_upd:
  assumes "queues_inv a" "get_priv a i = Some priv" "queues_ok (f priv)" "tos_to_tid_inv (f priv) = tos_to_tid_inv priv"
  shows "queues_inv (upd_priv i f a)"
  using assms by (auto simp: queues_inv_def get_priv_upd)

lemma sched_inv_upd:
  assumes "sched_inv a" "get_priv a i = Some priv" "bss_priority (f priv) = bss_priority priv"
  shows "sched_inv (upd_priv i f a)"
proof -
  have "\<exists>p. get_priv (upd_priv i f a) k = Some p \<and> bss_priority p = j"
    if "j < length (bss_prio_tbl a)" "k \<in> set (bss_prio_tbl a ! j)" for j k
  proof -
    obtain p where "get_priv a k = Some p" "bss_priority p = j"
      using assms(1) \<open>j < length (bss_prio_tbl a)\<close> \<open>k \<in> set (bss_prio_tbl a ! j)\<close> unfolding sched_inv_def by blast
    then show ?thesis
      using assms(2,3) by (auto simp: get_priv_upd)
  qed
  then show ?thesis using assms(1) by (simp add: sched_inv_def)
qed

section \<open>The search\<close>

definition cur_at :: "nat \<Rightarrow> nat \<Rightarrow> tx_adapter \<Rightarrow> tx_adapter" where
  "cur_at j c a = a\<lparr>bss_prio_cur := (bss_prio_cur a)[j := c]\<rparr>"

lemma cur_at_simps [simp]:
  "get_priv (cur_at j c a) i = get_priv a i" "privs (cur_at j c a) = privs a" "tos (cur_at j c a) = tos a"
  "bss_prio_tbl (cur_at j c a) = bss_prio_tbl a" "bss_prio_cur (cur_at j c a) = (bss_prio_cur a)[j := c]"
  "queues_inv (cur_at j c a) = queues_inv a" "sched_inv (cur_at j c a) = sched_inv a"
  "few_packets (cur_at j c a) = few_packets a" "sends tx (cur_at j c a) w i = sends tx a w i"
  by (simp_all add: cur_at_def get_priv_def queues_inv_def sched_inv_def few_packets_def sends_def)

text \<open>The entry found, and the state in which the search leaves the adapter.\<close>

definition found_at ::
  "'w tx_driver \<Rightarrow> tx_adapter \<Rightarrow> 'w \<Rightarrow> nat \<Rightarrow> nat \<Rightarrow> nat \<Rightarrow> nat \<Rightarrow> nat \<Rightarrow> tx_adapter \<Rightarrow> bool" where
  "found_at tx a w j c i t p a' \<longleftrightarrow>
     (\<exists>priv k h a0. get_priv a i = Some priv \<and> may_send (is_port_ready tx i w) priv \<and> first_in_line priv t k \<and>
        node_at (ra_lists priv ! t ! k) = p \<and> queues_ok (set_prio h priv) \<and>
        j < length (bss_prio_tbl a) \<and> c < length (bss_prio_tbl a ! j) \<and> bss_prio_tbl a ! j ! c = i \<and>
        a' = upd_priv i (\<lambda>_. set_prio h priv) (cur_at j c a0) \<and> same_ifaces a a0 \<and>
        bss_prio_tbl a0 = bss_prio_tbl a \<and> length (bss_prio_cur a0) = length (bss_prio_cur a))"

lemma search_nodes_spec:
  assumes "queues_inv a" "sched_inv a" "few_packets a" "j < length (bss_prio_tbl a)"
    "\<forall>c \<in> set cs. c < length (bss_prio_tbl a ! j)"
  shows "(\<exists>c i t p a'. search_nodes (Suc fuel) tx j cs a w = Returned (Some (i, t, p), a') \<and> found_at tx a w j c i t p a' \<and>
      (\<exists>pre post. cs = pre @ c # post \<and> (\<forall>c' \<in> set pre. \<not> sends tx a w (bss_prio_tbl a ! j ! c')))) \<or>
    (\<forall>c \<in> set cs. \<not> sends tx a w (bss_prio_tbl a ! j ! c)) \<and>
      (\<exists>a'. search_nodes (Suc fuel) tx j cs a w = Returned (None, a') \<and> same_ifaces a a' \<and>
        bss_prio_tbl a' = bss_prio_tbl a \<and> length (bss_prio_cur a') = length (bss_prio_cur a))"
  using assms
proof (induction cs arbitrary: a)
  case Nil
  then show ?case by (simp add: same_ifaces_def)
next
  case (Cons c cs)
  let ?i = "bss_prio_tbl a ! j ! c"
  have c: "c < length (bss_prio_tbl a ! j)" using Cons.prems(5) by simp
  then obtain priv where priv: "get_priv a ?i = Some priv"
    using Cons.prems(2,4) unfolding sched_inv_def by (metis nth_mem)
  have ok: "queues_ok priv" "order_ok (tos a) (tos_to_tid_inv priv)" "send_pkts priv < 2 ^ 32"
    using Cons.prems(1,3) priv by (auto simp: queues_inv_def few_packets_def)
  have step: "search_nodes (Suc fuel) tx j (c # cs) a w =
      (case try_interface (Suc fuel) (is_port_ready tx ?i w) (tos a) priv of
                 Fault \<Rightarrow> Fault
               | Running \<Rightarrow> Running
               | Returned (r, priv) \<Rightarrow>
                   (let a = upd_priv ?i (\<lambda>_. priv) (cur_at j c a)
                    in (case r of
                          Some (t, k) \<Rightarrow> Returned (Some (?i, t, node_at (ra_lists priv ! t ! k)), a)
                        | None \<Rightarrow> search_nodes (Suc fuel) tx j cs a w)))"
    using priv by (simp add: Let_def cur_at_def[symmetric] del: try_interface.simps)
  note spec = try_interface_spec[OF ok, of "is_port_ready tx ?i w" fuel]
  show ?case
  proof (cases "may_send (is_port_ready tx ?i w) priv")
    case True
    then obtain t k h where r: "try_interface (Suc fuel) (is_port_ready tx ?i w) (tos a) priv = Returned (Some (t, k), set_prio h priv)"
      "first_in_line priv t k" "queues_ok (set_prio h priv)"
      using spec by auto
    have "found_at tx a w j c ?i t (node_at (ra_lists priv ! t ! k)) (upd_priv ?i (\<lambda>_. set_prio h priv) (cur_at j c a))"
      unfolding found_at_def
      by (intro exI[of _ priv] exI[of _ k] exI[of _ h] exI[of _ a])
        (use priv True r c Cons.prems(4) in \<open>simp add: same_ifaces_def\<close>)
    moreover have "search_nodes (Suc fuel) tx j (c # cs) a w =
        Returned (Some (?i, t, node_at (ra_lists priv ! t ! k)), upd_priv ?i (\<lambda>_. set_prio h priv) (cur_at j c a))"
      unfolding step r(1) by (simp add: Let_def)
    moreover have "\<exists>pre post. c # cs = pre @ c # post \<and> (\<forall>c' \<in> set pre. \<not> sends tx a w (bss_prio_tbl a ! j ! c'))"
      by (intro exI[of _ "[]"] exI[of _ cs]) simp
    ultimately show ?thesis by blast
  next
    case False
    then have r: "try_interface (Suc fuel) (is_port_ready tx ?i w) (tos a) priv = Returned (None, priv)"
      using spec by (simp del: try_interface.simps)
    have no: "\<not> sends tx a w ?i" using False priv by (simp add: sends_def)
    let ?a = "cur_at j c a"
    have s: "search_nodes (Suc fuel) tx j (c # cs) a w = search_nodes (Suc fuel) tx j cs ?a w"
      unfolding step r using upd_priv_id[of ?a ?i priv] priv by (simp add: Let_def)
    have same: "sends tx ?a w = sends tx a w" "found_at tx ?a w = found_at tx a w" "same_ifaces ?a = same_ifaces a"
      by (simp_all add: fun_eq_iff found_at_def same_ifaces_def)
    have rest: "\<forall>c \<in> set cs. c < length (bss_prio_tbl a ! j)" using Cons.prems(5) by simp
    from Cons.IH[of ?a, unfolded cur_at_simps same length_list_update, OF Cons.prems(1-4) rest] consider
      (some) c' i t p a' pre post where "search_nodes (Suc fuel) tx j cs ?a w = Returned (Some (i, t, p), a')"
        "found_at tx a w j c' i t p a'" "cs = pre @ c' # post" "\<forall>c' \<in> set pre. \<not> sends tx a w (bss_prio_tbl a ! j ! c')"
      | (none) a' where "\<forall>c \<in> set cs. \<not> sends tx a w (bss_prio_tbl a ! j ! c)"
        "search_nodes (Suc fuel) tx j cs ?a w = Returned (None, a')" "same_ifaces a a'"
        "bss_prio_tbl a' = bss_prio_tbl a" "length (bss_prio_cur a') = length (bss_prio_cur a)"
      by blast
    then show ?thesis
    proof cases
      case some
      have "\<exists>pre post. c # cs = pre @ c' # post \<and> (\<forall>c' \<in> set pre. \<not> sends tx a w (bss_prio_tbl a ! j ! c'))"
        using some(3,4) no by (intro exI[of _ "c # pre"] exI[of _ post]) simp
      with some(2) have "\<exists>c'. found_at tx a w j c' i t p a' \<and> (\<exists>pre post. c # cs = pre @ c' # post \<and>
          (\<forall>c' \<in> set pre. \<not> sends tx a w (bss_prio_tbl a ! j ! c')))"
        by (intro exI[of _ c'] conjI)
      then show ?thesis unfolding s some(1) by (intro disjI1) simp
    next
      case none
      then show ?thesis using no s by auto
    qed
  qed
qed

text \<open>
  The whole search: it returns, in the state described, with an interface of the highest level that has one that may
  send, the first of its level in turn; it finds nothing only if no interface may send.
\<close>

definition search_result ::
  "'w tx_driver \<Rightarrow> tx_adapter \<Rightarrow> 'w \<Rightarrow> nat list \<Rightarrow> (nat \<times> nat \<times> nat) option \<Rightarrow> tx_adapter \<Rightarrow> bool" where
  "search_result tx a w js r a' \<longleftrightarrow> (case r of
     None \<Rightarrow> (\<forall>j \<in> set js. \<forall>i \<in> set (bss_prio_tbl a ! j). \<not> sends tx a w i) \<and> same_ifaces a a' \<and>
       bss_prio_tbl a' = bss_prio_tbl a \<and> length (bss_prio_cur a') = length (bss_prio_cur a)
   | Some (i, t, p) \<Rightarrow> \<exists>j c pre post. js = pre @ j # post \<and> found_at tx a w j c i t p a' \<and>
       (\<forall>j' \<in> set pre. \<forall>i' \<in> set (bss_prio_tbl a ! j'). \<not> sends tx a w i') \<and>
       (\<forall>c' < c. \<not> sends tx a w (bss_prio_tbl a ! j ! c')))"

lemma search_result_Some:
  assumes "js = pre @ j # post" "found_at tx a w j c i t p a'"
    "\<forall>j' \<in> set pre. \<forall>i' \<in> set (bss_prio_tbl a ! j'). \<not> sends tx a w i'"
    "\<forall>c' < c. \<not> sends tx a w (bss_prio_tbl a ! j ! c')"
  shows "search_result tx a w js (Some (i, t, p)) a'"
  unfolding search_result_def option.case prod.case
  by (intro exI[of _ j] exI[of _ c] exI[of _ pre] exI[of _ post] conjI assms)

lemma split_upt:
  assumes "[0..<n] = pre @ c # post" "c' < c"
  shows "c' \<in> set pre"
proof -
  have "sorted_wrt (<) (pre @ c # post)" unfolding assms(1)[symmetric] by (rule sorted_wrt_upt)
  moreover have "c' \<in> set (pre @ c # post)"
    using assms unfolding assms(1)[symmetric] by (metis assms(1) atLeastLessThan_iff in_set_conv_decomp order_less_trans set_upt zero_le)
  ultimately show ?thesis using assms(2) by (auto simp: sorted_wrt_append)
qed

lemma search_levels_spec:
  assumes "queues_inv a" "sched_inv a" "few_packets a" "\<forall>j \<in> set js. j < length (bss_prio_tbl a)"
  shows "\<exists>r a'. search_levels (Suc fuel) tx js a w = Returned (r, a') \<and> search_result tx a w js r a'"
  using assms
proof (induction js arbitrary: a)
  case Nil
  then show ?case by (simp add: search_result_def same_ifaces_def)
next
  case (Cons j js)
  have j: "j < length (bss_prio_tbl a)" using Cons.prems(4) by simp
  let ?cs = "[0..<length (bss_prio_tbl a ! j)]"
  have "\<forall>c \<in> set ?cs. c < length (bss_prio_tbl a ! j)" by simp
  from search_nodes_spec[OF Cons.prems(1-3) j this, of fuel tx w] consider
    (some) c i t p a' pre post where "search_nodes (Suc fuel) tx j ?cs a w = Returned (Some (i, t, p), a')"
      "found_at tx a w j c i t p a'" "?cs = pre @ c # post" "\<forall>c' \<in> set pre. \<not> sends tx a w (bss_prio_tbl a ! j ! c')"
  | (none) a' where "\<forall>c \<in> set ?cs. \<not> sends tx a w (bss_prio_tbl a ! j ! c)"
      "search_nodes (Suc fuel) tx j ?cs a w = Returned (None, a')" "same_ifaces a a'"
      "bss_prio_tbl a' = bss_prio_tbl a" "length (bss_prio_cur a') = length (bss_prio_cur a)"
    by blast
  then show ?case
  proof cases
    case some
    have "\<forall>c' < c. \<not> sends tx a w (bss_prio_tbl a ! j ! c')"
      using some(4) split_upt[OF some(3)] by blast
    with some(2) have "search_result tx a w (j # js) (Some (i, t, p)) a'"
      by (intro search_result_Some[of _ "[]" j js]) simp_all
    then show ?thesis using some(1) j by simp
  next
    case none
    have no: "\<forall>i \<in> set (bss_prio_tbl a ! j). \<not> sends tx a w i"
      using none(1) by (auto simp: in_set_conv_nth)
    have inv: "queues_inv a'" "sched_inv a'" "few_packets a'" "\<forall>j \<in> set js. j < length (bss_prio_tbl a')"
      using Cons.prems none(3-5) same_ifaces_inv[OF none(3)] same_sched_inv[OF none(3-5)]
      by (simp_all add: few_packets_def same_ifaces_get[OF none(3)])
    obtain r a'' where r: "search_levels (Suc fuel) tx js a' w = Returned (r, a'')" "search_result tx a' w js r a''"
      using Cons.IH[OF inv] by blast
    have sends: "sends tx a' w = sends tx a w"
      by (simp add: sends_def same_ifaces_get[OF none(3)] fun_eq_iff)
    have found: "found_at tx a' w j' c' i t p a'' \<Longrightarrow> found_at tx a w j' c' i t p a''" for j' c' i t p
      using none(3-5) by (auto simp: found_at_def same_ifaces_get[OF none(3)] same_ifaces_def)
    have "search_result tx a w (j # js) r a''"
    proof (cases r)
      case None
      then show ?thesis
        using r(2) no none(3-5) by (auto simp: search_result_def sends same_ifaces_def)
    next
      case (Some x)
      obtain i t p where x: "x = (i, t, p)" by (cases x)
      obtain j' c pre post where "js = pre @ j' # post" "found_at tx a' w j' c i t p a''"
        "\<forall>j' \<in> set pre. \<forall>i' \<in> set (bss_prio_tbl a ! j'). \<not> sends tx a w i'"
        "\<forall>c' < c. \<not> sends tx a w (bss_prio_tbl a ! j' ! c')"
        using r(2) unfolding search_result_def Some x sends none(4) option.case prod.case by blast
      note this(1) found[OF this(2)] this(3,4)
      then show ?thesis
        unfolding Some x using no by (intro search_result_Some[of _ "j # pre" j' post]) simp_all
    qed
    then show ?thesis using none(2) r(1) j by simp
  qed
qed


lemma found_at_keeps:
  assumes f: "found_at tx a w j c i t p a'" and ok: "queues_inv a" "sched_inv a"
  shows "queues_inv a' \<and> sched_inv a'"
proof -
  obtain priv h a0 where priv: "get_priv a i = Some priv" "queues_ok (set_prio h priv)"
    and a': "a' = upd_priv i (\<lambda>_. set_prio h priv) (cur_at j c a0)" and a0: "same_ifaces a a0"
    "bss_prio_tbl a0 = bss_prio_tbl a" "length (bss_prio_cur a0) = length (bss_prio_cur a)"
    using f unfolding found_at_def by blast
  have inv: "queues_inv (cur_at j c a0)" "sched_inv (cur_at j c a0)"
    using ok same_ifaces_inv[OF a0(1)] same_sched_inv[OF a0] by simp_all
  have g: "get_priv (cur_at j c a0) i = Some priv"
    using priv(1) same_ifaces_get[OF a0(1)] by simp
  show ?thesis
    unfolding a' using queues_inv_upd[OF inv(1) g, of "\<lambda>_. set_prio h priv"] sched_inv_upd[OF inv(2) g, of "\<lambda>_. set_prio h priv"] priv(2)
    by simp
qed

lemma search_result_keeps:
  assumes r: "search_result tx a w js r a'" and ok: "queues_inv a" "sched_inv a"
  shows "queues_inv a' \<and> sched_inv a'"
proof (cases r)
  case None
  then show ?thesis
    using r ok same_ifaces_inv[of a a'] same_sched_inv[of a a'] by (simp add: search_result_def)
next
  case (Some x)
  obtain i t p where x: "x = (i, t, p)" by (cases x)
  obtain j c where "found_at tx a w j c i t p a'"
    using r unfolding search_result_def Some x option.case prod.case by blast
  then show ?thesis by (rule found_at_keeps[OF _ ok])
qed

lemma search_result_first:
  assumes r: "search_result tx a w (rev [0..<n]) (Some (i, t, p)) a'" and ok: "sched_inv a"
  shows "\<exists>priv k. get_priv a i = Some priv \<and> sends tx a w i \<and> first_in_line priv t k \<and> node_at (ra_lists priv ! t ! k) = p \<and>
    (\<forall>j i'. bss_priority priv < j \<and> j < n \<and> i' \<in> set (bss_prio_tbl a ! j) \<longrightarrow> \<not> sends tx a w i')"
proof -
  obtain j c pre post where js: "rev [0..<n] = pre @ j # post" and f: "found_at tx a w j c i t p a'"
    and no: "\<forall>j' \<in> set pre. \<forall>i' \<in> set (bss_prio_tbl a ! j'). \<not> sends tx a w i'"
    using r unfolding search_result_def option.case prod.case by blast
  obtain priv k where f': "get_priv a i = Some priv" "may_send (is_port_ready tx i w) priv" "first_in_line priv t k"
    "node_at (ra_lists priv ! t ! k) = p" "j < length (bss_prio_tbl a)" "c < length (bss_prio_tbl a ! j)"
    "bss_prio_tbl a ! j ! c = i"
    using f unfolding found_at_def by blast
  have "i \<in> set (bss_prio_tbl a ! j)" using f'(6,7) by (metis nth_mem)
  then have j: "bss_priority priv = j"
    using ok f'(1,5) unfolding sched_inv_def by fastforce
  have pre: "j' \<in> set pre" if "j < j'" "j' < n" for j'
  proof (rule prios_from_split(2)[of "int n - 1" pre j post])
    show "prios_from (int n - 1) = pre @ j # post" using js by (simp add: prios_from_def)
  qed (use that in simp_all)
  show ?thesis
    using f'(1-4) no pre unfolding j[symmetric] sends_def by blast
qed

text \<open>
  C10: As long as the counters are exact and every interface is in the table under its own priority, the search for
  the next packet ends after one pass. It answers with a receiver that is not paused and has packets, of an interface whose
  port is open and for which the bus is ready; no identifier of a higher priority has such a receiver there, and no
  interface of a higher level may send. It finds nothing only if no interface of the table may send, and
  the invariant holds afterwards.
\<close>

theorem search_finds_highest:
  assumes "queues_inv a" "sched_inv a" "few_packets a"
  shows "\<exists>r a'. mwifiex_wmm_get_highest_priolist_ptr (Suc fuel) tx a w = Returned (r, a') \<and>
    queues_inv a' \<and> sched_inv a' \<and>
    (case r of
       None \<Rightarrow> \<forall>j < length (privs a). \<forall>i \<in> set (bss_prio_tbl a ! j). \<not> sends tx a w i
     | Some (i, t, p) \<Rightarrow> \<exists>priv k. get_priv a i = Some priv \<and> sends tx a w i \<and>
         first_in_line priv t k \<and> node_at (ra_lists priv ! t ! k) = p \<and>
         (\<forall>j i'. bss_priority priv < j \<and> j < length (privs a) \<and> i' \<in> set (bss_prio_tbl a ! j) \<longrightarrow> \<not> sends tx a w i'))"
proof -
  have "\<forall>j \<in> set (rev [0..<length (privs a)]). j < length (bss_prio_tbl a)"
    using assms(2) by (simp add: sched_inv_def)
  from search_levels_spec[OF assms this, of fuel tx w] obtain r a' where
    ret: "mwifiex_wmm_get_highest_priolist_ptr (Suc fuel) tx a w = Returned (r, a')"
    and res: "search_result tx a w (rev [0..<length (privs a)]) r a'"
    unfolding mwifiex_wmm_get_highest_priolist_ptr_def by blast
  have "queues_inv a' \<and> sched_inv a'"
    by (rule search_result_keeps[OF res assms(1,2)])
  moreover have "\<forall>j < length (privs a). \<forall>i \<in> set (bss_prio_tbl a ! j). \<not> sends tx a w i" if "r = None"
    using res that by (simp add: search_result_def)
  moreover have "\<exists>priv k. get_priv a i = Some priv \<and> sends tx a w i \<and>
      first_in_line priv t k \<and> node_at (ra_lists priv ! t ! k) = p \<and>
      (\<forall>j i'. bss_priority priv < j \<and> j < length (privs a) \<and> i' \<in> set (bss_prio_tbl a ! j) \<longrightarrow> \<not> sends tx a w i')"
    if "r = Some (i, t, p)" for i t p
    using search_result_first[OF res[unfolded that] assms(2)] .
  ultimately show ?thesis
    using ret by (intro exI[of _ r] exI[of _ a']) (auto split: option.split)
qed


text \<open>An interface with one receiver that has \<open>n\<close> packets.\<close>

definition demo_ra :: "nat \<Rightarrow> ra_list_tbl" where
  "demo_ra n = \<lparr>node_at = 7, skb_head = replicate n (sample_packet 5), ra = [1, 1, 1, 1, 1, 1], is_11n_enabled = 0,
     max_amsdu = 0, ba_pkt_count = 0, ba_packet_thr = 0, ra_ba_status = BA_SETUP_NONE, amsdu_in_ampdu = False,
     total_pkt_count = of_nat n, tdls_link = False, tx_paused = False\<rparr>"

definition demo_sender :: "nat \<Rightarrow> ba_priv" where
  "demo_sender n = fresh_priv\<lparr>ra_lists := [demo_ra n] # replicate 7 [],
     wmm := (wmm fresh_priv)\<lparr>tx_pkts_queued := of_nat n\<rparr>\<rparr>"

lemma less_8: "(i < (8::nat)) = (i \<in> {0, 1, 2, 3, 4, 5, 6, 7})"
  by auto

lemma demo_sender_ok:
  assumes "n < 65536"
  shows "counters_ok 0 (demo_sender n)" "queues_ok (demo_sender n)" "send_pkts (demo_sender n) = n"
proof -
  show c: "counters_ok 0 (demo_sender n)"
    using assms
    by (auto simp: counters_ok_def demo_sender_def fresh_priv_def queue_cnt_def list_cnt_def cnt_def demo_ra_def
        list_ok_def counts_ok_def less_8 unat_of_nat sum_list_replicate)
  show "queues_ok (demo_sender n)"
    using c by (auto simp: queues_ok_def prios_ok_def prios_noted_def prio_of_def HIGH_PRIO_TID_def demo_sender_def
        fresh_priv_def less_8)
  show "send_pkts (demo_sender n) = n"
    by (simp add: send_pkts_def demo_sender_def fresh_priv_def send_cnt_def demo_ra_def)
qed

lemma demo_sender_inv:
  assumes "n < 65536"
  shows "queues_inv (demo_tx_adapter [demo_sender n])" "sched_inv (demo_tx_adapter [demo_sender n])"
    "few_packets (demo_tx_adapter [demo_sender n])"
proof -
  have g: "get_priv (demo_tx_adapter [demo_sender n]) i = (if i = 0 then Some (demo_sender n) else None)" for i
    by (simp add: get_priv_def demo_tx_adapter_def idx_def)
  have "order_ok tos_to_tid (tos_to_tid_inv (demo_sender n))"
    by (simp add: order_ok_def tos_to_tid_def demo_sender_def fresh_priv_def less_8)
  then show "queues_inv (demo_tx_adapter [demo_sender n])"
    using demo_sender_ok(2)[OF assms] by (simp add: queues_inv_def g) (simp add: demo_tx_adapter_def)
  show "sched_inv (demo_tx_adapter [demo_sender n])"
    by (simp add: sched_inv_def g) (simp add: demo_tx_adapter_def demo_sender_def fresh_priv_def)
  show "few_packets (demo_tx_adapter [demo_sender n])"
    using demo_sender_ok(3)[OF assms] assms by (simp add: few_packets_def g)
qed

theorem search_finds_highest_witness:
  "\<forall>fuel tx w. \<exists>r a'. mwifiex_wmm_get_highest_priolist_ptr (Suc fuel) tx (demo_tx_adapter [demo_sender 2]) w = Returned (r, a') \<and>
    queues_inv a' \<and> sched_inv a'"
proof (intro allI)
  fix fuel :: nat and tx :: "'a tx_driver" and w
  have "(2::nat) < 65536" by simp
  from search_finds_highest[OF demo_sender_inv[OF this], of fuel tx w]
  show "\<exists>r a'. mwifiex_wmm_get_highest_priolist_ptr (Suc fuel) tx (demo_tx_adapter [demo_sender 2]) w = Returned (r, a') \<and>
    queues_inv a' \<and> sched_inv a'" by blast
qed

end
