(* ===== verification/Wmm_Run.thy ===== *)
theory Wmm_Run
  imports Wmm_Send
begin

text \<open>
  Sending keeps the counters of the queues: for every packet that leaves its queue, comes back because the bus
  was busy, or becomes part of an aggregate. This holds as long as nobody else changes the queues while a packet is on
  its way to the bus; the last section has what happens otherwise.
\<close>

section \<open>Changes of one interface\<close>

definition same_sched :: "tx_adapter \<Rightarrow> tx_adapter \<Rightarrow> bool" where
  "same_sched a a' \<longleftrightarrow> length (privs a') = length (privs a) \<and> length (bss_prio_cur a') = length (bss_prio_cur a) \<and>
     map set (bss_prio_tbl a') = map set (bss_prio_tbl a)"

definition changed :: "nat \<Rightarrow> ba_priv \<Rightarrow> tx_adapter \<Rightarrow> tx_adapter \<Rightarrow> bool" where
  "changed i priv' a a' \<longleftrightarrow> get_priv a' = (get_priv a)(i := Some priv') \<and> tos a' = tos a \<and> same_sched a a'"

definition like :: "ba_priv \<Rightarrow> ba_priv \<Rightarrow> bool" where
  "like priv priv' \<longleftrightarrow> tos_to_tid_inv priv' = tos_to_tid_inv priv \<and> bss_priority priv' = bss_priority priv"

lemma like_refl [simp]: "like priv priv"
  by (simp add: like_def)

lemma like_trans: "like p q \<Longrightarrow> like q r \<Longrightarrow> like p r"
  by (simp add: like_def)

lemma changed_upd: "get_priv a i = Some priv \<Longrightarrow> changed i (f priv) a (upd_priv i f a)"
  by (simp add: changed_def same_sched_def get_priv_upd fun_eq_iff)

lemma changed_trans: "changed i p a b \<Longrightarrow> changed i q b c \<Longrightarrow> changed i q a c"
  by (simp add: changed_def same_sched_def)

lemma changed_get: "changed i p a b \<Longrightarrow> get_priv b i = Some p"
  by (simp add: changed_def)

lemma changed_upd_trans: "changed i p a b \<Longrightarrow> changed i (f p) a (upd_priv i f b)"
  using changed_trans changed_upd changed_get by blast

lemma changed_same:
  assumes "get_priv a i = Some priv" "same_ifaces a a'" "same_table a a'"
  shows "changed i priv a a'"
  using assms same_ifaces_get[OF assms(2)]
  by (auto simp: changed_def same_sched_def same_ifaces_def same_table_def)

lemma changed_inv:
  assumes c: "changed i priv' a a'" and g: "get_priv a i = Some priv" and l: "like priv priv'"
  shows "queues_inv a \<Longrightarrow> queues_ok priv' \<Longrightarrow> queues_inv a'" "sched_inv a \<Longrightarrow> sched_inv a'"
proof -
  show "queues_inv a \<Longrightarrow> queues_ok priv' \<Longrightarrow> queues_inv a'"
    using c g l by (auto simp: changed_def queues_inv_def like_def)
  assume s: "sched_inv a"
  have len: "length (bss_prio_tbl a') = length (bss_prio_tbl a)"
    using c unfolding changed_def same_sched_def by (metis length_map)
  have "set (bss_prio_tbl a' ! j) = set (bss_prio_tbl a ! j)" if "j < length (bss_prio_tbl a)" for j
    using c that len unfolding changed_def same_sched_def by (metis nth_map)
  moreover have "\<exists>p. get_priv a' k = Some p \<and> bss_priority p = j"
    if k: "\<exists>p. get_priv a k = Some p \<and> bss_priority p = j" for j k
    using k c g l by (auto simp: changed_def like_def)
  ultimately show "sched_inv a'"
    using s c len by (auto simp: sched_inv_def changed_def same_sched_def)
qed

text \<open>The rest of the adapter does not matter.\<close>

lemma changed_simps [simp]:
  "changed i p a (b\<lparr>tx_data_q := x1\<rparr>) = changed i p a b" "changed i p a (b\<lparr>tx_queued := x2\<rparr>) = changed i p a b"
  "changed i p a (b\<lparr>data_sent := x3\<rparr>) = changed i p a b" "changed i p a (b\<lparr>tx_lock_flag := x4\<rparr>) = changed i p a b"
  "changed i p a (b\<lparr>num_tx_host_to_card_failure := x5\<rparr>) = changed i p a b"
  "changed i p a (b\<lparr>delay_null_pkt := x6\<rparr>) = changed i p a b"
  by (simp_all add: changed_def same_sched_def get_priv_def fun_eq_iff)

text \<open>In the middle of an operation, with \<open>k\<close> packets on their way.\<close>

definition mid_ok :: "u32 \<Rightarrow> ba_priv \<Rightarrow> ba_priv \<Rightarrow> bool" where
  "mid_ok k priv priv' \<longleftrightarrow> counters_ok k priv' \<and> prios_ok priv' \<and> like priv priv'"

lemma mid_ok_0: "queues_ok priv \<Longrightarrow> mid_ok 0 priv priv"
  by (simp add: mid_ok_def queues_ok_def)

lemma mid_ok_done:
  assumes "mid_ok 0 priv priv'" "changed i priv' a a'" "get_priv a i = Some priv" "queues_inv a" "sched_inv a"
  shows "queues_inv a' \<and> sched_inv a'"
  using assms changed_inv[OF assms(2,3)] by (simp add: mid_ok_def queues_ok_def)

lemma like_upd [simp]:
  "like p (upd_ra t k f q) = like p q" "like p (upd_queued g q) = like p q"
  by (simp_all add: like_def upd_ra_def upd_queued_def)

lemma upd_queued_simps [simp]:
  "ra_lists (upd_queued f priv) = ra_lists priv" "tos_to_tid_inv (upd_queued f priv) = tos_to_tid_inv priv"
  "tx_pkts_queued (wmm (upd_queued f priv)) = f (tx_pkts_queued (wmm priv))"
  "highest_queued_prio (wmm (upd_queued f priv)) = highest_queued_prio (wmm priv)"
  "prio_of (upd_queued f priv) = prio_of priv"
  by (simp_all add: upd_queued_def prio_of_def fun_eq_iff)

lemma mid_ok_queued:
  assumes "mid_ok k priv priv'" "\<And>n. f n + k = n + k'"
  shows "mid_ok k' priv (upd_queued f priv')"
proof -
  have "f (tx_pkts_queued (wmm priv')) + k = queue_cnt priv' + k + k'"
    using assms(1) assms(2)[of "tx_pkts_queued (wmm priv')"] by (simp add: mid_ok_def counters_ok_def)
  then have "f (tx_pkts_queued (wmm priv')) + k = queue_cnt priv' + k' + k" by (simp add: ac_simps)
  then have "f (tx_pkts_queued (wmm priv')) = queue_cnt priv' + k'" by simp
  then show ?thesis
    using assms(1)
    by (auto simp: mid_ok_def counters_ok_def queue_cnt_def prios_ok_def prios_noted_def)
qed

text \<open>One receiver gets another queue, the counter another value.\<close>

lemma mid_ok_upd:
  assumes m: "mid_ok k priv p" and t: "t < 8" and i: "i < length (ra_lists p ! t)"
    and noted: "prio_of p t \<le> highest_queued_prio (wmm p)"
    and lists: "ra_lists p' = (ra_lists p)[t := (ra_lists p ! t)[i := r']]"
    and l: "like p p'" and hq: "highest_queued_prio (wmm p') = highest_queued_prio (wmm p)"
    and r': "counts_ok r'" "node_at r' = node_at (ra_lists p ! t ! i)"
    and counter: "tx_pkts_queued (wmm p') + cnt (ra_lists p ! t ! i) + k = tx_pkts_queued (wmm p) + cnt r' + k'"
  shows "mid_ok k' priv p'"
proof -
  have ok: "counters_ok k p" "prios_ok p" using m by (simp_all add: mid_ok_def)
  have "counters_ok k' p'" by (rule counters_ok_upd[OF ok(1) t i lists r' counter])
  moreover have "prios_ok p'"
    by (rule prios_ok_upd[OF ok(2) t counters_okD(1)[OF ok(1)] lists])
      (use l noted hq ok(2) in \<open>simp_all add: like_def prios_ok_def\<close>)
  ultimately show ?thesis
    using m l like_trans by (auto simp: mid_ok_def)
qed


section \<open>The entry of a receiver\<close>

text \<open>The entry at address \<open>p\<close> of list \<open>t\<close> has position \<open>k\<close>.\<close>

definition node_in :: "ba_priv \<Rightarrow> nat \<Rightarrow> nat \<Rightarrow> nat \<Rightarrow> bool" where
  "node_in priv t p k \<longleftrightarrow> t < 8 \<and> k < length (ra_lists priv ! t) \<and> node_at (ra_lists priv ! t ! k) = p"

lemma find_node_in:
  assumes "counters_ok c priv" "t < 8"
  shows "find_node priv t p = Some k \<longleftrightarrow> node_in priv t p k"
proof -
  have len: "length (ra_lists priv) = 8" and d: "distinct (map node_at (ra_lists priv ! t))"
    using counters_okD[OF assms(1)] assms(2) by (auto simp: list_ok_def)
  have "find_node priv t p = Some k \<longleftrightarrow> k < length (ra_lists priv ! t) \<and> node_at (ra_lists priv ! t ! k) = p \<and>
      (\<forall>j < k. node_at (ra_lists priv ! t ! j) \<noteq> p)"
    using len assms(2) by (auto simp: find_node_def idx_def first_index_Some)
  also have "\<dots> \<longleftrightarrow> node_in priv t p k"
    using assms(2) nth_eq_iff_index_eq[OF d] by (auto simp: node_in_def)
  finally show ?thesis .
qed

lemma node_in_upd_ra:
  assumes "length (ra_lists priv) = 8" "node_at (f (ra_lists priv ! t ! k)) = node_at (ra_lists priv ! t ! k)"
  shows "node_in (upd_ra t k f priv) u p j = node_in priv u p j"
  using assms by (cases "u = t"; cases "j = k") (auto simp: node_in_def)

section \<open>Turns\<close>

lemma rotate_behind_simps [simp]:
  "length (rotate_behind c xs) = length xs" "set (rotate_behind c xs) = set xs"
  "mset (rotate_behind c xs) = mset xs" "map f (rotate_behind c xs) = rotate_behind c (map f xs)"
proof -
  show 1: "mset (rotate_behind c xs) = mset xs" for xs :: "'a list"
    unfolding rotate_behind_def mset_append by (metis add.commute append_take_drop_id mset_append)
  then show "set (rotate_behind c xs) = set xs" by (metis mset_eq_setD)
  show "length (rotate_behind c xs) = length xs"
    using 1[of xs] by (metis size_mset)
qed (simp add: rotate_behind_def drop_map take_map)

lemma rotate_behind_last:
  assumes "c < length xs"
  shows "rotate_behind c xs ! (length xs - 1) = xs ! c" "rotate_behind c (xs[c := y]) = (rotate_behind c xs)[length xs - 1 := y]"
proof -
  have t: "take (Suc c) xs = take c xs @ [xs ! c]" if "c < length xs" for xs :: "'a list" and c
    using that by (rule take_Suc_conv_app_nth)
  have 1: "rotate_behind c xs = (drop (Suc c) xs @ take c xs) @ [xs ! c]"
    using t[OF assms] by (simp add: rotate_behind_def)
  have 2: "rotate_behind c (xs[c := y]) = (drop (Suc c) xs @ take c xs) @ [y]"
    using t[of c "xs[c := y]"] assms by (simp add: rotate_behind_def)
  have len: "length (drop (Suc c) xs @ take c xs) = length xs - 1"
    using assms by simp
  show "rotate_behind c xs ! (length xs - 1) = xs ! c"
    unfolding 1 len[symmetric] by (rule nth_append_length)
  show "rotate_behind c (xs[c := y]) = (rotate_behind c xs)[length xs - 1 := y]"
    unfolding 1 2 len[symmetric] by (rule list_update_length[symmetric])
qed

lemma rotate_list_ok [simp]:
  "list_ok (rotate_behind c rs) = list_ok rs" "list_cnt (rotate_behind c rs) = list_cnt rs"
proof -
  have "distinct (rotate_behind c xs) = distinct xs" for xs :: "nat list"
    by (metis distinct_count_atmost_1 rotate_behind_simps(2,3))
  then show "list_ok (rotate_behind c rs) = list_ok rs" by (simp add: list_ok_def)
  show "list_cnt (rotate_behind c rs) = list_cnt rs"
    unfolding list_cnt_def sum_mset_sum_list[symmetric] by (simp del: sum_mset_sum_list)
qed

text \<open>The entry, if it is still there, becomes the last of its list.\<close>

definition rotated :: "nat \<Rightarrow> nat \<Rightarrow> ba_priv \<Rightarrow> ba_priv \<Rightarrow> bool" where
  "rotated t k priv priv' \<longleftrightarrow> ra_lists priv' = (ra_lists priv)[t := rotate_behind k (ra_lists priv ! t)] \<and>
     tx_pkts_queued (wmm priv') = tx_pkts_queued (wmm priv) \<and>
     highest_queued_prio (wmm priv') = highest_queued_prio (wmm priv) \<and> like priv priv'"

lemma rotate_priolists:
  assumes "mwifiex_rotate_priolists i p t a = Some a'" "get_priv a i = Some priv" "find_node priv t p = Some k"
  shows "\<exists>priv'. changed i priv' a a' \<and> rotated t k priv priv'"
proof -
  obtain tbl c where tbl: "idx (bss_prio_tbl a) (bss_priority priv) = Some tbl"
    and a': "a' = upd_priv i (\<lambda>priv. priv\<lparr>
            wmm := (wmm priv)\<lparr>packets_out := (packets_out (wmm priv))[t := packets_out (wmm priv) ! t + 1]\<rparr>,
            ra_lists := (ra_lists priv)[t := rotate_behind k (ra_lists priv ! t)]\<rparr>)
         (a\<lparr>bss_prio_tbl := (bss_prio_tbl a)[bss_priority priv := rotate_behind c tbl],
            bss_prio_cur := (bss_prio_cur a)[bss_priority priv := length tbl - 1]\<rparr>)"
    using assms by (auto simp: mwifiex_rotate_priolists_def Option.bind_eq_Some_conv Let_def split: if_splits)
  let ?b = "a\<lparr>bss_prio_tbl := (bss_prio_tbl a)[bss_priority priv := rotate_behind c tbl],
            bss_prio_cur := (bss_prio_cur a)[bss_priority priv := length tbl - 1]\<rparr>"
  have "map set ((bss_prio_tbl a)[bss_priority priv := rotate_behind c tbl]) = map set (bss_prio_tbl a)"
    using tbl by (auto simp: idx_Some_iff map_update list_update_same_conv)
  then have "changed i priv a ?b"
    using assms(2) by (auto simp: changed_def same_sched_def get_priv_def fun_eq_iff)
  from changed_upd_trans[OF this] show ?thesis
    unfolding a' by (intro exI conjI) (assumption, simp add: rotated_def like_def)
qed

lemma rotated_ok:
  assumes r: "rotated t k q q'" and m: "mid_ok c priv q" and t: "t < 8"
  shows "mid_ok c priv q'"
proof -
  have ok: "counters_ok c q" "prios_ok q" using m by (simp_all add: mid_ok_def)
  note len = counters_okD(1)[OF ok(1)]
  have "counters_ok c q'"
    by (rule counters_ok_change[OF ok(1) t, of _ "rotate_behind k (ra_lists q ! t)"])
      (use r counters_okD(3)[OF ok(1) t] in \<open>simp_all add: rotated_def\<close>)
  moreover have "prios_ok q'"
    by (rule prios_ok_change[OF ok(2) t len, of _ "rotate_behind k (ra_lists q ! t)"])
      (use r ok(2) t in \<open>auto simp: rotated_def like_def prios_ok_def prios_noted_def\<close>)
  ultimately show ?thesis
    using m r like_trans by (auto simp: mid_ok_def rotated_def)
qed


section \<open>One packet\<close>

lemma process_tx_same:
  assumes "mwifiex_process_tx tx i s n a w = Some (ret, s', a', w')"
  shows "same_ifaces a a' \<and> same_table a a'"
proof -
  have last: "same_ifaces a (snd (last_packet_flags tx fl a w)) \<and> same_table a (snd (last_packet_flags tx fl a w))" for fl
    by (simp add: last_packet_flags_def mwifiex_check_last_packet_indication_def same_ifaces_def same_table_def Let_def)
  have sta: "same_ifaces a b \<and> same_table a b" if "mwifiex_process_sta_txpd tx priv s a w = Some (r, b)" for priv r b
    using that last by (auto simp: mwifiex_process_sta_txpd_def Let_def Option.bind_eq_Some_conv same_ifaces_def same_table_def
        split: prod.splits if_splits) (metis snd_conv same_ifaces_def same_table_def)+
  have uap: "same_ifaces a b \<and> same_table a b" if "mwifiex_process_uap_txpd tx priv s a w = Some (r, b)" for priv r b
    using that by (auto simp: mwifiex_process_uap_txpd_def Let_def Option.bind_eq_Some_conv same_ifaces_def same_table_def
        split: prod.splits if_splits)
  obtain priv r b where b: "same_ifaces a b \<and> same_table a b"
    and rest: "(if data_sent b \<or> tx_lock_flag b
     then Some (0, r, b\<lparr>tx_data_q := tx_data_q b @ [r], tx_queued := tx_queued b + 1\<rparr>, w)
     else do {
       let (ret, a, w) = to_card tx i r n b w;
       let (s, a) = (if ret = - EBUSY then unlock_tx tx i r a else (r, a));
       let (a, w) = card_result tx i s False ret a w;
       Some (ret, s, a, w)
     }) = Some (ret, s', a', w')"
    using assms sta uap unfolding mwifiex_process_tx_def
    by (fastforce simp: Option.bind_eq_Some_conv split: if_splits)
  show ?thesis
    using b rest
    by (auto simp: same_ifaces_def same_table_def to_card_def unlock_tx_def card_result_def Let_def
        split: prod.splits if_splits)
qed


text \<open>A receiver that may be sent to, at position \<open>k\<close>.\<close>

definition sendable :: "ba_priv \<Rightarrow> nat \<Rightarrow> nat \<Rightarrow> nat \<Rightarrow> bool" where
  "sendable priv t p k \<longleftrightarrow> node_in priv t p k \<and> can_send (ra_lists priv ! t ! k)"

lemma sendableD:
  assumes "sendable priv t p k" "queues_ok priv"
  shows "t < 8" "k < length (ra_lists priv ! t)" "length (ra_lists priv) = 8" "find_node priv t p = Some k"
    "prio_of priv t \<le> highest_queued_prio (wmm priv)" "counts_ok (ra_lists priv ! t ! k)"
    "\<not> tx_paused (ra_lists priv ! t ! k)" "skb_head (ra_lists priv ! t ! k) \<noteq> []"
proof -
  have ok: "counters_ok 0 priv" "prios_ok priv" using assms(2) by (simp_all add: queues_ok_def)
  show t: "t < 8" and k: "k < length (ra_lists priv ! t)"
    using assms(1) by (simp_all add: sendable_def node_in_def)
  show "length (ra_lists priv) = 8" using ok(1) by (rule counters_okD)
  show "find_node priv t p = Some k"
    using find_node_in[OF ok(1) t] assms(1) by (simp add: sendable_def)
  show "prio_of priv t \<le> highest_queued_prio (wmm priv)"
    using ok(2) t k assms(1) by (auto simp: prios_ok_def prios_noted_def sendable_def)
  show "counts_ok (ra_lists priv ! t ! k)"
    using list_okD(1)[OF counters_okD(3)[OF ok(1) t] k] .
  show "\<not> tx_paused (ra_lists priv ! t ! k)" "skb_head (ra_lists priv ! t ! k) \<noteq> []"
    using assms(1) by (simp_all add: sendable_def can_send_def)
qed

text \<open>The queue of a receiver shrinks by \<open>n\<close> packets that are still counted, or grows again.\<close>

lemma u16_less: "unat (v :: u16) < 65536"
proof -
  have "unat v < 2 ^ LENGTH(16)" by (rule unsigned_less)
  then show ?thesis by simp
qed

lemma counts_ok_drop:
  assumes "counts_ok r" "skb_head r = tk @ left"
  shows "unat (total_pkt_count r - of_nat (length tk)) = length left"
proof -
  have "unat (total_pkt_count r) = length tk + length left"
    using assms by (simp add: counts_ok_def)
  then have "total_pkt_count r = of_nat (length left) + of_nat (length tk)" "length left < 65536"
    using u16_less[of "total_pkt_count r"] by (metis add.commute of_nat_add of_nat_unat ucast_id, simp)
  then show ?thesis by (simp add: unat_of_nat)
qed

lemma counts_ok_grow:
  assumes "unat c = length xs" "length xs < 65535"
  shows "unat (c + 1 :: u16) = Suc (length xs)"
  using assms by (simp add: unat_word_ariths)

lemma take_out_ok:
  assumes ok: "queues_ok priv" and s: "sendable priv t p k" and q: "skb_head (ra_lists priv ! t ! k) = x # xs"
  shows "mid_ok 1 priv (upd_ra t k (\<lambda>r. r\<lparr>skb_head := xs, total_pkt_count := total_pkt_count r - 1\<rparr>) priv)"
proof -
  note d = sendableD[OF s ok]
  have "unat (total_pkt_count (ra_lists priv ! t ! k) - 1) = length xs"
    using counts_ok_drop[OF d(6), of "[x]" xs] q by simp
  then show ?thesis
    by (intro mid_ok_upd[OF mid_ok_0[OF ok] d(1,2,5), where r'="(ra_lists priv ! t ! k)\<lparr>skb_head := xs,
          total_pkt_count := total_pkt_count (ra_lists priv ! t ! k) - 1\<rparr>"])
      (use q d(7) in \<open>simp_all add: like_def upd_ra_def counts_ok_def cnt_def\<close>)
qed

lemma send_single_ok:
  assumes r: "mwifiex_send_single_packet tx i p t a w = Some (a', w')" and quiet: "meanwhile tx = Pair"
    and g: "get_priv a i = Some priv" and ok: "queues_ok priv" and s: "sendable priv t p k"
  shows "\<exists>priv'. changed i priv' a a' \<and> mid_ok 0 priv priv'"
proof -
  note d = sendableD[OF s ok]
  let ?r = "ra_lists priv ! t ! k"
  obtain x xs where q: "skb_head ?r = x # xs" using d(8) by (cases "skb_head ?r") auto
  let ?f = "\<lambda>r. r\<lparr>skb_head := xs, total_pkt_count := total_pkt_count r - 1\<rparr>"
  let ?p1 = "upd_ra t k ?f priv"
  let ?a1 = "upd_priv i (upd_ra t k ?f) a"
  obtain ret s' a2 w2 where pr: "mwifiex_process_tx tx i x (next_pkt_len xs) ?a1 w = Some (ret, s', a2, w2)"
    and rest: "(if ret = - EBUSY then do {
            priv \<leftarrow> get_priv a2 i;
            (case find_node priv t p of
               None \<Rightarrow> Some (a2, write_data_complete (qd tx i) s' False (-1) w2)
             | Some k \<Rightarrow> Some (upd_priv i (upd_ra t k (\<lambda>r. (requeue s' r)\<lparr>total_pkt_count := total_pkt_count r + 1,
                 ba_pkt_count := ba_pkt_count r + 1\<rparr>)) a2, w2))
          } else do {
            a \<leftarrow> mwifiex_rotate_priolists i p t a2;
            Some (upd_priv i (upd_queued (\<lambda>n. n - 1)) a, w2)
          }) = Some (a', w')"
    using r quiet g d(4) q by (auto simp: mwifiex_send_single_packet_def Option.bind_eq_Some_conv Let_def)
  have c1: "unat (total_pkt_count ?r - 1) = length xs"
    using counts_ok_drop[OF d(6), of "[x]" xs] q by simp
  have m1: "mid_ok 1 priv ?p1" by (rule take_out_ok[OF ok s q])
  have ch2: "changed i ?p1 a a2"
    using changed_trans[OF changed_upd[where f="upd_ra t k ?f", OF g]]
      changed_same[OF changed_get[OF changed_upd[where f="upd_ra t k ?f", OF g]]] process_tx_same[OF pr] by blast
  note g2 = changed_get[OF ch2]
  have co1: "counters_ok 1 ?p1" using m1 by (simp add: mid_ok_def)
  have "node_in ?p1 t p k"
    using s d(3) by (simp add: node_in_upd_ra sendable_def)
  then have f1: "find_node ?p1 t p = Some k"
    using find_node_in[OF co1 d(1)] by simp
  show ?thesis
  proof (cases "ret = - EBUSY")
    case True
    let ?h = "\<lambda>r. (requeue s' r)\<lparr>total_pkt_count := total_pkt_count r + 1, ba_pkt_count := ba_pkt_count r + 1\<rparr>"
    have e: "a' = upd_priv i (upd_ra t k ?h) a2"
      using rest True g2 f1 by simp
    have "length xs < 65535"
      using d(6) q u16_less[of "total_pkt_count ?r"] by (simp add: counts_ok_def)
    from counts_ok_grow[OF c1 this]
    have "mid_ok 0 priv (upd_ra t k ?h ?p1)"
      by (intro mid_ok_upd[OF m1 d(1), where i=k and r'="?h (?f ?r)"])
        (use d q in \<open>simp_all add: like_def upd_ra_def counts_ok_def cnt_def requeue_def prio_of_def\<close>)
    then show ?thesis
      unfolding e using changed_upd_trans[OF ch2, of "upd_ra t k ?h"] by blast
  next
    case False
    then obtain a3 where rot: "mwifiex_rotate_priolists i p t a2 = Some a3"
      and e: "a' = upd_priv i (upd_queued (\<lambda>n. n - 1)) a3"
      using rest by (auto simp: Option.bind_eq_Some_conv)
    obtain p3 where p3: "changed i p3 a2 a3" "rotated t k ?p1 p3"
      using rotate_priolists[OF rot g2 f1] by blast
    have "mid_ok 1 priv p3" by (rule rotated_ok[OF p3(2) m1 d(1)])
    then have "mid_ok 0 priv (upd_queued (\<lambda>n. n - 1) p3)"
      by (rule mid_ok_queued) simp
    then show ?thesis
      unfolding e using changed_upd_trans[OF changed_trans[OF ch2 p3(1)], of "upd_queued (\<lambda>n. n - 1)"] by blast
  qed
qed


lemma first_index_update:
  "k < length xs \<Longrightarrow> P y = P (xs ! k) \<Longrightarrow> first_index P (xs[k := y]) = first_index P xs"
  by (induction xs arbitrary: k) (auto split: nat.split)

lemma rotate_update_last:
  assumes k: "k < length rs" and d: "distinct (map node_at rs)" and p: "node_at (rs ! k) = p" "node_at r = p"
    and f: "first_index (\<lambda>r. node_at r = p) (rotate_behind k (rs[k := r])) = Some j"
  shows "(rotate_behind k (rs[k := r]))[j := g (rotate_behind k (rs[k := r]) ! j)] = rotate_behind k (rs[k := g r])"
proof -
  let ?l = "rotate_behind k (rs[k := r])"
  have same: "map node_at (rs[k := r]) = map node_at rs"
    using p k by (metis list_update_id map_update)
  then have "distinct (map node_at ?l)"
    using d by (metis distinct_count_atmost_1 rotate_behind_simps(2-4))
  moreover have "j < length ?l" "node_at (?l ! j) = p"
    using f by (simp_all add: first_index_Some)
  moreover have last: "?l ! (length rs - 1) = r"
    using rotate_behind_last(1)[of k "rs[k := r]"] k by simp
  ultimately have "j = length rs - 1"
    using p(2) k nth_eq_iff_index_eq[of "map node_at ?l" j "length rs - 1"] by (simp del: rotate_behind_simps(4))
  then show ?thesis
    using last rotate_behind_last(2)[of k "rs[k := r]" "g r"] k by simp
qed

text \<open>
  A packet that has its descriptor. Its receiver's counter follows only after the turn, when the entry is the
  last of its list.
\<close>

lemma send_processed_ok:
  assumes r: "mwifiex_send_processed_packet tx i p t a w = Some (a', w')" and quiet: "meanwhile tx = Pair"
    and g: "get_priv a i = Some priv" and ok: "queues_ok priv" and s: "sendable priv t p k"
  shows "\<exists>priv'. changed i priv' a a' \<and> mid_ok 0 priv priv'"
proof -
  note d = sendableD[OF s ok]
  let ?rs = "ra_lists priv ! t"
  let ?r = "?rs ! k"
  obtain x xs where q: "skb_head ?r = x # xs" using d(8) by (cases "skb_head ?r") auto
  let ?f = "\<lambda>r. r\<lparr>skb_head := xs, total_pkt_count := total_pkt_count r - 1\<rparr>"
  have c1: "unat (total_pkt_count ?r - 1) = length xs"
    using counts_ok_drop[OF d(6), of "[x]" xs] q by simp
  have m0: "mid_ok 0 priv (upd_queued (\<lambda>n. n - 1) (upd_ra t k ?f priv))"
    by (rule mid_ok_upd[OF mid_ok_0[OF ok] d(1,2,5), where r'="?f ?r"])
      (use c1 q d(7) in \<open>simp_all add: like_def counts_ok_def cnt_def\<close>,
       simp_all add: upd_ra_def upd_queued_def)
  have n0: "node_in priv t p k" using s by (simp add: sendable_def)
  show ?thesis
  proof (cases "data_sent a \<or> tx_lock_flag a")
    case True
    let ?u = "upd_queued (\<lambda>n. n - 1) \<circ> upd_ra t k ?f"
    have "changed i (?u priv) a a'"
      using r True g d(4) q changed_upd[OF g, of ?u]
      by (auto simp: mwifiex_send_processed_packet_def Let_def)
    then show ?thesis using m0 by auto
  next
    case False
    let ?p1 = "upd_ra t k (\<lambda>r. r\<lparr>skb_head := xs\<rparr>) priv"
    let ?a1 = "upd_priv i (upd_ra t k (\<lambda>r. r\<lparr>skb_head := xs\<rparr>)) a"
    obtain ret a2 w2 where card: "to_card tx i x (next_pkt_len xs) ?a1 w = (ret, a2, w2)" by (metis prod_cases3)
    have ch2: "changed i ?p1 a a2"
      using changed_upd[where f="upd_ra t k (\<lambda>r. r\<lparr>skb_head := xs\<rparr>)", OF g] card
      by (auto simp: to_card_def Let_def split: prod.splits)
    note g2 = changed_get[OF ch2]
    have "find_node ?p1 t p = find_node priv t p"
    proof -
      have "first_index (\<lambda>r. node_at r = p) (?rs[k := ?r\<lparr>skb_head := xs\<rparr>]) = first_index (\<lambda>r. node_at r = p) ?rs"
        by (rule first_index_update[OF d(2)]) simp
      then show ?thesis using d(1,3) by (simp add: find_node_def idx_def)
    qed
    then have f1: "find_node ?p1 t p = Some k" using d(4) by simp
    show ?thesis
    proof (cases "ret = - EBUSY")
      case True
      have e: "a' = upd_priv i (upd_ra t k (requeue x)) a2"
        using r False True quiet g d(4) q card g2 f1
        by (auto simp: mwifiex_send_processed_packet_def Let_def)
      have "mid_ok 0 priv (upd_ra t k (requeue x) ?p1)"
        by (rule mid_ok_upd[OF mid_ok_0[OF ok] d(1,2,5), where r'="requeue x (?r\<lparr>skb_head := xs\<rparr>)"])
          (use d q in \<open>simp_all add: like_def counts_ok_def cnt_def requeue_def\<close>, simp_all add: upd_ra_def)
      then show ?thesis
        unfolding e using changed_upd_trans[OF ch2, of "upd_ra t k (requeue x)"] by blast
    next
      case no: False
      obtain a3 w3 where res: "card_result tx i x False ret a2 w2 = (a3, w3)" by fastforce
      have ch3: "changed i ?p1 a a3"
        using ch2 res by (auto simp: card_result_def Let_def split: if_splits)
      obtain a4 p5 k5 where rot: "mwifiex_rotate_priolists i p t a3 = Some a4"
        and p5: "get_priv (upd_priv i (upd_queued (\<lambda>n. n - 1)) a4) i = Some p5" "find_node p5 t p = Some k5"
        and e: "a' = upd_priv i (upd_ra t k5 (\<lambda>r. r\<lparr>total_pkt_count := total_pkt_count r - 1\<rparr>))
           (upd_priv i (upd_queued (\<lambda>n. n - 1)) a4)"
        using r False no quiet g d(4) q card res
        by (auto simp: mwifiex_send_processed_packet_def Let_def Option.bind_eq_Some_conv)
      obtain p4 where p4: "changed i p4 a3 a4" "rotated t k ?p1 p4"
        using rotate_priolists[OF rot changed_get[OF ch3] f1] by blast
      have ch5: "changed i (upd_queued (\<lambda>n. n - 1) p4) a (upd_priv i (upd_queued (\<lambda>n. n - 1)) a4)"
        by (rule changed_upd_trans[OF changed_trans[OF ch3 p4(1)]])
      have p5': "p5 = upd_queued (\<lambda>n. n - 1) p4" using p5(1) changed_get[OF ch5] by simp
      let ?rs1 = "?rs[k := ?r\<lparr>skb_head := xs\<rparr>]"
      let ?g = "\<lambda>r. r\<lparr>total_pkt_count := total_pkt_count r - 1\<rparr>"
      have lists: "ra_lists p5 = (ra_lists priv)[t := rotate_behind k ?rs1]"
        using p4(2) d(1,3) by (simp add: p5' rotated_def)
      have "distinct (map node_at ?rs)"
        using counters_okD(3)[of 0 priv t] ok d(1) by (simp add: queues_ok_def list_ok_def)
      moreover have "first_index (\<lambda>r. node_at r = p) (rotate_behind k ?rs1) = Some k5"
        using p5(2) lists d(1,3) by (simp add: find_node_def idx_def)
      ultimately have "(rotate_behind k ?rs1)[k5 := ?g (rotate_behind k ?rs1 ! k5)] = rotate_behind k (?rs[k := ?g (?r\<lparr>skb_head := xs\<rparr>)])"
        using n0 by (intro rotate_update_last[where p=p]) (simp_all add: node_in_def)
      then have "rotated t k (upd_queued (\<lambda>n. n - 1) (upd_ra t k ?f priv)) (upd_ra t k5 ?g p5)"
        using p4(2) d(1-3) lists by (simp add: rotated_def p5' like_def) (simp add: upd_ra_def upd_queued_def)
      from rotated_ok[OF this m0 d(1)]
      show ?thesis
        unfolding e using changed_upd_trans[OF ch5, of "upd_ra t k5 ?g"] by (auto simp: p5')
    qed
  qed
qed


section \<open>Aggregates\<close>

lemma aggregate_takes:
  "aggregate_skbs max_len align room junk aggr pad ss = Some (aggr', pad', tk, left) \<Longrightarrow> ss = tk @ left"
  by (induction max_len align room junk aggr pad ss arbitrary: aggr' pad' tk left rule: aggregate_skbs.induct)
    (fastforce split: if_splits option.splits prod.splits)+

lemma amsdu_txpd_same:
  assumes "mwifiex_11n_form_amsdu_txpd tx i priv s a w = Some (s', a')"
  shows "changed j p b a \<Longrightarrow> changed j p b a'"
  using assms
  by (auto simp: mwifiex_11n_form_amsdu_txpd_def last_packet_flags_def mwifiex_check_last_packet_indication_def Let_def
      Option.bind_eq_Some_conv split: if_splits)

lemma upd_queued_upd_ra_take:
  assumes "mid_ok 0 priv priv" "t < 8" "k < length (ra_lists priv ! t)"
    and noted: "prio_of priv t \<le> highest_queued_prio (wmm priv)"
    and r: "counts_ok (ra_lists priv ! t ! k)" "\<not> tx_paused (ra_lists priv ! t ! k)"
    and q: "skb_head (ra_lists priv ! t ! k) = tk @ left"
  shows "mid_ok 0 priv (upd_queued (\<lambda>n. n - of_nat (length tk))
    (upd_ra t k (\<lambda>r. r\<lparr>skb_head := left, total_pkt_count := total_pkt_count r - of_nat (length tk)\<rparr>) priv))"
  by (rule mid_ok_upd[OF assms(1-4), where r'="(ra_lists priv ! t ! k)\<lparr>skb_head := left,
      total_pkt_count := total_pkt_count (ra_lists priv ! t ! k) - of_nat (length tk)\<rparr>"])
    (use counts_ok_drop[OF r(1) q] r q in \<open>simp_all add: like_def counts_ok_def cnt_def\<close>, simp_all add: upd_ra_def upd_queued_def)

lemma build_amsdu_ok:
  assumes r: "build_amsdu tx i t k buf src a w = Some (s, fill, n, left, a', w')"
    and g: "get_priv a i = Some priv" and ok: "queues_ok priv" and s: "sendable priv t p k"
  shows "\<exists>tk. skb_head (ra_lists priv ! t ! k) = tk @ left \<and>
    changed i (upd_queued (\<lambda>n. n - of_nat (length tk))
      (upd_ra t k (\<lambda>r. r\<lparr>skb_head := left, total_pkt_count := total_pkt_count r - of_nat (length tk)\<rparr>) priv)) a a'"
proof -
  obtain max_len align room junk aggr pad tk b p1 a1 w1 b1 where
    ag: "aggregate_skbs max_len align room junk [] 0 (skb_head (ra_lists priv ! t ! k)) = Some (aggr, pad, tk, left)"
    and a1: "a1 = upd_priv i (upd_queued (\<lambda>n. n - of_nat (length tk)) \<circ>
           upd_ra t k (\<lambda>r. r\<lparr>skb_head := left, total_pkt_count := total_pkt_count r - of_nat (length tk)\<rparr>)) a"
    and f: "mwifiex_11n_form_amsdu_txpd tx i p1 b a1 w1 = Some (b1, a')"
    using r g by (auto simp: build_amsdu_def Option.bind_eq_Some_conv Let_def)
  show ?thesis
    using aggregate_takes[OF ag] amsdu_txpd_same[OF f]
      changed_upd[OF g, of "upd_queued (\<lambda>n. n - of_nat (length tk)) \<circ>
        upd_ra t k (\<lambda>r. r\<lparr>skb_head := left, total_pkt_count := total_pkt_count r - of_nat (length tk)\<rparr>)"] a1
    by (intro exI[of _ tk]) simp
qed

lemma aggregate_pkt_ok:
  assumes r: "mwifiex_11n_aggregate_pkt tx i p t a w = Some (ret', a', w')" and quiet: "meanwhile tx = Pair"
    and g: "get_priv a i = Some priv" and ok: "queues_ok priv" and s: "sendable priv t p k"
    and short: "queues_short priv"
  shows "\<exists>priv'. changed i priv' a a' \<and> mid_ok 0 priv priv'"
proof -
  note d = sendableD[OF s ok]
  let ?r = "ra_lists priv ! t ! k"
  obtain x xs where q: "skb_head ?r = x # xs" using d(8) by (cases "skb_head ?r") auto
  obtain m w1 where al: "alloc_dma_align_buf tx (tx_buf_size a) w = (m, w1)" by fastforce
  show ?thesis
  proof (cases m)
    case None
    then have "a' = a" using r g d(4) q al by (simp add: mwifiex_11n_aggregate_pkt_def)
    then show ?thesis
      using mid_ok_0[OF ok] changed_same[OF g, of a] by (auto simp: same_ifaces_def same_table_def)
  next
    case (Some buf)
    then obtain y freed n left a2 w2 where b: "build_amsdu tx i t k buf x a w1 = Some (y, freed, n, left, a2, w2)"
      using r g d(4) q al by (auto simp: mwifiex_11n_aggregate_pkt_def Option.bind_eq_Some_conv)
    obtain tk where tk: "skb_head ?r = tk @ left" and
      ch: "changed i (upd_queued (\<lambda>n. n - of_nat (length tk))
        (upd_ra t k (\<lambda>r. r\<lparr>skb_head := left, total_pkt_count := total_pkt_count r - of_nat (length tk)\<rparr>) priv)) a a2"
      using build_amsdu_ok[OF b g ok s] by blast
    let ?f = "\<lambda>r. r\<lparr>skb_head := left, total_pkt_count := total_pkt_count r - of_nat (length tk)\<rparr>"
    define p2 where "p2 = upd_queued (\<lambda>n. n - of_nat (length tk)) (upd_ra t k ?f priv)"
    have ch2: "changed i p2 a a2" using ch by (simp add: p2_def)
    have m2: "mid_ok 0 priv p2"
      unfolding p2_def by (rule upd_queued_upd_ra_take[OF mid_ok_0[OF ok] d(1,2,5-7) tk])
    then have "counters_ok 0 p2" by (simp add: mid_ok_def)
    moreover have "node_in p2 t p k"
      using s d(3) by (simp add: p2_def sendable_def node_in_def)
    ultimately have f2: "find_node p2 t p = Some k" using find_node_in d(1) by blast
    show ?thesis
    proof (cases "data_sent a2 \<or> tx_lock_flag a2")
      case True
      then have "changed i p2 a a'"
        using r g d(4) q al Some b ch2 by (auto simp: mwifiex_11n_aggregate_pkt_def)
      then show ?thesis using m2 by blast
    next
      case False
      obtain ret a3 w3 where card: "to_card tx i y (next_pkt_len left) a2 w2 = (ret, a3, w3)" by (metis prod_cases3)
      have ch3: "changed i p2 a a3"
        using ch2 card by (auto simp: to_card_def Let_def split: prod.splits)
      show ?thesis
      proof (cases "ret = - EBUSY")
        case True
        obtain y' a4 where u: "unlock_tx tx i y a3 = (y', a4)" by fastforce
        have ch4: "changed i p2 a a4"
          using ch3 u by (auto simp: unlock_tx_def split: if_splits)
        let ?h = "\<lambda>r. (requeue y' r)\<lparr>total_pkt_count := total_pkt_count r + 1\<rparr>"
        have e: "a' = upd_priv i (upd_queued (\<lambda>n. n + 1) \<circ> upd_ra t k ?h) a4"
          using r g d(4) q al Some b False card True quiet changed_get[OF ch3] f2 u
          by (auto simp: mwifiex_11n_aggregate_pkt_def split: if_splits)
        have "length (skb_head ?r) < 65535"
          using short d(1,2) by (auto simp: queues_short_def)
        then have "length left < 65535" using tk by simp
        from counts_ok_grow[OF counts_ok_drop[OF d(6) tk] this]
        have "mid_ok 0 priv (upd_queued (\<lambda>n. n + 1) (upd_ra t k ?h p2))"
          by (intro mid_ok_upd[OF m2 d(1), where i=k and r'="?h (?f ?r)"])
            (use d in \<open>simp_all add: p2_def counts_ok_def cnt_def requeue_def prio_of_def\<close>)
        then show ?thesis
          unfolding e using changed_upd_trans[OF ch4, of "upd_queued (\<lambda>n. n + 1) \<circ> upd_ra t k ?h"] by auto
      next
        case no: False
        obtain a4 w4 where res: "card_result tx i y True ret a3 w3 = (a4, w4)" by fastforce
        have ch4: "changed i p2 a a4"
          using ch3 res by (auto simp: card_result_def Let_def split: if_splits)
        show ?thesis
        proof (cases "ret = -1")
          case True
          then have "a' = a4"
            using r g d(4) q al Some b False card no quiet res
            by (auto simp: mwifiex_11n_aggregate_pkt_def split: if_splits)
          then show ?thesis using ch4 m2 by blast
        next
          case ok': False
          then have rot: "mwifiex_rotate_priolists i p t a4 = Some a'"
            using r g d(4) q al Some b False card no quiet res
            by (auto simp: mwifiex_11n_aggregate_pkt_def Option.bind_eq_Some_conv split: if_splits)
          from rotate_priolists[OF rot changed_get[OF ch4] f2] obtain p5 where
            "changed i p5 a4 a'" "rotated t k p2 p5" by blast
          then show ?thesis using changed_trans[OF ch4] rotated_ok[OF _ m2 d(1)] by blast
        qed
      qed
    qed
  qed
qed


section \<open>The next packet\<close>

text \<open>Starting a session changes only what is noted about it.\<close>

definition same_counts :: "ra_list_tbl \<Rightarrow> ra_list_tbl \<Rightarrow> bool" where
  "same_counts r r' \<longleftrightarrow> node_at r' = node_at r \<and> skb_head r' = skb_head r \<and> total_pkt_count r' = total_pkt_count r \<and>
     tx_paused r' = tx_paused r"

definition sessions_only :: "ba_priv \<Rightarrow> ba_priv \<Rightarrow> bool" where
  "sessions_only priv priv' \<longleftrightarrow> list_all2 (list_all2 same_counts) (ra_lists priv) (ra_lists priv') \<and>
     wmm priv' = wmm priv \<and> like priv priv'"

lemma same_counts_refl: "list_all2 (list_all2 same_counts) l l"
  by (intro list_all2_refl) (simp_all add: same_counts_def list_all2_refl)

lemma list_all2_upd:
  "list_all2 P xs xs \<Longrightarrow> P (xs ! k) y \<Longrightarrow> list_all2 P xs (xs[k := y])"
  by (cases "k < length xs") (auto simp: list_all2_conv_all_nth nth_list_update)

lemma set_ra_session_only: "sessions_only priv (set_ra_session priv t ptr st am)"
proof -
  let ?rs = "ra_lists priv ! unat t"
  have "list_all2 same_counts ?rs (?rs[i := (?rs ! i)\<lparr>ra_ba_status := st, amsdu_in_ampdu := am\<rparr>])" for i
    by (intro list_all2_upd list_all2_refl) (simp_all add: same_counts_def)
  then have "list_all2 (list_all2 same_counts) (ra_lists priv)
      ((ra_lists priv)[unat t := ?rs[i := (?rs ! i)\<lparr>ra_ba_status := st, amsdu_in_ampdu := am\<rparr>]])" for i
    by (rule list_all2_upd[OF same_counts_refl])
  then show ?thesis
    using same_counts_refl by (simp add: sessions_only_def set_ra_session_def like_def Let_def split: option.split)
qed

lemma sessions_only_simps [simp]:
  "sessions_only p (q\<lparr>tx_tbls := x\<rparr>) = sessions_only p q" "sessions_only p (q\<lparr>dialog_tok := y\<rparr>) = sessions_only p q"
  "sessions_only p p"
  using same_counts_refl by (simp_all add: sessions_only_def like_def)

lemma setup_session_only:
  assumes "setup_session d a priv r t w = Some (priv', w')"
  shows "sessions_only priv priv'"
proof -
  have c: "sessions_only priv q" if "mwifiex_create_ba_tbl d ra t st priv w = Some (q, w1)" for ra st w q w1
    using that set_ra_session_only
    by (auto simp: mwifiex_create_ba_tbl_def Let_def Option.bind_eq_Some_conv split: if_splits prod.splits)
  have "sessions_only priv q'" if "mwifiex_send_addba d t ra q w = Some (ret, q', w1)" "sessions_only priv q" for ra q w ret q' w1
    using that by (auto simp: mwifiex_send_addba_def Let_def Option.bind_eq_Some_conv case_prod_unfold split: option.splits)
  then show ?thesis
    using assms c by (fastforce simp: setup_session_def Option.bind_eq_Some_conv split: if_splits option.splits prod.splits)
qed

lemma sessions_only_lists:
  assumes "sessions_only priv priv'" "length (ra_lists priv) = 8" "t < 8"
  shows "list_all2 same_counts (ra_lists priv ! t) (ra_lists priv' ! t)"
  using assms by (auto simp: sessions_only_def dest: list_all2_nthD2 list_all2_nthD)

lemma same_counts_lists:
  assumes "list_all2 same_counts rs rs'"
  shows "map node_at rs' = map node_at rs" "list_cnt rs' = list_cnt rs" "list_ok rs' = list_ok rs"
    "(\<exists>r \<in> set rs'. can_send r) = (\<exists>r \<in> set rs. can_send r)"
proof -
  show n: "map node_at rs' = map node_at rs" and "list_cnt rs' = list_cnt rs"
    "(\<exists>r \<in> set rs'. can_send r) = (\<exists>r \<in> set rs. can_send r)"
    using assms by (induction rule: list_all2_induct) (auto simp: list_cnt_def same_counts_def cnt_def can_send_def)
  have "(\<forall>r \<in> set rs'. counts_ok r) = (\<forall>r \<in> set rs. counts_ok r)"
    using assms by (induction rule: list_all2_induct) (auto simp: same_counts_def counts_ok_def)
  then show "list_ok rs' = list_ok rs" by (simp add: list_ok_def n)
qed

lemma sessions_only_ok:
  assumes s: "sessions_only priv priv'" and ok: "queues_ok priv"
  shows "mid_ok 0 priv priv'" "sendable priv t p k \<Longrightarrow> sendable priv' t p k" "queues_short priv \<Longrightarrow> queues_short priv'"
proof -
  have ok': "counters_ok 0 priv" "prios_ok priv" using ok by (simp_all add: queues_ok_def)
  note len = counters_okD(1)[OF ok'(1)]
  have len': "length (ra_lists priv') = 8"
    using s len by (auto simp: sessions_only_def dest: list_all2_lengthD)
  note l = sessions_only_lists[OF s len]
  have eq: "wmm priv' = wmm priv" "like priv priv'" using s by (simp_all add: sessions_only_def)
  have "map list_cnt (ra_lists priv') = map list_cnt (ra_lists priv)"
    using same_counts_lists(2)[OF l] len len' by (intro nth_equalityI) simp_all
  then have "counters_ok 0 priv'"
    using ok'(1) same_counts_lists(3)[OF l] len' eq(1) by (simp add: counters_ok_def queue_cnt_def)
  moreover have "prios_noted priv' u" if "u < 8" for u
    using ok'(2) same_counts_lists(4)[OF l[OF that]] that eq
    by (fastforce simp: prios_ok_def prios_noted_def prio_of_def like_def)
  then have "prios_ok priv'"
    using ok'(2) eq by (simp add: prios_ok_def prio_of_def like_def)
  ultimately show "mid_ok 0 priv priv'" using eq by (simp add: mid_ok_def)
  show "sendable priv' t p k" if "sendable priv t p k"
    using that l[of t] by (auto simp: sendable_def node_in_def can_send_def same_counts_def list_all2_conv_all_nth)
  show "queues_short priv'" if "queues_short priv"
    unfolding queues_short_def
  proof (intro allI impI ballI)
    fix u r assume "u < 8" "r \<in> set (ra_lists priv' ! u)"
    then obtain r0 where "r0 \<in> set (ra_lists priv ! u)" "same_counts r0 r"
      using l[of u] by (metis in_set_conv_nth list_all2_conv_all_nth)
    then show "length (skb_head r) < 65535"
      using that \<open>u < 8\<close> by (auto simp: queues_short_def same_counts_def)
  qed
qed


lemma mid_ok_trans: "mid_ok 0 p q \<Longrightarrow> mid_ok k q r \<Longrightarrow> mid_ok k p r"
  using like_trans by (auto simp: mid_ok_def)

lemma send_unprocessed_ok:
  assumes r: "send_unprocessed tx i p t tno e a w = Some (a', w')" and quiet: "meanwhile tx = Pair"
    and g: "get_priv a i = Some priv" and ok: "queues_ok priv" and s: "sendable priv t p k"
    and short: "queues_short priv"
  shows "\<exists>priv'. changed i priv' a a' \<and> mid_ok 0 priv priv'"
proof -
  obtain b w1 p1 where ch: "changed i p1 a b" and only: "sessions_only priv p1"
    and rest: "mwifiex_send_single_packet tx i p t b w1 = Some (a', w') \<or>
      (\<exists>x. mwifiex_11n_aggregate_pkt tx i p t b w1 = Some (x, a', w'))"
  proof (cases "is_11n_enabled e = 0 \<or> ra_ba_status e \<noteq> BA_SETUP_NONE \<or> wps_session priv")
    case True
    then show ?thesis
      using r g changed_same[OF g, of a]
      by (intro that[of priv a w])
        (auto simp: send_unprocessed_def Let_def Option.bind_eq_Some_conv same_ifaces_def same_table_def split: if_splits)
  next
    case False
    then obtain q w2 where q: "setup_session (drv (qd tx i)) (adapter.truncate a) priv e tno w = Some (q, w2)"
      and rest: "mwifiex_send_single_packet tx i p t (upd_priv i (\<lambda>_. q) a) w2 = Some (a', w') \<or>
      (\<exists>x. mwifiex_11n_aggregate_pkt tx i p t (upd_priv i (\<lambda>_. q) a) w2 = Some (x, a', w'))"
      using r g by (auto simp: send_unprocessed_def Let_def Option.bind_eq_Some_conv split: if_splits)
    show ?thesis
      by (rule that[OF changed_upd[where f="\<lambda>_. q", OF g] setup_session_only[OF q] rest])
  qed
  have ok1: "mid_ok 0 priv p1" "sendable p1 t p k" "queues_short p1"
    using sessions_only_ok[OF only ok] s short by blast+
  then have ok1': "queues_ok p1" by (simp add: mid_ok_def queues_ok_def)
  have "\<exists>priv'. changed i priv' b a' \<and> mid_ok 0 p1 priv'"
    using rest send_single_ok[OF _ quiet changed_get[OF ch] ok1' ok1(2)]
      aggregate_pkt_ok[OF _ quiet changed_get[OF ch] ok1' ok1(2,3)] by blast
  then show ?thesis
    using changed_trans[OF ch] mid_ok_trans[OF ok1(1)] by blast
qed

lemma send_found_ok:
  assumes r: "send_found tx i t p a w = Some (ret, a', w')" and quiet: "meanwhile tx = Pair"
    and g: "get_priv a i = Some priv" and ok: "queues_ok priv" and s: "sendable priv t p k"
    and short: "queues_short priv"
  shows "\<exists>priv'. changed i priv' a a' \<and> mid_ok 0 priv priv'"
proof -
  have f: "find_node priv t p = Some k" using sendableD[OF s ok] by simp
  let ?r = "ra_lists priv ! t ! k"
  consider "a' = a" | "mwifiex_send_processed_packet tx i p t a w = Some (a', w')"
    | "send_unprocessed tx i p t (mwifiex_get_tid ?r) ?r a w = Some (a', w')"
    using r g f quiet by (auto simp: send_found_def Let_def Option.bind_eq_Some_conv split: if_splits)
  then show ?thesis
  proof cases
    case 1
    then show ?thesis
      using mid_ok_0[OF ok] changed_same[OF g, of a] by (auto simp: same_ifaces_def same_table_def)
  next
    case 2
    then show ?thesis by (rule send_processed_ok[OF _ quiet g ok s])
  next
    case 3
    then show ?thesis by (rule send_unprocessed_ok[OF _ quiet g ok s short])
  qed
qed

lemma dequeue_ok:
  assumes r: "mwifiex_dequeue_tx_packet (Suc fuel) tx a w = Returned (ret, a', w')" and quiet: "meanwhile tx = Pair"
    and inv: "queues_inv a" "sched_inv a" and few: "few_packets a"
    and short: "\<forall>i priv. get_priv a i = Some priv \<longrightarrow> queues_short priv"
  shows "queues_inv a' \<and> sched_inv a'"
proof -
  have "\<forall>j \<in> set (rev [0..<length (privs a)]). j < length (bss_prio_tbl a)"
    using inv(2) by (simp add: sched_inv_def)
  from search_levels_spec[OF inv few this, of fuel tx w] obtain x a1 where
    x: "mwifiex_wmm_get_highest_priolist_ptr (Suc fuel) tx a w = Returned (x, a1)"
    and res: "search_result tx a w (rev [0..<length (privs a)]) x a1"
    unfolding mwifiex_wmm_get_highest_priolist_ptr_def by blast
  have inv1: "queues_inv a1" "sched_inv a1" using search_result_keeps[OF res inv] by simp_all
  show ?thesis
  proof (cases x)
    case None
    then show ?thesis using r x inv1 by (simp add: mwifiex_dequeue_tx_packet_def)
  next
    case (Some y)
    obtain i t p where y: "y = (i, t, p)" by (cases y)
    have sf: "send_found tx i t p a1 w = Some (ret, a', w')"
      using r x Some y by (simp add: mwifiex_dequeue_tx_packet_def lift_option_def split: option.splits)
    obtain j c where f: "found_at tx a w j c i t p a1"
      using res unfolding search_result_def Some y option.case prod.case by blast
    obtain priv k h where p: "get_priv a i = Some priv" "first_in_line priv t k" "node_at (ra_lists priv ! t ! k) = p"
      "queues_ok (set_prio h priv)" "get_priv a1 i = Some (set_prio h priv)"
      using f unfolding found_at_def by (auto simp: get_priv_upd same_ifaces_get)
    have "sendable (set_prio h priv) t p k"
      using p(2,3) by (simp add: sendable_def node_in_def first_in_line_def)
    moreover have "queues_short (set_prio h priv)"
      using short p(1) by (simp add: queues_short_def)
    ultimately obtain q where q: "changed i q a1 a'" "mid_ok 0 (set_prio h priv) q"
      using send_found_ok[OF sf quiet p(5,4)] by blast
    show ?thesis by (rule mid_ok_done[OF q(2,1) p(5) inv1])
  qed
qed

section \<open>The bus queue and the packets that bypass the queues\<close>

lemma queues_inv_flags [simp]:
  "queues_inv (a\<lparr>tx_data_q := x1\<rparr>) = queues_inv a" "queues_inv (a\<lparr>tx_queued := x2\<rparr>) = queues_inv a"
  "queues_inv (a\<lparr>data_sent := x3\<rparr>) = queues_inv a" "queues_inv (a\<lparr>tx_lock_flag := x4\<rparr>) = queues_inv a"
  "queues_inv (a\<lparr>num_tx_host_to_card_failure := x5\<rparr>) = queues_inv a"
  "queues_inv (a\<lparr>bypass_tx_pending := x6\<rparr>) = queues_inv a"
  "sched_inv (a\<lparr>tx_data_q := x1\<rparr>) = sched_inv a" "sched_inv (a\<lparr>tx_queued := x2\<rparr>) = sched_inv a"
  "sched_inv (a\<lparr>data_sent := x3\<rparr>) = sched_inv a" "sched_inv (a\<lparr>tx_lock_flag := x4\<rparr>) = sched_inv a"
  "sched_inv (a\<lparr>num_tx_host_to_card_failure := x5\<rparr>) = sched_inv a"
  "sched_inv (a\<lparr>bypass_tx_pending := x6\<rparr>) = sched_inv a"
  by (simp_all add: queues_inv_def sched_inv_def get_priv_def)

lemma dequeue_queue_inv:
  assumes "mwifiex_dequeue_tx_queue tx a w = (ret, a', w')"
  shows "queues_inv a' = queues_inv a" "sched_inv a' = sched_inv a"
  using assms
  by (auto simp: mwifiex_dequeue_tx_queue_def mwifiex_host_to_card_def to_card_def unlock_tx_def card_result_def Let_def
      split: list.splits option.splits prod.splits if_splits)

lemma process_tx_queue_inv:
  "process_tx_queue n tx a w = (a', w') \<Longrightarrow> queues_inv a' = queues_inv a \<and> sched_inv a' = sched_inv a"
proof (induction n arbitrary: a w)
  case (Suc n)
  obtain ret b v where d: "mwifiex_dequeue_tx_queue tx a w = (ret, b, v)" by (metis prod_cases3)
  note same = dequeue_queue_inv[OF d]
  consider "a' = a" | "a' = b" | "process_tx_queue n tx b v = (a', w')"
    using Suc.prems d by (simp split: if_splits)
  then show ?case using Suc.IH same by cases simp_all
qed simp

lemma bypass_interface_inv:
  assumes "bypass_interface tx i a w = Some (a', w')" "queues_inv a" "sched_inv a"
  shows "queues_inv a' \<and> sched_inv a'"
proof -
  have up: "queues_inv (upd_priv i (\<lambda>p. p\<lparr>bypass_txq := f p\<rparr>) b) \<and> sched_inv (upd_priv i (\<lambda>p. p\<lparr>bypass_txq := f p\<rparr>) b)"
    if b: "queues_inv b" "sched_inv b" "get_priv b i = Some priv" for f b priv
  proof -
    have "same_queues priv (priv\<lparr>bypass_txq := f priv\<rparr>)" by (simp add: same_queues_def)
    from same_queues_ok[OF this] have "queues_ok (priv\<lparr>bypass_txq := f priv\<rparr>)"
      using b(1,3) by (simp add: queues_inv_def queues_ok_def)
    then show ?thesis using queues_inv_upd[OF b(1,3), where f="\<lambda>p. p\<lparr>bypass_txq := f p\<rparr>"] sched_inv_upd[OF b(2,3), where f="\<lambda>p. p\<lparr>bypass_txq := f p\<rparr>"] by simp
  qed
  show ?thesis
  proof (cases "\<exists>priv s ss. get_priv a i = Some priv \<and> is_port_ready tx i w \<and> bypass_txq priv = s # ss")
    case False
    then show ?thesis using assms by (auto simp: bypass_interface_def split: option.splits list.splits if_splits)
  next
    case True
    then obtain priv s ss where p: "get_priv a i = Some priv" "is_port_ready tx i w" "bypass_txq priv = s # ss" by blast
    let ?a1 = "upd_priv i (\<lambda>p. p\<lparr>bypass_txq := ss\<rparr>) a"
    obtain ret s' a2 w2 where pr: "mwifiex_process_tx tx i s 0 ?a1 w = Some (ret, s', a2, w2)"
      and rest: "(if ret = - EBUSY
                  then Some (upd_priv i (\<lambda>p. p\<lparr>bypass_txq :=
                         s'\<lparr>tx_flags := tx_flags s' OR MWIFIEX_BUF_FLAG_REQUEUED_PKT\<rparr> # bypass_txq p\<rparr>) a2, w2)
                  else Some (a2\<lparr>bypass_tx_pending := bypass_tx_pending a2 - 1\<rparr>, w2)) = Some (a', w')"
      using assms(1) p by (auto simp: bypass_interface_def Option.bind_eq_Some_conv)
    note same = process_tx_same[OF pr]
    have inv2: "queues_inv a2" "sched_inv a2"
      using up[OF assms(2,3) p(1), of "\<lambda>_. ss"] same same_ifaces_inv[of ?a1 a2] same_sched_inv[of ?a1 a2]
      by (auto simp: same_table_def)
    have "get_priv a2 i = Some (priv\<lparr>bypass_txq := ss\<rparr>)"
      using same same_ifaces_get[of ?a1 a2] p(1) by (simp add: get_priv_upd)
    then show ?thesis
      using up[OF inv2, of _ "\<lambda>p. s'\<lparr>tx_flags := tx_flags s' OR MWIFIEX_BUF_FLAG_REQUEUED_PKT\<rparr> # bypass_txq p"] rest inv2
      by (auto split: if_splits)
  qed
qed

lemma bypass_all_inv:
  "bypass_all tx is a w = Some (a', w') \<Longrightarrow> queues_inv a \<Longrightarrow> sched_inv a \<Longrightarrow> queues_inv a' \<and> sched_inv a'"
proof (induction "is" arbitrary: a w)
  case (Cons i "is")
  then obtain b w1 where b: "bypass_interface tx i a w = Some (b, w1)" "bypass_all tx is b w1 = Some (a', w')"
    by (auto simp: Option.bind_eq_Some_conv)
  have "queues_inv b" "sched_inv b"
    using bypass_interface_inv[OF b(1) Cons.prems(2,3)] by simp_all
  then show ?case by (rule Cons.IH[OF b(2)])
qed simp

end
