(* ===== verification/Wmm_Steps.thy ===== *)
theory Wmm_Steps
  imports Wmm_Run
begin

text \<open>
  All operations on the transmit queues, in any order: the counters stay exact, so the search for the next packet
  always ends. And what happens when a peer is deleted while its packet is on the way to the bus.
\<close>

section \<open>What the operations leave alone\<close>

lemma ralist_add_like: "ralist_add q ts ra_addr priv w = (priv', w') \<Longrightarrow> like priv priv'"
proof (induction ts arbitrary: priv w)
  case (Cons t ts)
  then show ?case
    by (fastforce simp: like_def Let_def split: prod.splits option.splits)
qed simp

lemma get_queue_raptr_like: "mwifiex_wmm_get_queue_raptr q t a priv w = Some (ptr, priv', w') \<Longrightarrow> like priv priv'"
  by (auto simp: mwifiex_wmm_get_queue_raptr_def mwifiex_ralist_add_def Option.bind_eq_Some_conv
      split: if_splits prod.splits dest: ralist_add_like)

lemma add_buf_like:
  assumes "mwifiex_wmm_add_buf_txqueue q s priv w = Some (priv', w')"
  shows "like priv priv'"
proof -
  have t: "like priv p" if "find_target q x st t priv w = Some (tgt, x', p, w1)" for x st t tgt x' p w1
    using that by (auto simp: find_target_def Let_def Option.bind_eq_Some_conv split: if_splits dest: get_queue_raptr_like)
  have put: "like priv (put_packet t i x p)" if "like priv p" for t i x p
    using that by (simp add: like_def put_packet_def upd_ra_def Let_def)
  show ?thesis
  proof (cases "\<not> connected priv \<and> \<not> mwifiex_is_skb_mgmt_frame s")
    case True
    then show ?thesis using assms by (auto simp: mwifiex_wmm_add_buf_txqueue_def Let_def)
  next
    case False
    then obtain st t tgt x p w1 where f: "find_target q s st t priv w = Some (tgt, x, p, w1)"
      and c: "(case tgt of Tdls_Queue \<Rightarrow> Some (p\<lparr>tdls_txq := tdls_txq p @ [x]\<rparr>, w1)
            | Receiver None \<Rightarrow> Some (p, write_data_complete q x False (-1) w1)
            | Receiver (Some i) \<Rightarrow> Some (put_packet (unat t) i x p, w1)) = Some (priv', w')"
      using assms by (auto simp: mwifiex_wmm_add_buf_txqueue_def Let_def Option.bind_eq_Some_conv)
    note l = t[OF f]
    have "like priv (p\<lparr>tdls_txq := y\<rparr>)" for y using l by (simp add: like_def)
    then show ?thesis
      using c l put[OF l] by (auto split: target.splits option.splits)
  qed
qed

lemma pause_ra_like: "like p (snd s) \<Longrightarrow> like p (snd (pause_ra pause t i s))"
  by (cases s) (simp add: pause_ra_def like_def upd_ra_def Let_def)

lemma pause_tids_like: "pause_tids mac pause ts s = Some s' \<Longrightarrow> like p (snd s) \<Longrightarrow> like p (snd s')"
proof (induction ts arbitrary: s)
  case (Cons t ts)
  obtain ptr where "pause_tids mac pause ts (case ptr of None \<Rightarrow> s | Some i \<Rightarrow> pause_ra pause t i s) = Some s'"
    using Cons.prems(1) by (auto simp: Option.bind_eq_Some_conv)
  moreover have "like p (snd (case ptr of None \<Rightarrow> s | Some i \<Rightarrow> pause_ra pause t i s))"
    using Cons.prems(2) pause_ra_like by (cases ptr) simp_all
  ultimately show ?case by (rule Cons.IH)
qed simp

lemma move_counts_like [simp]: "like p (move_counts pause n q) = like p q"
  by (simp add: move_counts_def like_def Let_def)

lemma tx_pause_like: "mwifiex_update_ralist_tx_pause mac pause priv = Some priv' \<Longrightarrow> like priv priv'"
  by (auto simp: mwifiex_update_ralist_tx_pause_def Option.bind_eq_Some_conv dest: pause_tids_like[where p=priv])

lemma fold_like:
  assumes "\<And>x s. like p (snd s) \<Longrightarrow> like p (snd (f x s))" "like p (snd s)"
  shows "like p (snd (fold f xs s))"
  using assms(2) by (induction xs arbitrary: s) (simp_all add: assms(1))

lemma tx_pause_cs_like: "like priv (mwifiex_update_ralist_tx_pause_in_tdls_cs mac pause priv)"
proof -
  have "like priv (snd (fold (pause_others mac pause) [0..<MAX_NUM_TID] (0, priv)))"
    by (intro fold_like) (simp_all add: pause_others_def fold_like pause_ra_like)
  then show ?thesis
    by (simp add: mwifiex_update_ralist_tx_pause_in_tdls_cs_def case_prod_unfold Let_def)
qed

lemma del_peer_like: "del_peer q mac ts priv w = Some (priv', w') \<Longrightarrow> like priv priv'"
proof (induction ts arbitrary: priv w)
  case (Cons t ts)
  then obtain ptr where ptr: "mwifiex_wmm_get_ralist_node priv (of_nat t) mac = Some ptr"
    by (auto simp: Option.bind_eq_Some_conv)
  show ?case
  proof (cases ptr)
    case None
    then show ?thesis using Cons ptr by simp
  next
    case (Some i)
    then obtain p w1 where "del_peer q mac ts p w1 = Some (priv', w')" "like priv p"
      using Cons.prems ptr by (auto simp: Let_def like_def split: prod.splits)
    then show ?thesis using Cons.IH like_trans by blast
  qed
qed simp

section \<open>Any sequence of operations\<close>

text \<open>There is room for another packet everywhere, and no counter has wrapped around.\<close>

definition room :: "tx_adapter \<Rightarrow> bool" where
  "room a \<longleftrightarrow> (\<forall>i priv. get_priv a i = Some priv \<longrightarrow>
     queues_short priv \<and> send_pkts priv < 2 ^ 32 \<and> paused_pkts priv < 2 ^ 32)"

text \<open>
  The operations on the queues, one after the other, with anything else the world does in between. A
  new entry has an address of its own; the event that pauses receivers has 0 or 1.
\<close>

inductive tx_step :: "'w tx_driver \<Rightarrow> tx_adapter \<times> 'w \<Rightarrow> tx_adapter \<times> 'w \<Rightarrow> bool" for tx where
  step_add: "\<lbrakk>get_priv a i = Some priv; room a; mwifiex_wmm_add_buf_txqueue (qd tx i) s priv w = Some (priv', w');
     nodes_distinct priv'\<rbrakk> \<Longrightarrow> tx_step tx (a, w) (upd_priv i (\<lambda>_. priv') a, w')"
| step_pause: "\<lbrakk>get_priv a i = Some priv; room a; pause = 0 \<or> pause = 1;
     mwifiex_update_ralist_tx_pause mac pause priv = Some priv'\<rbrakk> \<Longrightarrow> tx_step tx (a, w) (upd_priv i (\<lambda>_. priv') a, w)"
| step_pause_others: "\<lbrakk>get_priv a i = Some priv; room a; pause = 0 \<or> pause = 1\<rbrakk> \<Longrightarrow>
     tx_step tx (a, w) (upd_priv i (mwifiex_update_ralist_tx_pause_in_tdls_cs mac pause) a, w)"
| step_del_peer: "\<lbrakk>get_priv a i = Some priv; mwifiex_wmm_del_peer_ra_list (qd tx i) mac priv w = Some (priv', w')\<rbrakk> \<Longrightarrow>
     tx_step tx (a, w) (upd_priv i (\<lambda>_. priv') a, w')"
| step_send: "\<lbrakk>room a; mwifiex_dequeue_tx_packet (Suc fuel) tx a w = Returned (ret, a', w')\<rbrakk> \<Longrightarrow> tx_step tx (a, w) (a', w')"
| step_bypass: "mwifiex_process_bypass_tx tx a w = Some (a', w') \<Longrightarrow> tx_step tx (a, w) (a', w')"
| step_bus: "mwifiex_process_tx_queue tx a w = (a', w') \<Longrightarrow> tx_step tx (a, w) (a', w')"
| step_world: "tx_step tx (a, w) (a\<lparr>data_sent := ds, tx_lock_flag := lock\<rparr>, w')"

inductive tx_run :: "'w tx_driver \<Rightarrow> tx_adapter \<times> 'w \<Rightarrow> tx_adapter \<times> 'w \<Rightarrow> bool" for tx where
  run_none: "tx_run tx s s"
| run_step: "\<lbrakk>tx_run tx s s'; tx_step tx s' s''\<rbrakk> \<Longrightarrow> tx_run tx s s''"

lemma get_privD: "queues_inv a \<Longrightarrow> get_priv a i = Some priv \<Longrightarrow> counters_ok 0 priv \<and> prios_ok priv"
  by (simp add: queues_inv_def queues_ok_def)

lemma queue_op_inv:
  assumes "get_priv a i = Some priv" "queues_inv a" "sched_inv a" "counters_ok 0 (f priv)" "prios_ok (f priv)" "like priv (f priv)"
  shows "queues_inv (upd_priv i f a) \<and> sched_inv (upd_priv i f a)"
  using changed_inv[OF changed_upd[where f=f, OF assms(1)] assms(1,6)] assms(2-5) by (simp add: queues_ok_def)



lemma tx_step_inv:
  assumes "tx_step tx s s'" "meanwhile tx = Pair" "queues_inv (fst s)" "sched_inv (fst s)"
  shows "queues_inv (fst s') \<and> sched_inv (fst s')"
  using assms
proof (induction rule: tx_step.induct)
  case (step_add a i priv s w priv' w')
  have short: "queues_short priv" using step_add(1,2) by (simp add: room_def)
  have ok: "counters_ok 0 priv" "prios_ok priv" using get_privD[OF _ step_add(1)] step_add.prems by simp_all
  show ?case
    unfolding fst_conv
    by (rule queue_op_inv[OF step_add(1) _ _ add_buf_txqueue_ok(1)[OF step_add(3) ok(1) short step_add(4)]
          add_buf_txqueue_ok(2)[OF step_add(3) ok(1) short step_add(4) ok(2)] add_buf_like[OF step_add(3)]])
      (use step_add.prems in simp_all)
next
  case (step_pause a i priv pause mac priv' w)
  have few: "paused_pkts priv < 2 ^ 32" using step_pause(1,2) by (simp add: room_def)
  have ok: "counters_ok 0 priv" "prios_ok priv" using get_privD[OF _ step_pause(1)] step_pause.prems by simp_all
  show ?case
    unfolding fst_conv
    by (rule queue_op_inv[OF step_pause(1) _ _ tx_pause_ok[OF step_pause(4,3) ok few] tx_pause_like[OF step_pause(4)]])
      (use step_pause.prems in simp_all)
next
  case (step_pause_others a i priv pause w mac)
  have few: "paused_pkts priv < 2 ^ 32" using step_pause_others(1,2) by (simp add: room_def)
  have ok: "counters_ok 0 priv" "prios_ok priv" using get_privD[OF _ step_pause_others(1)] step_pause_others.prems by simp_all
  show ?case
    unfolding fst_conv
    by (rule queue_op_inv[where f="mwifiex_update_ralist_tx_pause_in_tdls_cs mac pause", OF step_pause_others(1) _ _ tx_pause_cs_ok[OF step_pause_others(3) ok few] tx_pause_cs_like])
      (use step_pause_others.prems in simp_all)
next
  case (step_del_peer a i priv mac w priv' w')
  have ok: "counters_ok 0 priv" "prios_ok priv" using get_privD[OF _ step_del_peer(1)] step_del_peer.prems by simp_all
  note d = step_del_peer(2)[unfolded mwifiex_wmm_del_peer_ra_list_def]
  have "\<forall>t \<in> set [0..<MAX_NUM_TID]. t < 8" by (simp add: MAX_NUM_TID_def)
  from del_peer_ok[OF d this ok(1)] ok(2) show ?case
    unfolding fst_conv
    by (intro queue_op_inv[OF step_del_peer(1) _ _ _ _ del_peer_like[OF d]]) (use step_del_peer.prems in simp_all)
next
  case (step_send a fuel w ret a' w')
  show ?case
    unfolding fst_conv
    by (rule dequeue_ok[OF step_send(2)]) (use step_send in \<open>auto simp: room_def few_packets_def\<close>)
next
  case (step_bypass a w a' w')
  then show ?case
    using bypass_all_inv[of tx "[0..<length (privs a)]" a w a' w']
    by (auto simp: mwifiex_process_bypass_tx_def split: if_splits)
next
  case (step_bus a w a' w')
  then show ?case
    using process_tx_queue_inv[OF step_bus(1)[unfolded mwifiex_process_tx_queue_def]] by simp
next
  case (step_world a w ds lock w')
  then show ?case by simp
qed

lemma tx_run_inv:
  assumes "tx_run tx s s'" "meanwhile tx = Pair" "queues_inv (fst s)" "sched_inv (fst s)"
  shows "queues_inv (fst s') \<and> sched_inv (fst s')"
  using assms 
proof (induction rule: tx_run.induct)
  case (run_step s s' s'')
  have "queues_inv (fst s') \<and> sched_inv (fst s')" using run_step.IH run_step.prems by blast
  then show ?case using tx_step_inv[OF run_step.hyps(2) run_step.prems(1)] by blast
qed simp

text \<open>
  C8: Whatever packets are added, receivers paused, released or deleted and packets sent, in any order, the counter that
  decides whether an interface's queues are searched is exactly the number of packets waiting for receivers that are not
  paused, each receiver's counter is the length of its queue, and the search for the next packet ends after one pass. Assumed is
  that nothing else happens to the queues while a packet is being handed to the bus.
\<close>

theorem queue_counters_exact:
  assumes "tx_run tx (a, w) (a', w')" "meanwhile tx = Pair" "queues_inv a" "sched_inv a"
  shows "(\<forall>i priv. get_priv a' i = Some priv \<longrightarrow> tx_pkts_queued (wmm priv) = of_nat (send_pkts priv) \<and>
      (\<forall>t < 8. \<forall>r \<in> set (ra_lists priv ! t). unat (total_pkt_count r) = length (skb_head r))) \<and>
    (room a' \<longrightarrow> (\<exists>r a''. mwifiex_wmm_get_highest_priolist_ptr (Suc fuel) tx a' w' = Returned (r, a'')))"
proof -
  have inv: "queues_inv a'" "sched_inv a'" using tx_run_inv[OF assms(1)] assms(2-4) by simp_all
  have "tx_pkts_queued (wmm priv) = of_nat (send_pkts priv) \<and>
      (\<forall>t < 8. \<forall>r \<in> set (ra_lists priv ! t). unat (total_pkt_count r) = length (skb_head r))"
    if p: "get_priv a' i = Some priv" for i priv
    using get_privD[OF inv(1) p] by (auto simp: counters_ok_def queue_cnt_eq list_ok_def counts_ok_def)
  moreover have "\<exists>r a''. mwifiex_wmm_get_highest_priolist_ptr (Suc fuel) tx a' w' = Returned (r, a'')" if "room a'"
  proof -
    have few: "few_packets a'" using that by (simp add: few_packets_def room_def)
    have js: "\<forall>j \<in> set (rev [0..<length (privs a')]). j < length (bss_prio_tbl a')"
      using inv(2) by (simp add: sched_inv_def)
    obtain r a'' where "search_levels (Suc fuel) tx (rev [0..<length (privs a')]) a' w' = Returned (r, a'')"
      using search_levels_spec[OF inv few js, of fuel tx w'] by (elim exE conjE)
    then show ?thesis
      unfolding mwifiex_wmm_get_highest_priolist_ptr_def by (intro exI)
  qed
  ultimately show ?thesis by blast
qed


section \<open>A peer deleted at the wrong time\<close>

text \<open>Deleting a peer takes its first entry from every list.\<close>

lemma del_peer_lists:
  assumes "del_peer q mac ts priv w = Some (priv', w')" "distinct ts" "\<forall>t \<in> set ts. t < 8" "length (ra_lists priv) = 8"
  shows "\<forall>t < 8. ra_lists priv' ! t = (if t \<in> set ts then
      (case first_index (\<lambda>r. ra r = mac) (ra_lists priv ! t) of None \<Rightarrow> ra_lists priv ! t
       | Some i \<Rightarrow> remove_at i (ra_lists priv ! t)) else ra_lists priv ! t)"
  using assms
proof (induction ts arbitrary: priv w)
  case (Cons t ts)
  have t: "t < 8" "unat (of_nat t :: u8) = t"
    using Cons.prems(3) by (simp_all add: unat_of_nat)
  have node: "mwifiex_wmm_get_ralist_node priv (of_nat t) mac = Some (first_index (\<lambda>r. ra r = mac) (ra_lists priv ! t))"
    using t Cons.prems(4) by (simp add: mwifiex_wmm_get_ralist_node_def idx_def)
  show ?case
  proof (cases "first_index (\<lambda>r. ra r = mac) (ra_lists priv ! t)")
    case None
    then have rest: "del_peer q mac ts priv w = Some (priv', w')"
      using Cons.prems(1) unfolding del_peer.simps node by (simp only: option.case Option.bind.bind_lunit)
    show ?thesis
      using Cons.IH[OF rest] Cons.prems(2-4) None by (auto simp del: first_index_None)
  next
    case (Some i)
    then obtain p w1 where rest: "del_peer q mac ts p w1 = Some (priv', w')"
      and lists: "ra_lists p = (ra_lists priv)[t := remove_at i (ra_lists priv ! t)]"
      using Cons.prems(1) node by (auto simp: Let_def split: prod.splits)
    have "\<forall>u < 8. ra_lists priv' ! u = (if u \<in> set ts then
      (case first_index (\<lambda>r. ra r = mac) (ra_lists p ! u) of None \<Rightarrow> ra_lists p ! u
       | Some i \<Rightarrow> remove_at i (ra_lists p ! u)) else ra_lists p ! u)"
      by (rule Cons.IH[OF rest]) (use Cons.prems(2-4) lists in simp_all)
    moreover have "ra_lists p ! u = (if u = t then remove_at i (ra_lists priv ! t) else ra_lists priv ! u)" for u
      using lists t(1) Cons.prems(4) by simp
    ultimately show ?thesis
      using Some Cons.prems(2) by (simp del: first_index_None split: option.split)
  qed
qed simp

lemma scan_none:
  assumes "order_ok order back" "length (ra_lists priv) = 8" "\<not> busy priv" "\<forall>i \<in> set is. i < 8"
  shows "scan_prios order priv is = Some None"
proof -
  obtain x where x: "scan_prios order priv is = Some x" "case x of
       None \<Rightarrow> \<forall>i \<in> set is. \<forall>r \<in> set (ra_lists priv ! unat (order ! i)). \<not> can_send r
     | Some (i, t, k) \<Rightarrow> i < 8 \<and> t = unat (order ! i) \<and> k < length (ra_lists priv ! t) \<and> can_send (ra_lists priv ! t ! k) \<and>
         (\<exists>pre post. is = pre @ i # post \<and>
            (\<forall>j \<in> set pre. \<forall>r \<in> set (ra_lists priv ! unat (order ! j)). \<not> can_send r))"
    using scan_prios_spec[OF assms(1,2,4)] by blast
  have "x = None"
  proof (rule ccontr)
    assume "x \<noteq> None"
    then obtain i t k where "x = Some (i, t, k)" by (metis not_Some_eq prod_cases3)
    then have "i < 8" "t = unat (order ! i)" "k < length (ra_lists priv ! t)" "can_send (ra_lists priv ! t ! k)"
      using x(2) by auto
    moreover from this have "t < 8" using assms(1) by (simp add: order_ok_def)
    ultimately show False using assms(3) nth_mem unfolding busy_def by blast
  qed
  then show ?thesis using x(1) by simp
qed

lemma try_interface_spins:
  assumes "order_ok order back" "length (ra_lists priv) = 8" "\<not> busy priv"
    and "highest_queued_prio (wmm priv) \<le> HIGH_PRIO_TID" "tx_pkts_queued (wmm priv) \<noteq> 0" "\<not> port_closed priv"
  shows "try_interface fuel True order priv = Running"
  using assms(2-)
proof (induction fuel arbitrary: priv)
  case (Suc fuel)
  have "\<forall>i \<in> set (prios_from (highest_queued_prio (wmm priv))). i < 8"
    using Suc.prems(3) by (auto simp: set_prios_from HIGH_PRIO_TID_def)
  note scan = scan_none[OF assms(1) Suc.prems(1,2) this]
  have "try_interface fuel True order (set_prio HIGH_PRIO_TID priv) = Running"
    by (rule Suc.IH) (use Suc.prems in simp_all)
  then show ?case using scan Suc.prems by simp
qed simp

text \<open>The interface the search looks at first.\<close>

definition looked_at_first :: "tx_adapter \<Rightarrow> nat \<Rightarrow> bool" where
  "looked_at_first a i \<longleftrightarrow> length (privs a) \<le> length (bss_prio_tbl a) \<and>
     (\<exists>j < length (privs a). \<exists>is. bss_prio_tbl a ! j = i # is \<and> (\<forall>j' < length (privs a). j < j' \<longrightarrow> bss_prio_tbl a ! j' = []))"

lemma search_levels_spins:
  assumes "\<forall>j' \<in> set (pre @ [j]). j' < length (bss_prio_tbl a)" "\<forall>j' \<in> set pre. bss_prio_tbl a ! j' = []"
    and "bss_prio_tbl a ! j = i # is" "get_priv a i = Some priv" "is_port_ready tx i w"
    and "try_interface fuel True (tos a) priv = Running"
  shows "search_levels fuel tx (pre @ j # post) a w = Running"
  using assms
proof (induction pre arbitrary: a)
  case Nil
  have "[0..<length (bss_prio_tbl a ! j)] = 0 # [1..<length (bss_prio_tbl a ! j)]"
    unfolding Nil.prems(3) by (subst upt_conv_Cons) simp_all
  then have "search_nodes fuel tx j [0..<length (bss_prio_tbl a ! j)] a w = Running"
    using Nil.prems(3-6) by (simp add: Let_def get_priv_def del: try_interface.simps)
  then show ?case using Nil.prems(1) by simp
next
  case (Cons j' pre)
  let ?a = "cur_at j' (length (bss_prio_tbl a ! j')) a"
  have "search_levels fuel tx (pre @ j # post) ?a w = Running"
    by (rule Cons.IH) (use Cons.prems in simp_all)
  then show ?case using Cons.prems(1,2) by (simp add: cur_at_def)
qed


lemma del_peer_removes:
  assumes d: "mwifiex_wmm_del_peer_ra_list q (ra (ra_lists priv ! t ! k)) priv w = Some (priv', w')"
    and ok: "counters_ok c priv" and at: "node_in priv t p k" and ras: "distinct (map ra (ra_lists priv ! t))"
  shows "find_node priv' t p = None"
proof -
  let ?rs = "ra_lists priv ! t"
  have t: "t < 8" and k: "k < length ?rs" "node_at (?rs ! k) = p" using at by (simp_all add: node_in_def)
  have len: "length (ra_lists priv) = 8" and dn: "distinct (map node_at ?rs)"
    using counters_okD[OF ok] t by (auto simp: list_ok_def)
  have "first_index (\<lambda>r. ra r = ra (?rs ! k)) ?rs = Some k"
    using k(1) nth_eq_iff_index_eq[OF ras] by (auto simp: first_index_Some)
  moreover have "\<forall>t < 8. ra_lists priv' ! t = (if t \<in> set [0..<MAX_NUM_TID] then
      (case first_index (\<lambda>r. ra r = ra (?rs ! k)) (ra_lists priv ! t) of None \<Rightarrow> ra_lists priv ! t
       | Some i \<Rightarrow> remove_at i (ra_lists priv ! t)) else ra_lists priv ! t)"
    by (rule del_peer_lists[OF d[unfolded mwifiex_wmm_del_peer_ra_list_def] _ _ len]) (simp_all add: MAX_NUM_TID_def)
  ultimately have "ra_lists priv' ! t = remove_at k ?rs"
    using t by (simp add: MAX_NUM_TID_def)
  moreover have "p \<notin> set (map node_at (remove_at k ?rs))"
    using remove_at_distinct(2)[OF dn, of k] k by (simp add: map_remove_at)
  ultimately have "\<forall>r \<in> set (ra_lists priv' ! t). node_at r \<noteq> p" by auto
  then show ?thesis by (auto simp: find_node_def idx_def)
qed

text \<open>With nothing to send but a counter that says otherwise, the search does not end.\<close>

lemma search_spins:
  assumes ok: "counters_ok 1 e" "prios_ok e" and order: "order_ok (tos a) (tos_to_tid_inv e)" and g: "get_priv a i = Some e"
    and c: "\<not> busy e" "\<not> port_closed e" "is_port_ready tx i w" "looked_at_first a i"
  shows "mwifiex_wmm_get_highest_priolist_ptr fuel tx a w = Running"
proof -
  note len = counters_okD(1)[OF ok(1)]
  have "tx_pkts_queued (wmm e) = 1"
    using counters_okD(2)[OF ok(1)] send_pkts_zero[OF len] c(1) by (simp add: queue_cnt_eq)
  then have spin: "try_interface fuel True (tos a) e = Running"
    by (intro try_interface_spins[OF order len c(1)]) (use ok c in \<open>simp_all add: prios_ok_def\<close>)
  let ?n = "length (privs a)"
  obtain j "is" where j: "?n \<le> length (bss_prio_tbl a)" "j < ?n" "bss_prio_tbl a ! j = i # is"
    "\<forall>j' < ?n. j < j' \<longrightarrow> bss_prio_tbl a ! j' = []"
    using c(4) unfolding looked_at_first_def by blast
  have "rev [0..<?n] = rev [Suc j..<?n] @ j # rev [0..<j]"
    using j(2) by (metis append_Cons append_Nil append_assoc less_imp_le_nat rev.simps(2) rev_append upt_conv_Cons upt_add_eq_append le0 plus_nat.add_0 le_add_diff_inverse)
  then show ?thesis
    unfolding mwifiex_wmm_get_highest_priolist_ptr_def
    using search_levels_spins[of "rev [Suc j..<?n]" j a i "is" e tx w fuel "rev [0..<j]"] j g c(3) spin by simp
qed

text \<open>
  What may happen to the queues of one interface between two searches for a packet: packets are added, receivers paused or
  released, peers deleted, and the world goes on.
\<close>

inductive queue_step :: "'w queue_driver \<Rightarrow> ba_priv \<times> 'w \<Rightarrow> ba_priv \<times> 'w \<Rightarrow> bool" for q where
  queue_add: "\<lbrakk>queues_short p; mwifiex_wmm_add_buf_txqueue q s p w = Some (p', w'); nodes_distinct p'\<rbrakk> \<Longrightarrow>
     queue_step q (p, w) (p', w')"
| queue_pause: "\<lbrakk>paused_pkts p < 2 ^ 32; pause = 0 \<or> pause = 1; mwifiex_update_ralist_tx_pause mac pause p = Some p'\<rbrakk> \<Longrightarrow>
     queue_step q (p, w) (p', w)"
| queue_pause_others: "\<lbrakk>paused_pkts p < 2 ^ 32; pause = 0 \<or> pause = 1\<rbrakk> \<Longrightarrow>
     queue_step q (p, w) (mwifiex_update_ralist_tx_pause_in_tdls_cs mac pause p, w)"
| queue_del_peer: "mwifiex_wmm_del_peer_ra_list q mac p w = Some (p', w') \<Longrightarrow> queue_step q (p, w) (p', w')"
| queue_world: "queue_step q (p, w) (p, w')"

lemma queue_step_keeps:
  assumes "queue_step q s s'" "counters_ok k (fst s)" "prios_ok (fst s)"
  shows "counters_ok k (fst s') \<and> prios_ok (fst s') \<and> like (fst s) (fst s')"
  using assms
proof (induction rule: queue_step.induct)
  case (queue_add p s w p' w')
  then show ?case using add_buf_txqueue_ok add_buf_like by fastforce
next
  case (queue_pause p pause mac p' w)
  then show ?case using tx_pause_ok tx_pause_like by fastforce
next
  case (queue_pause_others p pause w mac)
  then show ?case using tx_pause_cs_ok tx_pause_cs_like by fastforce
next
  case (queue_del_peer mac p w p' w')
  note d = queue_del_peer(1)[unfolded mwifiex_wmm_del_peer_ra_list_def]
  then show ?case using queue_del_peer del_peer_ok[OF d] del_peer_like[OF d] by (simp add: MAX_NUM_TID_def)
qed simp

lemma queue_run_keeps:
  assumes "rtranclp (queue_step q) s s'" "counters_ok k (fst s)" "prios_ok (fst s)"
  shows "counters_ok k (fst s') \<and> prios_ok (fst s') \<and> like (fst s) (fst s')"
  using assms(1)
proof (induction rule: rtranclp_induct)
  case base
  then show ?case using assms(2,3) by (simp add: like_refl)
next
  case (step y z)
  then show ?case using queue_step_keeps[OF step(2)] like_trans by blast
qed

text \<open>
  C9: Deleting a peer at the wrong time stops sending. While its packet is on its way to the bus, already taken out of
  its queue but still counted, the peer's queues are deleted; then the bus answers that it is busy. The driver gives up the
  packet but does not take it off the counter. Whatever packets are then added, receivers paused or released and peers
  deleted, the counter is one more than the packets that can be sent; and in every such state in which none can be sent
  in the first interface that may send, the next search for a packet does not end. (Only cleaning up all queues of
  the interface sets the counter right.)
\<close>

theorem deleted_peer_stalls_sending:
  defines "take_out \<equiv> \<lambda>ss r. r\<lparr>skb_head := ss, total_pkt_count := total_pkt_count r - 1\<rparr>"
  assumes inv: "queues_inv a" and g: "get_priv a i = Some priv" and s: "sendable priv t p k"
    and q: "skb_head (ra_lists priv ! t ! k) = s # ss" and ras: "distinct (map ra (ra_lists priv ! t))"
    and pr: "mwifiex_process_tx tx i s (next_pkt_len ss) (upd_priv i (upd_ra t k (take_out ss)) a) w = Some (- EBUSY, s', b, w1)"
    and del: "mwifiex_wmm_del_peer_ra_list (qd tx i) (ra (ra_lists priv ! t ! k)) (upd_ra t k (take_out ss) priv) w1 = Some (d, w2)"
    and mean: "meanwhile tx b w1 = (upd_priv i (\<lambda>_. d) b, w2)"
  shows "mwifiex_send_single_packet tx i p t a w =
      Some (upd_priv i (\<lambda>_. d) b, write_data_complete (qd tx i) s' False (- 1) w2) \<and>
    (\<forall>e w'. rtranclp (queue_step (qd tx i)) (d, write_data_complete (qd tx i) s' False (- 1) w2) (e, w') \<longrightarrow>
      tx_pkts_queued (wmm e) = of_nat (send_pkts e) + 1 \<and>
      (\<not> busy e \<and> \<not> port_closed e \<and> is_port_ready tx i w' \<and> looked_at_first (upd_priv i (\<lambda>_. e) b) i \<longrightarrow>
        (\<forall>fuel. mwifiex_wmm_get_highest_priolist_ptr fuel tx (upd_priv i (\<lambda>_. e) b) w' = Running)))"
proof -
  have ok: "queues_ok priv" and order: "order_ok (tos a) (tos_to_tid_inv priv)"
    using inv g by (simp_all add: queues_inv_def)
  note sd = sendableD[OF s ok]
  let ?r = "ra_lists priv ! t ! k"
  let ?p1 = "upd_ra t k (take_out ss) priv"
  have "mid_ok 1 priv ?p1"
    unfolding take_out_def by (rule take_out_ok[OF ok s q])
  then have m1: "counters_ok 1 ?p1" "prios_ok ?p1" by (simp_all add: mid_ok_def)
  have ch: "changed i ?p1 a b"
    using changed_trans[OF changed_upd[where f="upd_ra t k (take_out ss)", OF g]]
      changed_same[OF changed_get[OF changed_upd[where f="upd_ra t k (take_out ss)", OF g]]] process_tx_same[OF pr] by blast
  have ch': "changed i e a (upd_priv i (\<lambda>_. e) b)" for e by (rule changed_upd_trans[OF ch])
  note d' = del[unfolded mwifiex_wmm_del_peer_ra_list_def]
  have m2: "counters_ok 1 d" "prios_ok d"
    using del_peer_ok[OF d' _ m1(1)] m1(2) by (simp_all add: MAX_NUM_TID_def)
  have "ra (ra_lists ?p1 ! t ! k) = ra ?r" "map ra (ra_lists ?p1 ! t) = map ra (ra_lists priv ! t)" "node_in ?p1 t p k"
    using sd(1-3) s by (simp_all add: take_out_def map_update list_update_same_conv node_in_upd_ra sendable_def)
  then have gone: "find_node d t p = None"
    using del_peer_removes[OF _ m1(1), of "qd tx i" t k w1 d w2 p] del ras by simp
  have "mwifiex_send_single_packet tx i p t a w =
      Some (upd_priv i (\<lambda>_. d) b, write_data_complete (qd tx i) s' False (- 1) w2)"
    using g sd(4) q pr mean changed_get[OF ch'] gone
    by (simp add: mwifiex_send_single_packet_def Let_def take_out_def)
  moreover have "tx_pkts_queued (wmm e) = of_nat (send_pkts e) + 1 \<and>
      (\<not> busy e \<and> \<not> port_closed e \<and> is_port_ready tx i w' \<and> looked_at_first (upd_priv i (\<lambda>_. e) b) i \<longrightarrow>
        (\<forall>fuel. mwifiex_wmm_get_highest_priolist_ptr fuel tx (upd_priv i (\<lambda>_. e) b) w' = Running))"
    if run: "rtranclp (queue_step (qd tx i)) (d, v) (e, w')" for e v w'
  proof -
    have m3: "counters_ok 1 e" "prios_ok e" "like d e"
      using queue_run_keeps[OF run, of 1] m2 by simp_all
    have counter: "tx_pkts_queued (wmm e) = of_nat (send_pkts e) + 1"
      using counters_okD(2)[OF m3(1)] by (simp add: queue_cnt_eq)
    let ?a' = "upd_priv i (\<lambda>_. e) b"
    have "tos ?a' = tos a" "tos_to_tid_inv e = tos_to_tid_inv priv"
      using ch'[of e] m3(3) del_peer_like[OF d'] by (simp_all add: changed_def like_def upd_ra_def)
    then have "order_ok (tos ?a') (tos_to_tid_inv e)" using order by simp
    then show ?thesis
      using search_spins[OF m3(1,2), of ?a' i tx w'] counter changed_get[OF ch'] by blast
  qed
  ultimately show ?thesis by blast
qed


section \<open>Examples\<close>

text \<open>A bus that gives always the same answer and keeps what it is sent; the driver does the rest at once.\<close>

definition demo_qd :: "byte list list queue_driver" where
  "demo_qd = \<lparr>drv = \<lparr>up = logger, mwifiex_send_cmd = (\<lambda>c a b w. (0, w)), kzalloc = (\<lambda>w. (True, w)),
     flush_workqueue = (\<lambda>w. w)\<rparr>, alloc_node = (\<lambda>w. (Some (length w), w)), ktime_get_ns = (\<lambda>w. (0, w)),
     write_data_complete = (\<lambda>s aggr st w. w)\<rparr>"

definition demo_tx :: "int \<Rightarrow> (tx_adapter \<Rightarrow> byte list list \<Rightarrow> tx_adapter \<times> byte list list) \<Rightarrow> byte list list tx_driver" where
  "demo_tx answer other = \<lparr>qd = (\<lambda>i. demo_qd), is_port_ready = (\<lambda>i w. True),
     host_to_card = (\<lambda>i s n w. (answer, False, w @ [skb_data s])), queue_delay = (\<lambda>s w. 0),
     alloc_dma_align_buf = (\<lambda>n w. (None, w)), dev_alloc_skb = (\<lambda>n w. (None, w)), dev_kfree_skb_any = (\<lambda>s w. w),
     meanwhile = other\<rparr>"

theorem queue_counters_exact_witness:
  "\<exists>a' w' priv. tx_run (demo_tx 0 Pair) (demo_tx_adapter [demo_sender 2], []) (a', w') \<and>
    get_priv a' 0 = Some priv \<and> length w' = 1 \<and> tx_pkts_queued (wmm priv) = of_nat (send_pkts priv) \<and> send_pkts priv = 1"
proof -
  let ?tx = "demo_tx 0 Pair"
  let ?a = "demo_tx_adapter [demo_sender 2]"
  have "case mwifiex_dequeue_tx_packet (Suc 0) ?tx ?a [] of
    Returned (ret, a, w) \<Rightarrow> map (map_option send_pkts) (privs a) = [Some 1] \<and> length w = 1 | _ \<Rightarrow> False"
    by code_simp
  then obtain ret a' w' where r: "mwifiex_dequeue_tx_packet (Suc 0) ?tx ?a [] = Returned (ret, a', w')"
    "map (map_option send_pkts) (privs a') = [Some 1]" "length w' = 1"
    by (auto split: outcome.splits)
  have "get_priv ?a i = (if i = 0 then Some (demo_sender 2) else None)" for i
    by (simp add: get_priv_def demo_tx_adapter_def idx_def)
  then have "room ?a"
    by (auto simp: room_def queues_short_def less_8 demo_sender_def fresh_priv_def demo_ra_def send_pkts_def send_cnt_def
        paused_pkts_def paused_cnt_def sum_list_replicate)
  then have run: "tx_run ?tx (?a, []) (a', w')"
    by (rule run_step[OF run_none step_send[OF _ r(1)]])
  obtain priv where p: "get_priv a' 0 = Some priv" "send_pkts priv = 1"
    using r(2) by (auto simp: get_priv_def idx_def)
  have "(2::nat) < 65536" by simp
  note start = demo_sender_inv[OF this]
  have "meanwhile ?tx = Pair" by (simp add: demo_tx_def)
  from queue_counters_exact[OF run this start(1,2)] p r(3) run show ?thesis by blast
qed

text \<open>The peer of the one packet leaves.\<close>

definition peer_leaves :: "tx_adapter \<Rightarrow> byte list list \<Rightarrow> tx_adapter \<times> byte list list" where
  "peer_leaves a w =
     (case get_priv a 0 of
        None \<Rightarrow> (a, w)
      | Some priv \<Rightarrow> (case mwifiex_wmm_del_peer_ra_list demo_qd [1, 1, 1, 1, 1, 1] priv w of
          None \<Rightarrow> (a, w) | Some (priv, w) \<Rightarrow> (upd_priv 0 (\<lambda>_. priv) a, w)))"

theorem deleted_peer_stalls_sending_witness:
  "\<exists>a' w'. mwifiex_send_single_packet (demo_tx (- EBUSY) peer_leaves) 0 7 0 (demo_tx_adapter [demo_sender 1]) [] = Some (a', w') \<and>
    (\<forall>fuel. mwifiex_wmm_get_highest_priolist_ptr fuel (demo_tx (- EBUSY) peer_leaves) a' w' = Running)"
proof -
  let ?tx = "demo_tx (- EBUSY) peer_leaves"
  let ?a = "demo_tx_adapter [demo_sender 1]"
  let ?f = "\<lambda>r. r\<lparr>skb_head := [], total_pkt_count := total_pkt_count r - 1\<rparr>"
  have "case mwifiex_process_tx ?tx 0 (sample_packet 5) (next_pkt_len []) (upd_priv 0 (upd_ra 0 0 ?f) ?a) [] of
      None \<Rightarrow> False
    | Some (ret, s', b, w1) \<Rightarrow> ret = - EBUSY \<and> length (privs b) = 1 \<and> bss_prio_tbl b = [[0]] \<and>
        (case mwifiex_wmm_del_peer_ra_list demo_qd [1, 1, 1, 1, 1, 1] (upd_ra 0 0 ?f (demo_sender 1)) w1 of
           None \<Rightarrow> False | Some (d, w2) \<Rightarrow> send_pkts d = 0 \<and> length (ra_lists d) = 8 \<and> \<not> port_closed d)"
    by code_simp
  then obtain s' b w1 d w2 where
    pr: "mwifiex_process_tx ?tx 0 (sample_packet 5) (next_pkt_len []) (upd_priv 0 (upd_ra 0 0 ?f) ?a) [] = Some (- EBUSY, s', b, w1)"
    and b: "length (privs b) = 1" "bss_prio_tbl b = [[0]]"
    and del: "mwifiex_wmm_del_peer_ra_list demo_qd [1, 1, 1, 1, 1, 1] (upd_ra 0 0 ?f (demo_sender 1)) w1 = Some (d, w2)"
    and d: "send_pkts d = 0" "length (ra_lists d) = 8" "\<not> port_closed d"
    by (auto split: option.splits)
  have g: "get_priv ?a 0 = Some (demo_sender 1)"
    by (simp add: get_priv_def demo_tx_adapter_def idx_def)
  have "get_priv b 0 = Some (upd_ra 0 0 ?f (demo_sender 1))"
    using same_ifaces_get process_tx_same[OF pr] get_priv_upd[OF g, of "upd_ra 0 0 ?f"] by fastforce
  then have mean: "meanwhile ?tx b w1 = (upd_priv 0 (\<lambda>_. d) b, w2)"
    using del by (simp add: demo_tx_def peer_leaves_def)
  have lists: "ra_lists (demo_sender 1) ! 0 = [demo_ra 1]" by (simp add: demo_sender_def)
  have s: "sendable (demo_sender 1) 0 7 0"
    unfolding sendable_def node_in_def lists can_send_def by (simp add: demo_ra_def)
  have q: "skb_head (ra_lists (demo_sender 1) ! 0 ! 0) = [sample_packet 5]" "ra (ra_lists (demo_sender 1) ! 0 ! 0) = [1, 1, 1, 1, 1, 1]"
    unfolding lists by (simp_all add: demo_ra_def)
  have "(1::nat) < 65536" by simp
  note inv = demo_sender_inv(1)[OF this]
  have "qd ?tx 0 = demo_qd" by (simp add: demo_tx_def)
  then have del': "mwifiex_wmm_del_peer_ra_list (qd ?tx 0) (ra (ra_lists (demo_sender 1) ! 0 ! 0)) (upd_ra 0 0 ?f (demo_sender 1)) w1 = Some (d, w2)"
    using del q(2) by simp
  have "distinct (map ra (ra_lists (demo_sender 1) ! 0))" unfolding lists by simp
  note stall = deleted_peer_stalls_sending[OF inv g s q(1) this pr del' mean]
  have "rtranclp (queue_step (qd ?tx 0)) (d, write_data_complete (qd ?tx 0) s' False (- 1) w2) (d, w')" for w'
    using queue_world by (rule r_into_rtranclp)
  moreover have "\<not> busy d" using send_pkts_zero[OF d(2)] d(1) by simp
  moreover have "looked_at_first (upd_priv 0 (\<lambda>_. d) b) 0"
    using b by (auto simp: looked_at_first_def)
  moreover have "is_port_ready ?tx 0 w'" for w' by (simp add: demo_tx_def)
  ultimately show ?thesis using stall d(3) by blast
qed

end
