(* ===== verification/Tx_Bus.thy ===== *)
theory Tx_Bus
  imports Wmm_Steps
begin

text \<open>
  The queue of packets for the bus and its counter, \<open>doc/mwifiex/txrx.c\<close>. An aggregate counts with twice the number
  of its packets, any other packet once. Emptying the queue keeps counter and contents together, but an
  aggregate that the bus refused once comes into the queue as one packet and leaves it as an aggregate.
\<close>

definition bus_excess :: "tx_adapter \<Rightarrow> int" where
  "bus_excess a = tx_queued a - sum_list (map txq_weight (tx_data_q a))"

lemma bus_excess_upd [simp]: "bus_excess (upd_priv i f a) = bus_excess a"
  by (simp add: bus_excess_def)








section \<open>Packets that come into the queue\<close>


























end
