(* ===== verification/Rx_Path.thy ===== *)
theory Rx_Path
  imports Wmm_Tx
begin

text \<open>
  Received packets in the mwifiex driver, \<open>doc/mwifiex/sta_rx.c\<close>, with the functions of \<open>util.c\<close> that hand packets and
  management frames to the kernel. A packet comes with a descriptor that says where it is; it leaves as an
  Ethernet frame. A read or write outside the buffer is \<open>None\<close>.
\<close>

section \<open>Constants and services\<close>

definition rfc1042_header :: "byte list" where "rfc1042_header = [0xaa, 0xaa, 0x03, 0, 0, 0]"
definition bridge_tunnel_header :: "byte list" where "bridge_tunnel_header = [0xaa, 0xaa, 0x03, 0, 0, 0xf8]"
definition ETH_P_AARP :: u16 where "ETH_P_AARP = 0x80f3"
definition ETH_P_IPX :: u16 where "ETH_P_IPX = 0x8137"
definition ETH_P_ARP :: u16 where "ETH_P_ARP = 0x0806"
definition ETH_P_IPV6 :: u16 where "ETH_P_IPV6 = 0x86dd"
definition ARPOP_REQUEST :: u16 where "ARPOP_REQUEST = 1"
definition ARPOP_REPLY :: u16 where "ARPOP_REPLY = 2"
definition NDISC_NEIGHBOUR_ADVERTISEMENT :: u8 where "NDISC_NEIGHBOUR_ADVERTISEMENT = 136"
definition MWIFIEX_RXPD_FLAGS_TDLS_PACKET :: u8 where "MWIFIEX_RXPD_FLAGS_TDLS_PACKET = 1"
definition BSS_NUM_MASK :: u8 where "BSS_NUM_MASK = 0xf"
definition IEEE80211_HDR :: nat where "IEEE80211_HDR = 30"
definition IEEE80211_HDR_3ADDR :: nat where "IEEE80211_HDR_3ADDR = 24"
definition WLAN_CATEGORY_BACK :: u8 where "WLAN_CATEGORY_BACK = 3"
definition WLAN_CATEGORY_PUBLIC :: u8 where "WLAN_CATEGORY_PUBLIC = 4"
definition WLAN_PUB_ACTION_TDLS_DISCOVER_RES :: u8 where "WLAN_PUB_ACTION_TDLS_DISCOVER_RES = 14"
definition IEEE80211_STYPE_ACTION :: u16 where "IEEE80211_STYPE_ACTION = 0xd0"

text \<open>
  A received packet: \<open>rx_buf\<close> is the memory from the first byte of the packet to the end of the buffer and \<open>rx_len\<close> the
  number of bytes that belong to the packet; \<open>rx_room\<close> is the memory in front and \<open>rx_at\<close> its address.
\<close>

record rx_skb =
  rx_at :: nat
  rx_room :: "byte list"
  rx_buf :: "byte list"
  rx_len :: nat
  rx_priority :: u32

text \<open>
  The services of an interface: those of the sessions, the clock, giving an Ethernet frame or a management frame with
  its signal strength to the kernel, noting a rate with signal and noise, noting a peer's signal, and freeing a packet.
\<close>

record 'w rx_driver =
  rdrv :: "'w driver"
  jiffies :: "'w \<Rightarrow> u64"
  netif_rx :: "byte list \<Rightarrow> 'w \<Rightarrow> 'w"
  cfg80211_rx_mgmt :: "u16 \<Rightarrow> byte list \<Rightarrow> 'w \<Rightarrow> 'w"
  mwifiex_hist_data_add :: "u8 \<Rightarrow> u8 \<Rightarrow> u8 \<Rightarrow> 'w \<Rightarrow> 'w"
  mwifiex_auto_tdls_update_peer_signal :: "byte list \<Rightarrow> u8 \<Rightarrow> u8 \<Rightarrow> 'w \<Rightarrow> 'w"
  kfree_skb :: "byte list \<Rightarrow> 'w \<Rightarrow> 'w"

text \<open>Both kinds of interface have the same descriptor.\<close>

definition rx_fields :: "cfield list" where
  "rx_fields = [(''bss_type'', CI8), (''bss_num'', CI8), (''rx_pkt_length'', CI16), (''rx_pkt_offset'', CI16),
     (''rx_pkt_type'', CI16), (''seq_num'', CI16), (''priority'', CI8), (''rx_rate'', CI8), (''snr'', CI8), (''nf'', CI8),
     (''ht_info'', CI8), (''reserved'', CArr 3 CI8), (''flags'', CI8)]"

lemma rx_layout:
  "field_offsets 0 rx_fields = [(''bss_type'', 0), (''bss_num'', 1), (''rx_pkt_length'', 2), (''rx_pkt_offset'', 4),
     (''rx_pkt_type'', 6), (''seq_num'', 8), (''priority'', 10), (''rx_rate'', 11), (''snr'', 12), (''nf'', 13),
     (''ht_info'', 14), (''reserved'', 15), (''flags'', 18)]"
  "sizeof rx_fields = 19"
  by (simp_all add: rx_fields_def)

definition CAL_RSSI :: "u8 \<Rightarrow> u8 \<Rightarrow> u16" where
  "CAL_RSSI snr nf = scast snr + scast nf"

text \<open>Taking bytes off the front: nothing happens when there are too few.\<close>

definition skb_pull :: "nat \<Rightarrow> rx_skb \<Rightarrow> rx_skb" where
  "skb_pull n s = (if rx_len s < n then s
     else s\<lparr>rx_room := rx_room s @ take n (rx_buf s), rx_buf := drop n (rx_buf s), rx_len := rx_len s - n\<rparr>)"

definition frame_of :: "rx_skb \<Rightarrow> byte list" where
  "frame_of s = take (rx_len s) (rx_buf s)"

section \<open>Statistics\<close>

definition upd_station :: "byte list \<Rightarrow> (sta_node \<Rightarrow> sta_node) \<Rightarrow> ba_priv \<Rightarrow> ba_priv" where
  "upd_station mac f priv =
     (case first_index (\<lambda>n. mac_addr n = mac) (sta_list priv) of
        None \<Rightarrow> priv
      | Some i \<Rightarrow> priv\<lparr>sta_list := (sta_list priv)[i := f (sta_list priv ! i)]\<rparr>)"

definition station_received :: "u64 \<Rightarrow> nat \<Rightarrow> sta_node \<Rightarrow> sta_node" where
  "station_received now n node = node\<lparr>stats := (stats node)\<lparr>last_rx := now,
     sta_rx_bytes := sta_rx_bytes (stats node) + of_nat n, sta_rx_packets := sta_rx_packets (stats node) + 1\<rparr>\<rparr>"

definition upd_net :: "(net_stats \<Rightarrow> net_stats) \<Rightarrow> ba_priv \<Rightarrow> ba_priv" where
  "upd_net f priv = priv\<lparr>net_stats_of := f (net_stats_of priv)\<rparr>"

definition drop_counted :: "ba_priv \<Rightarrow> ba_priv" where
  "drop_counted = upd_net (\<lambda>n. n\<lparr>rx_dropped := rx_dropped n + 1\<rparr>)"

definition received_counted :: "nat \<Rightarrow> ba_priv \<Rightarrow> ba_priv" where
  "received_counted len = upd_net (\<lambda>n. n\<lparr>rx_bytes := rx_bytes n + of_nat len, rx_packets := rx_packets n + 1\<rparr>)"

section \<open>To the kernel\<close>

definition mwifiex_recv_packet :: "'w rx_driver \<Rightarrow> rx_skb \<Rightarrow> ba_priv \<Rightarrow> 'w \<Rightarrow> (int \<times> ba_priv \<times> 'w) option" where
  "mwifiex_recv_packet d s priv w = do {
     let priv = received_counted (rx_len s) priv;
     priv \<leftarrow> (if GET_BSS_ROLE (rdrv d) = MWIFIEX_BSS_ROLE_UAP then do {
                h_source \<leftarrow> load (rx_buf s) 6 6;
                Some (upd_station h_source (station_received (jiffies d w) (rx_len s)) priv)
              } else Some priv);
     Some (0, priv, netif_rx d (frame_of s) w)
   }"

text \<open>
  Whether the packet at \<open>off\<close> has a SNAP header that is replaced by an Ethernet header. The two headers are compared one after the
  other, the type is read only for the second.
\<close>

definition snap_header :: "nat \<Rightarrow> byte list \<Rightarrow> bool option" where
  "snap_header off buf = do {
     h \<leftarrow> load buf (off + 14) 6;
     if h = bridge_tunnel_header then Some True
     else if h \<noteq> rfc1042_header then Some False
     else do {
       t \<leftarrow> load buf (off + 20) 2;
       let snap_type = ld16 (rev t);
       Some (snap_type \<noteq> ETH_P_AARP \<and> snap_type \<noteq> ETH_P_IPX)
     }
   }"

text \<open>
  The addresses are moved right in front of the SNAP type, in the buffer, where the destination comes to lie over the end of the source.
  The answer has the bytes to take off the front.
\<close>

definition ethernet_header :: "nat \<Rightarrow> byte list \<Rightarrow> (byte list \<times> nat) option" where
  "ethernet_header off buf = do {
     snap \<leftarrow> snap_header off buf;
     if snap then do {
       h_source \<leftarrow> load buf (off + 6) 6;
       buf \<leftarrow> store buf (off + 14) h_source;
       h_dest \<leftarrow> load buf off 6;
       buf \<leftarrow> store buf (off + 8) h_dest;
       Some (buf, off + 8)
     } else Some (buf, off)
   }"

definition mwifiex_discard_gratuitous_arp :: "byte list \<Rightarrow> bool option" where
  "mwifiex_discard_gratuitous_arp buf = do {
     t \<leftarrow> load buf 12 2;
     if ld16 (rev t) = ETH_P_ARP then do {
       op \<leftarrow> load buf 20 2;
       if ld16 (rev op) = ARPOP_REPLY \<or> ld16 (rev op) = ARPOP_REQUEST then do {
         sip \<leftarrow> load buf 28 4;
         tip \<leftarrow> load buf 38 4;
         Some (sip = tip)
       } else Some False
     } else if ld16 (rev t) = ETH_P_IPV6 then do {
       icmp6_type \<leftarrow> idx buf 54;
       if icmp6_type = NDISC_NEIGHBOUR_ADVERTISEMENT then do {
         saddr \<leftarrow> load buf 22 16;
         daddr \<leftarrow> load buf 38 16;
         Some (saddr = daddr)
       } else Some False
     } else Some False
   }"

text \<open>The descriptor is read again after the addresses were moved, at the start of the same buffer.\<close>

definition mwifiex_process_rx_packet :: "'w rx_driver \<Rightarrow> rx_skb \<Rightarrow> ba_priv \<Rightarrow> 'w \<Rightarrow> (int \<times> ba_priv \<times> 'w) option" where
  "mwifiex_process_rx_packet d s priv w = do {
     len \<leftarrow> get16 (rx_buf s) 2;
     off \<leftarrow> get16 (rx_buf s) 4;
     (buf, hdr_chop) \<leftarrow> ethernet_header (unat off) (rx_buf s);
     let s = skb_pull hdr_chop (s\<lparr>rx_buf := buf\<rparr>);
     garp \<leftarrow> (if hs2_enabled priv then mwifiex_discard_gratuitous_arp (rx_buf s) else Some False);
     if garp then Some (0, priv, kfree_skb d (frame_of s) w)
     else do {
       w \<leftarrow> (if tdls_enabled (up (rdrv d)) then do {
               t \<leftarrow> load buf (unat off + 12) 2;
               if ld16 (rev t) = ETH_P_TDLS
               then Some (process_tdls_action_frame (up (rdrv d)) (drop (unat off) buf) (unat len) w)
               else Some w
             } else Some w);
       rate \<leftarrow> idx buf 11;
       ht \<leftarrow> idx buf 14;
       snr \<leftarrow> idx buf 12;
       nf \<leftarrow> idx buf 13;
       let priv = priv\<lparr>rxpd_rate := rate, rxpd_htinfo := ht\<rparr>;
       let w = (if GET_BSS_ROLE (rdrv d) = MWIFIEX_BSS_ROLE_STA \<or> GET_BSS_ROLE (rdrv d) = MWIFIEX_BSS_ROLE_UAP
            then mwifiex_hist_data_add d (mwifiex_adjust_data_rate rate ht) snr nf w else w);
       mwifiex_recv_packet d s priv w
     }
   }"

section \<open>Management frames\<close>

definition mwifiex_parse_mgmt_packet ::
  "'w rx_driver \<Rightarrow> byte list \<Rightarrow> u8 \<Rightarrow> u8 \<Rightarrow> 'w \<Rightarrow> (int \<times> 'w) option" where
  "mwifiex_parse_mgmt_packet d payload snr nf w = do {
     fc \<leftarrow> get16 payload 0;
     if fc AND 0xf0 \<noteq> IEEE80211_STYPE_ACTION then Some (0, w)
     else do {
       category \<leftarrow> idx payload IEEE80211_HDR;
       if category = WLAN_CATEGORY_PUBLIC then do {
         action_code \<leftarrow> idx payload (IEEE80211_HDR + 1);
         if action_code = WLAN_PUB_ACTION_TDLS_DISCOVER_RES then do {
           addr2 \<leftarrow> load payload 10 6;
           Some (0, mwifiex_auto_tdls_update_peer_signal d addr2 snr nf w)
         } else Some (0, w)
       } else if category = WLAN_CATEGORY_BACK then Some (-1, w)
       else Some (0, w)
     }
   }"

text \<open>
  The number of bytes to move is computed without sign: for a frame shorter than its header it is nearly $2^{64}$, which
  no buffer has. The new length is also written to the descriptor.
\<close>

definition mwifiex_process_mgmt_packet :: "'w rx_driver \<Rightarrow> rx_skb \<Rightarrow> ba_priv \<Rightarrow> 'w \<Rightarrow> (int \<times> 'w) option" where
  "mwifiex_process_mgmt_packet d s priv w =
     (if mgmt_frame_mask priv = 0 \<or> iftype_unspecified priv then Some (-1, w)
      else do {
        off \<leftarrow> get16 (rx_buf s) 4;
        pkt_len \<leftarrow> get16 (rx_buf s) 2;
        snr \<leftarrow> idx (rx_buf s) 12;
        nf \<leftarrow> idx (rx_buf s) 13;
        let data = rx_buf (skb_pull 2 (skb_pull (unat off) s));
        fc \<leftarrow> get16 data 0;
        (ret, w) \<leftarrow> (if fc AND 0xc = 0 then mwifiex_parse_mgmt_packet d data snr nf w else Some (0, w));
        if ret \<noteq> 0 then Some (-1, w)
        else if unat pkt_len < IEEE80211_HDR then None
        else do {
          body \<leftarrow> load data IEEE80211_HDR (unat pkt_len - IEEE80211_HDR);
          data \<leftarrow> store data IEEE80211_HDR_3ADDR body;
          let pkt_len = pkt_len - 8;
          if length data < unat pkt_len then None
          else Some (0, cfg80211_rx_mgmt d (CAL_RSSI snr nf) (take (unat pkt_len) data) w)
        }
      })"

section \<open>Packets for a station\<close>

text \<open>The sequence number is noted at the packet's priority in an array of eight, without a check.\<close>

definition note_seq :: "u8 \<Rightarrow> u16 \<Rightarrow> u16 list \<Rightarrow> u16 list option" where
  "note_seq prio seq rs = (if unat prio < length rs then Some (rs[unat prio := seq]) else None)"

text \<open>The address under which the reorder table is found, with what is noted about the sender.\<close>

definition rx_sender ::
  "'w rx_driver \<Rightarrow> nat \<Rightarrow> u8 \<Rightarrow> u16 \<Rightarrow> u16 \<Rightarrow> rx_skb \<Rightarrow> ba_priv \<Rightarrow> 'w \<Rightarrow> (byte list \<times> ba_priv \<times> 'w) option" where
  "rx_sender d off prio seq type s priv w = do {
     flags \<leftarrow> idx (rx_buf s) 18;
     let tdls = (flags AND MWIFIEX_RXPD_FLAGS_TDLS_PACKET \<noteq> 0);
     if mwifiex_queuing_ra_based (rdrv d) priv \<or> tdls_enabled (up (rdrv d)) \<and> tdls then do {
       ta \<leftarrow> load (rx_buf s) (off + 6) 6;
       if tdls \<and> unat prio < MAX_NUM_TID then do {
         snr \<leftarrow> idx (rx_buf s) 12;
         nf \<leftarrow> idx (rx_buf s) 13;
         Some (ta, upd_station ta (\<lambda>n. n\<lparr>sta_rx_seq := (sta_rx_seq n)[unat prio := seq]\<rparr>) priv,
           mwifiex_auto_tdls_update_peer_signal d ta snr nf w)
       } else Some (ta, priv, w)
     } else do {
       rs \<leftarrow> (if type \<noteq> ucast PKT_TYPE_BAR then note_seq prio seq (rx_seq priv) else Some (rx_seq priv));
       Some (bss_mac_address priv, priv\<lparr>rx_seq := rs\<rparr>, w)
     }
   }"

text \<open>What is done when the reordering has answered.\<close>

definition after_reorder ::
  "'w rx_driver \<Rightarrow> u16 \<Rightarrow> rx_skb \<Rightarrow> int \<times> ba_priv \<times> 'w \<Rightarrow> int \<times> ba_priv \<times> 'w" where
  "after_reorder d type s r =
     (let (ret, priv, w) = r
      in (ret, if ret \<noteq> 0 then drop_counted priv else priv,
          if ret \<noteq> 0 \<or> type = ucast PKT_TYPE_BAR then kfree_skb d (frame_of s) w else w))"

definition mwifiex_process_sta_rx_packet ::
  "'w rx_driver \<Rightarrow> rx_skb \<Rightarrow> ba_priv \<Rightarrow> 'w \<Rightarrow> (int \<times> ba_priv \<times> 'w) option" where
  "mwifiex_process_sta_rx_packet d s priv w = do {
     type \<leftarrow> get16 (rx_buf s) 6;
     off \<leftarrow> get16 (rx_buf s) 4;
     len \<leftarrow> get16 (rx_buf s) 2;
     seq \<leftarrow> get16 (rx_buf s) 8;
     if uint off + uint len > uint (of_nat (rx_len s) :: u16)
     then Some (0, drop_counted priv, kfree_skb d (frame_of s) w)
     else if type = ucast PKT_TYPE_MGMT then do {
       (ret, w) \<leftarrow> mwifiex_process_mgmt_packet d s priv w;
       Some (ret, priv, kfree_skb d (frame_of s) w)
     } else do {
       flags \<leftarrow> idx (rx_buf s) 18;
       prio \<leftarrow> idx (rx_buf s) 10;
       direct \<leftarrow> (if \<not> bss_11n_enabled priv \<and>
                     \<not> (tdls_enabled (up (rdrv d)) \<and> flags AND MWIFIEX_RXPD_FLAGS_TDLS_PACKET = 0)
                  then Some True
                  else do { h_dest \<leftarrow> load (rx_buf s) (unat off) 6; Some (curr_addr priv \<noteq> h_dest) });
       if direct then do {
         (_, priv, w) \<leftarrow> mwifiex_process_rx_packet d s priv w;
         Some (0, priv, w)
       } else do {
         (ta, priv, w) \<leftarrow> rx_sender d (unat off) prio seq type s priv w;
         r \<leftarrow> mwifiex_11n_rx_reorder_pkt (rdrv d) seq (ucast prio) ta (ucast type) (Some (frame_of s)) priv w;
         Some (after_reorder d type s r)
       }
     }
   }"


section \<open>What reaches the kernel\<close>

text \<open>Accesses behind the descriptor.\<close>

lemma load_behind: "length d = off \<Longrightarrow> load (d @ xs) (off + k) n = load xs k n"
  by (auto simp: load_def)

lemma store_behind: "length d = off \<Longrightarrow> store (d @ xs) (off + k) ys = map_option ((@) d) (store xs k ys)"
  by (auto simp: store_def)

lemmas behind = load_behind store_behind load_behind[where k = 0, simplified]

lemma unat_of_nat_u16: "n < 65536 \<Longrightarrow> unat (of_nat n :: u16) = n"
  by (simp add: unsigned_of_nat take_bit_nat_eq_self)

lemma list_of_six: "length xs = 6 \<Longrightarrow> \<exists>a b c d e f. xs = [a, b, c, d, e, f]"
  by (auto simp: eval_nat_numeral length_Suc_conv)

lemma list_of_two: "length xs = 2 \<Longrightarrow> \<exists>a b. xs = [a, b]"
  by (auto simp: eval_nat_numeral length_Suc_conv)

lemma packet_parts:
  assumes "14 \<le> length p"
  shows "\<exists>dst src ty body. p = dst @ src @ ty @ body \<and> length dst = 6 \<and> length src = 6 \<and> length ty = 2"
proof (intro exI conjI)
  show "p = take 6 p @ take 6 (drop 6 p) @ take 2 (drop 12 p) @ drop 14 p"
    using append_take_drop_id[of 6 p] append_take_drop_id[of 6 "drop 6 p"] append_take_drop_id[of 2 "drop 12 p"]
    by (metis drop_drop numeral_plus_numeral add_num_simps(1-9))
qed (use assms in simp_all)

text \<open>The type of a packet, and the types whose SNAP header stays.\<close>

definition packet_type :: "byte list \<Rightarrow> u16" where
  "packet_type p = ld16 (rev (take 2 (drop 12 p)))"

definition converted :: "byte list \<Rightarrow> bool" where
  "converted p \<longleftrightarrow> packet_type p \<noteq> ETH_P_AARP \<and> packet_type p \<noteq> ETH_P_IPX"

lemma ethernet_header_subframe:
  assumes p: "14 \<le> length p" and c: "converted p" and desc: "length desc = off"
  shows "ethernet_header off (desc @ subframe p @ tail) = Some (desc @ take 8 p @ p @ tail, off + 8)"
proof -
  obtain dst src ty body where parts: "p = dst @ src @ ty @ body"
    and len: "length dst = 6" "length src = 6" "length ty = 2"
    using packet_parts[OF p] by blast
  obtain d1 d2 d3 d4 d5 d6 where dst: "dst = [d1, d2, d3, d4, d5, d6]"
    using list_of_six[OF len(1)] by blast
  obtain s1 s2 s3 s4 s5 s6 where src: "src = [s1, s2, s3, s4, s5, s6]"
    using list_of_six[OF len(2)] by blast
  obtain t1 t2 where ty: "ty = [t1, t2]"
    using list_of_two[OF len(3)] by blast
  have "length (be16 (of_nat (length p - 14 + LLC_SNAP_LEN))) = 2"
    by simp
  then obtain l1 l2 where l: "be16 (of_nat (length p - 14 + LLC_SNAP_LEN)) = [l1, l2]"
    using list_of_two by blast
  have sub: "subframe p = dst @ src @ [l1, l2, 0xaa, 0xaa, 0x03, 0, 0, 0] @ ty @ body"
    unfolding subframe_def tx_header_def l by (simp add: parts dst src ty)
  have ty': "ld16 [t2, t1] \<noteq> ETH_P_AARP" "ld16 [t2, t1] \<noteq> ETH_P_IPX"
    using c by (simp_all add: converted_def packet_type_def parts dst src ty)
  have snap: "snap_header off (desc @ subframe p @ tail) = Some True"
    using desc ty'
    by (simp add: snap_header_def sub dst src ty behind load_def bridge_tunnel_header_def rfc1042_header_def del: ld16.simps)
  have "ethernet_header off (desc @ subframe p @ tail) = Some (desc @ (dst @ [s1, s2]) @ p @ tail, off + 8)"
    unfolding ethernet_header_def snap unfolding sub using desc
    by (simp add: parts dst src ty behind load_def store_def)
  then show ?thesis
    by (simp add: parts dst src)
qed

text \<open>
  A packet of a descriptor, something up to the offset, and a packet as it stands in an aggregate, \<open>subframe\<close>.
\<close>

definition holds_packet :: "byte list \<Rightarrow> byte list \<Rightarrow> byte list \<Rightarrow> rx_skb \<Rightarrow> bool" where
  "holds_packet desc p tail s \<longleftrightarrow> rx_buf s = desc @ subframe p @ tail \<and> rx_len s = length desc + length (subframe p) \<and>
     19 \<le> length desc \<and> length desc < 65536 \<and> get16 desc 4 = Some (of_nat (length desc))"

text \<open>What is noted from the descriptor.\<close>

definition rate_noted :: "byte list \<Rightarrow> ba_priv \<Rightarrow> ba_priv" where
  "rate_noted desc priv = priv\<lparr>rxpd_rate := desc ! 11, rxpd_htinfo := desc ! 14\<rparr>"

text \<open>
  A packet with an LLC/SNAP header reaches the kernel as the Ethernet frame it was made of, whatever the descriptor holds
  besides its offset and whatever follows in the buffer; it is counted with the length of the frame, and its rate is noted with
  signal and noise. This is for a station without direct links and without the Hotspot filter.
\<close>

lemma process_snap_packet:
  assumes "holds_packet desc p tail s" "14 \<le> length p" "converted p"
    and "GET_BSS_ROLE (rdrv d) = MWIFIEX_BSS_ROLE_STA" "\<not> tdls_enabled (up (rdrv d))" "\<not> hs2_enabled priv"
  shows "mwifiex_process_rx_packet d s priv w =
    Some (0, received_counted (length p) (rate_noted desc priv),
      netif_rx d p (mwifiex_hist_data_add d (mwifiex_adjust_data_rate (desc ! 11) (desc ! 14)) (desc ! 12) (desc ! 13) w))"
proof -
  define buf where "buf = desc @ take 8 p @ p @ tail"
  have eth: "ethernet_header (length desc) (rx_buf s) = Some (buf, length desc + 8)"
    using ethernet_header_subframe[OF assms(2,3) refl, of desc tail] assms(1) by (simp add: holds_packet_def buf_def)
  have buf: "take (length desc) buf = desc" "drop (length desc + 8) buf = p @ tail"
    using assms(2) by (simp_all add: buf_def)
  have len: "19 \<le> length desc" "length desc < 65536" "rx_len s = length desc + 8 + length p"
    using assms(1,2) by (auto simp: holds_packet_def)
  have off: "unat (of_nat (length desc) :: u16) = length desc"
    using len(2) by (rule unat_of_nat_u16)
  have fields: "get16 (rx_buf s) 4 = Some (of_nat (length desc))" "get16 (rx_buf s) 2 = Some (ld16 (take 2 (drop 2 desc)))"
    using assms(1) by (auto simp: holds_packet_def get16_def load_def)
  have desc: "idx buf k = Some (desc ! k)" if "k < 19" for k
  proof -
    have "length desc \<le> length buf" using buf(1) by (metis length_take min.cobounded2 min.commute)
    then show ?thesis using that len(1) buf(1) by (metis idx_Some_iff nth_take order_less_le_trans)
  qed
  show ?thesis
    using assms(4-6) len
    by (simp add: mwifiex_process_rx_packet_def fields off eth desc skb_pull_def mwifiex_recv_packet_def frame_of_def buf
        rate_noted_def MWIFIEX_BSS_ROLE_STA_def MWIFIEX_BSS_ROLE_UAP_def)
qed

text \<open>Examples: a driver that keeps what it hands up, and a descriptor of twenty bytes.\<close>

definition demo_rx :: "byte list list rx_driver" where
  "demo_rx = \<lparr>rdrv = \<lparr>up = logger, mwifiex_send_cmd = (\<lambda>c a b w. (0, w)), kzalloc = (\<lambda>w. (True, w)),
     flush_workqueue = (\<lambda>w. w)\<rparr>, jiffies = (\<lambda>w. 0), netif_rx = (\<lambda>f w. w @ [f]), cfg80211_rx_mgmt = (\<lambda>rssi f w. w @ [f]),
     mwifiex_hist_data_add = (\<lambda>rate snr nf w. w), mwifiex_auto_tdls_update_peer_signal = (\<lambda>mac snr nf w. w),
     kfree_skb = (\<lambda>f w. w)\<rparr>"

definition demo_desc :: "u16 \<Rightarrow> u16 \<Rightarrow> u8 \<Rightarrow> byte list" where
  "demo_desc len type prio = [0, 0] @ le16 len @ le16 20 @ le16 type @ le16 5 @ [prio] @ replicate 9 0"

definition demo_rx_skb :: "byte list \<Rightarrow> byte list \<Rightarrow> rx_skb" where
  "demo_rx_skb bs spare = \<lparr>rx_at = 0, rx_room = replicate 128 0, rx_buf = bs @ spare, rx_len = length bs, rx_priority = 0\<rparr>"

section \<open>The length of a management frame\<close>

text \<open>
  A management frame is reported without its fourth address. The length in the descriptor includes two bytes in front of
  the frame, which the move does not take off: without two more bytes behind the frame it reads outside the buffer.
\<close>

theorem mgmt_frame_reported:
  assumes buf: "rx_buf s = desc @ l2 @ hdr @ body @ tail" "length l2 = 2" "length hdr = 30"
    and len: "rx_len s = length desc + 32 + length body" "19 \<le> length desc" "length desc + 32 + length body < 65536"
    and desc: "get16 desc 4 = Some (of_nat (length desc))" "get16 desc 2 = Some (of_nat (32 + length body))"
    and on: "mgmt_frame_mask priv \<noteq> 0" "\<not> iftype_unspecified priv" "ld16 hdr AND 0xf0 \<noteq> IEEE80211_STYPE_ACTION"
  shows "mwifiex_process_mgmt_packet d s priv w =
    (if length tail < 2 then None
     else Some (0, cfg80211_rx_mgmt d (CAL_RSSI (desc ! 12) (desc ! 13)) (take 24 hdr @ body) w))"
proof -
  define o' v :: u16 where "o' = of_nat (length desc)" and "v = of_nat (32 + length body)"
  have off: "unat o' = length desc" and n: "unat v = 32 + length body"
    using len(3) unat_of_nat_u16[of "length desc"] unat_of_nat_u16[of "32 + length body"]
    unfolding o'_def v_def by linarith+
  have "v - 8 = of_nat (24 + length body)"
    by (simp add: v_def)
  then have m: "unat (v - 8) = 24 + length body"
    using len(3) unat_of_nat_u16[of "24 + length body"] by simp
  have fields: "get16 (rx_buf s) 4 = Some o'" "get16 (rx_buf s) 2 = Some v"
    "idx (rx_buf s) 12 = Some (desc ! 12)" "idx (rx_buf s) 13 = Some (desc ! 13)"
    using desc len(2) unfolding o'_def[symmetric] v_def[symmetric]
    by (simp_all add: buf(1) get16_def load_def idx_def nth_append)
  have data: "rx_buf (skb_pull 2 (skb_pull (length desc) s)) = hdr @ body @ tail"
    using buf len(1) by (simp add: skb_pull_def)
  obtain a b h where hdr: "hdr = a # b # h"
    using buf(3) by (auto simp: eval_nat_numeral length_Suc_conv)
  have fc: "get16 (hdr @ body @ tail) 0 = Some (ld16 hdr)"
    using hdr by (simp add: get16_def load_def)
  have parse: "mwifiex_parse_mgmt_packet d (hdr @ body @ tail) snr nf w = Some (0, w)" for snr nf
    using on(3) by (simp add: mwifiex_parse_mgmt_packet_def fc)
  have body: "load (hdr @ body @ tail) 30 (Suc (Suc (length body))) = (if length tail < 2 then None else Some (body @ take 2 tail))"
    using buf(3) by (simp add: load_def)
  have moved: "store (hdr @ body @ tail) 24 (body @ take 2 tail) = Some (take 24 hdr @ body @ take 2 tail @ drop (26 + length body) (hdr @ body @ tail))"
    if "2 \<le> length tail"
    using buf(3) that by (simp add: store_def)
  show ?thesis
    unfolding mwifiex_process_mgmt_packet_def fields using on(1,2) buf(3)
    by (simp add: off data fc parse n m body moved IEEE80211_HDR_def IEEE80211_HDR_3ADDR_def Let_def) arith
qed

theorem mgmt_frame_reported_witness:
  "mwifiex_process_mgmt_packet demo_rx
     (demo_rx_skb ((demo_desc 33 0 0)[11 := 7] @ [9, 9] @ replicate 30 0x80 @ [5]) [0, 0]) (fresh_priv\<lparr>mgmt_frame_mask := 1\<rparr>) [] =
    Some (0, [replicate 24 0x80 @ [5]])"
proof -
  have "get16 ((demo_desc 33 0 0)[11 := 7]) 4 = Some 20" "get16 ((demo_desc 33 0 0)[11 := 7]) 2 = Some 33"
    "length ((demo_desc 33 0 0)[11 := 7]) = 20" "ld16 (replicate 30 0x80) AND 0xf0 \<noteq> IEEE80211_STYPE_ACTION"
    by code_simp+
  then show ?thesis
    by (subst mgmt_frame_reported[where desc = "(demo_desc 33 0 0)[11 := 7]" and ?l2.0 = "[9, 9]"
          and hdr = "replicate 30 0x80" and body = "[5]" and tail = "[0, 0]"])
      (simp_all add: demo_rx_skb_def demo_rx_def fresh_priv_def)
qed

section \<open>The priority of a packet\<close>

text \<open>A data packet for this station from its access point, with its descriptor's fields.\<close>

definition station_data :: "'w rx_driver \<Rightarrow> ba_priv \<Rightarrow> u16 \<Rightarrow> u8 \<Rightarrow> u16 \<Rightarrow> rx_skb \<Rightarrow> bool" where
  "station_data d priv type prio seq s \<longleftrightarrow> 19 \<le> length (rx_buf s) \<and> get16 (rx_buf s) 6 = Some type \<and>
     rx_buf s ! 10 = prio \<and> get16 (rx_buf s) 8 = Some seq \<and> type \<noteq> ucast PKT_TYPE_MGMT \<and> type \<noteq> ucast PKT_TYPE_BAR \<and>
     (\<exists>off len. get16 (rx_buf s) 4 = Some off \<and> get16 (rx_buf s) 2 = Some len \<and>
       uint off + uint len \<le> uint (of_nat (rx_len s) :: u16) \<and> load (rx_buf s) (unat off) 6 = Some (curr_addr priv)) \<and>
     bss_11n_enabled priv \<and> \<not> mwifiex_queuing_ra_based (rdrv d) priv \<and> \<not> tdls_enabled (up (rdrv d))"

text \<open>
  A data packet from the access point goes to the reordering under the access point's address, with its sequence number
  noted at its priority. The priority comes from the chip and the array has eight places: from eight on the packet
  overwrites what follows the array.
\<close>

theorem priority_outside_array:
  assumes "station_data d priv type prio seq s" "length (rx_seq priv) = 8"
  shows "mwifiex_process_sta_rx_packet d s priv w =
    (if 8 \<le> unat prio then None
     else map_option (after_reorder d type s)
       (mwifiex_11n_rx_reorder_pkt (rdrv d) seq (ucast prio) (bss_mac_address priv) (ucast type) (Some (frame_of s))
         (priv\<lparr>rx_seq := (rx_seq priv)[unat prio := seq]\<rparr>) w))"
proof -
  obtain off len where f: "get16 (rx_buf s) 4 = Some off" "get16 (rx_buf s) 2 = Some len"
    "\<not> uint off + uint len > uint (of_nat (rx_len s) :: u16)" "load (rx_buf s) (unat off) 6 = Some (curr_addr priv)"
    using assms(1) by (auto simp: station_data_def)
  have g: "get16 (rx_buf s) 6 = Some type" "get16 (rx_buf s) 8 = Some seq" "idx (rx_buf s) 10 = Some prio"
    "\<exists>flags. idx (rx_buf s) 18 = Some flags" "type \<noteq> ucast PKT_TYPE_MGMT" "type \<noteq> ucast PKT_TYPE_BAR"
    "bss_11n_enabled priv" "\<not> mwifiex_queuing_ra_based (rdrv d) priv" "\<not> tdls_enabled (up (rdrv d))"
    using assms(1) by (auto simp: station_data_def idx_def)
  have "rx_sender d (unat off) prio seq type s priv w =
    (if 8 \<le> unat prio then None else Some (bss_mac_address priv, priv\<lparr>rx_seq := (rx_seq priv)[unat prio := seq]\<rparr>, w))"
    using g assms(2) by (auto simp: rx_sender_def note_seq_def)
  then show ?thesis
    unfolding mwifiex_process_sta_rx_packet_def f(1,2) g(1,2)
    using f(3,4) g(3-) by (auto simp: map_option_case split: option.splits)
qed

theorem priority_outside_array_witness:
  "mwifiex_process_sta_rx_packet demo_rx (demo_rx_skb (demo_desc 14 0 9 @ replicate 14 2) []) fresh_priv [] = None"
proof -
  let ?s = "demo_rx_skb (demo_desc 14 0 9 @ replicate 14 2) []"
  have "get16 (rx_buf ?s) 6 = Some 0" "get16 (rx_buf ?s) 8 = Some 5" "get16 (rx_buf ?s) 4 = Some 20"
    "get16 (rx_buf ?s) 2 = Some 14" "rx_buf ?s ! 10 = 9" "rx_len ?s = 34" "load (rx_buf ?s) 20 6 = Some (curr_addr fresh_priv)"
    "19 \<le> length (rx_buf ?s)" "\<not> mwifiex_queuing_ra_based (rdrv demo_rx) fresh_priv" "\<not> tdls_enabled (up (rdrv demo_rx))"
    "bss_11n_enabled fresh_priv"
    by code_simp+
  then have "station_data demo_rx fresh_priv 0 9 5 ?s"
    by (simp add: station_data_def PKT_TYPE_MGMT_def PKT_TYPE_BAR_def)
  then show ?thesis
    using priority_outside_array[of demo_rx fresh_priv 0 9 5 ?s "[]"] by (simp add: fresh_priv_def)
qed

end
