(* ===== verification/Tx_Done.thy ===== *)
theory Tx_Done
  imports Wmm_Tx
begin

text \<open>
  The two ends of a packet's way through the mwifiex driver: how the kernel hands it in, \<open>doc/mwifiex/main.c\<close>, and how
  it is given back with its status, \<open>txrx.c\<close>. Counters of the packets in between stop and wake the kernel's queues. A
  frame whose acknowledgement is wanted is kept under a number until the chip reports.
\<close>

section \<open>Constants and state\<close>

definition MAX_TX_PENDING :: int where "MAX_TX_PENDING = 400"
definition LOW_TX_PENDING :: int where "LOW_TX_PENDING = 380"
definition ETH_FRAME_LEN :: nat where "ETH_FRAME_LEN = 1514"
definition ETH_P_PAE :: u16 where "ETH_P_PAE = 0x888e"
definition MWIFIEX_BUF_FLAG_BRIDGED_PKT :: u8 where "MWIFIEX_BUF_FLAG_BRIDGED_PKT = 2"
definition MAX_ACK_FRAMES :: nat where "MAX_ACK_FRAMES = 0x10"

definition mwifiex_1d_to_wmm_queue :: "nat list" where
  "mwifiex_1d_to_wmm_queue = [1, 0, 0, 1, 2, 2, 3, 3]"

record tx_counts =
  tx_packets :: u64
  tx_bytes :: u64
  tx_errors :: u64
  tx_timeout_cnt :: u8

text \<open>
  What a completion changes: the counters of the adapter, and by interface those of the four queues, which queues the
  kernel was told to stop, the statistics, and the frames whose acknowledgement is awaited.
\<close>

record tx_done =
  pending_bridged_pkts :: int
  tx_pending :: int
  wmm_tx_pending :: "nat \<Rightarrow> int list"
  stopped :: "nat \<Rightarrow> bool list"
  tx_counts_of :: "nat \<Rightarrow> tx_counts"
  ack_status_frames :: "nat \<Rightarrow> nat \<Rightarrow> skb option"

definition upd_pending :: "nat \<Rightarrow> nat \<Rightarrow> int \<Rightarrow> 'v tx_done_scheme \<Rightarrow> 'v tx_done_scheme" where
  "upd_pending i k n w = w\<lparr>wmm_tx_pending := (wmm_tx_pending w)(i := (wmm_tx_pending w i)[k := n])\<rparr>"

definition set_stopped :: "nat \<Rightarrow> nat \<Rightarrow> bool \<Rightarrow> 'v tx_done_scheme \<Rightarrow> 'v tx_done_scheme" where
  "set_stopped i k b w = w\<lparr>stopped := (stopped w)(i := (stopped w i)[k := b])\<rparr>"

section \<open>Giving a packet back\<close>

definition count_status :: "int \<Rightarrow> skb \<Rightarrow> tx_counts \<Rightarrow> tx_counts" where
  "count_status status s c =
     (if status = 0 then c\<lparr>tx_packets := tx_packets c + 1, tx_bytes := tx_bytes c + ucast (pkt_len s), tx_timeout_cnt := 0\<rparr>
      else c\<lparr>tx_errors := tx_errors c + 1\<rparr>)"

definition mwifiex_write_data_complete ::
  "tx_adapter \<Rightarrow> skb \<Rightarrow> bool \<Rightarrow> int \<Rightarrow> 'v tx_done_scheme \<Rightarrow> 'v tx_done_scheme option" where
  "mwifiex_write_data_complete a s aggr status w =
     (case mwifiex_get_priv_by_id a (tx_bss_num s) (tx_bss_type s) of
        None \<Rightarrow> Some w
      | Some i \<Rightarrow>
          (let w = (if tx_flags s AND MWIFIEX_BUF_FLAG_BRIDGED_PKT \<noteq> 0
                then w\<lparr>pending_bridged_pkts := pending_bridged_pkts w - 1\<rparr> else w)
           in if tx_flags s AND MWIFIEX_BUF_FLAG_AGGR_PKT \<noteq> 0 then Some w
              else
                (let w = w\<lparr>tx_counts_of := (tx_counts_of w)(i := count_status status s (tx_counts_of w i))\<rparr>
                 in if aggr then Some w
                    else do {
                      let w = w\<lparr>tx_pending := tx_pending w - 1\<rparr>;
                      k \<leftarrow> idx mwifiex_1d_to_wmm_queue (unat (priority s));
                      let n = wmm_tx_pending w i ! k - 1;
                      let w = upd_pending i k n w;
                      Some (if n < LOW_TX_PENDING \<and> stopped w i ! k then set_stopped i k False w else w)
                    })))"

section \<open>Taking a packet from the kernel\<close>

definition mwifiex_bypass_tx_queue :: "'w driver \<Rightarrow> skb \<Rightarrow> bool" where
  "mwifiex_bypass_tx_queue d s \<longleftrightarrow> h_proto (skb_data s) = ETH_P_PAE \<or> mwifiex_is_skb_mgmt_frame s \<or>
     GET_BSS_ROLE d = MWIFIEX_BSS_ROLE_STA \<and> tdls_enabled (up d) \<and> h_proto (skb_data s) = ETH_P_TDLS"

definition mwifiex_queue_tx_pkt ::
  "'v tx_done_scheme queue_driver \<Rightarrow> nat \<Rightarrow> skb \<Rightarrow> tx_adapter \<Rightarrow> 'v tx_done_scheme \<Rightarrow>
     (tx_adapter \<times> 'v tx_done_scheme) option" where
  "mwifiex_queue_tx_pkt q i s a w = do {
     k \<leftarrow> idx mwifiex_1d_to_wmm_queue (unat (priority s));
     let n = wmm_tx_pending w i ! k + 1;
     let w = upd_pending i k n w;
     let w = (if n \<ge> MAX_TX_PENDING \<and> \<not> stopped w i ! k then set_stopped i k True w else w);
     priv \<leftarrow> get_priv a i;
     let w = w\<lparr>tx_pending := tx_pending w + 1\<rparr>;
     if mwifiex_bypass_tx_queue (drv q) s
     then Some (upd_priv i (mwifiex_wmm_add_buf_bypass_txqueue s) (a\<lparr>bypass_tx_pending := bypass_tx_pending a + 1\<rparr>), w)
     else do {
       (priv, w) \<leftarrow> mwifiex_wmm_add_buf_txqueue q s priv w;
       Some (upd_priv i (\<lambda>_. priv) a, w)
     }
   }"

text \<open>
  Keeping a frame under the lowest free number. Cloning a frame can fail; a fresh clone has one user. The frame that goes
  on is the clone, with the number, the one kept is the original.
\<close>

definition free_ack_id :: "(nat \<Rightarrow> skb option) \<Rightarrow> nat option" where
  "free_ack_id frames = find (\<lambda>n. frames n = None) [1..<MAX_ACK_FRAMES]"

definition mwifiex_clone_skb_for_tx_status ::
  "bool \<Rightarrow> nat \<Rightarrow> skb \<Rightarrow> u8 \<Rightarrow> 'v tx_done_scheme \<Rightarrow> skb \<times> 'v tx_done_scheme" where
  "mwifiex_clone_skb_for_tx_status cloned i s flag w =
     (if \<not> cloned then (s, w)
      else
        (case free_ack_id (ack_status_frames w i) of
           None \<Rightarrow> (s, w)
         | Some n \<Rightarrow>
             (let s = s\<lparr>ack_frame_id := of_nat n, tx_flags := tx_flags s OR flag\<rparr>
              in (s, w\<lparr>ack_status_frames := (ack_status_frames w)(i := (ack_status_frames w i)(n := Some s))\<rparr>))))"

text \<open>
  The services of the network layer: making room in front of a packet (the new address and the memory in front), cloning,
  the time, the search for a direct link, and reporting an acknowledgement for a frame of the kernel or of a management frame.
\<close>

record 'w net_driver =
  skb_realloc_headroom :: "nat \<Rightarrow> 'w \<Rightarrow> (nat \<times> byte list) option \<times> 'w"
  skb_clone :: "'w \<Rightarrow> bool \<times> 'w"
  ktime_get_real :: "'w \<Rightarrow> int"
  mwifiex_tdls_check_tx :: "skb \<Rightarrow> 'w \<Rightarrow> 'w"
  skb_complete_wifi_ack :: "skb \<Rightarrow> bool \<Rightarrow> 'w \<Rightarrow> 'w"
  cfg80211_mgmt_tx_status :: "byte list \<Rightarrow> bool \<Rightarrow> 'w \<Rightarrow> 'w"

definition enough_headroom :: "'w net_driver \<Rightarrow> skb \<Rightarrow> 'w \<Rightarrow> skb option \<times> 'w" where
  "enough_headroom n s w =
     (if length (headroom s) < MWIFIEX_MIN_DATA_HEADER_LEN then
        (let (r, w) = skb_realloc_headroom n MWIFIEX_MIN_DATA_HEADER_LEN w
         in (map_option (\<lambda>(at, room). s\<lparr>buf_at := at, headroom := room\<rparr>) r, w))
      else (Some s, w))"

definition tx_dropped_counted :: "ba_priv \<Rightarrow> ba_priv" where
  "tx_dropped_counted priv = priv\<lparr>net_stats_of := (net_stats_of priv)\<lparr>tx_dropped := tx_dropped (net_stats_of priv) + 1\<rparr>\<rparr>"

text \<open>\<open>wifi_status\<close> says that the sender of the packet wants to know of its acknowledgement, \<open>check_tdls\<close> that the
  driver looks for direct links.\<close>

definition note_packet :: "ba_priv \<Rightarrow> skb \<Rightarrow> skb" where
  "note_packet priv s = s\<lparr>tx_flags := 0, aggr_num := 0, ack_frame_id := 0, status_code := 0, tx_bss_num := bss_num priv,
     tx_bss_type := bss_type priv, pkt_len := of_nat (length (skb_data s))\<rparr>"

definition prepare_packet ::
  "'v tx_done_scheme net_driver \<Rightarrow> 'v tx_done_scheme queue_driver \<Rightarrow> bool \<Rightarrow> bool \<Rightarrow> nat \<Rightarrow> ba_priv \<Rightarrow> skb \<Rightarrow> tx_adapter \<Rightarrow>
     'v tx_done_scheme \<Rightarrow> skb \<times> 'v tx_done_scheme" where
  "prepare_packet n q wifi_status check_tdls i priv s a w =
     (let s = note_packet priv s;
          (s, w) = (if \<not> bit (skb_data s ! 0) 0 \<and> wifi_status \<and> fw_api_ver a = MWIFIEX_FW_V15
            then (let (ok, w) = skb_clone n w
                  in mwifiex_clone_skb_for_tx_status ok i s MWIFIEX_BUF_FLAG_EAPOL_TX_STATUS w)
            else (s, w));
          s = s\<lparr>tstamp := ktime_get_real n w\<rparr>;
          w = (if tdls_enabled (up (drv q)) \<and> bss_type priv = MWIFIEX_BSS_TYPE_STA \<and>
                 cfg_bssid priv \<noteq> take 6 (skb_data s) \<and> check_tdls
               then mwifiex_tdls_check_tx n s w else w)
      in (s, w))"

definition mwifiex_hard_start_xmit ::
  "'v tx_done_scheme net_driver \<Rightarrow> 'v tx_done_scheme queue_driver \<Rightarrow> bool \<Rightarrow> bool \<Rightarrow> nat \<Rightarrow> skb \<Rightarrow> tx_adapter \<Rightarrow>
     'v tx_done_scheme \<Rightarrow> (tx_adapter \<times> 'v tx_done_scheme) option" where
  "mwifiex_hard_start_xmit n q wifi_status check_tdls i s a w = do {
     priv \<leftarrow> get_priv a i;
     if surprise_removed a \<or> skb_data s = [] \<or> length (skb_data s) > ETH_FRAME_LEN
     then Some (upd_priv i tx_dropped_counted a, w)
     else
       (case enough_headroom n s w of
          (None, w) \<Rightarrow> Some (upd_priv i tx_dropped_counted a, w)
        | (Some s, w) \<Rightarrow>
            (let (s, w) = prepare_packet n q wifi_status check_tdls i priv s a w in mwifiex_queue_tx_pkt q i s a w))
   }"

section \<open>The report of an acknowledgement\<close>

text \<open>
  The event has the number at byte 1 and the status at byte 2. From a management frame the driver's own header of ten bytes and
  the broadcast address are taken out; a frame too short for this is \<open>None\<close>.
\<close>

definition strip_mgmt :: "byte list \<Rightarrow> byte list option" where
  "strip_mgmt bs =
     (let h = 24 + 8 + 2
      in if length bs < h + 6 then None else Some (drop 10 (take h bs @ drop (h + 6) bs)))"

definition mwifiex_parse_tx_status_event ::
  "'v tx_done_scheme net_driver \<Rightarrow> nat \<Rightarrow> byte list \<Rightarrow> 'v tx_done_scheme \<Rightarrow> 'v tx_done_scheme option" where
  "mwifiex_parse_tx_status_event n i ev w = do {
     tok \<leftarrow> idx ev 1;
     status \<leftarrow> idx ev 2;
     if tok = 0 then Some w
     else
       (case ack_status_frames w i (unat tok) of
          None \<Rightarrow> Some w
        | Some s \<Rightarrow>
            (let w = w\<lparr>ack_status_frames := (ack_status_frames w)(i := (ack_status_frames w i)(unat tok := None))\<rparr>
             in if tx_flags s AND MWIFIEX_BUF_FLAG_EAPOL_TX_STATUS \<noteq> 0
                then Some (skb_complete_wifi_ack n s (status = 0) w)
                else do {
                  frame \<leftarrow> strip_mgmt (skb_data s);
                  Some (cfg80211_mgmt_tx_status n frame (status = 0) w)
                }))
   }"

section \<open>Stopping and waking the kernel's queues\<close>

text \<open>
  A queue of the kernel is stopped when 400 of its packets are in the driver and woken below 380. What the driver does besides has the
  counters and queues as they were, \<open>same_flow\<close>.
\<close>

definition queue_ok :: "int \<Rightarrow> bool \<Rightarrow> bool" where
  "queue_ok n b \<longleftrightarrow> (if b then LOW_TX_PENDING \<le> n \<and> n \<le> MAX_TX_PENDING else n < MAX_TX_PENDING)"

definition flow_ok :: "'v tx_done_scheme \<Rightarrow> bool" where
  "flow_ok w \<longleftrightarrow> (\<forall>i. length (wmm_tx_pending w i) = 4 \<and> length (stopped w i) = 4 \<and>
     (\<forall>k < 4. queue_ok (wmm_tx_pending w i ! k) (stopped w i ! k)))"

definition same_flow :: "'v tx_done_scheme \<Rightarrow> 'v tx_done_scheme \<Rightarrow> bool" where
  "same_flow w w' \<longleftrightarrow> wmm_tx_pending w' = wmm_tx_pending w \<and> stopped w' = stopped w"

lemma same_flow_refl [simp]: "same_flow w w"
  by (simp add: same_flow_def)

lemma same_flow_trans [trans]: "same_flow w w' \<Longrightarrow> same_flow w' w'' \<Longrightarrow> same_flow w w''"
  by (simp add: same_flow_def)

lemma flow_ok_same: "flow_ok w \<Longrightarrow> same_flow w w' \<Longrightarrow> flow_ok w'"
  by (simp add: flow_ok_def same_flow_def)

lemma flow_simps [simp]:
  "wmm_tx_pending (upd_pending i k n w) = (wmm_tx_pending w)(i := (wmm_tx_pending w i)[k := n])"
  "stopped (upd_pending i k n w) = stopped w"
  "wmm_tx_pending (set_stopped i k b w) = wmm_tx_pending w"
  "stopped (set_stopped i k b w) = (stopped w)(i := (stopped w i)[k := b])"
  by (simp_all add: upd_pending_def set_stopped_def)

lemma flow_ok_change:
  assumes "flow_ok w" "k < 4" "queue_ok n b"
    and "wmm_tx_pending w' = (wmm_tx_pending w)(i := (wmm_tx_pending w i)[k := n])"
    and "stopped w' = (stopped w)(i := (stopped w i)[k := b])"
  shows "flow_ok w'"
  using assms by (auto simp: flow_ok_def nth_list_update)

lemma flow_ok_pending:
  assumes "flow_ok w" "k < 4" "queue_ok n (stopped w i ! k)"
    and "wmm_tx_pending w' = (wmm_tx_pending w)(i := (wmm_tx_pending w i)[k := n])" "stopped w' = stopped w"
  shows "flow_ok w'"
  using flow_ok_change[OF assms(1-4)] assms(5) by simp

lemma flow_okD: "flow_ok w \<Longrightarrow> k < 4 \<Longrightarrow> queue_ok (wmm_tx_pending w i ! k) (stopped w i ! k)"
  by (simp add: flow_ok_def)

lemma wmm_queue_less: "idx mwifiex_1d_to_wmm_queue n = Some k \<Longrightarrow> k < 4"
proof -
  assume "idx mwifiex_1d_to_wmm_queue n = Some k"
  then have "k \<in> set mwifiex_1d_to_wmm_queue"
    by (auto simp: idx_Some_iff)
  then show ?thesis
    by (auto simp: mwifiex_1d_to_wmm_queue_def)
qed

lemma write_data_complete_flow:
  assumes "mwifiex_write_data_complete a s aggr status w = Some w'" "flow_ok w"
  shows "flow_ok w'"
proof (cases "same_flow w w'")
  case False
  then obtain i k where k: "idx mwifiex_1d_to_wmm_queue (unat (priority s)) = Some k"
    and p: "wmm_tx_pending w' = (wmm_tx_pending w)(i := (wmm_tx_pending w i)[k := wmm_tx_pending w i ! k - 1])"
    and b: "stopped w' = (if wmm_tx_pending w i ! k - 1 < LOW_TX_PENDING \<and> stopped w i ! k
      then (stopped w)(i := (stopped w i)[k := False]) else stopped w)"
    using assms(1)
    by (auto simp: mwifiex_write_data_complete_def Let_def same_flow_def split: option.splits if_splits bind_splits)
  have ok: "queue_ok (wmm_tx_pending w i ! k) (stopped w i ! k)"
    using assms(2) wmm_queue_less[OF k] by (rule flow_okD)
  show ?thesis
  proof (cases "wmm_tx_pending w i ! k - 1 < LOW_TX_PENDING \<and> stopped w i ! k")
    case True
    then show ?thesis
      using flow_ok_change[OF assms(2) wmm_queue_less[OF k] _ p, of False] ok b
      by (simp add: queue_ok_def LOW_TX_PENDING_def MAX_TX_PENDING_def)
  next
    case False
    then show ?thesis
      using flow_ok_pending[OF assms(2) wmm_queue_less[OF k] _ p] ok b
      by (auto simp: queue_ok_def split: if_splits)
  qed
qed (use assms(2) flow_ok_same in blast)

text \<open>
  The services with the driver's own completion of packets, and what is relied on: allocating memory, the clock, cloning, making room
  and looking for direct links do not touch the kernel's queues.
\<close>

definition completing :: "tx_adapter \<Rightarrow> 'v tx_done_scheme queue_driver \<Rightarrow> 'v tx_done_scheme queue_driver" where
  "completing a q = q\<lparr>write_data_complete := \<lambda>s aggr status w.
     (case mwifiex_write_data_complete a s aggr status w of None \<Rightarrow> w | Some w \<Rightarrow> w)\<rparr>"

definition queue_services_keep :: "'v tx_done_scheme queue_driver \<Rightarrow> bool" where
  "queue_services_keep q \<longleftrightarrow> (\<forall>w. same_flow w (snd (alloc_node q w)) \<and> same_flow w (snd (ktime_get_ns q w)))"

definition net_services_keep :: "'v tx_done_scheme net_driver \<Rightarrow> bool" where
  "net_services_keep n \<longleftrightarrow> (\<forall>w m s. same_flow w (snd (skb_realloc_headroom n m w)) \<and> same_flow w (snd (skb_clone n w)) \<and>
     same_flow w (mwifiex_tdls_check_tx n s w))"

lemma completing_simps [simp]:
  "drv (completing a q) = drv q" "alloc_node (completing a q) = alloc_node q" "ktime_get_ns (completing a q) = ktime_get_ns q"
  by (simp_all add: completing_def)

lemma completing_keeps [simp]: "queue_services_keep (completing a q) = queue_services_keep q"
  by (simp add: queue_services_keep_def)

lemma completing_flow: "flow_ok w \<Longrightarrow> flow_ok (write_data_complete (completing a q) s aggr status w)"
  by (auto simp: completing_def split: option.splits intro: write_data_complete_flow)

lemma queue_services_keepD:
  assumes "queue_services_keep q"
  shows "alloc_node q w = (r, w') \<Longrightarrow> same_flow w w'" "ktime_get_ns q w = (ns, w') \<Longrightarrow> same_flow w w'"
  using assms unfolding queue_services_keep_def by (metis snd_conv)+

lemma net_services_keepD:
  assumes "net_services_keep n"
  shows "skb_realloc_headroom n m w = (r, w') \<Longrightarrow> same_flow w w'" "skb_clone n w = (ok, w') \<Longrightarrow> same_flow w w'"
    "same_flow w (mwifiex_tdls_check_tx n s w)"
  using assms unfolding net_services_keep_def by (metis snd_conv)+

lemma new_node_flow: "queue_services_keep q \<Longrightarrow> new_node q priv mac r w = (r', w') \<Longrightarrow> same_flow w w'"
  by (auto simp: new_node_def mwifiex_get_random_ba_threshold_def Let_def split: prod.splits if_splits
      dest: queue_services_keepD)

lemma ralist_add_flow:
  assumes "queue_services_keep q"
  shows "ralist_add q is mac priv w = (priv', w') \<Longrightarrow> same_flow w w'"
proof (induction "is" arbitrary: priv w)
  case (Cons i js)
  obtain p w1 where p: "alloc_node q w = (p, w1)" by fastforce
  have w1: "same_flow w w1"
    using queue_services_keepD(1)[OF assms p] .
  show ?case
  proof (cases p)
    case None
    then show ?thesis
      using Cons.prems p w1 by (simp add: mwifiex_wmm_allocate_ralist_node_def)
  next
    case (Some n)
    then obtain r where r: "mwifiex_wmm_allocate_ralist_node q mac w = (Some r, w1)"
      using p by (simp add: mwifiex_wmm_allocate_ralist_node_def)
    obtain r' w2 where n: "new_node q priv mac r w1 = (r', w2)" by fastforce
    show ?thesis
      using Cons.IH[of "priv\<lparr>ra_lists := (ra_lists priv)[i := ra_lists priv ! i @ [r']]\<rparr>" w2] Cons.prems
        new_node_flow[OF assms n] w1
      by (auto simp: r n intro: same_flow_trans)
  qed
qed simp

lemma find_target_flow:
  assumes "queue_services_keep q" "find_target q s st t priv w = Some (tgt, s', priv', w')"
  shows "same_flow w w'"
  using assms(2)
  by (auto simp: find_target_def mwifiex_wmm_get_queue_raptr_def mwifiex_ralist_add_def Let_def split: if_splits bind_splits prod.splits
      dest: ralist_add_flow[OF assms(1)])

lemma add_buf_txqueue_flow:
  assumes keep: "queue_services_keep q" and ok: "flow_ok w"
    and r: "mwifiex_wmm_add_buf_txqueue (completing a q) s priv w = Some (priv', w')"
  shows "flow_ok w'"
proof -
  have T: "flow_ok w''" if "find_target (completing a q) s st t priv w = Some (tgt, s', p, w'')" for st t tgt s' p w''
    using flow_ok_same[OF ok find_target_flow[OF _ that]] keep by simp
  show ?thesis
    using r ok by (auto simp: mwifiex_wmm_add_buf_txqueue_def Let_def split: if_splits bind_splits target.splits option.splits
        dest!: T intro: completing_flow)
qed

lemma queue_tx_pkt_flow:
  assumes keep: "queue_services_keep q" and ok: "flow_ok w"
    and k: "idx mwifiex_1d_to_wmm_queue (unat (priority s)) = Some k" "\<not> stopped w i ! k"
    and r: "mwifiex_queue_tx_pkt (completing a q) i s a w = Some (a', w')"
  shows "flow_ok w'"
proof -
  let ?n = "wmm_tx_pending w i ! k + 1"
  define w1 where "w1 = (let w1 = upd_pending i k ?n w in if MAX_TX_PENDING \<le> ?n then set_stopped i k True w1 else w1)"
  have n: "?n \<le> MAX_TX_PENDING"
    using flow_okD[OF ok wmm_queue_less[OF k(1)], of i] k(2) by (simp add: queue_ok_def)
  have w1: "flow_ok w1"
  proof (cases "MAX_TX_PENDING \<le> ?n")
    case True
    then show ?thesis
      using n by (intro flow_ok_change[OF ok wmm_queue_less[OF k(1)], of ?n True])
        (auto simp: w1_def queue_ok_def LOW_TX_PENDING_def MAX_TX_PENDING_def)
  next
    case False
    then show ?thesis
      using k(2) by (intro flow_ok_pending[OF ok wmm_queue_less[OF k(1)], of ?n])
        (auto simp: w1_def queue_ok_def)
  qed
  then have "flow_ok (w1\<lparr>tx_pending := tx_pending w1 + 1\<rparr>)"
    by (rule flow_ok_same) (simp add: same_flow_def)
  moreover have "w' = w1\<lparr>tx_pending := tx_pending w1 + 1\<rparr> \<or> (\<exists>priv priv'.
      mwifiex_wmm_add_buf_txqueue (completing a q) s priv (w1\<lparr>tx_pending := tx_pending w1 + 1\<rparr>) = Some (priv', w'))"
    using r k by (auto simp: mwifiex_queue_tx_pkt_def w1_def Let_def split: if_splits bind_splits)
  ultimately show ?thesis
    using add_buf_txqueue_flow[OF keep] by blast
qed

lemma enough_headroom_flow:
  assumes "net_services_keep n" "enough_headroom n s w = (r, w')"
  shows "same_flow w w'" "r = Some s' \<Longrightarrow> priority s' = priority s"
  using assms(2)
  by (auto simp: enough_headroom_def Let_def split: if_splits prod.splits dest: net_services_keepD(1)[OF assms(1)])

lemma clone_flow:
  assumes "mwifiex_clone_skb_for_tx_status c i s f w = (s', w')"
  shows "same_flow w w'" "priority s' = priority s"
  using assms by (auto simp: mwifiex_clone_skb_for_tx_status_def same_flow_def Let_def split: option.splits if_splits)

lemma prepare_packet_flow:
  assumes keep: "net_services_keep n" and r: "prepare_packet n q ws ct i priv s a w = (s', w')"
  shows "same_flow w w'" "priority s' = priority s"
proof -
  let ?c = "\<not> bit (skb_data (note_packet priv s) ! 0) 0 \<and> ws \<and> fw_api_ver a = MWIFIEX_FW_V15"
  obtain ok w0 where c: "skb_clone n w = (ok, w0)" by fastforce
  obtain s1 w1 where e: "(if ?c then mwifiex_clone_skb_for_tx_status ok i (note_packet priv s)
      MWIFIEX_BUF_FLAG_EAPOL_TX_STATUS w0 else (note_packet priv s, w)) = (s1, w1)" by fastforce
  have "same_flow w w1 \<and> priority s1 = priority s"
  proof (cases ?c)
    case True
    from clone_flow[OF e[unfolded if_P[OF True]]] show ?thesis
      using net_services_keepD(2)[OF keep c] by (auto simp: note_packet_def dest: same_flow_trans)
  next
    case False
    then show ?thesis
      using e by (auto simp: note_packet_def)
  qed
  moreover have "same_flow w1 w' \<and> priority s' = priority s1"
    using r e c net_services_keepD(3)[OF keep] by (auto simp: prepare_packet_def Let_def split: if_splits)
  ultimately show "same_flow w w'" "priority s' = priority s"
    by (auto dest: same_flow_trans)
qed

lemma hard_start_xmit_flow:
  assumes keep: "net_services_keep n" "queue_services_keep q" and ok: "flow_ok w"
    and k: "idx mwifiex_1d_to_wmm_queue (unat (priority s)) = Some k" "\<not> stopped w i ! k"
    and r: "mwifiex_hard_start_xmit n (completing a q) ws ct i s a w = Some (a', w')"
  shows "flow_ok w'"
proof -
  obtain h w1 where h: "enough_headroom n s w = (h, w1)" by fastforce
  note w1 = enough_headroom_flow(1)[OF keep(1) h]
  obtain priv where priv: "get_priv a i = Some priv"
    using r by (auto simp: mwifiex_hard_start_xmit_def split: bind_splits)
  consider "w' = w" | "w' = w1" | s1 where "h = Some s1"
    "(let (s, w) = prepare_packet n (completing a q) ws ct i priv s1 a w1 in mwifiex_queue_tx_pkt (completing a q) i s a w) = Some (a', w')"
    using r h priv by (auto simp: mwifiex_hard_start_xmit_def split: if_splits option.splits)
  then show ?thesis
  proof cases
    case 3
    obtain s2 w2 where p: "prepare_packet n (completing a q) ws ct i priv s1 a w1 = (s2, w2)" by fastforce
    have "same_flow w w2"
      using w1 prepare_packet_flow(1)[OF keep(1) p] by (rule same_flow_trans)
    moreover have "priority s2 = priority s"
      using prepare_packet_flow(2)[OF keep(1) p] enough_headroom_flow(2)[OF keep(1) h 3(1)] by simp
    ultimately show ?thesis
      using queue_tx_pkt_flow[OF keep(2), of w2 s2 k i a a' w'] flow_ok_same[OF ok] k 3(2) p
      by (simp add: same_flow_def)
  qed (use ok w1 flow_ok_same in blast)+
qed

text \<open>
  Steps: the kernel hands in a packet on a queue that is not stopped, as the kernel does; a packet is given back; anything else that leaves the
  counters and queues alone. Packets that the access point passes on and management frames are queued by other
  ways and are not among the steps.
\<close>

inductive flow_step ::
  "'v tx_done_scheme net_driver \<Rightarrow> 'v tx_done_scheme queue_driver \<Rightarrow> tx_adapter \<times> 'v tx_done_scheme \<Rightarrow>
     tx_adapter \<times> 'v tx_done_scheme \<Rightarrow> bool"
  for n q where
  hand_in: "\<lbrakk>idx mwifiex_1d_to_wmm_queue (unat (priority s)) = Some k; \<not> stopped w i ! k;
    mwifiex_hard_start_xmit n (completing a q) ws ct i s a w = Some (a', w')\<rbrakk> \<Longrightarrow> flow_step n q (a, w) (a', w')"
| give_back: "mwifiex_write_data_complete a s aggr status w = Some w' \<Longrightarrow> flow_step n q (a, w) (a, w')"
| other: "same_flow w w' \<Longrightarrow> flow_step n q (a, w) (a', w')"

inductive_cases flow_stepE: "flow_step n q (a, w) (a', w')"

lemma flow_steps_ok:
  assumes "net_services_keep n" "queue_services_keep q" "(flow_step n q)\<^sup>*\<^sup>* x y" "flow_ok (snd x)"
  shows "flow_ok (snd y)"
  using assms(3,4)
proof (induction rule: rtranclp_induct)
  case (step y z)
  show ?case
    using step.hyps(2) step.IH[OF step.prems]
    by (cases rule: flow_step.cases)
      (auto intro: hard_start_xmit_flow[OF assms(1,2)] write_data_complete_flow flow_ok_same)
qed

text \<open>
  C17: never are more than 400 packets of a queue of the kernel counted in the driver; a stopped queue has at least 380, so
  it is woken before it runs dry, and one that is not stopped has room.
\<close>

theorem kernel_queues_bounded:
  assumes "(flow_step n q)\<^sup>*\<^sup>* (a, w) (a', w')" "flow_ok w" "net_services_keep n" "queue_services_keep q" "k < 4"
  shows "wmm_tx_pending w' i ! k \<le> 400 \<and>
    (if stopped w' i ! k then 380 \<le> wmm_tx_pending w' i ! k else wmm_tx_pending w' i ! k < 400)"
  using flow_okD[OF flow_steps_ok[OF assms(3,4,1), simplified] assms(5), of i] assms(2)
  by (auto simp: queue_ok_def LOW_TX_PENDING_def MAX_TX_PENDING_def split: if_splits)

definition idle :: tx_done where
  "idle = \<lparr>pending_bridged_pkts = 0, tx_pending = 0, wmm_tx_pending = (\<lambda>_. [0, 0, 0, 0]),
     stopped = (\<lambda>_. [False, False, False, False]),
     tx_counts_of = (\<lambda>_. \<lparr>tx_packets = 0, tx_bytes = 0, tx_errors = 0, tx_timeout_cnt = 0\<rparr>), ack_status_frames = (\<lambda>_ _. None)\<rparr>"

definition demo_net :: "'w net_driver" where
  "demo_net = \<lparr>skb_realloc_headroom = (\<lambda>n w. (None, w)), skb_clone = (\<lambda>w. (True, w)), ktime_get_real = (\<lambda>w. 0),
     mwifiex_tdls_check_tx = (\<lambda>s w. w), skb_complete_wifi_ack = (\<lambda>s ok w. w), cfg80211_mgmt_tx_status = (\<lambda>f ok w. w)\<rparr>"

definition no_upper :: "'w upper" where
  "no_upper = \<lparr>amsdu_to_8023s = (\<lambda>p. [p]), tdls_enabled = False, process_tdls_action_frame = (\<lambda>_ _ w. w),
     uap_recv_packet = (\<lambda>p w. (0, w)), recv_packet = (\<lambda>p w. (0, w)), handle_uap_rx_forward = (\<lambda>p w. (0, w)),
     process_rx_packet = (\<lambda>p w. (0, w)), bss_role = 0\<rparr>"

definition demo_queues :: "'w queue_driver" where
  "demo_queues = \<lparr>drv = \<lparr>up = no_upper, mwifiex_send_cmd = (\<lambda>c a b w. (0, w)), kzalloc = (\<lambda>w. (True, w)), flush_workqueue = (\<lambda>w. w)\<rparr>,
     alloc_node = (\<lambda>w. (Some 0, w)), ktime_get_ns = (\<lambda>w. (0, w)), write_data_complete = (\<lambda>s aggr st w. w)\<rparr>"

theorem kernel_queues_bounded_witness:
  "\<exists>a' w'. mwifiex_hard_start_xmit demo_net (completing (demo_tx_adapter [fresh_priv\<lparr>mode := 3\<rparr>]) demo_queues) False False 0
      (sample_packet 5) (demo_tx_adapter [fresh_priv\<lparr>mode := 3\<rparr>]) idle = Some (a', w') \<and>
    wmm_tx_pending w' 0 = [0, 1, 0, 0] \<and> wmm_tx_pending w' 0 ! 1 \<le> 400"
proof -
  let ?a = "demo_tx_adapter [fresh_priv\<lparr>mode := 3\<rparr>]"
  let ?x = "mwifiex_hard_start_xmit demo_net (completing ?a demo_queues) False False 0 (sample_packet 5) ?a idle"
  have "map_option (\<lambda>(a, w). wmm_tx_pending w 0) ?x = Some [0, 1, 0, 0]"
    by code_simp
  then obtain a' w' where x: "?x = Some (a', w')" "wmm_tx_pending w' 0 = [0, 1, 0, 0]"
    by auto
  have "flow_step demo_net demo_queues (?a, idle) (a', w')"
    by (rule hand_in[OF _ _ x(1), of 1]) (simp_all add: idle_def sample_packet_def mwifiex_1d_to_wmm_queue_def idx_def)
  then have "(flow_step demo_net demo_queues)\<^sup>*\<^sup>* (?a, idle) (a', w')"
    by blast
  moreover have "flow_ok idle"
    by (auto simp: flow_ok_def idle_def queue_ok_def MAX_TX_PENDING_def less_Suc_eq eval_nat_numeral)
  moreover have "net_services_keep (demo_net :: tx_done net_driver)" "queue_services_keep (demo_queues :: tx_done queue_driver)"
    by (simp_all add: net_services_keep_def queue_services_keep_def demo_net_def demo_queues_def)
  ultimately have "wmm_tx_pending w' 0 ! 1 \<le> 400"
    using kernel_queues_bounded[of demo_net demo_queues ?a idle a' w' 1 0] by simp
  then show ?thesis
    using x by blast
qed

end
