(* ===== verification/Uap_Rx.thy ===== *)
theory Uap_Rx
  imports Rx_Path Tx_Done
begin

text \<open>
  Received packets of an access point in the mwifiex driver, \<open>doc/mwifiex/uap_txrx.c\<close>, and where the two kinds of interface part,
  \<open>mwifiex_handle_rx_packet\<close> of \<open>txrx.c\<close>. The access point passes packets of one station on to the others: they go into its own
  transmit queues with a mark, \<open>MWIFIEX_BUF_FLAG_BRIDGED_PKT\<close>, and are counted. When too many wait, marked packets are deleted
  from the queues of one traffic identifier. Waking the main work and the accounting of buffer sizes are not modelled.
\<close>

section \<open>Constants and services\<close>

definition MWIFIEX_BRIDGED_PKTS_THR_HIGH :: int where "MWIFIEX_BRIDGED_PKTS_THR_HIGH = 1024"
definition MWIFIEX_BRIDGED_PKTS_THR_LOW :: int where "MWIFIEX_BRIDGED_PKTS_THR_LOW = 128"

text \<open>The services of an interface; copying a packet gives the address of the copy or fails.\<close>

record 'w uap_driver =
  rxd :: "'w rx_driver"
  queues :: "'w queue_driver"
  netd :: "'w net_driver"
  skb_copy :: "'w \<Rightarrow> nat option \<times> 'w"

section \<open>Deleting passed on packets\<close>

definition is_bridged :: "skb \<Rightarrow> bool" where
  "is_bridged s \<longleftrightarrow> tx_flags s AND MWIFIEX_BUF_FLAG_BRIDGED_PKT \<noteq> 0"

text \<open>One queue: what is left, and how many packets were deleted. The walk ends at the lower threshold.\<close>

fun purge_bridged ::
  "tx_adapter \<Rightarrow> skb list \<Rightarrow> 'v tx_done_scheme \<Rightarrow> (skb list \<times> nat \<times> 'v tx_done_scheme) option" where
  "purge_bridged a [] w = Some ([], 0, w)"
| "purge_bridged a (s # ss) w = do {
     w \<leftarrow> (if is_bridged s then mwifiex_write_data_complete a s False (-1) w else Some w);
     let kept = (if is_bridged s then [] else [s]);
     let n = (if is_bridged s then 1 else 0);
     if pending_bridged_pkts w \<le> MWIFIEX_BRIDGED_PKTS_THR_LOW then Some (kept @ ss, n, w)
     else do {
       (left, m, w) \<leftarrow> purge_bridged a ss w;
       Some (kept @ left, n + m, w)
     }
   }"

text \<open>The counters after deleting \<open>n\<close> packets of a receiver; those of the receiver itself stay.\<close>

definition count_purged :: "nat \<Rightarrow> bool \<Rightarrow> nat \<Rightarrow> wmm_desc \<Rightarrow> wmm_desc" where
  "count_purged i paused n m =
     (if paused then m\<lparr>pkts_paused := (pkts_paused m)[i := pkts_paused m ! i - of_nat n]\<rparr>
      else m\<lparr>tx_pkts_queued := tx_pkts_queued m - of_nat n\<rparr>)"

text \<open>The receivers of list \<open>t\<close> at the given positions; \<open>i\<close> is the identifier whose counter is used.\<close>

definition after_purge :: "nat \<Rightarrow> nat \<Rightarrow> nat \<Rightarrow> skb list \<Rightarrow> nat \<Rightarrow> ba_priv \<Rightarrow> ba_priv" where
  "after_purge t k i left n priv =
     (upd_ra t k (\<lambda>r. r\<lparr>skb_head := left\<rparr>) priv)\<lparr>wmm := count_purged i (tx_paused (ra_lists priv ! t ! k)) n (wmm priv)\<rparr>"

primrec purge_receivers ::
  "tx_adapter \<Rightarrow> nat \<Rightarrow> nat \<Rightarrow> nat list \<Rightarrow> ba_priv \<Rightarrow> 'v tx_done_scheme \<Rightarrow> (bool \<times> ba_priv \<times> 'v tx_done_scheme) option" where
  "purge_receivers a t i [] priv w = Some (False, priv, w)"
| "purge_receivers a t i (k # ks) priv w = do {
     (left, n, w) \<leftarrow> purge_bridged a (skb_head (ra_lists priv ! t ! k)) w;
     (deleted, priv, w) \<leftarrow> purge_receivers a t i ks (after_purge t k i left n priv) w;
     Some (0 < n \<or> deleted, priv, w)
   }"

definition mwifiex_uap_del_tx_pkts_in_ralist ::
  "tx_adapter \<Rightarrow> nat \<Rightarrow> nat \<Rightarrow> ba_priv \<Rightarrow> 'v tx_done_scheme \<Rightarrow> (bool \<times> ba_priv \<times> 'v tx_done_scheme) option" where
  "mwifiex_uap_del_tx_pkts_in_ralist a t i priv w = do {
     rs \<leftarrow> idx (ra_lists priv) t;
     purge_receivers a t i [0..<length rs] priv w
   }"

text \<open>
  The list is chosen by \<open>del_list_idx\<close>, which goes on from call to call; the identifier handed down is the number of the
  round.
\<close>

primrec cleanup_rounds ::
  "tx_adapter \<Rightarrow> nat list \<Rightarrow> ba_priv \<Rightarrow> 'v tx_done_scheme \<Rightarrow> (ba_priv \<times> 'v tx_done_scheme) option" where
  "cleanup_rounds a [] priv w = Some (priv, w)"
| "cleanup_rounds a (i # is) priv w = do {
     let priv = (if del_list_idx priv = MAX_NUM_TID then priv\<lparr>del_list_idx := 0\<rparr> else priv);
     (deleted, priv, w) \<leftarrow> mwifiex_uap_del_tx_pkts_in_ralist a (del_list_idx priv) i priv w;
     let priv = priv\<lparr>del_list_idx := del_list_idx priv + 1\<rparr>;
     if deleted then Some (priv, w) else cleanup_rounds a is priv w
   }"

definition mwifiex_uap_cleanup_tx_queues ::
  "nat \<Rightarrow> tx_adapter \<Rightarrow> 'v tx_done_scheme \<Rightarrow> (tx_adapter \<times> 'v tx_done_scheme) option" where
  "mwifiex_uap_cleanup_tx_queues i a w = do {
     priv \<leftarrow> get_priv a i;
     (priv, w) \<leftarrow> cleanup_rounds a [0..<MAX_NUM_TID] priv w;
     Some (upd_priv i (\<lambda>_. priv) a, w)
   }"

section \<open>Passing a packet on\<close>

text \<open>A received packet as one to send.\<close>

definition as_tx :: "ba_priv \<Rightarrow> int \<Rightarrow> u32 \<Rightarrow> rx_skb \<Rightarrow> skb" where
  "as_tx priv now len s =
     \<lparr>skb_data = frame_of s, headroom = rx_room s, buf_at = rx_at s, priority = rx_priority s, tstamp = now,
      tx_flags = MWIFIEX_BUF_FLAG_BRIDGED_PKT, tx_bss_num = bss_num priv, tx_bss_type = bss_type priv,
      aggr_num = 0, ack_frame_id = 0, status_code = 0, pkt_len = len\<rparr>"

definition bridged_counted :: "'v tx_done_scheme \<Rightarrow> 'v tx_done_scheme" where
  "bridged_counted w = w\<lparr>tx_pending := tx_pending w + 1, pending_bridged_pkts := pending_bridged_pkts w + 1\<rparr>"

text \<open>
  The part after the header was replaced: \<open>buf\<close> and \<open>off\<close> are the old packet and the place of its header, where the addresses
  are looked up again.
\<close>

definition bridged_received :: "u64 \<Rightarrow> nat \<Rightarrow> u8 \<Rightarrow> u8 \<Rightarrow> byte list \<Rightarrow> bool \<Rightarrow> ba_priv \<Rightarrow> ba_priv" where
  "bridged_received now len rate ht h_source unicast priv =
     (let priv = upd_station h_source (\<lambda>n. let n = station_received now len n
            in n\<lparr>stats := (stats n)\<lparr>last_tx_rate := rate, last_tx_htinfo := ht\<rparr>\<rparr>) priv
      in if unicast then received_counted len priv else priv)"

definition queue_bridged ::
  "'v tx_done_scheme uap_driver \<Rightarrow> nat \<Rightarrow> byte list \<Rightarrow> nat \<Rightarrow> rx_skb \<Rightarrow> tx_adapter \<Rightarrow> 'v tx_done_scheme \<Rightarrow>
     (tx_adapter \<times> 'v tx_done_scheme) option" where
  "queue_bridged u i buf off s a w = do {
     priv \<leftarrow> get_priv a i;
     h_source \<leftarrow> load buf (off + 6) 6;
     rate \<leftarrow> idx buf 11;
     ht \<leftarrow> idx buf 14;
     d0 \<leftarrow> idx buf off;
     let priv = bridged_received (jiffies (rxd u) w) (rx_len s) rate ht h_source (\<not> bit d0 0) priv;
     let t = as_tx priv (ktime_get_real (netd u) w) (if bit d0 0 then 0 else of_nat (rx_len s)) s;
     k \<leftarrow> idx mwifiex_1d_to_wmm_queue (unat (rx_priority s));
     let w = upd_pending i k (wmm_tx_pending w i ! k + 1) w;
     (priv, w) \<leftarrow> mwifiex_wmm_add_buf_txqueue (queues u) t priv w;
     Some (upd_priv i (\<lambda>_. priv) a, bridged_counted w)
   }"

text \<open>
  The null pointer, and the old packet's header after the packet was moved to get more room in front and freed, are \<open>None\<close>.
\<close>

definition mwifiex_uap_queue_bridged_pkt ::
  "'v tx_done_scheme uap_driver \<Rightarrow> nat \<Rightarrow> rx_skb option \<Rightarrow> tx_adapter \<Rightarrow> 'v tx_done_scheme \<Rightarrow>
     (tx_adapter \<times> 'v tx_done_scheme) option" where
  "mwifiex_uap_queue_bridged_pkt u i ptr a w = do {
     s \<leftarrow> ptr;
     off \<leftarrow> get16 (rx_buf s) 4;
     if MWIFIEX_BRIDGED_PKTS_THR_HIGH \<le> pending_bridged_pkts w
     then mwifiex_uap_cleanup_tx_queues i a (kfree_skb (rxd u) (frame_of s) w)
     else do {
       (buf, hdr_chop) \<leftarrow> ethernet_header (unat off) (rx_buf s);
       let s = skb_pull hdr_chop (s\<lparr>rx_buf := buf\<rparr>);
       if length (rx_room s) < MWIFIEX_MIN_DATA_HEADER_LEN then
         (case skb_realloc_headroom (netd u) MWIFIEX_MIN_DATA_HEADER_LEN w of
            (None, w) \<Rightarrow> Some (upd_priv i tx_dropped_counted a, kfree_skb (rxd u) (frame_of s) w)
          | (Some _, w) \<Rightarrow> None)
       else queue_bridged u i buf (unat off) s a w
     }
   }"

text \<open>The packet goes to the kernel; the answer is put back into the adapter.\<close>

definition to_kernel ::
  "'v tx_done_scheme uap_driver \<Rightarrow> nat \<Rightarrow> rx_skb \<Rightarrow> tx_adapter \<Rightarrow> 'v tx_done_scheme \<Rightarrow>
     (int \<times> tx_adapter \<times> 'v tx_done_scheme) option" where
  "to_kernel u i s a w = do {
     priv \<leftarrow> get_priv a i;
     (ret, priv, w) \<leftarrow> mwifiex_process_rx_packet (rxd u) s priv w;
     Some (ret, upd_priv i (\<lambda>_. priv) a, w)
   }"

definition mwifiex_handle_uap_rx_forward ::
  "'v tx_done_scheme uap_driver \<Rightarrow> nat \<Rightarrow> rx_skb \<Rightarrow> tx_adapter \<Rightarrow> 'v tx_done_scheme \<Rightarrow>
     (int \<times> tx_adapter \<times> 'v tx_done_scheme) option" where
  "mwifiex_handle_uap_rx_forward u i s a w = do {
     priv \<leftarrow> get_priv a i;
     off \<leftarrow> get16 (rx_buf s) 4;
     if \<not> connected priv then Some (0, a, kfree_skb (rxd u) (frame_of s) w)
     else do {
       h_dest \<leftarrow> load (rx_buf s) (unat off) 6;
       if bit (h_dest ! 0) 0 then do {
         let (copy, w) = skb_copy u w;
         (a, w) \<leftarrow> mwifiex_uap_queue_bridged_pkt u i (map_option (\<lambda>at. s\<lparr>rx_at := at\<rparr>) copy) a w;
         to_kernel u i s a w
       } else if mwifiex_get_sta_entry priv h_dest \<noteq> None then do {
         (a, w) \<leftarrow> mwifiex_uap_queue_bridged_pkt u i (Some s) a w;
         Some (0, a, w)
       } else to_kernel u i s a w
     }
   }"

section \<open>Packets out of the reordering\<close>

text \<open>A copy to pass on, with enough room in front.\<close>

definition bridged_copy ::
  "'v tx_done_scheme uap_driver \<Rightarrow> rx_skb \<Rightarrow> 'v tx_done_scheme \<Rightarrow> rx_skb option \<times> 'v tx_done_scheme" where
  "bridged_copy u s w =
     (if length (rx_room s) < MWIFIEX_MIN_DATA_HEADER_LEN
      then (let (r, w) = skb_realloc_headroom (netd u) MWIFIEX_MIN_DATA_HEADER_LEN w
            in (map_option (\<lambda>(at, room). s\<lparr>rx_at := at, rx_room := room\<rparr>) r, w))
      else (let (r, w) = skb_copy u w in (map_option (\<lambda>at. s\<lparr>rx_at := at\<rparr>) r, w)))"

definition pass_on ::
  "'v tx_done_scheme uap_driver \<Rightarrow> nat \<Rightarrow> rx_skb \<Rightarrow> tx_adapter \<Rightarrow> 'v tx_done_scheme \<Rightarrow>
     (tx_adapter \<times> 'v tx_done_scheme) option" where
  "pass_on u i s a w = do {
     priv \<leftarrow> get_priv a i;
     (case bridged_copy u s w of
        (None, w) \<Rightarrow> Some (a, w)
      | (Some c, w) \<Rightarrow> do {
          (priv, w) \<leftarrow> mwifiex_wmm_add_buf_txqueue (queues u) (as_tx priv (ktime_get_real (netd u) w) 0 c) priv w;
          let a = upd_priv i (\<lambda>_. priv) a;
          let w = bridged_counted w;
          if MWIFIEX_BRIDGED_PKTS_THR_HIGH \<le> pending_bridged_pkts w then mwifiex_uap_cleanup_tx_queues i a w
          else Some (a, w)
        })
   }"

definition mwifiex_uap_recv_packet ::
  "'v tx_done_scheme uap_driver \<Rightarrow> nat \<Rightarrow> rx_skb option \<Rightarrow> tx_adapter \<Rightarrow> 'v tx_done_scheme \<Rightarrow>
     (int \<times> tx_adapter \<times> 'v tx_done_scheme) option" where
  "mwifiex_uap_recv_packet u i ptr a w =
     (case ptr of
        None \<Rightarrow> Some (-1, a, w)
      | Some s \<Rightarrow> do {
          h_dest \<leftarrow> load (rx_buf s) 0 6;
          h_source \<leftarrow> load (rx_buf s) 6 6;
          let a = upd_priv i (upd_station h_source (station_received (jiffies (rxd u) w) (rx_len s))) a;
          priv \<leftarrow> get_priv a i;
          let known = (mwifiex_get_sta_entry priv h_dest \<noteq> None);
          (a, w) \<leftarrow> (if bit (h_dest ! 0) 0 \<or> known then pass_on u i s a w else Some (a, w));
          if known then Some (0, a, w) else Some (0, a, netif_rx (rxd u) (frame_of s) w)
        })"

section \<open>Packets from the chip\<close>

text \<open>The sender's address is read before the lengths are checked.\<close>

definition mwifiex_process_uap_rx_packet ::
  "'v tx_done_scheme uap_driver \<Rightarrow> nat \<Rightarrow> rx_skb \<Rightarrow> tx_adapter \<Rightarrow> 'v tx_done_scheme \<Rightarrow>
     (int \<times> tx_adapter \<times> 'v tx_done_scheme) option" where
  "mwifiex_process_uap_rx_packet u i s a w = do {
     priv \<leftarrow> get_priv a i;
     type \<leftarrow> get16 (rx_buf s) 6;
     off \<leftarrow> get16 (rx_buf s) 4;
     ta \<leftarrow> load (rx_buf s) (unat off + 6) 6;
     len \<leftarrow> get16 (rx_buf s) 2;
     prio \<leftarrow> idx (rx_buf s) 10;
     seq \<leftarrow> get16 (rx_buf s) 8;
     if uint off + uint len > uint (of_nat (rx_len s) :: u16)
     then Some (0, upd_priv i (upd_station ta (\<lambda>n. n\<lparr>stats := (stats n)\<lparr>tx_failed := tx_failed (stats n) + 1\<rparr>\<rparr>) \<circ>
            drop_counted) a, kfree_skb (rxd u) (frame_of s) w)
     else if type = ucast PKT_TYPE_MGMT then do {
       (ret, w) \<leftarrow> mwifiex_process_mgmt_packet (rxd u) s priv w;
       Some (ret, a, kfree_skb (rxd u) (frame_of s) w)
     } else do {
       let priv = (if type \<noteq> ucast PKT_TYPE_BAR \<and> unat prio < MAX_NUM_TID
             then upd_station ta (\<lambda>n. n\<lparr>sta_rx_seq := (sta_rx_seq n)[unat prio := seq]\<rparr>) priv else priv);
       let a = upd_priv i (\<lambda>_. priv) a;
       if \<not> ap_11n_enabled priv \<or>
          mwifiex_11n_get_rx_reorder_tbl priv (uint prio) ta = None \<and> type \<noteq> ucast PKT_TYPE_AMSDU
       then mwifiex_handle_uap_rx_forward u i s a w
       else do {
         r \<leftarrow> mwifiex_11n_rx_reorder_pkt (rdrv (rxd u)) seq (ucast prio) ta (ucast type) (Some (frame_of s)) priv w;
         let (ret, priv, w) = after_reorder (rxd u) type s r;
         Some (ret, upd_priv i (\<lambda>_. priv) a, w)
       }
     }
   }"

text \<open>The interface of a packet: the one named in the descriptor, or the first that exists.\<close>

definition mwifiex_get_priv_any :: "tx_adapter \<Rightarrow> nat option" where
  "mwifiex_get_priv_any a = first_index (\<lambda>p. p \<noteq> None) (privs a)"

definition rx_interface :: "tx_adapter \<Rightarrow> u8 \<Rightarrow> u8 \<Rightarrow> nat option" where
  "rx_interface a num type =
     (case mwifiex_get_priv_by_id a (num AND BSS_NUM_MASK) type of
        None \<Rightarrow> mwifiex_get_priv_any a
      | Some i \<Rightarrow> Some i)"

definition mwifiex_handle_rx_packet ::
  "(nat \<Rightarrow> 'v tx_done_scheme uap_driver) \<Rightarrow> rx_skb \<Rightarrow> tx_adapter \<Rightarrow> 'v tx_done_scheme \<Rightarrow>
     (int \<times> tx_adapter \<times> 'v tx_done_scheme) option" where
  "mwifiex_handle_rx_packet us s a w = do {
     type \<leftarrow> idx (rx_buf s) 0;
     num \<leftarrow> idx (rx_buf s) 1;
     (case rx_interface a num type of
        None \<Rightarrow> Some (-1, a, kfree_skb (rxd (us 0)) (frame_of s) w)
      | Some i \<Rightarrow>
          if bss_role (up (rdrv (rxd (us i)))) = MWIFIEX_BSS_ROLE_UAP
          then mwifiex_process_uap_rx_packet (us i) i s a w
          else do {
            priv \<leftarrow> get_priv a i;
            (ret, priv, w) \<leftarrow> mwifiex_process_sta_rx_packet (rxd (us i)) s priv w;
            Some (ret, upd_priv i (\<lambda>_. priv) a, w)
          })
   }"

end
