(* ===== verification/Uap_Props.thy ===== *)
theory Uap_Props
  imports Uap_Rx Wmm_Inv
begin

text \<open>
  What the access point's receive path does with packets and counters: the packet that is passed on is the frame the sender made,
  and deleting such packets when too many wait leaves the receivers' own counters behind.
\<close>

section \<open>Deleting passed on packets\<close>

text \<open>How far the counter of an interface is from the number of packets that can be sent, and a receiver's own from its queue.\<close>

definition gap :: "ba_priv \<Rightarrow> u32" where
  "gap priv = tx_pkts_queued (wmm priv) - queue_cnt priv"

definition drift :: "ra_list_tbl \<Rightarrow> u32" where
  "drift r = (if tx_paused r then 0 else ucast (total_pkt_count r) - of_nat (length (skb_head r)))"

definition peer_drift :: "ba_priv \<Rightarrow> byte list \<Rightarrow> nat \<Rightarrow> u32" where
  "peer_drift priv mac t =
     (case first_index (\<lambda>r. ra r = mac) (ra_lists priv ! t) of None \<Rightarrow> 0 | Some k \<Rightarrow> drift (ra_lists priv ! t ! k))"

lemma gap_change:
  assumes "t < length (ra_lists priv)" "ra_lists priv' = (ra_lists priv)[t := rs]"
  shows "gap priv' + list_cnt rs + tx_pkts_queued (wmm priv) =
    gap priv + list_cnt (ra_lists priv ! t) + tx_pkts_queued (wmm priv')"
proof -
  have "queue_cnt priv' + list_cnt (ra_lists priv ! t) = queue_cnt priv + list_cnt rs"
    using sum_list_update[of t "ra_lists priv" list_cnt rs] assms by (simp add: queue_cnt_def)
  then show ?thesis
    unfolding gap_def by (simp add: algebra_simps)
qed

lemma purge_bridged_length:
  "purge_bridged a ss w = Some (left, n, w') \<Longrightarrow> length ss = length left + n"
  by (induction ss arbitrary: w left n w')
    (auto simp: Let_def split: if_splits bind_splits prod.splits)

text \<open>One receiver.\<close>

lemma after_purge_simps [simp]:
  "ra_lists (after_purge t k i left n priv) = (ra_lists priv)[t := (ra_lists priv ! t)[k := (ra_lists priv ! t ! k)\<lparr>skb_head := left\<rparr>]]"
  "wmm (after_purge t k i left n priv) = count_purged i (tx_paused (ra_lists priv ! t ! k)) n (wmm priv)"
  by (simp_all add: after_purge_def)

lemma after_purge_gap:
  assumes t: "t < length (ra_lists priv)" "k < length (ra_lists priv ! t)"
    and len: "length (skb_head (ra_lists priv ! t ! k)) = length left + n"
  shows "gap (after_purge t k i left n priv) = gap priv"
proof -
  let ?r = "ra_lists priv ! t ! k" and ?l = "list_cnt (ra_lists priv ! t)"
  let ?l' = "list_cnt ((ra_lists priv ! t)[k := ?r\<lparr>skb_head := left\<rparr>])"
  let ?p = "after_purge t k i left n priv"
  let ?c = "cnt ?r" and ?c' = "cnt (?r\<lparr>skb_head := left\<rparr>)"
  let ?n = "tx_pkts_queued (wmm priv)" and ?n' = "tx_pkts_queued (wmm ?p)"
  have A: "?l' + ?c = ?l + ?c'"
    by (rule list_cnt_update[OF t(2)])
  have B: "?n + ?c' = ?n' + ?c"
    using len by (simp add: cnt_def count_purged_def)
  have "?l' + ?n + (?c + ?c') = (?l' + ?c) + (?n + ?c')"
    by (simp only: ac_simps)
  also have "\<dots> = ?l + ?n' + (?c + ?c')"
    unfolding A B by (simp only: ac_simps)
  finally have C: "?l' + ?n = ?l + ?n'"
    by (rule add_right_imp_eq)
  have "gap ?p + ?l' + ?n = gap priv + ?l + ?n'"
    using t(1) by (rule gap_change) simp
  then have "gap ?p + (?l' + ?n) = gap priv + (?l' + ?n)"
    by (simp only: C add.assoc)
  then show ?thesis
    by (rule add_right_imp_eq)
qed

text \<open>What a walk over the receivers leaves: the same receivers, with shorter queues.\<close>

definition shortened :: "ra_list_tbl \<Rightarrow> ra_list_tbl \<Rightarrow> bool" where
  "shortened r r' \<longleftrightarrow> (\<exists>left. length left \<le> length (skb_head r) \<and> r' = r\<lparr>skb_head := left\<rparr>)"

definition purged :: "nat \<Rightarrow> ba_priv \<Rightarrow> ba_priv \<Rightarrow> bool" where
  "purged t priv priv' \<longleftrightarrow> gap priv' = gap priv \<and>
     (\<exists>rs. ra_lists priv' = (ra_lists priv)[t := rs] \<and> list_all2 shortened (ra_lists priv ! t) rs)"

lemma shortened_refl [simp]: "shortened r r"
  unfolding shortened_def by (intro exI[of _ "skb_head r"]) simp

lemma shortenedI: "length left \<le> length (skb_head r) \<Longrightarrow> shortened r (r\<lparr>skb_head := left\<rparr>)"
  by (auto simp: shortened_def)

lemma shortened_trans: "shortened r r' \<Longrightarrow> shortened r' r'' \<Longrightarrow> shortened r r''"
  by (auto simp: shortened_def[of r r'] shortened_def[of r' r''] intro!: shortenedI)

lemma purged_refl: "purged t priv priv"
  unfolding purged_def by (metis list_update_id list_all2_refl shortened_refl)

lemma purged_trans:
  assumes "purged t p q" "purged t q r" "t < length (ra_lists p)"
  shows "purged t p r"
proof -
  obtain rs rs' where "ra_lists q = (ra_lists p)[t := rs]" "list_all2 shortened (ra_lists p ! t) rs" "gap q = gap p"
    and "ra_lists r = (ra_lists q)[t := rs']" "list_all2 shortened (ra_lists q ! t) rs'" "gap r = gap q"
    using assms(1,2) by (auto simp: purged_def)
  moreover from this have "list_all2 shortened (ra_lists p ! t) rs'"
    using assms(3) list_all2_trans[of shortened shortened shortened, OF shortened_trans] by simp
  ultimately show ?thesis
    by (auto simp: purged_def)
qed

lemma after_purge_purged:
  assumes t: "t < length (ra_lists priv)" "k < length (ra_lists priv ! t)"
    and len: "length (skb_head (ra_lists priv ! t ! k)) = length left + n"
  shows "purged t priv (after_purge t k i left n priv)"
proof -
  have "shortened (ra_lists priv ! t ! k) ((ra_lists priv ! t ! k)\<lparr>skb_head := left\<rparr>)"
    using len by (intro shortenedI) simp
  then have "list_all2 shortened (ra_lists priv ! t) ((ra_lists priv ! t)[k := (ra_lists priv ! t ! k)\<lparr>skb_head := left\<rparr>])"
    using t(2) by (auto simp: list_all2_conv_all_nth nth_list_update)
  then show ?thesis
    using after_purge_gap[OF t len] by (auto simp: purged_def)
qed

lemma purged_lists:
  assumes "purged t priv priv'" "t < length (ra_lists priv)"
  shows "length (ra_lists priv') = length (ra_lists priv)" "list_all2 shortened (ra_lists priv ! t) (ra_lists priv' ! t)"
    "u \<noteq> t \<Longrightarrow> ra_lists priv' ! u = ra_lists priv ! u" "gap priv' = gap priv"
  using assms by (auto simp: purged_def)

lemma purge_receivers_purged:
  assumes "purge_receivers a t i ks priv w = Some (b, priv', w')" "t < length (ra_lists priv)"
    "\<forall>k \<in> set ks. k < length (ra_lists priv ! t)"
  shows "purged t priv priv'"
  using assms
proof (induction ks arbitrary: priv w b)
  case (Cons k ks)
  obtain left n w1 b1 where p: "purge_bridged a (skb_head (ra_lists priv ! t ! k)) w = Some (left, n, w1)"
    and r: "purge_receivers a t i ks (after_purge t k i left n priv) w1 = Some (b1, priv', w')"
    using Cons.prems(1) by (auto simp: Option.bind_eq_Some_conv)
  have one: "purged t priv (after_purge t k i left n priv)"
    using after_purge_purged[OF Cons.prems(2) _ purge_bridged_length[OF p]] Cons.prems(3) by simp
  have "purged t (after_purge t k i left n priv) priv'"
    using Cons.prems(2,3) by (intro Cons.IH[OF r]) auto
  then show ?case
    by (rule purged_trans[OF one _ Cons.prems(2)])
qed (simp add: purged_refl)

text \<open>A walk that has deleted something has made a queue shorter.\<close>

lemma purge_receivers_deleted:
  assumes "purge_receivers a t i ks priv w = Some (True, priv', w')" "t < length (ra_lists priv)"
    "\<forall>k \<in> set ks. k < length (ra_lists priv ! t)"
  shows "\<exists>k < length (ra_lists priv ! t). length (skb_head (ra_lists priv' ! t ! k)) < length (skb_head (ra_lists priv ! t ! k))"
  using assms
proof (induction ks arbitrary: priv w)
  case (Cons k ks)
  obtain left n w1 b1 where p: "purge_bridged a (skb_head (ra_lists priv ! t ! k)) w = Some (left, n, w1)"
    and r: "purge_receivers a t i ks (after_purge t k i left n priv) w1 = Some (b1, priv', w')" and b: "0 < n \<or> b1"
    using Cons.prems(1) by (auto simp: Option.bind_eq_Some_conv)
  note len = purge_bridged_length[OF p]
  let ?p = "after_purge t k i left n priv"
  have k: "k < length (ra_lists priv ! t)"
    using Cons.prems(3) by simp
  have one: "list_all2 shortened (ra_lists priv ! t) (ra_lists ?p ! t)"
    using purged_lists(2)[OF after_purge_purged[OF Cons.prems(2) k len] Cons.prems(2)] .
  have more: "list_all2 shortened (ra_lists ?p ! t) (ra_lists priv' ! t)"
    using purged_lists(2)[OF purge_receivers_purged[OF r]] Cons.prems(2,3) by simp
  show ?case
  proof (cases "0 < n")
    case True
    have "shortened (ra_lists ?p ! t ! k) (ra_lists priv' ! t ! k)"
      using list_all2_nthD[OF more, of k] k Cons.prems(2) by simp
    then have "length (skb_head (ra_lists priv' ! t ! k)) < length (skb_head (ra_lists priv ! t ! k))"
      using True len k Cons.prems(2) by (auto simp: shortened_def)
    then show ?thesis
      using k by blast
  next
    case False
    then obtain j where j: "j < length (ra_lists ?p ! t)" "length (skb_head (ra_lists priv' ! t ! j)) < length (skb_head (ra_lists ?p ! t ! j))"
      using Cons.IH[of ?p w1] r b Cons.prems(2,3) by auto
    moreover have "shortened (ra_lists priv ! t ! j) (ra_lists ?p ! t ! j)"
      using list_all2_nthD2[OF one j(1)] .
    ultimately show ?thesis
      using list_all2_lengthD[OF one] by (auto simp: shortened_def)
  qed
qed simp

section \<open>Deleting a peer afterwards\<close>

text \<open>Deleting a peer moves the gap by what its receivers' own counters are wrong.\<close>

lemma cnt_drift: "cnt r + drift r = (if tx_paused r then 0 else ucast (total_pkt_count r))"
  by (simp add: cnt_def drift_def)

lemma del_peer_gap:
  assumes "del_peer q mac ts priv w = Some (priv', w')" "distinct ts" "\<forall>t \<in> set ts. t < 8" "length (ra_lists priv) = 8"
  shows "gap priv' + sum_list (map (peer_drift priv mac) ts) = gap priv"
  using assms
proof (induction ts arbitrary: priv w)
  case (Cons t ts)
  have t: "t < length (ra_lists priv)" "unat (of_nat t :: u8) = t"
    using Cons.prems(3,4) by (simp_all add: unat_of_nat)
  have ptr: "mwifiex_wmm_get_ralist_node priv (of_nat t) mac = Some (first_index (\<lambda>r. ra r = mac) (ra_lists priv ! t))"
    using t by (simp add: mwifiex_wmm_get_ralist_node_def idx_def)
  show ?case
  proof (cases "first_index (\<lambda>r. ra r = mac) (ra_lists priv ! t)")
    case None
    then have "gap priv' + sum_list (map (peer_drift priv mac) ts) = gap priv"
      using Cons.prems ptr by (intro Cons.IH[of priv w]) (simp_all del: first_index_None)
    then show ?thesis
      using None by (simp add: peer_drift_def[of priv mac t] del: first_index_None)
  next
    case (Some i)
    let ?r = "ra_lists priv ! t ! i"
    have i: "i < length (ra_lists priv ! t)"
      using Some by (simp add: first_index_Some)
    obtain p w1 where p: "del_peer q mac ts p w1 = Some (priv', w')"
      and lists: "ra_lists p = (ra_lists priv)[t := remove_at i (ra_lists priv ! t)]"
      and m: "tx_pkts_queued (wmm p) + (cnt ?r + drift ?r) = tx_pkts_queued (wmm priv)"
      using Cons.prems(1) ptr Some unfolding cnt_drift
      by (auto simp: Let_def mwifiex_wmm_del_pkts_in_ralist_node_def split: if_splits)
    have "gap p + list_cnt (remove_at i (ra_lists priv ! t)) + tx_pkts_queued (wmm priv) =
        gap priv + list_cnt (ra_lists priv ! t) + tx_pkts_queued (wmm p)"
      by (rule gap_change[OF t(1) lists])
    moreover have "list_cnt (remove_at i (ra_lists priv ! t)) + cnt ?r = list_cnt (ra_lists priv ! t)"
      using sum_list_remove[OF i, of cnt] by (simp add: list_cnt_def map_remove_at)
    ultimately have E1: "gap p + drift ?r = gap priv"
      unfolding m[symmetric] by (simp add: algebra_simps)
    have "peer_drift p mac u = peer_drift priv mac u" if "u \<in> set ts" for u
    proof -
      have "ra_lists p ! u = ra_lists priv ! u"
        using Cons.prems(2) that by (metis distinct.simps(2) lists nth_list_update_neq)
      then show ?thesis
        by (simp only: peer_drift_def)
    qed
    then have E2: "gap priv' + sum_list (map (peer_drift priv mac) ts) = gap p"
      using Cons.IH[OF p] Cons.prems(2-4) by (simp add: lists cong: map_cong)
    show ?thesis
      using E1[folded E2] Some by (simp add: peer_drift_def[of priv mac t] ac_simps)
  qed
qed simp

lemma counts_ok_drift: "counts_ok r \<Longrightarrow> length left \<le> length (skb_head r) \<Longrightarrow> \<not> tx_paused r \<Longrightarrow>
    drift (r\<lparr>skb_head := left\<rparr>) = of_nat (length (skb_head r) - length left)"
  by (simp add: drift_def counts_ok_ucast of_nat_diff)

lemma counts_ok_no_drift: "counts_ok r \<Longrightarrow> drift r = 0"
  by (simp add: drift_def counts_ok_ucast)

text \<open>
  Deleting passed on packets forgets the receivers' own counters. The counter of the interface is right afterwards, but
  when a peer whose packets were deleted leaves, its own counter is taken off: these packets are counted off
  twice. The interface then counts fewer packets than it has, and with none left nearly $2^{32}$.
\<close>

theorem purged_packets_counted_twice:
  assumes del: "mwifiex_uap_del_tx_pkts_in_ralist a t i priv w = Some (deleted, priv1, w1)"
    and ok: "counters_ok 0 priv" and t: "t < 8"
    and k: "first_index (\<lambda>r. ra r = mac) (ra_lists priv ! t) = Some k" "\<not> tx_paused (ra_lists priv ! t ! k)"
    and peer: "mwifiex_wmm_del_peer_ra_list q mac priv1 w2 = Some (priv2, w3)"
  shows "tx_pkts_queued (wmm priv1) = queue_cnt priv1 \<and>
    tx_pkts_queued (wmm priv2) +
      of_nat (length (skb_head (ra_lists priv ! t ! k)) - length (skb_head (ra_lists priv1 ! t ! k))) = queue_cnt priv2"
proof -
  let ?n = "of_nat (length (skb_head (ra_lists priv ! t ! k)) - length (skb_head (ra_lists priv1 ! t ! k))) :: u32"
  have len: "length (ra_lists priv) = 8"
    using ok by (rule counters_okD)
  have "purged t priv priv1"
    using del t len by (intro purge_receivers_purged) (auto simp: mwifiex_uap_del_tx_pkts_in_ralist_def idx_def)
  note pur = purged_lists[OF this t[folded len]]
  have co: "counts_ok r" if "u < 8" "r \<in> set (ra_lists priv ! u)" for u r
    using counters_okD(3)[OF ok that(1)] that(2) by (auto simp: list_ok_def)
  have klen: "k < length (ra_lists priv ! t)"
    using k(1) by (simp add: first_index_Some)
  have same: "first_index (\<lambda>r. ra r = mac) (ra_lists priv1 ! t) = Some k"
  proof -
    have "map ra (ra_lists priv1 ! t) = map ra (ra_lists priv ! t)"
      using pur(2) by (auto simp: list_all2_conv_all_nth shortened_def intro!: nth_equalityI)
    moreover have "first_index (\<lambda>r. ra r = mac) xs = first_index (\<lambda>m. m = mac) (map ra xs)" for xs
      by (induction xs) simp_all
    ultimately show ?thesis
      using k(1) by metis
  qed
  obtain left where left: "length left \<le> length (skb_head (ra_lists priv ! t ! k))"
    "ra_lists priv1 ! t ! k = (ra_lists priv ! t ! k)\<lparr>skb_head := left\<rparr>"
    using list_all2_nthD[OF pur(2) klen] by (auto simp: shortened_def)
  have "peer_drift priv1 mac t = ?n"
    using counts_ok_drift[OF co[OF t] left(1) k(2)] klen same left(2) by (simp add: peer_drift_def)
  moreover have "peer_drift priv1 mac u = 0" if "u < 8" "u \<noteq> t" for u
    using co[OF that(1)] by (auto simp: peer_drift_def pur(3)[OF that(2)] first_index_Some split: option.splits
        intro!: counts_ok_no_drift)
  ultimately have "map (peer_drift priv1 mac) [0..<8] = map (\<lambda>u. if u = t then ?n else 0) [0..<8]"
    by auto
  then have "sum_list (map (peer_drift priv1 mac) [0..<8]) = ?n"
    using t by (simp only:) (simp add: sum_list_distinct_conv_sum_set)
  moreover have "gap priv2 + sum_list (map (peer_drift priv1 mac) [0..<8]) = gap priv1"
    using peer pur(1) len by (intro del_peer_gap) (auto simp: mwifiex_wmm_del_peer_ra_list_def MAX_NUM_TID_def)
  moreover have "gap priv = 0"
    using counters_okD(2)[OF ok] by (simp add: gap_def)
  ultimately show ?thesis
    using pur(4) by (simp add: gap_def algebra_simps del: upt_rec_numeral)
qed

section \<open>The packet that is passed on\<close>

lemma bind_pair: "x \<bind> (\<lambda>(p, w). Some (f p w)) = map_option (\<lambda>(p, w). f p w) x"
  by (cases x) auto

text \<open>
  C18: the packet an access point passes on is the Ethernet frame the sender made, with the mark and the length that the
  completion needs. The sender, though, is looked up where the destination has been written over its
  address: the statistics go to a station whose address is the first two bytes of the sender's and the first four of
  the destination's.
\<close>

theorem bridged_packet_queued:
  assumes "holds_packet desc p tail s" "14 \<le> length p" "converted p" "get_priv a i = Some priv"
    and "pending_bridged_pkts w < 1024" "MWIFIEX_MIN_DATA_HEADER_LEN \<le> length (rx_room s) + length desc + 8"
    and "idx mwifiex_1d_to_wmm_queue (unat (rx_priority s)) = Some k"
  shows "\<exists>t. skb_data t = p \<and> tx_flags t = MWIFIEX_BUF_FLAG_BRIDGED_PKT \<and> priority t = rx_priority s \<and>
    pkt_len t = (if bit (p ! 0) 0 then 0 else of_nat (length p)) \<and>
    mwifiex_uap_queue_bridged_pkt u i (Some s) a w =
      map_option (\<lambda>(priv', w'). (upd_priv i (\<lambda>_. priv') a, bridged_counted w'))
        (mwifiex_wmm_add_buf_txqueue (queues u) t
          (bridged_received (jiffies (rxd u) w) (length p) (desc ! 11) (desc ! 14) (take 2 (drop 6 p) @ take 4 p) (\<not> bit (p ! 0) 0) priv)
          (upd_pending i k (wmm_tx_pending w i ! k + 1) w))"
proof -
  let ?buf = "desc @ take 8 p @ p @ tail"
  have len: "19 \<le> length desc" "length desc < 65536" "rx_len s = length desc + 8 + length p"
    using assms(1,2) by (auto simp: holds_packet_def)
  have off: "get16 (rx_buf s) 4 = Some (of_nat (length desc))" "unat (of_nat (length desc) :: u16) = length desc"
    using assms(1) len unat_of_nat_u16 by (auto simp: holds_packet_def get16_def load_def)
  have eth: "ethernet_header (length desc) (rx_buf s) = Some (?buf, length desc + 8)"
    using ethernet_header_subframe[OF assms(2,3) refl, of desc tail] assms(1) by (simp add: holds_packet_def)
  let ?s = "skb_pull (length desc + 8) (s\<lparr>rx_buf := ?buf\<rparr>)"
  have s: "rx_len ?s = length p" "frame_of ?s = p" "rx_priority ?s = rx_priority s"
    "length (rx_room ?s) = length (rx_room s) + length desc + 8"
    using len assms(2) by (simp_all add: skb_pull_def frame_of_def)
  have src: "load ?buf (length desc + 6) 6 = Some (take 2 (drop 6 p) @ take 4 p)"
    using assms(2) by (simp add: load_behind) (simp add: load_def take_drop)
  have fields: "idx ?buf 11 = Some (desc ! 11)" "idx ?buf 14 = Some (desc ! 14)" "idx ?buf (length desc) = Some (p ! 0)"
    using len assms(2) by (auto simp: idx_def nth_append)
  have "\<not> MWIFIEX_BRIDGED_PKTS_THR_HIGH \<le> pending_bridged_pkts w" "\<not> length (rx_room ?s) < MWIFIEX_MIN_DATA_HEADER_LEN"
    using assms(5,6) s by (simp_all add: MWIFIEX_BRIDGED_PKTS_THR_HIGH_def)
  then have 1: "mwifiex_uap_queue_bridged_pkt u i (Some s) a w = queue_bridged u i ?buf (length desc) ?s a w"
    unfolding mwifiex_uap_queue_bridged_pkt_def by (simp add: off eth)
  let ?priv = "bridged_received (jiffies (rxd u) w) (length p) (desc ! 11) (desc ! 14) (take 2 (drop 6 p) @ take 4 p) (\<not> bit (p ! 0) 0) priv"
  show ?thesis
    unfolding 1 queue_bridged_def
    by (intro exI[of _ "as_tx ?priv (ktime_get_real (netd u) w) (if bit (p ! 0) 0 then 0 else of_nat (length p)) ?s"])
      (simp add: assms(4,7) src fields s as_tx_def bind_pair Let_def)
qed

section \<open>Examples\<close>

text \<open>An access point with two packets of one peer that were passed on, and the services.\<close>

definition demo_bridge :: ba_priv where
  "demo_bridge = fresh_priv\<lparr>mode := 3,
     ra_lists := [[\<lparr>node_at = 7, skb_head = [sample_packet 5\<lparr>tx_flags := 2\<rparr>, sample_packet 6\<lparr>tx_flags := 2\<rparr>], ra = [1, 1, 1, 1, 1, 1],
       is_11n_enabled = 0, max_amsdu = 0, ba_pkt_count = 0, ba_packet_thr = 0, ra_ba_status = BA_SETUP_NONE,
       amsdu_in_ampdu = False, total_pkt_count = 2, tdls_link = False, tx_paused = False\<rparr>], [], [], [], [], [], [], []],
     wmm := (wmm fresh_priv)\<lparr>tx_pkts_queued := 2\<rparr>\<rparr>"

definition demo_uap :: "'v tx_done_scheme uap_driver" where
  "demo_uap = \<lparr>rxd = \<lparr>rdrv = drv demo_queues, jiffies = (\<lambda>w. 0), netif_rx = (\<lambda>f w. w), cfg80211_rx_mgmt = (\<lambda>r f w. w),
       mwifiex_hist_data_add = (\<lambda>rate snr nf w. w), mwifiex_auto_tdls_update_peer_signal = (\<lambda>mac snr nf w. w),
       kfree_skb = (\<lambda>f w. w)\<rparr>, queues = demo_queues, netd = demo_net, skb_copy = (\<lambda>w. (Some 0, w))\<rparr>"

theorem purged_packets_counted_twice_witness:
  "\<exists>priv1 w1 priv2 w3. mwifiex_uap_del_tx_pkts_in_ralist (demo_tx_adapter [demo_bridge]) 0 0 demo_bridge
      (idle\<lparr>pending_bridged_pkts := 200\<rparr>) = Some (True, priv1, w1) \<and>
    mwifiex_wmm_del_peer_ra_list demo_queues [1, 1, 1, 1, 1, 1] priv1 w1 = Some (priv2, w3) \<and>
    queue_cnt priv2 = 0 \<and> tx_pkts_queued (wmm priv2) = -2"
proof -
  have "case mwifiex_uap_del_tx_pkts_in_ralist (demo_tx_adapter [demo_bridge]) 0 0 demo_bridge (idle\<lparr>pending_bridged_pkts := 200\<rparr>) of
      None \<Rightarrow> False
    | Some (b, priv1, w1) \<Rightarrow> b \<and> skb_head (ra_lists priv1 ! 0 ! 0) = [] \<and>
        (case mwifiex_wmm_del_peer_ra_list demo_queues [1, 1, 1, 1, 1, 1] priv1 w1 of
           None \<Rightarrow> False | Some (priv2, w3) \<Rightarrow> queue_cnt priv2 = 0)"
    by code_simp
  then obtain priv1 w1 priv2 w3 where
    d: "mwifiex_uap_del_tx_pkts_in_ralist (demo_tx_adapter [demo_bridge]) 0 0 demo_bridge (idle\<lparr>pending_bridged_pkts := 200\<rparr>) =
        Some (True, priv1, w1)"
    and p: "mwifiex_wmm_del_peer_ra_list demo_queues [1, 1, 1, 1, 1, 1] priv1 w1 = Some (priv2, w3)"
    and e: "skb_head (ra_lists priv1 ! 0 ! 0) = []" "queue_cnt priv2 = 0"
    by (auto split: option.splits prod.splits)
  have "length (ra_lists demo_bridge) = 8" "tx_pkts_queued (wmm demo_bridge) = queue_cnt demo_bridge"
    "\<forall>t \<in> set [0..<8]. list_ok (ra_lists demo_bridge ! t)"
    by code_simp+
  then have "counters_ok 0 demo_bridge"
    unfolding counters_ok_def by simp
  moreover have "first_index (\<lambda>r. ra r = [1, 1, 1, 1, 1, 1]) (ra_lists demo_bridge ! 0) = Some 0" "\<not> tx_paused (ra_lists demo_bridge ! 0 ! 0)"
    "length (skb_head (ra_lists demo_bridge ! 0 ! 0)) = 2"
    by (simp_all add: demo_bridge_def)
  ultimately have "tx_pkts_queued (wmm priv2) + 2 = 0"
    using purged_packets_counted_twice[OF d _ _ _ _ p] e by simp
  then have "tx_pkts_queued (wmm priv2) = -2"
    by (simp add: eq_neg_iff_add_eq_0)
  then show ?thesis
    using d p e by blast
qed

theorem bridged_packet_queued_witness:
  "\<exists>t :: skb. skb_data t = skb_data (sample_packet 5) \<and> tx_flags t = 2 \<and>
    mwifiex_uap_queue_bridged_pkt demo_uap 0 (Some (demo_rx_skb (demo_desc 27 0 0 @ subframe (skb_data (sample_packet 5))) []))
      (demo_tx_adapter [demo_bridge]) idle \<noteq> None"
proof -
  let ?p = "skb_data (sample_packet 5)" and ?a = "demo_tx_adapter [demo_bridge]"
  let ?s = "demo_rx_skb (demo_desc 27 0 0 @ subframe ?p) []"
  have desc: "length (demo_desc 27 0 0) = 20" "get16 (demo_desc 27 0 0) 4 = Some 20"
    by (simp_all add: demo_desc_def get16_def load_def le16_def)
  have 1: "holds_packet (demo_desc 27 0 0) ?p [] ?s"
    using desc by (simp add: holds_packet_def demo_rx_skb_def)
  have 2: "converted ?p" "14 \<le> length ?p"
    by (simp_all add: converted_def packet_type_def sample_packet_def ETH_P_AARP_def ETH_P_IPX_def)
  have 3: "get_priv ?a 0 = Some demo_bridge" "pending_bridged_pkts idle < 1024"
    "MWIFIEX_MIN_DATA_HEADER_LEN \<le> length (rx_room ?s) + length (demo_desc 27 0 0) + 8"
    "idx mwifiex_1d_to_wmm_queue (unat (rx_priority ?s)) = Some 1"
    using desc by (simp_all add: get_priv_def demo_tx_adapter_def idx_def idle_def demo_rx_skb_def mwifiex_1d_to_wmm_queue_def min_header)
  have 4: "mwifiex_uap_queue_bridged_pkt demo_uap 0 (Some ?s) ?a idle \<noteq> None"
    by code_simp
  obtain t :: skb where "skb_data t = ?p" "tx_flags t = MWIFIEX_BUF_FLAG_BRIDGED_PKT"
    using bridged_packet_queued[OF 1 2(2,1) 3, of demo_uap] by blast
  then show ?thesis
    by (intro exI[of _ t] conjI 4) (simp_all add: MWIFIEX_BUF_FLAG_BRIDGED_PKT_def)
qed

end
