(* ===== verification/Rx_Complete.thy ===== *)
theory Rx_Complete
  imports Rx_Order
begin

text \<open>
  What the receive reorder window does when nothing is lost: packets whose numbers fill the first slots of the window, in
  whatever order they arrive, are all taken and handed up in the order of their numbers, and none waits at the end.
\<close>

section \<open>Numbers without a gap\<close>

lemma numbers_full: "\<forall>p \<in> set ps. p \<noteq> None \<Longrightarrow> numbers s ps = [s..s + int (length ps) - 1]"
proof (induction ps arbitrary: s)
  case (Cons p ps)
  have "[s..s + int (length (p # ps)) - 1] = s # [s + 1..(s + 1) + int (length ps) - 1]"
    by (subst upto_rec1) (simp_all add: algebra_simps)
  then show ?case
    using Cons.IH [of "s + 1"] Cons.prems by simp
qed simp

lemma numbers_run: "numbers s (take (run_length ps) ps) = [s..s + int (run_length ps) - 1]"
proof -
  have "take (run_length ps) ps = takeWhile (\<lambda>p. p \<noteq> None) ps"
    unfolding run_length_def by (rule takeWhile_eq_take [symmetric])
  moreover have "\<forall>p \<in> set (takeWhile (\<lambda>p. p \<noteq> None) ps). p \<noteq> None"
    by (auto dest: set_takeWhileD)
  ultimately show ?thesis
    using numbers_full [of "takeWhile (\<lambda>p. p \<noteq> None) ps" s] by (simp add: run_length_def)
qed

lemma after_run: "s + int (run_length ps) \<notin> set (numbers s ps)"
  using nth_length_takeWhile [of "\<lambda>p. p \<noteq> None" ps] by (auto simp: mem_numbers run_length_def)

lemma numbers_low: "n \<in> set (numbers s ps) \<Longrightarrow> s \<le> n"
  by (auto simp: mem_numbers)

lemma upto_join: "i \<le> j \<Longrightarrow> j \<le> k \<Longrightarrow> [i..j - 1] @ [j..k - 1] = [i..k - (1::int)]"
  using upto_split1 [of i j "k - 1"] by (cases "j = k") auto

section \<open>The invariant\<close>

text \<open>
  The packets numbered by \<open>got\<close> have arrived: those below the start were handed up, the others wait, and the first slot is
  empty.
\<close>

definition complete_inv :: "(int \<Rightarrow> 'a) \<Rightarrow> int \<Rightarrow> int set \<Rightarrow> int \<Rightarrow> 'a option list \<Rightarrow> bool" where
  "complete_inv pkt lo got s ps \<longleftrightarrow> labelled pkt s ps \<and> lo \<le> s \<and> s \<notin> set (numbers s ps) \<and>
     got = {lo..<s} \<union> set (numbers s ps)"

lemma scan_complete:
  assumes "labelled pkt s ps" "0 \<le> s" "s \<le> h" "h < 4096" "\<forall>n \<in> set (numbers s ps). n < h"
  shows "\<exists>s'. scan_spec (s, ps) = (map pkt [s..s' - 1], s', slide (nat (s' - s)) ps) \<and> s \<le> s' \<and> s' \<le> h \<and>
    s' \<notin> set (numbers s' (slide (nat (s' - s)) ps)) \<and>
    set (numbers s ps) = {s..<s'} \<union> set (numbers s' (slide (nat (s' - s)) ps)) \<and> labelled pkt s' (slide (nat (s' - s)) ps)"
proof -
  define k where "k = run_length ps"
  have occ: "s + int i \<in> set (numbers s ps)" if "i < k" for i
    using run_occupied that by (simp add: k_def)
  have le: "s + int k \<le> h"
    using assms(3,5) occ [of "k - 1"] by (cases k) auto
  have out: "packets (take k ps) = map pkt [s..s + int k - 1]"
    using packets_numbers [OF labelled_take [OF assms(1)], of k] numbers_run [of s ps] by (simp add: k_def)
  have waiting: "n \<in> set (numbers (s + int k) (slide k ps)) \<longleftrightarrow> n \<in> set (numbers s ps) \<and> s + int k \<le> n" for n
    by (rule numbers_slide)
  have "set (numbers s ps) = {s..<s + int k} \<union> set (numbers (s + int k) (slide k ps))"
  proof (intro set_eqI)
    fix n
    show "n \<in> set (numbers s ps) \<longleftrightarrow> n \<in> {s..<s + int k} \<union> set (numbers (s + int k) (slide k ps))"
      using occ [of "nat (n - s)"] numbers_low [of n s ps] by (auto simp: waiting)
  qed
  moreover have "s + int k \<notin> set (numbers (s + int k) (slide k ps))"
    using after_run [of s ps] by (simp add: waiting flip: k_def)
  moreover have "scan_spec (s, ps) = (map pkt [s..s + int k - 1], s + int k, slide k ps)"
    using out le assms(2,4) by (simp add: scan_spec_def Let_def k_def)
  ultimately show ?thesis
    using le labelled_slide [OF assms(1), of k] by (intro exI [of _ "s + int k"]) simp
qed

lemma recv_complete:
  assumes inv: "complete_inv pkt lo got s ps" and h: "h = lo + int (length ps)" "0 \<le> lo" "h < 4096" "length ps \<le> 2048"
    and got: "got \<subseteq> {lo..<h}" and q: "q \<notin> got" "lo \<le> q" "q < h"
  shows "\<exists>s' ps'. recv_spec True q (pkt q) (s, ps) = (0, map pkt [s..s' - 1], s', ps') \<and>
    complete_inv pkt lo (insert q got) s' ps' \<and> length ps' = length ps \<and> s \<le> s' \<and> s' \<le> h"
proof -
  have s: "lo \<le> s" "s \<le> q" and num: "q \<notin> set (numbers s ps)" "set (numbers s ps) \<subseteq> {lo..<h}" "labelled pkt s ps"
    using inv got q by (auto simp: complete_inv_def)
  let ?i = "nat (q - s)"
  have a: "ahead q s = ?i"
    using ahead_cases [of q s] s h q by simp
  have i: "?i < length ps" "s + int ?i = q"
    using s h q by auto
  have empty: "ps ! ?i = None"
    using num(1) i by (auto simp: mem_numbers)
  let ?ps = "ps[?i := Some (pkt q)]"
  have lab: "labelled pkt s ?ps"
    using labelled_store [OF num(3), of ?i] i(2) by simp
  have mem: "set (numbers s ?ps) = insert q (set (numbers s ps))"
    using i(2) by (auto simp: numbers_store [OF i(1)])
  have "0 \<le> s" "s \<le> h" "\<forall>n \<in> set (numbers s ?ps). n < h"
    using s h q num(2) by (auto simp: mem)
  then obtain s' where s': "scan_spec (s, ?ps) = (map pkt [s..s' - 1], s', slide (nat (s' - s)) ?ps)"
    "s \<le> s'" "s' \<le> h" "s' \<notin> set (numbers s' (slide (nat (s' - s)) ?ps))"
    "set (numbers s ?ps) = {s..<s'} \<union> set (numbers s' (slide (nat (s' - s)) ?ps))" "labelled pkt s' (slide (nat (s' - s)) ?ps)"
    using scan_complete [OF lab, of h] h(3) by blast
  have "insert q got = {lo..<s} \<union> set (numbers s ?ps)"
    using inv by (auto simp: complete_inv_def mem)
  also have "\<dots> = {lo..<s'} \<union> set (numbers s' (slide (nat (s' - s)) ?ps))"
    unfolding s'(5) using s(1) s'(2) by auto
  finally have "complete_inv pkt lo (insert q got) s' (slide (nat (s' - s)) ?ps)"
    using s(1) s' by (simp add: complete_inv_def)
  moreover have "recv_spec True q (pkt q) (s, ps) = (0, map pkt [s..s' - 1], s', slide (nat (s' - s)) ?ps)"
    using a i(1) h(4) empty s'(1) by (simp add: recv_spec_def move_spec_def Let_def)
  ultimately show ?thesis
    using s' by auto
qed

section \<open>Runs\<close>

lemma complete_run:
  assumes "h = lo + int (length (rx_reorder_ptr t))" "0 \<le> lo" "h < 4096" "pkt_type \<notin> {PKT_TYPE_BAR, PKT_TYPE_AMSDU}"
    and "tbl_steady t" "complete_inv pkt lo got (start_win t) (rx_reorder_ptr t)" "got \<subseteq> {lo..<h}"
    and "distinct qs" "\<forall>q \<in> set qs. uint q \<notin> got \<and> lo \<le> uint q \<and> uint q < h"
  shows "\<exists>t'. run_events u (map (\<lambda>q. Packet q pkt_type (pkt (uint q))) qs) t w =
      Some (map (\<lambda>q. pkt (uint q)) qs, t', fold (deliver u) (map pkt [start_win t..start_win t' - 1]) w) \<and>
    complete_inv pkt lo (got \<union> uint ` set qs) (start_win t') (rx_reorder_ptr t') \<and> start_win t \<le> start_win t' \<and> tbl_steady t'"
  using assms(1,5-9)
proof (induction qs arbitrary: t got w)
  case Nil
  then show ?case
    by (intro exI [of _ t]) simp
next
  case (Cons q qs)
  have q: "uint q \<notin> got" "lo \<le> uint q" "uint q < h" "uint q < 4096" and n: "length (rx_reorder_ptr t) \<le> 2048"
    using Cons.prems(2,6) assms(3) by (simp_all add: tbl_steady_def tbl_ok_def)
  obtain s1 p1 where spec: "recv_spec True (uint q) (pkt (uint q)) (window t) = (0, map pkt [start_win t..s1 - 1], s1, p1)"
    and inv: "complete_inv pkt lo (insert (uint q) got) s1 p1" and len: "length p1 = length (rx_reorder_ptr t)"
    and s1: "start_win t \<le> s1" "s1 \<le> h"
    using recv_complete [OF Cons.prems(3,1) assms(2,3) n Cons.prems(4) q(1-3)] by auto
  have "0 \<le> s1" "s1 < 4096"
    using inv s1(2) assms(2,3) by (simp_all add: complete_inv_def)
  then obtain t1 where step: "reorder_in_tbl u q pkt_type (Some (pkt (uint q))) t w =
      Some (0, t1, fold (deliver u) (map pkt [start_win t..s1 - 1]) w)"
    and t1: "start_win t1 = s1" "rx_reorder_ptr t1 = p1" "tbl_steady t1"
    by (rule reorder_packet [OF Cons.prems(2) q(4) assms(4) spec len])
  have "complete_inv pkt lo (insert (uint q) got) (start_win t1) (rx_reorder_ptr t1)" "insert (uint q) got \<subseteq> {lo..<h}"
    "h = lo + int (length (rx_reorder_ptr t1))" "distinct qs"
    "\<forall>q' \<in> set qs. uint q' \<notin> insert (uint q) got \<and> lo \<le> uint q' \<and> uint q' < h"
    using inv t1(1,2) Cons.prems(1,4-6) q len by (auto dest: unsigned_word_eqI)
  from Cons.IH [OF this(3) t1(3) this(1,2,4,5), of "fold (deliver u) (map pkt [start_win t..s1 - 1]) w"]
  obtain t' where rest: "run_events u (map (\<lambda>q. Packet q pkt_type (pkt (uint q))) qs) t1 (fold (deliver u) (map pkt [start_win t..s1 - 1]) w) =
      Some (map (\<lambda>q. pkt (uint q)) qs, t', fold (deliver u) (map pkt [s1..start_win t' - 1])
        (fold (deliver u) (map pkt [start_win t..s1 - 1]) w))"
    "complete_inv pkt lo (insert (uint q) got \<union> uint ` set qs) (start_win t') (rx_reorder_ptr t')" "s1 \<le> start_win t'" "tbl_steady t'"
    unfolding t1(1) by blast
  have "fold (deliver u) (map pkt [s1..start_win t' - 1]) (fold (deliver u) (map pkt [start_win t..s1 - 1]) w) =
      fold (deliver u) (map pkt [start_win t..start_win t' - 1]) w"
    by (simp flip: upto_join [OF s1(1) rest(3)])
  moreover have "taken 0 pkt_type (Some p) = [p]" for p
    using assms(4) by (simp add: taken_def)
  ultimately show ?case
    using step rest s1(1) by (intro exI [of _ t']) simp
qed

text \<open>
  When the packets numbered from the start of an empty window on arrive in any order, the window takes them all, hands them up in
  order, and is empty afterwards.
\<close>

lemma in_window_delivery:
  assumes "tbl_steady t" "packets (rx_reorder_ptr t) = []" "pkt_type \<notin> {PKT_TYPE_BAR, PKT_TYPE_AMSDU}"
    and "n \<le> length (rx_reorder_ptr t)" "start_win t + int (length (rx_reorder_ptr t)) < 4096"
    and "distinct qs" "uint ` set qs = {start_win t..<start_win t + int n}"
  shows "\<exists>t'. run_events u (map (\<lambda>q. Packet q pkt_type (pkt (uint q))) qs) t w =
      Some (map (\<lambda>q. pkt (uint q)) qs, t', fold (deliver u) (map pkt [start_win t..start_win t + int n - 1]) w) \<and>
    start_win t' = start_win t + int n \<and> packets (rx_reorder_ptr t') = []"
proof -
  let ?s = "start_win t"
  have "complete_inv pkt ?s {} ?s (rx_reorder_ptr t)"
    using no_packets_numbers [OF assms(2)] no_packets_labelled [OF assms(2)] by (simp add: complete_inv_def)
  moreover have "\<forall>q \<in> set qs. uint q \<notin> {} \<and> ?s \<le> uint q \<and> uint q < ?s + int (length (rx_reorder_ptr t))"
  proof
    fix q assume "q \<in> set qs"
    then have "uint q \<in> {?s..<?s + int n}"
      unfolding assms(7) [symmetric] by (rule imageI)
    then show "uint q \<notin> {} \<and> ?s \<le> uint q \<and> uint q < ?s + int (length (rx_reorder_ptr t))"
      using assms(4) by simp
  qed
  moreover have "0 \<le> ?s"
    using assms(1) by (simp add: tbl_steady_def tbl_ok_def)
  ultimately obtain t' where run: "run_events u (map (\<lambda>q. Packet q pkt_type (pkt (uint q))) qs) t w =
      Some (map (\<lambda>q. pkt (uint q)) qs, t', fold (deliver u) (map pkt [?s..start_win t' - 1]) w)"
    and inv: "complete_inv pkt ?s {?s..<?s + int n} (start_win t') (rx_reorder_ptr t')" and le: "?s \<le> start_win t'"
    using complete_run [OF refl _ assms(5,3,1), of pkt "{}" qs u w] assms(6,7) by auto
  let ?e = "start_win t'"
  have all: "{?s..<?s + int n} = {?s..<?e} \<union> set (numbers ?e (rx_reorder_ptr t'))" and hole: "?e \<notin> set (numbers ?e (rx_reorder_ptr t'))"
    using inv by (simp_all add: complete_inv_def)
  have "?e \<in> {?s..<?s + int n} \<Longrightarrow> False"
    unfolding all using hole by simp
  moreover have "?s + int n \<in> {?s..<?e} \<Longrightarrow> ?s + int n \<in> {?s..<?s + int n}"
    unfolding all by blast
  ultimately have end': "?e = ?s + int n"
    using le by fastforce
  have none: "set (numbers ?e (rx_reorder_ptr t')) = {}"
  proof (intro equals0I)
    fix m assume m: "m \<in> set (numbers ?e (rx_reorder_ptr t'))"
    then have "m \<in> {?s..<?s + int n}"
      unfolding all by blast
    then show False
      using numbers_low [OF m] end' by simp
  qed
  then have "packets (rx_reorder_ptr t') = []"
    using inv packets_numbers [of pkt ?e "rx_reorder_ptr t'"] by (simp add: complete_inv_def)
  then show ?thesis
    using run end' by simp
qed

end
