(* ===== verification/Rx_System.thy ===== *)
theory Rx_System
  imports Rx_Path Rx_Complete
begin

text \<open>
  The receive path of a station put together: the reorder window of \<open>11n_rxreorder.c\<close> hands its packets to the functions of \<open>sta_rx.c\<close> and
  \<open>util.c\<close>, and these hand Ethernet frames to the kernel. What goes in is what a sender made of its frames
  (\<open>subframe\<close> of \<open>Tx_Aggr\<close>), behind a descriptor.
\<close>

section \<open>The station's functions as the upper layer\<close>

text \<open>A packet with no memory around it. The state of the interface and the driver's world go along together.\<close>

definition as_rx :: "byte list \<Rightarrow> rx_skb" where
  "as_rx p = \<lparr>rx_at = 0, rx_room = [], rx_buf = p, rx_len = length p, rx_priority = 0\<rparr>"

text \<open>An access outside the packet, which the theorem rules out, leaves everything as it is.\<close>

definition handed :: "(ba_priv \<Rightarrow> 'w \<Rightarrow> (int \<times> ba_priv \<times> 'w) option) \<Rightarrow> ba_priv \<times> 'w \<Rightarrow> int \<times> ba_priv \<times> 'w" where
  "handed f s = (case f (fst s) (snd s) of None \<Rightarrow> (-1, s) | Some r \<Rightarrow> r)"

definition beside :: "('w \<Rightarrow> int \<times> 'w) \<Rightarrow> ba_priv \<times> 'w \<Rightarrow> int \<times> ba_priv \<times> 'w" where
  "beside f s = (let (r, w) = f (snd s) in (r, fst s, w))"

definition station_upper :: "'w rx_driver \<Rightarrow> (ba_priv \<times> 'w) upper" where
  "station_upper d =
     \<lparr>amsdu_to_8023s = amsdu_to_8023s (up (rdrv d)), tdls_enabled = tdls_enabled (up (rdrv d)),
      process_tdls_action_frame = (\<lambda>p n s. (fst s, process_tdls_action_frame (up (rdrv d)) p n (snd s))),
      uap_recv_packet = (\<lambda>p. beside (uap_recv_packet (up (rdrv d)) p)),
      recv_packet = (\<lambda>p. handed (mwifiex_recv_packet d (as_rx p))),
      handle_uap_rx_forward = (\<lambda>p. beside (handle_uap_rx_forward (up (rdrv d)) p)),
      process_rx_packet = (\<lambda>p. handed (mwifiex_process_rx_packet d (as_rx p))), bss_role = bss_role (up (rdrv d))\<rparr>"

section \<open>One packet\<close>

definition radio_packet :: "byte list \<Rightarrow> byte list \<Rightarrow> bool" where
  "radio_packet desc p \<longleftrightarrow> holds_packet desc p [] (as_rx (desc @ subframe p)) \<and> 14 \<le> length p \<and> converted p \<and>
     ld16 (drop 6 desc) \<noteq> ucast PKT_TYPE_AMSDU"

text \<open>A station without direct links and without the Hotspot filter, and what the kernel gets, as a log.\<close>

definition plain_station :: "'w rx_driver \<Rightarrow> ('w \<Rightarrow> byte list list) \<Rightarrow> bool" where
  "plain_station d log \<longleftrightarrow> bss_role (up (rdrv d)) = MWIFIEX_BSS_ROLE_STA \<and> \<not> tdls_enabled (up (rdrv d)) \<and>
     (\<forall>f w. log (netif_rx d f w) = log w @ [f]) \<and> (\<forall>r s n w. log (mwifiex_hist_data_add d r s n w) = log w)"

lemma ld16_append: "2 \<le> length xs \<Longrightarrow> ld16 (xs @ ys) = ld16 xs"
  by (cases xs rule: ld16.cases) simp_all

lemma deliver_station:
  assumes "radio_packet desc p" "plain_station d log" "\<not> hs2_enabled priv"
  obtains priv' w' where "deliver (station_upper d) (desc @ subframe p) (priv, w) = (priv', w')" "log w' = log w @ [p]"
    "rx_packets (net_stats_of priv') = rx_packets (net_stats_of priv) + 1" "\<not> hs2_enabled priv'"
proof -
  have desc: "19 \<le> length desc" "ld16 (drop 6 desc) \<noteq> ucast PKT_TYPE_AMSDU"
    using assms(1) by (auto simp: radio_packet_def holds_packet_def)
  have "ld16 (drop 6 (desc @ subframe p)) = ld16 (drop 6 desc)"
    using desc(1) by (simp add: ld16_append)
  then have "deliver (station_upper d) (desc @ subframe p) (priv, w) =
      snd (handed (mwifiex_process_rx_packet d (as_rx (desc @ subframe p))) (priv, w))"
    using desc(2) assms(2)
    by (simp add: deliver_def mwifiex_11n_dispatch_pkt_def mwifiex_11n_dispatch_amsdu_pkt_def station_upper_def plain_station_def
        MWIFIEX_BSS_ROLE_STA_def MWIFIEX_BSS_ROLE_UAP_def)
  moreover have "mwifiex_process_rx_packet d (as_rx (desc @ subframe p)) priv w =
    Some (0, received_counted (length p) (rate_noted desc priv),
      netif_rx d p (mwifiex_hist_data_add d (mwifiex_adjust_data_rate (desc ! 11) (desc ! 14)) (desc ! 12) (desc ! 13) w))"
    using assms by (intro process_snap_packet) (auto simp: radio_packet_def plain_station_def GET_BSS_ROLE_def MWIFIEX_BSS_ROLE_STA_def)
  ultimately have eq: "deliver (station_upper d) (desc @ subframe p) (priv, w) = (received_counted (length p) (rate_noted desc priv),
      netif_rx d p (mwifiex_hist_data_add d (mwifiex_adjust_data_rate (desc ! 11) (desc ! 14)) (desc ! 12) (desc ! 13) w))"
    by (simp add: handed_def)
  show ?thesis
    using assms(2,3) by (intro that [OF eq]) (auto simp: plain_station_def received_counted_def upd_net_def rate_noted_def)
qed

lemma deliver_stations:
  assumes "\<forall>m \<in> set ms. radio_packet (desc m) (frame m)" "plain_station d log" "\<not> hs2_enabled priv"
  shows "\<exists>priv' w'. fold (deliver (station_upper d)) (map (\<lambda>m. desc m @ subframe (frame m)) ms) (priv, w) = (priv', w') \<and>
    log w' = log w @ map frame ms \<and> rx_packets (net_stats_of priv') = rx_packets (net_stats_of priv) + of_nat (length ms)"
  using assms(1,3)
proof (induction ms arbitrary: priv w)
  case (Cons m ms)
  obtain priv1 w1 where one: "deliver (station_upper d) (desc m @ subframe (frame m)) (priv, w) = (priv1, w1)" "log w1 = log w @ [frame m]"
    "rx_packets (net_stats_of priv1) = rx_packets (net_stats_of priv) + 1" "\<not> hs2_enabled priv1"
    using deliver_station [OF _ assms(2) Cons.prems(2), of "desc m" "frame m" w] Cons.prems(1) by auto
  show ?case
    using Cons.IH [OF _ one(4), of w1] Cons.prems(1) one(1-3) by (auto simp: algebra_simps)
qed simp

section \<open>A window full of packets\<close>

text \<open>
  C5: a station's kernel gets the frames in order. When the packets of the first numbers of an empty window arrive, in any
  order, the window takes them all, and the kernel gets exactly the Ethernet frames they were made of, in the order of their
  numbers, each once; the interface counts them and no packet stays behind.
\<close>

theorem frames_reach_kernel_in_order:
  assumes "tbl_steady t" "packets (rx_reorder_ptr t) = []" "pkt_type \<notin> {Rx_Window.PKT_TYPE_BAR, Rx_Window.PKT_TYPE_AMSDU}"
    and "n \<le> length (rx_reorder_ptr t)" "start_win t + int (length (rx_reorder_ptr t)) < 4096"
    and "distinct qs" "uint ` set qs = {start_win t..<start_win t + int n}"
    and "\<forall>m \<in> {start_win t..<start_win t + int n}. radio_packet (desc m) (frame m)"
    and "plain_station d log" "\<not> hs2_enabled priv"
  shows "\<exists>acc t' priv' w'.
    run_events (station_upper d) (map (\<lambda>q. Packet q pkt_type (desc (uint q) @ subframe (frame (uint q)))) qs) t (priv, w) =
      Some (acc, t', priv', w') \<and>
    log w' = log w @ map frame [start_win t..start_win t + int n - 1] \<and>
    rx_packets (net_stats_of priv') = rx_packets (net_stats_of priv) + of_nat n \<and> packets (rx_reorder_ptr t') = []"
proof -
  let ?pkt = "\<lambda>m. desc m @ subframe (frame m)" and ?ms = "[start_win t..start_win t + int n - 1]"
  obtain t' where run: "run_events (station_upper d) (map (\<lambda>q. Packet q pkt_type (?pkt (uint q))) qs) t (priv, w) =
      Some (map (\<lambda>q. ?pkt (uint q)) qs, t', fold (deliver (station_upper d)) (map ?pkt ?ms) (priv, w))"
    "packets (rx_reorder_ptr t') = []"
    using in_window_delivery [OF assms(1-7), of "station_upper d" ?pkt "(priv, w)"] by blast
  have "\<forall>m \<in> set ?ms. radio_packet (desc m) (frame m)"
    using assms(8) by auto
  from deliver_stations [OF this assms(9,10), of w] run show ?thesis
    by auto
qed

theorem frames_reach_kernel_in_order_witness:
  "\<exists>acc t' priv'. run_events (station_upper demo_rx)
      (map (\<lambda>q. Packet q 0 (demo_desc 0 0 0 @ subframe (skb_data (sample_packet (nat (uint q)))))) [12, 10, 11]) (empty_tbl 10 4)
      (fresh_priv, []) = Some (acc, t', priv', map (\<lambda>m. skb_data (sample_packet m)) [10, 11, 12])"
proof -
  have desc: "length (demo_desc 0 0 0) = 20" "get16 (demo_desc 0 0 0) 4 = Some 20" "ld16 (drop 6 (demo_desc 0 0 0)) = 0"
    by code_simp+
  have "radio_packet (demo_desc 0 0 0) (skb_data (sample_packet m))" for m
    using desc by (simp add: radio_packet_def holds_packet_def as_rx_def converted_def packet_type_def sample_packet_def
        ETH_P_AARP_def ETH_P_IPX_def Rx_Window.PKT_TYPE_AMSDU_def)
  moreover have "plain_station demo_rx (\<lambda>w. w)"
    by (simp add: plain_station_def demo_rx_def logger_def MWIFIEX_BSS_ROLE_STA_def)
  moreover have "\<not> hs2_enabled fresh_priv"
    by (simp add: fresh_priv_def)
  moreover have "[10..12] = [10, 11, 12 :: int]" "{12, 10, 11} = {10..<13 :: int}"
    by code_simp auto
  ultimately show ?thesis
    using frames_reach_kernel_in_order [OF empty_tbl_steady [of 4 10], of 0 3 "[12, 10, 11]" "\<lambda>_. demo_desc 0 0 0"
        "\<lambda>m. skb_data (sample_packet (nat m))" demo_rx "\<lambda>w. w" fresh_priv "[]"]
    by (auto simp: empty_tbl_def Rx_Window.PKT_TYPE_BAR_def Rx_Window.PKT_TYPE_AMSDU_def simp del: run_events.simps)
qed

end
