(* ===== verification/Bss_Desc.thy ===== *)
theory Bss_Desc
  imports Cfp Ba_State
begin

text \<open>
  The description a station keeps of an access point: the struct of \<open>doc/mwifiex/main.h\<close>, the parser
  of the elements of a beacon in \<open>doc/mwifiex/scan.c\<close>, its caller in \<open>doc/mwifiex/sta_ioctl.c\<close>, and
  the copy of the current beacon that \<open>scan.c\<close> keeps. The description points into the beacon, so the
  beacon buffers are blocks of a heap and a pointer is a block with an offset; a freed block, a read
  past the end of a block and a write past the end of an array of the struct are \<open>None\<close>.

  \<open>Beacon_Parse\<close> has the properties of the parser and of the copy.
\<close>

section \<open>Heap\<close>

type_synonym block = nat
type_synonym ptr = "block \<times> nat"
type_synonym heap = "block \<Rightarrow> byte list option"

definition peek :: "heap \<Rightarrow> ptr \<Rightarrow> nat \<Rightarrow> byte list option" where
  "peek h p n = (case h (fst p) of None \<Rightarrow> None | Some bs \<Rightarrow> load bs (snd p) n)"

definition peek8 :: "heap \<Rightarrow> ptr \<Rightarrow> u8 option" where
  "peek8 h p = map_option hd (peek h p 1)"

text \<open>Block 0 is the null pointer.\<close>

definition kfree :: "block \<Rightarrow> heap \<Rightarrow> heap" where
  "kfree b h = (if b = 0 then h else h(b := None))"

section \<open>Constants\<close>

definition IEEE80211_MAX_SSID_LEN :: nat where "IEEE80211_MAX_SSID_LEN = 32"
definition PRIV_FILTER_ACCEPT_ALL :: u32 where "PRIV_FILTER_ACCEPT_ALL = 0"
definition PRIV_FILTER_8021X_WEP :: u32 where "PRIV_FILTER_8021X_WEP = 1"
definition WMM_PARAMETER_SIZE :: u16 where "WMM_PARAMETER_SIZE = 26"
definition WMM_INFO_SIZE :: u16 where "WMM_INFO_SIZE = 9"
definition wpa_oui :: "byte list" where "wpa_oui = [0x00, 0x50, 0xf2, 0x01]"
definition wmm_oui :: "byte list" where "wmm_oui = [0x00, 0x50, 0xf2, 0x02]"

text \<open>From the kernel's \<open>linux/ieee80211.h\<close>.\<close>

definition EID_SSID :: u8 where "EID_SSID = 0"
definition EID_SUPP_RATES :: u8 where "EID_SUPP_RATES = 1"
definition EID_FH_PARAMS :: u8 where "EID_FH_PARAMS = 2"
definition EID_DS_PARAMS :: u8 where "EID_DS_PARAMS = 3"
definition EID_CF_PARAMS :: u8 where "EID_CF_PARAMS = 4"
definition EID_IBSS_PARAMS :: u8 where "EID_IBSS_PARAMS = 6"
definition EID_PWR_CONSTRAINT :: u8 where "EID_PWR_CONSTRAINT = 32"
definition EID_PWR_CAPABILITY :: u8 where "EID_PWR_CAPABILITY = 33"
definition EID_TPC_REPORT :: u8 where "EID_TPC_REPORT = 35"
definition EID_CHANNEL_SWITCH :: u8 where "EID_CHANNEL_SWITCH = 37"
definition EID_QUIET :: u8 where "EID_QUIET = 40"
definition EID_ERP_INFO :: u8 where "EID_ERP_INFO = 42"
definition EID_HT_CAPABILITY :: u8 where "EID_HT_CAPABILITY = 45"
definition EID_RSN :: u8 where "EID_RSN = 48"
definition EID_EXT_SUPP_RATES :: u8 where "EID_EXT_SUPP_RATES = 50"
definition EID_HT_OPERATION :: u8 where "EID_HT_OPERATION = 61"
definition EID_BSS_AC_ACCESS_DELAY :: u8 where "EID_BSS_AC_ACCESS_DELAY = 68"
definition EID_BSS_COEX_2040 :: u8 where "EID_BSS_COEX_2040 = 72"
definition EID_EXT_CAPABILITY :: u8 where "EID_EXT_CAPABILITY = 127"
definition EID_VHT_CAPABILITY :: u8 where "EID_VHT_CAPABILITY = 191"
definition EID_VHT_OPERATION :: u8 where "EID_VHT_OPERATION = 192"
definition EID_OPMODE_NOTIF :: u8 where "EID_OPMODE_NOTIF = 199"
definition EID_VENDOR_SPECIFIC :: u8 where "EID_VENDOR_SPECIFIC = 221"
definition WLAN_CAPABILITY_IBSS :: u16 where "WLAN_CAPABILITY_IBSS = 0x2"
definition WLAN_CAPABILITY_PRIVACY :: u16 where "WLAN_CAPABILITY_PRIVACY = 0x10"
definition WLAN_CAPABILITY_SPECTRUM_MGMT :: u16 where "WLAN_CAPABILITY_SPECTRUM_MGMT = 0x100"
definition NL80211_IFTYPE_ADHOC :: u32 where "NL80211_IFTYPE_ADHOC = 1"

named_theorems eids \<open>numbers of the elements\<close>

lemmas [eids] = EID_SSID_def EID_SUPP_RATES_def EID_FH_PARAMS_def EID_DS_PARAMS_def EID_CF_PARAMS_def
  EID_IBSS_PARAMS_def EID_PWR_CONSTRAINT_def EID_PWR_CAPABILITY_def EID_TPC_REPORT_def
  EID_CHANNEL_SWITCH_def EID_QUIET_def EID_ERP_INFO_def EID_HT_CAPABILITY_def EID_RSN_def
  EID_EXT_SUPP_RATES_def EID_HT_OPERATION_def EID_BSS_AC_ACCESS_DELAY_def EID_BSS_COEX_2040_def
  EID_EXT_CAPABILITY_def EID_VHT_CAPABILITY_def EID_VHT_OPERATION_def EID_OPMODE_NOTIF_def
  EID_VENDOR_SPECIFIC_def

section \<open>The description\<close>

record mwifiex_bssdescriptor =
  mac_address :: "byte list"
  ssid_len :: u8
  ssid :: "byte list"
  privacy :: u32
  rssi :: u32
  bss_channel :: u32
  beacon_period :: u16
  erp_flags :: u8
  desc_mode :: u32
  supported_rates :: "byte list"
  data_rates :: "byte list"
  bss_band :: u16
  fw_tsf :: u64
  timestamp :: u64
  phy_param_set :: "byte list"
  ss_param_set :: "byte list"
  cap_info_bitmap :: u16
  desc_wmm_ie :: "byte list"
  disable_11n :: bool
  bcn_ht_cap :: "ptr option"
  ht_cap_offset :: u16
  bcn_ht_oper :: "ptr option"
  ht_info_offset :: u16
  bcn_bss_co_2040 :: "ptr option"
  bss_co_2040_offset :: u16
  bcn_ext_cap :: "ptr option"
  ext_cap_offset :: u16
  bcn_vht_cap :: "ptr option"
  vht_cap_offset :: u16
  bcn_vht_oper :: "ptr option"
  vht_info_offset :: u16
  oper_mode :: "ptr option"
  oper_mode_offset :: u16
  disable_11ac :: bool
  bcn_wpa_ie :: "ptr option"
  wpa_offset :: u16
  bcn_rsn_ie :: "ptr option"
  rsn_offset :: u16
  bcn_wapi_ie :: "ptr option"
  wapi_offset :: u16
  beacon_buf :: block
  beacon_buf_size :: u32
  sensed_11h :: bool
  local_constraint :: u8
  chan_sw_ie_present :: bool

text \<open>The arrays of the struct have their declared sizes.\<close>

definition arrays_ok :: "mwifiex_bssdescriptor \<Rightarrow> bool" where
  "arrays_ok d \<longleftrightarrow> length (ssid d) = IEEE80211_MAX_SSID_LEN \<and>
     length (supported_rates d) = MWIFIEX_SUPPORTED_RATES \<and> length (data_rates d) = MWIFIEX_SUPPORTED_RATES \<and>
     length (phy_param_set d) = 7 \<and> length (ss_param_set d) = 8 \<and> length (desc_wmm_ie d) = 26"

section \<open>Parsing a beacon\<close>

text \<open>
  One element at \<open>cur\<close>: its number, its length, its whole size, and the state of the loop: the
  description, how many rates were found, and whether the element with the rates was.
\<close>

type_synonym ie_state = "mwifiex_bssdescriptor \<times> u8 \<times> bool"

definition copy_rates :: "heap \<Rightarrow> ptr \<Rightarrow> nat \<Rightarrow> nat \<Rightarrow> mwifiex_bssdescriptor \<Rightarrow> mwifiex_bssdescriptor option" where
  "copy_rates h p n at d = do {
     bytes \<leftarrow> peek h p n;
     dr \<leftarrow> store (data_rates d) at bytes;
     sr \<leftarrow> store (supported_rates d) at bytes;
     Some (d\<lparr>data_rates := dr, supported_rates := sr\<rparr>)
   }"

definition vendor_ie :: "heap \<Rightarrow> u16 \<Rightarrow> ptr \<Rightarrow> mwifiex_bssdescriptor \<Rightarrow> mwifiex_bssdescriptor option" where
  "vendor_ie h total_ie_len cur d = do {
     oui \<leftarrow> peek h (fst cur, snd cur + 2) 4;
     if oui = wpa_oui then Some (d\<lparr>bcn_wpa_ie := Some cur, wpa_offset := of_nat (snd cur)\<rparr>)
     else if oui = wmm_oui \<and> (total_ie_len = WMM_PARAMETER_SIZE \<or> total_ie_len = WMM_INFO_SIZE) then do {
       bytes \<leftarrow> peek h cur (unat total_ie_len);
       ie \<leftarrow> store (desc_wmm_ie d) 0 bytes;
       Some (d\<lparr>desc_wmm_ie := ie\<rparr>)
     } else Some d
   }"

definition process_ie :: "heap \<Rightarrow> u8 \<Rightarrow> u8 \<Rightarrow> u16 \<Rightarrow> ptr \<Rightarrow> ie_state \<Rightarrow> ie_state option" where
  "process_ie h i n total_ie_len cur st =
     (let (d, rate_size, found) = st;
          body = (fst cur, snd cur + 2);
          keep = (\<lambda>d. (d, rate_size, found));
          off = of_nat (snd cur) :: u16; body_off = of_nat (snd cur + 2) :: u16
      in if i = EID_SSID then do {
           bytes \<leftarrow> peek h body (unat n);
           s \<leftarrow> store (ssid d) 0 bytes;
           Some (keep (d\<lparr>ssid_len := n, ssid := s\<rparr>))
         }
         else if i = EID_SUPP_RATES then do {
           d \<leftarrow> copy_rates h body (unat n) 0 d;
           Some (d, n, True)
         }
         else if i = EID_FH_PARAMS then do {
           bytes \<leftarrow> peek h cur 7;
           s \<leftarrow> store (phy_param_set d) 0 bytes;
           Some (keep (d\<lparr>phy_param_set := s\<rparr>))
         }
         else if i = EID_DS_PARAMS then do {
           c \<leftarrow> peek8 h body;
           bytes \<leftarrow> peek h cur 3;
           s \<leftarrow> store (phy_param_set d) 0 bytes;
           Some (keep (d\<lparr>bss_channel := ucast c, phy_param_set := s\<rparr>))
         }
         else if i = EID_CF_PARAMS then do {
           bytes \<leftarrow> peek h cur 8;
           s \<leftarrow> store (ss_param_set d) 0 bytes;
           Some (keep (d\<lparr>ss_param_set := s\<rparr>))
         }
         else if i = EID_IBSS_PARAMS then do {
           bytes \<leftarrow> peek h cur 4;
           s \<leftarrow> store (ss_param_set d) 0 bytes;
           Some (keep (d\<lparr>ss_param_set := s\<rparr>))
         }
         else if i = EID_ERP_INFO then do {
           b \<leftarrow> peek8 h body;
           Some (keep (d\<lparr>erp_flags := b\<rparr>))
         }
         else if i = EID_PWR_CONSTRAINT then do {
           b \<leftarrow> peek8 h body;
           Some (keep (d\<lparr>local_constraint := b, sensed_11h := True\<rparr>))
         }
         else if i = EID_CHANNEL_SWITCH then Some (keep (d\<lparr>chan_sw_ie_present := True, sensed_11h := True\<rparr>))
         else if i \<in> {EID_PWR_CAPABILITY, EID_TPC_REPORT, EID_QUIET} then Some (keep (d\<lparr>sensed_11h := True\<rparr>))
         else if i = EID_EXT_SUPP_RATES then
           (if found then do {
              let bytes_to_copy = (if unat n + unat rate_size > MWIFIEX_SUPPORTED_RATES
                                   then of_nat MWIFIEX_SUPPORTED_RATES - rate_size else n);
              d \<leftarrow> copy_rates h body (unat bytes_to_copy) (unat rate_size) d;
              Some (keep d)
            } else Some (keep d))
         else if i = EID_VENDOR_SPECIFIC then map_option keep (vendor_ie h total_ie_len cur d)
         else if i = EID_RSN then Some (keep (d\<lparr>bcn_rsn_ie := Some cur, rsn_offset := off\<rparr>))
         else if i = EID_BSS_AC_ACCESS_DELAY then Some (keep (d\<lparr>bcn_wapi_ie := Some cur, wapi_offset := off\<rparr>))
         else if i = EID_HT_CAPABILITY then Some (keep (d\<lparr>bcn_ht_cap := Some body, ht_cap_offset := body_off\<rparr>))
         else if i = EID_HT_OPERATION then Some (keep (d\<lparr>bcn_ht_oper := Some body, ht_info_offset := body_off\<rparr>))
         else if i = EID_VHT_CAPABILITY then
           Some (keep (d\<lparr>disable_11ac := False, bcn_vht_cap := Some body, vht_cap_offset := body_off\<rparr>))
         else if i = EID_VHT_OPERATION then Some (keep (d\<lparr>bcn_vht_oper := Some body, vht_info_offset := body_off\<rparr>))
         else if i = EID_BSS_COEX_2040 then Some (keep (d\<lparr>bcn_bss_co_2040 := Some cur, bss_co_2040_offset := off\<rparr>))
         else if i = EID_EXT_CAPABILITY then Some (keep (d\<lparr>bcn_ext_cap := Some cur, ext_cap_offset := off\<rparr>))
         else if i = EID_OPMODE_NOTIF then Some (keep (d\<lparr>oper_mode := Some cur, oper_mode_offset := off\<rparr>))
         else Some (keep d))"

text \<open>The sizes the loop computes; the count of the bytes left does not wrap.\<close>

lemma unat_total: "unat (ucast (n::u8) + 2 :: u16) = unat n + 2" "unat (ucast (n::u8) + 2 :: u32) = unat n + 2"
  using unat_u8_less [of n] by (simp_all add: unat_word_ariths del: unat_u8_less)

lemma unat_left:
  fixes n :: u8 and left :: u32
  assumes "\<not> left < ucast (ucast n + 2 :: u16)"
  shows "unat (left - (ucast n + 2)) = unat left - (unat n + 2)" "unat n + 2 \<le> unat left"
proof -
  show le: "unat n + 2 \<le> unat left"
    using assms by (simp add: word_less_nat_alt unat_total(1))
  then show "unat (left - (ucast n + 2)) = unat left - (unat n + 2)"
    by (subst unat_sub) (simp_all add: word_le_nat_alt unat_total(2))
qed

function update_loop :: "heap \<Rightarrow> nat \<Rightarrow> u32 \<Rightarrow> ie_state \<Rightarrow> (int \<times> mwifiex_bssdescriptor) option" where
  "update_loop h pos left st =
     (if left < 2 then Some (0, fst st)
      else (case peek h (beacon_buf (fst st), pos) 2 of
              None \<Rightarrow> None
            | Some hdr \<Rightarrow>
                (let total_ie_len = ucast (hdr ! 1) + 2 :: u16
                 in if left < ucast total_ie_len then Some (-1, fst st)
                    else (case process_ie h (hdr ! 0) (hdr ! 1) total_ie_len (beacon_buf (fst st), pos) st of
                            None \<Rightarrow> None
                          | Some st' \<Rightarrow>
                              update_loop h (pos + unat (hdr ! 1) + 2) (left - (ucast (hdr ! 1) + 2)) st'))))"
  by pat_completeness auto
termination
proof (relation "measure (\<lambda>(h, pos, left, st). unat left)")
  fix hdr :: "byte list" and total_ie_len :: u16 and left :: u32 and h :: heap and pos and st st' :: ie_state
  assume "total_ie_len = ucast (hdr ! 1) + 2" "\<not> left < ucast total_ie_len"
  then show "((h, pos + unat (hdr ! 1) + 2, left - (ucast (hdr ! 1) + 2), st'), h, pos, left, st) \<in>
      measure (\<lambda>(h, pos, left, st). unat left)"
    using unat_left [of left "hdr ! 1"] by simp
qed simp

declare update_loop.simps [simp del]

definition mwifiex_update_bss_desc_with_ie :: "heap \<Rightarrow> mwifiex_bssdescriptor \<Rightarrow> (int \<times> mwifiex_bssdescriptor) option" where
  "mwifiex_update_bss_desc_with_ie h d = update_loop h 0 (beacon_buf_size d) (d, 0, False)"

section \<open>A new description\<close>

text \<open>What the wireless core knows of a network, and the driver's part of it.\<close>

record cfg80211_bss =
  ies_data :: "byte list"
  ies_tsf :: u64
  bssid :: "byte list"
  signal :: u32
  beacon_interval :: u16
  capability :: u16
  priv_band :: u8
  priv_tsf :: u64

text \<open>\<open>kmalloc\<close> chooses the block of a new buffer, or fails with 0.\<close>

definition ENOMEM :: int where "ENOMEM = 12"

definition mwifiex_fill_new_bss_desc ::
  "(heap \<Rightarrow> block) \<Rightarrow> cfg80211_bss \<Rightarrow> mwifiex_bssdescriptor \<Rightarrow> heap \<Rightarrow>
     (int \<times> mwifiex_bssdescriptor \<times> heap) option" where
  "mwifiex_fill_new_bss_desc kmalloc bss d h =
     (let d = d\<lparr>timestamp := ies_tsf bss\<rparr>; b = kmalloc h
      in if b = 0 then Some (- ENOMEM, d, h)
         else
          (let h = h(b := Some (ies_data bss));
               d = d\<lparr>mac_address := bssid bss, rssi := signal bss, beacon_buf := b,
                 beacon_buf_size := of_nat (length (ies_data bss)), beacon_period := beacon_interval bss,
                 cap_info_bitmap := capability bss, bss_band := ucast (priv_band bss), fw_tsf := priv_tsf bss,
                 privacy := (if capability bss AND WLAN_CAPABILITY_PRIVACY \<noteq> 0
                             then PRIV_FILTER_8021X_WEP else PRIV_FILTER_ACCEPT_ALL),
                 desc_mode := (if capability bss AND WLAN_CAPABILITY_IBSS \<noteq> 0
                               then NL80211_IFTYPE_ADHOC else NL80211_IFTYPE_STATION),
                 disable_11ac := True,
                 sensed_11h := (if capability bss AND WLAN_CAPABILITY_SPECTRUM_MGMT \<noteq> 0
                                then True else sensed_11h d)\<rparr>
           in map_option (\<lambda>(ret, d). (ret, d, h)) (mwifiex_update_bss_desc_with_ie h d)))"

section \<open>The copy of the current beacon\<close>

record bcn_priv =
  curr_bss :: mwifiex_bssdescriptor
  curr_bcn_buf :: block
  curr_bcn_size :: u32

text \<open>The pointers of a description that are set again when its beacon moves.\<close>

definition move_pointers :: "mwifiex_bssdescriptor \<Rightarrow> mwifiex_bssdescriptor" where
  "move_pointers d =
     (let at = (\<lambda>p off. map_option (\<lambda>_. (beacon_buf d, unat (off :: u16))) (p :: ptr option))
      in d\<lparr>bcn_wpa_ie := at (bcn_wpa_ie d) (wpa_offset d),
           bcn_rsn_ie := at (bcn_rsn_ie d) (rsn_offset d),
           bcn_ht_cap := at (bcn_ht_cap d) (ht_cap_offset d),
           bcn_ht_oper := at (bcn_ht_oper d) (ht_info_offset d),
           bcn_vht_cap := at (bcn_vht_cap d) (vht_cap_offset d),
           bcn_vht_oper := at (bcn_vht_oper d) (vht_info_offset d),
           bcn_bss_co_2040 := at (bcn_bss_co_2040 d) (bss_co_2040_offset d),
           bcn_ext_cap := at (bcn_ext_cap d) (ext_cap_offset d),
           oper_mode := at (oper_mode d) (oper_mode_offset d)\<rparr>)"

text \<open>The bytes of a new buffer are arbitrary; they are all written before they are read.\<close>

definition mwifiex_save_curr_bcn ::
  "(heap \<Rightarrow> block) \<Rightarrow> bcn_priv \<Rightarrow> heap \<Rightarrow> (bcn_priv \<times> heap) option" where
  "mwifiex_save_curr_bcn kmalloc p h =
     (let d = curr_bss p; n = unat (beacon_buf_size d)
      in if beacon_buf_size d = 0 then Some (p, h)
         else
          (let (p, h) = (if curr_bcn_buf p = 0 \<or> curr_bcn_size p \<noteq> beacon_buf_size d
                    then (let h = kfree (curr_bcn_buf p) h; b = kmalloc h
                          in (p\<lparr>curr_bcn_size := beacon_buf_size d, curr_bcn_buf := b\<rparr>,
                              (if b = 0 then h else h(b := Some (replicate n 0)))))
                    else (p, h))
           in if curr_bcn_buf p = 0 then Some (p, h)
              else do {
                bytes \<leftarrow> peek h (beacon_buf d, 0) n;
                buf \<leftarrow> h (curr_bcn_buf p);
                buf \<leftarrow> store buf 0 bytes;
                Some (p\<lparr>curr_bss := move_pointers (d\<lparr>beacon_buf := curr_bcn_buf p\<rparr>)\<rparr>,
                      h(curr_bcn_buf p := Some buf))
              }))"

definition mwifiex_free_curr_bcn :: "bcn_priv \<Rightarrow> heap \<Rightarrow> bcn_priv \<times> heap" where
  "mwifiex_free_curr_bcn p h = (p\<lparr>curr_bcn_buf := 0\<rparr>, kfree (curr_bcn_buf p) h)"

end
