(* ===== verification/Beacon_Parse.thy ===== *)
theory Beacon_Parse
  imports Bss_Desc
begin

text \<open>
  What the parser of \<open>Bss_Desc\<close> makes of a beacon, against a reader that splits the beacon into its
  elements first: which beacons it leaves its buffers on, where the pointers of the description end up,
  and that the copy of the current beacon keeps them.
\<close>

section \<open>The elements of a beacon\<close>

type_synonym ie = "u8 \<times> byte list"

fun ie_bytes :: "ie \<Rightarrow> byte list" where
  "ie_bytes (i, b) = i # of_nat (length b) # b"

definition ies_bytes :: "ie list \<Rightarrow> byte list" where
  "ies_bytes es = concat (map ie_bytes es)"

text \<open>The elements that are complete, and the bytes after them.\<close>

fun split_ies :: "byte list \<Rightarrow> ie list \<times> byte list" where
  "split_ies (i # n # t) =
     (if unat n \<le> length t
      then (let (es, r) = split_ies (drop (unat n) t) in ((i, take (unat n) t) # es, r))
      else ([], i # n # t))"
| "split_ies bs = ([], bs)"

lemma ies_bytes_simps [simp]:
  "ies_bytes [] = []" "ies_bytes ((i, b) # es) = i # of_nat (length b) # b @ ies_bytes es"
  by (simp_all add: ies_bytes_def)

text \<open>Splitting loses nothing, and the elements have lengths that fit a byte.\<close>

lemma split_ies_bytes:
  assumes "split_ies bs = (es, r)"
  shows "bs = ies_bytes es @ r" "\<forall>(i, b) \<in> set es. length b < 256"
    "length r < 2 \<or> length r < 2 + unat (r ! 1)"
  using assms
proof (induction bs arbitrary: es r rule: split_ies.induct)
  case (1 i n t)
  { case 1
    show ?case
    proof (cases "unat n \<le> length t")
      case True
      with 1 obtain es' where "split_ies (drop (unat n) t) = (es', r)" "es = (i, take (unat n) t) # es'"
        by (auto split: prod.splits)
      with "1.IH"(1) [OF True] True show ?thesis
        by (simp add: min_absorb2) (metis append_take_drop_id)
    qed (use 1 in auto) }
  { case 2
    show ?case
    proof (cases "unat n \<le> length t")
      case True
      with 2 obtain es' where "split_ies (drop (unat n) t) = (es', r)" "es = (i, take (unat n) t) # es'"
        by (auto split: prod.splits)
      with "1.IH"(2) [OF True] True show ?thesis
        by (simp add: min_absorb2)
    qed (use 2 in auto) }
  { case 3
    show ?case
    proof (cases "unat n \<le> length t")
      case True
      with 3 obtain es' where "split_ies (drop (unat n) t) = (es', r)"
        by (auto split: prod.splits)
      with "1.IH"(3) [OF True] show ?thesis
        by simp
    qed (use 3 in auto) }
qed auto

section \<open>What an element does to the description\<close>

text \<open>The pointers of the description, and where each points in its element.\<close>

datatype ie_ptr = Wpa | Rsn | Wapi | Ht_Cap | Ht_Oper | Vht_Cap | Vht_Oper | Coex | Ext_Cap | Opmode

primrec ptr_of :: "ie_ptr \<Rightarrow> mwifiex_bssdescriptor \<Rightarrow> ptr option" where
  "ptr_of Wpa d = bcn_wpa_ie d"
| "ptr_of Rsn d = bcn_rsn_ie d"
| "ptr_of Wapi d = bcn_wapi_ie d"
| "ptr_of Ht_Cap d = bcn_ht_cap d"
| "ptr_of Ht_Oper d = bcn_ht_oper d"
| "ptr_of Vht_Cap d = bcn_vht_cap d"
| "ptr_of Vht_Oper d = bcn_vht_oper d"
| "ptr_of Coex d = bcn_bss_co_2040 d"
| "ptr_of Ext_Cap d = bcn_ext_cap d"
| "ptr_of Opmode d = oper_mode d"

primrec off_of :: "ie_ptr \<Rightarrow> mwifiex_bssdescriptor \<Rightarrow> u16" where
  "off_of Wpa d = wpa_offset d"
| "off_of Rsn d = rsn_offset d"
| "off_of Wapi d = wapi_offset d"
| "off_of Ht_Cap d = ht_cap_offset d"
| "off_of Ht_Oper d = ht_info_offset d"
| "off_of Vht_Cap d = vht_cap_offset d"
| "off_of Vht_Oper d = vht_info_offset d"
| "off_of Coex d = bss_co_2040_offset d"
| "off_of Ext_Cap d = ext_cap_offset d"
| "off_of Opmode d = oper_mode_offset d"

definition body_shift :: "ie_ptr \<Rightarrow> nat" where
  "body_shift k = (if k \<in> {Ht_Cap, Ht_Oper, Vht_Cap, Vht_Oper} then 2 else 0)"

text \<open>Whether an element with number \<open>i\<close> is of a kind; \<open>t\<close> are the bytes from its body to the end of the beacon.\<close>

primrec eid_of :: "ie_ptr \<Rightarrow> u8" where
  "eid_of Wpa = EID_VENDOR_SPECIFIC"
| "eid_of Rsn = EID_RSN"
| "eid_of Wapi = EID_BSS_AC_ACCESS_DELAY"
| "eid_of Ht_Cap = EID_HT_CAPABILITY"
| "eid_of Ht_Oper = EID_HT_OPERATION"
| "eid_of Vht_Cap = EID_VHT_CAPABILITY"
| "eid_of Vht_Oper = EID_VHT_OPERATION"
| "eid_of Coex = EID_BSS_COEX_2040"
| "eid_of Ext_Cap = EID_EXT_CAPABILITY"
| "eid_of Opmode = EID_OPMODE_NOTIF"

definition is_ie :: "ie_ptr \<Rightarrow> u8 \<Rightarrow> byte list \<Rightarrow> bool" where
  "is_ie k i t \<longleftrightarrow> i = eid_of k \<and> (k = Wpa \<longrightarrow> take 4 t = wpa_oui)"

text \<open>The element's body fits the array it is copied to, and the beacon has the bytes that are read.\<close>

definition ie_fits :: "u8 \<Rightarrow> nat \<Rightarrow> byte list \<Rightarrow> bool" where
  "ie_fits i n t \<longleftrightarrow>
     (i = EID_SSID \<longrightarrow> n \<le> 32) \<and> (i = EID_SUPP_RATES \<longrightarrow> n \<le> 14) \<and>
     (i = EID_FH_PARAMS \<longrightarrow> 5 \<le> length t) \<and> (i = EID_CF_PARAMS \<longrightarrow> 6 \<le> length t) \<and>
     (i = EID_IBSS_PARAMS \<longrightarrow> 2 \<le> length t) \<and> (i = EID_VENDOR_SPECIFIC \<longrightarrow> 4 \<le> length t) \<and>
     (i \<in> {EID_DS_PARAMS, EID_ERP_INFO, EID_PWR_CONSTRAINT} \<longrightarrow> t \<noteq> [])"

fun all_fit :: "ie list \<Rightarrow> byte list \<Rightarrow> bool" where
  "all_fit [] r \<longleftrightarrow> True"
| "all_fit ((i, b) # es) r \<longleftrightarrow> ie_fits i (length b) (b @ ies_bytes es @ r) \<and> all_fit es r"

text \<open>The offset of the last element of a kind, counted from \<open>p\<close>; the body of the last element with a number.\<close>

fun last_ie :: "ie_ptr \<Rightarrow> nat \<Rightarrow> ie list \<Rightarrow> byte list \<Rightarrow> nat option" where
  "last_ie k p [] r = None"
| "last_ie k p ((i, b) # es) r =
     (case last_ie k (p + 2 + length b) es r of
        Some q \<Rightarrow> Some q
      | None \<Rightarrow> if is_ie k i (b @ ies_bytes es @ r) then Some p else None)"

fun last_body :: "u8 \<Rightarrow> ie list \<Rightarrow> byte list option" where
  "last_body i [] = None"
| "last_body i ((j, b) # es) =
     (case last_body i es of Some c \<Rightarrow> Some c | None \<Rightarrow> if i = j then Some b else None)"

lemma all_ie_ptr:
  "(\<forall>k. P k) \<longleftrightarrow> P Wpa \<and> P Rsn \<and> P Wapi \<and> P Ht_Cap \<and> P Ht_Oper \<and> P Vht_Cap \<and> P Vht_Oper \<and>
     P Coex \<and> P Ext_Cap \<and> P Opmode"
  by (metis ie_ptr.exhaust)


text \<open>One element at \<open>pos\<close>: its pointer is set, nothing else is, and an SSID is taken over.\<close>

definition ie_step :: "u8 \<Rightarrow> u8 \<Rightarrow> byte list \<Rightarrow> nat \<Rightarrow> ie_state \<Rightarrow> ie_state \<Rightarrow> bool" where
  "ie_step i n t pos st st' \<longleftrightarrow>
     (let d = fst st; d' = fst st'
      in arrays_ok d' \<and> beacon_buf d' = beacon_buf d \<and> beacon_buf_size d' = beacon_buf_size d \<and> unat (fst (snd st')) \<le> 14 \<and>
         (\<forall>k. ptr_of k d' = (if is_ie k i t then Some (beacon_buf d, pos + body_shift k) else ptr_of k d)) \<and>
         (\<forall>k. off_of k d' = (if is_ie k i t then of_nat (pos + body_shift k) else off_of k d)) \<and>
         ssid_len d' = (if i = EID_SSID then n else ssid_len d) \<and>
         take (unat n) (ssid d') = (if i = EID_SSID then take (unat n) t else take (unat n) (ssid d)) \<and>
         (i \<noteq> EID_SSID \<longrightarrow> ssid d' = ssid d))"

lemma ie_reads:
  assumes "h b = Some buf" and "drop pos buf = i # n # t"
  shows "peek h (b, pos) m = (if m \<le> length t + 2 then Some (take m (i # n # t)) else None)"
    "peek h (b, Suc (Suc pos)) m = (if m \<le> length t then Some (take m t) else None)"
    "peek8 h (b, Suc (Suc pos)) = (if t = [] then None else Some (hd t))"
proof -
  have len: "length buf = pos + 2 + length t"
    using arg_cong [OF assms(2), of length] by simp
  have t: "drop (Suc (Suc pos)) buf = t"
    using arg_cong [OF assms(2), of "drop 2"] by (simp add: numeral_2_eq_2)
  show "peek h (b, pos) m = (if m \<le> length t + 2 then Some (take m (i # n # t)) else None)"
    using assms by (auto simp: peek_def load_def len)
  show p: "peek h (b, Suc (Suc pos)) m = (if m \<le> length t then Some (take m t) else None)" for m
    using assms by (auto simp: peek_def load_def len t)
  show "peek8 h (b, Suc (Suc pos)) = (if t = [] then None else Some (hd t))"
    unfolding peek8_def p by (cases t) auto
qed

lemma copy_rates_ok:
  assumes "length (data_rates d) = 14" and "length (supported_rates d) = 14"
  shows "copy_rates h p n at d =
    (case peek h p n of None \<Rightarrow> None
     | Some bytes \<Rightarrow> if at + length bytes \<le> 14
         then Some (d\<lparr>data_rates := take at (data_rates d) @ bytes @ drop (at + length bytes) (data_rates d),
                 supported_rates := take at (supported_rates d) @ bytes @ drop (at + length bytes) (supported_rates d)\<rparr>)
         else None)"
  using assms by (auto simp: copy_rates_def store_def split: option.splits)

lemma rates_left:
  fixes n r :: u8
  assumes "unat r \<le> 14" and "14 < unat n + unat r"
  shows "unat (14 - r) = 14 - unat r"
  using assms(1) by (subst unat_sub) (simp_all add: word_le_nat_alt)

text \<open>The numbers the parser knows.\<close>

definition known_eids :: "u8 set" where
  "known_eids = {EID_SSID, EID_SUPP_RATES, EID_FH_PARAMS, EID_DS_PARAMS, EID_CF_PARAMS, EID_IBSS_PARAMS,
     EID_PWR_CONSTRAINT, EID_PWR_CAPABILITY, EID_TPC_REPORT, EID_CHANNEL_SWITCH, EID_QUIET, EID_ERP_INFO,
     EID_HT_CAPABILITY, EID_RSN, EID_EXT_SUPP_RATES, EID_HT_OPERATION, EID_BSS_AC_ACCESS_DELAY,
     EID_BSS_COEX_2040, EID_EXT_CAPABILITY, EID_VHT_CAPABILITY, EID_VHT_OPERATION, EID_OPMODE_NOTIF,
     EID_VENDOR_SPECIFIC}"

lemma wmm_sizes:
  fixes n :: u8
  shows "(ucast n = (24 :: u16)) = (unat n = 24)" "(ucast n = (7 :: u16)) = (unat n = 7)"
  by (simp_all add: word_unat_eq_iff)

lemma process_ie_fits:
  assumes h: "h (beacon_buf d) = Some buf" and at: "drop pos buf = i # n # t" and n: "unat n \<le> length t"
    and a: "arrays_ok d" and rs: "unat rs \<le> 14" and fits: "ie_fits i (unat n) t"
  shows "\<exists>st'. process_ie h i n (ucast n + 2) (beacon_buf d, pos) (d, rs, found) = Some st' \<and>
    ie_step i n t pos (d, rs, found) st'" (is ?goal)
proof -
  note r = ie_reads [where h = h, OF h at]
  have lens: "length (ssid d) = 32" "length (data_rates d) = 14" "length (supported_rates d) = 14"
    "length (phy_param_set d) = 7" "length (ss_param_set d) = 8" "length (desc_wmm_ie d) = 26"
    using a by (simp_all add: arrays_ok_def IEEE80211_MAX_SSID_LEN_def MWIFIEX_SUPPORTED_RATES_def)
  note sizes = arrays_ok_def IEEE80211_MAX_SSID_LEN_def MWIFIEX_SUPPORTED_RATES_def store_def min_absorb2
  note defs = process_ie_def ie_fits_def eids ie_step_def Let_def all_ie_ptr is_ie_def body_shift_def r lens sizes Suc_le_eq
  consider "i = EID_SSID \<or> i = EID_FH_PARAMS \<or> i = EID_DS_PARAMS \<or> i = EID_CF_PARAMS \<or> i = EID_IBSS_PARAMS \<or>
      i = EID_ERP_INFO \<or> i = EID_PWR_CONSTRAINT"
    | "i = EID_PWR_CAPABILITY \<or> i = EID_TPC_REPORT \<or> i = EID_CHANNEL_SWITCH \<or> i = EID_QUIET"
    | "i = EID_HT_CAPABILITY \<or> i = EID_RSN \<or> i = EID_HT_OPERATION \<or> i = EID_BSS_AC_ACCESS_DELAY \<or> i = EID_BSS_COEX_2040"
    | "i = EID_EXT_CAPABILITY \<or> i = EID_VHT_CAPABILITY \<or> i = EID_VHT_OPERATION \<or> i = EID_OPMODE_NOTIF"
    | "i = EID_SUPP_RATES" | "i = EID_EXT_SUPP_RATES" | "i = EID_VENDOR_SPECIFIC" | "i \<notin> known_eids"
    unfolding known_eids_def by blast
  then show ?goal
  proof cases
    case 1
    with fits n rs a show ?thesis
      by (elim disjE) (simp_all add: defs)
  next
    case 2
    with fits n rs a show ?thesis
      by (elim disjE) (simp_all add: defs)
  next
    case 3
    with fits n rs a show ?thesis
      by (elim disjE) (simp_all add: defs)
  next
    case 4
    with fits n rs a show ?thesis
      by (elim disjE) (simp_all add: defs)
  next
    case 5
    with fits n rs a show ?thesis
      by (simp add: defs copy_rates_ok)
  next
    case 6
    with fits n rs a rates_left [OF rs, of n] show ?thesis
      by (auto simp: defs copy_rates_ok)
  next
    case 7
    with fits n rs a show ?thesis
      by (simp add: defs vendor_ie_def wpa_oui_def wmm_oui_def WMM_PARAMETER_SIZE_def WMM_INFO_SIZE_def
          wmm_sizes unat_total)
  next
    case 8
    with fits n rs a show ?thesis
      by (simp add: defs known_eids_def)
  qed
qed

lemma process_ie_misfit:
  assumes h: "h (beacon_buf d) = Some buf" and at: "drop pos buf = i # n # t" and n: "unat n \<le> length t"
    and a: "arrays_ok d" and misfit: "\<not> ie_fits i (unat n) t"
  shows "process_ie h i n (ucast n + 2) (beacon_buf d, pos) (d, rs, found) = None"
proof -
  note r = ie_reads [where h = h, OF h at]
  have lens: "length (ssid d) = 32" "length (data_rates d) = 14" "length (supported_rates d) = 14"
    using a by (simp_all add: arrays_ok_def IEEE80211_MAX_SSID_LEN_def MWIFIEX_SUPPORTED_RATES_def)
  show ?thesis
    using n misfit unfolding ie_fits_def
    by (auto simp: process_ie_def eids r copy_rates_ok lens store_def vendor_ie_def not_le)
qed

lemma unat_left_word:
  fixes left :: u32
  assumes "unat left = m" "unat (n :: u8) + 2 \<le> m"
  shows "\<not> left < 2" "\<not> left < ucast (ucast n + 2 :: u16)"
    "unat (left - (ucast n + 2)) = m - (unat n + 2)"
proof -
  show "\<not> left < 2" 
    using assms by (simp add: word_less_nat_alt)
  show le: "\<not> left < ucast (ucast n + 2 :: u16)"
    using assms by (simp add: word_less_nat_alt unat_total(1))
  show "unat (left - (ucast n + 2)) = m - (unat n + 2)"
    using unat_left(1) [OF le] assms(1) by simp
qed

text \<open>What the elements from \<open>pos\<close> on make of a description.\<close>

definition taken_over :: "ie list \<Rightarrow> byte list \<Rightarrow> nat \<Rightarrow> mwifiex_bssdescriptor \<Rightarrow> mwifiex_bssdescriptor \<Rightarrow> bool" where
  "taken_over es r pos d d' \<longleftrightarrow>
     (\<forall>k. ptr_of k d' = (case last_ie k pos es r of
         None \<Rightarrow> ptr_of k d | Some q \<Rightarrow> Some (beacon_buf d, q + body_shift k))) \<and>
     (\<forall>k. off_of k d' = (case last_ie k pos es r of
         None \<Rightarrow> off_of k d | Some q \<Rightarrow> of_nat (q + body_shift k))) \<and>
     (case last_body EID_SSID es of
        None \<Rightarrow> ssid_len d' = ssid_len d \<and> ssid d' = ssid d
      | Some b \<Rightarrow> ssid_len d' = of_nat (length b) \<and> take (length b) (ssid d') = b)"

lemma taken_over_Cons:
  assumes "ie_step i (of_nat (length b)) (b @ ies_bytes es @ r) pos st st'" and "length b < 256"
    and "taken_over es r (pos + 2 + length b) (fst st') d'"
  shows "taken_over ((i, b) # es) r pos (fst st) d'"
proof -
  have n: "unat (of_nat (length b) :: u8) = length b"
    using assms(2) by (simp add: unat_of_nat)
  show ?thesis
    using assms(1,3) unfolding taken_over_def ie_step_def Let_def
    by (auto simp: n split: option.splits)
qed

lemma two_bytes: "\<not> length (r :: byte list) < 2 \<Longrightarrow> \<exists>i n t. r = i # n # t"
  by (cases r rule: split_ies.cases) auto

text \<open>The elements that are complete are processed one after the other.\<close>

lemma update_loop_run:
  assumes "h (beacon_buf (fst st)) = Some buf" and "drop pos buf = ies_bytes es @ r"
    and "unat left = length (ies_bytes es @ r)" and "\<forall>(i, b) \<in> set es. length b < 256"
    and "length r < 2 \<or> length r < 2 + unat (r ! 1)"
    and "arrays_ok (fst st)" and "unat (fst (snd st)) \<le> 14"
  shows "if all_fit es r
         then \<exists>d'. update_loop h pos left st = Some (if length r < 2 then 0 else -1, d') \<and> arrays_ok d' \<and>
           beacon_buf d' = beacon_buf (fst st) \<and> beacon_buf_size d' = beacon_buf_size (fst st) \<and>
           taken_over es r pos (fst st) d'
         else update_loop h pos left st = None"
  using assms
proof (induction es arbitrary: pos left st)
  case Nil
  then have buf: "drop pos buf = r" and left: "unat left = length r"
    by simp_all
  have same: "taken_over [] r pos (fst st) (fst st)"
    by (simp add: taken_over_def)
  show ?case
  proof (cases "length r < 2")
    case True
    then have "left < 2"
      using left by (simp add: word_less_nat_alt)
    then show ?thesis
      using True Nil.prems(6) same by (simp add: update_loop.simps)
  next
    case False
    then obtain i n t where r: "r = i # n # t"
      using two_bytes by blast
    have "peek h (beacon_buf (fst st), pos) 2 = Some [i, n]"
      using ie_reads(1) [where h = h and b = "beacon_buf (fst st)" and buf = buf and m = 2] Nil.prems(1) buf r by simp
    moreover have "\<not> left < 2" "left < ucast (ucast n + 2 :: u16)"
      using False left Nil.prems(5) r by (simp_all add: word_less_nat_alt unat_total(1))
    ultimately show ?thesis
      using False Nil.prems(6) same by (simp add: update_loop.simps)
  qed
next
  case (Cons e es)
  obtain i b where e: "e = (i, b)"
    by fastforce
  define n :: u8 where "n = of_nat (length b)"
  define t where "t = b @ ies_bytes es @ r"
  have b: "unat n = length b"
    using Cons.prems(4) e by (simp add: n_def unat_of_nat)
  have at: "drop pos buf = i # n # t" and len: "unat left = length t + 2"
    using Cons.prems(2,3) e by (simp_all add: n_def t_def)
  have nt: "unat n \<le> length t"
    using b by (simp add: t_def)
  obtain d rs found where st: "st = (d, rs, found)"
    by (cases st)
  have hd: "h (beacon_buf d) = Some buf" "arrays_ok d" "unat rs \<le> 14"
    using Cons.prems st by simp_all
  have rd: "peek h (beacon_buf d, pos) 2 = Some [i, n]"
    using ie_reads(1) [where h = h and b = "beacon_buf d" and buf = buf and m = 2] hd(1) at by simp
  note w = unat_left_word [OF len, of n, simplified, OF nt]
  have loop: "update_loop h pos left st =
      (case process_ie h i n (ucast n + 2) (beacon_buf d, pos) (d, rs, found) of
         None \<Rightarrow> None
       | Some st' \<Rightarrow> update_loop h (pos + unat n + 2) (left - (ucast n + 2)) st')"
    using rd w by (subst update_loop.simps) (simp add: st Let_def split: option.split)
  show ?case
  proof (cases "ie_fits i (length b) t")
    case False
    then show ?thesis
      using process_ie_misfit [where h = h, OF hd(1) at nt hd(2), of rs found] b loop by (simp add: e t_def)
  next
    case True
    then obtain st' where st': "process_ie h i n (ucast n + 2) (beacon_buf d, pos) (d, rs, found) = Some st'"
      "ie_step i n t pos st st'"
      using process_ie_fits [where h = h, OF hd(1) at nt hd(2,3), of found] b st by auto
    then have bb: "beacon_buf (fst st') = beacon_buf (fst st)" "arrays_ok (fst st')" "unat (fst (snd st')) \<le> 14"
      "beacon_buf_size (fst st') = beacon_buf_size (fst st)"
      by (simp_all add: ie_step_def Let_def)
    have rest: "drop (pos + unat n + 2) buf = ies_bytes es @ r"
      using arg_cong [OF at, of "drop (unat n + 2)"] by (simp add: t_def b add.commute)
    have left: "unat (left - (ucast n + 2)) = length (ies_bytes es @ r)"
      using w(3) b by (simp add: t_def)
    have small: "\<forall>(i, b) \<in> set es. length b < 256" "length b < 256"
      using Cons.prems(4) e by auto
    note IH = Cons.IH [OF _ rest left small(1) Cons.prems(5) bb(2,3), unfolded bb(1,4), OF Cons.prems(1)]
    have over: "taken_over (e # es) r pos (fst st) d'" if "taken_over es r (pos + unat n + 2) (fst st') d'" for d'
      using taken_over_Cons [OF st'(2) [unfolded n_def t_def] small(2)] that by (simp add: e b algebra_simps)
    show ?thesis
      using IH over True by (auto simp: loop st'(1) e t_def [symmetric])
  qed
qed

section \<open>The parser\<close>

lemma parse_run:
  assumes "h (beacon_buf d) = Some buf" and "beacon_buf_size d = of_nat (length buf)"
    and "length buf < 2 ^ 32" and "arrays_ok d"
  shows "if all_fit (fst (split_ies buf)) (snd (split_ies buf))
         then \<exists>d'. mwifiex_update_bss_desc_with_ie h d = Some (if length (snd (split_ies buf)) < 2 then 0 else -1, d') \<and>
           arrays_ok d' \<and> beacon_buf d' = beacon_buf d \<and> beacon_buf_size d' = beacon_buf_size d \<and>
           taken_over (fst (split_ies buf)) (snd (split_ies buf)) 0 d d'
         else mwifiex_update_bss_desc_with_ie h d = None"
proof -
  obtain es r where split: "split_ies buf = (es, r)"
    by fastforce
  note parts = split_ies_bytes [OF split]
  have "unat (beacon_buf_size d) = length (ies_bytes es @ r)"
    using assms(2,3) unfolding parts(1) [symmetric] by (simp add: unat_of_nat)
  then show ?thesis
    using update_loop_run [where h = h and st = "(d, 0, False)" and pos = 0 and buf = buf and es = es and r = r and
        left = "beacon_buf_size d"] assms(1,4) parts(2,3) parts(1) [symmetric]
    unfolding split mwifiex_update_bss_desc_with_ie_def fst_conv snd_conv by simp
qed

text \<open>
  C23: the parser leaves its buffers on exactly the beacons in which a complete element does not fit: an
  SSID of more than 32 bytes, more than 14 rates, or a parameter set, ERP element, power constraint or vendor element whose
  fixed bytes the beacon ends in (\<open>ie_fits\<close>).
\<close>

theorem beacon_overruns:
  assumes "h (beacon_buf d) = Some buf" and "beacon_buf_size d = of_nat (length buf)"
    and "length buf < 2 ^ 32" and "arrays_ok d"
  shows "mwifiex_update_bss_desc_with_ie h d = None \<longleftrightarrow>
    \<not> all_fit (fst (split_ies buf)) (snd (split_ies buf))"
  using parse_run [where h = h, OF assms] by (auto split: if_splits)

definition zero_desc :: mwifiex_bssdescriptor where
  "zero_desc = \<lparr>mac_address = replicate 6 0, ssid_len = 0, ssid = replicate 32 0, privacy = 0, rssi = 0,
     bss_channel = 0, beacon_period = 0, erp_flags = 0, desc_mode = 0, supported_rates = replicate 14 0,
     data_rates = replicate 14 0, bss_band = 0, fw_tsf = 0, timestamp = 0, phy_param_set = replicate 7 0,
     ss_param_set = replicate 8 0, cap_info_bitmap = 0, desc_wmm_ie = replicate 26 0, disable_11n = False,
     bcn_ht_cap = None, ht_cap_offset = 0, bcn_ht_oper = None, ht_info_offset = 0, bcn_bss_co_2040 = None,
     bss_co_2040_offset = 0, bcn_ext_cap = None, ext_cap_offset = 0, bcn_vht_cap = None, vht_cap_offset = 0,
     bcn_vht_oper = None, vht_info_offset = 0, oper_mode = None, oper_mode_offset = 0, disable_11ac = False,
     bcn_wpa_ie = None, wpa_offset = 0, bcn_rsn_ie = None, rsn_offset = 0, bcn_wapi_ie = None, wapi_offset = 0,
     beacon_buf = 0, beacon_buf_size = 0, sensed_11h = False, local_constraint = 0, chan_sw_ie_present = False\<rparr>"

lemma zero_desc_ok: "arrays_ok (zero_desc\<lparr>beacon_buf := b, beacon_buf_size := n\<rparr>)" "ptr_of k zero_desc = None"
  by (simp add: arrays_ok_def zero_desc_def IEEE80211_MAX_SSID_LEN_def MWIFIEX_SUPPORTED_RATES_def)
    (cases k; simp add: zero_desc_def)

text \<open>An access point whose name has 33 bytes.\<close>

definition long_name :: "byte list" where
  "long_name = EID_SSID # 33 # replicate 33 0x41"

lemma beacon_overruns_witness:
  "mwifiex_update_bss_desc_with_ie [1 \<mapsto> long_name] (zero_desc\<lparr>beacon_buf := 1, beacon_buf_size := 35\<rparr>) = None"
proof -
  let ?d = "zero_desc\<lparr>beacon_buf := 1, beacon_buf_size := 35\<rparr>"
  have size: "beacon_buf_size ?d = of_nat (length long_name)" "length long_name < 2 ^ 32"
    by (simp_all add: long_name_def)
  have "\<not> all_fit (fst (split_ies long_name)) (snd (split_ies long_name))"
    by (simp add: long_name_def ie_fits_def)
  then show ?thesis
    using beacon_overruns [of "[1 \<mapsto> long_name]" ?d long_name, OF _ size zero_desc_ok(1)] by simp
qed

text \<open>
  C19: a beacon whose elements fit is parsed to its end: the answer is 0, or -1 if its last element is cut
  off; each pointer and its offset lead to the last element of its kind and stay null without one; the
  name is that of the last SSID.
\<close>

theorem beacon_elements_found:
  assumes "h (beacon_buf d) = Some buf" and "beacon_buf_size d = of_nat (length buf)"
    and "length buf < 2 ^ 32" and "arrays_ok d"
    and "split_ies buf = (es, r)" and "all_fit es r"
  shows "\<exists>d'. mwifiex_update_bss_desc_with_ie h d = Some (if length r < 2 then 0 else -1, d') \<and>
    (\<forall>k. ptr_of k d' = (case last_ie k 0 es r of
        None \<Rightarrow> ptr_of k d | Some q \<Rightarrow> Some (beacon_buf d, q + body_shift k))) \<and>
    (\<forall>k. off_of k d' = (case last_ie k 0 es r of
        None \<Rightarrow> off_of k d | Some q \<Rightarrow> of_nat (q + body_shift k))) \<and>
    (case last_body EID_SSID es of
       None \<Rightarrow> ssid_len d' = ssid_len d \<and> ssid d' = ssid d
     | Some b \<Rightarrow> ssid_len d' = of_nat (length b) \<and> take (length b) (ssid d') = b)"
  using parse_run [where h = h, OF assms(1-4)] assms(5,6) by (auto simp: taken_over_def)

text \<open>A beacon with a name, security and 802.11n capabilities, cut off in the last.\<close>

definition demo_beacon :: "byte list" where
  "demo_beacon = [EID_SSID, 2, 0x61, 0x62, EID_RSN, 1, 9, EID_HT_CAPABILITY, 2, 7, 8, EID_SSID, 1, 0x63, EID_HT_OPERATION, 5]"

lemma demo_beacon_split:
  "split_ies demo_beacon = ([(EID_SSID, [0x61, 0x62]), (EID_RSN, [9]), (EID_HT_CAPABILITY, [7, 8]), (EID_SSID, [0x63])],
     [EID_HT_OPERATION, 5])"
  by (simp add: demo_beacon_def)

lemma beacon_elements_found_witness:
  "\<exists>d'. mwifiex_update_bss_desc_with_ie [1 \<mapsto> demo_beacon] (zero_desc\<lparr>beacon_buf := 1, beacon_buf_size := 16\<rparr>) = Some (-1, d') \<and>
    bcn_rsn_ie d' = Some (1, 4) \<and> bcn_ht_cap d' = Some (1, 9) \<and> bcn_ht_oper d' = None \<and> ssid_len d' = 1"
proof -
  let ?es = "fst (split_ies demo_beacon)"
  have fit: "all_fit ?es [EID_HT_OPERATION, 5]" 
    by (simp add: demo_beacon_split ie_fits_def eids)
  let ?d = "zero_desc\<lparr>beacon_buf := 1, beacon_buf_size := 16\<rparr>"
  have size: "beacon_buf_size ?d = of_nat (length demo_beacon)" "length demo_beacon < 2 ^ 32"
    by (simp_all add: demo_beacon_def)
  have beacon: "[1 \<mapsto> demo_beacon] (beacon_buf ?d) = Some demo_beacon"
    and split: "split_ies demo_beacon = (?es, [EID_HT_OPERATION, 5])"
    by (simp_all add: demo_beacon_split)
  obtain d' where d': "mwifiex_update_bss_desc_with_ie [1 \<mapsto> demo_beacon] ?d =
        Some (if length [EID_HT_OPERATION, 5] < 2 then 0 else -1, d')"
    "\<forall>k. ptr_of k d' = (case last_ie k 0 ?es [EID_HT_OPERATION, 5] of
        None \<Rightarrow> ptr_of k ?d | Some q \<Rightarrow> Some (beacon_buf ?d, q + body_shift k))"
    "case last_body EID_SSID ?es of None \<Rightarrow> ssid_len d' = ssid_len ?d \<and> ssid d' = ssid ?d
     | Some b \<Rightarrow> ssid_len d' = of_nat (length b) \<and> take (length b) (ssid d') = b"
    using beacon_elements_found [where h = "[1 \<mapsto> demo_beacon]", OF beacon size zero_desc_ok(1) split fit] by blast
  have "ptr_of Rsn d' = Some (1, 4) \<and> ptr_of Ht_Cap d' = Some (1, 9)"
    unfolding d'(2) [rule_format, of Rsn] d'(2) [rule_format, of Ht_Cap]
    by (simp add: demo_beacon_split is_ie_def eids body_shift_def)
  moreover have "ptr_of Ht_Oper d' = None"
    unfolding d'(2) [rule_format, of Ht_Oper]
    by (simp add: demo_beacon_split is_ie_def eids zero_desc_def)
  moreover have "ssid_len d' = 1"
    using d'(3) by (simp add: demo_beacon_split eids)
  ultimately show ?thesis
    using d'(1) by (intro exI [of _ d'] conjI) simp_all
qed

section \<open>Pointers and offsets\<close>

text \<open>The offsets of a description agree with its pointers.\<close>

definition offsets_ok :: "mwifiex_bssdescriptor \<Rightarrow> bool" where
  "offsets_ok d \<longleftrightarrow> (\<forall>k q. ptr_of k d = Some q \<longrightarrow> q = (beacon_buf d, unat (off_of k d)))"

lemma last_ie_bound: "last_ie k p es r = Some q \<Longrightarrow> q + 2 \<le> p + length (ies_bytes es)"
  by (induction es arbitrary: p) (fastforce split: option.splits if_splits)+

lemma taken_over_offsets:
  assumes "taken_over es r 0 d d'" and "\<forall>k. ptr_of k d = None" and "length (ies_bytes es) < 65536"
    and "beacon_buf d' = beacon_buf d"
  shows "offsets_ok d'"
    "ptr_of k d' = map_option (\<lambda>q. (beacon_buf d, q + body_shift k)) (last_ie k 0 es r)"
proof -
  have p: "ptr_of k d' = map_option (\<lambda>q. (beacon_buf d, q + body_shift k)) (last_ie k 0 es r)" for k
    using assms(1,2) by (simp add: taken_over_def split: option.splits)
  then show "ptr_of k d' = map_option (\<lambda>q. (beacon_buf d, q + body_shift k)) (last_ie k 0 es r)" .
  show "offsets_ok d'"
    unfolding offsets_ok_def
  proof (intro allI impI)
    fix k q assume "ptr_of k d' = Some q"
    then obtain m where m: "last_ie k 0 es r = Some m" "q = (beacon_buf d, m + body_shift k)"
      using p [of k] by auto
    then have "off_of k d' = of_nat (m + body_shift k)" "m + body_shift k < 65536"
      using assms(1,3) last_ie_bound [OF m(1)] by (auto simp: taken_over_def body_shift_def split: if_splits)
    then show "q = (beacon_buf d', unat (off_of k d'))"
      using m(2) assms(4) by (simp add: unat_of_nat del: of_nat_add)
  qed
qed

section \<open>The copy of the current beacon\<close>

lemma moved_pointers:
  "beacon_buf (move_pointers d) = beacon_buf d" "ptr_of Wapi (move_pointers d) = ptr_of Wapi d"
  "k \<noteq> Wapi \<Longrightarrow> ptr_of k (move_pointers d) = map_option (\<lambda>_. (beacon_buf d, unat (off_of k d))) (ptr_of k d)"
  by (simp_all add: move_pointers_def Let_def) (cases k; simp)

lemma store_whole: "length buf = length xs \<Longrightarrow> store buf 0 xs = Some xs"
  by (simp add: store_def)

lemma save_curr_bcn:
  assumes off: "offsets_ok (curr_bss p)" and buf: "h (beacon_buf (curr_bss p)) = Some buf"
    and len: "beacon_buf_size (curr_bss p) = of_nat (length buf)" "0 < length buf" "length buf < 2 ^ 32"
    and old: "curr_bcn_buf p \<noteq> 0 \<longrightarrow> (\<exists>bs. h (curr_bcn_buf p) = Some bs \<and> length bs = unat (curr_bcn_size p))"
    and new: "curr_bcn_buf p \<noteq> beacon_buf (curr_bss p)" "beacon_buf (curr_bss p) \<noteq> 0"
    and malloc: "\<forall>h. kmalloc h = 0 \<or> h (kmalloc h) = None"
  obtains p' h' where "mwifiex_save_curr_bcn kmalloc p h = Some (p', h')"
    "curr_bcn_buf p' \<noteq> beacon_buf (curr_bss p)"
    "curr_bcn_buf p' = 0 \<longrightarrow> curr_bss p' = curr_bss p"
    "curr_bcn_buf p' \<noteq> 0 \<longrightarrow> h' (curr_bcn_buf p') = Some buf \<and> length buf = unat (curr_bcn_size p') \<and>
       (\<forall>k. ptr_of k (curr_bss p') = (if k = Wapi then ptr_of k (curr_bss p)
          else map_option (\<lambda>q. (curr_bcn_buf p', snd q)) (ptr_of k (curr_bss p))))"
proof -
  let ?d = "curr_bss p"
  have n: "unat (beacon_buf_size ?d) = length buf" "beacon_buf_size ?d \<noteq> 0"
    using len by (auto simp: unat_of_nat dest: arg_cong [of _ _ unat])
  define q where "q = (if curr_bcn_buf p = 0 \<or> curr_bcn_size p \<noteq> beacon_buf_size ?d
      then (let h = kfree (curr_bcn_buf p) h; b = kmalloc h
            in (p\<lparr>curr_bcn_size := beacon_buf_size ?d, curr_bcn_buf := b\<rparr>,
                (if b = 0 then h else h(b := Some (replicate (length buf) 0)))))
      else (p, h))"
  obtain p1 h1 where q: "q = (p1, h1)"
    by fastforce
  have p1: "curr_bss p1 = ?d" "h1 (beacon_buf ?d) = Some buf" "curr_bcn_buf p1 \<noteq> beacon_buf ?d"
      "curr_bcn_buf p1 \<noteq> 0 \<longrightarrow> curr_bcn_size p1 = beacon_buf_size ?d \<and>
         (\<exists>bs. h1 (curr_bcn_buf p1) = Some bs \<and> length bs = length buf)"
    using q old new buf n malloc [rule_format, of "kfree (curr_bcn_buf p) h"]
    by (auto simp: q_def kfree_def Let_def split: if_splits)
  have save: "mwifiex_save_curr_bcn kmalloc p h =
      (if curr_bcn_buf p1 = 0 then Some (p1, h1)
       else Some (p1\<lparr>curr_bss := move_pointers (?d\<lparr>beacon_buf := curr_bcn_buf p1\<rparr>)\<rparr>, h1(curr_bcn_buf p1 := Some buf)))"
    using n p1 unfolding mwifiex_save_curr_bcn_def Let_def q_def [unfolded Let_def n(1) [symmetric], symmetric] q
    by (auto simp: peek_def load_def store_def)
  have moved: "ptr_of k (move_pointers (?d\<lparr>beacon_buf := c\<rparr>)) =
      (if k = Wapi then ptr_of k ?d else map_option (\<lambda>q. (c, snd q)) (ptr_of k ?d))" for k c
  proof (cases "k = Wapi")
    case False
    have "ptr_of k (?d\<lparr>beacon_buf := c\<rparr>) = ptr_of k ?d" "off_of k (?d\<lparr>beacon_buf := c\<rparr>) = off_of k ?d"
      by (cases k; simp)+
    then show ?thesis
      using False off by (cases "ptr_of k ?d") (auto simp: moved_pointers(3) offsets_ok_def)
  qed (simp add: moved_pointers(2) del: ptr_of.simps, simp)
  show ?thesis
  proof (cases "curr_bcn_buf p1 = 0")
    case True
    then show ?thesis
      using that save p1(1,3) by simp
  next
    case False
    then show ?thesis
      using that [OF save [unfolded if_not_P [OF False]]] p1 n moved by simp
  qed
qed

end
