(* ===== verification/Net_Match.thy ===== *)
theory Net_Match
  imports Beacon_Parse
begin

text \<open>
  Whether a network suits the driver's settings, and what happens to the networks of a scan,
  \<open>doc/mwifiex/scan.c\<close>: the search for a cipher in the security elements, the table of security
  modes, the channels of hidden networks, and the description of the network the station is in. The
  debug output is left out.
\<close>

section \<open>State\<close>

record user_scan_chan =
  chan_number :: u8
  radio_type :: u8
  scan_type :: u8

record net_priv =
  radio :: cfp_priv
  wpa_enabled :: bool
  wpa2_enabled :: bool
  wapi_enabled :: bool
  wep_enabled :: bool
  encryption_mode :: u32
  session_enable :: bool
  hidden_chan :: "user_scan_chan list"
  bcn :: bcn_priv

definition MWIFIEX_SCAN_TYPE_ACTIVE :: u8 where "MWIFIEX_SCAN_TYPE_ACTIVE = 1"
definition RSN_GTK_OUI_OFFSET :: nat where "RSN_GTK_OUI_OFFSET = 2"

datatype cipher_suite = CIPHER_SUITE_TKIP | CIPHER_SUITE_CCMP

fun mwifiex_wpa_oui :: "cipher_suite \<Rightarrow> byte list" where
  "mwifiex_wpa_oui CIPHER_SUITE_TKIP = [0x00, 0x50, 0xf2, 0x02]"
| "mwifiex_wpa_oui CIPHER_SUITE_CCMP = [0x00, 0x50, 0xf2, 0x04]"

fun mwifiex_rsn_oui :: "cipher_suite \<Rightarrow> byte list" where
  "mwifiex_rsn_oui CIPHER_SUITE_TKIP = [0x00, 0x0f, 0xac, 0x02]"
| "mwifiex_rsn_oui CIPHER_SUITE_CCMP = [0x00, 0x0f, 0xac, 0x04]"

section \<open>Ciphers\<close>

text \<open>Both headers start with the number of the element.\<close>

definition has_ieee_hdr :: "heap \<Rightarrow> ptr option \<Rightarrow> u8 \<Rightarrow> bool option" where
  "has_ieee_hdr h p key = (case p of None \<Rightarrow> Some False | Some p \<Rightarrow> map_option (\<lambda>i. i = key) (peek8 h p))"

definition has_vendor_hdr :: "heap \<Rightarrow> ptr option \<Rightarrow> u8 \<Rightarrow> bool option" where
  "has_vendor_hdr h p key = (case p of None \<Rightarrow> Some False | Some p \<Rightarrow> map_option (\<lambda>i. i = key) (peek8 h p))"

text \<open>The body at \<open>p\<close> has the group cipher, a count of two bytes, and the pairwise ciphers.\<close>

fun search_oui :: "heap \<Rightarrow> ptr \<Rightarrow> byte list \<Rightarrow> nat \<Rightarrow> bool option" where
  "search_oui h p oui 0 = Some False"
| "search_oui h p oui (Suc n) = do {
     ptk_body \<leftarrow> peek h (fst p, snd p + 6) 4;
     if ptk_body = oui then Some True else search_oui h (fst p, snd p + 4) oui n
   }"

definition mwifiex_search_oui_in_ie :: "heap \<Rightarrow> ptr \<Rightarrow> byte list \<Rightarrow> bool option" where
  "mwifiex_search_oui_in_ie h p oui = do {
     cnt \<leftarrow> peek8 h (fst p, snd p + 4);
     search_oui h p oui (unat cnt)
   }"

definition mwifiex_is_rsn_oui_present :: "heap \<Rightarrow> mwifiex_bssdescriptor \<Rightarrow> cipher_suite \<Rightarrow> bool option" where
  "mwifiex_is_rsn_oui_present h d c = do {
     rsn \<leftarrow> has_ieee_hdr h (bcn_rsn_ie d) EID_RSN;
     if rsn then (case bcn_rsn_ie d of
         None \<Rightarrow> None
       | Some p \<Rightarrow> mwifiex_search_oui_in_ie h (fst p, snd p + 2 + RSN_GTK_OUI_OFFSET) (mwifiex_rsn_oui c))
     else Some False
   }"

definition mwifiex_is_wpa_oui_present :: "heap \<Rightarrow> mwifiex_bssdescriptor \<Rightarrow> cipher_suite \<Rightarrow> bool option" where
  "mwifiex_is_wpa_oui_present h d c = do {
     wpa \<leftarrow> has_vendor_hdr h (bcn_wpa_ie d) EID_VENDOR_SPECIFIC;
     if wpa then (case bcn_wpa_ie d of
         None \<Rightarrow> None
       | Some p \<Rightarrow> mwifiex_search_oui_in_ie h (fst p, snd p + 8) (mwifiex_wpa_oui c))
     else Some False
   }"

text \<open>\<open>memcmp\<close> only tells whether the names differ; \<open>None\<close> is the null pointer.\<close>

definition mwifiex_ssid_cmp :: "(u8 \<times> byte list) option \<Rightarrow> (u8 \<times> byte list) option \<Rightarrow> bool option" where
  "mwifiex_ssid_cmp s1 s2 =
     (case (s1, s2) of
        (Some (n1, b1), Some (n2, b2)) \<Rightarrow>
          (if n1 \<noteq> n2 then Some True
           else do { x \<leftarrow> load b1 0 (unat n1); y \<leftarrow> load b2 0 (unat n1); Some (x \<noteq> y) })
      | _ \<Rightarrow> Some True)"

section \<open>Security modes\<close>

definition mwifiex_is_bss_wapi :: "heap \<Rightarrow> net_priv \<Rightarrow> mwifiex_bssdescriptor \<Rightarrow> bool option" where
  "mwifiex_is_bss_wapi h p d =
     (if wapi_enabled p then has_ieee_hdr h (bcn_wapi_ie d) EID_BSS_AC_ACCESS_DELAY else Some False)"

text \<open>Neither a WPA nor an RSN element.\<close>

definition no_security_ie :: "heap \<Rightarrow> mwifiex_bssdescriptor \<Rightarrow> bool option" where
  "no_security_ie h d = do {
     wpa \<leftarrow> has_vendor_hdr h (bcn_wpa_ie d) EID_VENDOR_SPECIFIC;
     if wpa then Some False else map_option Not (has_ieee_hdr h (bcn_rsn_ie d) EID_RSN)
   }"

definition mwifiex_is_bss_no_sec :: "heap \<Rightarrow> net_priv \<Rightarrow> mwifiex_bssdescriptor \<Rightarrow> bool option" where
  "mwifiex_is_bss_no_sec h p d =
     (if \<not> wep_enabled p \<and> \<not> wpa_enabled p \<and> \<not> wpa2_enabled p
      then map_option (\<lambda>no. no \<and> encryption_mode p = 0 \<and> privacy d = 0) (no_security_ie h d)
      else Some False)"

definition mwifiex_is_bss_static_wep :: "net_priv \<Rightarrow> mwifiex_bssdescriptor \<Rightarrow> bool" where
  "mwifiex_is_bss_static_wep p d \<longleftrightarrow> wep_enabled p \<and> \<not> wpa_enabled p \<and> \<not> wpa2_enabled p \<and> privacy d \<noteq> 0"

definition mwifiex_is_bss_wpa :: "heap \<Rightarrow> net_priv \<Rightarrow> mwifiex_bssdescriptor \<Rightarrow> bool option" where
  "mwifiex_is_bss_wpa h p d =
     (if \<not> wep_enabled p \<and> wpa_enabled p \<and> \<not> wpa2_enabled p
      then has_vendor_hdr h (bcn_wpa_ie d) EID_VENDOR_SPECIFIC else Some False)"

definition mwifiex_is_bss_wpa2 :: "heap \<Rightarrow> net_priv \<Rightarrow> mwifiex_bssdescriptor \<Rightarrow> bool option" where
  "mwifiex_is_bss_wpa2 h p d =
     (if \<not> wep_enabled p \<and> \<not> wpa_enabled p \<and> wpa2_enabled p
      then has_ieee_hdr h (bcn_rsn_ie d) EID_RSN else Some False)"

definition mwifiex_is_bss_adhoc_aes :: "heap \<Rightarrow> net_priv \<Rightarrow> mwifiex_bssdescriptor \<Rightarrow> bool option" where
  "mwifiex_is_bss_adhoc_aes h p d =
     (if \<not> wep_enabled p \<and> \<not> wpa_enabled p \<and> \<not> wpa2_enabled p
      then map_option (\<lambda>no. no \<and> encryption_mode p = 0 \<and> privacy d \<noteq> 0) (no_security_ie h d)
      else Some False)"

definition mwifiex_is_bss_dynamic_wep :: "heap \<Rightarrow> net_priv \<Rightarrow> mwifiex_bssdescriptor \<Rightarrow> bool option" where
  "mwifiex_is_bss_dynamic_wep h p d =
     (if \<not> wep_enabled p \<and> \<not> wpa_enabled p \<and> \<not> wpa2_enabled p
      then map_option (\<lambda>no. no \<and> encryption_mode p \<noteq> 0 \<and> privacy d \<noteq> 0) (no_security_ie h d)
      else Some False)"

text \<open>A network with WPA or WPA2 needs AES for 802.11n: without it 802.11n is switched off, and without TKIP too the network is refused.\<close>

definition need_ccmp ::
  "(cipher_suite \<Rightarrow> bool option) \<Rightarrow> net_priv \<Rightarrow> mwifiex_bssdescriptor \<Rightarrow> (int \<times> mwifiex_bssdescriptor) option" where
  "need_ccmp present p d =
     (if (config_bands (radio p) AND BAND_GN \<noteq> 0 \<or> config_bands (radio p) AND BAND_AN \<noteq> 0) \<and> bcn_ht_cap d \<noteq> None
      then do {
        ccmp \<leftarrow> present CIPHER_SUITE_CCMP;
        if ccmp then Some (0, d)
        else do {
          tkip \<leftarrow> present CIPHER_SUITE_TKIP;
          if tkip then Some (0, d\<lparr>disable_11n := True\<rparr>) else Some (-1, d)
        }
      } else Some (0, d))"

definition mwifiex_is_network_compatible ::
  "heap \<Rightarrow> net_priv \<Rightarrow> mwifiex_bssdescriptor \<Rightarrow> u32 \<Rightarrow> (int \<times> mwifiex_bssdescriptor) option" where
  "mwifiex_is_network_compatible h p d wanted =
     (let d = d\<lparr>disable_11n := False\<rparr>
      in if media_connected (radio p) \<and> bss_mode (radio p) = NL80211_IFTYPE_STATION \<and>
            desc_mode d = NL80211_IFTYPE_STATION then Some (0, d)
         else if session_enable p then Some (0, d)
         else if chan_sw_ie_present d then Some (-1, d)
         else do {
           wapi \<leftarrow> mwifiex_is_bss_wapi h p d;
           if wapi then Some (0, d)
           else if desc_mode d \<noteq> wanted then Some (-1, d)
           else do {
             no_sec \<leftarrow> mwifiex_is_bss_no_sec h p d;
             if no_sec then Some (0, d)
             else if mwifiex_is_bss_static_wep p d then Some (0, d\<lparr>disable_11n := True\<rparr>)
             else do {
               wpa \<leftarrow> mwifiex_is_bss_wpa h p d;
               if wpa then need_ccmp (mwifiex_is_wpa_oui_present h d) p d
               else do {
                 wpa2 \<leftarrow> mwifiex_is_bss_wpa2 h p d;
                 if wpa2 then need_ccmp (mwifiex_is_rsn_oui_present h d) p d
                 else do {
                   aes \<leftarrow> mwifiex_is_bss_adhoc_aes h p d;
                   if aes then Some (0, d)
                   else do {
                     dynamic \<leftarrow> mwifiex_is_bss_dynamic_wep h p d;
                     Some (if dynamic then 0 else -1, d)
                   }
                 }
               }
             }
           }
         })"

definition mwifiex_check_network_compatibility ::
  "heap \<Rightarrow> net_priv \<Rightarrow> mwifiex_bssdescriptor option \<Rightarrow>
     (int \<times> mwifiex_bssdescriptor option \<times> net_priv) option" where
  "mwifiex_check_network_compatibility h p d =
     (case d of
        None \<Rightarrow> Some (-1, None, p)
      | Some d \<Rightarrow>
          (let (found, r) = mwifiex_get_cfp (radio p) (ucast (bss_band d)) (ucast (bss_channel d)) 0;
               p = p\<lparr>radio := r\<rparr>
           in if \<not> found then Some (-1, Some d, p)
              else if bss_mode (radio p) = NL80211_IFTYPE_STATION \<or> bss_mode (radio p) = NL80211_IFTYPE_ADHOC
              then map_option (\<lambda>(ret, d). (ret, Some d, p))
                     (mwifiex_is_network_compatible h p d (bss_mode (radio p)))
              else Some (0, Some d, p)))"

section \<open>Networks of a scan\<close>

text \<open>A name of zeros only; the length is not checked against the array.\<close>

definition mwifiex_is_hidden_ssid :: "u8 \<Rightarrow> byte list \<Rightarrow> bool option" where
  "mwifiex_is_hidden_ssid n s =
     (case find (\<lambda>i. idx s i \<noteq> Some 0) [0..<unat n] of
        None \<Rightarrow> Some True | Some i \<Rightarrow> map_option (\<lambda>_. False) (idx s i))"

text \<open>The first entry with the channel stops the search; the first free one takes it.\<close>

fun add_hidden_chan :: "u16 \<Rightarrow> u8 \<Rightarrow> user_scan_chan list \<Rightarrow> user_scan_chan list" where
  "add_hidden_chan nr band [] = []"
| "add_hidden_chan nr band (c # cs) =
     (if ucast (chan_number c) = nr then c # cs
      else if chan_number c = 0
      then c\<lparr>chan_number := ucast nr, radio_type := band, scan_type := MWIFIEX_SCAN_TYPE_ACTIVE\<rparr> # cs
      else c # add_hidden_chan nr band cs)"

text \<open>\<open>zeroed\<close> is the new description, or none without memory; the core's channel has a number and a band.\<close>

definition mwifiex_save_hidden_ssid_channels ::
  "(heap \<Rightarrow> block) \<Rightarrow> mwifiex_bssdescriptor option \<Rightarrow> cfg80211_bss \<Rightarrow> u16 \<Rightarrow> u8 \<Rightarrow> net_priv \<Rightarrow> heap \<Rightarrow>
     (int \<times> net_priv \<times> heap) option" where
  "mwifiex_save_hidden_ssid_channels kmalloc zeroed bss nr band p h =
     (case zeroed of
        None \<Rightarrow> Some (- ENOMEM, p, h)
      | Some d \<Rightarrow> do {
          (ret, d, h) \<leftarrow> mwifiex_fill_new_bss_desc kmalloc bss d h;
          if ret \<noteq> 0 then Some (0, p, kfree (beacon_buf d) h)
          else do {
            hidden \<leftarrow> mwifiex_is_hidden_ssid (ssid_len d) (ssid d);
            Some (0, (if hidden then p\<lparr>hidden_chan := add_hidden_chan nr band (hidden_chan p)\<rparr> else p),
              kfree (beacon_buf d) h)
          }
        })"

definition mwifiex_update_curr_bss_params ::
  "(heap \<Rightarrow> block) \<Rightarrow> mwifiex_bssdescriptor option \<Rightarrow> cfg80211_bss \<Rightarrow> net_priv \<Rightarrow> heap \<Rightarrow>
     (int \<times> net_priv \<times> heap) option" where
  "mwifiex_update_curr_bss_params kmalloc zeroed bss p h =
     (case zeroed of
        None \<Rightarrow> Some (- ENOMEM, p, h)
      | Some d \<Rightarrow> do {
          (ret, d, h) \<leftarrow> mwifiex_fill_new_bss_desc kmalloc bss d h;
          if ret \<noteq> 0 then Some (0, p, kfree (beacon_buf d) h)
          else do {
            (ret, d', p) \<leftarrow> mwifiex_check_network_compatibility h p (Some d);
            case d' of
              None \<Rightarrow> None
            | Some d \<Rightarrow>
                (if ret \<noteq> 0 then Some (0, p, kfree (beacon_buf d) h)
                 else do {
                   (c, h) \<leftarrow> mwifiex_save_curr_bcn kmalloc ((bcn p)\<lparr>curr_bss := d\<rparr>) h;
                   Some (0, p\<lparr>bcn := c\<rparr>, kfree (beacon_buf d) h)
                 })
          }
        })"

end
