(* ===== verification/Net_Props.thy ===== *)
theory Net_Props
  imports Net_Match
begin

text \<open>
  The properties of \<open>Net_Match\<close>: what the search for a cipher finds and when it leaves the beacon, that
  802.11n is only used with AES on a protected network, and what is left of the beacon of the network
  the station is in once its buffer is freed.
\<close>

section \<open>The search for a cipher\<close>

text \<open>A security body has a suite among those its count announces.\<close>

definition offers :: "heap \<Rightarrow> ptr \<Rightarrow> byte list \<Rightarrow> bool" where
  "offers h p oui \<longleftrightarrow> (\<exists>cnt i. peek8 h (fst p, snd p + 4) = Some cnt \<and> i < unat cnt \<and>
     peek h (fst p, snd p + 6 + 4 * i) 4 = Some oui)"

lemma ex_less_Suc: "(\<exists>i < Suc n. P i) \<longleftrightarrow> P 0 \<or> (\<exists>i < n. P (Suc i))"
  by (metis Suc_less_eq gr0_conv_Suc less_Suc_eq_0_disj)

lemma search_oui_found:
  assumes "search_oui h p oui n = Some found"
  shows "found \<longleftrightarrow> (\<exists>i < n. peek h (fst p, snd p + 6 + 4 * i) 4 = Some oui)"
  using assms
proof (induction n arbitrary: p)
  case (Suc n)
  have shift: "snd p + 6 + 4 * Suc i = snd p + 4 + 6 + 4 * i" for i
    by simp
  from Suc.prems Suc.IH [of "(fst p, snd p + 4)"] show ?case
    unfolding ex_less_Suc shift by (auto simp: bind_eq_Some_conv split: if_splits)
qed simp

lemma search_in_ie_found:
  "mwifiex_search_oui_in_ie h p oui = Some found \<Longrightarrow> found \<longleftrightarrow> offers h p oui"
  using search_oui_found by (fastforce simp: mwifiex_search_oui_in_ie_def bind_eq_Some_conv offers_def)

text \<open>The count is not checked against the element: without a match the search runs off the beacon.\<close>

lemma search_oui_overrun:
  assumes "h (fst p) = Some buf" and "\<forall>i < n. peek h (fst p, snd p + 6 + 4 * i) 4 \<noteq> Some oui"
    and "length buf < snd p + 6 + 4 * n" and "0 < n"
  shows "search_oui h p oui n = None"
  using assms
proof (induction n arbitrary: p)
  case (Suc n)
  have shift: "snd p + 6 + 4 * Suc i = snd p + 4 + 6 + 4 * i" for i
    by simp
  note none = Suc.prems(2) [rule_format, of 0, simplified]
  show ?case
  proof (cases "length buf < snd p + 10")
    case True
    then show ?thesis
      using Suc.prems(1) by (simp add: peek_def load_def)
  next
    case False
    then have "0 < n"
      using Suc.prems(3) by (cases n) auto
    have "search_oui h (fst p, snd p + 4) oui n = None"
    proof (rule Suc.IH)
      show "\<forall>i < n. peek h (fst (fst p, snd p + 4), snd (fst p, snd p + 4) + 6 + 4 * i) 4 \<noteq> Some oui"
        using Suc.prems(2) unfolding fst_conv snd_conv shift [symmetric] by (metis Suc_less_eq)
    qed (use Suc.prems(1,3) \<open>0 < n\<close> in simp_all)
    then show ?thesis
      using none by (cases "peek h (fst p, snd p + 6) 4") auto
  qed
qed simp

theorem suite_count_unchecked:
  assumes "h (fst p) = Some buf" and "peek8 h (fst p, snd p + 4) = Some cnt" and "0 < unat cnt"
    and "length buf < snd p + 6 + 4 * unat cnt" and "\<not> offers h p oui"
  shows "mwifiex_search_oui_in_ie h p oui = None"
  using assms search_oui_overrun [where h = h, OF assms(1), of "unat cnt" oui]
  by (auto simp: mwifiex_search_oui_in_ie_def offers_def)

section \<open>The security table\<close>

lemma compatible_keeps:
  assumes "mwifiex_is_network_compatible h p d m = Some (ret, d')"
  shows "\<exists>x. d' = d\<lparr>disable_11n := x\<rparr>"
proof -
  have "\<exists>x. e' = d\<lparr>disable_11n := x\<rparr>" 
    if "need_ccmp f p (d\<lparr>disable_11n := False\<rparr>) = Some (r, e')" for f r e'
    using that by (auto simp: need_ccmp_def bind_eq_Some_conv split: if_splits)
  then show ?thesis
    using assms
    by (auto simp: mwifiex_is_network_compatible_def Let_def bind_eq_Some_conv split: if_splits)
qed

lemma wpa_present:
  assumes "mwifiex_is_wpa_oui_present h d c = Some found" and "has_vendor_hdr h (bcn_wpa_ie d) EID_VENDOR_SPECIFIC = Some True"
  shows "\<exists>q. bcn_wpa_ie d = Some q \<and> (found \<longleftrightarrow> offers h (fst q, snd q + 8) (mwifiex_wpa_oui c))"
  using assms search_in_ie_found
  by (cases "bcn_wpa_ie d") (auto simp: mwifiex_is_wpa_oui_present_def has_vendor_hdr_def)

lemma rsn_present:
  assumes "mwifiex_is_rsn_oui_present h d c = Some found" and "has_ieee_hdr h (bcn_rsn_ie d) EID_RSN = Some True"
  shows "\<exists>q. bcn_rsn_ie d = Some q \<and> (found \<longleftrightarrow> offers h (fst q, snd q + 4) (mwifiex_rsn_oui c))"
  using assms search_in_ie_found
  by (cases "bcn_rsn_ie d") (auto simp: mwifiex_is_rsn_oui_present_def has_ieee_hdr_def RSN_GTK_OUI_OFFSET_def
add.commute
      simp del: add_2_eq_Suc add_2_eq_Suc')

text \<open>Both sides have 802.11n, and it is not switched off.\<close>

definition can_use_11n :: "net_priv \<Rightarrow> mwifiex_bssdescriptor \<Rightarrow> bool" where
  "can_use_11n p d \<longleftrightarrow> (config_bands (radio p) AND BAND_GN \<noteq> 0 \<or> config_bands (radio p) AND BAND_AN \<noteq> 0) \<and>
     bcn_ht_cap d \<noteq> None"

definition uses_11n :: "net_priv \<Rightarrow> mwifiex_bssdescriptor \<Rightarrow> bool" where
  "uses_11n p d \<longleftrightarrow> can_use_11n p d \<and> \<not> disable_11n d"

definition roaming :: "net_priv \<Rightarrow> mwifiex_bssdescriptor \<Rightarrow> bool" where
  "roaming p d \<longleftrightarrow> media_connected (radio p) \<and> bss_mode (radio p) = NL80211_IFTYPE_STATION \<and>
     desc_mode d = NL80211_IFTYPE_STATION"

definition wpa_offers_aes :: "heap \<Rightarrow> mwifiex_bssdescriptor \<Rightarrow> bool" where
  "wpa_offers_aes h d \<longleftrightarrow> (\<exists>q. bcn_wpa_ie d = Some q \<and> offers h (fst q, snd q + 8) (mwifiex_wpa_oui CIPHER_SUITE_CCMP))"

definition rsn_offers_aes :: "heap \<Rightarrow> mwifiex_bssdescriptor \<Rightarrow> bool" where
  "rsn_offers_aes h d \<longleftrightarrow> (\<exists>q. bcn_rsn_ie d = Some q \<and> offers h (fst q, snd q + 4) (mwifiex_rsn_oui CIPHER_SUITE_CCMP))"

lemma can_use_11n_disable [simp]: "can_use_11n p (d\<lparr>disable_11n := x\<rparr>) = can_use_11n p d"
  by (simp add: can_use_11n_def)

lemma need_ccmp_uses:
  assumes "need_ccmp f p (d\<lparr>disable_11n := False\<rparr>) = Some (0, d')"
  shows "uses_11n p d' \<longleftrightarrow> can_use_11n p d \<and> f CIPHER_SUITE_CCMP = Some True"
proof (cases "can_use_11n p d")
  case True
  then show ?thesis
    using assms
    by (cases "f CIPHER_SUITE_CCMP") (auto simp: need_ccmp_def uses_11n_def can_use_11n_def bind_eq_Some_conv split: if_split_asm)
qed (use assms in \<open>auto simp: need_ccmp_def uses_11n_def can_use_11n_def\<close>)

lemma wpa_uses:
  assumes "need_ccmp (mwifiex_is_wpa_oui_present h (d\<lparr>disable_11n := False\<rparr>)) p (d\<lparr>disable_11n := False\<rparr>) = Some (0, d')"
    and "has_vendor_hdr h (bcn_wpa_ie d) EID_VENDOR_SPECIFIC = Some True"
  shows "uses_11n p d' \<longleftrightarrow> can_use_11n p d \<and> wpa_offers_aes h d"
proof (cases "can_use_11n p d")
  case True
  then obtain found where "mwifiex_is_wpa_oui_present h (d\<lparr>disable_11n := False\<rparr>) CIPHER_SUITE_CCMP = Some found"
    using assms(1) by (auto simp: need_ccmp_def can_use_11n_def bind_eq_Some_conv)
  with wpa_present [OF this] assms(2) show ?thesis
    using need_ccmp_uses [OF assms(1)] by (auto simp: wpa_offers_aes_def)
qed (simp add: need_ccmp_uses [OF assms(1)])

lemma rsn_uses:
  assumes "need_ccmp (mwifiex_is_rsn_oui_present h (d\<lparr>disable_11n := False\<rparr>)) p (d\<lparr>disable_11n := False\<rparr>) = Some (0, d')"
    and "has_ieee_hdr h (bcn_rsn_ie d) EID_RSN = Some True"
  shows "uses_11n p d' \<longleftrightarrow> can_use_11n p d \<and> rsn_offers_aes h d"
proof (cases "can_use_11n p d")
  case True
  then obtain found where "mwifiex_is_rsn_oui_present h (d\<lparr>disable_11n := False\<rparr>) CIPHER_SUITE_CCMP = Some found"
    using assms(1) by (auto simp: need_ccmp_def can_use_11n_def bind_eq_Some_conv)
  with rsn_present [OF this] assms(2) show ?thesis
    using need_ccmp_uses [OF assms(1)] by (auto simp: rsn_offers_aes_def)
qed (simp add: need_ccmp_uses [OF assms(1)])

text \<open>
  C21: when an accepted network is used with 802.11n, provided that both sides have it. While roaming and in a WPS
  session, always; else the network does not announce a change of channel, and with a WAPI network and WAPI on, always; else it has
  the mode asked for, and with WEP on, never; with WPA or WPA2 on exactly if AES is among as many ciphers of the network's element
  as its count announces; with none of the three on, always, dynamic WEP included.
\<close>

theorem high_throughput_needs_aes:
  assumes "mwifiex_is_network_compatible h p d m = Some (0, d')"
  shows "if roaming p d \<or> session_enable p then uses_11n p d' \<longleftrightarrow> can_use_11n p d
    else \<not> chan_sw_ie_present d \<and>
      (if mwifiex_is_bss_wapi h p d = Some True then uses_11n p d' \<longleftrightarrow> can_use_11n p d
       else desc_mode d = m \<and>
         (if wep_enabled p then \<not> wpa_enabled p \<and> \<not> wpa2_enabled p \<and> \<not> uses_11n p d'
          else if wpa_enabled p then \<not> wpa2_enabled p \<and> (uses_11n p d' \<longleftrightarrow> can_use_11n p d \<and> wpa_offers_aes h d)
          else if wpa2_enabled p then uses_11n p d' \<longleftrightarrow> can_use_11n p d \<and> rsn_offers_aes h d
          else uses_11n p d' \<longleftrightarrow> can_use_11n p d))"
proof (cases "roaming p d \<or> session_enable p")
  case True
  then have "mwifiex_is_network_compatible h p d m = Some (0, d\<lparr>disable_11n := False\<rparr>)"
    by (elim disjE) (simp_all add: mwifiex_is_network_compatible_def Let_def roaming_def)
  then show ?thesis
    using assms True by (auto simp: uses_11n_def)
next
  case False
  let ?d = "d\<lparr>disable_11n := False\<rparr>"
  have same: "mwifiex_is_bss_wapi h p ?d = mwifiex_is_bss_wapi h p d"
    "bcn_wpa_ie ?d = bcn_wpa_ie d" "bcn_rsn_ie ?d = bcn_rsn_ie d"
    by (simp_all add: mwifiex_is_bss_wapi_def)
  have sw: "\<not> chan_sw_ie_present d"
    using assms False by (auto simp: mwifiex_is_network_compatible_def Let_def roaming_def split: if_splits)
  show ?thesis
  proof (cases "mwifiex_is_bss_wapi h p d = Some True")
    case True
    then have "mwifiex_is_network_compatible h p d m = Some (0, ?d)"
      using False sw by (simp add: mwifiex_is_network_compatible_def Let_def roaming_def same)
    then show ?thesis
      using assms False sw True by (auto simp: uses_11n_def)
  next
    case no_wapi: False
    have mode: "desc_mode d = m"
      using assms False no_wapi
      by (auto simp: mwifiex_is_network_compatible_def Let_def roaming_def same bind_eq_Some_conv split: if_splits)
    consider "wep_enabled p" "\<not> wpa_enabled p" "\<not> wpa2_enabled p" "d' = ?d\<lparr>disable_11n := True\<rparr>"
      | "\<not> wep_enabled p" "wpa_enabled p" "\<not> wpa2_enabled p"
        "need_ccmp (mwifiex_is_wpa_oui_present h ?d) p ?d = Some (0, d')" "has_vendor_hdr h (bcn_wpa_ie d) EID_VENDOR_SPECIFIC = Some True"
      | "\<not> wep_enabled p" "\<not> wpa_enabled p" "wpa2_enabled p"
        "need_ccmp (mwifiex_is_rsn_oui_present h ?d) p ?d = Some (0, d')" "has_ieee_hdr h (bcn_rsn_ie d) EID_RSN = Some True"
      | "\<not> wep_enabled p" "\<not> wpa_enabled p" "\<not> wpa2_enabled p" "d' = ?d"
      using assms False no_wapi
      by (auto simp: mwifiex_is_network_compatible_def Let_def bind_eq_Some_conv roaming_def same
          mwifiex_is_bss_no_sec_def mwifiex_is_bss_static_wep_def mwifiex_is_bss_wpa_def
          mwifiex_is_bss_wpa2_def mwifiex_is_bss_adhoc_aes_def mwifiex_is_bss_dynamic_wep_def split: if_splits)
    then show ?thesis
    proof cases
      case 1
      then show ?thesis
        using False no_wapi sw mode by (simp add: uses_11n_def)
    next
      case 2
      then show ?thesis
        using False no_wapi sw mode wpa_uses [OF 2(4,5)] by simp
    next
      case 3
      then show ?thesis
        using False no_wapi sw mode rsn_uses [OF 3(4,5)] by simp
    next
      case 4
      then show ?thesis
        using False no_wapi sw mode by (simp add: uses_11n_def)
    qed
  qed
qed


text \<open>A station with WPA2 and an access point with TKIP and AES for its pairs.\<close>

definition aes_beacon :: "byte list" where
  "aes_beacon = [EID_RSN, 16, 1, 0, 0x00, 0x0f, 0xac, 0x02, 2, 0, 0x00, 0x0f, 0xac, 0x02, 0x00, 0x0f, 0xac, 0x04]"

definition demo_wlan :: net_priv where
  "demo_wlan = \<lparr>radio = demo_priv\<lparr>config_bands := BAND_GN, bss_mode := 2, media_connected := False\<rparr>, wpa_enabled = False, wpa2_enabled = True,
     wapi_enabled = False, wep_enabled = False, encryption_mode = 0, session_enable = False, hidden_chan = [],
     bcn = \<lparr>curr_bss = zero_desc, curr_bcn_buf = 0, curr_bcn_size = 0\<rparr>\<rparr>"

definition aes_desc :: mwifiex_bssdescriptor where
  "aes_desc = zero_desc\<lparr>desc_mode := 2, bcn_rsn_ie := Some (1, 0), bcn_ht_cap := Some (1, 0)\<rparr>"

lemma high_throughput_needs_aes_witness:
  "mwifiex_is_network_compatible [1 \<mapsto> aes_beacon] demo_wlan aes_desc 2 = Some (0, aes_desc) \<and>
   rsn_offers_aes [1 \<mapsto> aes_beacon] aes_desc"
proof -
  have r: "mwifiex_is_network_compatible [1 \<mapsto> aes_beacon] demo_wlan aes_desc 2 = Some (0, aes_desc)"
    by code_simp
  have u: "uses_11n demo_wlan aes_desc" "\<not> roaming demo_wlan aes_desc" "mwifiex_is_bss_wapi [1 \<mapsto> aes_beacon] demo_wlan aes_desc = Some False"
    by code_simp+
  have "rsn_offers_aes [1 \<mapsto> aes_beacon] aes_desc"
    using high_throughput_needs_aes [OF r] u by (simp add: demo_wlan_def)
  then show ?thesis
    using r by simp
qed


section \<open>The network the station is in\<close>

text \<open>The state of the copy: its buffer is there and has its size.\<close>

definition copy_ok :: "bcn_priv \<Rightarrow> heap \<Rightarrow> bool" where
  "copy_ok c h \<longleftrightarrow> (curr_bcn_buf c \<noteq> 0 \<longrightarrow>
     (\<exists>bs. h (curr_bcn_buf c) = Some bs \<and> length bs = unat (curr_bcn_size c)))"

lemma fill_parsed:
  assumes fill: "mwifiex_fill_new_bss_desc kmalloc bss zero_desc h = Some (ret, d, h1)"
    and split: "split_ies (ies_data bss) = (es, r)" and len: "length (ies_data bss) < 65536"
    and malloc: "kmalloc h = 0 \<or> h (kmalloc h) = None"
  shows "kmalloc h = 0 \<and> ret \<noteq> 0 \<and> h1 = h \<and> beacon_buf d = 0 \<or>
    kmalloc h \<noteq> 0 \<and> h (beacon_buf d) = None \<and> beacon_buf d = kmalloc h \<and> h1 = h(kmalloc h := Some (ies_data bss)) \<and>
    beacon_buf_size d = of_nat (length (ies_data bss)) \<and> offsets_ok d \<and>
    (\<forall>k. ptr_of k d = map_option (\<lambda>q. (kmalloc h, q + body_shift k)) (last_ie k 0 es r))"
proof (cases "kmalloc h = 0")
  case True
  then show ?thesis
    using fill by (auto simp: mwifiex_fill_new_bss_desc_def ENOMEM_def zero_desc_def)
next
  case False
  let ?ies = "ies_data bss" and ?b = "kmalloc h"
  obtain d0 where run: "mwifiex_update_bss_desc_with_ie (h(?b := Some ?ies)) d0 = Some (ret, d)"
    and d0: "beacon_buf d0 = ?b" "beacon_buf_size d0 = of_nat (length ?ies)" "arrays_ok d0" "\<forall>k. ptr_of k d0 = None"
    and h1: "h1 = h(?b := Some ?ies)"
    using fill False
    by (fastforce simp: mwifiex_fill_new_bss_desc_def Let_def all_ie_ptr arrays_ok_def zero_desc_def
        IEEE80211_MAX_SSID_LEN_def MWIFIEX_SUPPORTED_RATES_def)
  have "beacon_buf d = ?b \<and> beacon_buf_size d = of_nat (length ?ies) \<and> taken_over es r 0 d0 d"
    using parse_run [of "h(?b := Some ?ies)" d0 ?ies] d0 len run by (simp add: split split: if_splits)
  moreover have "length (ies_bytes es) < 65536"
    using len split_ies_bytes(1) [OF split] by simp
  ultimately show ?thesis
    using taken_over_offsets [of es r d0 d] d0 malloc False h1 by simp
qed

lemma pointers_of_compatible:
  "ptr_of k (d\<lparr>disable_11n := x\<rparr>) = ptr_of k d" "off_of k (d\<lparr>disable_11n := x\<rparr>) = off_of k d"
  "offsets_ok (d\<lparr>disable_11n := x\<rparr>) \<longleftrightarrow> offsets_ok d"
proof -
  show "ptr_of k (d\<lparr>disable_11n := x\<rparr>) = ptr_of k d" "off_of k (d\<lparr>disable_11n := x\<rparr>) = off_of k d" for k
    by (cases k; simp)+
  then show "offsets_ok (d\<lparr>disable_11n := x\<rparr>) \<longleftrightarrow> offsets_ok d"
    by (simp add: offsets_ok_def)
qed


lemma kfree_new: "h b = None \<Longrightarrow> kfree b (h(b := x)) = (if b = 0 then h(b := x) else h)"
  by (auto simp: kfree_def fun_upd_idem)

text \<open>
  C20: after a scan nothing changed or the description of the current network is that of the new beacon. The
  buffer the beacon was parsed in is freed by then, and the pointers lead to the last elements of their kinds
  in the driver's copy of it; but the WAPI pointer still leads into the freed buffer, and all of them do
  if there was no memory for the copy.
\<close>

theorem current_beacon_kept:
  assumes malloc: "\<forall>h. kmalloc h = 0 \<or> h (kmalloc h) = None"
    and copy: "copy_ok (bcn p) h" and len: "0 < length (ies_data bss)" "length (ies_data bss) < 65536"
    and split: "split_ies (ies_data bss) = (es, r)"
    and run: "mwifiex_update_curr_bss_params kmalloc (Some zero_desc) bss p h = Some (ret, p', h')"
  shows "ret = 0 \<and> copy_ok (bcn p') h' \<and>
    (bcn p' = bcn p \<and> h' = h \<or>
     (let c = bcn p'
      in h' (kmalloc h) = None \<and> (curr_bcn_buf c \<noteq> 0 \<longrightarrow> h' (curr_bcn_buf c) = Some (ies_data bss)) \<and>
         (\<forall>k. ptr_of k (curr_bss c) =
            map_option (\<lambda>q. (if k = Wapi \<or> curr_bcn_buf c = 0 then kmalloc h else curr_bcn_buf c, q + body_shift k))
              (last_ie k 0 es r))))"
proof -
  obtain ret1 d h1 where fill: "mwifiex_fill_new_bss_desc kmalloc bss zero_desc h = Some (ret1, d, h1)"
    using run by (auto simp: mwifiex_update_curr_bss_params_def bind_eq_Some_conv)
  note filled = fill_parsed [OF fill split len(2) malloc [rule_format]]
  show ?thesis
  proof (cases "ret1 = 0")
    case False
    then have "ret = 0" "p' = p" "h' = kfree (beacon_buf d) h1"
      using run fill by (simp_all add: mwifiex_update_curr_bss_params_def)
    moreover have "kfree (beacon_buf d) h1 = h"
      using filled by (auto simp: kfree_new kfree_def)
    ultimately show ?thesis
      using copy by simp
  next
    case True
    then have b: "kmalloc h \<noteq> 0" "h (kmalloc h) = None" "beacon_buf d = kmalloc h" "h1 = h(kmalloc h := Some (ies_data bss))"
      and size: "beacon_buf_size d = of_nat (length (ies_data bss))" and off: "offsets_ok d"
      and ptrs: "ptr_of k d = map_option (\<lambda>q. (kmalloc h, q + body_shift k)) (last_ie k 0 es r)" for k
      using filled by auto
    obtain ret2 p2 d2 where check: "mwifiex_check_network_compatibility h1 p (Some d) = Some (ret2, Some d2, p2)"
      and d2: "\<exists>x. d2 = d\<lparr>disable_11n := x\<rparr> \<or> d2 = d" and p2: "bcn p2 = bcn p"
      using run fill True compatible_keeps
      by (fastforce simp: mwifiex_update_curr_bss_params_def mwifiex_check_network_compatibility_def
          bind_eq_Some_conv Let_def split: prod.splits if_splits option.splits)
    have same: "beacon_buf d2 = kmalloc h" "beacon_buf_size d2 = beacon_buf_size d" "offsets_ok d2" "ptr_of k d2 = ptr_of k d" for k
      using d2 b(3) off by (auto simp: pointers_of_compatible)
    show ?thesis
    proof (cases "ret2 = 0")
      case False
      then have "ret = 0" "p' = p2" "h' = kfree (beacon_buf d2) h1"
        using run fill True check by (simp_all add: mwifiex_update_curr_bss_params_def)
      then show ?thesis
        using copy b same p2 by (simp add: kfree_new)
    next
      case 2: True
      let ?c = "(bcn p2)\<lparr>curr_bss := d2\<rparr>"
      have cc: "curr_bss ?c = d2" and len32: "length (ies_data bss) < 2 ^ 32" and buf: "h1 (kmalloc h) = Some (ies_data bss)"
        using len b by simp_all
      have old: "curr_bcn_buf ?c \<noteq> 0 \<longrightarrow> (\<exists>bs. h1 (curr_bcn_buf ?c) = Some bs \<and> length bs = unat (curr_bcn_size ?c))"
        "curr_bcn_buf ?c \<noteq> kmalloc h"
        using copy p2 b by (auto simp: copy_ok_def)
      obtain c h2 where save: "mwifiex_save_curr_bcn kmalloc ?c h1 = Some (c, h2)"
        and c: "curr_bcn_buf c \<noteq> kmalloc h" "curr_bcn_buf c = 0 \<longrightarrow> curr_bss c = d2"
        "curr_bcn_buf c \<noteq> 0 \<longrightarrow> h2 (curr_bcn_buf c) = Some (ies_data bss) \<and> length (ies_data bss) = unat (curr_bcn_size c) \<and>
           (\<forall>k. ptr_of k (curr_bss c) = (if k = Wapi then ptr_of k d2 else map_option (\<lambda>q. (curr_bcn_buf c, snd q)) (ptr_of k d2)))"
        by (rule save_curr_bcn [of ?c h1 "ies_data bss" kmalloc, unfolded cc same(1,2), OF same(3) buf size len(1) len32 old b(1) malloc])
      have p': "ret = 0" "bcn p' = c" "h' = h2(kmalloc h := None)"
        using run fill True check 2 save same(1) b(1) by (auto simp: mwifiex_update_curr_bss_params_def kfree_def)
      have ptr: "ptr_of k (curr_bss c) =
          map_option (\<lambda>q. (if k = Wapi \<or> curr_bcn_buf c = 0 then kmalloc h else curr_bcn_buf c, q + body_shift k))
            (last_ie k 0 es r)" for k
        using c(2,3) by (cases "curr_bcn_buf c = 0"; cases "k = Wapi")
          (simp_all add: ptrs same(4) option.map_comp comp_def del: ptr_of.simps)
      show ?thesis
        unfolding p' Let_def using c(1,3) ptr by (simp add: copy_ok_def)
    qed
  qed
qed


text \<open>An open network on channel 6 whose beacon has WAPI and 802.11n elements.\<close>

definition open_ies :: "byte list" where
  "open_ies = [EID_SSID, 1, 0x61, EID_DS_PARAMS, 1, 6, EID_BSS_AC_ACCESS_DELAY, 1, 0, EID_HT_CAPABILITY, 0]"

definition open_bss :: cfg80211_bss where
  "open_bss = \<lparr>ies_data = open_ies, ies_tsf = 0, bssid = replicate 6 2, signal = 0, beacon_interval = 100,
     capability = 0, priv_band = BAND_G, priv_tsf = 0\<rparr>"

definition open_net :: net_priv where
  "open_net = demo_wlan\<lparr>wpa2_enabled := False, radio := (radio demo_wlan)\<lparr>band_2ghz := Some
     \<lparr>channels = [\<lparr>ch_center_freq = 2437, ch_hw_value = 6, ch_flags = 0, ch_max_power = 0\<rparr>], bitrates = []\<rparr>\<rparr>\<rparr>"

definition demo_kmalloc :: "heap \<Rightarrow> block" where
  "demo_kmalloc h = (if h 1 = None then 1 else if h 2 = None then 2 else 0)"

lemma current_beacon_kept_witness:
  "\<exists>p' h'. mwifiex_update_curr_bss_params demo_kmalloc (Some zero_desc) open_bss open_net (\<lambda>_. None) = Some (0, p', h') \<and>
    h' 1 = None \<and> h' 2 = Some open_ies \<and> bcn_ht_cap (curr_bss (bcn p')) = Some (2, 11) \<and>
    bcn_wapi_ie (curr_bss (bcn p')) = Some (1, 6)"
proof -
  let ?run = "mwifiex_update_curr_bss_params demo_kmalloc (Some zero_desc) open_bss open_net (\<lambda>_. None)"
  have "map_option (\<lambda>(ret, p', h'). (ret, curr_bcn_buf (bcn p'))) ?run = Some (0, 2)"
    by code_simp
  then obtain p' h' where run: "?run = Some (0, p', h')" and buf: "curr_bcn_buf (bcn p') = 2"
    by auto
  have split: "split_ies (ies_data open_bss) = (fst (split_ies open_ies), [])"
    by (simp add: open_bss_def open_ies_def)
  have ies: "fst (split_ies open_ies) = [(EID_SSID, [0x61]), (EID_DS_PARAMS, [6]), (EID_BSS_AC_ACCESS_DELAY, [0]), (EID_HT_CAPABILITY, [])]"
    by (simp add: open_ies_def)
  have k: "demo_kmalloc (\<lambda>_. None) = 1" "\<forall>h. demo_kmalloc h = 0 \<or> h (demo_kmalloc h) = None"
    by (simp_all add: demo_kmalloc_def)
  have b: "copy_ok (bcn open_net) (\<lambda>_. None)" "curr_bcn_buf (bcn open_net) = 0" "length (ies_data open_bss) = 11"
    by (simp_all add: copy_ok_def open_net_def demo_wlan_def open_bss_def open_ies_def)
  have len: "0 < length (ies_data open_bss)" "length (ies_data open_bss) < 65536"
    using b(3) by simp_all
  have kept: "h' 1 = None" "h' 2 = Some open_ies" "ptr_of k (curr_bss (bcn p')) =
      map_option (\<lambda>q. (if k = Wapi then 1 else 2, q + body_shift k)) (last_ie k 0 (fst (split_ies open_ies)) [])" for k
    using current_beacon_kept [OF k(2) b(1) len split run] b(2) buf
    unfolding k(1) Let_def by (auto simp: open_bss_def simp del: One_nat_def ptr_of.simps)
  have "ptr_of Ht_Cap (curr_bss (bcn p')) = Some (2, 11)" "ptr_of Wapi (curr_bss (bcn p')) = Some (1, 6)"
    unfolding kept(3) ies by (simp_all add: is_ie_def eids body_shift_def)
  then show ?thesis
    using run kept(1,2) by (intro exI [of _ p'] exI [of _ h']) simp
qed

end
