(* ===== verification/Scan_Cmd.thy ===== *)
theory Scan_Cmd
  imports Net_Match
begin

text \<open>
  Scanning for networks, \<open>doc/mwifiex/scan.c\<close>: the list of channels of a region, its division into
  commands to the firmware, and one network of the firmware's answer. The scan command is built in a buffer
  whose elements before the channels are there already; the list of channels is an array that ends with
  channel 0.
\<close>

section \<open>Constants\<close>

definition MWIFIEX_PASSIVE_SCAN :: u8 where "MWIFIEX_PASSIVE_SCAN = 1"
definition MWIFIEX_DISABLE_CHAN_FILT :: u8 where "MWIFIEX_DISABLE_CHAN_FILT = 2"
definition MWIFIEX_HIDDEN_SSID_REPORT :: u8 where "MWIFIEX_HIDDEN_SSID_REPORT = 0x10"
definition MWIFIEX_MAX_TOTAL_SCAN_TIME :: u32 where "MWIFIEX_MAX_TOTAL_SCAN_TIME = 9000"
definition HostCmd_CMD_802_11_SCAN :: u16 where "HostCmd_CMD_802_11_SCAN = 0x0006"
definition HostCmd_CMD_802_11_SCAN_EXT :: u16 where "HostCmd_CMD_802_11_SCAN_EXT = 0x0107"
definition CHANLIST_TLV :: u16 where "CHANLIST_TLV = 0x101"
definition EFAULT :: int where "EFAULT = 14"

text \<open>From the kernel's \<open>net/cfg80211.h\<close>.\<close>

definition IEEE80211_CHAN_NO_IR :: u32 where "IEEE80211_CHAN_NO_IR = 2"
definition IEEE80211_CHAN_RADAR :: u32 where "IEEE80211_CHAN_RADAR = 8"

section \<open>State\<close>

text \<open>A channel in a command, and its seven bytes.\<close>

record chan_scan_param_set =
  cs_radio_type :: u8
  cs_chan_number :: u8
  cs_mode :: u8
  cs_min_time :: u16
  cs_max_time :: u16

definition chan_bytes :: "chan_scan_param_set \<Rightarrow> byte list" where
  "chan_bytes c = [cs_radio_type c, cs_chan_number c, cs_mode c] @ le16 (cs_min_time c) @ le16 (cs_max_time c)"

text \<open>The command: its elements and how many of their bytes are in use.\<close>

record scan_cmd_config =
  cfg_bss_mode :: u8
  cfg_bssid :: "byte list"
  tlv_buf_len :: nat
  tlv_buf :: "byte list"

record scan_priv =
  net :: net_priv
  csa_chan :: u8
  csa_expire_time :: u64
  scan_request :: bool
  ext_scan :: bool
  passive_scan_time :: u16
  active_scan_time :: u16
  specific_scan_time :: u16

text \<open>
  The services: the clock, queueing a command, taking back the queued ones, and the wireless core: the channel
  with a frequency and its band, and entering a network in its table, which may fail.
\<close>

record 'w scan_driver =
  jiffies :: "'w \<Rightarrow> u64"
  send_scan :: "u16 \<Rightarrow> scan_cmd_config \<Rightarrow> 'w \<Rightarrow> int \<times> 'w"
  mwifiex_cancel_pending_scan_cmd :: "'w \<Rightarrow> 'w"
  core_channel :: "u32 \<Rightarrow> (wiphy_channel \<times> u8) option"
  cfg80211_inform_bss :: "wiphy_channel \<Rightarrow> byte list \<Rightarrow> u64 \<Rightarrow> u16 \<Rightarrow> u16 \<Rightarrow> byte list \<Rightarrow> int \<Rightarrow> 'w \<Rightarrow> cfg80211_bss option \<times> 'w"

section \<open>The channels of a region\<close>

text \<open>The channels of a band that are not disabled, entered from position \<open>i\<close> on.\<close>

fun fill_channels ::
  "(wiphy_channel \<Rightarrow> chan_scan_param_set \<Rightarrow> chan_scan_param_set) \<Rightarrow> wiphy_channel list \<Rightarrow>
     chan_scan_param_set list \<times> nat \<Rightarrow> (chan_scan_param_set list \<times> nat) option" where
  "fill_channels f [] st = Some st"
| "fill_channels f (ch # chs) (l, i) =
     (if ch_flags ch AND IEEE80211_CHAN_DISABLED \<noteq> 0 then fill_channels f chs (l, i)
      else if i < length l then fill_channels f chs (l[i := f ch (l ! i)], i + 1)
      else None)"

definition band_channels :: "wiphy_band option \<Rightarrow> wiphy_channel list" where
  "band_channels b = (case b of None \<Rightarrow> [] | Some b \<Rightarrow> channels b)"

text \<open>\<open>user\<close> is the time of the first channel of the caller's configuration, if there is one.\<close>

definition scan_entry :: "scan_priv \<Rightarrow> u32 option \<Rightarrow> bool \<Rightarrow> u8 \<Rightarrow> wiphy_channel \<Rightarrow> chan_scan_param_set \<Rightarrow> chan_scan_param_set" where
  "scan_entry p user filtered band ch old =
     (let no_ir = ch_flags ch AND IEEE80211_CHAN_NO_IR \<noteq> 0;
          passive = no_ir \<or> ch_flags ch AND IEEE80211_CHAN_RADAR \<noteq> 0;
          time = (case user of Some t \<Rightarrow> if t \<noteq> 0 then ucast t else
                    (if passive then passive_scan_time p else active_scan_time p)
                  | None \<Rightarrow> if passive then passive_scan_time p else active_scan_time p);
          bits = (if no_ir then cs_mode old OR (MWIFIEX_PASSIVE_SCAN OR MWIFIEX_HIDDEN_SSID_REPORT)
                  else cs_mode old AND NOT MWIFIEX_PASSIVE_SCAN) OR MWIFIEX_DISABLE_CHAN_FILT
      in old\<lparr>cs_radio_type := band, cs_chan_number := ucast (ch_hw_value ch), cs_mode := bits,
           cs_max_time := (if filtered \<and> \<not> passive then specific_scan_time p else time)\<rparr>)"

definition mwifiex_scan_create_channel_list ::
  "scan_priv \<Rightarrow> u32 option \<Rightarrow> chan_scan_param_set list \<Rightarrow> bool \<Rightarrow> (chan_scan_param_set list \<times> nat) option" where
  "mwifiex_scan_create_channel_list p user l filtered = do {
     st \<leftarrow> fill_channels (scan_entry p user filtered 0) (band_channels (band_2ghz (radio (net p)))) (l, 0);
     fill_channels (scan_entry p user filtered 1) (band_channels (band_5ghz (radio (net p)))) st
   }"

definition bgscan_entry :: "scan_priv \<Rightarrow> u32 \<Rightarrow> u8 \<Rightarrow> wiphy_channel \<Rightarrow> chan_scan_param_set \<Rightarrow> chan_scan_param_set" where
  "bgscan_entry p user band ch old =
     (let no_ir = ch_flags ch AND IEEE80211_CHAN_NO_IR \<noteq> 0
      in old\<lparr>cs_radio_type := band, cs_chan_number := ucast (ch_hw_value ch),
           cs_max_time := (if user \<noteq> 0 then ucast user else if no_ir then passive_scan_time p else specific_scan_time p),
           cs_mode := (if no_ir then cs_mode old OR MWIFIEX_PASSIVE_SCAN else cs_mode old AND NOT MWIFIEX_PASSIVE_SCAN)\<rparr>)"

definition mwifiex_bgscan_create_channel_list ::
  "scan_priv \<Rightarrow> u32 \<Rightarrow> chan_scan_param_set list \<Rightarrow> (chan_scan_param_set list \<times> nat) option" where
  "mwifiex_bgscan_create_channel_list p user l = do {
     st \<leftarrow> fill_channels (bgscan_entry p user 0) (band_channels (band_2ghz (radio (net p)))) (l, 0);
     fill_channels (bgscan_entry p user 1) (band_channels (band_5ghz (radio (net p)))) st
   }"

section \<open>Scan commands\<close>

text \<open>Comparing times allows for the wrap-around of the clock.\<close>

definition time_after :: "u64 \<Rightarrow> u64 \<Rightarrow> bool" where
  "time_after a b \<longleftrightarrow> bit (b - a) 63"

definition mwifiex_11h_get_csa_closed_channel :: "u64 \<Rightarrow> scan_priv \<Rightarrow> u8 \<times> scan_priv" where
  "mwifiex_11h_get_csa_closed_channel now p =
     (if csa_chan p = 0 then (0, p)
      else (let p = (if time_after now (csa_expire_time p) then p\<lparr>csa_chan := 0, csa_expire_time := 0\<rparr> else p)
            in (csa_chan p, p)))"

definition scan_rates :: "scan_priv \<Rightarrow> u8 \<Rightarrow> (nat \<times> u8 list) option" where
  "scan_rates p band =
     (let rates = replicate MWIFIEX_SUPPORTED_RATES 0
      in if scan_request p then mwifiex_get_rates_from_cfg80211 (radio (net p)) rates band
         else mwifiex_get_supported_rates (radio (net p)) rates)"

definition mwifiex_append_rate_tlv :: "scan_priv \<Rightarrow> scan_cmd_config \<Rightarrow> u8 \<Rightarrow> (nat \<times> scan_cmd_config) option" where
  "mwifiex_append_rate_tlv p cfg band = do {
     (n, rates) \<leftarrow> scan_rates p band;
     bytes \<leftarrow> load rates 0 n;
     buf \<leftarrow> store (tlv_buf cfg) (tlv_buf_len cfg) (le16 (ucast EID_SUPP_RATES) @ le16 (of_nat n) @ bytes);
     Some (n, cfg\<lparr>tlv_buf := buf, tlv_buf_len := tlv_buf_len cfg + 4 + n\<rparr>)
   }"

text \<open>The channels that are scanned one by one unless the scan is filtered.\<close>

definition social :: "chan_scan_param_set \<Rightarrow> bool" where
  "social c \<longleftrightarrow> cs_chan_number c \<in> {1, 6, 11}"

text \<open>The state of the inner loop: the command, and how many channels it has, their time, the last one's band, and whether to stop.\<close>

record cmd_state =
  cmd_cfg :: scan_cmd_config
  tlv_idx :: nat
  total_scan_time :: u32
  cmd_radio :: u8
  done_early :: bool

fun gather_channels ::
  "nat \<Rightarrow> bool \<Rightarrow> u8 \<Rightarrow> nat \<Rightarrow> chan_scan_param_set list \<Rightarrow> cmd_state \<Rightarrow>
     (chan_scan_param_set list \<times> cmd_state) option" where
  "gather_channels limit filtered csa off [] g = (if tlv_idx g < limit then None else Some ([], g))"
| "gather_channels limit filtered csa off (c # cs) g =
     (if tlv_idx g < limit \<and> cs_chan_number c \<noteq> 0 \<and> \<not> done_early g then
        (if cs_chan_number c = csa then gather_channels limit filtered csa off cs g
         else do {
           let cfg = cmd_cfg g;
           buf \<leftarrow> store (tlv_buf cfg) (off + 4 + 7 * tlv_idx g) (chan_bytes c);
           len \<leftarrow> get16 buf (off + 2);
           buf \<leftarrow> put16 buf (off + 2) (len + 7);
           next_social \<leftarrow> (if filtered then Some False else case cs of [] \<Rightarrow> None | d # _ \<Rightarrow> Some (social d));
           gather_channels limit filtered csa off cs
             (g\<lparr>cmd_cfg := cfg\<lparr>tlv_buf := buf, tlv_buf_len := off + 4 + unat (len + 7)\<rparr>, tlv_idx := tlv_idx g + 1,
                total_scan_time := total_scan_time g + ucast (cs_max_time c), cmd_radio := cs_radio_type c,
                done_early := (\<not> filtered \<and> social c \<or> next_social)\<rparr>)
         })
      else Some (c # cs, g))"

text \<open>
  One command after the other, at most \<open>fuel\<close>; \<open>None\<close> also when they were not enough. The start of the current
  command's channels, \<open>scan_channels\<close>, is only ever written and has no place here.
\<close>

fun scan_commands ::
  "nat \<Rightarrow> 'w scan_driver \<Rightarrow> scan_priv \<Rightarrow> nat \<Rightarrow> bool \<Rightarrow> nat \<Rightarrow> chan_scan_param_set list \<Rightarrow> scan_cmd_config \<Rightarrow> 'w \<Rightarrow>
     (int \<times> scan_cmd_config \<times> 'w) option" where
  "scan_commands 0 d p limit filtered off cs cfg w = None"
| "scan_commands (Suc fuel) d p limit filtered off cs cfg w =
     (case cs of
        [] \<Rightarrow> None
      | c # _ \<Rightarrow>
          (if cs_chan_number c = 0 then Some (0, cfg, w)
           else do {
             buf \<leftarrow> put16 (tlv_buf cfg) (off + 2) 0;
             (cs, g) \<leftarrow> gather_channels limit filtered (csa_chan p) off cs
                \<lparr>cmd_cfg = cfg\<lparr>tlv_buf := buf\<rparr>, tlv_idx = 0, total_scan_time = 0, cmd_radio = 0, done_early = False\<rparr>;
             if total_scan_time g > MWIFIEX_MAX_TOTAL_SCAN_TIME then Some (-1, cmd_cfg g, w)
             else do {
               (rates_size, cfg) \<leftarrow> mwifiex_append_rate_tlv p (cmd_cfg g) (cmd_radio g);
               let (ret, w) = send_scan d (if ext_scan p then HostCmd_CMD_802_11_SCAN_EXT else HostCmd_CMD_802_11_SCAN) cfg w;
               let cfg = cfg\<lparr>tlv_buf_len := tlv_buf_len cfg - (4 + rates_size)\<rparr>;
               if ret \<noteq> 0 then Some (-1, cfg, mwifiex_cancel_pending_scan_cmd d w)
               else scan_commands fuel d p limit filtered off cs cfg w
             }
           }))"

definition mwifiex_scan_channel_list ::
  "nat \<Rightarrow> 'w scan_driver \<Rightarrow> scan_priv \<Rightarrow> nat \<Rightarrow> bool \<Rightarrow> scan_cmd_config \<Rightarrow> nat \<Rightarrow> chan_scan_param_set list \<Rightarrow> 'w \<Rightarrow>
     (int \<times> scan_priv \<times> scan_cmd_config \<times> 'w) option" where
  "mwifiex_scan_channel_list fuel d p limit filtered cfg off cs w = do {
     let p = snd (mwifiex_11h_get_csa_closed_channel (jiffies d w) p);
     buf \<leftarrow> put16 (tlv_buf cfg) off CHANLIST_TLV;
     (ret, cfg, w) \<leftarrow> scan_commands fuel d p limit filtered off cs (cfg\<lparr>tlv_buf := buf\<rparr>) w;
     Some (ret, p, cfg, w)
   }"

text \<open>The command that is sent to the firmware: its number, its size and its contents.\<close>

definition mwifiex_cmd_802_11_scan :: "scan_cmd_config \<Rightarrow> (u16 \<times> u16 \<times> byte list) option" where
  "mwifiex_cmd_802_11_scan cfg = do {
     tlvs \<leftarrow> load (tlv_buf cfg) 0 (tlv_buf_len cfg);
     Some (HostCmd_CMD_802_11_SCAN, of_nat (1 + 6 + tlv_buf_len cfg) + S_DS_GEN,
       [cfg_bss_mode cfg] @ cfg_bssid cfg @ tlvs)
   }"

section \<open>One network of an answer\<close>

definition mwifiex_radio_type_to_band :: "u8 \<Rightarrow> u8" where
  "mwifiex_radio_type_to_band r = (if r = HostCmd_SCAN_RADIO_TYPE_A then BAND_A else BAND_G)"

text \<open>The channel of the first element that tells it, or 0; an element that does not fit is an error.\<close>

function find_channel :: "byte list \<Rightarrow> nat \<Rightarrow> nat \<Rightarrow> (int + u16) option" where
  "find_channel buf pos left =
     (if left < 2 then Some (Inr 0)
      else (case (idx buf pos, idx buf (pos + 1)) of
              (Some element_id, Some element_len) \<Rightarrow>
                (if left < unat element_len + 2 then Some (Inl (- EFAULT))
                 else if element_id = EID_DS_PARAMS then map_option (\<lambda>c. Inr (ucast c)) (idx buf (pos + 2))
                 else find_channel buf (pos + unat element_len + 2) (left - (unat element_len + 2)))
            | _ \<Rightarrow> None))"
  by pat_completeness auto
termination
  by (relation "measure (\<lambda>(buf, pos, left). left)") auto

declare find_channel.simps [simp del]

text \<open>What is done with a network that has a channel; \<open>zeroed\<close> is the memory for a description.\<close>

definition report_network ::
  "(heap \<Rightarrow> block) \<Rightarrow> mwifiex_bssdescriptor option \<Rightarrow> 'w scan_driver \<Rightarrow> u16 \<Rightarrow> u8 option \<Rightarrow> u64 \<Rightarrow>
     (wiphy_channel \<Rightarrow> 'w \<Rightarrow> cfg80211_bss option \<times> 'w) \<Rightarrow> byte list \<Rightarrow> scan_priv \<Rightarrow> heap \<Rightarrow> 'w \<Rightarrow> (scan_priv \<times> heap \<times> 'w) option" where
  "report_network kmalloc zeroed d nr radio_arg tsf inform sender p h w =
     (let band = (case radio_arg of None \<Rightarrow> BAND_G | Some r \<Rightarrow> mwifiex_radio_type_to_band (r AND 3));
          (found, r) = mwifiex_get_cfp (radio (net p)) band nr 0;
          p = p\<lparr>net := (net p)\<lparr>radio := r\<rparr>\<rparr>
      in case core_channel d (if found then freq (cfp r) else 0) of
           None \<Rightarrow> Some (p, h, w)
         | Some (ch, nl_band) \<Rightarrow>
             (if ch_flags ch AND IEEE80211_CHAN_DISABLED \<noteq> 0 then Some (p, h, w)
              else do {
                let (bss, w) = inform ch w;
                let bss = map_option (\<lambda>b. b\<lparr>priv_band := band, priv_tsf := tsf\<rparr>) bss;
                (p, h) \<leftarrow> (case bss of
                    None \<Rightarrow> Some (p, h)
                  | Some b \<Rightarrow>
                      (if media_connected (radio (net p)) \<and> sender = mac_address (curr_bss (bcn (net p)))
                       then map_option (\<lambda>(ret, n, h). (p\<lparr>net := n\<rparr>, h))
                              (mwifiex_update_curr_bss_params kmalloc zeroed b (net p) h)
                       else Some (p, h)));
                if ch_flags ch AND IEEE80211_CHAN_RADAR \<noteq> 0 \<or> ch_flags ch AND IEEE80211_CHAN_NO_IR \<noteq> 0
                then do {
                  b \<leftarrow> bss;
                  (ret, n, h) \<leftarrow> mwifiex_save_hidden_ssid_channels kmalloc zeroed b (ch_hw_value ch) nl_band (net p) h;
                  Some (p\<lparr>net := n\<rparr>, h, w)
                } else Some (p, h, w)
              }))"

text \<open>
  The entry at \<open>pos\<close> of an answer with \<open>left\<close> bytes: the result, and where the next entry is. The signal strength
  is in the entry unless the answer is an extended one, which has it elsewhere.
\<close>

definition mwifiex_parse_single_response_buf ::
  "(heap \<Rightarrow> block) \<Rightarrow> mwifiex_bssdescriptor option \<Rightarrow> 'w scan_driver \<Rightarrow> byte list \<Rightarrow> nat \<Rightarrow> nat \<Rightarrow> u64 \<Rightarrow> u8 option \<Rightarrow> bool \<Rightarrow>
     int \<Rightarrow> scan_priv \<Rightarrow> heap \<Rightarrow> 'w \<Rightarrow> (int \<times> nat \<times> nat \<times> scan_priv \<times> heap \<times> 'w) option" where
  "mwifiex_parse_single_response_buf kmalloc zeroed d buf pos left tsf radio_arg ext rssi_val p h w = do {
     (beacon_size, pos, left) \<leftarrow> (if 2 \<le> left then do { n \<leftarrow> get16 buf pos; Some (unat n, pos + 2, left - 2) }
                                 else Some (0, pos, left));
     if beacon_size = 0 \<or> beacon_size > left then Some (- EFAULT, pos + left, 0, p, h, w)
     else do {
       let next_pos = pos + beacon_size;
       let rest = left - beacon_size;
       if beacon_size < 6 + 1 + 12 then Some (- EFAULT, next_pos, rest, p, h, w)
       else do {
         sender \<leftarrow> load buf pos 6;
         (mbm, at) \<leftarrow> (if ext then Some (rssi_val, 6)
                        else map_option (\<lambda>b. (- int (unat b) * 100, 7)) (idx buf (pos + 6)));
         stamp \<leftarrow> load buf (pos + at) 8;
         period \<leftarrow> get16 buf (pos + at + 8);
         cap \<leftarrow> get16 buf (pos + at + 10);
         let ie_pos = pos + at + 12;
         let ie_len = beacon_size - (at + 12);
         ie_buf \<leftarrow> load buf ie_pos ie_len;
         found \<leftarrow> find_channel buf ie_pos ie_len;
         (case found of
            Inl e \<Rightarrow> Some (e, next_pos, rest, p, h, w)
          | Inr nr \<Rightarrow>
              (if nr = 0 \<or> nr = ucast (csa_chan p) then Some (0, next_pos, rest, p, h, w)
               else do {
                 (p, h, w) \<leftarrow> report_network kmalloc zeroed d nr radio_arg tsf
                   (\<lambda>ch. cfg80211_inform_bss d ch sender (word_rcat (rev stamp)) cap period ie_buf mbm) sender p h w;
                 Some (0, next_pos, rest, p, h, w)
               }))
       }
     }
   }"

end
