(* ===== verification/Scan_Props.thy ===== *)
theory Scan_Props
  imports Scan_Cmd Net_Props
begin

text \<open>
  The properties of \<open>Scan_Cmd\<close>: the commands of a scan list every channel once, in order and in groups of the
  room asked for, and an entry of the answer is left behind whatever is found in it.
\<close>

section \<open>The channels of a command\<close>

text \<open>The first bytes of a command: what was there, and the element with some channels.\<close>

definition chan_list_bytes :: "byte list \<Rightarrow> chan_scan_param_set list \<Rightarrow> byte list" where
  "chan_list_bytes pre gs = pre @ le16 CHANLIST_TLV @ le16 (of_nat (7 * length gs)) @ concat (map chan_bytes gs)"

lemma length_chan_bytes [simp]: "length (chan_bytes c) = 7"
  by (simp add: chan_bytes_def)

lemma length_chan_list: "length (chan_list_bytes pre gs) = length pre + 4 + 7 * length gs"
  by (induction gs) (simp_all add: chan_list_bytes_def)

text \<open>The state of the inner loop when the command has the channels \<open>gs\<close>.\<close>

definition cmd_lists :: "byte list \<Rightarrow> nat \<Rightarrow> chan_scan_param_set list \<Rightarrow> cmd_state \<Rightarrow> bool" where
  "cmd_lists pre room gs g \<longleftrightarrow> tlv_idx g = length gs \<and> length (tlv_buf (cmd_cfg g)) = room \<and>
     (\<exists>rest. tlv_buf (cmd_cfg g) = chan_list_bytes pre gs @ rest) \<and>
     (gs \<noteq> [] \<longrightarrow> tlv_buf_len (cmd_cfg g) = length pre + 4 + 7 * length gs \<and> cmd_radio g = cs_radio_type (last gs)) \<and>
     total_scan_time g = sum_list (map (\<lambda>c. ucast (cs_max_time c)) gs)"

text \<open>No channel that is scanned alone is, or can still come, beside others.\<close>

definition alone :: "bool \<Rightarrow> chan_scan_param_set list \<Rightarrow> chan_scan_param_set list \<Rightarrow> bool \<Rightarrow> bool" where
  "alone filtered gs cs stop \<longleftrightarrow> (filtered \<longrightarrow> \<not> stop) \<and>
     (\<not> filtered \<longrightarrow> ((\<exists>c \<in> set gs. social c) \<longrightarrow> length gs = 1 \<and> stop) \<and>
        (gs \<noteq> [] \<longrightarrow> cs \<noteq> [] \<longrightarrow> social (hd cs) \<longrightarrow> stop))"

lemma add_channel:
  assumes g: "cmd_lists pre room gs g" and fits: "length pre + 4 + 7 * (length gs + 1) \<le> room" and small: "length gs < 9000"
  shows "\<exists>buf1 len buf2. store (tlv_buf (cmd_cfg g)) (length pre + 4 + 7 * tlv_idx g) (chan_bytes c) = Some buf1 \<and>
    get16 buf1 (length pre + 2) = Some len \<and> put16 buf1 (length pre + 2) (len + 7) = Some buf2 \<and>
    cmd_lists pre room (gs @ [c]) (g\<lparr>cmd_cfg := (cmd_cfg g)\<lparr>tlv_buf := buf2, tlv_buf_len := length pre + 4 + unat (len + 7)\<rparr>,
      tlv_idx := tlv_idx g + 1, total_scan_time := total_scan_time g + ucast (cs_max_time c),
      cmd_radio := cs_radio_type c, done_early := stop\<rparr>)"
proof -
  let ?k = "length gs" and ?chans = "concat (map chan_bytes gs)"
  obtain rest where rest: "tlv_buf (cmd_cfg g) = chan_list_bytes pre gs @ rest"
    using g by (auto simp: cmd_lists_def)
  have len_buf: "length (chan_list_bytes pre gs @ rest) = room"
    using g rest by (simp add: cmd_lists_def)
  then have "7 \<le> length rest"
    using fits by (simp add: length_chan_list)
  then obtain old more where old: "rest = old @ more" "length old = 7"
    by (metis append_take_drop_id length_take min_absorb2)
  have len: "length ?chans = 7 * ?k"
    by (induction gs) simp_all
  have s1: "store (tlv_buf (cmd_cfg g)) (length pre + 4 + 7 * tlv_idx g) (chan_bytes c) =
      Some (pre @ le16 CHANLIST_TLV @ le16 (of_nat (7 * ?k)) @ ?chans @ chan_bytes c @ more)"
    using g old unfolding rest
    by (simp add: store_def chan_list_bytes_def cmd_lists_def len)
  have s2: "get16 (pre @ le16 CHANLIST_TLV @ le16 (of_nat (7 * ?k)) @ ?chans @ chan_bytes c @ more) (length pre + 2) =
      Some (of_nat (7 * ?k))"
    by (simp add: get16_def load_def)
  have s3: "put16 (pre @ le16 CHANLIST_TLV @ le16 (of_nat (7 * ?k)) @ ?chans @ chan_bytes c @ more) (length pre + 2) (of_nat (7 * ?k) + 7) =
      Some (chan_list_bytes pre (gs @ [c]) @ more)"
    by (simp add: put16_def store_def chan_list_bytes_def add.commute)
  have n: "unat (of_nat (7 * ?k) + 7 :: u16) = 7 * (?k + 1)"
  proof -
    have "(of_nat (7 * ?k) + 7 :: u16) = of_nat (7 * (?k + 1))"
      by simp
    then show ?thesis
      using small by (simp add: unat_of_nat del: of_nat_Suc of_nat_add of_nat_mult)
  qed
  have "length (chan_list_bytes pre (gs @ [c]) @ more) = room"
    using len_buf old by (simp add: length_chan_list)
  then have "cmd_lists pre room (gs @ [c]) (g\<lparr>cmd_cfg := (cmd_cfg g)\<lparr>tlv_buf := chan_list_bytes pre (gs @ [c]) @ more,
      tlv_buf_len := length pre + 4 + unat (of_nat (7 * ?k) + 7 :: u16)\<rparr>,
      tlv_idx := tlv_idx g + 1, total_scan_time := total_scan_time g + ucast (cs_max_time c),
      cmd_radio := cs_radio_type c, done_early := stop\<rparr>)"
    using g unfolding n by (simp add: cmd_lists_def)
  with s1 s2 s3 show ?thesis
    by blast
qed

lemma alone_step:
  assumes "alone filtered gs (c # cs) False" and "cs \<noteq> []"
  shows "alone filtered (gs @ [c]) cs (\<not> filtered \<and> social c \<or> (if filtered then False else social (hd cs)))"
  using assms by (auto simp: alone_def)

lemma gather_spec:
  assumes "cmd_lists pre room gs g" and "length gs \<le> limit" and "length pre + 4 + 7 * limit \<le> room" and "limit < 9000"
    and "\<exists>c \<in> set cs. cs_chan_number c = 0" and "\<forall>c \<in> set cs. cs_chan_number c \<noteq> 0 \<longrightarrow> cs_chan_number c \<noteq> csa"
    and "alone filtered gs cs (done_early g)"
  shows "\<exists>new rest g'. gather_channels limit filtered csa (length pre) cs g = Some (rest, g') \<and> cs = new @ rest \<and>
    (\<forall>c \<in> set new. cs_chan_number c \<noteq> 0) \<and> cmd_lists pre room (gs @ new) g' \<and> length (gs @ new) \<le> limit \<and>
    (\<exists>stop. alone filtered (gs @ new) rest stop) \<and> (length gs < limit \<and> \<not> done_early g \<and> cs_chan_number (hd cs) \<noteq> 0 \<longrightarrow> new \<noteq> []) \<and>
    cfg_bss_mode (cmd_cfg g') = cfg_bss_mode (cmd_cfg g) \<and> cfg_bssid (cmd_cfg g') = cfg_bssid (cmd_cfg g)"
  using assms
proof (induction cs arbitrary: gs g)
  case (Cons c cs)
  show ?case
  proof (cases "tlv_idx g < limit \<and> cs_chan_number c \<noteq> 0 \<and> \<not> done_early g")
    case False
    then show ?thesis
      using Cons.prems by (intro exI [of _ "[]"] exI [of _ "c # cs"] exI [of _ g]) (auto simp: cmd_lists_def)
  next
    case True
    have idx: "tlv_idx g = length gs"
      using Cons.prems(1) by (simp add: cmd_lists_def)
    have cs: "cs \<noteq> []"
      using Cons.prems(5) True by auto
    let ?stop = "\<not> filtered \<and> social c \<or> (if filtered then False else social (hd cs))"
    obtain buf1 len buf2 where add: "store (tlv_buf (cmd_cfg g)) (length pre + 4 + 7 * tlv_idx g) (chan_bytes c) = Some buf1"
      "get16 buf1 (length pre + 2) = Some len" "put16 buf1 (length pre + 2) (len + 7) = Some buf2"
      "cmd_lists pre room (gs @ [c]) (g\<lparr>cmd_cfg := (cmd_cfg g)\<lparr>tlv_buf := buf2, tlv_buf_len := length pre + 4 + unat (len + 7)\<rparr>,
         tlv_idx := tlv_idx g + 1, total_scan_time := total_scan_time g + ucast (cs_max_time c),
         cmd_radio := cs_radio_type c, done_early := ?stop\<rparr>)" (is "cmd_lists pre room _ ?g")
      using add_channel [OF Cons.prems(1), of c ?stop] True idx Cons.prems(3,4) by fastforce
    have step: "gather_channels limit filtered csa (length pre) (c # cs) g = gather_channels limit filtered csa (length pre) cs ?g"
      using True Cons.prems(6) add(1-3) cs by (cases cs) (auto simp: Let_def)
    have "\<exists>new rest g'. gather_channels limit filtered csa (length pre) cs ?g = Some (rest, g') \<and> cs = new @ rest \<and>
      (\<forall>c \<in> set new. cs_chan_number c \<noteq> 0) \<and> cmd_lists pre room ((gs @ [c]) @ new) g' \<and> length ((gs @ [c]) @ new) \<le> limit \<and>
      (\<exists>stop. alone filtered ((gs @ [c]) @ new) rest stop) \<and>
      (length (gs @ [c]) < limit \<and> \<not> done_early ?g \<and> cs_chan_number (hd cs) \<noteq> 0 \<longrightarrow> new \<noteq> []) \<and>
      cfg_bss_mode (cmd_cfg g') = cfg_bss_mode (cmd_cfg ?g) \<and> cfg_bssid (cmd_cfg g') = cfg_bssid (cmd_cfg ?g)"
    proof (rule Cons.IH [OF add(4)])
      show "alone filtered (gs @ [c]) cs (done_early ?g)"
        using alone_step [of filtered gs c cs] Cons.prems(7) True cs by simp
    qed (use Cons.prems True idx in auto)
    then obtain new rest g' where ih: "gather_channels limit filtered csa (length pre) cs ?g = Some (rest, g')" "cs = new @ rest"
      "\<forall>c \<in> set new. cs_chan_number c \<noteq> 0" "cmd_lists pre room ((gs @ [c]) @ new) g'" "length ((gs @ [c]) @ new) \<le> limit"
      "\<exists>stop. alone filtered ((gs @ [c]) @ new) rest stop"
      "cfg_bss_mode (cmd_cfg g') = cfg_bss_mode (cmd_cfg ?g)" "cfg_bssid (cmd_cfg g') = cfg_bssid (cmd_cfg ?g)"
      by blast
    show ?thesis
      using ih True unfolding step
      by (intro exI [of _ "c # new"] exI [of _ rest] exI [of _ g']) auto
  qed
qed simp

section \<open>The commands of a scan\<close>

definition rate_bytes :: "scan_priv \<Rightarrow> u8 \<Rightarrow> byte list" where
  "rate_bytes p band =
     (case scan_rates p band of None \<Rightarrow> [] | Some (n, rates) \<Rightarrow> le16 1 @ le16 (of_nat n) @ take n rates)"

text \<open>The contents of the command for some channels.\<close>

definition scan_payload :: "scan_priv \<Rightarrow> scan_cmd_config \<Rightarrow> byte list \<Rightarrow> chan_scan_param_set list \<Rightarrow> byte list" where
  "scan_payload p cfg pre gs =
     [cfg_bss_mode cfg] @ cfg_bssid cfg @ chan_list_bytes pre gs @ rate_bytes p (cs_radio_type (last gs))"

definition sent_bytes :: "scan_cmd_config \<Rightarrow> byte list option" where
  "sent_bytes cfg = map_option (\<lambda>(nr, len, bytes). bytes) (mwifiex_cmd_802_11_scan cfg)"

lemma total_time_bound:
  assumes "\<forall>c \<in> set gs. unat (cs_max_time c) * limit \<le> 9000" and "length gs \<le> limit" and "0 < limit"
  shows "\<not> sum_list (map (\<lambda>c. ucast (cs_max_time c) :: u32) gs) > MWIFIEX_MAX_TOTAL_SCAN_TIME"
proof -
  have "limit * (\<Sum>c \<leftarrow> gs. unat (cs_max_time c)) \<le> length gs * 9000"
    using assms(1) by (induction gs) (auto simp: algebra_simps)
  also have "\<dots> \<le> limit * 9000"
    using assms(2) by simp
  finally have le: "(\<Sum>c \<leftarrow> gs. unat (cs_max_time c)) \<le> 9000"
    using assms(3) by simp
  have "sum_list (map (\<lambda>c. ucast (cs_max_time c) :: u32) gs) = of_nat (\<Sum>c \<leftarrow> gs. unat (cs_max_time c))"
    by (induction gs) simp_all
  then show ?thesis
    using le by (simp add: MWIFIEX_MAX_TOTAL_SCAN_TIME_def word_less_nat_alt unat_of_nat)
qed

lemma append_rates:
  assumes rates: "scan_rates p band = Some (n, rs)" "n \<le> 14" "length rs = 14"
    and buf: "tlv_buf cfg = bs @ rest" "tlv_buf_len cfg = length bs" "18 \<le> length rest"
  shows "\<exists>more. mwifiex_append_rate_tlv p cfg band =
    Some (n, cfg\<lparr>tlv_buf := bs @ rate_bytes p band @ more, tlv_buf_len := length bs + 4 + n\<rparr>) \<and>
    length (rate_bytes p band) = 4 + n \<and> length (rate_bytes p band @ more) = length rest"
  using assms
  by (auto simp: mwifiex_append_rate_tlv_def rate_bytes_def load_def store_def EID_SUPP_RATES_def)

lemma one_command:
  fixes d :: "scan_cmd_config list scan_driver"
  assumes send: "\<And>n cfg w. send_scan d n cfg w = (0, w @ [cfg])"
    and rates: "\<And>r. \<exists>n rs. scan_rates p r = Some (n, rs) \<and> n \<le> 14 \<and> length rs = 14"
    and stop: "\<exists>c \<in> set cs. cs_chan_number c = 0" and csa: "\<forall>c \<in> set cs. cs_chan_number c \<noteq> 0 \<longrightarrow> cs_chan_number c \<noteq> csa_chan p"
    and limit: "0 < limit" "limit < 9000" and time: "\<forall>c \<in> set cs. unat (cs_max_time c) * limit \<le> 9000"
    and buf: "tlv_buf cfg = pre @ le16 CHANLIST_TLV @ junk" "length pre + 4 + 7 * limit + 18 \<le> length (tlv_buf cfg)"
    and nonzero: "cs_chan_number (hd cs) \<noteq> 0"
  shows "\<exists>gs rest cfg' c. scan_commands (Suc fuel) d p limit filtered (length pre) cs cfg w =
      scan_commands fuel d p limit filtered (length pre) rest cfg' (w @ [c]) \<and> cs = gs @ rest \<and> gs \<noteq> [] \<and>
    (\<forall>c \<in> set gs. cs_chan_number c \<noteq> 0) \<and> length gs \<le> limit \<and> (\<not> filtered \<and> (\<exists>c \<in> set gs. social c) \<longrightarrow> length gs = 1) \<and>
    sent_bytes c = Some (scan_payload p cfg pre gs) \<and> (\<exists>junk'. tlv_buf cfg' = pre @ le16 CHANLIST_TLV @ junk') \<and>
    length (tlv_buf cfg') = length (tlv_buf cfg) \<and> cfg_bss_mode cfg' = cfg_bss_mode cfg \<and> cfg_bssid cfg' = cfg_bssid cfg"
proof -
  let ?size = "length (tlv_buf cfg)"
  have "2 \<le> length junk"
    using buf by simp
  then obtain j1 j2 where j: "junk = j1 @ j2" "length j1 = 2"
    by (metis append_take_drop_id length_take min_absorb2)
  define buf0 where "buf0 = pre @ le16 CHANLIST_TLV @ le16 0 @ j2"
  have zero: "put16 (tlv_buf cfg) (length pre + 2) 0 = Some buf0"
    using buf j by (simp add: put16_def store_def buf0_def)
  define g0 where "g0 = \<lparr>cmd_cfg = cfg\<lparr>tlv_buf := buf0\<rparr>, tlv_idx = 0, total_scan_time = 0, cmd_radio = 0, done_early = False\<rparr>"
  have g0: "cmd_lists pre ?size [] g0"
    using buf j by (simp add: cmd_lists_def g0_def buf0_def chan_list_bytes_def)
  have lim: "length ([] :: chan_scan_param_set list) \<le> limit" "length pre + 4 + 7 * limit \<le> ?size"
    using buf by simp_all
  have alone0: "alone filtered [] cs (done_early g0)"
    by (simp add: alone_def g0_def)
  obtain gs rest g where gather: "gather_channels limit filtered (csa_chan p) (length pre) cs g0 = Some (rest, g)" "cs = gs @ rest"
    "\<forall>c \<in> set gs. cs_chan_number c \<noteq> 0" "cmd_lists pre ?size gs g" "length gs \<le> limit" "\<exists>stop. alone filtered gs rest stop"
    "gs \<noteq> []" "cfg_bss_mode (cmd_cfg g) = cfg_bss_mode (cmd_cfg g0)" "cfg_bssid (cmd_cfg g) = cfg_bssid (cmd_cfg g0)"
    using gather_spec [OF g0 lim limit(2) stop csa alone0] limit nonzero by (auto simp: g0_def)
  obtain tail where tail: "tlv_buf (cmd_cfg g) = chan_list_bytes pre gs @ tail"
    using gather(4) by (auto simp: cmd_lists_def)
  have len: "tlv_buf_len (cmd_cfg g) = length (chan_list_bytes pre gs)" "cmd_radio g = cs_radio_type (last gs)"
    "length (chan_list_bytes pre gs @ tail) = ?size"
    using gather(4,7) tail by (simp_all add: cmd_lists_def length_chan_list)
  have tail18: "18 \<le> length tail"
    using len(3) buf(2) gather(5) by (simp add: length_chan_list)
  obtain n rs where nr: "scan_rates p (cmd_radio g) = Some (n, rs)" "n \<le> 14" "length rs = 14"
    using rates by blast
  obtain more where more: "mwifiex_append_rate_tlv p (cmd_cfg g) (cmd_radio g) =
      Some (n, (cmd_cfg g)\<lparr>tlv_buf := chan_list_bytes pre gs @ rate_bytes p (cmd_radio g) @ more,
        tlv_buf_len := length (chan_list_bytes pre gs) + 4 + n\<rparr>)"
    "length (rate_bytes p (cmd_radio g)) = 4 + n" "length (rate_bytes p (cmd_radio g) @ more) = length tail"
    using append_rates [OF nr tail len(1) tail18] by blast
  define c where "c = (cmd_cfg g)\<lparr>tlv_buf := chan_list_bytes pre gs @ rate_bytes p (cmd_radio g) @ more,
    tlv_buf_len := length (chan_list_bytes pre gs) + 4 + n\<rparr>"
  let ?cfg' = "c\<lparr>tlv_buf_len := tlv_buf_len c - (4 + n)\<rparr>"
  have "\<not> total_scan_time g > MWIFIEX_MAX_TOTAL_SCAN_TIME"
    using total_time_bound [of gs limit] time gather(2,4,5) limit(1) by (auto simp: cmd_lists_def)
  then have "scan_commands (Suc fuel) d p limit filtered (length pre) cs cfg w =
      scan_commands fuel d p limit filtered (length pre) rest ?cfg' (w @ [c])"
    using zero gather(1) more(1) send nonzero stop
    by (cases cs) (simp_all add: g0_def [symmetric] c_def [symmetric] Let_def del: gather_channels.simps)
  moreover have "sent_bytes c = Some (scan_payload p cfg pre gs)"
    using more(2,3) gather(8,9) len(2)
    by (simp add: sent_bytes_def mwifiex_cmd_802_11_scan_def c_def load_def scan_payload_def g0_def)
  moreover have "\<not> filtered \<and> (\<exists>c \<in> set gs. social c) \<longrightarrow> length gs = 1"
    using gather(6) by (auto simp: alone_def)
  moreover have "\<exists>junk'. tlv_buf ?cfg' = pre @ le16 CHANLIST_TLV @ junk'"
    by (simp add: c_def chan_list_bytes_def)
  moreover have "length (tlv_buf ?cfg') = ?size" "cfg_bss_mode ?cfg' = cfg_bss_mode cfg" "cfg_bssid ?cfg' = cfg_bssid cfg"
    using len(3) more(3) gather(8,9) by (simp_all add: c_def g0_def)
  ultimately show ?thesis
    using gather(2,3,5,7) by blast
qed

lemma same_payload:
  "cfg_bss_mode cfg' = cfg_bss_mode cfg \<Longrightarrow> cfg_bssid cfg' = cfg_bssid cfg \<Longrightarrow>
     scan_payload p cfg' pre gs = scan_payload p cfg pre gs"
  by (simp add: scan_payload_def)

definition good_group :: "nat \<Rightarrow> bool \<Rightarrow> chan_scan_param_set list \<Rightarrow> bool" where
  "good_group limit filtered gs \<longleftrightarrow> gs \<noteq> [] \<and> length gs \<le> limit \<and>
     (\<not> filtered \<and> (\<exists>c \<in> set gs. social c) \<longrightarrow> length gs = 1)"

lemma all_commands:
  fixes d :: "scan_cmd_config list scan_driver"
  assumes send: "\<And>n cfg w. send_scan d n cfg w = (0, w @ [cfg])"
    and rates: "\<And>r. \<exists>n rs. scan_rates p r = Some (n, rs) \<and> n \<le> 14 \<and> length rs = 14"
    and limit: "0 < limit" "limit < 9000"
    and stop: "\<exists>c \<in> set cs. cs_chan_number c = 0" and csa: "\<forall>c \<in> set cs. cs_chan_number c \<noteq> 0 \<longrightarrow> cs_chan_number c \<noteq> csa_chan p"
    and time: "\<forall>c \<in> set cs. unat (cs_max_time c) * limit \<le> 9000"
    and buf: "tlv_buf cfg = pre @ le16 CHANLIST_TLV @ junk" "length pre + 4 + 7 * limit + 18 \<le> length (tlv_buf cfg)"
    and fuel: "length cs < fuel"
  shows "\<exists>groups cfg' cmds. scan_commands fuel d p limit filtered (length pre) cs cfg w = Some (0, cfg', w @ cmds) \<and>
    concat groups = takeWhile (\<lambda>c. cs_chan_number c \<noteq> 0) cs \<and> (\<forall>gs \<in> set groups. good_group limit filtered gs) \<and>
    map sent_bytes cmds = map (\<lambda>gs. Some (scan_payload p cfg pre gs)) groups"
  using stop csa time buf fuel
proof (induction fuel arbitrary: cs cfg w junk)
  case (Suc fuel)
  show ?case
  proof (cases "cs_chan_number (hd cs) = 0")
    case True
    then have "scan_commands (Suc fuel) d p limit filtered (length pre) cs cfg w = Some (0, cfg, w @ [])"
      "takeWhile (\<lambda>c. cs_chan_number c \<noteq> 0) cs = concat []"
      using Suc.prems(1) by (cases cs; simp)+
    then show ?thesis
      by (intro exI [of _ "[]"] exI [of _ cfg]) simp
  next
    case False
    obtain gs rest cfg' c where one: "scan_commands (Suc fuel) d p limit filtered (length pre) cs cfg w =
        scan_commands fuel d p limit filtered (length pre) rest cfg' (w @ [c])" "cs = gs @ rest" "gs \<noteq> []"
      "\<forall>c \<in> set gs. cs_chan_number c \<noteq> 0" "good_group limit filtered gs" "sent_bytes c = Some (scan_payload p cfg pre gs)"
      "\<exists>junk'. tlv_buf cfg' = pre @ le16 CHANLIST_TLV @ junk'" "length (tlv_buf cfg') = length (tlv_buf cfg)"
      "cfg_bss_mode cfg' = cfg_bss_mode cfg" "cfg_bssid cfg' = cfg_bssid cfg"
      using one_command [OF send rates Suc.prems(1,2) limit Suc.prems(3,4,5) False, where filtered = filtered and fuel = fuel and w = w]
      unfolding good_group_def by blast
    obtain junk' where junk': "tlv_buf cfg' = pre @ le16 CHANLIST_TLV @ junk'"
      using one(7) by blast
    have "\<exists>groups cfg'' cmds. scan_commands fuel d p limit filtered (length pre) rest cfg' (w @ [c]) = Some (0, cfg'', (w @ [c]) @ cmds) \<and>
        concat groups = takeWhile (\<lambda>c. cs_chan_number c \<noteq> 0) rest \<and> (\<forall>gs \<in> set groups. good_group limit filtered gs) \<and>
        map sent_bytes cmds = map (\<lambda>gs. Some (scan_payload p cfg' pre gs)) groups"
    proof (rule Suc.IH [OF _ _ _ junk'])
      show "length rest < fuel"
        using Suc.prems(6) one(2,3) by (cases gs) auto
    qed (use Suc.prems(1-3,5) one(2,4,8) in auto)
    then obtain groups cfg'' cmds where ih: "scan_commands fuel d p limit filtered (length pre) rest cfg' (w @ [c]) = Some (0, cfg'', w @ c # cmds)"
      "concat groups = takeWhile (\<lambda>c. cs_chan_number c \<noteq> 0) rest" "\<forall>gs \<in> set groups. good_group limit filtered gs"
      "map sent_bytes cmds = map (\<lambda>gs. Some (scan_payload p cfg' pre gs)) groups"
      by auto
    have "takeWhile (\<lambda>c. cs_chan_number c \<noteq> 0) cs = concat (gs # groups)"
      using one(2,4) ih(2) by simp
    then show ?thesis
      using ih one(1,5,6) same_payload [OF one(9,10)]
      by (intro exI [of _ "gs # groups"] exI [of _ cfg''] exI [of _ "c # cmds"]) simp
  qed
qed simp

text \<open>
  C14: a scan ends after fewer commands than the list has entries. The commands list the channels before the end of
  the list once each, in order, at most \<open>limit\<close> in one, after the elements that were there and before the rates of their band;
  unless the scan is filtered, channels 1, 6 and 11 have commands of their own. The channel closed for the
  moment must not be among them, every send succeeds, and the times of one command stay within the bound.
\<close>

theorem scan_covers_channels:
  fixes d :: "scan_cmd_config list scan_driver"
  assumes send: "\<And>n cfg w. send_scan d n cfg w = (0, w @ [cfg])"
    and rates: "\<And>r. \<exists>n rs. scan_rates p r = Some (n, rs) \<and> n \<le> 14 \<and> length rs = 14"
    and limit: "0 < limit" "limit < 9000"
    and stop: "\<exists>c \<in> set cs. cs_chan_number c = 0" and csa: "\<forall>c \<in> set cs. cs_chan_number c \<noteq> 0 \<longrightarrow> cs_chan_number c \<noteq> csa_chan p"
    and time: "\<forall>c \<in> set cs. unat (cs_max_time c) * limit \<le> 9000"
    and room: "off + 4 + 7 * limit + 18 \<le> length (tlv_buf cfg)"
  shows "\<exists>groups p' cfg' cmds.
    mwifiex_scan_channel_list (length cs + 1) d p limit filtered cfg off cs [] = Some (0, p', cfg', cmds) \<and>
    concat groups = takeWhile (\<lambda>c. cs_chan_number c \<noteq> 0) cs \<and>
    (\<forall>gs \<in> set groups. gs \<noteq> [] \<and> length gs \<le> limit \<and> (\<not> filtered \<and> (\<exists>c \<in> set gs. social c) \<longrightarrow> length gs = 1)) \<and>
    map sent_bytes cmds = map (\<lambda>gs. Some (scan_payload p cfg (take off (tlv_buf cfg)) gs)) groups"
proof -
  let ?p = "snd (mwifiex_11h_get_csa_closed_channel (jiffies d []) p)" and ?pre = "take off (tlv_buf cfg)"
  have p: "scan_rates ?p = scan_rates p" "csa_chan ?p = csa_chan p \<or> csa_chan ?p = 0"
    by (auto simp: mwifiex_11h_get_csa_closed_channel_def scan_rates_def Let_def intro!: ext)
  then have payload: "scan_payload ?p c pre gs = scan_payload p c pre gs" for c pre gs
    by (simp add: scan_payload_def rate_bytes_def)
  let ?cfg = "cfg\<lparr>tlv_buf := ?pre @ le16 CHANLIST_TLV @ drop (off + 2) (tlv_buf cfg)\<rparr>"
  have start: "put16 (tlv_buf cfg) off CHANLIST_TLV = Some (?pre @ le16 CHANLIST_TLV @ drop (off + 2) (tlv_buf cfg))"
    using room by (simp add: put16_def store_def)
  have pre: "length ?pre = off" and buf: "length ?pre + 4 + 7 * limit + 18 \<le> length (tlv_buf ?cfg)"
    using room by simp_all
  have rates': "\<And>r. \<exists>n rs. scan_rates ?p r = Some (n, rs) \<and> n \<le> 14 \<and> length rs = 14"
    using rates p(1) by simp
  have csa': "\<forall>c \<in> set cs. cs_chan_number c \<noteq> 0 \<longrightarrow> cs_chan_number c \<noteq> csa_chan ?p"
    using csa p(2) by auto
  have form: "tlv_buf ?cfg = ?pre @ le16 CHANLIST_TLV @ drop (off + 2) (tlv_buf cfg)"
    by simp
  obtain groups cfg' cmds where run: "scan_commands (length cs + 1) d ?p limit filtered off cs ?cfg [] = Some (0, cfg', cmds)"
    "concat groups = takeWhile (\<lambda>c. cs_chan_number c \<noteq> 0) cs" "\<forall>gs \<in> set groups. good_group limit filtered gs"
    "map sent_bytes cmds = map (\<lambda>gs. Some (scan_payload ?p ?cfg ?pre gs)) groups"
    using all_commands [OF send rates' limit stop csa' time form buf, of "length cs + 1" filtered "[]"] unfolding pre by auto
  have "mwifiex_scan_channel_list (length cs + 1) d p limit filtered cfg off cs [] = Some (0, ?p, cfg', cmds)"
    using run(1) start by (simp add: mwifiex_scan_channel_list_def Let_def)
  moreover have "map sent_bytes cmds = map (\<lambda>gs. Some (scan_payload p cfg ?pre gs)) groups"
    using run(4) same_payload [of ?cfg cfg] by (simp add: payload)
  ultimately show ?thesis
    using run(2,3) unfolding good_group_def by blast
qed

text \<open>Five channels of the 2.4 GHz band, two of them scanned alone, at most four in a command.\<close>

definition recorder :: "scan_cmd_config list scan_driver" where
  "recorder = \<lparr>jiffies = (\<lambda>_. 0), send_scan = (\<lambda>n cfg w. (0, w @ [cfg])), mwifiex_cancel_pending_scan_cmd = (\<lambda>w. w),
     core_channel = (\<lambda>_. None), cfg80211_inform_bss = (\<lambda>_ _ _ _ _ _ _ w. (None, w))\<rparr>"

definition scan_chan :: "u8 \<Rightarrow> chan_scan_param_set" where
  "scan_chan n = \<lparr>cs_radio_type = 0, cs_chan_number = n, cs_mode = 2, cs_min_time = 0, cs_max_time = 110\<rparr>"

definition demo_scan :: scan_priv where
  "demo_scan = \<lparr>net = demo_wlan, csa_chan = 13, csa_expire_time = 0, scan_request = False, ext_scan = False,
     passive_scan_time = 110, active_scan_time = 200, specific_scan_time = 200\<rparr>"

definition scan_buf :: scan_cmd_config where
  "scan_buf = \<lparr>cfg_bss_mode = 3, cfg_bssid = replicate 6 0, tlv_buf_len = 0, tlv_buf = replicate 80 0\<rparr>"

lemma scan_covers_channels_witness:
  "\<exists>groups p' cfg' cmds. mwifiex_scan_channel_list 6 recorder demo_scan 4 False scan_buf 0 (map scan_chan [1, 2, 3, 6, 0]) [] =
      Some (0, p', cfg', cmds) \<and> concat groups = map scan_chan [1, 2, 3, 6] \<and>
    map sent_bytes cmds = map (\<lambda>gs. Some (scan_payload demo_scan scan_buf [] gs)) groups"
proof -
  have rates: "\<exists>n rs. scan_rates demo_scan r = Some (n, rs) \<and> n \<le> 14 \<and> length rs = 14" for r
  proof -
    have "scan_rates demo_scan r = scan_rates demo_scan 0"
      by (simp add: scan_rates_def demo_scan_def)
    moreover have "map_option (\<lambda>(n, rs). n \<le> 14 \<and> length rs = 14) (scan_rates demo_scan 0) = Some True"
      by code_simp
    ultimately show ?thesis
      by auto
  qed
  let ?cs = "map scan_chan [1, 2, 3, 6, 0]"
  have send: "send_scan recorder n cfg w = (0, w @ [cfg])" for n cfg w
    by (simp add: recorder_def)
  have lists: "\<exists>c \<in> set ?cs. cs_chan_number c = 0"
    "\<forall>c \<in> set ?cs. cs_chan_number c \<noteq> 0 \<longrightarrow> cs_chan_number c \<noteq> csa_chan demo_scan"
    "\<forall>c \<in> set ?cs. unat (cs_max_time c) * 4 \<le> 9000"
    by (simp_all add: scan_chan_def demo_scan_def)
  have room: "0 + 4 + 7 * 4 + 18 \<le> length (tlv_buf scan_buf)"
    by (simp add: scan_buf_def)
  have numbers: "length ?cs + 1 = 6" "takeWhile (\<lambda>c. cs_chan_number c \<noteq> 0) ?cs = map scan_chan [1, 2, 3, 6]" "take 0 (tlv_buf scan_buf) = []"
    by (simp_all add: scan_chan_def)
  have limit: "0 < (4 :: nat)" "4 < (9000 :: nat)"
    by simp_all
  show ?thesis
    using scan_covers_channels [OF send rates limit lists room, where filtered = False] unfolding numbers by blast
qed

text \<open>A channel closed for the moment between two others: 6 is scanned beside 4 all the same.\<close>

lemma closed_channel_hides_next:
  "map_option (\<lambda>(rest, g). (map cs_chan_number rest, tlv_idx g))
     (gather_channels 4 False 5 0 (map scan_chan [4, 5, 6, 7, 0])
        \<lparr>cmd_cfg = scan_buf, tlv_idx = 0, total_scan_time = 0, cmd_radio = 0, done_early = False\<rparr>) = Some ([7, 0], 2)"
  by code_simp

section \<open>The entries of an answer\<close>

text \<open>Whatever is in an entry, it is left behind: the next one starts after it and the end stays where it is.\<close>

theorem scan_entry_left_behind:
  assumes "mwifiex_parse_single_response_buf kmalloc zeroed d buf pos left tsf radio_arg ext rssi_val p h w =
      Some (ret, pos', left', p', h', w')"
  shows "pos' + left' = pos + left \<and> pos \<le> pos' \<and> (0 < left \<longrightarrow> left' < left)"
proof -
  obtain size at room where head: "(size = 0 \<or> size > room \<longrightarrow> pos' = at + room \<and> left' = 0) \<and>
      (\<not> (size = 0 \<or> size > room) \<longrightarrow> pos' = at + size \<and> left' = room - size)"
    "at + room = pos + left" "pos \<le> at" "2 \<le> left \<or> size = 0" "room \<le> left"
  proof (cases "2 \<le> left")
    case True
    obtain n where n: "get16 buf pos = Some n"
      using assms True by (cases "get16 buf pos") (simp_all add: mwifiex_parse_single_response_buf_def)
    let ?out = "unat n = 0 \<or> unat n > left - 2"
    have "pos' = pos + 2 + (left - 2) \<and> left' = 0" if ?out
      using assms True n that unfolding mwifiex_parse_single_response_buf_def Let_def
      by (simp del: unat_eq_0 split: if_split_asm)
    moreover have "pos' = pos + 2 + unat n \<and> left' = left - 2 - unat n" if "\<not> ?out"
      using assms True n that unfolding mwifiex_parse_single_response_buf_def Let_def
      by (auto simp: bind_eq_Some_conv simp del: unat_eq_0 split: if_split_asm sum.split_asm) (metis sum.exhaust)+
    ultimately show ?thesis
      using True by (intro that [of "unat n" "left - 2" "pos + 2"]) auto
  next
    case False
    then show ?thesis
      using assms by (intro that [of 0 left pos]) (auto simp: mwifiex_parse_single_response_buf_def)
  qed
  then show ?thesis
    by (cases "size = 0 \<or> size > room") auto
qed

text \<open>
  A network on a channel where transmitting is not allowed that the wireless core does not enter in its table: its
  elements are looked for in no memory.
\<close>

lemma passive_network_not_entered:
  assumes "mwifiex_get_cfp (radio (net p)) (case radio_arg of None \<Rightarrow> BAND_G | Some r \<Rightarrow> mwifiex_radio_type_to_band (r AND 3)) nr 0 = (True, r)"
    and "core_channel d (freq (cfp r)) = Some (ch, nl_band)" and "ch_flags ch AND IEEE80211_CHAN_DISABLED = 0"
    and "ch_flags ch AND IEEE80211_CHAN_NO_IR \<noteq> 0" and "fst (inform ch w) = None"
  shows "report_network kmalloc zeroed d nr radio_arg tsf inform sender p h w = None"
  using assms by (cases "inform ch w") (simp add: report_network_def Let_def)

end
