(* ===== verification/Ht_Ie.thy ===== *)
theory Ht_Ie
  imports Bss_Desc
begin

text \<open>
  The 802.11n elements of an association request, the rest of \<open>doc/mwifiex/11n.c\<close>: the capabilities of
  the interface laid over those of the access point, and the elements appended to a command from the
  description of \<open>Bss_Desc\<close>. The wireless core's bands and channels and the adapter's capabilities
  are the environment; the beacon is read from the heap and the command is a buffer with a position.
\<close>

section \<open>Constants\<close>

definition EINVAL :: int where "EINVAL = 22"
definition HT_CAP_SIZE :: nat where "HT_CAP_SIZE = 26"
definition HT_OPER_SIZE :: nat where "HT_OPER_SIZE = 22"
definition TLV_TYPE_CHANLIST :: u16 where "TLV_TYPE_CHANLIST = 0x101"
definition MWIFIEX_DEF_11N_TX_BF_CAP :: u32 where "MWIFIEX_DEF_11N_TX_BF_CAP = 0x09E1E008"

text \<open>From the kernel's \<open>linux/ieee80211.h\<close> and \<open>net/cfg80211.h\<close>.\<close>

definition HT_CAP_SUP_WIDTH_20_40 :: u16 where "HT_CAP_SUP_WIDTH_20_40 = 0x2"
definition HT_CAP_SGI_40 :: u16 where "HT_CAP_SGI_40 = 0x40"
definition HT_EXT_CAP_RD_RESPONDER :: u16 where "HT_EXT_CAP_RD_RESPONDER = 0x800"
definition HT_AMPDU_PARM_FACTOR :: u8 where "HT_AMPDU_PARM_FACTOR = 0x3"
definition HT_AMPDU_PARM_DENSITY :: u8 where "HT_AMPDU_PARM_DENSITY = 0x1C"
definition HT_PARAM_CHA_SEC_OFFSET :: u8 where "HT_PARAM_CHA_SEC_OFFSET = 0x3"
definition HT_PARAM_CHA_SEC_NONE :: u8 where "HT_PARAM_CHA_SEC_NONE = 0"
definition HT_PARAM_CHA_SEC_ABOVE :: u8 where "HT_PARAM_CHA_SEC_ABOVE = 1"
definition HT_PARAM_CHA_SEC_BELOW :: u8 where "HT_PARAM_CHA_SEC_BELOW = 3"
definition HT_PARAM_CHAN_WIDTH_ANY :: u8 where "HT_PARAM_CHAN_WIDTH_ANY = 0x4"
definition CHAN_NO_HT40PLUS :: u32 where "CHAN_NO_HT40PLUS = 0x10"
definition CHAN_NO_HT40MINUS :: u32 where "CHAN_NO_HT40MINUS = 0x20"

section \<open>Environment\<close>

record ht_band =
  sband_cap :: u16
  ampdu_factor :: u8
  ampdu_density :: u8
  mcs_set :: "byte list"

text \<open>The flags of a channel stand for the channel; \<open>None\<close> is the null pointer.\<close>

record ht_env =
  bands :: "u8 \<Rightarrow> ht_band option"
  dev_cap :: u32
  sec_chan_offset :: u8
  ieee80211_channel_to_frequency :: "u32 \<Rightarrow> u8 \<Rightarrow> int"
  ieee80211_get_channel :: "int \<Rightarrow> u32 option"

section \<open>Capabilities\<close>

definition mwifiex_fill_cap_info :: "ht_env \<Rightarrow> u32 \<Rightarrow> u8 \<Rightarrow> byte list \<Rightarrow> (int \<times> byte list) option" where
  "mwifiex_fill_cap_info e bssmode radio ht_cap = do {
     ext \<leftarrow> get16 ht_cap 19;
     (case bands e radio of
        None \<Rightarrow> Some (- EINVAL, ht_cap)
      | Some s \<Rightarrow> do {
          cap \<leftarrow> store ht_cap 2 [(ampdu_factor s AND HT_AMPDU_PARM_FACTOR) OR
                   (push_bit 2 (ampdu_density s) AND HT_AMPDU_PARM_DENSITY)];
          cap \<leftarrow> store cap 3 (mcs_set s);
          cap \<leftarrow> (if bssmode = NL80211_IFTYPE_STATION \<or>
                    (sband_cap s AND HT_CAP_SUP_WIDTH_20_40 \<noteq> 0 \<and> sec_chan_offset e \<noteq> HT_PARAM_CHA_SEC_NONE)
                 then do { b \<leftarrow> idx cap 7; store cap 7 [b OR 1] } else Some cap);
          cap \<leftarrow> put16 cap 0 (sband_cap s);
          cap \<leftarrow> put16 cap 19 (ext AND NOT HT_EXT_CAP_RD_RESPONDER);
          cap \<leftarrow> (if bit (dev_cap e) 30 then store cap 21 (le32 MWIFIEX_DEF_11N_TX_BF_CAP) else Some cap);
          Some (0, cap)
        })
   }"

section \<open>Elements of an association request\<close>

type_synonym cmd_buf = "byte list \<times> nat"

text \<open>One element: its header, its value, and the buffer moved on; with the length added up.\<close>

definition put_tlv :: "u16 \<Rightarrow> byte list \<Rightarrow> cmd_buf \<times> nat \<Rightarrow> (cmd_buf \<times> nat) option" where
  "put_tlv ty v out = do {
     let ((buf, pos), ret_len) = out;
     buf \<leftarrow> store buf pos (le16 ty @ le16 (of_nat (length v)) @ v);
     Some ((buf, pos + 4 + length v), ret_len + 4 + length v)
   }"

definition clear_40mhz :: "byte list \<Rightarrow> byte list option" where
  "clear_40mhz cap = do {
     c \<leftarrow> get16 cap 0;
     put16 cap 0 (c AND NOT HT_CAP_SUP_WIDTH_20_40 AND NOT HT_CAP_SGI_40)
   }"

text \<open>40 MHz is switched off where the channel does not allow the side the access point uses.\<close>

definition update_ht40 :: "ht_env \<Rightarrow> heap \<Rightarrow> mwifiex_bssdescriptor \<Rightarrow> ptr \<Rightarrow> byte list \<Rightarrow> byte list option" where
  "update_ht40 e h d oper cap = do {
     ht_param \<leftarrow> peek8 h (fst oper, snd oper + 1);
     let radio = mwifiex_band_to_radio_type (ucast (bss_band d));
     let chan = ieee80211_get_channel e (ieee80211_channel_to_frequency e (bss_channel d) radio);
     let sec = ht_param AND HT_PARAM_CHA_SEC_OFFSET;
     if sec = HT_PARAM_CHA_SEC_ABOVE then
       (case chan of None \<Rightarrow> None
        | Some flags \<Rightarrow> if flags AND CHAN_NO_HT40PLUS \<noteq> 0 then clear_40mhz cap else Some cap)
     else if sec = HT_PARAM_CHA_SEC_BELOW then
       (case chan of None \<Rightarrow> None
        | Some flags \<Rightarrow> if flags AND CHAN_NO_HT40MINUS \<noteq> 0 then clear_40mhz cap else Some cap)
     else Some cap
   }"

definition append_ht_cap ::
  "ht_env \<Rightarrow> heap \<Rightarrow> mwifiex_bssdescriptor \<Rightarrow> u32 \<Rightarrow> u8 \<Rightarrow> cmd_buf \<times> nat \<Rightarrow> (cmd_buf \<times> nat) option" where
  "append_ht_cap e h d bssmode radio out =
     (case bcn_ht_cap d of
        None \<Rightarrow> Some out
      | Some p \<Rightarrow> do {
          bytes \<leftarrow> peek h p HT_CAP_SIZE;
          (_, cap) \<leftarrow> mwifiex_fill_cap_info e bssmode radio bytes;
          cap \<leftarrow> (case bcn_ht_oper d of None \<Rightarrow> Some cap | Some oper \<Rightarrow> update_ht40 e h d oper cap);
          put_tlv (ucast EID_HT_CAPABILITY) cap out
        })"

definition append_ht_info ::
  "ht_env \<Rightarrow> heap \<Rightarrow> u32 \<Rightarrow> u8 \<Rightarrow> ptr \<Rightarrow> cmd_buf \<times> nat \<Rightarrow> (cmd_buf \<times> nat) option" where
  "append_ht_info e h bssmode radio oper out =
     (if bssmode \<noteq> NL80211_IFTYPE_ADHOC then Some out
      else do {
        bytes \<leftarrow> peek h oper HT_OPER_SIZE;
        s \<leftarrow> bands e radio;
        param \<leftarrow> idx bytes 1;
        bytes \<leftarrow> (if sband_cap s AND HT_CAP_SUP_WIDTH_20_40 = 0
                 then store bytes 1 [param AND NOT (HT_PARAM_CHAN_WIDTH_ANY OR HT_PARAM_CHA_SEC_OFFSET)]
                 else Some bytes);
        put_tlv (ucast EID_HT_OPERATION) bytes out
      })"

definition append_chan_list ::
  "ht_env \<Rightarrow> heap \<Rightarrow> u8 \<Rightarrow> ptr \<Rightarrow> cmd_buf \<times> nat \<Rightarrow> (cmd_buf \<times> nat) option" where
  "append_chan_list e h radio oper out = do {
     chan_number \<leftarrow> peek8 h oper;
     s \<leftarrow> bands e radio;
     radio_type \<leftarrow> (if sband_cap s AND HT_CAP_SUP_WIDTH_20_40 \<noteq> 0 then do {
         param \<leftarrow> peek8 h (fst oper, snd oper + 1);
         Some (if param AND HT_PARAM_CHAN_WIDTH_ANY \<noteq> 0
               then radio OR push_bit 4 (param AND HT_PARAM_CHA_SEC_OFFSET) else radio)
       } else Some radio);
     put_tlv TLV_TYPE_CHANLIST [radio_type, chan_number, 0, 0, 0, 0, 0] out
   }"

definition append_coex :: "heap \<Rightarrow> mwifiex_bssdescriptor \<Rightarrow> cmd_buf \<times> nat \<Rightarrow> (cmd_buf \<times> nat) option" where
  "append_coex h d out =
     (case bcn_bss_co_2040 d of
        None \<Rightarrow> Some out
      | Some p \<Rightarrow> do {
          b \<leftarrow> peek h (fst p, snd p + 2) 1;
          put_tlv (ucast EID_BSS_COEX_2040) b out
        })"

definition append_ext_cap ::
  "heap \<Rightarrow> mwifiex_bssdescriptor \<Rightarrow> (cmd_buf \<times> nat) \<times> ba_priv \<Rightarrow> ((cmd_buf \<times> nat) \<times> ba_priv) option" where
  "append_ext_cap h d st =
     (case bcn_ext_cap d of
        None \<Rightarrow> Some st
      | Some p \<Rightarrow> do {
          len \<leftarrow> peek8 h (fst p, snd p + 1);
          ext_capab \<leftarrow> peek h (fst p, snd p + 2) (unat len);
          out \<leftarrow> put_tlv (ucast EID_EXT_CAPABILITY) ext_capab (fst st);
          Some (out, (snd st)\<lparr>hs2_enabled := (len > 3 \<and> bit (ext_capab ! 3) 7)\<rparr>)
        })"

text \<open>The answer is the length of what was appended; \<open>None\<close> as the buffer is a null pointer.\<close>

definition mwifiex_cmd_append_11n_tlv ::
  "ht_env \<Rightarrow> heap \<Rightarrow> mwifiex_bssdescriptor \<Rightarrow> cmd_buf option \<Rightarrow> ba_priv \<Rightarrow> (nat \<times> cmd_buf option \<times> ba_priv) option" where
  "mwifiex_cmd_append_11n_tlv e h d buffer priv =
     (case buffer of
        None \<Rightarrow> Some (0, None, priv)
      | Some b \<Rightarrow> do {
          let radio = mwifiex_band_to_radio_type (ucast (bss_band d));
          out \<leftarrow> append_ht_cap e h d (mode priv) radio (b, 0);
          out \<leftarrow> (case bcn_ht_oper d of
                    None \<Rightarrow> Some out
                  | Some oper \<Rightarrow> do {
                      out \<leftarrow> append_ht_info e h (mode priv) radio oper out;
                      append_chan_list e h radio oper out
                    });
          out \<leftarrow> append_coex h d out;
          ((b, ret_len), priv) \<leftarrow> append_ext_cap h d (out, priv);
          Some (ret_len, Some b, priv)
        })"

end
