(* ===== verification/Ht_Props.thy ===== *)
theory Ht_Props
  imports Ht_Ie Beacon_Parse
begin

text \<open>
  What \<open>Ht_Ie\<close> appends to an association request: a reader of the type-length-value elements gets back
  the capabilities of the interface laid over those of the access point, the channel and the elements
  copied from the beacon. And that the parser's pointers do not suffice for it.
\<close>

section \<open>Reading elements\<close>

fun read_tlvs :: "byte list \<Rightarrow> (u16 \<times> byte list) list" where
  "read_tlvs (a # b # c # d # t) =
     (let n = unat (ld16 [c, d]) in (ld16 [a, b], take n t) # read_tlvs (drop n t))"
| "read_tlvs _ = []"

definition tlv_bytes :: "(u16 \<times> byte list) list \<Rightarrow> byte list" where
  "tlv_bytes ts = concat (map (\<lambda>(ty, v). le16 ty @ le16 (of_nat (length v)) @ v) ts)"

lemma tlv_bytes_simps [simp]:
  "tlv_bytes [] = []" "tlv_bytes ((ty, v) # ts) = le16 ty @ le16 (of_nat (length v)) @ v @ tlv_bytes ts"
  "tlv_bytes (ts @ us) = tlv_bytes ts @ tlv_bytes us"
  by (simp_all add: tlv_bytes_def)

lemma read_tlv_bytes: "\<forall>(ty, v) \<in> set ts. length v < 65536 \<Longrightarrow> read_tlvs (tlv_bytes ts) = ts"
proof (induction ts)
  case (Cons t ts)
  obtain ty v where t: "t = (ty, v)"
    by fastforce
  have "ld16 [ucast w, ucast (drop_bit 8 w)] = w" for w
    using ld16_le16_nil [of w] by (simp add: le16_def)
  then show ?case
    using Cons by (simp add: t le16_def unat_of_nat)
qed simp

section \<open>Appending elements\<close>

text \<open>The buffer, its position and the length after some elements were appended at \<open>pos\<close>.\<close>

definition appended :: "byte list \<Rightarrow> nat \<Rightarrow> (u16 \<times> byte list) list \<Rightarrow> cmd_buf \<times> nat" where
  "appended buf pos ts =
     (let bs = tlv_bytes ts; n = length bs in ((take pos buf @ bs @ drop (pos + n) buf, pos + n), n))"

lemma put_tlv_appended:
  assumes "pos + length (tlv_bytes (ts @ [(ty, v)])) \<le> length buf"
  shows "put_tlv ty v (appended buf pos ts) = Some (appended buf pos (ts @ [(ty, v)]))"
proof -
  have four: "pos + (length v + (n + 4)) = Suc (Suc (Suc (Suc (pos + (length v + n)))))" for n
    by simp
  show ?thesis
    using assms by (simp add: put_tlv_def appended_def Let_def store_def ac_simps four)
qed

lemma store_mid:
  "length pre = n \<Longrightarrow> length mid = length xs \<Longrightarrow> store (pre @ mid @ post) n xs = Some (pre @ xs @ post)"
  by (simp add: store_def)

text \<open>The capabilities of the interface over those of the access point.\<close>

definition own_mcs :: "ht_env \<Rightarrow> u32 \<Rightarrow> ht_band \<Rightarrow> byte list" where
  "own_mcs e bssmode s =
     (if bssmode = NL80211_IFTYPE_STATION \<or> (bit (sband_cap s) 1 \<and> sec_chan_offset e \<noteq> 0)
      then (mcs_set s)[4 := mcs_set s ! 4 OR 1] else mcs_set s)"

definition own_cap :: "ht_env \<Rightarrow> u32 \<Rightarrow> ht_band \<Rightarrow> byte list \<Rightarrow> u16 \<Rightarrow> byte list" where
  "own_cap e bssmode s ap c =
     le16 c @ [(ampdu_factor s AND 3) OR (push_bit 2 (ampdu_density s) AND 0x1C)] @ own_mcs e bssmode s @
     le16 (ld16 (take 2 (drop 19 ap)) AND NOT 0x800) @
     (if bit (dev_cap e) 30 then le32 MWIFIEX_DEF_11N_TX_BF_CAP else take 4 (drop 21 ap)) @ drop 25 ap"

lemma and_2_bit: "(w :: u16) AND 2 = 0 \<longleftrightarrow> \<not> bit w 1"
  using and_push_bit_one_zero_iff [of w 1] by (simp add: push_bit_of_1)

lemma fill_cap_bytes:
  assumes ap: "length ap = 26" and m: "length (mcs_set s) = 16" and s: "bands e radio = Some s"
  shows "mwifiex_fill_cap_info e bssmode radio ap = Some (0, own_cap e bssmode s ap (sband_cap s))"
proof -
  define a b mcs x t z where parts: "a = take 2 ap" "b = take 1 (drop 2 ap)" "mcs = take 16 (drop 3 ap)"
    "x = take 2 (drop 19 ap)" "t = take 4 (drop 21 ap)" "z = drop 25 ap"
  have ap_eq: "ap = a @ b @ mcs @ x @ t @ z"
    unfolding parts using ap by (auto simp: list_eq_iff_nth_eq nth_append intro!: arg_cong [of _ 25 "nth ap"])
  have len: "length a = 2" "length b = 1" "length mcs = 16" "length x = 2" "length t = 4" "length z = 1"
    using ap by (simp_all add: parts)
  define f where "f = (ampdu_factor s AND 3) OR (push_bit 2 (ampdu_density s) AND 0x1C)"
  define c4 where "c4 = (bssmode = NL80211_IFTYPE_STATION \<or> (bit (sband_cap s) 1 \<and> sec_chan_offset e \<noteq> 0))"
  have m4: "(if c4 then do { b \<leftarrow> idx (a @ f # mcs_set s @ x @ t @ z) 7; store (a @ f # mcs_set s @ x @ t @ z) 7 [b OR 1] }
        else Some (a @ f # mcs_set s @ x @ t @ z)) = Some (a @ f # own_mcs e bssmode s @ x @ t @ z)"
    using len m by (simp add: own_mcs_def c4_def idx_def nth_append store_def upd_conv_take_nth_drop)
  have own: "length (own_mcs e bssmode s) = 16"
    using m by (simp add: own_mcs_def)
  have stores: "store ap 2 [f] = Some (a @ f # mcs @ x @ t @ z)"
    "store (a @ f # mcs @ x @ t @ z) 3 (mcs_set s) = Some (a @ f # mcs_set s @ x @ t @ z)"
    "put16 (a @ f # own_mcs e bssmode s @ x @ t @ z) 0 c = Some (le16 c @ f # own_mcs e bssmode s @ x @ t @ z)"
    "put16 (le16 c @ f # own_mcs e bssmode s @ x @ t @ z) 19 v = Some (le16 c @ f # own_mcs e bssmode s @ le16 v @ t @ z)"
    "store (le16 c @ f # own_mcs e bssmode s @ le16 v @ t @ z) 21 (le32 w) =
       Some (le16 c @ f # own_mcs e bssmode s @ le16 v @ le32 w @ z)" for c v w
    using len m own by (simp_all add: ap_eq put16_def store_def)
  have ext: "get16 ap 19 = Some (ld16 x)"
    using ap by (simp add: get16_Some parts)
  show ?thesis
    using s m4 unfolding mwifiex_fill_cap_info_def ext c4_def
    by (simp add: HT_AMPDU_PARM_FACTOR_def HT_AMPDU_PARM_DENSITY_def HT_CAP_SUP_WIDTH_20_40_def HT_PARAM_CHA_SEC_NONE_def
        HT_EXT_CAP_RD_RESPONDER_def and_2_bit stores own_cap_def f_def [symmetric] parts [symmetric])
qed

lemma peek8_of_peek:
  assumes "peek h p n = Some bs" and "i < n"
  shows "peek8 h (fst p, snd p + i) = Some (bs ! i)"
proof -
  obtain buf where "h (fst p) = Some buf" "snd p + n \<le> length buf" "bs = take n (drop (snd p) buf)"
    using assms(1) by (auto simp: peek_def load_def split: option.splits if_splits)
  then show ?thesis
    using assms(2) by (simp add: peek8_def peek_def load_def hd_drop_conv_nth)
qed

lemma peek_length: "peek h p n = Some bs \<Longrightarrow> length bs = n"
  by (auto simp: peek_def load_def split: option.splits if_splits)

definition radio_of :: "mwifiex_bssdescriptor \<Rightarrow> u8" where
  "radio_of d = mwifiex_band_to_radio_type (ucast (bss_band d))"

text \<open>The channel does not allow 40 MHz on the side of the access point's second channel.\<close>

definition ht40_forbidden :: "ht_env \<Rightarrow> mwifiex_bssdescriptor \<Rightarrow> u8 \<Rightarrow> bool" where
  "ht40_forbidden e d param \<longleftrightarrow>
     (\<exists>flags. ieee80211_get_channel e (ieee80211_channel_to_frequency e (bss_channel d) (radio_of d)) = Some flags \<and>
        (param AND 3 = 1 \<and> bit flags 4 \<or> param AND 3 = 3 \<and> bit flags 5))"

lemma update_ht40_bytes:
  assumes "peek8 h (fst oper, snd oper + 1) = Some param"
    and "ieee80211_get_channel e (ieee80211_channel_to_frequency e (bss_channel d) (radio_of d)) = Some flags"
  shows "update_ht40 e h d oper (own_cap e m s ap c) = Some (own_cap e m s ap
    (if ht40_forbidden e d param then c AND NOT HT_CAP_SUP_WIDTH_20_40 AND NOT HT_CAP_SGI_40 else c))"
proof -
  have clear: "clear_40mhz (own_cap e m s ap c) = Some (own_cap e m s ap (c AND NOT HT_CAP_SUP_WIDTH_20_40 AND NOT HT_CAP_SGI_40))"
    by (simp add: clear_40mhz_def get16_def put16_def own_cap_def load_def store_def)
  have bits: "flags AND 16 = 0 \<longleftrightarrow> \<not> bit flags 4" "flags AND 32 = 0 \<longleftrightarrow> \<not> bit flags 5"
    using and_push_bit_one_zero_iff [of flags 4] and_push_bit_one_zero_iff [of flags 5] by (simp_all add: push_bit_of_1)
  show ?thesis
    using assms clear
    by (simp add: update_ht40_def Let_def radio_of_def [symmetric] ht40_forbidden_def HT_PARAM_CHA_SEC_OFFSET_def
        HT_PARAM_CHA_SEC_ABOVE_def HT_PARAM_CHA_SEC_BELOW_def CHAN_NO_HT40PLUS_def CHAN_NO_HT40MINUS_def bits)
qed

section \<open>The elements of a request\<close>

definition bytes_at :: "heap \<Rightarrow> ptr \<Rightarrow> nat \<Rightarrow> nat \<Rightarrow> byte list" where
  "bytes_at h p i n = the (peek h (fst p, snd p + i) n)"

definition ht_cap_elements :: "ht_env \<Rightarrow> heap \<Rightarrow> mwifiex_bssdescriptor \<Rightarrow> u32 \<Rightarrow> ht_band \<Rightarrow> (u16 \<times> byte list) list" where
  "ht_cap_elements e h d m s =
     (case bcn_ht_cap d of
        None \<Rightarrow> []
      | Some p \<Rightarrow> [(45, own_cap e m s (bytes_at h p 0 26)
          (case bcn_ht_oper d of
             None \<Rightarrow> sband_cap s
           | Some q \<Rightarrow> if ht40_forbidden e d (bytes_at h q 1 1 ! 0)
               then sband_cap s AND NOT HT_CAP_SUP_WIDTH_20_40 AND NOT HT_CAP_SGI_40 else sband_cap s))])"

definition ht_oper_elements :: "heap \<Rightarrow> mwifiex_bssdescriptor \<Rightarrow> u32 \<Rightarrow> ht_band \<Rightarrow> (u16 \<times> byte list) list" where
  "ht_oper_elements h d m s =
     (case bcn_ht_oper d of
        None \<Rightarrow> []
      | Some q \<Rightarrow>
          (let ap = bytes_at h q 0 22; wide = bit (sband_cap s) 1
           in (if m = NL80211_IFTYPE_ADHOC then [(61, if wide then ap else ap[1 := ap ! 1 AND NOT 7])] else []) @
              [(TLV_TYPE_CHANLIST,
                [if wide \<and> bit (ap ! 1) 2 then radio_of d OR push_bit 4 (ap ! 1 AND 3) else radio_of d,
                 ap ! 0, 0, 0, 0, 0, 0])]))"

definition coex_elements :: "heap \<Rightarrow> mwifiex_bssdescriptor \<Rightarrow> (u16 \<times> byte list) list" where
  "coex_elements h d = (case bcn_bss_co_2040 d of None \<Rightarrow> [] | Some p \<Rightarrow> [(72, bytes_at h p 2 1)])"

definition ext_cap_elements :: "heap \<Rightarrow> mwifiex_bssdescriptor \<Rightarrow> (u16 \<times> byte list) list" where
  "ext_cap_elements h d =
     (case bcn_ext_cap d of None \<Rightarrow> [] | Some p \<Rightarrow> [(127, bytes_at h p 2 (unat (bytes_at h p 1 1 ! 0)))])"

definition ht_elements :: "ht_env \<Rightarrow> heap \<Rightarrow> mwifiex_bssdescriptor \<Rightarrow> u32 \<Rightarrow> ht_band \<Rightarrow> (u16 \<times> byte list) list" where
  "ht_elements e h d m s =
     ht_cap_elements e h d m s @ ht_oper_elements h d m s @ coex_elements h d @ ext_cap_elements h d"

text \<open>The beacon has all the bytes the elements should have.\<close>

definition elements_there :: "heap \<Rightarrow> mwifiex_bssdescriptor \<Rightarrow> bool" where
  "elements_there h d \<longleftrightarrow>
     (\<forall>p. bcn_ht_cap d = Some p \<longrightarrow> peek h p 26 \<noteq> None) \<and>
     (\<forall>p. bcn_ht_oper d = Some p \<longrightarrow> peek h p 22 \<noteq> None) \<and>
     (\<forall>p. bcn_bss_co_2040 d = Some p \<longrightarrow> peek h p 3 \<noteq> None) \<and>
     (\<forall>p. bcn_ext_cap d = Some p \<longrightarrow> peek h p 2 \<noteq> None \<and>
        peek h p (2 + unat (bytes_at h p 1 1 ! 0)) \<noteq> None)"

lemma peek_part:
  assumes "peek h p n = Some bs" and "i + k \<le> n"
  shows "peek h (fst p, snd p + i) k = Some (take k (drop i bs))" "bytes_at h p i k = take k (drop i bs)"
  using assms by (auto simp: peek_def load_def bytes_at_def take_drop min_def ac_simps split: option.splits if_splits)

lemma append_ht_cap_elements:
  assumes there: "elements_there h d" and band: "bands e (radio_of d) = Some s" "length (mcs_set s) = 16"
    and chan: "ieee80211_get_channel e (ieee80211_channel_to_frequency e (bss_channel d) (radio_of d)) \<noteq> None"
    and room: "pos + length (tlv_bytes (ts @ ht_cap_elements e h d m s)) \<le> length buf"
  shows "append_ht_cap e h d m (radio_of d) (appended buf pos ts) =
    Some (appended buf pos (ts @ ht_cap_elements e h d m s))"
proof (cases "bcn_ht_cap d")
  case None
  then show ?thesis
    by (simp add: append_ht_cap_def ht_cap_elements_def)
next
  case (Some p)
  obtain flags where flags: "ieee80211_get_channel e (ieee80211_channel_to_frequency e (bss_channel d) (radio_of d)) = Some flags"
    using chan by blast
  obtain ap where ap: "peek h p 26 = Some ap"
    using there Some by (auto simp: elements_there_def)
  have cap: "bytes_at h p 0 26 = ap"
    using ap by (simp add: bytes_at_def)
  note fill = fill_cap_bytes [where e = e and bssmode = m, OF peek_length [OF ap] band(2,1)]
  have room': "pos + length (tlv_bytes (ts @ [(45, v)])) \<le> length buf" if "ht_cap_elements e h d m s = [(45, v)]" for v
    using room that by simp
  show ?thesis
  proof (cases "bcn_ht_oper d")
    case None
    then show ?thesis
      using put_tlv_appended [OF room'] Some ap fill cap
      by (simp add: append_ht_cap_def ht_cap_elements_def HT_CAP_SIZE_def EID_HT_CAPABILITY_def)
  next
    case 2: (Some q)
    then obtain oper where oper: "peek h q 22 = Some oper"
      using there by (auto simp: elements_there_def)
    have param: "peek8 h (fst q, snd q + 1) = Some (bytes_at h q 1 1 ! 0)"
      using peek8_of_peek [OF oper, of 1] peek_part [OF oper, of 1 1] peek_length [OF oper] by simp
    show ?thesis
      using put_tlv_appended [OF room'] Some 2 ap fill cap update_ht40_bytes [where h = h, OF param flags]
      by (simp add: append_ht_cap_def ht_cap_elements_def HT_CAP_SIZE_def EID_HT_CAPABILITY_def)
  qed
qed

lemma append_ht_oper_elements:
  assumes there: "elements_there h d" and band: "bands e (radio_of d) = Some s" and q: "bcn_ht_oper d = Some q"
    and room: "pos + length (tlv_bytes (ts @ ht_oper_elements h d m s)) \<le> length buf"
  shows "do { out \<leftarrow> append_ht_info e h m (radio_of d) q (appended buf pos ts); append_chan_list e h (radio_of d) q out } =
    Some (appended buf pos (ts @ ht_oper_elements h d m s))"
proof -
  obtain ap where ap: "peek h q 22 = Some ap" "length ap = 22"
    using there q peek_length by (auto simp: elements_there_def)
  have oper: "bytes_at h q 0 22 = ap"
    using ap by (simp add: bytes_at_def)
  have rd: "peek8 h q = Some (ap ! 0)" "peek8 h (fst q, Suc (snd q)) = Some (ap ! 1)"
    using peek8_of_peek [OF ap(1), of 0] peek8_of_peek [OF ap(1), of 1] by simp_all
  have bit2: "(ap ! Suc 0 AND 4 = 0) = (\<not> bit (ap ! Suc 0) 2)"
    using and_push_bit_one_zero_iff [of "ap ! Suc 0" 2] by (simp add: push_bit_of_1)
  have upd: "store ap (Suc 0) [x] = Some (ap[Suc 0 := x])" for x
    using ap(2) by (simp add: store_def upd_conv_take_nth_drop)
  define ti where "ti = (if m = NL80211_IFTYPE_ADHOC
    then [(61 :: u16, if bit (sband_cap s) 1 then ap else ap[1 := ap ! 1 AND NOT 7])] else [])"
  define tc where "tc = (TLV_TYPE_CHANLIST,
     [if bit (sband_cap s) 1 \<and> bit (ap ! 1) 2 then radio_of d OR push_bit 4 (ap ! 1 AND 3) else radio_of d,
      ap ! 0, 0, 0, 0, 0, 0])"
  have el: "ht_oper_elements h d m s = ti @ [tc]"
    by (simp add: ht_oper_elements_def q oper ti_def tc_def Let_def)
  have room1: "pos + length (tlv_bytes (ts @ ti)) \<le> length buf" and room2: "pos + length (tlv_bytes ((ts @ ti) @ [tc])) \<le> length buf"
    using room unfolding el by simp_all
  have put: "put_tlv 61 v (appended buf pos ts) = Some (appended buf pos (ts @ [(61, v)]))" if "ti = [(61, v)]" for v
    using put_tlv_appended room1 that by simp
  have "append_ht_info e h m (radio_of d) q (appended buf pos ts) = Some (appended buf pos (ts @ ti))"
    using ap band put
    by (cases "m = NL80211_IFTYPE_ADHOC"; cases "bit (sband_cap s) 1")
      (simp_all add: append_ht_info_def ti_def HT_OPER_SIZE_def idx_def upd EID_HT_OPERATION_def HT_CAP_SUP_WIDTH_20_40_def
        and_2_bit HT_PARAM_CHAN_WIDTH_ANY_def HT_PARAM_CHA_SEC_OFFSET_def)
  moreover have "append_chan_list e h (radio_of d) q (appended buf pos (ts @ ti)) = Some (appended buf pos ((ts @ ti) @ [tc]))"
    using rd band put_tlv_appended [OF room2 [unfolded tc_def]] unfolding tc_def
    by (cases "bit (sband_cap s) 1"; cases "bit (ap ! 1) 2")
      (simp_all add: append_chan_list_def HT_CAP_SUP_WIDTH_20_40_def and_2_bit HT_PARAM_CHAN_WIDTH_ANY_def
        HT_PARAM_CHA_SEC_OFFSET_def bit2)
  ultimately show ?thesis
    by (simp add: el)
qed

lemma append_coex_elements:
  assumes there: "elements_there h d"
    and room: "pos + length (tlv_bytes (ts @ coex_elements h d)) \<le> length buf"
  shows "append_coex h d (appended buf pos ts) = Some (appended buf pos (ts @ coex_elements h d))"
proof (cases "bcn_bss_co_2040 d")
  case (Some p)
  then obtain bs where bs: "peek h p 3 = Some bs"
    using there by (auto simp: elements_there_def)
  show ?thesis
    using room put_tlv_appended [of pos ts 72 "bytes_at h p 2 1" buf] peek_part [OF bs, of 2 1] Some
    by (simp add: append_coex_def coex_elements_def EID_BSS_COEX_2040_def)
qed (simp add: append_coex_def coex_elements_def)

text \<open>The flag for Hotspot 2.0 after a beacon: bit 31 of the extended capabilities, if there are any.\<close>

definition interworking :: "heap \<Rightarrow> mwifiex_bssdescriptor \<Rightarrow> bool \<Rightarrow> bool" where
  "interworking h d old =
     (case bcn_ext_cap d of
        None \<Rightarrow> old
      | Some p \<Rightarrow> 3 < unat (bytes_at h p 1 1 ! 0) \<and> bit (bytes_at h p 5 1 ! 0) 7)"

lemma append_ext_cap_elements:
  assumes there: "elements_there h d"
    and room: "pos + length (tlv_bytes (ts @ ext_cap_elements h d)) \<le> length buf"
  shows "append_ext_cap h d (appended buf pos ts, priv) =
    Some (appended buf pos (ts @ ext_cap_elements h d), priv\<lparr>hs2_enabled := interworking h d (hs2_enabled priv)\<rparr>)"
proof (cases "bcn_ext_cap d")
  case (Some p)
  then obtain hdr bs where hdr: "peek h p 2 = Some hdr"
    and bs: "peek h p (2 + unat (bytes_at h p 1 1 ! 0)) = Some bs" (is "peek h p (2 + ?n) = _")
    using there unfolding elements_there_def by blast
  have len: "peek8 h (fst p, Suc (snd p)) = Some (bytes_at h p 1 1 ! 0)"
    using peek8_of_peek [OF hdr, of 1] peek_part [OF hdr, of 1 1] peek_length [OF hdr] by simp
  have body: "peek h (fst p, snd p + 2) ?n = Some (bytes_at h p 2 ?n)"
    using peek_part [OF bs, of 2 ?n] by simp
  have three: "bytes_at h p 2 ?n ! 3 = bytes_at h p 5 1 ! 0" if "3 < ?n"
    using peek_part(2) [OF bs, of 2 ?n] peek_part(2) [OF bs, of 5 1] peek_length [OF bs] that
    by (simp add: nth_drop)
  have num: "bytes_at h p 1 1 ! 0 > 3 \<longleftrightarrow> 3 < ?n"
    by (simp add: word_less_nat_alt)
  show ?thesis
    using room put_tlv_appended [of pos ts 127 "bytes_at h p 2 ?n" buf] len body three num Some
    by (auto simp: append_ext_cap_def ext_cap_elements_def interworking_def EID_EXT_CAPABILITY_def)
qed (simp add: append_ext_cap_def ext_cap_elements_def interworking_def)

definition short_values :: "(u16 \<times> byte list) list \<Rightarrow> bool" where
  "short_values ts \<longleftrightarrow> (\<forall>(ty, v) \<in> set ts. length v < 65536)"

lemma ht_elements_short:
  assumes there: "elements_there h d" and m: "length (mcs_set s) = 16"
  shows "short_values (ht_elements e h d m s)"
proof -
  have "short_values (ht_cap_elements e h d m s)"
  proof (cases "bcn_ht_cap d")
    case (Some p)
    then have "length (bytes_at h p 0 26) = 26"
      using there peek_length by (auto simp: elements_there_def bytes_at_def)
    then show ?thesis
      using m Some by (simp add: short_values_def ht_cap_elements_def own_cap_def own_mcs_def)
  qed (simp add: short_values_def ht_cap_elements_def)
  moreover have "short_values (ht_oper_elements h d m s)"
  proof (cases "bcn_ht_oper d")
    case (Some p)
    then have "length (bytes_at h p 0 22) = 22"
      using there peek_length by (auto simp: elements_there_def bytes_at_def)
    then show ?thesis
      using Some by (simp add: short_values_def ht_oper_elements_def Let_def)
  qed (simp add: short_values_def ht_oper_elements_def)
  moreover have "short_values (coex_elements h d)"
  proof (cases "bcn_bss_co_2040 d")
    case (Some p)
    then obtain bs where "peek h p 3 = Some bs"
      using there unfolding elements_there_def by blast
    then have "length (bytes_at h p 2 1) = 1"
      using peek_part(2) [of h p 3 bs 2 1] peek_length [of h p 3 bs] by simp
    then show ?thesis
      using Some by (simp add: short_values_def coex_elements_def)
  qed (simp add: short_values_def coex_elements_def)
  moreover have "short_values (ext_cap_elements h d)"
  proof (cases "bcn_ext_cap d")
    case (Some p)
    let ?n = "unat (bytes_at h p 1 1 ! 0)"
    obtain bs where bs: "peek h p (2 + ?n) = Some bs"
      using there Some unfolding elements_there_def by blast
    have "length (bytes_at h p 2 ?n) = ?n"
      using peek_part(2) [OF bs, of 2 ?n] peek_length [OF bs] by simp
    then show ?thesis
      using unat_u8_less [of "bytes_at h p 1 1 ! 0"] Some
      by (simp add: short_values_def ext_cap_elements_def del: unat_u8_less)
  qed (simp add: short_values_def ext_cap_elements_def)
  ultimately show ?thesis
    unfolding ht_elements_def short_values_def set_append by blast
qed

text \<open>
  C22: a reader of what is appended to an association request gets back the capabilities of the interface laid
  over those of the access point, without 40 MHz where the channel forbids it, the operation element in an ad-hoc
  network, the channel with its second one, and the elements copied from the beacon; the answer is their
  length, the rest of the command is as before, and the Hotspot flag says whether bit 31 is set.
\<close>

theorem ht_elements_appended:
  assumes there: "elements_there h d" and band: "bands e (radio_of d) = Some s" "length (mcs_set s) = 16"
    and chan: "ieee80211_get_channel e (ieee80211_channel_to_frequency e (bss_channel d) (radio_of d)) \<noteq> None"
    and room: "pos + length (tlv_bytes (ht_elements e h d (mode priv) s)) \<le> length buf"
  shows "\<exists>bs. mwifiex_cmd_append_11n_tlv e h d (Some (buf, pos)) priv =
      Some (length bs, Some (take pos buf @ bs @ drop (pos + length bs) buf, pos + length bs),
        priv\<lparr>hs2_enabled := interworking h d (hs2_enabled priv)\<rparr>) \<and>
    read_tlvs bs = ht_elements e h d (mode priv) s"
proof -
  let ?m = "mode priv"
  let ?c = "ht_cap_elements e h d ?m s" and ?o = "ht_oper_elements h d ?m s"
  have room': "pos + length (tlv_bytes ([] @ ?c)) \<le> length buf" "pos + length (tlv_bytes (?c @ ?o)) \<le> length buf"
    "pos + length (tlv_bytes ((?c @ ?o) @ coex_elements h d)) \<le> length buf"
    "pos + length (tlv_bytes (((?c @ ?o) @ coex_elements h d) @ ext_cap_elements h d)) \<le> length buf"
    using room by (simp_all add: ht_elements_def)
  have start: "((buf, pos), 0) = appended buf pos []"
    by (simp add: appended_def)
  have oper: "(case bcn_ht_oper d of
      None \<Rightarrow> Some (appended buf pos ?c)
    | Some q \<Rightarrow> do { out \<leftarrow> append_ht_info e h ?m (radio_of d) q (appended buf pos ?c);
        append_chan_list e h (radio_of d) q out }) = Some (appended buf pos (?c @ ?o))"
    using append_ht_oper_elements [OF there band(1) _ room'(2)]
    by (cases "bcn_ht_oper d") (simp_all add: ht_oper_elements_def)
  have "mwifiex_cmd_append_11n_tlv e h d (Some (buf, pos)) priv =
      (let out = appended buf pos (ht_elements e h d ?m s)
       in Some (snd out, Some (fst out), priv\<lparr>hs2_enabled := interworking h d (hs2_enabled priv)\<rparr>))"
    using append_ht_cap_elements [OF there band chan room'(1)] append_coex_elements [OF there room'(3)]
      append_ext_cap_elements [OF there room'(4), of priv] oper
    by (simp add: mwifiex_cmd_append_11n_tlv_def radio_of_def [symmetric] start ht_elements_def Let_def split: prod.split)
  then show ?thesis
    using read_tlv_bytes [OF ht_elements_short [OF there band(2), unfolded short_values_def]]
    by (intro exI [of _ "tlv_bytes (ht_elements e h d ?m s)"]) (simp add: appended_def Let_def)
qed

text \<open>A beacon with 802.11n capabilities, operation on channel 6 and extended capabilities with bit 31.\<close>

definition ht_beacon :: "byte list" where
  "ht_beacon = [EID_HT_CAPABILITY, 26] @ replicate 26 0xff @ [EID_HT_OPERATION, 22, 6, 5] @ replicate 20 0 @
     [EID_EXT_CAPABILITY, 4, 0, 0, 0, 0x80]"

definition ht_desc :: mwifiex_bssdescriptor where
  "ht_desc = zero_desc\<lparr>bss_band := 11, bcn_ht_cap := Some (1, 2), bcn_ht_oper := Some (1, 30), bcn_ext_cap := Some (1, 52)\<rparr>"

definition demo_band :: ht_band where
  "demo_band = \<lparr>sband_cap = 0x112e, ampdu_factor = 3, ampdu_density = 5, mcs_set = 0xff # replicate 15 0\<rparr>"

definition demo_ht :: ht_env where
  "demo_ht = \<lparr>bands = (\<lambda>r. if r = 0 then Some demo_band else None), dev_cap = 0, sec_chan_offset = 0,
     ieee80211_channel_to_frequency = (\<lambda>c b. 2407 + 5 * uint c), ieee80211_get_channel = (\<lambda>f. Some 0x10)\<rparr>"

lemma ht_elements_appended_witness:
  "\<exists>bs. mwifiex_cmd_append_11n_tlv demo_ht [1 \<mapsto> ht_beacon] ht_desc (Some (replicate 60 0, 2)) fresh_priv =
     Some (length bs, Some (take 2 (replicate 60 0) @ bs @ drop (2 + length bs) (replicate 60 0), 2 + length bs),
       fresh_priv\<lparr>hs2_enabled := True\<rparr>) \<and>
     map fst (read_tlvs bs) = [45, 0x101, 127] \<and> ld16 (snd (hd (read_tlvs bs))) = 0x112c"
proof -
  have there: "elements_there [1 \<mapsto> ht_beacon] ht_desc"
    by (simp add: elements_there_def ht_desc_def zero_desc_def peek_def load_def bytes_at_def ht_beacon_def)
  have band: "bands demo_ht (radio_of ht_desc) = Some demo_band" "length (mcs_set demo_band) = 16"
    by (code_simp, simp add: demo_band_def)
  have chan: "ieee80211_get_channel demo_ht (ieee80211_channel_to_frequency demo_ht (bss_channel ht_desc) (radio_of ht_desc)) \<noteq> None"
    by (simp add: demo_ht_def)
  have bytes: "bytes_at [1 \<mapsto> ht_beacon] (1, 2) 0 26 = replicate 26 0xff"
    "bytes_at [1 \<mapsto> ht_beacon] (1, 30) 0 22 = [6, 5] @ replicate 20 0" "bytes_at [1 \<mapsto> ht_beacon] (1, 30) 1 1 = [5]"
    "bytes_at [1 \<mapsto> ht_beacon] (1, 52) 1 1 = [4]" "bytes_at [1 \<mapsto> ht_beacon] (1, 52) 2 4 = [0, 0, 0, 0x80]"
    "bytes_at [1 \<mapsto> ht_beacon] (1, 52) 5 1 = [0x80]"
    by (simp_all add: bytes_at_def peek_def load_def ht_beacon_def)
  have desc: "bcn_ht_cap ht_desc = Some (1, 2)" "bcn_ht_oper ht_desc = Some (1, 30)" "bcn_ext_cap ht_desc = Some (1, 52)"
    "bcn_bss_co_2040 ht_desc = None" "bss_channel ht_desc = 0"
    by (simp_all add: ht_desc_def zero_desc_def)
  have radio: "radio_of ht_desc = 0" "mode fresh_priv \<noteq> NL80211_IFTYPE_ADHOC" "hs2_enabled fresh_priv = False"
    by code_simp+
  have forbidden: "ht40_forbidden demo_ht ht_desc 5"
    by (simp add: ht40_forbidden_def demo_ht_def)
  have els: "ht_elements demo_ht [1 \<mapsto> ht_beacon] ht_desc (mode fresh_priv) demo_band =
      [(45, own_cap demo_ht (mode fresh_priv) demo_band (replicate 26 0xff) 0x112c), (0x101, [0x10, 6, 0, 0, 0, 0, 0]),
       (127, [0, 0, 0, 0x80])]"
    using bytes desc radio forbidden
    by (simp add: ht_elements_def ht_cap_elements_def ht_oper_elements_def coex_elements_def ext_cap_elements_def Let_def
        demo_band_def TLV_TYPE_CHANLIST_def HT_CAP_SUP_WIDTH_20_40_def HT_CAP_SGI_40_def del: One_nat_def) simp
  have hs2: "interworking [1 \<mapsto> ht_beacon] ht_desc (hs2_enabled fresh_priv)"
    using bytes desc by (simp add: interworking_def)
  have room: "2 + length (tlv_bytes (ht_elements demo_ht [1 \<mapsto> ht_beacon] ht_desc (mode fresh_priv) demo_band)) \<le>
      length (replicate 60 (0 :: u8))"
    using band(2) unfolding els by (simp add: own_cap_def own_mcs_def)
  have cap: "ld16 (own_cap demo_ht (mode fresh_priv) demo_band (replicate 26 0xff) 0x112c) = 0x112c"
    by (simp add: own_cap_def)
  show ?thesis
    using ht_elements_appended [OF there band chan room] cap hs2 unfolding els
    by auto
qed

text \<open>The parser takes an element of any length: a short one at the end of the beacon is read past it.\<close>

theorem short_ht_capability_overruns:
  assumes "bcn_ht_cap d = Some p" and "h (fst p) = Some buf" and "length buf < snd p + 26"
  shows "mwifiex_cmd_append_11n_tlv e h d (Some b) priv = None"
  using assms by (simp add: mwifiex_cmd_append_11n_tlv_def append_ht_cap_def HT_CAP_SIZE_def peek_def load_def)

end
