(* ===== verification/Spec2Isabelle.thy ===== *)
theory Spec2Isabelle
  imports App Dump Kwifimon_System Kwifimon_Stats Knet Radiotap Bin2elf Fw_Image Cfp Ba_Properties Tx_Bus Uap_Props Rx_System Net_Props Scan_Props Ht_Props
begin

text \<open>
  WiFi monitor for the PS Vita: a kernel plugin that hooks the console's WLAN driver, a user
  plugin and an application that drive it, a tool for the chip's firmware, and the Linux
  drivers of the same family of chips, kept under \<open>doc\<close> as the reference for the reverse
  engineering. This theory imports all others and holds the properties that span parts.

  The parts and how they interact. The kernel plugin (\<open>src/kplugin\<close>, \<open>src/common\<close>) installs a
  hook on the driver's receive function, which counts packets, and one on its ioctl function,
  which adds requests of its own and passes the rest on; system calls read the counters and start
  and stop a recorder to a file and one to the network. The user plugin (\<open>src/uplugin\<close>) wraps
  the system calls. The application (\<open>src/app\<close>) loads the plugins, finds the network interface,
  and reads and writes the chip's memory through the ioctl hook, to dump or to patch the
  firmware. The tool (\<open>dump/bin2elf.c\<close>) turns the dumps, or the firmware image, into an ELF
  file. The Linux driver (\<open>doc/mwifiex\<close>) is where the plugin's rate tables come from; its
  receive path, block-ack sessions and transmit queues are what the hooked driver does with the same firmware.

  Theories and sources.
  \<^item> Foundations. \<open>Wifi_Prelude\<close>: machine integers, little-endian layout with the locale \<open>codec\<close>,
    checked \<open>load\<close> and \<open>store\<close>. \<open>C_Layout\<close>: offsets and sizes of packed structs. \<open>Kernel_Iface\<close>:
    the services of the kernel, of taiHEN and of the hooked driver, as records of functions over
    an unspecified world.
  \<^item> Kernel plugin. \<open>Pcap\<close> is \<open>pcap.c\<close>, \<open>Knet\<close> \<open>knet.c\<close>, \<open>Rates\<close> \<open>m.c\<close>, \<open>Radiotap\<close> the capture
    headers of \<open>radiotap.h\<close>, \<open>Kwifimon\<close> and \<open>Kwifimon_Ioctl\<close> are \<open>kwifimon.c\<close>. The static
    variables are the record \<open>kwifimon_globals\<close>, which extends those of the recorders. \<open>Kwifimon_Stats\<close>
    is about the counters, \<open>Kwifimon_System\<close> about the reachable states, as an inductive relation.
  \<^item> User side. \<open>Uwifimon\<close> is \<open>uwifimon.c\<close>; \<open>Util\<close>, \<open>Patch\<close>, \<open>Dump\<close> and \<open>App\<close> are \<open>util.c\<close>,
    \<open>patch.c\<close>, \<open>dump.c\<close>, and \<open>ui.c\<close> with \<open>main.c\<close>. \<open>Util\<close> also connects the application's calls to
    the plugin's ioctl hook.
  \<^item> Firmware tool. \<open>Crc\<close>, \<open>Bin2elf\<close> and \<open>Fw_Image\<close> are the checksum, the writer and the reader
    of \<open>bin2elf.c\<close>.
  \<^item> Reference driver. \<open>Cfp\<close> is \<open>cfp.c\<close>. \<open>Rx_Window\<close> has the operations of \<open>11n_rxreorder.c\<close> on one
    reorder table, \<open>Rx_Order\<close> the order of delivery, \<open>Rx_Complete\<close> a window that nothing is lost in, \<open>Rx_Reorder\<close> the operations on the tables of an
    interface, \<open>Rx_Events\<close> those on all interfaces and the notice of dropped packets. \<open>Ba_State\<close>
    has the state that is shared with \<open>11n.c\<close> and the requests to the firmware, \<open>Tx_Ba\<close> the
    rest of \<open>11n.c\<close> and the inline functions of \<open>11n.h\<close>, \<open>Ba_Sessions\<close> both sides together, \<open>Ba_Properties\<close>
    properties of single operations.
  \<^item> Reference driver, networks. \<open>Bss_Desc\<close> has the description of an access point, the beacon parser of \<open>scan.c\<close> that fills it
    in, \<open>mwifiex_fill_new_bss_desc\<close> of \<open>sta_ioctl.c\<close> and the copy of the current beacon; \<open>Beacon_Parse\<close> compares the parser with a
    reader of elements. \<open>Net_Match\<close> decides whether a network suits the security settings and keeps the current
    network, both of \<open>scan.c\<close>, with its properties in \<open>Net_Props\<close>. \<open>Scan_Cmd\<close> divides the channels of a scan into
    commands and enters one network of the firmware's answer; \<open>Scan_Props\<close> shows that the commands list every channel once.
    The loop over the commands has fuel, for which one more than the entries of the list is enough. \<open>Ht_Ie\<close> builds the elements of an association request, the
    last part of \<open>11n.c\<close>, and \<open>Ht_Props\<close> reads them back. A description points into beacons, which are the blocks of a heap.
  \<^item> Reference driver, sending. \<open>Wmm_Prio\<close> has the priorities of \<open>wmm.c\<close>, \<open>Wmm_Queue\<close> its queues, \<open>Wmm_Tx\<close> its search
    and its senders, with the bus queue of \<open>txrx.c\<close>; \<open>Tx_Desc\<close> is the descriptor of \<open>sta_tx.c\<close> and \<open>uap_txrx.c\<close>,
    \<open>Tx_Aggr\<close> the frames of \<open>11n_aggr.c\<close>. The state is the record \<open>tx_adapter\<close>, with the interfaces as \<open>ba_priv\<close>. \<open>Wmm_Inv\<close>,
    \<open>Wmm_Send\<close>, \<open>Wmm_Run\<close> and \<open>Wmm_Steps\<close> hold the invariant of the queues, for one interface, the search, the
    senders, and all operations in any order; \<open>Tx_Bus\<close> is about the counter of the bus queue. \<open>Tx_Done\<close> has both ends of a packet's
    way: \<open>mwifiex_hard_start_xmit\<close> of \<open>main.c\<close>, and completion and acknowledgement of \<open>txrx.c\<close>.
  \<^item> Reference driver, receiving. \<open>Rx_Path\<close> is \<open>sta_rx.c\<close> with the functions of \<open>util.c\<close> that hand packets to the kernel. \<open>Uap_Rx\<close> is
    \<open>uap_txrx.c\<close>, which passes packets of one station on to the others through the transmit queues, and the
    entry \<open>mwifiex_handle_rx_packet\<close> of \<open>txrx.c\<close>; \<open>Uap_Props\<close> has its properties. \<open>Rx_System\<close> puts \<open>Rx_Path\<close> under the reordering. A received packet is the record \<open>rx_skb\<close>.

  How the code is modelled. Every function is one definition with the function's name, which takes
  and returns the state it changes. Integers keep their width as words; where C promotes to
  \<open>int\<close> and nothing can overflow, they are \<open>int\<close>. Errors that the code returns are results; an access
  outside a buffer or array, or through a null pointer, is \<open>None\<close> (\<open>Fault\<close> in \<open>Rx_Events\<close>), so a theorem
  that gives \<open>Some\<close> also says that no such access happens. Calls to code outside the repository
  are fields of the records \<open>kernel\<close>, \<open>user\<close>, \<open>upper\<close>, \<open>driver\<close>, \<open>queue_driver\<close>, \<open>tx_driver\<close>, \<open>rx_driver\<close>, \<open>net_driver\<close> and
  \<open>uap_driver\<close>; so are calls between two modelled files of the driver where one is handed a packet by the other: \<open>upper\<close> for the reordering, whose callees
  are in \<open>Rx_Path\<close> and \<open>Uap_Rx\<close>, and \<open>write_data_complete\<close> for the queues, which \<open>completing\<close> of \<open>Tx_Done\<close> fills in. What a theorem needs of them
  is a hypothesis, and its witness instantiates it. Buffers are byte lists, the kernel's linked lists
  are lists, and a pointer to an entry is its position; a receiver in the transmit queues is known by its address.

  Groups of lemmas. Layouts: the codec interpretations give the round trips of all packed structs.
  Recorders: the locales \<open>recorder\<close> and \<open>flagged_recorder\<close> hold the contract of starting and stopping, and are
  interpreted for the file and the network. Plugin: balanced locks, the invariant of the reachable states,
  the conservation of the counters, and what loading and unloading do. Application and tool: the
  functional behaviour up to the first failure, on every path. Reordering: an abstract window
  (\<open>Rx_Window\<close>), the code as its implementation, no packet lost or doubled, delivery in order; then
  the same for any mix of operations, as steps that keep the invariant \<open>ba_inv\<close> and account for every
  packet (\<open>rx_step\<close>, \<open>ba_step\<close>). The locale \<open>session_list\<close> is the contract of both lists of sessions. Sending: exact
  counters (\<open>counters_ok\<close>) and noted priorities (\<open>prios_ok\<close>) per interface, kept by every step of \<open>tx_step\<close>;
  with them the search needs one pass. What the service \<open>meanwhile\<close> does while a packet is on the bus can break
  them (\<open>deleted_peer_stalls_sending\<close>), and so does deleting packets that an access point passes on (\<open>purged_packets_counted_twice\<close>).
  The kernel's queues: \<open>flow_ok\<close>, kept by the steps of \<open>flow_step\<close>. Receiving: what reaches the kernel and the queues is the frame that was sent,
  where \<open>subframe\<close> of \<open>Tx_Aggr\<close>, the sender's side, says how it was packed; \<open>complete_inv\<close> is the invariant of a window without losses.
  Networks: \<open>split_ies\<close> and \<open>last_ie\<close> say where the elements of a beacon are, \<open>all_fit\<close> which beacons are safe to parse, \<open>offsets_ok\<close>
  that the offsets kept beside the pointers agree with them, which is what moving a description relies on.

  Bounds and fuel. Structural recursion or a measure ends every loop but six. \<open>dump_loop\<close> has as
  fuel the number of words of the segment, which is enough (\<open>dump_outcome\<close>). \<open>winsize_loop\<close> runs with the
  number of interfaces plus one, enough for up to eight of them (\<open>winsize_updates_stop\<close>; the driver
  has three). \<open>rxba_bytes\<close>, the loop of the notice handler, has any fuel: 256 is enough for bitmaps of up to
  255 bytes (\<open>sync_event_end\<close>), and none is enough for longer ones (\<open>sync_event_stuck\<close>).
  \<open>try_interface\<close>, one interface's turn of the search, has any fuel: with exact counters 1 is enough
  (\<open>search_finds_highest\<close>), with a counter that is too high none (\<open>deleted_peer_stalls_sending\<close>). \<open>wmm_process_tx\<close>
  sends until something stops it, with any fuel. \<open>process_tx_queue\<close> runs with one more than the length of its queue, enough as
  each turn but the last takes a packet away.

  Not modelled. Drawing on the screen (\<open>ui.c\<close>, \<open>main.c\<close>) and diagnostic output; code that is commented
  out; accounting of buffer sizes, waking the driver's threads, and the statistics of the peer a packet is sent to. Between two locked regions of a sender other threads
  act through \<open>meanwhile\<close>; in the other operations, and between the packets of an aggregate, nothing comes between.
  Of \<open>main.c\<close>, all but the way of a packet from the kernel; of \<open>scan.c\<close>, the configuration of a scan by
  the user, background scans and the extended scan command. The other files of the Linux drivers under \<open>doc\<close> (\<open>mwifiex\<close>, \<open>libertas\<close>,
  \<open>marvell\<close>) are third-party code that is not part of the program; of \<open>util.c\<close>, \<open>join.c\<close>, \<open>sta_ioctl.c\<close>, \<open>tdls.c\<close> and the headers, only
  what the modelled files call.
\<close>

text \<open>The structs the plugin overlays on the driver's memory have the sizes, and the lock
  has the offset, that the static assertions of \<open>module_start\<close> demand.\<close>

theorem static_asserts_hold:
  "sizeof netdev_t_fields = 0xb0 \<and> sizeof wlan_dev_t_fields = 0x1e30 \<and>
   offset_of wlan_dev_t_fields ''wlan_lock'' = Some 0x718"
  by code_simp

section \<open>Recording\<close>

text \<open>Packets that arrive one after the other.\<close>

fun receive_all ::
  "'w kernel \<Rightarrow> (byte list \<times> int) list \<Rightarrow> ('w, 'm) kwifimon_globals_scheme \<Rightarrow>
     ('w, 'm) kwifimon_globals_scheme option" where
  "receive_all k [] s = Some s"
| "receive_all k ((pkt, n) # pkts) s = do {
     (_, s) \<leftarrow> kwifimon_process_respose k pkt n s;
     receive_all k pkts s
   }"

text \<open>The services the packet hook uses leave the files alone.\<close>

definition hook_keeps_files :: "'w kernel \<Rightarrow> ('w \<Rightarrow> int \<Rightarrow> byte list) \<Rightarrow> bool" where
  "hook_keeps_files k content \<longleftrightarrow>
     (\<forall>m. neutral content (ksceKernelLockMutex k m)) \<and>
     (\<forall>m. neutral content (ksceKernelUnlockMutex k m)) \<and>
     (\<forall>p n. neutral content (orig_process_response k p n))"

lemma count_locked_files:
  assumes "hook_keeps_files k content"
  shows "content (world (count_locked k f s)) = content (world s)"
    and "pcap_fd (count_locked k f s) = pcap_fd s"
  using assms by (auto simp: count_locked_def hook_keeps_files_def neutral_def sys_update Let_def)

lemma hook_files:
  assumes "hook_keeps_files k content" and "kwifimon_process_respose k pkt n s = Some (r, s')"
  shows "content (world s') = content (world s) \<and> pcap_fd s' = pcap_fd s"
proof -
  have "neutral content (orig_process_response k pkt n)"
    using assms(1) by (simp add: hook_keeps_files_def)
  then show ?thesis
    using assms(2) count_locked_files [OF assms(1)]
    by (auto simp: kwifimon_process_respose_def sys_update Let_def neutral_def
        Option.bind_eq_Some_conv split: if_splits)
qed

lemma receive_all_files:
  assumes "hook_keeps_files k content" and "receive_all k pkts s = Some s'"
  shows "content (world s') = content (world s) \<and> pcap_fd s' = pcap_fd s"
  using assms(2)
proof (induction pkts arbitrary: s)
  case (Cons p pkts)
  obtain pkt n where p: "p = (pkt, n)" by fastforce
  obtain r s1 where s1: "kwifimon_process_respose k pkt n s = Some (r, s1)" "receive_all k pkts s1 = Some s'"
    using Cons.prems by (auto simp: p Option.bind_eq_Some_conv)
  show ?case
    using Cons.IH [OF s1(2)] hook_files [OF assms(1) s1(1)] by simp
qed simp

text \<open>C37: recording records nothing. While a capture is open, packets pass the hook without being
  written: after any number of them the file still consists of its header alone, so a reader
  finds no packet. (The calls that write packets are commented out in the hook.)\<close>

theorem recording_writes_no_packets:
  assumes "file_laws k content" and "hook_keeps_files k content"
    and "pcap_open k path s = (0, s0)" and "receive_all k pkts s0 = Some s'"
  shows "read_capture (content (world s') (pcap_fd s')) = Some (capture_hdr, [])"
proof -
  have "content (world s') (pcap_fd s') = capture_file []"
    using receive_all_files [OF assms(2,4)] pcap_open_content [OF assms(1,3)]
    by (simp add: capture_file_def)
  then show ?thesis
    using read_capture_file [of "[]"] by simp
qed

theorem recording_writes_no_packets_witness:
  "\<exists>s0 s'. pcap_open demo_kernel ''a'' (initial_globals demo_init) = (0, s0) \<and>
     receive_all demo_kernel [([0, 0, 0, 0, 0, 0, 20, 0, 0, 0, 2, 0], 12)] s0 = Some s' \<and>
     read_capture (d_files (world s') (pcap_fd s')) = Some (capture_hdr, [])"
proof -
  let ?r = "pcap_open demo_kernel ''a'' (initial_globals demo_init)"
  have o: "?r = (0, snd ?r)"
    by (simp add: pcap_open_def sys_def initial_globals_def demo_defs)
  have k: "hook_keeps_files demo_kernel d_files"
    by (simp add: hook_keeps_files_def neutral_def)
  obtain s' where r: "receive_all demo_kernel [([0, 0, 0, 0, 0, 0, 20, 0, 0, 0, 2, 0], 12)] (snd ?r) = Some s'"
    by (simp add: kwifimon_process_respose_def load_def Let_def Kwifimon.PKT_TYPE_MGMT_def sys_update)
  show ?thesis
    using o r recording_writes_no_packets [OF demo_file_laws k o r] by (intro exI conjI)
qed

section \<open>From the dumper to the ELF writer\<close>

lemma hex_digit: "n < 16 \<Longrightarrow> hex_chars ! n = CHR ''8'' \<Longrightarrow> n = 8"
  by (auto simp: hex_chars_def less_Suc_eq numeral_eq_Suc)

lemma hex8_80000:
  assumes "hex8 w = ''00080000''"
  shows "0x00080000 \<le> w"
proof -
  define d where "d = take_bit 4 (drop_bit 16 w)"
  have d: "unat d = unat (drop_bit 16 w) mod 16"
    unfolding d_def by (simp only: unsigned_take_bit_eq) (simp add: take_bit_eq_mod)
  moreover have "hex_chars ! unat d = CHR ''8''"
    using assms by (simp add: hex8_def d_def)
  ultimately have "unat d = 8"
    by (intro hex_digit) simp_all
  then have "8 \<le> unat (drop_bit 16 w)"
    unfolding d by (metis mod_less_eq_dividend)
  moreover have "unat (drop_bit 16 w) = unat w div 2 ^ 16"
    by (simp only: unsigned_drop_bit_eq) (simp add: drop_bit_eq_div take_bit_nat_eq_self)
  ultimately show ?thesis
    by (simp add: word_le_nat_alt)
qed

text \<open>C38: the dumper and the ELF writer do not fit together. Whatever the dumper wrote, complete or
  not, the ELF writer does not find its first file and dereferences a null file handle, while
  its other four files are the dumper's complete segments.\<close>

theorem dumper_feeds_bin2elf:
  assumes "\<And>n. fs n \<noteq> None \<Longrightarrow> \<exists>g \<in> set segs. \<exists>sz \<le> seg_size g. dump_name (base g) sz = ''ux0:data/'' @ n"
  shows "mapit fs garbage = None \<and>
    filter (\<lambda>d. \<not> list_ex (\<lambda>g. dump_name (base g) (seg_size g) = ''ux0:data/'' @ dname d) segs) dump_segs =
      [dump_segs ! 0]"
proof
  have "fs (dname (dump_segs ! 0)) = None"
  proof (rule ccontr)
    assume "fs (dname (dump_segs ! 0)) \<noteq> None"
    from assms [OF this] obtain g sz where g: "g \<in> set segs" "sz \<le> seg_size g"
      "dump_name (base g) sz = ''ux0:data/dump-00000000-00080000.bin''"
      by (auto simp: dump_segs_def)
    have "length (hex8 (base g)) = 8" "length (hex8 sz) = 8"
      by (simp_all add: hex8_def)
    then have "hex8 sz = ''00080000''"  "hex8 (base g) = ''00000000''"
      using g(3) by (simp_all add: dump_name_def eval_nat_numeral length_Suc_conv) auto
    moreover have "hex8 (base g) = ''00000000'' \<Longrightarrow> base g = 0"
      using g(1) by (auto simp: segs_def hex8_def hex_chars_def)
    ultimately show False
      using g(1,2) hex8_80000 [of sz] by (auto simp: segs_def word_le_nat_alt)
  qed
  then show "mapit fs garbage = None"
    by (simp add: mapit_def dump_segs_def)
  show "filter (\<lambda>d. \<not> list_ex (\<lambda>g. dump_name (base g) (seg_size g) = ''ux0:data/'' @ dname d) segs) dump_segs =
      [dump_segs ! 0]"
    by code_simp
qed

text \<open>The files of six complete dumps.\<close>

definition dumped_files :: "string \<Rightarrow> byte list option" where
  "dumped_files = map_of (map (\<lambda>g. (drop 9 (dump_name (base g) (seg_size g)),
     replicate (unat (seg_size g)) 0)) segs)"

theorem dumper_feeds_bin2elf_witness: "mapit dumped_files (replicate 0x132000 0) = None"
proof -
  have "\<exists>g \<in> set segs. \<exists>sz \<le> seg_size g. dump_name (base g) sz = ''ux0:data/'' @ n"
    if found: "dumped_files n \<noteq> None" for n
  proof -
    from found obtain g where "g \<in> set segs" "n = drop 9 (dump_name (base g) (seg_size g))"
      unfolding dumped_files_def map_of_eq_None_iff by auto
    then show ?thesis
      by (intro bexI [of _ g] exI [of _ "seg_size g"]) (simp_all add: dump_name_def)
  qed
  from dumper_feeds_bin2elf [OF this] show ?thesis
    by blast
qed

end
